(* ===== verification/Prelude.thy ===== *)
theory Prelude
  imports Main "HOL-Library.List_Lexorder" "HOL-Library.Char_ord" "HOL-Library.Code_Target_Nat"
begin

text \<open>
  What every theory shares: Go strings as byte lists, the functions of the packages
  \<^verbatim>\<open>strings\<close> and \<^verbatim>\<open>strconv\<close> the sources call, error results as sums, association
  lists for Go maps, and the lemmas about them.

  A Go string is a byte sequence, so a \<^typ>\<open>string\<close> here holds one \<^typ>\<open>char\<close> per byte and
  \<open>length\<close> is Go's \<^verbatim>\<open>len\<close>. The functions that decode UTF-8 in Go are written over the
  encodings of the code points they look for: no encoding of a code point starts inside
  another one, so matching the bytes and decoding first give the same answer, also on
  byte sequences that are not valid UTF-8.
\<close>

named_theorems go_simps \<open>unfolding rules of the Go library functions\<close>
named_theorems result_simps \<open>rules for error results\<close>

subsection \<open>Results\<close>

text \<open>A fallible call is a sum, \<^const>\<open>Inl\<close> the error. \<open>bind_res\<close> is the early return
  \<^verbatim>\<open>if err != nil { return err }\<close> and \<open>map_res\<close> a loop of such calls.\<close>

type_synonym ('e, 'a) res = "'e + 'a"

fun bind_res :: "('e, 'a) res \<Rightarrow> ('a \<Rightarrow> ('e, 'b) res) \<Rightarrow> ('e, 'b) res" where
  "bind_res (Inl e) f = Inl e"
| "bind_res (Inr a) f = f a"

lemma bind_res_Inr [result_simps]:
  "bind_res r f = Inr b \<longleftrightarrow> (\<exists>a. r = Inr a \<and> f a = Inr b)"
  by (cases r) auto

lemma bind_res_Inl [result_simps]:
  "bind_res r f = Inl e \<longleftrightarrow> r = Inl e \<or> (\<exists>a. r = Inr a \<and> f a = Inl e)"
  by (cases r) auto

lemma bind_res_cong [fundef_cong]:
  "r = r' \<Longrightarrow> (\<And>a. r' = Inr a \<Longrightarrow> f a = g a) \<Longrightarrow> bind_res r f = bind_res r' g"
  by (cases r') auto

fun map_res :: "('a \<Rightarrow> ('e, 'b) res) \<Rightarrow> 'a list \<Rightarrow> ('e, 'b list) res" where
  "map_res f [] = Inr []"
| "map_res f (x # xs) = bind_res (f x) (\<lambda>y. bind_res (map_res f xs) (\<lambda>ys. Inr (y # ys)))"

lemma map_res_cong [fundef_cong]:
  "xs = ys \<Longrightarrow> (\<And>x. x \<in> set ys \<Longrightarrow> f x = g x) \<Longrightarrow> map_res f xs = map_res g ys"
proof (induction xs arbitrary: ys)
  case Nil
  then show ?case by auto
next
  case (Cons x xs)
  then show ?case by (cases ys) auto
qed

lemma map_res_Inr_iff: "map_res f xs = Inr ys \<longleftrightarrow> list_all2 (\<lambda>x y. f x = Inr y) xs ys"
proof (induction xs arbitrary: ys)
  case Nil
  then show ?case by auto
next
  case (Cons x xs)
  then show ?case by (cases ys) (auto simp: result_simps)
qed

lemma map_res_in_range:
  "map_res f xs = Inr ys \<Longrightarrow> y \<in> set ys \<Longrightarrow> \<exists>x \<in> set xs. f x = Inr y"
  by (auto simp: map_res_Inr_iff list_all2_conv_all_nth set_conv_nth)

lemma map_res_Inr_map: "(\<And>x. x \<in> set xs \<Longrightarrow> f (g x) = Inr (h x)) \<Longrightarrow>
  map_res f (map g xs) = Inr (map h xs)"
  by (induction xs) auto

text \<open>A loop that updates a state and may stop with an error.\<close>

fun fold_res :: "('a \<Rightarrow> 's \<Rightarrow> ('e, 's) res) \<Rightarrow> 'a list \<Rightarrow> 's \<Rightarrow> ('e, 's) res" where
  "fold_res f [] s = Inr s"
| "fold_res f (x # xs) s = bind_res (f x s) (fold_res f xs)"

lemma fold_res_invariant:
  assumes "fold_res f xs s = Inr s'" "P s"
    and "\<And>x s s'. x \<in> set xs \<Longrightarrow> P s \<Longrightarrow> f x s = Inr s' \<Longrightarrow> P s'"
  shows "P s'"
  using assms by (induction xs arbitrary: s) (auto simp: result_simps)

lemma fold_invariant:
  assumes "P s" "\<And>x s. x \<in> set xs \<Longrightarrow> P s \<Longrightarrow> P (f x s)"
  shows "P (fold f xs s)"
  using assms by (induction xs arbitrary: s) auto

subsection \<open>Association lists for Go maps\<close>

text \<open>A Go map is an association list read with \<^const>\<open>map_of\<close>; \<open>sorted_keys\<close> is
  \<^verbatim>\<open>slices.Sorted(maps.Keys(m))\<close>, in the byte order of Go strings.\<close>

type_synonym 'a strmap = "(string \<times> 'a) list"

definition sorted_keys :: "'a strmap \<Rightarrow> string list" where
  "sorted_keys m = sort (remdups (map fst m))"

lemma set_sorted_keys [simp]: "set (sorted_keys m) = fst ` set m"
  by (simp add: sorted_keys_def)

lemma distinct_sorted_keys [simp]: "distinct (sorted_keys m)"
  by (simp add: sorted_keys_def)

lemma sorted_keys_map_of: "k \<in> set (sorted_keys m) \<longleftrightarrow> map_of m k \<noteq> None"
  by (simp add: map_of_eq_None_iff)

definition delete_key :: "string \<Rightarrow> 'a strmap \<Rightarrow> 'a strmap" where
  "delete_key k m = filter (\<lambda>(k', _). k' \<noteq> k) m"

lemma map_of_delete_key: "map_of (delete_key k m) = (map_of m)(k := None)"
  by (induction m) (auto simp: delete_key_def fun_eq_iff)

lemma fst_delete_key: "fst ` set (delete_key k m) = fst ` set m - {k}"
  by (force simp: delete_key_def)

subsection \<open>The strings package\<close>

definition has_prefix :: "string \<Rightarrow> string \<Rightarrow> bool" where
  "has_prefix s p \<longleftrightarrow> take (length p) s = p"

definition has_suffix :: "string \<Rightarrow> string \<Rightarrow> bool" where
  "has_suffix s p \<longleftrightarrow> has_prefix (rev s) (rev p)"

lemma has_prefix_append: "has_prefix s p \<longleftrightarrow> (\<exists>t. s = p @ t)"
  by (auto simp: has_prefix_def) (metis append_take_drop_id)

fun contains_str :: "string \<Rightarrow> string \<Rightarrow> bool" where
  "contains_str [] p = (p = [])"
| "contains_str (c # s) p = (has_prefix (c # s) p \<or> contains_str s p)"

definition contains_any :: "string \<Rightarrow> string \<Rightarrow> bool" where
  "contains_any s cs \<longleftrightarrow> list_ex (\<lambda>c. c \<in> set cs) s"

text \<open>\<^verbatim>\<open>strings.Split\<close> and \<^verbatim>\<open>strings.Cut\<close> with a one-byte separator, \<^verbatim>\<open>strings.Join\<close>.\<close>

fun split_on :: "char \<Rightarrow> string \<Rightarrow> string list" where
  "split_on c [] = [[]]"
| "split_on c (x # xs) =
     (if x = c then [] # split_on c xs
      else (case split_on c xs of [] \<Rightarrow> [[x]] | y # ys \<Rightarrow> (x # y) # ys))"

fun join :: "string \<Rightarrow> string list \<Rightarrow> string" where
  "join sep [] = []"
| "join sep [x] = x"
| "join sep (x # y # xs) = x @ sep @ join sep (y # xs)"

definition cut_at :: "char \<Rightarrow> string \<Rightarrow> string \<times> string \<times> bool" where
  "cut_at c s = (takeWhile (\<lambda>x. x \<noteq> c) s, tl (dropWhile (\<lambda>x. x \<noteq> c) s), c \<in> set s)"

lemma split_on_ne [simp]: "split_on c s \<noteq> []"
  by (induction s) (auto split: list.splits)

lemma split_on_no_sep: "x \<in> set (split_on c s) \<Longrightarrow> c \<notin> set x"
proof (induction s arbitrary: x)
  case Nil
  then show ?case by simp
next
  case (Cons a s)
  then show ?case
    by (cases "split_on c s") (auto split: if_splits)
qed

lemma split_on_free: "c \<notin> set s \<Longrightarrow> split_on c s = [s]"
  by (induction s) auto

lemma split_on_append: "c \<notin> set s \<Longrightarrow> split_on c (s @ c # t) = s # split_on c t"
  by (induction s) auto

lemma split_on_join:
  "xs \<noteq> [] \<Longrightarrow> (\<And>x. x \<in> set xs \<Longrightarrow> c \<notin> set x) \<Longrightarrow> split_on c (join [c] xs) = xs"
  by (induction "[c]" xs rule: join.induct) (auto simp: split_on_free split_on_append)

lemma join_split_on: "join [c] (split_on c s) = s"
proof (induction s)
  case Nil
  then show ?case by simp
next
  case (Cons a s)
  show ?case
  proof (cases "split_on c s")
    case Nil
    then show ?thesis by simp
  next
    case (Cons y ys)
    with \<open>join [c] (split_on c s) = s\<close> show ?thesis by (cases ys) auto
  qed
qed

lemma split_on_append_gen:
  "split_on c (s @ c # t) = split_on c s @ split_on c t"
  by (induction s) (auto split: list.splits)

lemma cut_at_append: "c \<in> set s \<Longrightarrow> s = fst (cut_at c s) @ c # fst (snd (cut_at c s))"
proof (induction s)
  case Nil
  then show ?case by simp
next
  case (Cons a s)
  then show ?case by (cases "a = c") (auto simp: cut_at_def)
qed

text \<open>White space and control characters as Unicode has them: \<open>spaces\<close> lists the UTF-8
  encodings of the code points for which \<^verbatim>\<open>unicode.IsSpace\<close> holds, and \<open>has_control\<close> looks for
  the C0 bytes, DEL and the two-byte encodings of U+0080 to U+009F.\<close>

definition spaces :: "string list" where
  "spaces = [[CHR 0x20], [CHR 0x09], [CHR 0x0A], [CHR 0x0B], [CHR 0x0C], [CHR 0x0D],
     [CHR 0xC2, CHR 0x85], [CHR 0xC2, CHR 0xA0], [CHR 0xE1, CHR 0x9A, CHR 0x80],
     [CHR 0xE2, CHR 0x80, CHR 0x80], [CHR 0xE2, CHR 0x80, CHR 0x81],
     [CHR 0xE2, CHR 0x80, CHR 0x82], [CHR 0xE2, CHR 0x80, CHR 0x83],
     [CHR 0xE2, CHR 0x80, CHR 0x84], [CHR 0xE2, CHR 0x80, CHR 0x85],
     [CHR 0xE2, CHR 0x80, CHR 0x86], [CHR 0xE2, CHR 0x80, CHR 0x87],
     [CHR 0xE2, CHR 0x80, CHR 0x88], [CHR 0xE2, CHR 0x80, CHR 0x89],
     [CHR 0xE2, CHR 0x80, CHR 0x8A], [CHR 0xE2, CHR 0x80, CHR 0xA8],
     [CHR 0xE2, CHR 0x80, CHR 0xA9], [CHR 0xE2, CHR 0x80, CHR 0xAF],
     [CHR 0xE2, CHR 0x81, CHR 0x9F], [CHR 0xE3, CHR 0x80, CHR 0x80]]"

definition leading :: "string list \<Rightarrow> string \<Rightarrow> string option" where
  "leading es s = find (\<lambda>e. e \<noteq> [] \<and> has_prefix s e) es"

lemma leading_SomeD: "leading es s = Some e \<Longrightarrow> e \<in> set es \<and> e \<noteq> [] \<and> s = e @ drop (length e) s"
  by (auto simp: leading_def find_Some_iff has_prefix_def) (metis append_take_drop_id)

lemma leading_shorter: "leading es s = Some e \<Longrightarrow> length (drop (length e) s) < length s"
  by (drule leading_SomeD) (metis length_append length_greater_0_conv less_add_same_cancel2)

function strip_left :: "string list \<Rightarrow> string \<Rightarrow> string" where
  "strip_left es s = (case leading es s of None \<Rightarrow> s | Some e \<Rightarrow> strip_left es (drop (length e) s))"
  by pat_completeness auto
termination
  by (relation "measure (\<lambda>(es, s). length s)") (auto dest: leading_shorter)

declare strip_left.simps [simp del]

definition trim_left :: "string \<Rightarrow> string" where
  "trim_left s = strip_left spaces s"

definition trim_right :: "string \<Rightarrow> string" where
  "trim_right s = rev (strip_left (map rev spaces) (rev s))"

definition trim_space :: "string \<Rightarrow> string" where
  "trim_space s = trim_right (trim_left s)"

lemma strip_left_idem: "leading es (strip_left es s) = None"
proof (induction es s rule: strip_left.induct)
  case (1 es s)
  then show ?case by (cases "leading es s") (simp_all add: strip_left.simps[of es s])
qed

lemma strip_left_suffix: "\<exists>p. s = p @ strip_left es s"
proof (induction es s rule: strip_left.induct)
  case (1 es s)
  show ?case
  proof (cases "leading es s")
    case None
    then show ?thesis by (simp add: strip_left.simps[of es s])
  next
    case (Some e)
    from "1"[OF Some] obtain p where p: "drop (length e) s = p @ strip_left es (drop (length e) s)"
      by blast
    from leading_SomeD[OF Some] have "s = e @ drop (length e) s" by blast
    with p have "s = (e @ p) @ strip_left es (drop (length e) s)" by (metis append_assoc)
    with Some show ?thesis by (metis strip_left.simps option.case(2))
  qed
qed

lemma strip_left_length: "length (strip_left es s) \<le> length s"
  using strip_left_suffix[of s es] by (metis length_append le_add2)

lemma strip_left_set: "set (strip_left es s) \<subseteq> set s"
  using strip_left_suffix[of s es] by (metis Un_upper2 set_append)

lemma strip_left_id: "leading es s = None \<Longrightarrow> strip_left es s = s"
  by (simp add: strip_left.simps)

lemma strip_left_id_iff: "strip_left es s = s \<longleftrightarrow> leading es s = None"
proof
  assume "strip_left es s = s"
  then show "leading es s = None" using strip_left_idem[of es s] by simp
qed (rule strip_left_id)

lemma leading_mono: "leading es (s @ t) = None \<Longrightarrow> leading es s = None"
  by (auto simp: leading_def find_None_iff has_prefix_append)

lemma trim_space_length: "length (trim_space s) \<le> length s"
  by (metis trim_space_def trim_left_def trim_right_def length_rev strip_left_length order_trans)

lemma trim_space_set: "set (trim_space s) \<subseteq> set s"
  unfolding trim_space_def trim_left_def trim_right_def
  using strip_left_set by (metis set_rev subset_trans)

text \<open>A trimmed string stays as it is: trimming the right end leaves a prefix, and a prefix
  of a string without leading white space has none either.\<close>

lemma trim_space_fixed_iff:
  "trim_space s = s \<longleftrightarrow> leading spaces s = None \<and> leading (map rev spaces) (rev s) = None"
proof
  assume fixed: "trim_space s = s"
  then have len: "length (strip_left spaces s) = length s"
    using strip_left_length[of "map rev spaces" "rev (strip_left spaces s)"] strip_left_length[of spaces s]
    by (auto simp: trim_space_def trim_left_def trim_right_def) (metis length_rev le_antisym)
  obtain p where "s = p @ strip_left spaces s" using strip_left_suffix by blast
  with len have left: "strip_left spaces s = s" by (metis append_self_conv2 length_0_conv length_append add_eq_self_zero add.commute)
  then have "strip_left (map rev spaces) (rev s) = rev s"
    using fixed by (simp add: trim_space_def trim_left_def trim_right_def) (metis rev_rev_ident)
  with left show "leading spaces s = None \<and> leading (map rev spaces) (rev s) = None"
    by (simp add: strip_left_id_iff)
next
  assume "leading spaces s = None \<and> leading (map rev spaces) (rev s) = None"
  then show "trim_space s = s"
    by (simp add: trim_space_def trim_left_def trim_right_def strip_left_id)
qed

lemma trim_space_idem [simp]: "trim_space (trim_space s) = trim_space s"
proof -
  let ?l = "strip_left spaces s"
  let ?r = "strip_left (map rev spaces) (rev ?l)"
  obtain p where "rev ?l = p @ ?r" using strip_left_suffix by blast
  then have "?l = rev ?r @ rev p" by (metis rev_append rev_rev_ident)
  then have "leading spaces (rev ?r) = None"
    using strip_left_idem[of spaces s] by (metis leading_mono)
  moreover have "leading (map rev spaces) ?r = None" by (rule strip_left_idem)
  ultimately show ?thesis
    by (subst trim_space_fixed_iff) (simp add: trim_space_def trim_left_def trim_right_def)
qed

lemma trim_space_Nil [simp]: "trim_space [] = []"
  using trim_space_length[of "[]"] by simp

fun has_control :: "string \<Rightarrow> bool" where
  "has_control [] = False"
| "has_control (c # s) =
     (c < CHR 0x20 \<or> c = CHR 0x7F
      \<or> (c = CHR 0xC2 \<and> (case s of [] \<Rightarrow> False | d # _ \<Rightarrow> CHR 0x80 \<le> d \<and> d \<le> CHR 0x9F))
      \<or> has_control s)"

lemma has_control_ascii: "has_control s = False \<Longrightarrow> c \<in> set s \<Longrightarrow> CHR 0x20 \<le> c"
  by (induction s) (auto simp: not_less)

text \<open>\<^verbatim>\<open>strings.Fields\<close>: the maximal runs without white space.\<close>

function fields_from :: "string \<Rightarrow> string \<Rightarrow> string list" where
  "fields_from acc s =
     (case s of [] \<Rightarrow> (if acc = [] then [] else [acc])
      | c # s' \<Rightarrow>
          (case leading spaces s of
             None \<Rightarrow> fields_from (acc @ [c]) s'
           | Some e \<Rightarrow> (if acc = [] then [] else [acc]) @ fields_from [] (drop (length e) s)))"
  by pat_completeness auto
termination
  by (relation "measure (\<lambda>(acc, s). length s)") (auto dest: leading_shorter)

declare fields_from.simps [simp del]

definition str_fields :: "string \<Rightarrow> string list" where
  "str_fields s = fields_from [] s"

text \<open>\<^verbatim>\<open>strings.ToUpper\<close> and \<^verbatim>\<open>strings.ToLower\<close> map bytes on an ASCII string; on any other string
  they consult Unicode's case tables, the parameter \<open>uni\<close>.\<close>

definition is_ascii :: "string \<Rightarrow> bool" where
  "is_ascii s \<longleftrightarrow> list_all (\<lambda>c. c < CHR 0x80) s"

definition upper_char :: "char \<Rightarrow> char" where
  "upper_char c = (if CHR ''a'' \<le> c \<and> c \<le> CHR ''z'' then char_of (of_char c - (32 :: nat)) else c)"

definition lower_char :: "char \<Rightarrow> char" where
  "lower_char c = (if CHR ''A'' \<le> c \<and> c \<le> CHR ''Z'' then char_of (of_char c + (32 :: nat)) else c)"

definition to_upper :: "(string \<Rightarrow> string) \<Rightarrow> string \<Rightarrow> string" where
  "to_upper uni s = (if is_ascii s then map upper_char s else uni s)"

definition to_lower :: "(string \<Rightarrow> string) \<Rightarrow> string \<Rightarrow> string" where
  "to_lower uni s = (if is_ascii s then map lower_char s else uni s)"

subsection \<open>The strconv package\<close>

definition is_digit :: "char \<Rightarrow> bool" where
  "is_digit c \<longleftrightarrow> CHR ''0'' \<le> c \<and> c \<le> CHR ''9''"

definition digit_val :: "char \<Rightarrow> nat" where
  "digit_val c = of_char c - 48"

definition digit_char :: "nat \<Rightarrow> char" where
  "digit_char n = char_of (n + 48)"

definition nat_of_digits :: "string \<Rightarrow> nat" where
  "nat_of_digits s = foldl (\<lambda>n c. 10 * n + digit_val c) 0 s"

text \<open>\<^verbatim>\<open>ParseUint(s, 10, bits)\<close> takes no sign and no underscore.\<close>

definition parse_uint :: "nat \<Rightarrow> string \<Rightarrow> nat option" where
  "parse_uint bits s =
     (if s \<noteq> [] \<and> list_all is_digit s \<and> nat_of_digits s < 2 ^ bits then Some (nat_of_digits s) else None)"

text \<open>\<^verbatim>\<open>ParseInt(s, 10, 64)\<close>, which is also \<^verbatim>\<open>Atoi(s)\<close> on a 64-bit platform.\<close>

definition parse_int :: "string \<Rightarrow> int option" where
  "parse_int s =
     (let (neg, t) = (case s of CHR ''-'' # t \<Rightarrow> (True, t) | CHR ''+'' # t \<Rightarrow> (False, t) | _ \<Rightarrow> (False, s))
      in case parse_uint 64 t of
           None \<Rightarrow> None
         | Some n \<Rightarrow>
             if neg then (if n \<le> 2 ^ 63 then Some (- int n) else None)
             else (if n < 2 ^ 63 then Some (int n) else None))"

fun itoa_nat :: "nat \<Rightarrow> string" where
  "itoa_nat n = (if n < 10 then [digit_char n] else itoa_nat (n div 10) @ [digit_char (n mod 10)])"

declare itoa_nat.simps [simp del]

definition itoa :: "int \<Rightarrow> string" where
  "itoa i = (if i < 0 then CHR ''-'' # itoa_nat (nat (- i)) else itoa_nat (nat i))"

lemma parse_uint_bound: "parse_uint bits s = Some n \<Longrightarrow> n < 2 ^ bits"
  by (auto simp: parse_uint_def split: if_splits)

lemma parse_int_bounds: "parse_int s = Some i \<Longrightarrow> - (2 ^ 63) \<le> i \<and> i < 2 ^ 63"
  by (auto simp: parse_int_def Let_def split: prod.splits option.splits if_splits)

lemma digit_char_val: "n < 10 \<Longrightarrow> is_digit (digit_char n) \<and> digit_val (digit_char n) = n"
  by (auto simp: digit_char_def is_digit_def digit_val_def less_eq_char_def)

lemma nat_of_digits_snoc: "nat_of_digits (s @ [c]) = 10 * nat_of_digits s + digit_val c"
  by (simp add: nat_of_digits_def)

lemma itoa_nat_digits: "itoa_nat n \<noteq> [] \<and> list_all is_digit (itoa_nat n) \<and> nat_of_digits (itoa_nat n) = n"
proof (induction n rule: itoa_nat.induct)
  case (1 n)
  show ?case
  proof (cases "n < 10")
    case True
    then show ?thesis
      by (simp add: itoa_nat.simps[of n] nat_of_digits_def digit_char_val)
  next
    case False
    with "1" show ?thesis
      by (simp add: itoa_nat.simps[of n] nat_of_digits_snoc digit_char_val)
  qed
qed

text \<open>Printing a number and parsing it back.\<close>

lemma parse_uint_itoa: "n < 2 ^ bits \<Longrightarrow> parse_uint bits (itoa_nat n) = Some n"
  by (simp add: parse_uint_def itoa_nat_digits)

lemma itoa_nat_inj: "itoa_nat m = itoa_nat n \<Longrightarrow> m = n"
  using itoa_nat_digits by metis

end
