(* ===== verification/Core_Types.thy ===== *)
theory Core_Types
  imports Prelude "HOL-Library.Word"
begin

text \<open>
  The data that crosses the components: dynamic values as a YAML decoder or a share-link
  reader returns them, and the configuration types of \<^verbatim>\<open>internal/core/core.go\<close>, with the
  two functions of that package, \<^verbatim>\<open>IntegrationRules\<close> and \<^verbatim>\<open>FilterSelections\<close>.
\<close>

subsection \<open>Dynamic values\<close>

text \<open>A \<^verbatim>\<open>float64\<close> is a dyadic rational \<open>m * 2 ^ e\<close>, an infinity or NaN. A value of type
  \<^verbatim>\<open>any\<close> is one of the kinds the sources distinguish; \<open>GOther\<close> stands for every kind they
  refuse, such as a time, and \<open>GAnyMap\<close> for a map with a key that is not a string.\<close>

datatype float64 = Dyadic int int | Inf bool | NaN

definition float_int :: "float64 \<Rightarrow> int option" where
  "float_int f = (case f of
     Dyadic m e \<Rightarrow>
       if 0 \<le> e then Some (m * 2 ^ nat e)
       else (let d = 2 ^ nat (- e) in if m mod d = 0 then Some (m div d) else None)
   | _ \<Rightarrow> None)"

datatype goval =
    GNil
  | GBool bool
  | GInt int
  | GUint nat
  | GFloat float64
  | GStr string
  | GList "goval list"
  | GMap "(string \<times> goval) list"
  | GAnyMap
  | GOther

text \<open>The type assertions \<^verbatim>\<open>v.(string)\<close>, \<^verbatim>\<open>v.(bool)\<close>, \<^verbatim>\<open>v.([]any)\<close> and
  \<^verbatim>\<open>v.(map[string]any)\<close> on the entry of a map, absent entries included.\<close>

definition str_at :: "goval strmap \<Rightarrow> string \<Rightarrow> string option" where
  "str_at m k = (case map_of m k of Some (GStr s) \<Rightarrow> Some s | _ \<Rightarrow> None)"

definition bool_at :: "goval strmap \<Rightarrow> string \<Rightarrow> bool option" where
  "bool_at m k = (case map_of m k of Some (GBool b) \<Rightarrow> Some b | _ \<Rightarrow> None)"

definition list_at :: "goval strmap \<Rightarrow> string \<Rightarrow> goval list option" where
  "list_at m k = (case map_of m k of Some (GList xs) \<Rightarrow> Some xs | _ \<Rightarrow> None)"

definition map_at :: "goval strmap \<Rightarrow> string \<Rightarrow> goval strmap option" where
  "map_at m k = (case map_of m k of Some (GMap x) \<Rightarrow> Some x | _ \<Rightarrow> None)"

text \<open>\<^verbatim>\<open>s, _ := v.(string)\<close>: the zero value when the assertion fails.\<close>

definition str_or_empty :: "goval strmap \<Rightarrow> string \<Rightarrow> string" where
  "str_or_empty m k = (case str_at m k of Some s \<Rightarrow> s | None \<Rightarrow> [])"

subsection \<open>Address prefixes\<close>

text \<open>A \<^verbatim>\<open>netip.Prefix\<close>: an address and how many of its leading bits count.\<close>

datatype netprefix = V4 "32 word" nat | V6 "128 word" nat

datatype netaddr = A4 "32 word" | A6 "128 word"

fun prefix_contains :: "netprefix \<Rightarrow> netaddr \<Rightarrow> bool" where
  "prefix_contains (V4 p n) (A4 a) \<longleftrightarrow> drop_bit (32 - n) a = drop_bit (32 - n) p"
| "prefix_contains (V6 p n) (A6 a) \<longleftrightarrow> drop_bit (128 - n) a = drop_bit (128 - n) p"
| "prefix_contains _ _ \<longleftrightarrow> False"

definition ipv4 :: "nat \<Rightarrow> nat \<Rightarrow> nat \<Rightarrow> nat \<Rightarrow> 32 word" where
  "ipv4 a b c d = word_of_nat (((a * 256 + b) * 256 + c) * 256 + d)"

subsection \<open>core.Config\<close>

record core_rule =
  r_type :: string
  r_value :: string
  r_target :: string
  r_params :: "string list"
  r_source :: string

record core_proxy =
  px_name :: string
  px_type :: string
  px_options :: "goval strmap"

record core_group =
  g_name :: string
  g_type :: string
  g_members :: "string list"
  g_options :: "goval strmap"

record core_rule_set =
  rs_name :: string
  rs_behavior :: string
  rs_payload :: "string list"

record core_profile =
  p_proxies :: "core_proxy list"
  p_groups :: "core_group list"
  p_sub_rules :: "core_rule list strmap"
  p_rules :: "core_rule list"
  p_rule_sets :: "core_rule_set list"

definition empty_profile :: core_profile where
  "empty_profile = \<lparr>p_proxies = [], p_groups = [], p_sub_rules = [], p_rules = [], p_rule_sets = []\<rparr>"

record core_config =
  c_mode :: string
  c_tun :: bool
  c_tun_redirect :: bool
  c_tailscale :: bool
  c_tailnet_proxy :: bool
  c_omihomo_rules_disabled :: bool
  c_primary_group :: string
  c_dns_destination :: string
  c_tun_bypass :: "netprefix list"
  c_profile :: core_profile

record geodata_file =
  gd_path :: string
  gd_url :: string

text \<open>The rule sources of \<^verbatim>\<open>internal/protocol/protocol.go\<close>.\<close>

definition SourceUser :: string where "SourceUser = ''user''"
definition SourceOmihomo :: string where "SourceOmihomo = ''omihomo''"
definition SourceSubscription :: string where "SourceSubscription = ''subscription''"

lemmas source_defs = SourceUser_def SourceOmihomo_def SourceSubscription_def

definition IntegrationRules :: "core_config \<Rightarrow> core_rule list" where
  "IntegrationRules cfg =
     (let add = (\<lambda>typ value target params.
            \<lparr>r_type = typ, r_value = value, r_target = target, r_params = params, r_source = SourceOmihomo\<rparr>)
      in if p_groups (c_profile cfg) = [] then []
         else (if c_tailnet_proxy cfg
               then [add ''IP-CIDR'' ''100.64.0.0/10'' ''GLOBAL'' [''no-resolve''],
                     add ''DOMAIN-SUFFIX'' ''ts.net'' ''GLOBAL'' []]
               else [])
            @ (if c_tailscale cfg
               then [add ''IP-CIDR'' ''100.64.0.0/10'' ''DIRECT'' [''no-resolve''],
                     add ''IP-CIDR'' ''fd7a:115c:a1e0::/48'' ''DIRECT'' [''no-resolve''],
                     add ''DOMAIN-SUFFIX'' ''tailscale.com'' ''GLOBAL'' [],
                     add ''DOMAIN-SUFFIX'' ''tailscale.io'' ''GLOBAL'' []]
               else []))"

lemma IntegrationRules_source: "r \<in> set (IntegrationRules cfg) \<Longrightarrow> r_source r = SourceOmihomo"
  by (auto simp: IntegrationRules_def Let_def split: if_splits)

text \<open>\<^verbatim>\<open>FilterSelections\<close> assigns to the result map once per group, so a later group of
  the same name overwrites an earlier one; the result is read with \<^const>\<open>map_of\<close>.\<close>

definition FilterSelections :: "core_profile \<Rightarrow> string strmap \<Rightarrow> string strmap" where
  "FilterSelections p saved =
     fold (\<lambda>g selected.
        case map_of saved (g_name g) of
          Some member \<Rightarrow>
            if g_type g = ''select'' \<and> member \<in> set (g_members g)
            then (g_name g, member) # delete_key (g_name g) selected else selected
        | None \<Rightarrow> selected) (p_groups p) []"

lemma FilterSelections_sound:
  assumes "map_of (FilterSelections p saved) g = Some m"
  shows "map_of saved g = Some m
    \<and> (\<exists>grp \<in> set (p_groups p). g_name grp = g \<and> g_type grp = ''select'' \<and> m \<in> set (g_members grp))"
proof -
  let ?P = "\<lambda>sel. \<forall>g m. map_of sel g = Some m \<longrightarrow> map_of saved g = Some m
    \<and> (\<exists>grp \<in> set (p_groups p). g_name grp = g \<and> g_type grp = ''select'' \<and> m \<in> set (g_members grp))"
  have "?P (FilterSelections p saved)"
    unfolding FilterSelections_def
    by (rule fold_invariant) (auto simp: map_of_delete_key split: option.splits if_splits)
  with assms show ?thesis by blast
qed

end
