(* ===== verification/Protocol.thy ===== *)
theory Protocol
  imports Core_Types
begin

text \<open>
  \<^verbatim>\<open>internal/protocol\<close>: the settings, rule entries and replies the daemon and its clients
  exchange, the error codes, and \<^verbatim>\<open>PruneCategories\<close>; and \<^verbatim>\<open>internal/state\<close>'s records, which
  embed them.

  A message is the list of the pieces it was put together from, each a format and its arguments:
  \<^verbatim>\<open>fmt\<close>'s rendering adds nothing the daemon looks at again.
\<close>

subsection \<open>Errors\<close>

datatype code = CodeBadRequest | CodeUnknownOp | CodeInvalid | CodeNotFound | CodeNotRunning | CodeConflict
  | CodeUnsupported | CodeBusy | CodeForbidden | CodeCore | CodeTooLarge | CodeFetch | CodeRejected | CodeInternal

type_synonym msg = "(string \<times> string list) list"

record perr =
  pe_code :: code
  pe_message :: msg

definition fail :: "code \<Rightarrow> string \<Rightarrow> string list \<Rightarrow> perr" where
  "fail code format args = \<lparr>pe_code = code, pe_message = [(format, args)]\<rparr>"

text \<open>\<^verbatim>\<open>fail(code, "%v", err)\<close>: the message is the error's own text after what the format says first.\<close>

definition fail_with :: "code \<Rightarrow> string \<Rightarrow> string list \<Rightarrow> msg \<Rightarrow> perr" where
  "fail_with code format args text = \<lparr>pe_code = code, pe_message = (format, args) # text\<rparr>"

lemma fail_sel [simp]:
  "pe_code (fail c f a) = c" "pe_message (fail c f a) = [(f, a)]"
  "pe_code (fail_with c f a t) = c" "pe_message (fail_with c f a t) = (f, a) # t"
  by (simp_all add: fail_def fail_with_def)

text \<open>The sentinels \<^verbatim>\<open>errors.Is\<close> asks an error of the core about.\<close>

datatype sentinel = ErrInvalid | ErrNotRunning | ErrNotFound | ErrStopped | DeadlineExceeded

record core_err =
  ce_is :: "sentinel list"
  ce_text :: msg

definition errors_is :: "core_err \<Rightarrow> sentinel \<Rightarrow> bool" where
  "errors_is e s \<longleftrightarrow> s \<in> set (ce_is e)"

subsection \<open>States and modes\<close>

datatype proxy_state = StateStopped | StateStarting | StateOn | StateDegraded

definition ModeRule :: string where "ModeRule = ''rule''"
definition ModeGlobal :: string where "ModeGlobal = ''global''"
definition ModeDirect :: string where "ModeDirect = ''direct''"

subsection \<open>Settings and rules\<close>

record category_targets =
  ct_domains :: string
  ct_addresses :: string
  ct_applications :: string
  ct_ports :: string
  ct_inbound :: string
  ct_rule_sets :: string
  ct_logic :: string
  ct_other :: string

definition no_category_targets :: category_targets where
  "no_category_targets = \<lparr>ct_domains = [], ct_addresses = [], ct_applications = [], ct_ports = [], ct_inbound = [],
     ct_rule_sets = [], ct_logic = [], ct_other = []\<rparr>"

record settings =
  s_category_targets :: category_targets
  s_omihomo_rules_disabled :: bool
  s_subscription_rules_disabled :: bool
  s_mode :: string
  s_tun :: bool
  s_tun_redirect :: bool
  s_tailscale :: bool
  s_tailnet_proxy :: bool
  s_primary_group :: string
  s_dns_destination :: string

text \<open>A \<^verbatim>\<open>RuleEntry\<close> and the \<^verbatim>\<open>RuleCategory\<close> it may point to.\<close>

datatype rule_entry = RuleEntry (re_type: string) (re_value: string) (re_target: string) (re_params: string)
    (re_disabled: bool) (re_category: "rule_category option")
  and rule_category = RuleCategory (rc_id: string) (rc_name: string) (rc_rules: "rule_entry list")

definition PruneCategories :: "rule_entry list \<Rightarrow> rule_entry list" where
  "PruneCategories entries =
     filter (\<lambda>e. case re_category e of None \<Rightarrow> True | Some c \<Rightarrow> rc_rules c \<noteq> []) entries"

lemma PruneCategories_idem [simp]: "PruneCategories (PruneCategories es) = PruneCategories es"
  by (simp add: PruneCategories_def)

record apply_args =
  aa_settings :: settings
  aa_rules :: "rule_entry list"

definition default_settings :: settings where
  "default_settings = \<lparr>s_category_targets = no_category_targets, s_omihomo_rules_disabled = False,
     s_subscription_rules_disabled = False, s_mode = ModeRule, s_tun = False, s_tun_redirect = False,
     s_tailscale = False, s_tailnet_proxy = False, s_primary_group = [], s_dns_destination = []\<rparr>"

definition Default :: apply_args where
  "Default = \<lparr>aa_settings = default_settings, aa_rules = []\<rparr>"

subsection \<open>The daemon's records\<close>

text \<open>\<^verbatim>\<open>state.Settings\<close> embeds \<^verbatim>\<open>protocol.Settings\<close>.\<close>

record state_settings =
  st_settings :: settings
  st_rules :: "rule_entry list"
  st_running :: bool

definition DefaultSettings :: state_settings where
  "DefaultSettings = \<lparr>st_settings = default_settings, st_rules = [], st_running = False\<rparr>"

text \<open>Times are unix milliseconds.\<close>

record subscription =
  sb_id :: string
  sb_name :: string
  sb_url :: string
  sb_updated_at :: int
  sb_interval_seconds :: int
  sb_upload :: "int option"
  sb_download :: "int option"
  sb_total :: "int option"
  sb_expire :: "int option"
  sb_last_attempt :: int
  sb_retry_at :: int
  sb_held_until :: int
  sb_last_error :: msg

record subscriptions =
  su_active :: string
  su_list :: "subscription list"

record snapshot =
  sn_body :: string
  sn_providers :: "string strmap"

text \<open>\<^verbatim>\<open>validID\<close>, the regular expression \<open>^[0-9a-f]{32}$\<close>.\<close>

definition validID :: "string \<Rightarrow> bool" where
  "validID s \<longleftrightarrow> length s = 32
     \<and> list_all (\<lambda>c. is_digit c \<or> CHR ''a'' \<le> c \<and> c \<le> CHR ''f'') s"

subsection \<open>What the daemon answers\<close>

record rule_item =
  ru_type :: string
  ru_value :: string
  ru_target :: string
  ru_source :: string
  ru_params :: string
  ru_inactive :: bool
  ru_index :: nat
  ru_category :: string
  ru_disabled :: bool
  ru_unreachable :: bool
  ru_inactive_reason :: string

record rule_list =
  rl_rules :: "rule_item list"
  rl_entries :: "rule_entry list"
  rl_omihomo_disabled :: bool
  rl_subscription_disabled :: bool
  rl_rule_sets :: "string list"
  rl_sub_rules :: "string list"

record status =
  ss_state :: proxy_state
  ss_detail :: msg
  ss_active_subscription :: string
  ss_primary_group :: string
  ss_dns_destination :: string
  ss_mode :: string
  ss_tun :: bool
  ss_tun_redirect :: bool
  ss_tailscale :: bool
  ss_tailscale_present :: bool
  ss_tailnet_proxy :: bool
  ss_started_at :: int
  ss_tun_bypass :: "netprefix list"

record sub_item =
  si_name :: string
  si_updated_at :: int
  si_upload :: "int option"
  si_download :: "int option"
  si_total :: "int option"
  si_expire :: "int option"
  si_active :: bool
  si_interval :: int
  si_next_update :: int
  si_error :: msg

record proxy_item =
  pi_name :: string
  pi_type :: string
  pi_alive :: bool
  pi_delay :: int

record group_item =
  gi_name :: string
  gi_type :: string
  gi_now :: string
  gi_selectable :: bool
  gi_members :: "proxy_item list"

record download_request =
  dr_id :: string
  dr_label :: string

record open_connection =
  oc_id :: string
  oc_network :: string
  oc_inbound :: string
  oc_host :: string
  oc_process :: string
  oc_source_ip :: string
  oc_source_port :: nat
  oc_destination_ip :: string
  oc_destination_port :: nat
  oc_chain :: string
  oc_rule :: string
  oc_upload :: int
  oc_download :: int
  oc_started_at :: int

record connections =
  cs_upload_total :: int
  cs_download_total :: int
  cs_open :: nat
  cs_connections :: "open_connection list"

record traffic =
  tr_up :: int
  tr_down :: int

end
