(* ===== verification/Store.thy ===== *)
theory Store
  imports Protocol
begin

text \<open>
  \<^verbatim>\<open>internal/state/state.go\<close>: what the daemon remembers across restarts. A directory is a map from the paths below it to
  contents; \<open>codec\<close> stands for \<^verbatim>\<open>encoding/json\<close> on the three types that are stored. Every step of \<^verbatim>\<open>write\<close>
  may fail, and the machine may stop between any two: \<open>write_fault\<close> and \<open>crashed\<close>.
\<close>

type_synonym disk = "string \<Rightarrow> string option"

record codec =
  enc_settings :: "state_settings \<Rightarrow> string option"
  dec_settings :: "string \<Rightarrow> state_settings option"
  enc_subs :: "subscriptions \<Rightarrow> string option"
  dec_subs :: "string \<Rightarrow> subscriptions option"
  enc_snapshot :: "snapshot \<Rightarrow> string option"
  dec_snapshot :: "string \<Rightarrow> snapshot option"

text \<open>What the daemon relies on: what was encoded decodes, the line break after it included.\<close>

definition codec_ok :: "codec \<Rightarrow> bool" where
  "codec_ok K \<longleftrightarrow> (\<forall>v b. enc_settings K v = Some b \<longrightarrow> dec_settings K (b @ [CHR 0x0A]) = Some v)
     \<and> (\<forall>v b. enc_subs K v = Some b \<longrightarrow> dec_subs K (b @ [CHR 0x0A]) = Some v)
     \<and> (\<forall>v b. enc_snapshot K v = Some b \<longrightarrow> dec_snapshot K (b @ [CHR 0x0A]) = Some v)"

subsection \<open>Files\<close>

definition settingsFile :: string where "settingsFile = ''settings.json''"
definition subscriptionsFile :: string where "subscriptionsFile = ''subscriptions.json''"
definition snapshotDir :: string where "snapshotDir = ''subscriptions''"

datatype read_error = NotExist | Unreadable

text \<open>\<^verbatim>\<open>read\<close>, with the decoder of what is read.\<close>

definition read_file :: "(string \<Rightarrow> 'a option) \<Rightarrow> string \<Rightarrow> disk \<Rightarrow> (read_error, 'a) res" where
  "read_file dec name d =
     (case d name of
        None \<Rightarrow> Inl NotExist
      | Some b \<Rightarrow> (case dec b of None \<Rightarrow> Inl Unreadable | Some v \<Rightarrow> Inr v))"

datatype write_fault = NoFault | FailCreate | FailChmod | FailWrite nat | FailSync | FailClose | FailRename

text \<open>\<^verbatim>\<open>os.CreateTemp(filepath.Dir(path), "."+filepath.Base(name)+"-*")\<close> with the suffix it picks.\<close>

definition dir_part :: "string \<Rightarrow> string" where
  "dir_part p = rev (dropWhile (\<lambda>c. c \<noteq> CHR ''/'') (rev p))"

definition file_part :: "string \<Rightarrow> string" where
  "file_part p = rev (takeWhile (\<lambda>c. c \<noteq> CHR ''/'') (rev p))"

definition temp_name :: "string \<Rightarrow> string \<Rightarrow> string" where
  "temp_name name suffix = dir_part name @ ''.'' @ file_part name @ ''-'' @ suffix"

definition write_failed :: "string \<Rightarrow> msg" where
  "write_failed name = [(''write %s: %w'', [name])]"

definition write_file :: "write_fault \<Rightarrow> string \<Rightarrow> string \<Rightarrow> string option \<Rightarrow> disk \<Rightarrow> msg option \<times> disk" where
  "write_file fault suffix name encoded d =
     (case encoded of
        None \<Rightarrow> (Some (write_failed name), d)
      | Some b \<Rightarrow>
          (if fault = FailCreate then (Some (write_failed name), d)
           else
             let tmp = temp_name name suffix; dat = b @ [CHR 0x0A];
                 d1 = d(tmp \<mapsto> []);
                 (bad, d2) = (case fault of
                     FailChmod \<Rightarrow> (True, d1)
                   | FailWrite n \<Rightarrow> (True, d1(tmp \<mapsto> take n dat))
                   | FailSync \<Rightarrow> (True, d1(tmp \<mapsto> dat))
                   | _ \<Rightarrow> (False, d1(tmp \<mapsto> dat)));
                 bad = (bad \<or> fault = FailClose \<or> fault = FailRename)
             in if bad then (Some (write_failed name), d2(tmp := None))
                else (None, (d2(name := d2 tmp))(tmp := None))))"

text \<open>The disks a crash in the middle of \<^verbatim>\<open>write\<close> may leave: before anything, with part of the new file under its temporary
  name, or after the rename.\<close>

inductive crashed :: "string \<Rightarrow> string \<Rightarrow> string \<Rightarrow> disk \<Rightarrow> disk \<Rightarrow> bool" for suffix name b d where
  before: "crashed suffix name b d d"
| partial: "crashed suffix name b d (d(temp_name name suffix \<mapsto> take n (b @ [CHR 0x0A])))"
| after: "crashed suffix name b d (d(name \<mapsto> b @ [CHR 0x0A]))"

subsection \<open>Operations\<close>

definition store_Settings :: "codec \<Rightarrow> disk \<Rightarrow> (read_error, state_settings) res" where
  "store_Settings K d =
     (case read_file (dec_settings K) settingsFile d of
        Inl NotExist \<Rightarrow> Inr (DefaultSettings\<lparr>st_rules := PruneCategories (st_rules DefaultSettings)\<rparr>)
      | Inl err \<Rightarrow> Inl err
      | Inr v \<Rightarrow> Inr (v\<lparr>st_rules := PruneCategories (st_rules v)\<rparr>))"

definition SaveSettings :: "codec \<Rightarrow> write_fault \<Rightarrow> string \<Rightarrow> state_settings \<Rightarrow> disk \<Rightarrow> msg option \<times> disk" where
  "SaveSettings K fault suffix v d = write_file fault suffix settingsFile (enc_settings K v) d"

definition store_Subscriptions :: "codec \<Rightarrow> disk \<Rightarrow> (read_error, subscriptions) res" where
  "store_Subscriptions K d =
     (case read_file (dec_subs K) subscriptionsFile d of
        Inl NotExist \<Rightarrow> Inr \<lparr>su_active = [], su_list = []\<rparr>
      | Inl err \<Rightarrow> Inl err
      | Inr v \<Rightarrow> if list_all (\<lambda>sub. validID (sb_id sub)) (su_list v) then Inr v else Inl Unreadable)"

definition SaveSubscriptions :: "codec \<Rightarrow> write_fault \<Rightarrow> string \<Rightarrow> subscriptions \<Rightarrow> disk \<Rightarrow> msg option \<times> disk" where
  "SaveSubscriptions K fault suffix v d = write_file fault suffix subscriptionsFile (enc_subs K v) d"

definition hex_digit :: "nat \<Rightarrow> char" where
  "hex_digit n = (if n < 10 then digit_char n else char_of (97 + (n - 10)))"

definition hex :: "nat list \<Rightarrow> string" where
  "hex bs = concat (map (\<lambda>b. [hex_digit (b div 16), hex_digit (b mod 16)]) bs)"

text \<open>\<^verbatim>\<open>NewID\<close> on the sixteen random bytes it reads.\<close>

definition NewID :: "nat list \<Rightarrow> string" where
  "NewID bs = hex bs"

definition snapshotFile :: "string \<Rightarrow> string option" where
  "snapshotFile i = (if validID i then Some (snapshotDir @ ''/'' @ i @ ''.json'') else None)"

definition Snapshot :: "codec \<Rightarrow> string \<Rightarrow> disk \<Rightarrow> (read_error, snapshot) res" where
  "Snapshot K i d =
     (case snapshotFile i of
        None \<Rightarrow> Inl Unreadable
      | Some name \<Rightarrow> read_file (dec_snapshot K) name d)"

definition SaveSnapshot :: "codec \<Rightarrow> write_fault \<Rightarrow> string \<Rightarrow> string \<Rightarrow> snapshot \<Rightarrow> disk \<Rightarrow> msg option \<times> disk" where
  "SaveSnapshot K fault suffix i v d =
     (case snapshotFile i of
        None \<Rightarrow> (Some [(''invalid subscription id %q'', [i])], d)
      | Some name \<Rightarrow> write_file fault suffix name (enc_snapshot K v) d)"

definition RemoveSnapshot :: "bool \<Rightarrow> string \<Rightarrow> disk \<Rightarrow> msg option \<times> disk" where
  "RemoveSnapshot fault i d =
     (case snapshotFile i of
        None \<Rightarrow> (Some [(''invalid subscription id %q'', [i])], d)
      | Some name \<Rightarrow>
          if d name = None then (None, d)
          else if fault then (Some [(''remove %s: %w'', [name])], d)
          else (None, d(name := None)))"

subsection \<open>Facts\<close>

lemma parts: "dir_part p @ file_part p = p"
  by (simp add: dir_part_def file_part_def flip: rev_append)

lemma temp_name_other: "temp_name name suffix \<noteq> name"
proof
  assume "temp_name name suffix = name"
  then have "length (temp_name name suffix) = length (dir_part name @ file_part name)" by (simp only: parts)
  then show False by (simp add: temp_name_def)
qed

text \<open>A write is all or nothing, and touches no other file. The temporary file is created, so it was not there.\<close>

lemma write_file_atomic:
  assumes "write_file fault suffix name encoded d = (r, d')" "d (temp_name name suffix) = None"
  shows "d' = (if r = None then d(name := map_option (\<lambda>b. b @ [CHR 0x0A]) encoded) else d)"
    "r = None \<Longrightarrow> encoded \<noteq> None"
proof -
  note ne = temp_name_other[of name suffix]
  have undo: "d(temp_name name suffix \<mapsto> x, temp_name name suffix := None) = d" for x
    using assms(2) by (simp add: fun_upd_idem)
  have "d' = (if r = None then d(name := map_option (\<lambda>b. b @ [CHR 0x0A]) encoded) else d) \<and> (r = None \<longrightarrow> encoded \<noteq> None)"
  proof (cases encoded)
    case None
    then show ?thesis using assms(1) by (auto simp: write_file_def)
  next
    case (Some b)
    have "(d(temp_name name suffix \<mapsto> b @ [CHR 0x0A], name \<mapsto> b @ [CHR 0x0A]))(temp_name name suffix := None)
        = d(name \<mapsto> b @ [CHR 0x0A])" using ne assms(2) by (auto simp: fun_eq_iff)
    then show ?thesis using assms(1) ne undo Some
      by (cases fault) (auto simp: write_file_def Let_def)
  qed
  then show "d' = (if r = None then d(name := map_option (\<lambda>b. b @ [CHR 0x0A]) encoded) else d)"
    "r = None \<Longrightarrow> encoded \<noteq> None" by simp_all
qed

lemma crashed_old_or_new:
  "crashed suffix name b d d' \<Longrightarrow> x \<noteq> temp_name name suffix \<Longrightarrow> d' x = d x \<or> (x = name \<and> d' x = Some (b @ [CHR 0x0A]))"
  by (auto elim!: crashed.cases split: if_splits)

text \<open>What was saved is what is read.\<close>

lemma write_read:
  assumes "write_file fault suffix name (enc v) d = (None, d')" "d (temp_name name suffix) = None"
    "\<And>b. enc v = Some b \<Longrightarrow> dec (b @ [CHR 0x0A]) = Some v"
  shows "read_file dec name d' = Inr v"
proof -
  obtain b where "enc v = Some b" using write_file_atomic(2)[OF assms(1,2)] by auto
  then show ?thesis using write_file_atomic(1)[OF assms(1,2)] assms(3) by (simp add: read_file_def)
qed

lemma digit_val_hex: "n < 16 \<Longrightarrow> is_digit (hex_digit n) \<or> CHR ''a'' \<le> hex_digit n \<and> hex_digit n \<le> CHR ''f''"
proof -
  have "list_all (\<lambda>n. is_digit (hex_digit n) \<or> CHR ''a'' \<le> hex_digit n \<and> hex_digit n \<le> CHR ''f'') [0..<16]" by code_simp
  then show "n < 16 \<Longrightarrow> ?thesis" by (simp add: list_all_iff)
qed

lemma hex_valid: "list_all (\<lambda>b. b < 256) bs \<Longrightarrow>
    length (hex bs) = 2 * length bs \<and> list_all (\<lambda>c. is_digit c \<or> CHR ''a'' \<le> c \<and> c \<le> CHR ''f'') (hex bs)"
proof (induction bs)
  case (Cons b bs)
  have "b div 16 < 16" "b mod 16 < 16" using Cons.prems by (simp_all add: less_mult_imp_div_less)
  then show ?case using Cons digit_val_hex[of "b div 16"] digit_val_hex[of "b mod 16"] by (simp add: hex_def)
qed (simp add: hex_def)

lemma NewID_valid: "length bs = 16 \<Longrightarrow> list_all (\<lambda>b. b < 256) bs \<Longrightarrow> validID (NewID bs)"
  using hex_valid[of bs] by (simp add: NewID_def validID_def)

lemma snapshotFile_inj: "snapshotFile i = Some n \<Longrightarrow> snapshotFile j = Some n \<Longrightarrow> i = j"
  by (auto simp: snapshotFile_def split: if_splits)

lemma snapshotFile_apart: "snapshotFile i = Some n \<Longrightarrow> n \<noteq> settingsFile \<and> n \<noteq> subscriptionsFile"
  by (auto simp: snapshotFile_def settingsFile_def subscriptionsFile_def snapshotDir_def split: if_splits)

end
