(* ===== verification/Update.thy ===== *)
theory Update
  imports Store
begin

text \<open>
  \<^verbatim>\<open>internal/update\<close> and \<^verbatim>\<open>cmd/omihomo-update\<close>: the command that replaces the installed package by a signed release. The
  network, the signature and hash functions, \<^verbatim>\<open>net/url\<close> and the \<^verbatim>\<open>pacman\<close> program are parameters, collected in
  \<open>update_env\<close>. A machine is the files it has, the packages \<^verbatim>\<open>pacman\<close> was told to install, and whatever else those
  parameters depend on. Nothing but the updater writes to the directory it stages a package in, which has mode 0700.
\<close>

subsection \<open>Versions and release texts\<close>

definition Repository :: string where "Repository = ''https://github.com/readeem/omihomo''"
definition MaxPackage :: int where "MaxPackage = 128 * 2 ^ 20"
definition MaxInstaller :: int where "MaxInstaller = 32 * 2 ^ 20"
definition SignatureSize :: nat where "SignatureSize = 64"
definition PublicKeySize :: nat where "PublicKeySize = 32"
definition sha256_Size :: nat where "sha256_Size = 32"

datatype update_error = BadArguments | VersionMismatch | PackageAbsent | AlreadyInstalled | NotNewer
  | NoPrivateDir | NoPrivateFile | CloseFailed | ChecksumMismatch | SignatureFailed | BadReleaseFormat
  | BadFieldOrder | BadReleaseVersion | BadReleaseSize | ReleaseTooLarge | BadChecksum | BadInstalledVersion
  | BadAddress | DownloadFailed | BadStatus nat | UnexpectedSize | Interrupted
  | NoMetadata | UnexpectedMetadata | NotRoot | CannotInspect | AmbiguousIdentity | WrongIdentity | PacmanFailed
  | BadPublicKey | WrongPlatform | Usage

text \<open>One of the three numbers of \<^verbatim>\<open>versionPattern\<close>: \<^verbatim>\<open>0|[1-9][0-9]{0,8}\<close>.\<close>

definition positiveNumber :: "string \<Rightarrow> bool" where
  "positiveNumber v \<longleftrightarrow> v \<noteq> [] \<and> length v \<le> 9 \<and> CHR ''1'' \<le> hd v \<and> hd v \<le> CHR ''9'' \<and> list_all is_digit v"

definition versionPattern :: "string \<Rightarrow> bool" where
  "versionPattern v \<longleftrightarrow> (let ps = split_on (CHR ''.'') v
     in length ps = 3 \<and> list_all (\<lambda>p. p = ''0'' \<or> positiveNumber p) ps)"

definition boundedSize :: "string \<Rightarrow> int \<Rightarrow> (update_error, int) res" where
  "boundedSize v limit =
     (if \<not> positiveNumber v then Inl BadReleaseSize
      else case parse_int v of
             None \<Rightarrow> Inl ReleaseTooLarge
           | Some n \<Rightarrow> if n > limit then Inl ReleaseTooLarge else Inr n)"

text \<open>\<^verbatim>\<open>n, _ := strconv.Atoi(part)\<close>.\<close>

definition atoi_or_zero :: "string \<Rightarrow> int" where
  "atoi_or_zero s = (case parse_int s of Some n \<Rightarrow> n | None \<Rightarrow> 0)"

definition parse_version :: "string \<Rightarrow> (update_error, int list) res" where
  "parse_version v =
     (let parts = split_on (CHR ''-'') v
      in if length parts \<noteq> 2 \<or> \<not> versionPattern (parts ! 0) \<or> \<not> positiveNumber (parts ! 1)
         then Inl BadInstalledVersion
         else Inr (map atoi_or_zero (split_on (CHR ''.'') (parts ! 0)) @ [atoi_or_zero (parts ! 1)]))"

fun compare_numbers :: "int list \<Rightarrow> int list \<Rightarrow> int" where
  "compare_numbers (n # ns) (m # ms) = (if n < m then - 1 else if n > m then 1 else compare_numbers ns ms)"
| "compare_numbers _ _ = 0"

definition compare_versions :: "string \<Rightarrow> string \<Rightarrow> (update_error, int) res" where
  "compare_versions a b =
     bind_res (parse_version a) (\<lambda>l. bind_res (parse_version b) (\<lambda>r. Inr (compare_numbers l r)))"

record release =
  rl_version :: string
  rl_pkgrel :: string
  rl_size :: int
  rl_hash :: string

definition full_version :: "release \<Rightarrow> string" where
  "full_version r = rl_version r @ ''-'' @ rl_pkgrel r"

text \<open>\<^verbatim>\<open>hex.DecodeString\<close>.\<close>

definition hex_val :: "char \<Rightarrow> nat option" where
  "hex_val c = (if is_digit c then Some (digit_val c)
     else if CHR ''a'' \<le> c \<and> c \<le> CHR ''f'' then Some (of_char c - 87)
     else if CHR ''A'' \<le> c \<and> c \<le> CHR ''F'' then Some (of_char c - 55)
     else None)"

fun hex_decode :: "string \<Rightarrow> nat list option" where
  "hex_decode [] = Some []"
| "hex_decode [c] = None"
| "hex_decode (a # b # s) =
     (case (hex_val a, hex_val b, hex_decode s) of
        (Some x, Some y, Some bs) \<Rightarrow> Some ((16 * x + y) # bs)
      | _ \<Rightarrow> None)"

text \<open>A checksum field. A text that decodes is ASCII, so \<^verbatim>\<open>strings.ToLower\<close> maps its bytes.\<close>

definition checksum_ok :: "string \<Rightarrow> bool" where
  "checksum_ok v \<longleftrightarrow> (case hex_decode v of
     None \<Rightarrow> False
   | Some bs \<Rightarrow> length bs = sha256_Size \<and> v = map lower_char v)"

definition release_fields :: "string list" where
  "release_fields = [''version'', ''pkgrel'', ''arch'', ''package-size'', ''package-sha256'', ''installer-size'',
     ''installer-sha256'']"

fun field_values :: "string list \<Rightarrow> string list \<Rightarrow> (update_error, string list) res" where
  "field_values (name # names) (line # lines) =
     (if \<not> has_prefix line (name @ ''='') then Inl BadFieldOrder
      else bind_res (field_values names lines) (\<lambda>vs. Inr (drop (length name + 1) line # vs)))"
| "field_values _ _ = Inr []"

text \<open>\<^verbatim>\<open>readRelease\<close> after the signature was verified.\<close>

definition parse_release :: "string \<Rightarrow> (update_error, release) res" where
  "parse_release data =
     (let ls = split_on (CHR 0x0A) data
      in if length ls \<noteq> 9 \<or> ls ! 0 \<noteq> ''OMIHOMO-RELEASE-1'' \<or> ls ! 8 \<noteq> [] \<or> ls ! 3 \<noteq> ''arch=x86_64''
         then Inl BadReleaseFormat
         else bind_res (field_values release_fields (take 7 (drop 1 ls))) (\<lambda>vs.
           if \<not> versionPattern (vs ! 0) \<or> \<not> positiveNumber (vs ! 1) then Inl BadReleaseVersion
           else bind_res (boundedSize (vs ! 3) MaxPackage) (\<lambda>size.
             bind_res (boundedSize (vs ! 5) MaxInstaller) (\<lambda>_.
               if \<not> checksum_ok (vs ! 4) \<or> \<not> checksum_ok (vs ! 6) then Inl BadChecksum
               else Inr \<lparr>rl_version = vs ! 0, rl_pkgrel = vs ! 1, rl_size = size, rl_hash = vs ! 4\<rparr>))))"

subsection \<open>The network\<close>

text \<open>A \<^verbatim>\<open>url.URL\<close>, and what one request is answered by. \<open>bd_declared\<close> is \<^verbatim>\<open>ContentLength\<close>, negative if unknown; a body
  may break off after its last byte.\<close>

record rel_url =
  ru_scheme :: string
  ru_user :: bool
  ru_host :: string
  ru_port :: string
  ru_path :: string
  ru_fragment :: string

record response_body =
  bd_status :: nat
  bd_declared :: int
  bd_bytes :: string
  bd_broken :: bool

datatype hop = NoAnswer | Redirected rel_url | Served response_body

definition trusted_hosts :: "string list" where
  "trusted_hosts = [''github.com'', ''release-assets.githubusercontent.com'', ''objects.githubusercontent.com'']"

definition allowedURL :: "rel_url \<Rightarrow> bool" where
  "allowedURL u \<longleftrightarrow> ru_scheme u = ''https'' \<and> \<not> ru_user u \<and> ru_port u = [] \<and> ru_fragment u = []
     \<and> ru_host u \<in> set trusted_hosts"

text \<open>\<^verbatim>\<open>CheckRedirect\<close> of \<^verbatim>\<open>HTTPClient\<close>: \<open>via\<close> requests were made.\<close>

definition redirect_allowed :: "rel_url \<Rightarrow> nat \<Rightarrow> bool" where
  "redirect_allowed u via \<longleftrightarrow> \<not> (via > 4 \<or> \<not> allowedURL u)"

record exec_result =
  ex_ok :: bool
  ex_code :: "int option"
  ex_out :: string
  ex_err :: string

record 'w machine =
  mc_files :: "string strmap"
  mc_transactions :: "(string \<times> string) list"
  mc_asked :: "rel_url list"
  mc_rest :: 'w

record 'w update_env =
  ue_parse :: "string \<Rightarrow> rel_url option"
  ue_serve :: "rel_url \<Rightarrow> 'w \<Rightarrow> hop \<times> 'w"
  ue_key :: string
  ue_verify :: "string \<Rightarrow> string \<Rightarrow> string \<Rightarrow> bool"
  ue_sha256 :: "string \<Rightarrow> nat list"
  ue_mkdir :: "'w \<Rightarrow> string option \<times> 'w"
  ue_create :: "string \<Rightarrow> 'w \<Rightarrow> bool \<times> 'w"
  ue_write :: "string \<Rightarrow> 'w \<Rightarrow> nat option \<times> 'w"
  ue_close :: "'w \<Rightarrow> bool \<times> 'w"
  ue_query :: "'w \<Rightarrow> exec_result \<times> 'w"
  ue_root :: bool
  ue_inspect :: "string \<Rightarrow> 'w \<Rightarrow> exec_result \<times> 'w"
  ue_upgrade :: "string \<Rightarrow> 'w \<Rightarrow> bool \<times> 'w"

definition put_file :: "string \<Rightarrow> string \<Rightarrow> string strmap \<Rightarrow> string strmap" where
  "put_file path b files = (path, b) # delete_key path files"

lemma put_file_map_of: "map_of (put_file path b files) = (map_of files)(path \<mapsto> b)"
  by (auto simp: put_file_def map_of_delete_key fun_eq_iff)

text \<open>A call of a parameter, on the part of the machine it depends on.\<close>

definition outside :: "('w \<Rightarrow> 'a \<times> 'w) \<Rightarrow> 'w machine \<Rightarrow> 'a \<times> 'w machine" where
  "outside f m = (let (a, w) = f (mc_rest m) in (a, m\<lparr>mc_rest := w\<rparr>))"

text \<open>\<^verbatim>\<open>client.Do\<close>: redirects are followed while \<^verbatim>\<open>CheckRedirect\<close> lets them. Every request is noted.\<close>

function client_do :: "'w update_env \<Rightarrow> nat \<Rightarrow> rel_url \<Rightarrow> 'w machine \<Rightarrow> response_body option \<times> 'w machine" where
  "client_do E via u m =
     (case outside (ue_serve E u) (m\<lparr>mc_asked := mc_asked m @ [u]\<rparr>) of
        (NoAnswer, m1) \<Rightarrow> (None, m1)
      | (Served r, m1) \<Rightarrow> (Some r, m1)
      | (Redirected u1, m1) \<Rightarrow>
          if redirect_allowed u1 (via + 1) then client_do E (via + 1) u1 m1 else (None, m1))"
  by pat_completeness auto
termination
  by (relation "measure (\<lambda>(E, via, u, m). 5 - via)") (auto simp: redirect_allowed_def)

declare client_do.simps [simp del]

text \<open>\<^verbatim>\<open>transfer\<close> up to the copy: the response whose body is to be read.\<close>

definition open_transfer ::
  "'w update_env \<Rightarrow> string \<Rightarrow> int \<Rightarrow> bool \<Rightarrow> 'w machine \<Rightarrow> (update_error, response_body) res \<times> 'w machine" where
  "open_transfer E address limit exact m =
     (case ue_parse E address of
        None \<Rightarrow> (Inl BadAddress, m)
      | Some u \<Rightarrow>
          if \<not> allowedURL u then (Inl BadAddress, m)
          else (case client_do E 0 u m of
             (None, m1) \<Rightarrow> (Inl DownloadFailed, m1)
           | (Some r, m1) \<Rightarrow>
               if bd_status r \<noteq> 200 then (Inl (BadStatus (bd_status r)), m1)
               else if bd_declared r > limit \<or> (exact \<and> bd_declared r \<ge> 0 \<and> bd_declared r \<noteq> limit)
               then (Inl UnexpectedSize, m1)
               else (Inr r, m1)))"

text \<open>\<^verbatim>\<open>io.Copy\<close> from a reader that stops one byte past the limit; \<open>room\<close> is how many bytes the destination takes before it
  fails, if it does. The bytes copied come with the error of the copy.\<close>

definition copy_limited :: "response_body \<Rightarrow> int \<Rightarrow> nat option \<Rightarrow> string \<times> bool" where
  "copy_limited r limit room =
     (let got = take (nat (limit + 1)) (bd_bytes r);
          broken = bd_broken r \<and> int (length (bd_bytes r)) \<le> limit
      in case room of
           Some n \<Rightarrow> if n < length got then (take n got, True) else (got, broken)
         | None \<Rightarrow> (got, broken))"

definition check_copied :: "string \<times> bool \<Rightarrow> int \<Rightarrow> bool \<Rightarrow> (update_error, string) res" where
  "check_copied c limit exact =
     (if snd c then Inl Interrupted
      else if int (length (fst c)) > limit \<or> (exact \<and> int (length (fst c)) \<noteq> limit) then Inl UnexpectedSize
      else Inr (fst c))"

definition update_read ::
  "'w update_env \<Rightarrow> string \<Rightarrow> int \<Rightarrow> 'w machine \<Rightarrow> (update_error, string) res \<times> 'w machine" where
  "update_read E address limit m =
     (case open_transfer E address limit False m of
        (Inl e, m1) \<Rightarrow> (Inl e, m1)
      | (Inr r, m1) \<Rightarrow> (check_copied (copy_limited r limit None) limit False, m1))"

text \<open>\<^verbatim>\<open>download\<close> into the file \<open>path\<close>; the hash is taken of what was copied.\<close>

definition update_download ::
  "'w update_env \<Rightarrow> string \<Rightarrow> string \<Rightarrow> int \<Rightarrow> 'w machine \<Rightarrow> (update_error, string) res \<times> 'w machine" where
  "update_download E address path len m =
     (case open_transfer E address len True m of
        (Inl e, m1) \<Rightarrow> (Inl e, m1)
      | (Inr r, m1) \<Rightarrow>
          let (room, m2) = outside (ue_write E path) m1;
              c = copy_limited r len room
          in (check_copied c len True, m2\<lparr>mc_files := put_file path (fst c) (mc_files m2)\<rparr>))"

definition readRelease ::
  "'w update_env \<Rightarrow> string \<Rightarrow> 'w machine \<Rightarrow> (update_error, release) res \<times> 'w machine" where
  "readRelease E origin m =
     (case update_read E (origin @ ''/omihomo-release.txt'') 1024 m of
        (Inl e, m1) \<Rightarrow> (Inl e, m1)
      | (Inr data, m1) \<Rightarrow>
          (case update_read E (origin @ ''/omihomo-release.txt.sig'') (int SignatureSize) m1 of
             (Inl e, m2) \<Rightarrow> (Inl e, m2)
           | (Inr sig, m2) \<Rightarrow>
               if length (ue_key E) \<noteq> PublicKeySize \<or> \<not> ue_verify E (ue_key E) data sig
               then (Inl SignatureFailed, m2)
               else (parse_release data, m2)))"

subsection \<open>pacman\<close>

definition package_not_found :: string where
  "package_not_found = ''error: package '' @ [CHR 0x27] @ ''omihomo'' @ [CHR 0x27] @ '' was not found''"

text \<open>\<^verbatim>\<open>Pacman.Installed\<close>: the empty version when the package is absent.\<close>

definition Installed :: "'w update_env \<Rightarrow> 'w machine \<Rightarrow> (update_error, string) res \<times> 'w machine" where
  "Installed E m =
     (let (x, m1) = outside (ue_query E) m
      in (if \<not> ex_ok x then
            (if ex_code x = Some 1 \<and> trim_space (ex_out x) = [] \<and> trim_space (ex_err x) = package_not_found
             then Inr [] else Inl NoMetadata)
          else (let fs = str_fields (ex_out x)
                in if length fs \<noteq> 2 \<or> fs ! 0 \<noteq> ''omihomo'' then Inl UnexpectedMetadata else Inr (fs ! 1)),
          m1))"

text \<open>The loop of \<^verbatim>\<open>Install\<close> over the lines of the package's metadata.\<close>

fun package_identity :: "string list \<Rightarrow> string strmap \<Rightarrow> (update_error, string strmap) res" where
  "package_identity [] ident = Inr ident"
| "package_identity (line # lines) ident =
     (let (before, after, ok) = cut_at (CHR '':'') line; name = trim_space before
      in if \<not> ok \<or> name \<notin> {''Name'', ''Version'', ''Architecture''} then package_identity lines ident
         else if map_of ident name \<noteq> None then Inl AmbiguousIdentity
         else package_identity lines ((name, trim_space after) # ident))"

definition identity_matches :: "string strmap \<Rightarrow> string \<Rightarrow> bool" where
  "identity_matches ident version \<longleftrightarrow> map_of ident ''Name'' = Some ''omihomo''
     \<and> map_of ident ''Version'' = Some version \<and> map_of ident ''Architecture'' = Some ''x86_64''"

definition file_at :: "'w machine \<Rightarrow> string \<Rightarrow> string" where
  "file_at m path = (case map_of (mc_files m) path of Some b \<Rightarrow> b | None \<Rightarrow> [])"

definition Install :: "'w update_env \<Rightarrow> string \<Rightarrow> string \<Rightarrow> 'w machine \<Rightarrow> update_error option \<times> 'w machine" where
  "Install E path version m =
     (if \<not> ue_root E then (Some NotRoot, m)
      else let (x, m1) = outside (ue_inspect E (file_at m path)) m
           in if \<not> ex_ok x then (Some CannotInspect, m1)
              else (case package_identity (split_on (CHR 0x0A) (ex_out x)) [] of
                 Inl e \<Rightarrow> (Some e, m1)
               | Inr ident \<Rightarrow>
                   if \<not> identity_matches ident version then (Some WrongIdentity, m1)
                   else let (ok, m2) = outside (ue_upgrade E (file_at m1 path)) m1;
                            m3 = m2\<lparr>mc_transactions := mc_transactions m2 @ [(version, file_at m1 path)]\<rparr>
                        in (if ok then None else Some PacmanFailed, m3)))"

subsection \<open>The updater\<close>

record update_status =
  us_installed :: string
  us_available :: string
  us_update_available :: bool
  us_release_url :: string

definition Check_update :: "'w update_env \<Rightarrow> 'w machine \<Rightarrow> (update_error, update_status) res \<times> 'w machine" where
  "Check_update E m =
     (case readRelease E (Repository @ ''/releases/latest/download'') m of
        (Inl e, m1) \<Rightarrow> (Inl e, m1)
      | (Inr r, m1) \<Rightarrow>
          (case Installed E m1 of
             (Inl e, m2) \<Rightarrow> (Inl e, m2)
           | (Inr installed, m2) \<Rightarrow>
               (bind_res (if installed = [] then Inr True
                          else bind_res (compare_versions (full_version r) installed) (\<lambda>c. Inr (c > 0)))
                  (\<lambda>newer. Inr \<lparr>us_installed = installed, us_available = full_version r,
                     us_update_available = newer,
                     us_release_url = Repository @ ''/releases/tag/v'' @ rl_version r\<rparr>), m2)))"

definition installed_fits :: "string \<Rightarrow> release \<Rightarrow> string \<Rightarrow> update_error option" where
  "installed_fits action r installed =
     (if installed = [] then (if action = ''update'' then Some PackageAbsent else None)
      else if action = ''install'' then Some AlreadyInstalled
      else case compare_versions (full_version r) installed of
             Inl e \<Rightarrow> Some e
           | Inr c \<Rightarrow> if c \<le> 0 then Some NotNewer else None)"

definition validateInstalled ::
  "'w update_env \<Rightarrow> string \<Rightarrow> release \<Rightarrow> 'w machine \<Rightarrow> update_error option \<times> 'w machine" where
  "validateInstalled E action r m =
     (case Installed E m of
        (Inl e, m1) \<Rightarrow> (Some e, m1)
      | (Inr installed, m1) \<Rightarrow> (installed_fits action r installed, m1))"

definition package_name :: "release \<Rightarrow> string" where
  "package_name r = ''omihomo-'' @ full_version r @ ''-x86_64.pkg.tar.zst''"

text \<open>\<^verbatim>\<open>Apply\<close> in the private directory \<open>dir\<close>.\<close>

definition stage_package ::
  "'w update_env \<Rightarrow> string \<Rightarrow> string \<Rightarrow> release \<Rightarrow> string \<Rightarrow> 'w machine \<Rightarrow> update_error option \<times> 'w machine" where
  "stage_package E action origin r dir m =
     (let path = dir @ ''/'' @ package_name r;
          (created, m1) = outside (ue_create E path) m
      in if \<not> created then (Some NoPrivateFile, m1)
         else let m2 = m1\<lparr>mc_files := put_file path [] (mc_files m1)\<rparr>;
                  (got, m3) = update_download E (origin @ ''/'' @ package_name r) path (rl_size r) m2;
                  (closed, m4) = outside (ue_close E) m3
              in case got of
                   Inl e \<Rightarrow> (Some e, m4)
                 | Inr hashed \<Rightarrow>
                     if \<not> closed then (Some CloseFailed, m4)
                     else if hex (ue_sha256 E hashed) \<noteq> rl_hash r then (Some ChecksumMismatch, m4)
                     else (case validateInstalled E action r m4 of
                         (Some e, m5) \<Rightarrow> (Some e, m5)
                       | (None, m5) \<Rightarrow> Install E path (full_version r) m5))"

text \<open>\<^verbatim>\<open>os.RemoveAll(dir)\<close>.\<close>

definition remove_all :: "string \<Rightarrow> 'w machine \<Rightarrow> 'w machine" where
  "remove_all dir m = m\<lparr>mc_files := filter (\<lambda>(p, _). \<not> has_prefix p (dir @ ''/'')) (mc_files m)\<rparr>"

definition Apply_update ::
  "'w update_env \<Rightarrow> string \<Rightarrow> string \<Rightarrow> 'w machine \<Rightarrow> update_error option \<times> 'w machine" where
  "Apply_update E action version m =
     (if (action \<noteq> ''install'' \<and> action \<noteq> ''update'') \<or> \<not> versionPattern version then (Some BadArguments, m)
      else let origin = Repository @ ''/releases/download/v'' @ version
           in case readRelease E origin m of
                (Inl e, m1) \<Rightarrow> (Some e, m1)
              | (Inr r, m1) \<Rightarrow>
                  if rl_version r \<noteq> version then (Some VersionMismatch, m1)
                  else (case validateInstalled E action r m1 of
                     (Some e, m2) \<Rightarrow> (Some e, m2)
                   | (None, m2) \<Rightarrow>
                       (case outside (ue_mkdir E) m2 of
                          (None, m3) \<Rightarrow> (Some NoPrivateDir, m3)
                        | (Some dir, m3) \<Rightarrow>
                            let (r, m4) = stage_package E action origin r dir m3 in (r, remove_all dir m4))))"

lemma remove_all_map_of:
  "map_of (mc_files (remove_all dir m)) p = (if has_prefix p (dir @ ''/'') then None else map_of (mc_files m) p)"
proof -
  have "map_of (filter (\<lambda>(q, _). \<not> has_prefix q (dir @ ''/'')) fs) p = (if has_prefix p (dir @ ''/'') then None else map_of fs p)" for fs :: "string strmap"
    by (induction fs) auto
  then show ?thesis by (simp add: remove_all_def)
qed

subsection \<open>The command\<close>

definition PublicKey ::
  "(string \<Rightarrow> (string \<times> string \<times> string) option) \<Rightarrow> (string \<Rightarrow> string option) \<Rightarrow> string \<Rightarrow> (update_error, string) res" where
  "PublicKey pem_decode parse_ed25519 pem =
     (case pem_decode pem of
        None \<Rightarrow> Inl BadPublicKey
      | Some (ty, bytes, rest) \<Rightarrow>
          if ty \<noteq> ''PUBLIC KEY'' \<or> trim_space rest \<noteq> [] then Inl BadPublicKey
          else (case parse_ed25519 bytes of None \<Rightarrow> Inl BadPublicKey | Some k \<Rightarrow> Inr k))"

datatype update_done = DidCheck update_status | DidApply

text \<open>\<^verbatim>\<open>run\<close> of \<^verbatim>\<open>cmd/omihomo-update\<close>: \<open>key\<close> is what \<^const>\<open>PublicKey\<close> returned.\<close>

definition update_main ::
  "'w update_env \<Rightarrow> bool \<Rightarrow> (update_error, string) res \<Rightarrow> string list \<Rightarrow> 'w machine
   \<Rightarrow> (update_error, update_done) res \<times> 'w machine" where
  "update_main E linux_amd64 key args m =
     (if \<not> linux_amd64 then (Inl WrongPlatform, m)
      else if args = [] \<or> (hd args = ''check'' \<and> length args \<noteq> 1)
              \<or> (hd args \<noteq> ''check'' \<and> (length args \<noteq> 2 \<or> (hd args \<noteq> ''install'' \<and> hd args \<noteq> ''update'')))
      then (Inl Usage, m)
      else if hd args \<noteq> ''check'' \<and> \<not> ue_root E then (Inl NotRoot, m)
      else (case key of
          Inl e \<Rightarrow> (Inl e, m)
        | Inr k \<Rightarrow>
            let E' = E\<lparr>ue_key := k\<rparr>
            in if hd args = ''check''
               then (let (r, m1) = Check_update E' m in (map_sum id DidCheck r, m1))
               else (let (r, m1) = Apply_update E' (hd args) (args ! 1) m
                     in (case r of Some e \<Rightarrow> Inl e | None \<Rightarrow> Inr DidApply, m1))))"

end
