(* ===== verification/Update_Props.thy ===== *)
theory Update_Props
  imports Update
begin

text \<open>
  What the updater promises: version numbers and their order are those of the numbers they are written from, and what one
  request, one transfer and one installation do to the machine.
\<close>

subsection \<open>Numbers\<close>

lemma digits_bound: "list_all is_digit s \<Longrightarrow> nat_of_digits s < 10 ^ length s"
proof (induction s rule: rev_induct)
  case Nil
  then show ?case by (simp add: nat_of_digits_def)
next
  case (snoc c s)
  then have "nat_of_digits s < 10 ^ length s" and "digit_val c \<le> 9"
    by (auto simp: is_digit_def digit_val_def less_eq_char_def)
  then show ?case by (simp add: nat_of_digits_snoc)
qed

lemma is_digit_val: "is_digit c \<Longrightarrow> digit_val c < 10 \<and> digit_char (digit_val c) = c"
  by (auto simp: is_digit_def digit_val_def digit_char_def less_eq_char_def)

lemma digit_nonzero: "is_digit c \<Longrightarrow> c \<noteq> CHR ''0'' \<Longrightarrow> 1 \<le> digit_val c \<and> CHR ''1'' \<le> c"
proof -
  assume c: "is_digit c" "c \<noteq> CHR ''0''"
  have "digit_char 0 = CHR ''0''" by code_simp
  with c is_digit_val[of c] have "digit_val c \<noteq> 0" by metis
  then show ?thesis by (simp add: digit_val_def less_eq_char_def)
qed

lemma digits_pos:
  assumes "list_all is_digit s" "s \<noteq> []" "hd s \<noteq> CHR ''0''"
  shows "10 ^ (length s - 1) \<le> nat_of_digits s"
  using assms
proof (induction s rule: rev_induct)
  case Nil
  then show ?case by simp
next
  case (snoc c s)
  show ?case
  proof (cases "s = []")
    case True
    with snoc.prems have "is_digit c" "c \<noteq> CHR ''0''" by auto
    then have "1 \<le> digit_val c" using digit_nonzero by blast
    with True show ?thesis by (simp add: nat_of_digits_def)
  next
    case False
    then obtain k where k: "length s = Suc k" by (cases s) auto
    from False snoc have "10 ^ k \<le> nat_of_digits s" by (simp add: k)
    then show ?thesis by (simp add: nat_of_digits_snoc k)
  qed
qed

lemma itoa_of_digits:
  assumes "list_all is_digit s" "s \<noteq> []" "s = ''0'' \<or> hd s \<noteq> CHR ''0''"
  shows "itoa_nat (nat_of_digits s) = s"
  using assms
proof (induction s rule: rev_induct)
  case Nil
  then show ?case by simp
next
  case (snoc c s)
  then have c: "digit_val c < 10" "digit_char (digit_val c) = c" using is_digit_val[of c] by auto
  show ?case
  proof (cases "s = []")
    case True
    with c show ?thesis by (simp add: nat_of_digits_def itoa_nat.simps)
  next
    case False
    with snoc.prems have ds: "list_all is_digit s" "hd s \<noteq> CHR ''0''" by auto
    have "1 \<le> nat_of_digits s" using digits_pos[OF ds(1) False ds(2)] by (meson one_le_numeral one_le_power order_trans)
    moreover have "itoa_nat (nat_of_digits s) = s" using snoc.IH ds False by blast
    ultimately show ?thesis using c by (simp add: nat_of_digits_snoc itoa_nat.simps[of "10 * nat_of_digits s + digit_val c"])
  qed
qed

lemma itoa_first: "0 < n \<Longrightarrow> hd (itoa_nat n) \<noteq> CHR ''0''"
proof (induction n rule: itoa_nat.induct)
  case (1 n)
  show ?case
  proof (cases "n < 10")
    case True
    have "digit_val (digit_char n) = n" using digit_char_val[OF True] by simp
    with \<open>0 < n\<close> True show ?thesis by (auto simp: itoa_nat.simps[of n] digit_val_def)
  next
    case False
    with "1" have "hd (itoa_nat (n div 10)) \<noteq> CHR ''0''" by simp
    with False show ?thesis using itoa_nat_digits[of "n div 10"] by (simp add: itoa_nat.simps[of n])
  qed
qed

lemma itoa_short: "n < 10 ^ 9 \<longleftrightarrow> length (itoa_nat n) \<le> 9"
proof (cases "n = 0")
  case True
  then show ?thesis by (simp add: itoa_nat.simps)
next
  case False
  let ?s = "itoa_nat n"
  have s: "list_all is_digit ?s" "?s \<noteq> []" "nat_of_digits ?s = n" using itoa_nat_digits[of n] by auto
  have low: "10 ^ (length ?s - 1) \<le> n" using digits_pos[OF s(1,2)] itoa_first[of n] False s(3) by simp
  have high: "n < 10 ^ length ?s" using digits_bound[OF s(1)] s(3) by simp
  show ?thesis
  proof
    assume "n < 10 ^ 9"
    with low have "(10::nat) ^ (length ?s - 1) < 10 ^ 9" by (rule le_less_trans)
    then have "length ?s - 1 < 9" by (rule power_less_imp_less_exp[rotated]) simp
    then show "length ?s \<le> 9" by simp
  next
    assume "length ?s \<le> 9"
    then have "(10::nat) ^ length ?s \<le> 10 ^ 9" by (intro power_increasing) auto
    with high show "n < 10 ^ 9" by (rule less_le_trans)
  qed
qed

definition number_ok :: "nat \<Rightarrow> bool" where "number_ok n \<longleftrightarrow> n < 10 ^ 9"

lemma positiveNumber_itoa: "positiveNumber s \<longleftrightarrow> (\<exists>n. 0 < n \<and> number_ok n \<and> s = itoa_nat n)"
proof
  assume p: "positiveNumber s"
  then have s: "list_all is_digit s" "s \<noteq> []" "hd s \<noteq> CHR ''0''" and len: "length s \<le> 9" by (auto simp: positiveNumber_def)
  then have e: "itoa_nat (nat_of_digits s) = s" by (intro itoa_of_digits) auto
  have "0 < nat_of_digits s" using digits_pos[OF s] by (metis neq0_conv not_less power_eq_0_iff le_zero_eq zero_neq_numeral)
  moreover have "number_ok (nat_of_digits s)" using len e by (simp add: number_ok_def itoa_short del: power_numeral)
  ultimately show "\<exists>n. 0 < n \<and> number_ok n \<and> s = itoa_nat n" using e by metis
next
  assume "\<exists>n. 0 < n \<and> number_ok n \<and> s = itoa_nat n"
  then obtain n where n: "0 < n" "number_ok n" "s = itoa_nat n" by blast
  have d: "s \<noteq> []" "list_all is_digit s" using itoa_nat_digits n(3) by auto
  then have "is_digit (hd s)" by (cases s) auto
  moreover have "hd s \<noteq> CHR ''0''" using itoa_first n by blast
  ultimately have "CHR ''1'' \<le> hd s \<and> hd s \<le> CHR ''9''"
    using digit_nonzero[of "hd s"] by (simp add: is_digit_def)
  with d n show "positiveNumber s" by (simp add: positiveNumber_def number_ok_def itoa_short del: power_numeral)
qed

subsection \<open>Versions\<close>

text \<open>A package version as its four numbers, the last one positive.\<close>

definition numbers_ok :: "nat list \<Rightarrow> bool" where
  "numbers_ok ns \<longleftrightarrow> length ns = 4 \<and> list_all number_ok ns \<and> 0 < ns ! 3"

definition version_text :: "nat list \<Rightarrow> string" where
  "version_text ns = join ''.'' (map itoa_nat (take 3 ns)) @ ''-'' @ itoa_nat (ns ! 3)"

lemma itoa_no_sep: "\<not> is_digit c \<Longrightarrow> c \<notin> set (itoa_nat n)"
  using itoa_nat_digits[of n] by (auto simp: list_all_iff)

lemma version_number_itoa: "(s = ''0'' \<or> positiveNumber s) \<longleftrightarrow> (\<exists>n. number_ok n \<and> s = itoa_nat n)"
proof -
  have z: "itoa_nat 0 = ''0''" by code_simp
  have "number_ok 0" by (simp add: number_ok_def)
  then show ?thesis using positiveNumber_itoa[of s] z by (metis neq0_conv)
qed

lemma versionPattern_itoa: "versionPattern v \<longleftrightarrow>
   (\<exists>a b c. number_ok a \<and> number_ok b \<and> number_ok c \<and> v = join ''.'' (map itoa_nat [a, b, c]))"
proof
  assume v: "versionPattern v"
  then obtain x y z where sp: "split_on (CHR ''.'') v = [x, y, z]"
    by (auto simp: versionPattern_def Let_def length_Suc_conv numeral_3_eq_3)
  with v obtain a b c where "number_ok a \<and> x = itoa_nat a" "number_ok b \<and> y = itoa_nat b" "number_ok c \<and> z = itoa_nat c"
    unfolding versionPattern_def Let_def version_number_itoa by auto
  moreover have "v = join ''.'' [x, y, z]" using join_split_on[of "CHR ''.''" v] sp by simp
  ultimately show "\<exists>a b c. number_ok a \<and> number_ok b \<and> number_ok c \<and> v = join ''.'' (map itoa_nat [a, b, c])" by auto
next
  assume "\<exists>a b c. number_ok a \<and> number_ok b \<and> number_ok c \<and> v = join ''.'' (map itoa_nat [a, b, c])"
  then obtain a b c where n: "number_ok a" "number_ok b" "number_ok c" and v: "v = join ''.'' (map itoa_nat [a, b, c])" by blast
  have "split_on (CHR ''.'') v = map itoa_nat [a, b, c]"
    unfolding v by (rule split_on_join) (auto simp: itoa_no_sep is_digit_def less_eq_char_def)
  with n show "versionPattern v" unfolding versionPattern_def Let_def version_number_itoa by auto
qed

lemma atoi_itoa: "number_ok n \<Longrightarrow> atoi_or_zero (itoa_nat n) = int n"
proof -
  assume n: "number_ok n"
  then have "parse_uint 64 (itoa_nat n) = Some n" by (intro parse_uint_itoa) (simp add: number_ok_def)
  moreover obtain c s where "itoa_nat n = c # s" using itoa_nat_digits[of n] by (cases "itoa_nat n") auto
  moreover have "is_digit c" using itoa_nat_digits[of n] calculation by simp
  ultimately have "parse_int (itoa_nat n) = Some (int n)"
    using n by (auto simp: parse_int_def is_digit_def number_ok_def less_eq_char_def split: char.splits bool.splits)
  then show ?thesis by (simp add: atoi_or_zero_def)
qed

lemma version_split:
  assumes "numbers_ok ns"
  shows "split_on (CHR ''-'') (version_text ns) = [join ''.'' (map itoa_nat (take 3 ns)), itoa_nat (ns ! 3)]"
proof -
  obtain a b c d where ns: "ns = [a, b, c, d]"
    using assms by (auto simp: numbers_ok_def length_Suc_conv eval_nat_numeral)
  have "CHR ''-'' \<notin> set (itoa_nat n)" for n by (rule itoa_no_sep) (simp add: is_digit_def less_eq_char_def)
  then show ?thesis unfolding ns version_text_def by (simp add: split_on_append split_on_free flip: append_assoc)
qed

lemma parse_version_itoa: "parse_version v = Inr is \<longleftrightarrow> (\<exists>ns. numbers_ok ns \<and> v = version_text ns \<and> is = map int ns)"
proof
  assume p: "parse_version v = Inr is"
  let ?ps = "split_on (CHR ''-'') v"
  from p have len: "length ?ps = 2" and vp: "versionPattern (?ps ! 0)" "positiveNumber (?ps ! 1)"
    and is': "is = map atoi_or_zero (split_on (CHR ''.'') (?ps ! 0)) @ [atoi_or_zero (?ps ! 1)]"
    by (auto simp: parse_version_def Let_def split: if_splits)
  obtain a b c where n: "number_ok a" "number_ok b" "number_ok c" and e: "?ps ! 0 = join ''.'' (map itoa_nat [a, b, c])"
    using vp(1) unfolding versionPattern_itoa by blast
  obtain d where d: "0 < d" "number_ok d" "?ps ! 1 = itoa_nat d" using vp(2) positiveNumber_itoa by blast
  have "?ps = [?ps ! 0, ?ps ! 1]" using len by (cases ?ps; cases "tl ?ps") auto
  then have "v = join ''-'' [?ps ! 0, ?ps ! 1]" using join_split_on[of "CHR ''-''" v] by simp
  then have "v = version_text [a, b, c, d]" unfolding e d(3) by (simp add: version_text_def)
  moreover have "split_on (CHR ''.'') (?ps ! 0) = map itoa_nat [a, b, c]"
    unfolding e by (rule split_on_join) (auto simp: itoa_no_sep is_digit_def less_eq_char_def)
  then have "is = map int [a, b, c, d]" using n d by (simp add: is' atoi_itoa)
  ultimately show "\<exists>ns. numbers_ok ns \<and> v = version_text ns \<and> is = map int ns"
    using n d by (intro exI[of _ "[a, b, c, d]"]) (simp add: numbers_ok_def)
next
  assume "\<exists>ns. numbers_ok ns \<and> v = version_text ns \<and> is = map int ns"
  then obtain ns where ns: "numbers_ok ns" "v = version_text ns" "is = map int ns" by blast
  then obtain a b c d where l: "ns = [a, b, c, d]" and n: "number_ok a" "number_ok b" "number_ok c" "number_ok d" "0 < d"
    by (auto simp: numbers_ok_def length_Suc_conv eval_nat_numeral)
  let ?h = "join ''.'' (map itoa_nat [a, b, c])"
  have sp: "split_on (CHR ''-'') v = [?h, itoa_nat d]" using version_split[OF ns(1)] by (simp add: ns(2) l)
  have "split_on (CHR ''.'') ?h = map itoa_nat [a, b, c]"
    by (rule split_on_join) (auto simp: itoa_no_sep is_digit_def less_eq_char_def)
  moreover have "versionPattern ?h" using n versionPattern_itoa by blast
  moreover have "positiveNumber (itoa_nat d)" using n positiveNumber_itoa by blast
  ultimately show "parse_version v = Inr is" using n by (simp add: parse_version_def sp ns(3) l atoi_itoa)
qed

lemma compare_numbers_lexicographic:
  "length xs = length ys \<Longrightarrow> compare_numbers (map int xs) (map int ys) = (if xs < ys then - 1 else if ys < xs then 1 else 0)"
  by (induction xs ys rule: list_induct2) auto

lemma numbers_ok_lexicographic: "numbers_ok x \<Longrightarrow> numbers_ok y \<Longrightarrow>
   compare_numbers (map int x) (map int y) = (if x < y then - 1 else if y < x then 1 else 0)"
  by (rule compare_numbers_lexicographic) (simp add: numbers_ok_def)

lemma compare_versions_parsed: "compare_versions a b = Inr c \<longleftrightarrow>
   (\<exists>l r. parse_version a = Inr l \<and> parse_version b = Inr r \<and> c = compare_numbers l r)"
  by (auto simp: compare_versions_def result_simps)

text \<open>The updater's order of package versions is the order of their numbers. Two versions compare exactly when each is
  written X.Y.Z-R with numbers below a billion, R positive, and no leading zeros; then the first number that differs
  decides.\<close>

theorem versions_compare:
  "compare_versions a b = Inr c \<longleftrightarrow>
     (\<exists>x y. numbers_ok x \<and> numbers_ok y \<and> a = version_text x \<and> b = version_text y
        \<and> c = (if x < y then - 1 else if y < x then 1 else 0))"
proof -
  have "compare_versions a b = Inr c \<longleftrightarrow>
    (\<exists>x y. numbers_ok x \<and> numbers_ok y \<and> a = version_text x \<and> b = version_text y
       \<and> c = compare_numbers (map int x) (map int y))"
    unfolding compare_versions_parsed parse_version_itoa by blast
  then show ?thesis using numbers_ok_lexicographic by metis
qed

subsection \<open>The network\<close>

text \<open>\<open>talked n m m'\<close>: between the two the machine made at most \<open>n\<close> requests, all of them to trusted hosts, and its files and
  its transactions are as they were.\<close>

definition trusted_requests :: "nat \<Rightarrow> rel_url list \<Rightarrow> bool" where
  "trusted_requests n us \<longleftrightarrow> length us \<le> n \<and> list_all allowedURL us"

definition talked :: "nat \<Rightarrow> 'w machine \<Rightarrow> 'w machine \<Rightarrow> bool" where
  "talked n m m' \<longleftrightarrow> (\<exists>us. mc_asked m' = mc_asked m @ us \<and> trusted_requests n us)
     \<and> mc_files m' = mc_files m \<and> mc_transactions m' = mc_transactions m"

lemma talked_refl [simp]: "talked n m m"
  by (auto simp: talked_def trusted_requests_def)

lemma talked_trans: "talked i m m1 \<Longrightarrow> talked j m1 m2 \<Longrightarrow> i + j \<le> k \<Longrightarrow> talked k m m2"
  unfolding talked_def trusted_requests_def by (elim exE conjE, intro conjI, rule_tac x = "us @ usa" in exI) auto

lemma talked_mono: "talked i m m1 \<Longrightarrow> i \<le> j \<Longrightarrow> talked j m m1"
  by (rule talked_trans[of i m m1 0 m1 j]) auto

lemma outside_talked: "outside f m = (x, m') \<Longrightarrow> talked n m m'"
  by (auto simp: outside_def talked_def trusted_requests_def split: prod.splits)

lemma client_do_talked:
  "client_do E via u m = (r, m') \<Longrightarrow> allowedURL u \<Longrightarrow> via \<le> 4 \<Longrightarrow> talked (5 - via) m m'"
proof (induction E via u m arbitrary: r m' rule: client_do.induct)
  case (1 E via u m)
  let ?m0 = "m\<lparr>mc_asked := mc_asked m @ [u]\<rparr>"
  obtain h m1 where o: "outside (ue_serve E u) ?m0 = (h, m1)" by fastforce
  have "talked 1 m ?m0" using "1.prems"(2) by (simp add: talked_def trusted_requests_def)
  then have one: "talked 1 m m1" by (rule talked_trans[OF _ outside_talked[OF o, of 0]]) simp
  have stop: "talked (5 - via) m m1" using talked_mono[OF one] "1.prems"(3) by simp
  show ?case
  proof (cases h)
    case (Redirected u1)
    show ?thesis
    proof (cases "redirect_allowed u1 (via + 1)")
      case True
      then have a: "allowedURL u1" "via + 1 \<le> 4" by (auto simp: redirect_allowed_def)
      from "1.prems"(1) True have "client_do E (via + 1) u1 m1 = (r, m')"
        by (simp add: client_do.simps[of E via] o Redirected)
      from "1.IH"[OF o[symmetric] Redirected True this a] show ?thesis
        by (rule talked_trans[OF one]) (use a in simp)
    next
      case False
      with "1.prems" stop show ?thesis by (simp add: client_do.simps[of E via] o Redirected)
    qed
  qed (use "1.prems" stop in \<open>simp_all add: client_do.simps[of E via] o\<close>)
qed

lemma open_transfer_talked: "open_transfer E address limit exact m = (r, m') \<Longrightarrow> talked 5 m m'"
  by (auto simp: open_transfer_def split: option.splits if_splits prod.splits dest!: client_do_talked)

lemma update_read_talked: "update_read E address limit m = (r, m') \<Longrightarrow> talked 5 m m'"
  by (auto simp: update_read_def split: sum.splits prod.splits dest: open_transfer_talked)

lemma readRelease_talked: "readRelease E origin m = (r, m') \<Longrightarrow> talked 10 m m'"
  by (auto simp: readRelease_def split: sum.splits prod.splits if_splits dest!: update_read_talked
      intro: talked_mono talked_trans)

lemma readRelease_signed:
  "readRelease E origin m = (Inr r, m') \<Longrightarrow>
     \<exists>data sig. length (ue_key E) = 32 \<and> ue_verify E (ue_key E) data sig \<and> parse_release data = Inr r"
  by (auto simp: readRelease_def PublicKeySize_def split: sum.splits prod.splits if_splits)

lemma copied_exact: "check_copied (copy_limited r limit room) limit True = Inr b \<Longrightarrow>
   fst (copy_limited r limit room) = b \<and> int (length b) = limit"
  by (auto simp: check_copied_def split: if_splits)

subsection \<open>Installing\<close>

lemma talked_asked: "talked n m m' \<Longrightarrow> \<exists>us. mc_asked m' = mc_asked m @ us \<and> trusted_requests n us"
  and talked_files: "talked n m m' \<Longrightarrow> mc_files m' = mc_files m"
  and talked_transactions: "talked n m m' \<Longrightarrow> mc_transactions m' = mc_transactions m"
  by (auto simp: talked_def)

lemma talked_set_files: "talked n (m\<lparr>mc_files := f\<rparr>) m' \<Longrightarrow> talked n m (m'\<lparr>mc_files := mc_files m\<rparr>)"
  by (simp add: talked_def)

lemma talked_files_cong: "talked n m m' \<Longrightarrow> talked n (m\<lparr>mc_files := f\<rparr>) (m'\<lparr>mc_files := f\<rparr>)"
  by (simp add: talked_def)

text \<open>\<open>worked n path m m'\<close>: like \<open>talked\<close>, but the file \<open>path\<close> may have changed.\<close>

definition worked :: "nat \<Rightarrow> string \<Rightarrow> 'w machine \<Rightarrow> 'w machine \<Rightarrow> bool" where
  "worked n path m m' \<longleftrightarrow> (\<exists>us. mc_asked m' = mc_asked m @ us \<and> trusted_requests n us)
     \<and> mc_transactions m' = mc_transactions m \<and> (\<forall>p. p \<noteq> path \<longrightarrow> map_of (mc_files m') p = map_of (mc_files m) p)"

lemma talked_worked: "talked n m m' \<Longrightarrow> worked n path m m'"
  by (simp add: talked_def worked_def)

lemma worked_file: "worked n path m (m\<lparr>mc_files := put_file path b (mc_files m)\<rparr>)"
  by (simp add: worked_def trusted_requests_def put_file_map_of)

lemma worked_trans: "worked i path m m1 \<Longrightarrow> worked j path m1 m2 \<Longrightarrow> i + j \<le> k \<Longrightarrow> worked k path m m2"
  unfolding worked_def trusted_requests_def
  by (elim exE conjE, intro conjI, rule_tac x = "us @ usa" in exI) auto

lemma update_download_laws:
  assumes "update_download E address path len m = (r, m')"
  shows "worked 5 path m m'" "r = Inr b \<Longrightarrow> map_of (mc_files m') path = Some b \<and> int (length b) = len"
proof -
  obtain x m1 where o: "open_transfer E address len True m = (x, m1)" by fastforce
  note w1 = talked_worked[OF open_transfer_talked[OF o], of path]
  have "worked 5 path m m' \<and> (r = Inr b \<longrightarrow> map_of (mc_files m') path = Some b \<and> int (length b) = len)"
  proof (cases x)
    case (Inl e)
    with assms o w1 show ?thesis by (auto simp: update_download_def)
  next
    case (Inr res)
    obtain room m2 where w: "outside (ue_write E path) m1 = (room, m2)" by fastforce
    let ?c = "copy_limited res len room"
    from assms o Inr w have m': "m' = m2\<lparr>mc_files := put_file path (fst ?c) (mc_files m2)\<rparr>" "r = check_copied ?c len True"
      by (auto simp: update_download_def Let_def)
    have "worked 5 path m m2" by (rule worked_trans[OF w1 talked_worked[OF outside_talked[OF w, of 0]]]) simp
    then have "worked 5 path m m'" unfolding m' by (rule worked_trans[OF _ worked_file[of 0]]) simp
    with m'(2) copied_exact[of res len room b] show ?thesis by (auto simp: m'(1) put_file_map_of)
  qed
  then show "worked 5 path m m'" "r = Inr b \<Longrightarrow> map_of (mc_files m') path = Some b \<and> int (length b) = len" by blast+
qed

lemma Installed_talked: "Installed E m = (r, m') \<Longrightarrow> talked 0 m m'"
  by (auto simp: Installed_def Let_def split: prod.splits dest: outside_talked)

lemma validateInstalled_laws:
  "validateInstalled E action r m = (e, m') \<Longrightarrow> talked 0 m m'
     \<and> (e = None \<longrightarrow> (\<exists>v. fst (Installed E m) = Inr v \<and> installed_fits action r v = None))"
  by (auto simp: validateInstalled_def split: sum.splits prod.splits dest: Installed_talked)

lemma compare_range: "compare_numbers xs ys \<in> {- 1, 0, 1}"
  by (induction xs ys rule: compare_numbers.induct) auto

lemma installed_fits_newer:
  assumes "installed_fits action r v = None" "action = ''install'' \<or> action = ''update''"
  shows "action = ''install'' \<and> v = [] \<or> action = ''update'' \<and> compare_versions (full_version r) v = Inr 1"
proof -
  have "c = 1" if c: "compare_versions a b = Inr c" "0 < c" for a b c
  proof -
    from c obtain xs ys where "c = compare_numbers xs ys" by (auto simp: compare_versions_parsed)
    with c(2) compare_range[of xs ys] show ?thesis by auto
  qed
  with assms show ?thesis by (auto simp: installed_fits_def split: if_splits sum.splits)
qed

lemma Install_laws:
  assumes "Install E path version m = (e, m')"
  shows "mc_asked m' = mc_asked m" "mc_files m' = mc_files m"
    "e \<noteq> None \<and> mc_transactions m' = mc_transactions m
     \<or> mc_transactions m' = mc_transactions m @ [(version, file_at m path)]"
proof -
  have out: "mc_asked m2 = mc_asked m1 \<and> mc_files m2 = mc_files m1 \<and> mc_transactions m2 = mc_transactions m1"
    if "outside f m1 = (x, m2)" for f :: "_ \<Rightarrow> 'b \<times> _" and m1 x m2
    using that by (auto simp: outside_def split: prod.splits)
  show "mc_asked m' = mc_asked m" "mc_files m' = mc_files m"
    "e \<noteq> None \<and> mc_transactions m' = mc_transactions m
     \<or> mc_transactions m' = mc_transactions m @ [(version, file_at m path)]"
    using assms
    by (auto simp: Install_def Let_def file_at_def split: prod.splits if_splits sum.splits dest!: out)
qed

text \<open>What \<^verbatim>\<open>pacman\<close> may be told to install: a package a signed release text describes, when the installed version lets it.\<close>

definition signed_release :: "'w update_env \<Rightarrow> release \<Rightarrow> bool" where
  "signed_release E r \<longleftrightarrow> length (ue_key E) = 32
     \<and> (\<exists>data sig. ue_verify E (ue_key E) data sig \<and> parse_release data = Inr r)"

definition release_package :: "'w update_env \<Rightarrow> release \<Rightarrow> string \<Rightarrow> bool" where
  "release_package E r pkg \<longleftrightarrow> hex (ue_sha256 E pkg) = rl_hash r \<and> int (length pkg) = rl_size r"

definition version_wanted :: "'w update_env \<Rightarrow> string \<Rightarrow> release \<Rightarrow> bool" where
  "version_wanted E action r \<longleftrightarrow> (\<exists>w v. fst (Installed E w) = Inr v
     \<and> (action = ''install'' \<and> v = [] \<or> action = ''update'' \<and> compare_versions (full_version r) v = Inr 1))"

lemma stage_package_laws:
  assumes "stage_package E action origin r dir m = (e, m')" "action = ''install'' \<or> action = ''update''"
    and "path = dir @ ''/'' @ package_name r"
  shows "\<exists>m1. worked 5 path m m1 \<and> mc_asked m' = mc_asked m1 \<and> mc_files m' = mc_files m1
     \<and> (e \<noteq> None \<and> mc_transactions m' = mc_transactions m
        \<or> (\<exists>pkg. release_package E r pkg \<and> version_wanted E action r
             \<and> mc_transactions m' = mc_transactions m @ [(full_version r, pkg)]))"
proof -
  obtain c m1 where cr: "outside (ue_create E path) m = (c, m1)" by fastforce
  note w1 = talked_worked[OF outside_talked[OF cr], of 0 path]
  show ?thesis
  proof (cases c)
    case False
    with assms cr have "e = Some NoPrivateFile" "m' = m1" by (auto simp: stage_package_def)
    with w1 show ?thesis by (intro exI[of _ m1]) (auto simp: worked_def trusted_requests_def)
  next
    case True
    let ?m2 = "m1\<lparr>mc_files := put_file path [] (mc_files m1)\<rparr>"
    obtain got m3 where d: "update_download E (origin @ ''/'' @ package_name r) path (rl_size r) ?m2 = (got, m3)" by fastforce
    obtain cl m4 where cl: "outside (ue_close E) m3 = (cl, m4)" by fastforce
    have "worked 0 path m ?m2" by (rule worked_trans[OF w1 worked_file[of 0]]) simp
    then have "worked 5 path m m3" by (rule worked_trans[OF _ update_download_laws(1)[OF d]]) simp
    then have w4: "worked 5 path m m4" by (rule worked_trans[OF _ talked_worked[OF outside_talked[OF cl, of 0]]]) simp
    have t4: "mc_transactions m4 = mc_transactions m" using w4 by (simp add: worked_def)
    have stop: ?thesis if "e \<noteq> None" "m' = m4" using that w4 t4 by blast
    show ?thesis
    proof (cases "\<exists>h. got = Inr h \<and> cl \<and> hex (ue_sha256 E h) = rl_hash r")
      case False
      with assms cr True d cl have "e \<noteq> None \<and> m' = m4"
        by (auto simp: stage_package_def Let_def split: sum.splits if_splits)
      with stop show ?thesis by blast
    next
      case True
      then obtain h where h: "got = Inr h" "cl" "hex (ue_sha256 E h) = rl_hash r" by blast
      then have f3: "map_of (mc_files m3) path = Some h" "int (length h) = rl_size r" using update_download_laws(2)[OF d] by auto
      obtain ve m5 where v: "validateInstalled E action r m4 = (ve, m5)" by fastforce
      note v5 = validateInstalled_laws[OF v]
      have w5: "worked 5 path m m5" by (rule worked_trans[OF w4 talked_worked]) (use v5 in auto)
      have t5: "mc_transactions m5 = mc_transactions m" using w5 by (simp add: worked_def)
      show ?thesis
      proof (cases ve)
        case (Some x)
        with assms cr \<open>c\<close> d cl h v have "e = Some x" "m' = m5" by (auto simp: stage_package_def Let_def)
        with w5 t5 show ?thesis by blast
      next
        case None
        with assms cr \<open>c\<close> d cl h v have i: "Install E path (full_version r) m5 = (e, m')"
          by (simp add: stage_package_def Let_def)
        have "file_at m5 path = h"
          using f3 talked_files[OF outside_talked[OF cl, of 0]] v5 by (simp add: file_at_def talked_def)
        moreover have "version_wanted E action r"
          using v5 None installed_fits_newer[OF _ assms(2)] unfolding version_wanted_def by blast
        moreover have "release_package E r h" using h(3) f3(2) by (simp add: release_package_def)
        ultimately show ?thesis using Install_laws[OF i] w5 t5 by (intro exI[of _ m5]) auto
      qed
    qed
  qed
qed

text \<open>Up to the private directory nothing is written, and only a signed release of the version asked for gets that far.\<close>

lemma Apply_update_staged:
  assumes "Apply_update E action version m = (e, m')"
  shows "e \<noteq> None \<and> talked 10 m m'
     \<or> (\<exists>r w dir m3 m4 origin. signed_release E r \<and> rl_version r = version \<and> (action = ''install'' \<or> action = ''update'')
          \<and> talked 10 m m3 \<and> ue_mkdir E w = (Some dir, mc_rest m3)
          \<and> stage_package E action origin r dir m3 = (e, m4) \<and> m' = remove_all dir m4)"
proof (cases "(action = ''install'' \<or> action = ''update'') \<and> versionPattern version")
  case False
  with assms show ?thesis by (auto simp: Apply_update_def split: if_splits)
next
  case ok: True
  let ?origin = "Repository @ ''/releases/download/v'' @ version"
  obtain rr m1 where rd: "readRelease E ?origin m = (rr, m1)" by fastforce
  have t1: "talked 10 m m1" by (rule readRelease_talked[OF rd])
  show ?thesis
  proof (cases "\<exists>r. rr = Inr r \<and> rl_version r = version")
    case False
    with assms ok rd t1 show ?thesis by (auto simp: Apply_update_def split: sum.splits if_splits)
  next
    case True
    then obtain r where r: "rr = Inr r" "rl_version r = version" by blast
    have sg: "signed_release E r" using readRelease_signed[of E ?origin m r m1] rd r by (auto simp: signed_release_def)
    obtain ve m2 where v: "validateInstalled E action r m1 = (ve, m2)" by fastforce
    have t2: "talked 10 m m2" by (rule talked_trans[OF t1]) (use validateInstalled_laws[OF v] in auto)
    obtain dd m3 where mk: "outside (ue_mkdir E) m2 = (dd, m3)" by fastforce
    have t3: "talked 10 m m3" by (rule talked_trans[OF t2 outside_talked[OF mk, of 0]]) simp
    have w: "ue_mkdir E (mc_rest m2) = (dd, mc_rest m3)" using mk by (auto simp: outside_def split: prod.splits)
    note step = assms ok rd r v mk
    show ?thesis
    proof (cases "ve = None \<and> dd \<noteq> None")
      case False
      with step t2 t3 show ?thesis by (auto simp: Apply_update_def split: sum.splits if_splits option.splits)
    next
      case True
      then obtain dir where dir: "dd = Some dir" by blast
      obtain x m4 where st: "stage_package E action ?origin r dir m3 = (x, m4)" by fastforce
      have "e = x" "m' = remove_all dir m4" using step True dir st by (auto simp: Apply_update_def)
      with sg r ok t3 w dir st show ?thesis by blast
    qed
  qed
qed

lemma Apply_update_laws:
  assumes "Apply_update E action version m = (e, m')"
  shows "e \<noteq> None \<and> talked 10 m m'
     \<or> (\<exists>r w dir w' m5. signed_release E r \<and> rl_version r = version \<and> ue_mkdir E w = (Some dir, w')
          \<and> worked 15 (dir @ ''/'' @ package_name r) m m5 \<and> mc_asked m' = mc_asked m5
          \<and> mc_files m' = mc_files (remove_all dir m5)
          \<and> (e \<noteq> None \<and> mc_transactions m' = mc_transactions m
             \<or> (\<exists>pkg. release_package E r pkg \<and> version_wanted E action r
                  \<and> mc_transactions m' = mc_transactions m @ [(full_version r, pkg)])))"
proof (cases "e \<noteq> None \<and> talked 10 m m'")
  case False
  with Apply_update_staged[OF assms] obtain r w dir m3 m4 origin where r: "signed_release E r" "rl_version r = version"
    and act: "action = ''install'' \<or> action = ''update''" and t3: "talked 10 m m3"
    and mk: "ue_mkdir E w = (Some dir, mc_rest m3)"
    and st: "stage_package E action origin r dir m3 = (e, m4)" and m': "m' = remove_all dir m4" by blast
  let ?path = "dir @ ''/'' @ package_name r"
  from stage_package_laws[OF st act refl] obtain m5 where m5: "worked 5 ?path m3 m5" "mc_asked m4 = mc_asked m5"
    "mc_files m4 = mc_files m5"
    and fin: "e \<noteq> None \<and> mc_transactions m4 = mc_transactions m3
       \<or> (\<exists>pkg. release_package E r pkg \<and> version_wanted E action r
           \<and> mc_transactions m4 = mc_transactions m3 @ [(full_version r, pkg)])" by blast
  have "worked 15 ?path m m5" by (rule worked_trans[OF talked_worked[OF t3] m5(1)]) simp
  moreover have "mc_transactions m3 = mc_transactions m" "mc_transactions m' = mc_transactions m4"
    "mc_asked m' = mc_asked m5" "mc_files m' = mc_files (remove_all dir m5)"
    using t3 m5 by (auto simp: talked_def m' remove_all_def)
  ultimately show ?thesis using r mk fin by metis
qed simp

lemma Apply_update_installs:
  assumes "Apply_update E action version m = (e, m')"
  shows "e \<noteq> None \<and> mc_transactions m' = mc_transactions m
     \<or> (\<exists>r pkg. signed_release E r \<and> rl_version r = version \<and> release_package E r pkg \<and> version_wanted E action r
          \<and> mc_transactions m' = mc_transactions m @ [(full_version r, pkg)])"
  using Apply_update_laws[OF assms] by (auto simp: talked_def)

lemma Apply_update_leaves:
  assumes "Apply_update E action version m = (e, m')"
    and "\<And>w dir w'. ue_mkdir E w = (Some dir, w') \<Longrightarrow> \<forall>p. has_prefix p (dir @ ''/'') \<longrightarrow> map_of (mc_files m) p = None"
  shows "(\<exists>us. mc_asked m' = mc_asked m @ us \<and> trusted_requests 15 us) \<and> map_of (mc_files m') = map_of (mc_files m)"
proof (cases "e \<noteq> None \<and> talked 10 m m'")
  case True
  then have "talked 15 m m'" using talked_mono by fastforce
  then show ?thesis by (simp add: talked_def)
next
  case False
  with Apply_update_laws[OF assms(1)] obtain r w dir w' m5 where mk: "ue_mkdir E w = (Some dir, w')"
    and m5: "worked 15 (dir @ ''/'' @ package_name r) m m5" "mc_asked m' = mc_asked m5"
      "mc_files m' = mc_files (remove_all dir m5)" by blast
  have same: "map_of (mc_files m') p = map_of (mc_files m) p" for p
  proof (cases "has_prefix p (dir @ ''/'')")
    case True
    then show ?thesis using assms(2)[OF mk] by (simp add: m5(3) remove_all_map_of)
  next
    case False
    moreover have "has_prefix (dir @ ''/'' @ package_name r) (dir @ ''/'')" by (simp add: has_prefix_append)
    ultimately have "p \<noteq> dir @ ''/'' @ package_name r" by blast
    with m5(1) False show ?thesis by (simp add: m5(3) remove_all_map_of worked_def)
  qed
  then show ?thesis using m5 by (auto simp: worked_def fun_eq_iff)
qed

subsection \<open>The claims\<close>

text \<open>C30: only a signed release is ever installed. Whatever the network, the disk and \<^verbatim>\<open>pacman\<close> answer, the package \<^verbatim>\<open>pacman\<close> is
  told to install has the size and the hash that a release text with a valid signature gives for the version that was
  asked for, and the installed package was, right before, absent for an install and older for an update. A call that
  reports no error told it so.\<close>

theorem update_installs_signed:
  assumes "Apply_update E action version m = (e, m')"
  shows "e \<noteq> None \<and> mc_transactions m' = mc_transactions m
     \<or> (\<exists>r pkg. signed_release E r \<and> rl_version r = version \<and> release_package E r pkg \<and> version_wanted E action r
          \<and> mc_transactions m' = mc_transactions m @ [(full_version r, pkg)])"
  by (rule Apply_update_installs[OF assms])

text \<open>An update asks trusted hosts only, at most fifteen requests whatever redirects they answer with, and it leaves no file
  behind: when the directory it stages the package in is new, the files afterwards are the files before.\<close>

theorem update_contained:
  assumes "Apply_update E action version m = (e, m')"
    and "\<And>w dir w'. ue_mkdir E w = (Some dir, w') \<Longrightarrow> \<forall>p. has_prefix p (dir @ ''/'') \<longrightarrow> map_of (mc_files m) p = None"
  shows "(\<exists>us. mc_asked m' = mc_asked m @ us \<and> trusted_requests 15 us) \<and> map_of (mc_files m') = map_of (mc_files m)"
  by (rule Apply_update_leaves[OF assms])

subsection \<open>An update\<close>

text \<open>A server with one release and a machine with an older package.\<close>

definition upd_hash :: "string \<Rightarrow> nat list" where
  "upd_hash b = replicate 31 171 @ [length b mod 256]"

definition upd_release :: release where
  "upd_release = \<lparr>rl_version = ''1.10.0'', rl_pkgrel = ''1'', rl_size = 7, rl_hash = hex (upd_hash ''package'')\<rparr>"

definition upd_text :: string where
  "upd_text = join [CHR 0x0A] [''OMIHOMO-RELEASE-1'', ''version=1.10.0'', ''pkgrel=1'', ''arch=x86_64'', ''package-size=7'',
     ''package-sha256='' @ hex (upd_hash ''package''), ''installer-size=9'', ''installer-sha256='' @ hex (upd_hash ''package''), []]"

definition upd_sig :: string where "upd_sig = replicate 64 CHR ''s''"

definition upd_url :: "string \<Rightarrow> rel_url" where
  "upd_url a = \<lparr>ru_scheme = ''https'', ru_user = False, ru_host = ''github.com'', ru_port = [], ru_path = drop 18 a, ru_fragment = []\<rparr>"

definition upd_body :: "rel_url \<Rightarrow> string" where
  "upd_body u = (if has_suffix (ru_path u) ''.txt'' then upd_text else if has_suffix (ru_path u) ''.sig'' then upd_sig
     else ''package'')"

definition upd_answer :: "string \<Rightarrow> response_body" where
  "upd_answer b = \<lparr>bd_status = 200, bd_declared = - 1, bd_bytes = b, bd_broken = False\<rparr>"

definition upd_ran :: "string \<Rightarrow> exec_result" where
  "upd_ran out = \<lparr>ex_ok = True, ex_code = Some 0, ex_out = out, ex_err = []\<rparr>"

definition upd_metadata :: string where
  "upd_metadata = join [CHR 0x0A] [''Name : omihomo'', ''Version : 1.10.0-1'', ''Architecture : x86_64'']"

definition upd_update :: "unit update_env" where
  "upd_update = \<lparr>ue_parse = (\<lambda>a. Some (upd_url a)), ue_serve = (\<lambda>u w. (Served (upd_answer (upd_body u)), w)),
     ue_key = replicate 32 CHR ''k'', ue_verify = (\<lambda>k d s. d = upd_text \<and> s = upd_sig), ue_sha256 = upd_hash,
     ue_mkdir = (\<lambda>w. (Some ''/tmp/omihomo-package-1'', w)), ue_create = (\<lambda>_ w. (True, w)), ue_write = (\<lambda>_ w. (None, w)),
     ue_close = (\<lambda>w. (True, w)), ue_query = (\<lambda>w. (upd_ran ''omihomo 1.9.3-2'', w)), ue_root = True,
     ue_inspect = (\<lambda>_ w. (upd_ran upd_metadata, w)), ue_upgrade = (\<lambda>_ w. (True, w))\<rparr>"

definition upd_machine :: "unit machine" where
  "upd_machine = \<lparr>mc_files = [], mc_transactions = [], mc_asked = [], mc_rest = ()\<rparr>"

definition upd_updated :: "update_error option \<times> unit machine" where
  "upd_updated = Apply_update upd_update ''update'' ''1.10.0'' upd_machine"

lemma upd_select:
  "ue_parse upd_update a = Some (upd_url a)" "ue_serve upd_update u w = (Served (upd_answer (upd_body u)), w)"
  "length (ue_key upd_update) = PublicKeySize" "ue_verify upd_update k d s = (d = upd_text \<and> s = upd_sig)"
  "ue_sha256 upd_update = upd_hash" "ue_mkdir upd_update w = (Some ''/tmp/omihomo-package-1'', w)"
  "ue_create upd_update p w = (True, w)" "ue_write upd_update p w = (None, w)" "ue_close upd_update w = (True, w)"
  "ue_query upd_update w = (upd_ran ''omihomo 1.9.3-2'', w)" "ue_root upd_update"
  "ue_inspect upd_update b w = (upd_ran upd_metadata, w)" "ue_upgrade upd_update b w = (True, w)"
  by (simp_all add: upd_update_def PublicKeySize_def)

lemma upd_allowed: "allowedURL (upd_url a)"
  by (simp add: allowedURL_def upd_url_def trusted_hosts_def)

lemma upd_opened: "0 \<le> limit \<Longrightarrow> open_transfer upd_update a limit exact m
   = (Inr (upd_answer (upd_body (upd_url a))), m\<lparr>mc_asked := mc_asked m @ [upd_url a]\<rparr>)"
  by (simp add: open_transfer_def upd_select upd_allowed client_do.simps outside_def upd_answer_def)

lemma upd_read: "upd_body (upd_url a) = b \<Longrightarrow> int (length b) \<le> limit \<Longrightarrow>
   update_read upd_update a limit m = (Inr b, m\<lparr>mc_asked := mc_asked m @ [upd_url a]\<rparr>)"
  by (simp add: update_read_def upd_opened copy_limited_def check_copied_def upd_answer_def)

lemma upd_computed:
  "upd_body (upd_url ((Repository @ ''/releases/download/v1.10.0'') @ ''/omihomo-release.txt'')) = upd_text"
  "upd_body (upd_url ((Repository @ ''/releases/download/v1.10.0'') @ ''/omihomo-release.txt.sig'')) = upd_sig"
  "upd_body (upd_url ((Repository @ ''/releases/download/v1.10.0'') @ ''/'' @ package_name upd_release)) = ''package''"
  by code_simp+

lemma upd_lengths: "length upd_text \<le> 1024" "length upd_sig = 64"
  by code_simp+

lemma upd_parsed: "parse_release upd_text = Inr upd_release"
  by code_simp

lemma upd_newer: "installed_fits ''update'' upd_release ''1.9.3-2'' = None" "versionPattern ''1.10.0''"
  by code_simp+

lemma upd_installed: "Installed upd_update m = (Inr ''1.9.3-2'', m)"
proof -
  have "str_fields ''omihomo 1.9.3-2'' = [''omihomo'', ''1.9.3-2'']" by code_simp
  then show ?thesis by (simp add: Installed_def outside_def upd_select upd_ran_def)
qed

lemma upd_identity:
  "\<exists>ident. package_identity (split_on (CHR 0x0A) upd_metadata) [] = Inr ident \<and> identity_matches ident (full_version upd_release)"
proof -
  have "case package_identity (split_on (CHR 0x0A) upd_metadata) [] of
      Inr ident \<Rightarrow> identity_matches ident (full_version upd_release) | Inl _ \<Rightarrow> False" by code_simp
  then show ?thesis by (cases "package_identity (split_on (CHR 0x0A) upd_metadata) []") auto
qed

lemma upd_install: "fst (Install upd_update path (full_version upd_release) m) = None"
  using upd_identity by (auto simp: Install_def outside_def upd_select upd_ran_def)

lemma upd_read_release: "readRelease upd_update (Repository @ ''/releases/download/v1.10.0'') m
   = (Inr upd_release, m\<lparr>mc_asked := mc_asked m
        @ [upd_url ((Repository @ ''/releases/download/v1.10.0'') @ ''/omihomo-release.txt''),
           upd_url ((Repository @ ''/releases/download/v1.10.0'') @ ''/omihomo-release.txt.sig'')]\<rparr>)"
  unfolding readRelease_def using upd_lengths
  by (simp add: upd_read[OF upd_computed(1)] upd_read[OF upd_computed(2)] upd_select upd_parsed SignatureSize_def
      del: append_assoc)

lemma upd_updated_ok: "fst upd_updated = None"
proof -
  have rl: "rl_version upd_release = ''1.10.0''" "rl_size upd_release = 7" "rl_hash upd_release = hex (upd_hash ''package'')"
    by (simp_all add: upd_release_def)
  have "fst (stage_package upd_update ''update'' (Repository @ ''/releases/download/v1.10.0'') upd_release dir m) = None" for dir m
    by (simp add: stage_package_def Let_def outside_def upd_select update_download_def rl upd_opened upd_computed[simplified]
        upd_answer_def copy_limited_def check_copied_def validateInstalled_def upd_installed upd_newer upd_install)
  then show ?thesis
    by (simp add: upd_updated_def Apply_update_def upd_newer upd_read_release rl validateInstalled_def upd_installed
        outside_def upd_select case_prod_unfold Let_def del: append_assoc)
qed

theorem update_installs_signed_witness:
  "\<exists>r pkg. rl_version r = ''1.10.0'' \<and> release_package upd_update r pkg \<and> version_wanted upd_update ''update'' r
     \<and> mc_transactions (snd upd_updated) = [(full_version r, pkg)]"
  using update_installs_signed[of upd_update "''update''" "''1.10.0''" upd_machine "fst upd_updated" "snd upd_updated"]
    upd_updated_ok by (auto simp: upd_updated_def upd_machine_def)

theorem update_contained_witness:
  "map_of (mc_files (snd upd_updated)) = Map.empty \<and> trusted_requests 15 (mc_asked (snd upd_updated))"
  using update_contained[of upd_update "''update''" "''1.10.0''" upd_machine "fst upd_updated" "snd upd_updated"]
  by (auto simp: upd_updated_def upd_machine_def)

end
