(* ===== verification/Rule_Lines.thy ===== *)
theory Rule_Lines
  imports Core_Types
begin

text \<open>
  Rule lines: \<^verbatim>\<open>ParseRule\<close> of \<^verbatim>\<open>internal/profile/rules.go\<close>, which reads a subscription's rule, and
  \<^verbatim>\<open>ruleLine\<close>, \<^verbatim>\<open>checkRuleRegex\<close> and \<^verbatim>\<open>withOmihomoRules\<close> of
  \<^verbatim>\<open>internal/core/mihomo\<close>, which write the rules the engine runs. \<open>uni\<close> is Unicode's
  upper-case table for strings that are not ASCII, \<open>re\<close> says whether Go's \<^verbatim>\<open>regexp\<close> package
  compiles an expression.
\<close>

definition commaValues :: "string list" where
  "commaValues = [''NOT'', ''OR'', ''AND'', ''SUB-RULE'', ''DOMAIN-REGEX'', ''PROCESS-NAME-REGEX'',
     ''PROCESS-PATH-REGEX'']"

definition ruleTypes :: "string list" where
  "ruleTypes = [''SUB-RULE'',
     ''DOMAIN-REGEX'', ''PROCESS-NAME-REGEX'', ''PROCESS-PATH-REGEX'', ''PROCESS-NAME-WILDCARD'',
     ''PROCESS-PATH-WILDCARD'', ''REMATCH-NAME'', ''DOMAIN'', ''DOMAIN-SUFFIX'', ''DOMAIN-KEYWORD'',
     ''DOMAIN-WILDCARD'', ''GEOSITE'',
     ''GEOIP'', ''SRC-GEOIP'', ''IP-ASN'', ''SRC-IP-ASN'', ''IP-CIDR'', ''IP-CIDR6'', ''SRC-IP-CIDR'',
     ''IP-SUFFIX'', ''SRC-IP-SUFFIX'', ''SRC-PORT'', ''DST-PORT'', ''IN-PORT'', ''IN-TYPE'', ''IN-USER'',
     ''IN-NAME'', ''PROCESS-PATH'', ''PROCESS-NAME'', ''UID'', ''NETWORK'',
     ''DSCP'', ''RULE-SET'', ''AND'', ''OR'', ''NOT'', ''MATCH'']"

definition ruleParams :: "string list" where
  "ruleParams = [''no-resolve'', ''src'']"

datatype rule_error = Malformed string

definition ParseRule :: "(string \<Rightarrow> string) \<Rightarrow> string \<Rightarrow> (rule_error, core_rule) res" where
  "ParseRule uni line =
     (let fs = map trim_space (split_on (CHR '','') line);
          typ = to_upper uni (hd fs);
          n = length fs;
          rule = (\<lambda>value target params.
             \<lparr>r_type = typ, r_value = value, r_target = target, r_params = params, r_source = []\<rparr>)
      in if typ = ''MATCH'' \<and> n = 2 \<and> fs ! 1 \<noteq> []
         then Inr (rule [] (fs ! 1) [])
         else if typ \<in> set commaValues \<and> n \<ge> 3 \<and> last fs \<noteq> []
         then Inr (rule (join '','' (butlast (tl fs))) (last fs) [])
         else if typ \<noteq> ''MATCH'' \<and> typ \<notin> set commaValues \<and> n \<ge> 3 \<and> fs ! 1 \<noteq> [] \<and> fs ! 2 \<noteq> []
         then Inr (rule (fs ! 1) (fs ! 2) (drop 3 fs))
         else Inl (Malformed line))"

text \<open>\<^verbatim>\<open>checkRuleRegex\<close>. \<open>paren_segments\<close> is its loop over the inner text: the segments the loop
  cuts out where the parenthesis depth returns to 0, each of them checked in turn.\<close>

fun paren_segments :: "string \<Rightarrow> nat \<Rightarrow> int \<Rightarrow> nat \<Rightarrow> string \<Rightarrow> string list" where
  "paren_segments inner i depth start [] = []"
| "paren_segments inner i depth start (c # cs) =
     (if c = CHR ''(''
      then paren_segments inner (Suc i) (depth + 1) (if depth = 0 then Suc i else start) cs
      else if c = CHR '')''
      then (if depth - 1 = 0 then [take (i - start) (drop start inner)] else [])
           @ paren_segments inner (Suc i) (depth - 1) start cs
      else paren_segments inner (Suc i) depth start cs)"

lemma paren_segments_length:
  "seg \<in> set (paren_segments inner i depth start cs) \<Longrightarrow> length seg \<le> length inner"
  by (induction inner i depth start cs rule: paren_segments.induct) (auto split: if_splits)

definition cut_rule :: "string \<Rightarrow> string \<times> string" where
  "cut_rule s = (let (typ, value, _) = cut_at (CHR '','') s in (trim_space typ, trim_space value))"

lemma cut_rule_length: "length (snd (cut_rule s)) \<le> length s"
proof -
  let ?v = "fst (snd (cut_at (CHR '','') s))"
  have "length (dropWhile (\<lambda>x. x \<noteq> CHR '','') s) \<le> length s" by (rule length_dropWhile_le)
  then have "length ?v \<le> length s" by (simp add: cut_at_def)
  moreover have "snd (cut_rule s) = trim_space ?v" by (simp add: cut_rule_def cut_at_def)
  ultimately show ?thesis using trim_space_length[of ?v] by simp
qed

lemma inner_length: "2 \<le> length value \<Longrightarrow> length (butlast (tl value)) < length value"
  by simp

function checkRuleRegex :: "(string \<Rightarrow> bool) \<Rightarrow> string \<Rightarrow> string \<Rightarrow> bool" where
  "checkRuleRegex re typ value =
     (if has_suffix typ ''-REGEX'' then re value
      else if typ \<notin> {''AND'', ''OR'', ''NOT'', ''SUB-RULE''} then True
      else if length value < 2 \<or> hd value \<noteq> CHR ''('' \<or> last value \<noteq> CHR '')'' then True
      else if typ = ''SUB-RULE''
      then checkRuleRegex re (fst (cut_rule (butlast (tl value)))) (snd (cut_rule (butlast (tl value))))
      else list_all (\<lambda>seg. checkRuleRegex re (fst (cut_rule seg)) (snd (cut_rule seg)))
             (paren_segments (butlast (tl value)) 0 0 0 (butlast (tl value))))"
  by pat_completeness auto
termination
proof (relation "measure (\<lambda>(re, typ, v). length v)", goal_cases)
  case 1
  then show ?case by simp
next
  case (2 re ty v)
  then have "2 \<le> length v" by simp
  then have "length (snd (cut_rule (butlast (tl v)))) < length v"
    using cut_rule_length[of "butlast (tl v)"] inner_length[of v] by linarith
  then show ?case by (simp add: case_prod_unfold)
next
  case (3 re ty v seg)
  then have "2 \<le> length v" and "length seg \<le> length (butlast (tl v))"
    using paren_segments_length by (simp, blast)
  then have "length (snd (cut_rule seg)) < length v"
    using cut_rule_length[of seg] inner_length[of v] by linarith
  then show ?case by (simp add: case_prod_unfold)
qed

declare checkRuleRegex.simps [simp del]

datatype line_error = BadRegex | LineBreakOrSpace | MalformedRule | UnknownParam string
  | MatchTakesNone | NeedsValueNoParams | NeedsValueNoCommas

definition ruleLine :: "(string \<Rightarrow> string) \<Rightarrow> (string \<Rightarrow> bool) \<Rightarrow> core_rule \<Rightarrow> (line_error, string) res" where
  "ruleLine uni re r =
     (let typ = to_upper uni (r_type r);
          fs = [r_type r, r_value r, r_target r] @ r_params r;
          written = join '','' ([typ, r_value r, r_target r] @ r_params r)
      in if \<not> checkRuleRegex re typ (r_value r) then Inl BadRegex
         else if list_ex (\<lambda>f. contains_any f [CHR 0x0D, CHR 0x0A] \<or> f \<noteq> trim_space f) fs
         then Inl LineBreakOrSpace
         else if typ = [] \<or> CHR '','' \<in> set typ \<or> r_target r = [] \<or> CHR '','' \<in> set (r_target r)
         then Inl MalformedRule
         else (case find (\<lambda>p. p \<notin> set ruleParams) (r_params r) of
             Some p \<Rightarrow> Inl (UnknownParam p)
           | None \<Rightarrow>
               if typ = ''MATCH''
               then (if r_value r \<noteq> [] \<or> r_params r \<noteq> [] then Inl MatchTakesNone
                     else Inr (typ @ '','' @ r_target r))
               else if typ \<in> set commaValues
               then (if r_value r = [] \<or> r_params r \<noteq> [] then Inl NeedsValueNoParams else Inr written)
               else if r_value r = [] \<or> CHR '','' \<in> set (r_value r) then Inl NeedsValueNoCommas
               else Inr written))"

text \<open>\<^verbatim>\<open>withOmihomoRules\<close>: the integration rules go after the owner's leading rules.\<close>

definition withOmihomoRules :: "core_rule list \<Rightarrow> core_config \<Rightarrow> core_rule list" where
  "withOmihomoRules rules cfg =
     (if c_omihomo_rules_disabled cfg then rules
      else takeWhile (\<lambda>r. r_source r = SourceUser) rules @ IntegrationRules cfg
           @ dropWhile (\<lambda>r. r_source r = SourceUser) rules)"

subsection \<open>What the engine reads back\<close>

lemma commaValues_not_match: "''MATCH'' \<notin> set commaValues"
  by (simp add: commaValues_def)

lemma ruleTypes_all_plain:
  "list_all (\<lambda>t. t \<noteq> [] \<and> is_ascii t \<and> map upper_char t = t \<and> trim_space t = t \<and> CHR '','' \<notin> set t) ruleTypes"
  by code_simp

lemma ruleTypes_plain:
  assumes "t \<in> set ruleTypes"
  shows "t \<noteq> []" "to_upper uni t = t" "trim_space t = t" "CHR '','' \<notin> set t"
  using ruleTypes_all_plain assms by (auto simp: list_all_iff to_upper_def)

lemma ruleParams_plain: "p \<in> set ruleParams \<Longrightarrow> CHR '','' \<notin> set p \<and> trim_space p = p"
proof -
  have "list_all (\<lambda>p. CHR '','' \<notin> set p \<and> trim_space p = p) ruleParams" by code_simp
  then show "p \<in> set ruleParams \<Longrightarrow> CHR '','' \<notin> set p \<and> trim_space p = p"
    by (auto simp: list_all_iff)
qed

text \<open>The facts a rule passes \<^const>\<open>ruleLine\<close> with.\<close>

lemma ruleLine_facts:
  assumes ok: "ruleLine uni re r = Inr line" and ty: "r_type r \<in> set ruleTypes"
  shows "trim_space (r_value r) = r_value r" "trim_space (r_target r) = r_target r"
    "r_target r \<noteq> []" "CHR '','' \<notin> set (r_target r)" "set (r_params r) \<subseteq> set ruleParams"
  using ok ruleTypes_plain[OF ty]
  by (auto simp: ruleLine_def Let_def find_None_iff split: if_splits option.splits)

lemma ruleLine_written:
  assumes ok: "ruleLine uni re r = Inr line" and ty: "r_type r \<in> set ruleTypes"
  shows "r_type r = ''MATCH'' \<Longrightarrow> r_value r = [] \<and> r_params r = [] \<and> line = ''MATCH,'' @ r_target r"
    "r_type r \<in> set commaValues \<Longrightarrow> r_value r \<noteq> [] \<and> r_params r = [] \<and>
       line = join '','' [r_type r, r_value r, r_target r]"
    "r_type r \<noteq> ''MATCH'' \<Longrightarrow> r_type r \<notin> set commaValues \<Longrightarrow>
       r_value r \<noteq> [] \<and> CHR '','' \<notin> set (r_value r) \<and>
       line = join '','' ([r_type r, r_value r, r_target r] @ r_params r)"
  using ok ruleTypes_plain[OF ty] commaValues_not_match
  by (auto simp: ruleLine_def Let_def split: if_splits option.splits)

lemma split_typed_line: "CHR '','' \<notin> set t \<Longrightarrow> CHR '','' \<notin> set g \<Longrightarrow>
  split_on (CHR '','') (join '','' [t, v, g]) = t # split_on (CHR '','') v @ [g]"
  by (simp add: split_on_append split_on_append_gen split_on_free)

lemma ParseRule_ruleLine:
  assumes ok: "ruleLine uni re r = Inr line" and ty: "r_type r \<in> set ruleTypes"
  shows "ParseRule uni line = Inr (r\<lparr>r_source := [], r_value :=
    (if r_type r \<in> set commaValues then join '','' (map trim_space (split_on (CHR '','') (r_value r)))
     else r_value r)\<rparr>)"
proof -
  note plain = ruleTypes_plain[OF ty] and facts = ruleLine_facts[OF ok ty]
    and w = ruleLine_written[OF ok ty]
  consider (match) "r_type r = ''MATCH''" | (comma) "r_type r \<in> set commaValues"
    | (plain) "r_type r \<noteq> ''MATCH''" "r_type r \<notin> set commaValues" by blast
  then show ?thesis
  proof cases
    case match
    have "split_on (CHR '','') (''MATCH'' @ CHR '','' # r_target r) = [''MATCH'', r_target r]"
      using facts by (subst split_on_append) (simp_all add: split_on_free)
    with match w(1) plain facts commaValues_not_match show ?thesis
      by (simp add: ParseRule_def Let_def)
  next
    case comma
    then have "r_type r \<noteq> ''MATCH''" using commaValues_not_match by auto
    moreover have "split_on (CHR '','') line = r_type r # split_on (CHR '','') (r_value r) @ [r_target r]"
      using w(2)[OF comma] split_typed_line plain facts by blast
    moreover have "Suc 0 \<le> length (split_on (CHR '','') (r_value r))"
      by (simp add: Suc_le_eq)
    ultimately show ?thesis
      using comma w(2)[OF comma] plain facts by (simp add: ParseRule_def Let_def butlast_append)
  next
    case plain
    have "split_on (CHR '','') line = [r_type r, r_value r, r_target r] @ r_params r"
    proof -
      have "CHR '','' \<notin> set x" if "x \<in> set ([r_type r, r_value r, r_target r] @ r_params r)" for x
        using that w(3)[OF plain] \<open>CHR '','' \<notin> set (r_type r)\<close> facts ruleParams_plain by auto
      then have "split_on (CHR '','') (join '','' ([r_type r, r_value r, r_target r] @ r_params r))
        = [r_type r, r_value r, r_target r] @ r_params r" by (intro split_on_join) simp
      with w(3)[OF plain] show ?thesis by metis
    qed
    moreover have "map trim_space (r_params r) = r_params r"
      using facts(5) ruleParams_plain by (auto intro!: map_idI)
    ultimately show ?thesis
      using plain w(3)[OF plain] facts \<open>to_upper uni (r_type r) = r_type r\<close> \<open>trim_space (r_type r) = r_type r\<close>
      by (simp add: ParseRule_def Let_def)
  qed
qed

subsection \<open>What a parsed rule looks like\<close>

lemma ParseRule_parts:
  assumes "ParseRule uni line = Inr r"
  shows "r_target r \<noteq> []" "trim_space (r_target r) = r_target r" "CHR '','' \<notin> set (r_target r)"
proof -
  have nocomma: "CHR '','' \<notin> set (trim_space x)" if "x \<in> set (split_on (CHR '','') line)" for x
    using split_on_no_sep[OF that] trim_space_set[of x] by blast
  define fs where "fs = map trim_space (split_on (CHR '','') line)"
  have "fs \<noteq> []" by (simp add: fs_def)
  have in_fs: "x \<in> set fs \<Longrightarrow> trim_space x = x \<and> CHR '','' \<notin> set x" for x
    using nocomma by (auto simp: fs_def)
  have "length fs = 2 \<and> r_target r = fs ! 1 \<and> r_target r \<noteq> []
    \<or> 3 \<le> length fs \<and> r_target r = last fs \<and> r_target r \<noteq> []
    \<or> 3 \<le> length fs \<and> r_target r = fs ! 2 \<and> r_target r \<noteq> []"
    using assms unfolding ParseRule_def Let_def fs_def[symmetric] by (auto split: if_splits)
  then have "r_target r \<in> set fs \<and> r_target r \<noteq> []"
    using last_in_set[of fs, OF _] nth_mem[of 1 fs] nth_mem[of 2 fs] \<open>fs \<noteq> []\<close> by auto
  with in_fs show "r_target r \<noteq> []" "trim_space (r_target r) = r_target r" "CHR '','' \<notin> set (r_target r)"
    by auto
qed

end
