(* ===== verification/Rule_Check.thy ===== *)
theory Rule_Check
  imports Protocol Rule_Lines
begin

text \<open>
  \<^verbatim>\<open>internal/daemon/rules.go\<close> and the name and settings checks of \<^verbatim>\<open>internal/daemon/ops.go\<close>: what
  the daemon takes from a client. \<open>lower\<close> is Unicode's lower-case table. The parser of
  \<^verbatim>\<open>net/netip\<close> is written out as far as the checks look at it: whether a prefix parses, and the
  family of its address.
\<close>

subsection \<open>netip.ParsePrefix\<close>

datatype family = Is4 | Is6

definition octet :: "string \<Rightarrow> bool" where
  "octet s \<longleftrightarrow> s \<noteq> [] \<and> length s \<le> 3 \<and> list_all is_digit s \<and> (hd s = CHR ''0'' \<longrightarrow> length s = 1) \<and> nat_of_digits s \<le> 255"

definition parse_ipv4 :: "string \<Rightarrow> bool" where
  "parse_ipv4 s \<longleftrightarrow> length (split_on (CHR ''.'') s) = 4 \<and> list_all octet (split_on (CHR ''.'') s)"

definition is_hex :: "char \<Rightarrow> bool" where
  "is_hex c \<longleftrightarrow> is_digit c \<or> CHR ''a'' \<le> c \<and> c \<le> CHR ''f'' \<or> CHR ''A'' \<le> c \<and> c \<le> CHR ''F''"

text \<open>The loop of \<^verbatim>\<open>parseIPv6\<close> after a leading ellipsis: \<open>i\<close> bytes are filled, \<open>ell\<close> says an
  ellipsis was seen. A field of more than four digits fails.\<close>

function ipv6_loop :: "nat \<Rightarrow> bool \<Rightarrow> string \<Rightarrow> bool" where
  "ipv6_loop i ell s =
     (if i \<ge> 16 then s = [] \<and> \<not> ell
      else
        let digits = takeWhile is_hex s; rest = dropWhile is_hex s
        in if digits = [] \<or> length digits > 4 then False
           else case rest of
                  [] \<Rightarrow> (if i + 2 < 16 then ell else \<not> ell)
                | c # t \<Rightarrow>
                    if c = CHR ''.''
                    then (ell \<or> i = 12) \<and> i + 4 \<le> 16 \<and> parse_ipv4 s \<and> (if i + 4 < 16 then ell else \<not> ell)
                    else if c \<noteq> CHR '':'' \<or> t = [] then False
                    else if hd t = CHR '':''
                    then \<not> ell \<and> (if tl t = [] then i + 2 < 16 else ipv6_loop (i + 2) True (tl t))
                    else ipv6_loop (i + 2) ell t)"
  by pat_completeness auto
termination
  by (relation "measure (\<lambda>(i, ell, s). 16 - i)") auto

declare ipv6_loop.simps [simp del]

definition parse_ipv6 :: "string \<Rightarrow> bool" where
  "parse_ipv6 s =
     (if has_prefix s ''::'' then drop 2 s = [] \<or> ipv6_loop 0 True (drop 2 s) else ipv6_loop 0 False s)"

text \<open>\<^verbatim>\<open>ParsePrefix\<close> takes no zone, so an address with a percent sign never parses.\<close>

definition parse_addr :: "string \<Rightarrow> family option" where
  "parse_addr s =
     (if CHR ''%'' \<in> set s then None
      else case find (\<lambda>c. c = CHR ''.'' \<or> c = CHR '':'') s of
             Some c \<Rightarrow> if c = CHR ''.'' then (if parse_ipv4 s then Some Is4 else None)
                       else if parse_ipv6 s then Some Is6 else None
           | None \<Rightarrow> None)"

definition ParsePrefix :: "string \<Rightarrow> family option" where
  "ParsePrefix s =
     (if CHR ''/'' \<notin> set s then None
      else
        let bits = rev (takeWhile (\<lambda>c. c \<noteq> CHR ''/'') (rev s));
            addr = take (length s - length bits - 1) s
        in case parse_addr addr of
             None \<Rightarrow> None
           | Some f \<Rightarrow>
               if length bits > 1 \<and> \<not> (CHR ''1'' \<le> hd bits \<and> hd bits \<le> CHR ''9'') then None
               else case parse_int bits of
                      None \<Rightarrow> None
                    | Some n \<Rightarrow> if n < 0 \<or> n > (case f of Is4 \<Rightarrow> 32 | Is6 \<Rightarrow> 128) then None else Some f)"

subsection \<open>Names\<close>

definition maxName :: nat where "maxName = 256"
definition maxNames :: nat where "maxNames = 4096"

definition validName :: "string \<Rightarrow> string \<Rightarrow> perr option" where
  "validName what name =
     (if name = [] then Some (fail CodeInvalid ''%s is empty'' [what])
      else if length name > maxName \<or> has_control name then Some (fail CodeInvalid ''%s is not a valid name'' [what])
      else None)"

fun first_error :: "('a \<Rightarrow> perr option) \<Rightarrow> 'a list \<Rightarrow> perr option" where
  "first_error f [] = None"
| "first_error f (x # xs) = (case f x of Some e \<Rightarrow> Some e | None \<Rightarrow> first_error f xs)"

lemma first_error_None: "first_error f xs = None \<longleftrightarrow> (\<forall>x \<in> set xs. f x = None)"
  by (induction xs) (auto split: option.splits)

definition validNames :: "string \<Rightarrow> string list \<Rightarrow> perr option" where
  "validNames what names =
     (if length names > maxNames then Some (fail CodeInvalid ''too many %ss'' [what])
      else first_error (validName what) names)"

definition checkSettings :: "settings \<Rightarrow> perr option" where
  "checkSettings s =
     (case (if s_dns_destination s \<noteq> [] then validName ''DNS destination'' (s_dns_destination s) else None) of
        Some e \<Rightarrow> Some e
      | None \<Rightarrow>
          if s_category_targets s \<noteq> no_category_targets
          then Some (fail CodeInvalid ''legacy category_targets are no longer supported; remove category_targets from settings.json before applying'' [])
          else if s_mode s \<noteq> ModeRule \<and> s_mode s \<noteq> ModeGlobal \<and> s_mode s \<noteq> ModeDirect
          then Some (fail CodeInvalid ''mode must be rule, global or direct'' [])
          else if s_primary_group s \<noteq> [] then validName ''primary group'' (s_primary_group s)
          else None)"

subsection \<open>Rules\<close>

definition userRuleTypes :: "string list" where
  "userRuleTypes = [''SUB-RULE'',
     ''DOMAIN-REGEX'', ''PROCESS-NAME-REGEX'', ''PROCESS-PATH-REGEX'', ''DOMAIN'', ''DOMAIN-SUFFIX'', ''DOMAIN-KEYWORD'', ''DOMAIN-WILDCARD'', ''GEOSITE'',
     ''IP-CIDR'', ''IP-CIDR6'', ''SRC-IP-CIDR'', ''GEOIP'', ''SRC-GEOIP'', ''IP-ASN'', ''SRC-IP-ASN'',
     ''IP-SUFFIX'', ''SRC-IP-SUFFIX'', ''DST-PORT'', ''SRC-PORT'', ''IN-PORT'', ''IN-TYPE'', ''IN-USER'', ''IN-NAME'',
     ''REMATCH-NAME'', ''PROCESS-NAME'', ''PROCESS-PATH'', ''PROCESS-NAME-WILDCARD'', ''PROCESS-PATH-WILDCARD'',
     ''UID'', ''NETWORK'', ''DSCP'', ''RULE-SET'', ''AND'', ''OR'', ''NOT'', ''MATCH'']"

definition maxUserRules :: nat where "maxUserRules = 1000"

definition range_limit :: "string \<Rightarrow> nat" where
  "range_limit ty = (if ty = ''DSCP'' then 63 else if ty = ''UID'' then 4294967295 else 65535)"

definition checkRange :: "string \<Rightarrow> string \<Rightarrow> bool" where
  "checkRange ty part =
     (let (lo, hi0, ok) = cut_at (CHR ''-'') part; hi = (if ok then hi0 else lo)
      in case (parse_uint 32 lo, parse_uint 32 hi) of
           (Some a, Some b) \<Rightarrow> a \<le> b \<and> b \<le> range_limit ty
         | _ \<Rightarrow> False)"

definition comma_types :: "string \<Rightarrow> bool" where
  "comma_types ty \<longleftrightarrow> ty \<in> set [''AND'', ''OR'', ''NOT'', ''SUB-RULE''] \<or> has_suffix ty ''-REGEX''"

definition checkRuleValue :: "(string \<Rightarrow> string) \<Rightarrow> string \<Rightarrow> string \<Rightarrow> perr option" where
  "checkRuleValue lower ty v =
     (if ty = ''MATCH''
      then (if v \<noteq> [] then Some (fail CodeInvalid ''MATCH takes no value'' []) else None)
      else if v = [] \<or> length v > 4096 \<or> v \<noteq> trim_space v \<or> has_control v
      then Some (fail CodeInvalid ''the value is empty, too long, or has surrounding space or control characters'' [])
      else if CHR '','' \<in> set v \<and> \<not> comma_types ty
      then Some (fail CodeInvalid ''a rule value cannot contain a comma'' [])
      else if ty \<in> set [''IP-CIDR'', ''IP-CIDR6'', ''SRC-IP-CIDR'']
      then (case ParsePrefix v of
              None \<Rightarrow> Some (fail CodeInvalid ''invalid %s %q'' [ty, v])
            | Some f \<Rightarrow> if ty = ''IP-CIDR6'' \<and> f \<noteq> Is6 then Some (fail CodeInvalid ''invalid %s %q'' [ty, v]) else None)
      else if ty \<in> set [''DST-PORT'', ''SRC-PORT'', ''IN-PORT'', ''UID'', ''DSCP'']
      then (if length (split_on (CHR ''/'') v) > 28 then Some (fail CodeInvalid ''at most 28 ranges'' [])
            else first_error (\<lambda>part. if checkRange ty part then None
                   else Some (fail CodeInvalid ''invalid %s range %q'' [ty, part])) (split_on (CHR ''/'') v))
      else if ty = ''NETWORK''
      then (if to_lower lower v \<noteq> ''tcp'' \<and> to_lower lower v \<noteq> ''udp''
            then Some (fail CodeInvalid ''NETWORK is tcp or udp'' []) else None)
      else if ty \<in> set [''IP-ASN'', ''SRC-IP-ASN'']
      then (if parse_uint 32 v = None then Some (fail CodeInvalid ''invalid %s'' [ty]) else None)
      else if ty \<in> set [''IP-SUFFIX'', ''SRC-IP-SUFFIX'']
      then (if ParsePrefix v = None then Some (fail CodeInvalid ''invalid IP suffix'' []) else None)
      else if ty \<in> set [''DOMAIN-REGEX'', ''PROCESS-NAME-REGEX'', ''PROCESS-PATH-REGEX'']
      then None
      else if ty \<in> set [''PROCESS-NAME'', ''PROCESS-PATH'', ''PROCESS-NAME-WILDCARD'', ''PROCESS-PATH-WILDCARD'',
                        ''IN-TYPE'', ''IN-USER'', ''IN-NAME'', ''REMATCH-NAME'']
      then None
      else if ty = ''SUB-RULE''
      then (if \<not> has_prefix v ''('' \<or> \<not> has_suffix v '')''
            then Some (fail CodeInvalid ''use a parenthesized condition'' []) else None)
      else if ty \<in> set [''AND'', ''OR'', ''NOT'']
      then (if \<not> has_prefix v ''(('' \<or> \<not> has_suffix v ''))''
            then Some (fail CodeInvalid ''use a parenthesized logic expression'' []) else None)
      else if contains_any v [CHR '' '', CHR ''/'', CHR 0x5C]
      then Some (fail CodeInvalid ''invalid %s %q'' [ty, v])
      else None)"

definition param_types :: "string list" where
  "param_types = [''GEOIP'', ''IP-ASN'', ''IP-CIDR'', ''IP-CIDR6'', ''IP-SUFFIX'', ''RULE-SET'']"

definition checkRule :: "(string \<Rightarrow> string) \<Rightarrow> rule_entry \<Rightarrow> perr option" where
  "checkRule lower r =
     (if re_type r \<notin> set userRuleTypes
      then Some (fail CodeInvalid ''the type must be one of %s'' [join '', '' userRuleTypes])
      else case checkRuleValue lower (re_type r) (re_value r) of
             Some e \<Rightarrow> Some e
           | None \<Rightarrow>
               (case first_error (\<lambda>param.
                       if param \<noteq> ''no-resolve'' \<and> param \<noteq> ''src'' then Some (fail CodeInvalid ''unknown rule parameter %q'' [param])
                       else if re_type r \<notin> set param_types then Some (fail CodeInvalid ''%s takes no parameters'' [re_type r])
                       else None) (str_fields (re_params r)) of
                  Some e \<Rightarrow> Some e
                | None \<Rightarrow>
                    (case validName ''target'' (re_target r) of
                       Some e \<Rightarrow> Some e
                     | None \<Rightarrow> if CHR '','' \<in> set (re_target r)
                               then Some (fail CodeInvalid ''a rule target cannot contain a comma'' []) else None)))"

record check_state =
  ck_count :: nat
  ck_ids :: "string list"
  ck_names :: "string list"

definition checkCategory :: "(string \<Rightarrow> string) \<Rightarrow> rule_entry \<Rightarrow> rule_category \<Rightarrow> check_state \<Rightarrow> (perr, check_state) res" where
  "checkCategory lower e c st =
     (if re_type e \<noteq> [] \<or> re_value e \<noteq> [] \<or> re_target e \<noteq> [] \<or> re_params e \<noteq> []
      then Inl (fail CodeInvalid ''a category cannot also be a rule'' [])
      else case validName ''category name'' (rc_name c) of
             Some err \<Rightarrow> Inl err
           | None \<Rightarrow>
               if rc_name c \<noteq> trim_space (rc_name c)
               then Inl (fail CodeInvalid ''category names cannot have surrounding space'' [])
               else if \<not> validID (rc_id c) then Inl (fail CodeInvalid ''invalid category id'' [])
               else if rc_id c \<in> set (ck_ids st) \<or> to_lower lower (rc_name c) \<in> set (ck_names st)
               then Inl (fail CodeInvalid ''category ids and names must be unique'' [])
               else (case first_error (\<lambda>r. if re_category r \<noteq> None then Some (fail CodeInvalid ''categories cannot be nested'' [])
                            else checkRule lower r) (rc_rules c) of
                       Some err \<Rightarrow> Inl err
                     | None \<Rightarrow> Inr (st\<lparr>ck_count := ck_count st + length (rc_rules c), ck_ids := rc_id c # ck_ids st,
                                       ck_names := to_lower lower (rc_name c) # ck_names st\<rparr>)))"

definition checkEntry :: "(string \<Rightarrow> string) \<Rightarrow> nat \<times> rule_entry \<Rightarrow> check_state \<Rightarrow> (perr, check_state) res" where
  "checkEntry lower ie st =
     (case re_category (snd ie) of
        Some c \<Rightarrow> checkCategory lower (snd ie) c st
      | None \<Rightarrow>
          (case checkRule lower (snd ie) of
             Some err \<Rightarrow> Inl (err\<lparr>pe_message := (''rule %d: %s'', [itoa_nat (fst ie + 1)]) # pe_message err\<rparr>)
           | None \<Rightarrow> Inr (st\<lparr>ck_count := Suc (ck_count st)\<rparr>)))"

definition checkRules :: "(string \<Rightarrow> string) \<Rightarrow> rule_entry list \<Rightarrow> perr option" where
  "checkRules lower entries =
     (case fold_res (checkEntry lower) (enumerate 0 entries) \<lparr>ck_count = 0, ck_ids = [], ck_names = []\<rparr> of
        Inl err \<Rightarrow> Some err
      | Inr st \<Rightarrow> if ck_count st > maxUserRules \<or> length entries > maxUserRules
                  then Some (fail CodeInvalid ''at most %d rules or categories'' [itoa_nat maxUserRules]) else None)"

end
