(* ===== verification/Run_Config.thy ===== *)
theory Run_Config
  imports Rule_Check
begin

text \<open>
  \<^verbatim>\<open>internal/daemon/settings.go\<close>: the configuration the daemon hands to the core, made from its
  settings and the active profile, and \<^verbatim>\<open>server.rules\<close> of \<^verbatim>\<open>internal/daemon/ops.go\<close>, which lists the
  same rules for the owner. \<open>rules_agree\<close> relates the two: the active listed rules are the rules
  that run, in the order they run.
\<close>

subsection \<open>Address space TUN routes around\<close>

definition tailnetRange :: netprefix where "tailnetRange = V4 (ipv4 100 64 0 0) 10"
definition tailscaleDNS :: netprefix where "tailscaleDNS = V4 (ipv4 100 100 100 100) 32"

definition tunBypass :: "netprefix list" where
  "tunBypass = [V4 (ipv4 0 0 0 0) 8, V4 (ipv4 10 0 0 0) 8, tailnetRange, V4 (ipv4 127 0 0 0) 8,
     V4 (ipv4 169 254 0 0) 16, V4 (ipv4 172 16 0 0) 12, V4 (ipv4 192 0 0 0) 24, V4 (ipv4 192 0 2 0) 24,
     V4 (ipv4 192 88 99 0) 24, V4 (ipv4 192 168 0 0) 16, V4 (ipv4 198 51 100 0) 24, V4 (ipv4 203 0 113 0) 24,
     V4 (ipv4 224 0 0 0) 4, V4 (ipv4 240 0 0 0) 5,
     V6 0 127, V6 (0xfc000000000000000000000000000000) 7, V6 (0xfe800000000000000000000000000000) 10,
     V6 (0xff000000000000000000000000000000) 9]"

definition bypass :: "settings \<Rightarrow> netprefix list" where
  "bypass s = (if \<not> s_tailnet_proxy s then tunBypass
     else filter (\<lambda>p. p \<noteq> tailnetRange) tunBypass @ [tailscaleDNS])"

subsection \<open>Rules\<close>

definition builtinTargets :: "string list" where
  "builtinTargets = [''DIRECT'', ''REJECT'', ''REJECT-DROP'']"

definition hasTarget :: "core_profile \<Rightarrow> string \<Rightarrow> bool" where
  "hasTarget p name \<longleftrightarrow> name \<in> set builtinTargets \<or> list_ex (\<lambda>g. g_name g = name) (p_groups p)
     \<or> list_ex (\<lambda>px. px_name px = name) (p_proxies p)"

definition ruleActive :: "core_profile \<Rightarrow> rule_entry \<Rightarrow> bool" where
  "ruleActive p r =
     (if re_type r = ''SUB-RULE'' then map_of (p_sub_rules p) (re_target r) \<noteq> None
      else if re_type r = ''RULE-SET'' \<and> \<not> list_ex (\<lambda>s. rs_name s = re_value r) (p_rule_sets p) then False
      else hasTarget p (re_target r))"

definition add_compiled :: "core_profile \<Rightarrow> rule_entry \<Rightarrow> string \<Rightarrow> bool \<Rightarrow> core_rule list \<times> rule_item list
    \<Rightarrow> core_rule list \<times> rule_item list" where
  "add_compiled p r category disabled st =
     (let off = disabled \<or> re_disabled r;
          inactive = off \<or> \<not> ruleActive p r;
          reason = (if disabled then ''Category disabled''
                    else if re_disabled r then ''Rule disabled''
                    else if inactive then ''Unavailable target or rule provider'' else []);
          item = \<lparr>ru_type = re_type r, ru_value = re_value r, ru_target = re_target r, ru_source = SourceUser,
                  ru_params = re_params r, ru_inactive = inactive, ru_index = length (snd st) + 1,
                  ru_category = category, ru_disabled = re_disabled r, ru_unreachable = False,
                  ru_inactive_reason = reason\<rparr>
      in (fst st @ (if inactive then [] else
            [\<lparr>r_type = re_type r, r_value = re_value r, r_target = re_target r, r_params = str_fields (re_params r),
              r_source = SourceUser\<rparr>]),
          snd st @ [item]))"

definition compile_entry :: "core_profile \<Rightarrow> rule_entry \<Rightarrow> core_rule list \<times> rule_item list
    \<Rightarrow> core_rule list \<times> rule_item list" where
  "compile_entry p e st =
     (case re_category e of
        None \<Rightarrow> add_compiled p e [] False st
      | Some c \<Rightarrow> fold (\<lambda>r. add_compiled p r (rc_id c) (re_disabled e)) (rc_rules c) st)"

definition compileRules :: "rule_entry list \<Rightarrow> core_profile \<Rightarrow> core_rule list \<times> rule_item list" where
  "compileRules entries p = fold (compile_entry p) entries ([], [])"

definition runConfig :: "state_settings \<Rightarrow> core_profile \<Rightarrow> core_config" where
  "runConfig ss p =
     (let s = st_settings ss;
          rs = fst (compileRules (st_rules ss) p) @ (if s_subscription_rules_disabled s then [] else p_rules p)
      in \<lparr>c_mode = s_mode s, c_tun = s_tun s, c_tun_redirect = s_tun_redirect s, c_tailscale = s_tailscale s,
          c_tailnet_proxy = s_tailnet_proxy s, c_omihomo_rules_disabled = s_omihomo_rules_disabled s,
          c_primary_group = s_primary_group s, c_dns_destination = s_dns_destination s,
          c_tun_bypass = bypass s, c_profile = p\<lparr>p_rules := rs\<rparr>\<rparr>)"

definition listed_rule :: "string \<Rightarrow> string \<Rightarrow> bool \<Rightarrow> core_rule \<Rightarrow> rule_item" where
  "listed_rule source category off r =
     \<lparr>ru_type = r_type r, ru_value = r_value r, ru_target = r_target r, ru_source = source,
      ru_params = join '' '' (r_params r), ru_inactive = off, ru_index = 0, ru_category = category,
      ru_disabled = off, ru_unreachable = False, ru_inactive_reason = []\<rparr>"

text \<open>The loop that marks what comes after an active \<open>MATCH\<close>.\<close>

fun mark_unreachable :: "bool \<Rightarrow> rule_item list \<Rightarrow> rule_item list" where
  "mark_unreachable caught [] = []"
| "mark_unreachable caught (r # rs) =
     (if ru_inactive r then r # mark_unreachable caught rs
      else r\<lparr>ru_unreachable := caught\<rparr> # mark_unreachable (caught \<or> ru_type r = ''MATCH'') rs)"

definition rule_listing :: "state_settings \<Rightarrow> core_profile \<Rightarrow> rule_list" where
  "rule_listing ss p =
     (let s = st_settings ss;
          out = snd (compileRules (st_rules ss) p)
            @ map (listed_rule SourceOmihomo ''omihomo'' (s_omihomo_rules_disabled s)) (IntegrationRules (runConfig ss p))
            @ map (listed_rule SourceSubscription ''subscription'' (s_subscription_rules_disabled s)) (p_rules p)
      in \<lparr>rl_rules = mark_unreachable False out, rl_entries = st_rules ss,
          rl_omihomo_disabled = s_omihomo_rules_disabled s,
          rl_subscription_disabled = s_subscription_rules_disabled s,
          rl_rule_sets = map rs_name (p_rule_sets p), rl_sub_rules = sorted_keys (p_sub_rules p)\<rparr>)"

end
