(* ===== verification/Fetch.thy ===== *)
theory Fetch
  imports Prelude
begin

text \<open>
  The pure parts of \<^verbatim>\<open>internal/fetch/fetch.go\<close>: which URLs the daemon downloads, which
  redirects it follows, how it reads a \<^verbatim>\<open>Retry-After\<close> header, and the bound on a body.
  \<open>url_parse\<close> stands for \<^verbatim>\<open>net/url\<close>'s parser and returns the scheme and the host name,
  \<open>parse_time\<close> for \<^verbatim>\<open>http.ParseTime\<close> in seconds.
\<close>

definition MaxBytes :: nat where "MaxBytes = 64 * 2 ^ 20"
definition maxURLBytes :: nat where "maxURLBytes = 8 * 2 ^ 10"
definition maxRedirects :: nat where "maxRedirects = 10"

text \<open>Durations are in seconds here.\<close>

definition maxRetryAfter :: int where "maxRetryAfter = 7 * 24 * 3600"

subsection \<open>UTF-8\<close>

definition is_cont :: "char \<Rightarrow> bool" where
  "is_cont c \<longleftrightarrow> CHR 0x80 \<le> c \<and> c \<le> CHR 0xBF"

text \<open>\<^verbatim>\<open>utf8.ValidString\<close>: no overlong form, no surrogate, nothing above U+10FFFF.\<close>

fun utf8_valid :: "string \<Rightarrow> bool" where
  "utf8_valid [] = True"
| "utf8_valid (a # s) =
     (if a < CHR 0x80 then utf8_valid s
      else if CHR 0xC2 \<le> a \<and> a \<le> CHR 0xDF then
        (case s of b # t \<Rightarrow> is_cont b \<and> utf8_valid t | _ \<Rightarrow> False)
      else if CHR 0xE0 \<le> a \<and> a \<le> CHR 0xEF then
        (case s of b # c # t \<Rightarrow>
            is_cont b \<and> is_cont c \<and> (a = CHR 0xE0 \<longrightarrow> CHR 0xA0 \<le> b) \<and> (a = CHR 0xED \<longrightarrow> b \<le> CHR 0x9F) \<and> utf8_valid t
         | _ \<Rightarrow> False)
      else if CHR 0xF0 \<le> a \<and> a \<le> CHR 0xF4 then
        (case s of b # c # d # t \<Rightarrow>
            is_cont b \<and> is_cont c \<and> is_cont d \<and> (a = CHR 0xF0 \<longrightarrow> CHR 0x90 \<le> b) \<and> (a = CHR 0xF4 \<longrightarrow> b \<le> CHR 0x8F)
            \<and> utf8_valid t
         | _ \<Rightarrow> False)
      else False)"

fun has_space :: "string \<Rightarrow> bool" where
  "has_space [] = False"
| "has_space (c # s) = (leading spaces (c # s) \<noteq> None \<or> has_space s)"

subsection \<open>Operations\<close>

datatype url_error = UrlEmpty | UrlTooLong | UrlNotUtf8 | UrlSpace | UrlInvalid | UrlInsecure | UrlNoHost

definition CheckURL :: "(string \<Rightarrow> (string \<times> string) option) \<Rightarrow> string \<Rightarrow> url_error option" where
  "CheckURL url_parse raw =
     (if raw = [] then Some UrlEmpty
      else if length raw > maxURLBytes then Some UrlTooLong
      else if \<not> utf8_valid raw then Some UrlNotUtf8
      else if has_space raw \<or> has_control raw then Some UrlSpace
      else case url_parse raw of
             None \<Rightarrow> Some UrlInvalid
           | Some (scheme, host) \<Rightarrow>
               if scheme \<noteq> ''https'' then Some UrlInsecure
               else if host = [] then Some UrlNoHost
               else None)"

datatype redirect_error = TooManyRedirects | RedirectInsecure

definition checkRedirect :: "string \<Rightarrow> string \<Rightarrow> nat \<Rightarrow> redirect_error option" where
  "checkRedirect scheme host via =
     (if via \<ge> maxRedirects then Some TooManyRedirects
      else if scheme \<noteq> ''https'' \<or> host = [] then Some RedirectInsecure
      else None)"

definition retryAfter :: "(string \<Rightarrow> int option) \<Rightarrow> string \<Rightarrow> int \<Rightarrow> int" where
  "retryAfter parse_time header now =
     (let v = trim_space header
      in if v = [] then 0
         else if list_all is_digit v then
           (case parse_uint 64 v of
              None \<Rightarrow> maxRetryAfter
            | Some n \<Rightarrow> if int n > maxRetryAfter then maxRetryAfter else int n)
         else (case parse_time v of
                 None \<Rightarrow> 0
               | Some t \<Rightarrow> min (max (t - now) 0) maxRetryAfter))"

text \<open>\<^verbatim>\<open>readBody\<close> after the content encoding is undone: \<open>declared\<close> is the length the response
  announces for an identity body (none for a compressed one), \<open>data\<close> what the body decodes to.
  The reader stops one byte past the limit.\<close>

definition read_limited :: "nat \<Rightarrow> nat option \<Rightarrow> string \<Rightarrow> string option" where
  "read_limited limit declared data =
     (if (case declared of Some n \<Rightarrow> n > limit | None \<Rightarrow> False) then None
      else let got = take (limit + 1) data
           in if length got > limit then None else Some got)"

subsection \<open>Facts\<close>

lemma CheckURL_ok:
  "CheckURL url_parse raw = None \<Longrightarrow>
     raw \<noteq> [] \<and> length raw \<le> 8192 \<and> \<not> has_control raw \<and> \<not> has_space raw
     \<and> (\<exists>host. url_parse raw = Some (''https'', host) \<and> host \<noteq> [])"
  by (auto simp: CheckURL_def maxURLBytes_def split: if_splits option.splits)

lemma retryAfter_bounds: "0 \<le> retryAfter parse_time v now \<and> retryAfter parse_time v now \<le> 604800"
  by (auto simp: retryAfter_def maxRetryAfter_def Let_def split: option.splits)

lemma read_limited_spec:
  "read_limited limit declared data = Some b \<longleftrightarrow>
     b = data \<and> length data \<le> limit \<and> (\<forall>n. declared = Some n \<longrightarrow> n \<le> limit)"
  by (auto simp: read_limited_def Let_def split: option.splits)

end
