(* ===== verification/Headers.thy ===== *)
theory Headers
  imports Fetch
begin

text \<open>
  \<^verbatim>\<open>internal/profile/headers.go\<close>: what a subscription's response headers say. \<open>cleanName\<close> and
  \<open>Name\<close> make a server's words into a name, \<open>ReadUsage\<close> reads the traffic counters and
  \<open>Interval\<close> the refresh interval. The comment of \<^verbatim>\<open>Name\<close> promises a name without control
  characters or path separators, without a leading dot, trimmed and of at most 64 runes; that is
  \<open>safe_name\<close>, and \<open>Name_safe\<close> shows it for every header.
\<close>

subsection \<open>Runes\<close>

text \<open>The length of the UTF-8 encoding a string starts with, and the runes Go reads from a
  string: one per encoding, and U+FFFD for every byte that starts none.\<close>

fun rune_len :: "string \<Rightarrow> nat option" where
  "rune_len [] = None"
| "rune_len (a # s) =
     (if a < CHR 0x80 then Some 1
      else if CHR 0xC2 \<le> a \<and> a \<le> CHR 0xDF then
        (case s of b # _ \<Rightarrow> if is_cont b then Some 2 else None | _ \<Rightarrow> None)
      else if CHR 0xE0 \<le> a \<and> a \<le> CHR 0xEF then
        (case s of b # c # _ \<Rightarrow>
            if is_cont b \<and> is_cont c \<and> (a = CHR 0xE0 \<longrightarrow> CHR 0xA0 \<le> b) \<and> (a = CHR 0xED \<longrightarrow> b \<le> CHR 0x9F)
            then Some 3 else None
         | _ \<Rightarrow> None)
      else if CHR 0xF0 \<le> a \<and> a \<le> CHR 0xF4 then
        (case s of b # c # d # _ \<Rightarrow>
            if is_cont b \<and> is_cont c \<and> is_cont d \<and> (a = CHR 0xF0 \<longrightarrow> CHR 0x90 \<le> b) \<and> (a = CHR 0xF4 \<longrightarrow> b \<le> CHR 0x8F)
            then Some 4 else None
         | _ \<Rightarrow> None)
      else None)"

definition replacement :: string where
  "replacement = [CHR 0xEF, CHR 0xBF, CHR 0xBD]"

lemma rune_len_bounds: "rune_len s = Some n \<Longrightarrow> 0 < n \<and> n \<le> length s"
  by (cases s) (auto split: if_splits list.splits)

declare rune_len.simps(2) [simp del]

function runes :: "string \<Rightarrow> string list" where
  "runes s =
     (case s of [] \<Rightarrow> []
      | c # s' \<Rightarrow> (case rune_len s of Some n \<Rightarrow> take n s # runes (drop n s) | None \<Rightarrow> replacement # runes s'))"
  by pat_completeness auto
termination
  by (relation "measure length") (auto dest: rune_len_bounds)

declare runes.simps [simp del]

text \<open>\<^verbatim>\<open>strings.ToValidUTF8\<close> with an empty replacement.\<close>

function ToValidUTF8 :: "string \<Rightarrow> string" where
  "ToValidUTF8 s =
     (case s of [] \<Rightarrow> []
      | c # s' \<Rightarrow> (case rune_len s of Some n \<Rightarrow> take n s @ ToValidUTF8 (drop n s) | None \<Rightarrow> ToValidUTF8 s'))"
  by pat_completeness auto
termination
  by (relation "measure length") (auto dest: rune_len_bounds)

declare ToValidUTF8.simps [simp del]

definition rune :: "string \<Rightarrow> bool" where
  "rune r \<longleftrightarrow> rune_len r = Some (length r)"

lemma rune_shapes:
  assumes "rune_len s = Some n"
  obtains (one) a t where "s = a # t" "n = 1" "a < CHR 0x80"
  | (two) a b t where "s = a # b # t" "n = 2" "CHR 0xC2 \<le> a" "a \<le> CHR 0xDF" "is_cont b"
  | (three) a b c t where "s = a # b # c # t" "n = 3" "CHR 0xE0 \<le> a" "a \<le> CHR 0xEF" "is_cont b" "is_cont c"
      "a = CHR 0xE0 \<longrightarrow> CHR 0xA0 \<le> b" "a = CHR 0xED \<longrightarrow> b \<le> CHR 0x9F"
  | (four) a b c d t where "s = a # b # c # d # t" "n = 4" "CHR 0xF0 \<le> a" "a \<le> CHR 0xF4" "is_cont b" "is_cont c" "is_cont d"
      "a = CHR 0xF0 \<longrightarrow> CHR 0x90 \<le> b" "a = CHR 0xF4 \<longrightarrow> b \<le> CHR 0x8F"
proof (cases s)
  case (Cons a s')
  then show ?thesis using assms that
    by (auto simp: rune_len.simps split: if_splits list.splits)
qed (use assms in simp)

lemma char_gap:
  "CHR 0xC2 \<le> a \<Longrightarrow> \<not> a < CHR 0x80" "CHR 0xE0 \<le> a \<Longrightarrow> \<not> a < CHR 0x80 \<and> \<not> a \<le> CHR 0xDF"
  "CHR 0xF0 \<le> a \<Longrightarrow> \<not> a < CHR 0x80 \<and> \<not> a \<le> CHR 0xDF \<and> \<not> a \<le> CHR 0xEF"
  by (auto simp: less_char_def less_eq_char_def)

lemma rune_len_append: "rune_len s = Some n \<Longrightarrow> rune_len (take n s @ w) = Some n"
  by (erule rune_shapes) (auto simp: char_gap rune_len.simps)

lemma rune_append: "rune r \<Longrightarrow> rune_len (r @ w) = Some (length r)"
  using rune_len_append[of r "length r" w] by (simp add: rune_def)

lemma rune_take: "rune_len s = Some n \<Longrightarrow> rune (take n s)"
  using rune_len_append[of s n "[]"] rune_len_bounds[of s n] by (simp add: rune_def)

lemma runes_rune: "r \<in> set (runes s) \<Longrightarrow> rune r"
proof (induction s rule: runes.induct)
  case (1 s)
  have "rune replacement" by code_simp
  moreover obtain c t where s: "s = c # t" using "1.prems" by (cases s) (simp_all add: runes.simps)
  ultimately show ?case
    using "1.IH" "1.prems" rune_take[of s] by (cases "rune_len s") (auto simp: s runes.simps[of "c # t"])
qed

text \<open>No encoding is the beginning of another one.\<close>

lemma rune_prefix_free: "rune r \<Longrightarrow> rune e \<Longrightarrow> r @ v = e @ w \<Longrightarrow> r = e"
  using rune_append[of r v] rune_append[of e w] by (metis append_eq_append_conv option.inject)

lemma spaces_runes: "list_all rune spaces" by code_simp

definition starts :: "string \<Rightarrow> nat" where
  "starts s = length (filter (\<lambda>c. \<not> is_cont c) s)"

lemma starts_append [simp]: "starts (s @ t) = starts s + starts t"
  by (simp add: starts_def)

lemma starts_Nil [simp]: "starts [] = 0"
  by (simp add: starts_def)

lemma rune_starts: "rune r \<Longrightarrow> starts r = 1"
proof -
  assume "rune r"
  then have "rune_len r = Some (length r)" by (simp add: rune_def)
  moreover have "a < CHR 0x80 \<or> CHR 0xC2 \<le> a \<Longrightarrow> \<not> is_cont a" for a
    by (auto simp: is_cont_def less_char_def less_eq_char_def)
  moreover have "CHR 0xE0 \<le> a \<Longrightarrow> CHR 0xC2 \<le> a" "CHR 0xF0 \<le> a \<Longrightarrow> CHR 0xC2 \<le> a" for a
    by (auto simp: less_eq_char_def)
  ultimately show ?thesis by (auto simp: starts_def elim!: rune_shapes)
qed

lemma starts_concat: "\<forall>r \<in> set rs. rune r \<Longrightarrow> starts (concat rs) = length rs"
  by (induction rs) (auto simp: rune_starts)

subsection \<open>Names\<close>

definition MaxTitle :: nat where "MaxTitle = 64"

text \<open>\<^verbatim>\<open>unicode.IsControl\<close> of one rune.\<close>

definition control_rune :: "string \<Rightarrow> bool" where
  "control_rune r \<longleftrightarrow> (case r of
     [c] \<Rightarrow> c < CHR 0x20 \<or> c = CHR 0x7F
   | [c, d] \<Rightarrow> c = CHR 0xC2 \<and> CHR 0x80 \<le> d \<and> d \<le> CHR 0x9F
   | _ \<Rightarrow> False)"

definition clean_rune :: "string \<Rightarrow> string option" where
  "clean_rune r =
     (if r = ''/'' \<or> r = [CHR 0x5C] then Some '' ''
      else if control_rune r \<or> r = replacement then None else Some r)"

definition cleanName :: "string \<Rightarrow> string" where
  "cleanName s =
     (let s1 = concat (List.map_filter clean_rune (runes s));
          s2 = join '' '' (str_fields s1);
          s3 = strip_left [''.'', '' ''] s2;
          r = runes s3;
          s4 = (if length r > MaxTitle then concat (take MaxTitle r) else s3)
      in trim_space s4)"

text \<open>The library calls of \<^verbatim>\<open>Name\<close>: the base64 decoder, \<^verbatim>\<open>mime.ParseMediaType\<close>'s \<^verbatim>\<open>filename\<close>
  (\<open>None\<close> when the header does not parse, the empty string without one), and the host name of
  \<^verbatim>\<open>url.Parse\<close>. A header that is not set reads as the empty string.\<close>

record header_lib =
  base64_std :: "string \<Rightarrow> string option"
  media_filename :: "string \<Rightarrow> string option"
  url_host :: "string \<Rightarrow> string option"
  lower_table :: "string \<Rightarrow> string"

type_synonym header = "string strmap"

definition header_get :: "header \<Rightarrow> string \<Rightarrow> string" where
  "header_get h k = (case map_of h k of Some v \<Rightarrow> v | None \<Rightarrow> [])"

definition Name :: "header_lib \<Rightarrow> header \<Rightarrow> string \<Rightarrow> string" where
  "Name L h rawURL =
     (let title = header_get h ''Profile-Title'';
          title = (if has_prefix title ''base64:''
                   then (case base64_std L (trim_space (drop 7 title)) of Some d \<Rightarrow> d | None \<Rightarrow> [])
                   else title);
          name = cleanName title;
          name = (if name = [] then
                    (case media_filename L (header_get h ''Content-Disposition'') of
                       Some f \<Rightarrow> cleanName f | None \<Rightarrow> name)
                  else name);
          name = (if name = [] then (case url_host L rawURL of Some host \<Rightarrow> cleanName host | None \<Rightarrow> name) else name)
      in if name = [] then ''subscription'' else name)"

record usage =
  u_upload :: "int option"
  u_download :: "int option"
  u_total :: "int option"
  u_expire :: "int option"

definition read_field :: "header_lib \<Rightarrow> string \<Rightarrow> usage \<Rightarrow> usage" where
  "read_field L field u =
     (let (key, v, ok) = cut_at (CHR ''='') (trim_space field)
      in if \<not> ok then u
         else case parse_int (trim_space v) of
                None \<Rightarrow> u
              | Some n \<Rightarrow>
                  if n < 0 then u
                  else let k = to_lower (lower_table L) (trim_space key)
                       in if k = ''upload'' then u\<lparr>u_upload := Some n\<rparr>
                          else if k = ''download'' then u\<lparr>u_download := Some n\<rparr>
                          else if k = ''total'' then u\<lparr>u_total := Some n\<rparr>
                          else if k = ''expire'' then u\<lparr>u_expire := Some n\<rparr>
                          else u)"

definition ReadUsage :: "header_lib \<Rightarrow> header \<Rightarrow> usage" where
  "ReadUsage L h =
     fold (read_field L) (split_on (CHR '';'') (header_get h ''Subscription-Userinfo''))
       \<lparr>u_upload = None, u_download = None, u_total = None, u_expire = None\<rparr>"

text \<open>Durations are nanoseconds, as Go's \<^verbatim>\<open>time.Duration\<close> counts them.\<close>

definition Hour :: int where "Hour = 3600 * 10 ^ 9"
definition DefaultInterval :: int where "DefaultInterval = 12 * Hour"
definition maxInterval :: int where "maxInterval = 365 * 24 * Hour"

definition Interval :: "header \<Rightarrow> int" where
  "Interval h =
     (case parse_int (trim_space (header_get h ''Profile-Update-Interval'')) of
        None \<Rightarrow> DefaultInterval
      | Some n \<Rightarrow> if n \<le> 0 then DefaultInterval
                  else if n > maxInterval div Hour then maxInterval
                  else n * Hour)"

lemma Interval_bounds: "Hour \<le> Interval h \<and> Interval h \<le> maxInterval"
  by (auto simp: Interval_def Hour_def DefaultInterval_def maxInterval_def split: option.split)

definition usage_ok :: "usage \<Rightarrow> bool" where
  "usage_ok u \<longleftrightarrow> list_all (\<lambda>v. case v of Some n \<Rightarrow> 0 \<le> n \<and> n < 2 ^ 63 | None \<Rightarrow> True)
     [u_upload u, u_download u, u_total u, u_expire u]"

lemma parse_int_range: "parse_int s = Some n \<Longrightarrow> - (2 ^ 63) \<le> n \<and> n < 2 ^ 63"
  unfolding parse_int_def Let_def by (auto split: prod.splits if_splits option.splits)

lemma read_field_ok: "usage_ok u \<Longrightarrow> usage_ok (read_field L field u)"
proof (cases "parse_int (trim_space (fst (snd (cut_at (CHR ''='') (trim_space field)))))")
  case (Some n)
  then show "usage_ok u \<Longrightarrow> ?thesis"
    using parse_int_range[OF Some] by (auto simp: read_field_def Let_def usage_ok_def split: prod.split)
qed (auto simp: read_field_def split: prod.split)

lemma ReadUsage_ok: "usage_ok (ReadUsage L h)"
  unfolding ReadUsage_def by (rule fold_invariant) (simp_all add: usage_ok_def[of "\<lparr>u_upload = None, u_download = None, u_total = None, u_expire = None\<rparr>"] read_field_ok)

subsection \<open>What a cleaned name looks like\<close>

text \<open>No separators and no control characters, wherever the pieces come from.\<close>

lemma has_control_append: "rune r \<Longrightarrow> has_control (r @ s) \<longleftrightarrow> control_rune r \<or> has_control s"
proof -
  assume "rune r"
  then have r: "rune_len r = Some (length r)" by (simp add: rune_def)
  have cont: "is_cont c \<Longrightarrow> \<not> c < CHR 0x20 \<and> c \<noteq> CHR 0x7F \<and> c \<noteq> CHR 0xC2" for c
    by (auto simp: is_cont_def less_char_def less_eq_char_def)
  have high: "CHR 0xC2 \<le> c \<Longrightarrow> \<not> c < CHR 0x20 \<and> c \<noteq> CHR 0x7F"
    "CHR 0xE0 \<le> c \<Longrightarrow> \<not> c < CHR 0x20 \<and> c \<noteq> CHR 0x7F \<and> c \<noteq> CHR 0xC2"
    "CHR 0xF0 \<le> c \<Longrightarrow> \<not> c < CHR 0x20 \<and> c \<noteq> CHR 0x7F \<and> c \<noteq> CHR 0xC2" for c
    by (auto simp: less_char_def less_eq_char_def)
  from r show ?thesis
    by (rule rune_shapes) (auto simp: control_rune_def dest: cont high)
qed

lemma has_control_concat:
  "\<forall>r \<in> set rs. rune r \<Longrightarrow> has_control (concat rs) \<longleftrightarrow> (\<exists>r \<in> set rs. control_rune r)"
  by (induction rs) (auto simp: has_control_append)

lemma has_control_infix: "has_control t \<Longrightarrow> has_control (s @ t @ u)"
proof -
  have "has_control t \<Longrightarrow> has_control (t @ u)"
  proof (induction t)
    case (Cons c t)
    then show ?case by (cases t) auto
  qed simp
  moreover have "has_control v \<Longrightarrow> has_control (s @ v)" for v by (induction s) auto
  ultimately show "has_control t \<Longrightarrow> has_control (s @ t @ u)" by blast
qed

lemma has_control_space: "has_control (s @ CHR '' '' # t) \<longleftrightarrow> has_control s \<or> has_control t"
proof (induction s)
  case (Cons c s)
  then show ?case by (cases s) (auto simp: less_eq_char_def)
qed (simp add: less_char_def)

text \<open>The fields of a string are infixes of it that hold no white space.\<close>

definition tails_free :: "string \<Rightarrow> string \<Rightarrow> bool" where
  "tails_free acc s \<longleftrightarrow> (\<forall>v w. acc = v @ w \<longrightarrow> w \<noteq> [] \<longrightarrow> leading spaces (w @ s) = None)"

lemma tails_free_snoc:
  assumes "tails_free acc (c # s)" "leading spaces (c # s) = None"
  shows "tails_free (acc @ [c]) s"
  unfolding tails_free_def
proof (intro allI impI)
  fix v w assume "acc @ [c] = v @ w" "w \<noteq> []"
  then obtain w' where w: "w = w' @ [c]" "acc = v @ w'" by (cases w rule: rev_cases) auto
  then show "leading spaces (w @ s) = None"
    using assms by (cases "w' = []") (auto simp: tails_free_def)
qed

lemma tails_free_end: "tails_free acc s \<Longrightarrow> tails_free acc []"
  unfolding tails_free_def using leading_mono by (metis append_Nil2)

lemma fields_from_free:
  "tails_free acc s \<Longrightarrow> f \<in> set (fields_from acc s) \<Longrightarrow> tails_free f [] \<and> f \<noteq> []"
proof (induction acc s rule: fields_from.induct)
  case (1 acc s)
  show ?case
  proof (cases s)
    case Nil
    then show ?thesis using "1.prems" by (auto simp: fields_from.simps[of acc "[]"] split: if_splits)
  next
    case (Cons c t)
    show ?thesis
    proof (cases "leading spaces s")
      case None
      then show ?thesis using 1 Cons tails_free_snoc by (auto simp: fields_from.simps[of acc "c # t"])
    next
      case (Some e)
      have "tails_free [] x" for x by (simp add: tails_free_def)
      then show ?thesis using 1 Cons Some tails_free_end[of acc s]
        by (auto simp: fields_from.simps[of acc "c # t"] split: if_splits)
    qed
  qed
qed

lemma fields_from_infix:
  "f \<in> set (fields_from acc s) \<Longrightarrow> \<exists>u v. acc @ s = u @ f @ v"
proof (induction acc s rule: fields_from.induct)
  case (1 acc s)
  show ?case
  proof (cases s)
    case Nil
    then have "acc @ s = [] @ f @ []" using "1.prems" by (auto simp: fields_from.simps[of acc "[]"] split: if_splits)
    then show ?thesis by blast
  next
    case (Cons c t)
    show ?thesis
    proof (cases "leading spaces s")
      case None
      then show ?thesis using 1 Cons by (auto simp: fields_from.simps[of acc "c # t"])
    next
      case (Some e)
      then have s: "s = e @ drop (length e) s" using leading_SomeD by blast
      consider "f = acc" | "f \<in> set (fields_from [] (drop (length e) s))"
        using 1 Cons Some by (auto simp: fields_from.simps[of acc "c # t"] split: if_splits)
      then show ?thesis
      proof cases
        case 2
        then obtain u v where "drop (length e) s = u @ f @ v" using "1.IH"(2)[OF Cons Some] Cons by auto
        then have "acc @ s = (acc @ e @ u) @ f @ v" using s by (metis append_assoc)
        then show ?thesis by blast
      qed (metis append_Nil)
    qed
  qed
qed

lemma str_fields_facts:
  assumes "f \<in> set (str_fields s)"
  shows "tails_free f []" "f \<noteq> []" "\<exists>u v. s = u @ f @ v"
proof -
  have "tails_free [] s" by (simp add: tails_free_def)
  then show "tails_free f []" "f \<noteq> []" using fields_from_free assms by (auto simp: str_fields_def)
  show "\<exists>u v. s = u @ f @ v" using fields_from_infix[of f "[]" s] assms by (simp add: str_fields_def)
qed

text \<open>Joined by single spaces, such fields have no white space but those spaces.\<close>

lemma long_spaces: "e \<in> set spaces \<Longrightarrow> e = '' '' \<or> CHR '' '' \<notin> set e"
proof -
  have "list_all (\<lambda>e. e = '' '' \<or> CHR '' '' \<notin> set e) spaces" by code_simp
  then show "e \<in> set spaces \<Longrightarrow> ?thesis" by (simp add: list_all_iff)
qed

lemma leading_before_space:
  assumes "w \<noteq> []" "leading spaces w = None"
  shows "leading spaces (w @ CHR '' '' # x) = None"
proof (rule ccontr)
  assume "leading spaces (w @ CHR '' '' # x) \<noteq> None"
  then obtain e y where e: "e \<in> set spaces" "e \<noteq> []" and y: "w @ CHR '' '' # x = e @ y"
    using leading_SomeD by blast
  show False
  proof (cases "length e \<le> length w")
    case True
    then have "has_prefix w e" using y by (metis append_eq_append_conv_if has_prefix_append append_take_drop_id)
    then show False using assms(2) e by (auto simp: leading_def find_None_iff)
  next
    case False
    then have "CHR '' '' \<in> set e" using y by (auto simp: append_eq_append_conv2 Cons_eq_append_conv)
    moreover have "hd e = hd w" using y assms(1) e(2) by (metis hd_append2)
    ultimately have "e = '' ''" using long_spaces[OF e(1)] by blast
    then show False using False assms(1) by (cases w) auto
  qed
qed

definition plain :: "string \<Rightarrow> bool" where
  "plain s \<longleftrightarrow> (\<forall>u v. s = u @ v \<longrightarrow> leading spaces v \<noteq> None \<longrightarrow> hd v = CHR '' '')"

lemma plain_suffix: "plain (u @ v) \<Longrightarrow> plain v"
  unfolding plain_def by (metis append_assoc)

lemma plain_field: "tails_free f [] \<Longrightarrow> plain f"
  unfolding plain_def tails_free_def by (metis append_Nil2 leading_SomeD not_None_eq append_is_Nil_conv)

lemma plain_join:
  assumes "tails_free f []" "plain s"
  shows "plain (f @ CHR '' '' # s)"
  unfolding plain_def
proof (intro allI impI)
  fix u v assume eq: "f @ CHR '' '' # s = u @ v" and l: "leading spaces v \<noteq> None"
  from eq consider (inside) w where "f = u @ w" "w \<noteq> []" "v = w @ CHR '' '' # s"
    | (at) "v = CHR '' '' # s" | (after) u' where "s = u' @ v"
    by (auto simp: append_eq_append_conv2 Cons_eq_append_conv)
  then show "hd v = CHR '' ''"
  proof cases
    case inside
    then have "leading spaces w = None" using assms(1) unfolding tails_free_def by (metis append_Nil2)
    then show ?thesis using leading_before_space inside l by simp
  next
    case after
    then show ?thesis using assms(2) l by (simp add: plain_def)
  qed simp
qed

lemma plain_join_fields: "\<forall>f \<in> set fs. tails_free f [] \<Longrightarrow> plain (join '' '' fs)"
proof (induction fs rule: induct_list012)
  case 1
  have "leading spaces [] = None" by code_simp
  then show ?case by (simp add: plain_def)
qed (auto intro: plain_field plain_join)

text \<open>The steps of \<^const>\<open>cleanName\<close> on the runes it kept.\<close>

definition no_sep :: "string \<Rightarrow> bool" where
  "no_sep s \<longleftrightarrow> CHR ''/'' \<notin> set s \<and> CHR 0x5C \<notin> set s"

lemma clean_runes:
  assumes "r \<in> set (List.map_filter clean_rune (runes s))"
  shows "rune r" "\<not> control_rune r" "no_sep r"
proof -
  obtain r0 where r0: "r0 \<in> set (runes s)" "clean_rune r0 = Some r"
    using assms by (auto simp: List.map_filter_def)
  have "rune '' ''" "\<not> control_rune '' ''" "no_sep '' ''" by code_simp+
  moreover have "no_sep r0" if "rune r0" "r0 \<noteq> ''/''" "r0 \<noteq> [CHR 0x5C]"
  proof -
    have big: "CHR 0x80 \<le> c \<Longrightarrow> c \<noteq> CHR ''/'' \<and> c \<noteq> CHR 0x5C" for c by (auto simp: less_eq_char_def)
    have "CHR 0xC2 \<le> c \<or> CHR 0xE0 \<le> c \<or> CHR 0xF0 \<le> c \<Longrightarrow> CHR 0x80 \<le> c" for c by (auto simp: less_eq_char_def)
    with big that show ?thesis unfolding rune_def no_sep_def
      by (elim rune_shapes) (auto simp: is_cont_def)
  qed
  ultimately show "rune r" "\<not> control_rune r" "no_sep r"
    using r0 runes_rune[OF r0(1)] by (auto simp: clean_rune_def split: if_splits)
qed

lemma join_set: "set (join '' '' fs) \<subseteq> insert (CHR '' '') (\<Union> (set ` set fs))"
  by (induction fs rule: induct_list012) auto

lemma join_no_control: "\<forall>f \<in> set fs. \<not> has_control f \<Longrightarrow> \<not> has_control (join '' '' fs)"
  by (induction fs rule: induct_list012) (auto simp: has_control_space)

lemma runes_concat_sub: "set (concat (take n (runes s))) \<subseteq> set s \<union> set replacement"
proof (induction s arbitrary: n rule: runes.induct)
  case (1 s)
  show ?case
  proof (cases s)
    case (Cons c t)
    show ?thesis
    proof (cases "rune_len s")
      case None
      then show ?thesis using "1.IH"(1)[OF Cons None, of "n - 1"] Cons
        by (cases n) (auto simp: runes.simps[of "c # t"])
    next
      case (Some m)
      then show ?thesis using "1.IH"(2)[OF Cons Some, of "n - 1"] Cons set_take_subset[of m s] set_drop_subset[of m s]
        by (cases n) (auto simp: runes.simps[of "c # t"])
    qed
  qed (simp add: runes.simps)
qed

lemma runes_hd:
  assumes "runes s = r # rs"
  shows "r = replacement \<or> has_prefix s r"
proof -
  obtain c t where s: "s = c # t" using assms by (cases s) (simp_all add: runes.simps)
  have "has_prefix s (take n s)" for n unfolding has_prefix_append by (metis append_take_drop_id)
  then show ?thesis using assms by (cases "rune_len s") (auto simp: s runes.simps[of "c # t"])
qed

lemma runes_control: "r \<in> set (runes s) \<Longrightarrow> control_rune r \<Longrightarrow> has_control s"
proof (induction s rule: runes.induct)
  case (1 s)
  obtain c t where s: "s = c # t" using "1.prems" by (cases s) (simp_all add: runes.simps)
  have rep: "\<not> control_rune replacement" by code_simp
  show ?case
  proof (cases "rune_len s")
    case None
    then have "r \<in> set (runes t)" using "1.prems" rep by (auto simp: s runes.simps[of "c # t"])
    then show ?thesis using "1.IH"(1)[OF s None] "1.prems"(2) by (simp add: s)
  next
    case (Some n)
    then have "r = take n s \<or> r \<in> set (runes (drop n s))"
      using "1.prems" by (auto simp: s runes.simps[of "c # t"])
    then have "control_rune (take n s) \<or> has_control (drop n s)"
      using "1.IH"(2)[OF s Some] "1.prems"(2) by blast
    then show ?thesis using has_control_append[OF rune_take[OF Some], of "drop n s"] by simp
  qed
qed

lemma starts_runes: "starts s \<le> length (runes s)"
proof (induction s rule: runes.induct)
  case (1 s)
  show ?case
  proof (cases s)
    case s: (Cons c t)
    show ?thesis
    proof (cases "rune_len s")
      case None
      then show ?thesis using "1.IH"(1)[OF s None] by (simp add: s runes.simps[of "c # t"] starts_def)
    next
      case (Some n)
      have "starts s = starts (take n s) + starts (drop n s)" by (metis append_take_drop_id starts_append)
      then show ?thesis using "1.IH"(2)[OF s Some] rune_starts[OF rune_take[OF Some]] Some
        by (simp add: s runes.simps[of "c # t"])
    qed
  qed simp
qed

text \<open>What the comment of \<^verbatim>\<open>Name\<close> promises of a name.\<close>

definition safe_name :: "string \<Rightarrow> bool" where
  "safe_name n \<longleftrightarrow> no_sep n \<and> \<not> has_control n \<and> trim_space n = n \<and> starts n \<le> MaxTitle
     \<and> (n \<noteq> [] \<longrightarrow> hd n \<noteq> CHR ''.'')"

lemma no_sep_sub: "set s \<subseteq> set t \<Longrightarrow> no_sep t \<Longrightarrow> no_sep s"
  by (auto simp: no_sep_def)

lemma trim_space_prefix: "leading spaces s = None \<Longrightarrow> \<exists>p. s = trim_space s @ p"
proof -
  assume "leading spaces s = None"
  then have "trim_space s = rev (strip_left (map rev spaces) (rev s))"
    by (simp add: trim_space_def trim_left_def trim_right_def strip_left_id)
  moreover obtain p where "rev s = p @ strip_left (map rev spaces) (rev s)" using strip_left_suffix by blast
  ultimately have "s = trim_space s @ rev p" by (metis rev_append rev_rev_ident)
  then show ?thesis by blast
qed

lemma safe_trim:
  assumes "no_sep s" "\<not> has_control s" "starts s \<le> MaxTitle" "s \<noteq> [] \<longrightarrow> hd s \<noteq> CHR ''.''" "leading spaces s = None"
  shows "safe_name (trim_space s)"
proof -
  obtain p where p: "s = trim_space s @ p" using trim_space_prefix[OF assms(5)] by blast
  then have "starts (trim_space s) \<le> starts s" by (metis le_add1 starts_append)
  moreover have "\<not> has_control (trim_space s)"
    using has_control_infix[of "trim_space s" "[]" p] p assms(2) by auto
  moreover have "trim_space s \<noteq> [] \<Longrightarrow> hd (trim_space s) = hd s" using p by (metis hd_append2)
  ultimately show ?thesis
    using assms no_sep_sub[OF trim_space_set] p unfolding safe_name_def by (metis Nil_is_append_conv order_trans trim_space_idem)
qed

lemma cut_runes_ok:
  fixes n :: nat
  assumes "no_sep s" "\<not> has_control s" "leading spaces s = None" "s \<noteq> [] \<longrightarrow> hd s \<noteq> CHR ''.''"
  defines "u \<equiv> concat (take n (runes s))"
  shows "no_sep u" "\<not> has_control u" "starts u \<le> n" "u \<noteq> [] \<longrightarrow> hd u \<noteq> CHR ''.''" "leading spaces u = None"
proof -
  have rs: "\<forall>r \<in> set (take n (runes s)). rune r" using runes_rune in_set_takeD by fast
  have "no_sep replacement" by code_simp
  then show "no_sep u" using runes_concat_sub[of n s] assms(1) unfolding u_def no_sep_def by blast
  show "\<not> has_control u" unfolding u_def has_control_concat[OF rs]
    using runes_control assms(2) in_set_takeD by metis
  show "starts u \<le> n" unfolding u_def starts_concat[OF rs] by simp
  have first: "\<exists>r v. u = r @ v \<and> rune r \<and> (r = replacement \<or> has_prefix s r)" if "u \<noteq> []"
  proof (cases "runes s")
    case Nil
    then show ?thesis using that by (simp add: u_def)
  next
    case (Cons r rest)
    moreover have "n \<noteq> 0" using that by (cases n) (simp_all add: u_def)
    ultimately show ?thesis using runes_hd[OF Cons] runes_rune[of r s]
      by (intro exI[of _ r] exI[of _ "concat (take (n - 1) rest)"]) (simp add: u_def take_Cons')
  qed
  have ne: "rune r \<Longrightarrow> r \<noteq> []" for r by (auto simp: rune_def)
  show "u \<noteq> [] \<longrightarrow> hd u \<noteq> CHR ''.''"
  proof
    assume "u \<noteq> []"
    then obtain r v where r: "u = r @ v" "rune r" "r = replacement \<or> has_prefix s r" using first by blast
    then show "hd u \<noteq> CHR ''.''"
      using ne[OF r(2)] assms(4) by (auto simp: has_prefix_append replacement_def)
  qed
  show "leading spaces u = None"
  proof (rule ccontr)
    assume "leading spaces u \<noteq> None"
    then obtain e w where e: "e \<in> set spaces" "e \<noteq> []" "u = e @ w" using leading_SomeD by blast
    then obtain r v where r: "u = r @ v" "rune r" "r = replacement \<or> has_prefix s r" using first by auto
    have "rune e" using e(1) spaces_runes by (simp add: list_all_iff)
    then have "r = e" using rune_prefix_free r e(3) by metis
    moreover have "replacement \<notin> set spaces" by code_simp
    ultimately have "has_prefix s e" using r(3) e(1) by auto
    then show False using assms(3) e by (auto simp: leading_def find_None_iff)
  qed
qed

lemma cleanName_safe: "safe_name (cleanName s)"
proof -
  define s1 where "s1 = concat (List.map_filter clean_rune (runes s))"
  define s3 where "s3 = strip_left [''.'', '' ''] (join '' '' (str_fields s1))"
  note cr = clean_runes[of _ s]
  have rs: "\<forall>r \<in> set (List.map_filter clean_rune (runes s)). rune r" using cr(1) by blast
  have "\<not> has_control s1" unfolding s1_def has_control_concat[OF rs] using cr(2) by blast
  moreover have "no_sep s1" unfolding s1_def no_sep_def using cr(3) by (auto simp: no_sep_def)
  moreover have "\<forall>f \<in> set (str_fields s1). \<exists>u v. s1 = u @ f @ v" using str_fields_facts(3) by blast
  ultimately have f: "\<forall>f \<in> set (str_fields s1). \<not> has_control f \<and> no_sep f"
    by (metis has_control_infix no_sep_sub set_append Un_upper1 Un_upper2 subset_trans)
  obtain p where p: "join '' '' (str_fields s1) = p @ s3" unfolding s3_def using strip_left_suffix by blast
  have "no_sep (join '' '' (str_fields s1))" using f join_set[of "str_fields s1"] unfolding no_sep_def by fastforce
  then have a: "no_sep s3" using p by (auto simp: no_sep_def)
  have b: "\<not> has_control s3" using join_no_control[of "str_fields s1"] f p has_control_infix[of s3 p "[]"] by auto
  have "plain s3" using plain_join_fields[of "str_fields s1"] str_fields_facts(1) p plain_suffix by metis
  have h: "leading [''.'', '' ''] s3 = None" unfolding s3_def by (rule strip_left_idem)
  then have c: "s3 \<noteq> [] \<longrightarrow> hd s3 \<noteq> CHR ''.'' \<and> hd s3 \<noteq> CHR '' ''"
    by (cases s3) (auto simp: leading_def has_prefix_def split: if_splits)
  have d: "leading spaces s3 = None"
    using \<open>plain s3\<close> c unfolding plain_def by (metis append_Nil leading_SomeD not_None_eq append_is_Nil_conv)
  have "cleanName s = trim_space (if length (runes s3) > MaxTitle then concat (take MaxTitle (runes s3)) else s3)"
    by (simp add: cleanName_def Let_def s1_def s3_def)
  moreover have "safe_name (trim_space (concat (take MaxTitle (runes s3))))"
    using cut_runes_ok[OF a b d, of MaxTitle] c by (intro safe_trim) auto
  moreover have "safe_name (trim_space s3)" if "length (runes s3) \<le> MaxTitle"
    using that starts_runes[of s3] a b c d by (intro safe_trim) auto
  ultimately show ?thesis by (auto simp: not_less)
qed

lemma Name_safe: "safe_name (Name L h rawURL) \<and> Name L h rawURL \<noteq> []"
proof -
  have "safe_name ''subscription''"
    unfolding safe_name_def by code_simp
  then show ?thesis using cleanName_safe by (auto simp: Name_def Let_def split: option.split)
qed

text \<open>A rune takes at most four bytes.\<close>

lemma rune_length: "rune r \<Longrightarrow> length r \<le> 4"
  unfolding rune_def by (erule rune_shapes) simp_all

lemma cut_length: "length (concat (take n (runes s))) \<le> 4 * n"
proof -
  have all: "\<forall>r \<in> set rs. rune r \<Longrightarrow> length (concat rs) \<le> 4 * length rs" for rs
    by (induction rs) (auto dest!: rune_length)
  have "\<forall>r \<in> set (take n (runes s)). rune r" using runes_rune in_set_takeD by fast
  then have "length (concat (take n (runes s))) \<le> 4 * length (take n (runes s))" by (rule all)
  also have "\<dots> \<le> 4 * n" by simp
  finally show ?thesis .
qed

lemma length_runes: "length s \<le> 4 * length (runes s)"
proof (induction s rule: runes.induct)
  case (1 s)
  show ?case
  proof (cases s)
    case s: (Cons c t)
    show ?thesis
    proof (cases "rune_len s")
      case None
      then show ?thesis using "1.IH"(1)[OF s None] by (simp add: s runes.simps[of "c # t"])
    next
      case (Some n)
      have "length (take n s) \<le> 4" by (rule rune_length[OF rune_take[OF Some]])
      then have "length s \<le> 4 + length (drop n s)" by simp
      then show ?thesis using "1.IH"(2)[OF s Some] Some by (simp add: s runes.simps[of "c # t"])
    qed
  qed simp
qed

lemma cleanName_length: "length (cleanName s) \<le> 4 * MaxTitle"
proof -
  have "length (trim_space (if length (runes x) > MaxTitle then concat (take MaxTitle (runes x)) else x)) \<le> 4 * MaxTitle" for x
    using cut_length[of MaxTitle x] length_runes[of x] trim_space_length[of x]
      trim_space_length[of "concat (take MaxTitle (runes x))"] by auto
  then show ?thesis by (simp add: cleanName_def Let_def)
qed

lemma Name_length: "length (Name L h rawURL) \<le> 4 * MaxTitle"
proof -
  have "length ''subscription'' \<le> 4 * MaxTitle" by (simp add: MaxTitle_def)
  then show ?thesis using cleanName_length by (simp add: Name_def Let_def split: option.split)
qed

end
