(* ===== verification/Proxy_Schema.thy ===== *)
theory Proxy_Schema
  imports Core_Types
begin

text \<open>
  The typed structs of \<^verbatim>\<open>internal/profile/proxy.go\<close> as data. The source reads a proxy by
  reflection over a struct whose tags name the modelled fields; here a struct is the list
  of its fields in declaration order, each with its YAML key, its \<^verbatim>\<open>inline\<close> tag and its
  kind, and an embedded struct is appended in place. A pointer field and the value it
  points to have the same kind: an absent field is simply not in the value read.
\<close>

datatype inline_tag = NoTag | InlinePEM | InlineSSH

datatype kind =
    KString
  | KInt
  | KUint8
  | KBool
  | KStruct "(string \<times> inline_tag \<times> kind) list"
  | KSlice kind
  | KMap kind

type_synonym field = "string \<times> inline_tag \<times> kind"

text \<open>What a field of a kind holds once it is read. A struct value lists the fields that are
  present, so a nil pointer, slice or map is a missing entry.\<close>

datatype val =
    VString string
  | VInt int
  | VByte nat
  | VBool bool
  | VStruct "(string \<times> val) list"
  | VSlice "val list"
  | VMap "(string \<times> val) list"

type_synonym fields_val = "(string \<times> val) list"

definition v_str :: "fields_val \<Rightarrow> string \<Rightarrow> string option" where
  "v_str m k = (case map_of m k of Some (VString s) \<Rightarrow> Some s | _ \<Rightarrow> None)"

definition v_int :: "fields_val \<Rightarrow> string \<Rightarrow> int option" where
  "v_int m k = (case map_of m k of Some (VInt n) \<Rightarrow> Some n | _ \<Rightarrow> None)"

definition v_struct :: "fields_val \<Rightarrow> string \<Rightarrow> fields_val option" where
  "v_struct m k = (case map_of m k of Some (VStruct s) \<Rightarrow> Some s | _ \<Rightarrow> None)"

subsection \<open>The structs\<close>

definition dialOpts :: "field list" where
  "dialOpts =
     [(''ip-version'', NoTag, KString),
      (''tfo'', NoTag, KBool),
      (''mptcp'', NoTag, KBool)]"

definition brutalOpts :: "field list" where
  "brutalOpts =
     [(''enabled'', NoTag, KBool),
      (''up'', NoTag, KString),
      (''down'', NoTag, KString)]"

definition smuxOpts :: "field list" where
  "smuxOpts =
     [(''enabled'', NoTag, KBool),
      (''protocol'', NoTag, KString),
      (''max-connections'', NoTag, KInt),
      (''min-streams'', NoTag, KInt),
      (''max-streams'', NoTag, KInt),
      (''padding'', NoTag, KBool),
      (''statistic'', NoTag, KBool),
      (''only-tcp'', NoTag, KBool),
      (''brutal-opts'', NoTag, KStruct brutalOpts)]"

definition serverOpts :: "field list" where
  "serverOpts =
     dialOpts
     @ [(''server'', NoTag, KString),
      (''port'', NoTag, KInt),
      (''smux'', NoTag, KStruct smuxOpts)]"

definition certOpts :: "field list" where
  "certOpts =
     [(''skip-cert-verify'', NoTag, KBool),
      (''name-cert-verify'', NoTag, KString),
      (''fingerprint'', NoTag, KString),
      (''certificate'', InlinePEM, KString),
      (''private-key'', InlinePEM, KString)]"

definition echOpts :: "field list" where
  "echOpts =
     [(''enable'', NoTag, KBool),
      (''config'', NoTag, KString),
      (''query-server-name'', NoTag, KString)]"

definition helloOpts :: "field list" where
  "helloOpts =
     [(''alpn'', NoTag, KSlice KString),
      (''ech-opts'', NoTag, KStruct echOpts)]"

definition realityOpts :: "field list" where
  "realityOpts =
     [(''public-key'', NoTag, KString),
      (''short-id'', NoTag, KString),
      (''support-x25519mlkem768'', NoTag, KBool)]"

definition utlsOpts :: "field list" where
  "utlsOpts =
     [(''client-fingerprint'', NoTag, KString),
      (''reality-opts'', NoTag, KStruct realityOpts)]"

definition wsOpts :: "field list" where
  "wsOpts =
     [(''path'', NoTag, KString),
      (''headers'', NoTag, KMap KString),
      (''max-early-data'', NoTag, KInt),
      (''early-data-header-name'', NoTag, KString),
      (''v2ray-http-upgrade'', NoTag, KBool),
      (''v2ray-http-upgrade-fast-open'', NoTag, KBool)]"

definition grpcOpts :: "field list" where
  "grpcOpts =
     [(''grpc-service-name'', NoTag, KString),
      (''grpc-user-agent'', NoTag, KString)]"

definition streamTransport :: "field list" where
  "streamTransport =
     [(''network'', NoTag, KString),
      (''ws-opts'', NoTag, KStruct wsOpts),
      (''grpc-opts'', NoTag, KStruct grpcOpts)]"

definition httpOpts :: "field list" where
  "httpOpts =
     [(''method'', NoTag, KString),
      (''path'', NoTag, KSlice KString),
      (''headers'', NoTag, KMap (KSlice KString))]"

definition h2Opts :: "field list" where
  "h2Opts =
     [(''host'', NoTag, KSlice KString),
      (''path'', NoTag, KString)]"

definition httpTransport :: "field list" where
  "httpTransport =
     [(''http-opts'', NoTag, KStruct httpOpts),
      (''h2-opts'', NoTag, KStruct h2Opts)]"

definition xhttpOpts :: "field list" where
  "xhttpOpts =
     [(''path'', NoTag, KString),
      (''host'', NoTag, KString),
      (''mode'', NoTag, KString),
      (''headers'', NoTag, KMap KString),
      (''no-grpc-header'', NoTag, KBool),
      (''x-padding-bytes'', NoTag, KString)]"

definition ssPluginOpts :: "field list" where
  "ssPluginOpts =
     certOpts
     @ [(''mode'', NoTag, KString),
      (''host'', NoTag, KString),
      (''path'', NoTag, KString),
      (''tls'', NoTag, KBool),
      (''headers'', NoTag, KMap KString),
      (''mux'', NoTag, KBool),
      (''v2ray-http-upgrade'', NoTag, KBool),
      (''v2ray-http-upgrade-fast-open'', NoTag, KBool),
      (''password'', NoTag, KString),
      (''version'', NoTag, KInt),
      (''alpn'', NoTag, KSlice KString),
      (''version-hint'', NoTag, KString),
      (''restls-script'', NoTag, KString)]"

definition shadowsocks_opts :: "field list" where
  "shadowsocks_opts =
     serverOpts
     @ [(''cipher'', NoTag, KString),
      (''password'', NoTag, KString),
      (''udp'', NoTag, KBool),
      (''udp-over-tcp'', NoTag, KBool),
      (''udp-over-tcp-version'', NoTag, KInt),
      (''client-fingerprint'', NoTag, KString),
      (''plugin'', NoTag, KString),
      (''plugin-opts'', NoTag, KStruct ssPluginOpts)]"

definition shadowsocksR_opts :: "field list" where
  "shadowsocksR_opts =
     serverOpts
     @ [(''cipher'', NoTag, KString),
      (''password'', NoTag, KString),
      (''obfs'', NoTag, KString),
      (''obfs-param'', NoTag, KString),
      (''protocol'', NoTag, KString),
      (''protocol-param'', NoTag, KString),
      (''udp'', NoTag, KBool)]"

definition vmess_opts :: "field list" where
  "vmess_opts =
     serverOpts
     @ certOpts
     @ helloOpts
     @ utlsOpts
     @ streamTransport
     @ httpTransport
     @ [(''uuid'', NoTag, KString),
      (''alterId'', NoTag, KInt),
      (''cipher'', NoTag, KString),
      (''udp'', NoTag, KBool),
      (''tls'', NoTag, KBool),
      (''servername'', NoTag, KString),
      (''packet-encoding'', NoTag, KString),
      (''xudp'', NoTag, KBool),
      (''global-padding'', NoTag, KBool),
      (''authenticated-length'', NoTag, KBool)]"

definition vless_opts :: "field list" where
  "vless_opts =
     serverOpts
     @ certOpts
     @ helloOpts
     @ utlsOpts
     @ streamTransport
     @ httpTransport
     @ [(''uuid'', NoTag, KString),
      (''flow'', NoTag, KString),
      (''encryption'', NoTag, KString),
      (''udp'', NoTag, KBool),
      (''tls'', NoTag, KBool),
      (''servername'', NoTag, KString),
      (''packet-encoding'', NoTag, KString),
      (''xudp'', NoTag, KBool),
      (''xhttp-opts'', NoTag, KStruct xhttpOpts)]"

definition trojanSSOpts :: "field list" where
  "trojanSSOpts =
     [(''enabled'', NoTag, KBool),
      (''method'', NoTag, KString),
      (''password'', NoTag, KString)]"

definition trojan_opts :: "field list" where
  "trojan_opts =
     serverOpts
     @ certOpts
     @ helloOpts
     @ utlsOpts
     @ streamTransport
     @ [(''password'', NoTag, KString),
      (''sni'', NoTag, KString),
      (''udp'', NoTag, KBool),
      (''ss-opts'', NoTag, KStruct trojanSSOpts)]"

definition hysteria_opts :: "field list" where
  "hysteria_opts =
     serverOpts
     @ certOpts
     @ helloOpts
     @ [(''ports'', NoTag, KString),
      (''protocol'', NoTag, KString),
      (''obfs-protocol'', NoTag, KString),
      (''up'', NoTag, KString),
      (''up-speed'', NoTag, KInt),
      (''down'', NoTag, KString),
      (''down-speed'', NoTag, KInt),
      (''auth'', NoTag, KString),
      (''auth-str'', NoTag, KString),
      (''obfs'', NoTag, KString),
      (''sni'', NoTag, KString),
      (''recv-window-conn'', NoTag, KInt),
      (''recv-window'', NoTag, KInt),
      (''disable-mtu-discovery'', NoTag, KBool),
      (''fast-open'', NoTag, KBool),
      (''hop-interval'', NoTag, KInt)]"

definition hysteria2_opts :: "field list" where
  "hysteria2_opts =
     serverOpts
     @ certOpts
     @ helloOpts
     @ [(''ports'', NoTag, KString),
      (''hop-interval'', NoTag, KString),
      (''up'', NoTag, KString),
      (''down'', NoTag, KString),
      (''password'', NoTag, KString),
      (''obfs'', NoTag, KString),
      (''obfs-password'', NoTag, KString),
      (''sni'', NoTag, KString),
      (''cwnd'', NoTag, KInt)]"

definition tuic_opts :: "field list" where
  "tuic_opts =
     serverOpts
     @ certOpts
     @ helloOpts
     @ [(''token'', NoTag, KString),
      (''uuid'', NoTag, KString),
      (''password'', NoTag, KString),
      (''ip'', NoTag, KString),
      (''heartbeat-interval'', NoTag, KInt),
      (''reduce-rtt'', NoTag, KBool),
      (''request-timeout'', NoTag, KInt),
      (''udp-relay-mode'', NoTag, KString),
      (''congestion-controller'', NoTag, KString),
      (''disable-sni'', NoTag, KBool),
      (''max-udp-relay-packet-size'', NoTag, KInt),
      (''fast-open'', NoTag, KBool),
      (''max-open-streams'', NoTag, KInt),
      (''sni'', NoTag, KString)]"

definition wireguardPeer :: "field list" where
  "wireguardPeer =
     [(''server'', NoTag, KString),
      (''port'', NoTag, KInt),
      (''public-key'', NoTag, KString),
      (''pre-shared-key'', NoTag, KString),
      (''reserved'', NoTag, KSlice KUint8),
      (''allowed-ips'', NoTag, KSlice KString)]"

definition amneziaOpts :: "field list" where
  "amneziaOpts =
     [(''jc'', NoTag, KInt),
      (''jmin'', NoTag, KInt),
      (''jmax'', NoTag, KInt),
      (''s1'', NoTag, KInt),
      (''s2'', NoTag, KInt),
      (''s3'', NoTag, KInt),
      (''s4'', NoTag, KInt),
      (''h1'', NoTag, KString),
      (''h2'', NoTag, KString),
      (''h3'', NoTag, KString),
      (''h4'', NoTag, KString),
      (''i1'', NoTag, KString),
      (''i2'', NoTag, KString),
      (''i3'', NoTag, KString),
      (''i4'', NoTag, KString),
      (''i5'', NoTag, KString)]"

definition wireguard_opts :: "field list" where
  "wireguard_opts =
     dialOpts
     @ wireguardPeer
     @ [(''ip'', NoTag, KString),
      (''ipv6'', NoTag, KString),
      (''private-key'', NoTag, KString),
      (''mtu'', NoTag, KInt),
      (''udp'', NoTag, KBool),
      (''persistent-keepalive'', NoTag, KInt),
      (''amnezia-wg-option'', NoTag, KStruct amneziaOpts),
      (''peers'', NoTag, KSlice (KStruct wireguardPeer)),
      (''remote-dns-resolve'', NoTag, KBool),
      (''dns'', NoTag, KSlice KString)]"

definition snellObfsOpts :: "field list" where
  "snellObfsOpts =
     [(''mode'', NoTag, KString),
      (''host'', NoTag, KString)]"

definition snell_opts :: "field list" where
  "snell_opts =
     serverOpts
     @ [(''psk'', NoTag, KString),
      (''udp'', NoTag, KBool),
      (''version'', NoTag, KInt),
      (''obfs-opts'', NoTag, KStruct snellObfsOpts)]"

definition socks5_opts :: "field list" where
  "socks5_opts =
     serverOpts
     @ certOpts
     @ [(''username'', NoTag, KString),
      (''password'', NoTag, KString),
      (''tls'', NoTag, KBool),
      (''udp'', NoTag, KBool)]"

definition httpProxy_opts :: "field list" where
  "httpProxy_opts =
     serverOpts
     @ certOpts
     @ [(''username'', NoTag, KString),
      (''password'', NoTag, KString),
      (''tls'', NoTag, KBool),
      (''sni'', NoTag, KString),
      (''headers'', NoTag, KMap KString)]"

definition sshProxy_opts :: "field list" where
  "sshProxy_opts =
     serverOpts
     @ [(''username'', NoTag, KString),
      (''password'', NoTag, KString),
      (''private-key'', InlineSSH, KString),
      (''private-key-passphrase'', NoTag, KString),
      (''host-key'', NoTag, KSlice KString),
      (''host-key-algorithms'', NoTag, KSlice KString)]"

definition anytls_opts :: "field list" where
  "anytls_opts =
     serverOpts
     @ certOpts
     @ helloOpts
     @ [(''password'', NoTag, KString),
      (''sni'', NoTag, KString),
      (''client-fingerprint'', NoTag, KString),
      (''udp'', NoTag, KBool),
      (''idle-session-check-interval'', NoTag, KInt),
      (''idle-session-timeout'', NoTag, KInt),
      (''min-idle-session'', NoTag, KInt)]"

definition mieru_opts :: "field list" where
  "mieru_opts =
     serverOpts
     @ [(''port-range'', NoTag, KString),
      (''transport'', NoTag, KString),
      (''udp'', NoTag, KBool),
      (''username'', NoTag, KString),
      (''password'', NoTag, KString),
      (''multiplexing'', NoTag, KString),
      (''handshake-mode'', NoTag, KString)]"

definition direct_opts :: "field list" where
  "direct_opts =
     dialOpts"

definition ssPlugins :: "string list strmap" where
  "ssPlugins =
     [(''obfs'', [''mode'', ''host'']),
      (''v2ray-plugin'', [''mode'', ''host'', ''path'', ''tls'', ''headers'', ''mux'', ''v2ray-http-upgrade'',
         ''v2ray-http-upgrade-fast-open'', ''skip-cert-verify'', ''name-cert-verify'', ''fingerprint'',
         ''certificate'', ''private-key'']),
      (''shadow-tls'', [''host'', ''password'', ''version'', ''alpn'', ''skip-cert-verify'',
         ''name-cert-verify'', ''fingerprint'', ''certificate'', ''private-key'']),
      (''restls'', [''host'', ''password'', ''version-hint'', ''restls-script'', ''skip-cert-verify'',
         ''name-cert-verify'', ''fingerprint''])]"

definition proxyTypes :: "field list strmap" where
  "proxyTypes =
     [(''ss'', shadowsocks_opts), (''ssr'', shadowsocksR_opts), (''vmess'', vmess_opts),
      (''vless'', vless_opts), (''trojan'', trojan_opts), (''hysteria'', hysteria_opts),
      (''hysteria2'', hysteria2_opts), (''tuic'', tuic_opts), (''wireguard'', wireguard_opts),
      (''snell'', snell_opts), (''socks5'', socks5_opts), (''http'', httpProxy_opts),
      (''ssh'', sshProxy_opts), (''anytls'', anytls_opts), (''mieru'', mieru_opts),
      (''direct'', direct_opts)]"

subsection \<open>Facts of the tables\<close>

text \<open>Every option name a struct of kind \<open>k\<close> can hold, at any depth. The keys of a
  \<^const>\<open>KMap\<close>, such as HTTP headers, are data and not option names.\<close>

fun option_names :: "kind \<Rightarrow> string list" where
  "option_names (KStruct fs) = concat (map (\<lambda>(key, _, k). key # option_names k) fs)"
| "option_names (KSlice k) = option_names k"
| "option_names (KMap k) = option_names k"
| "option_names _ = []"

text \<open>The options that would let a subscription steer the root process.\<close>

definition never_modelled :: "string list" where
  "never_modelled = [''dialer-proxy'', ''interface-name'', ''routing-mark'', ''ip-stack'', ''realm-opts'']"

lemma proxyTypes_never_modelled:
  "list_all (\<lambda>(ty, fs). list_all (\<lambda>n. n \<notin> set never_modelled) (option_names (KStruct fs))) proxyTypes"
  by code_simp

text \<open>A struct names each key once, and the keys are plain: lower-case ASCII words joined by
  dashes but for \<^verbatim>\<open>alterId\<close>.\<close>

lemma proxyTypes_distinct: "list_all (\<lambda>(ty, fs). distinct (map fst fs)) proxyTypes"
  by code_simp

lemma proxyTypes_keys: "map_of proxyTypes ty = Some fs \<Longrightarrow> (ty, fs) \<in> set proxyTypes"
  by (rule map_of_SomeD)

end
