(* ===== verification/Amnezia.thy ===== *)
theory Amnezia
  imports Proxy_Schema
begin

text \<open>
  \<^verbatim>\<open>internal/profile/amnezia.go\<close>: the bounds on the options of an AmneziaWG proxy. The packet
  templates are read tag by tag; \<open>packet_spec\<close> says which templates are accepted without
  the loop, and the two are shown to agree.
\<close>

definition maxAmneziaJunkCount :: int where "maxAmneziaJunkCount = 128"
definition maxAmneziaPacketSize :: nat where "maxAmneziaPacketSize = 1280"
definition maxAmneziaTags :: nat where "maxAmneziaTags = 64"
definition maxAmneziaWait :: nat where "maxAmneziaWait = 5000"

lemmas amnezia_limits = maxAmneziaJunkCount_def maxAmneziaPacketSize_def maxAmneziaTags_def maxAmneziaWait_def

datatype amnezia_error =
    OutOfRange string int
  | JMinOverJMax
  | BadHeader nat
  | PacketTooLong
  | ExpectedTag
  | UnclosedTag
  | BadByteTag
  | BadTagArgument
  | BadCounterOrTimestamp
  | UnsupportedTag
  | PacketOverLimit
  | InPacket nat amnezia_error
  | WaitsOverLimit

definition is_hex :: "char \<Rightarrow> bool" where
  "is_hex c \<longleftrightarrow> is_digit c \<or> (CHR ''a'' \<le> c \<and> c \<le> CHR ''f'') \<or> (CHR ''A'' \<le> c \<and> c \<le> CHR ''F'')"

definition amneziaHeader :: "string \<Rightarrow> bool" where
  "amneziaHeader s =
     (let (lo, hi0, ranged) = cut_at (CHR ''-'') s; hi = (if ranged then hi0 else lo)
      in case (parse_uint 32 lo, parse_uint 32 hi) of (Some a, Some b) \<Rightarrow> a \<le> b | _ \<Rightarrow> False)"

text \<open>One pass of the loop's switch: the bytes and the milliseconds a tag adds.\<close>

definition tag_name :: "string \<Rightarrow> string" where
  "tag_name tag = fst (cut_at (CHR '' '') tag)"

definition packetTag :: "bool \<Rightarrow> bool \<Rightarrow> string \<Rightarrow> (amnezia_error, nat \<times> nat) res" where
  "packetTag counter timestamp tag =
     (let name = tag_name tag; param = trim_space (fst (snd (cut_at (CHR '' '') tag)))
      in if name = ''b'' then
           (if \<not> has_prefix param ''0x'' \<and> \<not> has_prefix param ''0X'' then Inl BadByteTag
            else let digits = drop 2 param;
                     padded = (if length digits mod 2 \<noteq> 0 then CHR ''0'' # digits else digits)
                 in if list_all is_hex padded then Inr (length padded div 2, 0) else Inl BadByteTag)
         else if name \<in> {''r'', ''rc'', ''rd'', ''wt''} then
           (case parse_uint 32 param of
              None \<Rightarrow> Inl BadTagArgument
            | Some v \<Rightarrow>
                if v > (if name = ''wt'' then maxAmneziaWait else 1000) then Inl BadTagArgument
                else if name = ''wt'' then Inr (0, v) else Inr (v, 0))
         else if name \<in> {''c'', ''t''} then
           (if tag \<noteq> name \<or> (name = ''c'' \<and> counter) \<or> (name = ''t'' \<and> timestamp)
            then Inl BadCounterOrTimestamp else Inr (8, 0))
         else Inl UnsupportedTag)"

lemma cut_at_shorter: "length (fst (snd (cut_at c (tl s)))) < length s" if "s \<noteq> []"
proof -
  have "length (dropWhile (\<lambda>x. x \<noteq> c) (tl s)) \<le> length (tl s)" by (rule length_dropWhile_le)
  with that show ?thesis by (cases s) (auto simp: cut_at_def)
qed

function packet_loop :: "string \<Rightarrow> nat \<Rightarrow> nat \<Rightarrow> nat \<Rightarrow> bool \<Rightarrow> bool \<Rightarrow> (amnezia_error, nat) res" where
  "packet_loop s sz wait tags counter timestamp =
     (if s = [] then Inr wait
      else if hd s \<noteq> CHR ''<'' then Inl ExpectedTag
      else if CHR ''>'' \<notin> set (tl s) then Inl UnclosedTag
      else case packetTag counter timestamp (fst (cut_at (CHR ''>'') (tl s))) of
             Inl e \<Rightarrow> Inl e
           | Inr (n, w) \<Rightarrow>
               if sz + n > maxAmneziaPacketSize \<or> tags + 1 > maxAmneziaTags \<or> wait + w > maxAmneziaWait
               then Inl PacketOverLimit
               else packet_loop (fst (snd (cut_at (CHR ''>'') (tl s)))) (sz + n) (wait + w) (tags + 1)
                      (counter \<or> tag_name (fst (cut_at (CHR ''>'') (tl s))) = ''c'')
                      (timestamp \<or> tag_name (fst (cut_at (CHR ''>'') (tl s))) = ''t''))"
  by pat_completeness auto
termination
  by (relation "measure (\<lambda>(s, _). length s)") (simp_all add: cut_at_shorter)

declare packet_loop.simps [simp del]

definition amneziaPacket :: "string \<Rightarrow> (amnezia_error, nat) res" where
  "amneziaPacket s =
     (if length s > 2 * maxAmneziaPacketSize + maxAmneziaTags * 16
         \<or> contains_any s [CHR 0x0D, CHR 0x0A, CHR 0x00]
      then Inl PacketTooLong
      else packet_loop s 0 0 0 False False)"

text \<open>\<^verbatim>\<open>amneziaOpts.check\<close>: the numeric bounds, then the junk range, the headers and the
  packets, the first failure returned.\<close>

definition amnezia_numbers :: "(string \<times> int) list" where
  "amnezia_numbers = [(''jc'', maxAmneziaJunkCount),
     (''jmin'', int maxAmneziaPacketSize), (''jmax'', int maxAmneziaPacketSize),
     (''s1'', int maxAmneziaPacketSize), (''s2'', int maxAmneziaPacketSize),
     (''s3'', int maxAmneziaPacketSize), (''s4'', int maxAmneziaPacketSize)]"

fun sum_waits :: "(nat \<times> string option) list \<Rightarrow> nat \<Rightarrow> (amnezia_error, nat) res" where
  "sum_waits [] wait = Inr wait"
| "sum_waits ((i, packet) # ps) wait =
     (case packet of
        None \<Rightarrow> sum_waits ps wait
      | Some p \<Rightarrow>
          if p = [] then sum_waits ps wait
          else (case amneziaPacket p of
                  Inl e \<Rightarrow> Inl (InPacket (i + 1) e)
                | Inr delay \<Rightarrow> sum_waits ps (wait + delay)))"

definition amnezia_packets :: "fields_val \<Rightarrow> (nat \<times> string option) list" where
  "amnezia_packets p = enumerate 0 (map (v_str p) [''i1'', ''i2'', ''i3'', ''i4'', ''i5''])"

definition amnezia_check :: "fields_val \<Rightarrow> (amnezia_error, unit) res" where
  "amnezia_check p =
     (case find (\<lambda>(name, mx). case v_int p name of None \<Rightarrow> False | Some n \<Rightarrow> n < 0 \<or> n > mx) amnezia_numbers of
        Some (name, mx) \<Rightarrow> Inl (OutOfRange name mx)
      | None \<Rightarrow>
          if (case v_int p ''jmin'' of
                None \<Rightarrow> False
              | Some lo \<Rightarrow> lo > 0 \<and> (case v_int p ''jmax'' of None \<Rightarrow> True | Some hi \<Rightarrow> hi < lo))
          then Inl JMinOverJMax
          else (case find (\<lambda>(i, key). case v_str p key of None \<Rightarrow> False | Some h \<Rightarrow> h \<noteq> [] \<and> \<not> amneziaHeader h)
                       [(1, ''h1''), (2, ''h2''), (3, ''h3''), (4, ''h4'')] of
                  Some (i, _) \<Rightarrow> Inl (BadHeader i)
                | None \<Rightarrow>
                    bind_res (sum_waits (amnezia_packets p) 0)
                      (\<lambda>wait. if wait > maxAmneziaWait then Inl WaitsOverLimit else Inr ())))"

subsection \<open>What a packet template may hold\<close>

definition render_tags :: "string list \<Rightarrow> string" where
  "render_tags ts = concat (map (\<lambda>t. CHR ''<'' # t @ [CHR ''>'']) ts)"

definition good_tag :: "string \<Rightarrow> bool" where
  "good_tag t \<longleftrightarrow> CHR ''>'' \<notin> set t \<and> (\<exists>nw. packetTag False False t = Inr nw)"

definition tag_size :: "string \<Rightarrow> nat" where
  "tag_size t = (case packetTag False False t of Inr (n, w) \<Rightarrow> n | Inl _ \<Rightarrow> 0)"

definition tag_wait :: "string \<Rightarrow> nat" where
  "tag_wait t = (case packetTag False False t of Inr (n, w) \<Rightarrow> w | Inl _ \<Rightarrow> 0)"

lemma packetTag_flags:
  "packetTag c t tag = Inr nw \<longleftrightarrow>
     packetTag False False tag = Inr nw \<and> (tag = ''c'' \<longrightarrow> \<not> c) \<and> (tag = ''t'' \<longrightarrow> \<not> t)"
  by (auto simp: packetTag_def Let_def tag_name_def cut_at_def split: if_splits option.splits)

lemma packetTag_name:
  "packetTag c t tag = Inr nw \<Longrightarrow> (tag_name tag = ''c'') = (tag = ''c'') \<and> (tag_name tag = ''t'') = (tag = ''t'')"
  by (auto simp: packetTag_def Let_def tag_name_def cut_at_def split: if_splits option.splits)

lemma cut_at_tag: "c \<notin> set t \<Longrightarrow> cut_at c (t @ c # r) = (t, r, True)"
  by (simp add: cut_at_def takeWhile_append dropWhile_append)

lemma packet_loop_sound:
  assumes "packet_loop s sz wait tags c t = Inr w"
    and "sz \<le> maxAmneziaPacketSize" "tags \<le> maxAmneziaTags" "wait \<le> maxAmneziaWait"
  shows "\<exists>ts. s = render_tags ts \<and> list_all good_tag ts
     \<and> sz + sum_list (map tag_size ts) \<le> maxAmneziaPacketSize \<and> tags + length ts \<le> maxAmneziaTags
     \<and> w = wait + sum_list (map tag_wait ts) \<and> w \<le> maxAmneziaWait
     \<and> count_list ts ''c'' \<le> (if c then 0 else 1) \<and> count_list ts ''t'' \<le> (if t then 0 else 1)"
  using assms
proof (induction s sz wait tags c t rule: packet_loop.induct)
  case (1 s sz wait tags c t)
  show ?case
  proof (cases "s = []")
    case True
    with "1.prems" show ?thesis
      by (intro exI[of _ "[]"]) (simp add: packet_loop.simps render_tags_def)
  next
    case False
    let ?tag = "fst (cut_at (CHR ''>'') (tl s))"
    let ?rest = "fst (snd (cut_at (CHR ''>'') (tl s)))"
    from "1.prems"(1) False have open_: "hd s = CHR ''<''" and closed: "CHR ''>'' \<in> set (tl s)"
      by (auto simp: packet_loop.simps[of s] split: if_splits)
    from "1.prems"(1) False obtain n v where eff: "packetTag c t ?tag = Inr (n, v)"
      by (auto simp: packet_loop.simps[of s] split: if_splits sum.splits prod.splits)
    from "1.prems"(1) False open_ closed eff have
      lim: "sz + n \<le> maxAmneziaPacketSize" "tags + 1 \<le> maxAmneziaTags" "wait + v \<le> maxAmneziaWait"
      and rec: "packet_loop ?rest (sz + n) (wait + v) (tags + 1)
         (c \<or> tag_name ?tag = ''c'') (t \<or> tag_name ?tag = ''t'') = Inr w"
      by (auto simp: packet_loop.simps[of s] split: if_splits)
    have lim': "\<not> (maxAmneziaPacketSize < sz + n \<or> maxAmneziaTags < tags + 1 \<or> maxAmneziaWait < wait + v)"
      using lim by simp
    obtain ts where ts: "?rest = render_tags ts" "list_all good_tag ts"
      "(sz + n) + sum_list (map tag_size ts) \<le> maxAmneziaPacketSize"
      "tags + 1 + length ts \<le> maxAmneziaTags" "w = wait + v + sum_list (map tag_wait ts)" "w \<le> maxAmneziaWait"
      "count_list ts ''c'' \<le> (if c \<or> tag_name ?tag = ''c'' then 0 else 1)"
      "count_list ts ''t'' \<le> (if t \<or> tag_name ?tag = ''t'' then 0 else 1)"
      using "1.IH"[OF False _ _ eff refl lim' rec lim] open_ closed by auto
    have s: "s = CHR ''<'' # ?tag @ CHR ''>'' # ?rest"
      using open_ False cut_at_append[OF closed] by (cases s) auto
    have tag: "CHR ''>'' \<notin> set ?tag" by (auto simp: cut_at_def dest: set_takeWhileD)
    have flags: "packetTag False False ?tag = Inr (n, v)" "?tag = ''c'' \<longrightarrow> \<not> c" "?tag = ''t'' \<longrightarrow> \<not> t"
      using eff packetTag_flags by blast+
    have nm: "(tag_name ?tag = ''c'') = (?tag = ''c'')" "(tag_name ?tag = ''t'') = (?tag = ''t'')"
      using packetTag_name[OF eff] by auto
    have "s = render_tags (?tag # ts)" using s ts(1) by (simp add: render_tags_def)
    moreover have "good_tag ?tag" using tag flags(1) by (auto simp: good_tag_def)
    moreover have "tag_size ?tag = n" "tag_wait ?tag = v" using flags(1) by (auto simp: tag_size_def tag_wait_def)
    ultimately show ?thesis
      using ts flags(2,3) nm by (intro exI[of _ "?tag # ts"]) (auto split: if_splits)
  qed
qed

lemma packet_loop_complete:
  assumes "list_all good_tag ts"
    and "sz + sum_list (map tag_size ts) \<le> maxAmneziaPacketSize" "tags + length ts \<le> maxAmneziaTags"
    and "wait + sum_list (map tag_wait ts) \<le> maxAmneziaWait"
    and "count_list ts ''c'' \<le> (if c then 0 else 1)" "count_list ts ''t'' \<le> (if t then 0 else 1)"
  shows "packet_loop (render_tags ts) sz wait tags c t = Inr (wait + sum_list (map tag_wait ts))"
  using assms
proof (induction ts arbitrary: sz wait tags c t)
  case Nil
  then show ?case by (simp add: render_tags_def packet_loop.simps)
next
  case (Cons x ts)
  obtain n v where eff: "packetTag False False x = Inr (n, v)" and gt: "CHR ''>'' \<notin> set x"
    using Cons.prems(1) by (auto simp: good_tag_def)
  have nv: "tag_size x = n" "tag_wait x = v" using eff by (auto simp: tag_size_def tag_wait_def)
  have fl: "packetTag c t x = Inr (n, v)"
    using eff Cons.prems(5,6) by (auto simp: packetTag_flags[of c t] split: if_splits)
  have nm: "(tag_name x = ''c'') = (x = ''c'')" "(tag_name x = ''t'') = (x = ''t'')"
    using packetTag_name[OF eff] by auto
  have s: "render_tags (x # ts) = CHR ''<'' # x @ CHR ''>'' # render_tags ts"
    by (simp add: render_tags_def)
  have "packet_loop (render_tags ts) (sz + n) (wait + v) (tags + 1) (c \<or> x = ''c'') (t \<or> x = ''t'')
      = Inr (wait + v + sum_list (map tag_wait ts))"
    using Cons.prems nv by (intro Cons.IH) (auto split: if_splits)
  then show ?case
    using Cons.prems nv fl nm gt by (simp add: s packet_loop.simps[of "_ # _"] cut_at_tag)
qed

text \<open>The templates \<^const>\<open>amneziaPacket\<close> accepts, and the delay it reports for each.\<close>

definition packet_spec :: "string \<Rightarrow> nat \<Rightarrow> bool" where
  "packet_spec s w \<longleftrightarrow>
     length s \<le> 3584 \<and> CHR 0x0D \<notin> set s \<and> CHR 0x0A \<notin> set s \<and> CHR 0x00 \<notin> set s
     \<and> (\<exists>ts. s = render_tags ts \<and> list_all good_tag ts \<and> sum_list (map tag_size ts) \<le> 1280
          \<and> length ts \<le> 64 \<and> w = sum_list (map tag_wait ts) \<and> w \<le> 5000
          \<and> count_list ts ''c'' \<le> 1 \<and> count_list ts ''t'' \<le> 1)"

lemma amneziaPacket_spec: "amneziaPacket s = Inr w \<longleftrightarrow> packet_spec s w"
proof
  assume ok: "amneziaPacket s = Inr w"
  then have pre: "length s \<le> 3584" "CHR 0x0D \<notin> set s" "CHR 0x0A \<notin> set s" "CHR 0x00 \<notin> set s"
    and loop: "packet_loop s 0 0 0 False False = Inr w"
    by (auto simp: amneziaPacket_def amnezia_limits contains_any_def list_ex_iff split: if_splits)
  from packet_loop_sound[OF loop] pre show "packet_spec s w"
    by (auto simp: packet_spec_def amnezia_limits)
next
  assume "packet_spec s w"
  then obtain ts where ts: "s = render_tags ts" "list_all good_tag ts" "sum_list (map tag_size ts) \<le> 1280"
    "length ts \<le> 64" "w = sum_list (map tag_wait ts)" "w \<le> 5000" "count_list ts ''c'' \<le> 1" "count_list ts ''t'' \<le> 1"
    and pre: "length s \<le> 3584" "CHR 0x0D \<notin> set s" "CHR 0x0A \<notin> set s" "CHR 0x00 \<notin> set s"
    by (auto simp: packet_spec_def)
  have "packet_loop s 0 0 0 False False = Inr w"
    using packet_loop_complete[OF ts(2), of 0 0 0 False False] ts by (simp add: amnezia_limits)
  with pre show "amneziaPacket s = Inr w"
    by (auto simp: amneziaPacket_def amnezia_limits contains_any_def list_ex_iff)
qed

lemma sum_waits_bound: "sum_waits ps w0 = Inr w \<Longrightarrow> w0 \<le> w"
  by (induction ps w0 rule: sum_waits.induct) (auto split: option.splits if_splits sum.splits dest: add_leD1)

lemma sum_waits_packets:
  "sum_waits ps w0 = Inr w \<Longrightarrow> (i, Some p) \<in> set ps \<Longrightarrow> p \<noteq> [] \<Longrightarrow> \<exists>d. amneziaPacket p = Inr d \<and> d \<le> w"
proof (induction ps w0 rule: sum_waits.induct)
  case (1 wait)
  then show ?case by simp
next
  case (2 j packet ps wait)
  then show ?case
    by (auto split: option.splits if_splits sum.splits dest: sum_waits_bound)
qed

lemma amnezia_check_numbers:
  assumes "amnezia_check p = Inr ()" "(name, mx) \<in> set amnezia_numbers" "v_int p name = Some n"
  shows "0 \<le> n \<and> n \<le> mx"
  using assms by (fastforce simp: amnezia_check_def find_None_iff split: option.splits prod.splits)

lemma amnezia_check_packets:
  assumes "amnezia_check p = Inr ()" "key \<in> {''i1'', ''i2'', ''i3'', ''i4'', ''i5''}" "v_str p key = Some t" "t \<noteq> []"
  shows "\<exists>d \<le> 5000. packet_spec t d"
proof -
  let ?ps = "amnezia_packets p"
  obtain w where w: "sum_waits ?ps 0 = Inr w" "w \<le> maxAmneziaWait"
    using assms(1) by (auto simp: amnezia_check_def result_simps split: option.splits prod.splits if_splits)
  have "Some t \<in> snd ` set ?ps"
    using assms(2,3) by (auto simp: amnezia_packets_def simp flip: set_map)
  then obtain i where "(i, Some t) \<in> set ?ps" by force
  from sum_waits_packets[OF w(1) this assms(4)] obtain d where "packet_spec t d" "d \<le> w"
    by (auto simp: amneziaPacket_spec)
  with w(2) show ?thesis by (intro exI[of _ d]) (simp add: amnezia_limits)
qed

end
