(* ===== verification/Proxy.thy ===== *)
theory Proxy
  imports Amnezia
begin

text \<open>
  \<^verbatim>\<open>Proxy\<close> of \<^verbatim>\<open>internal/profile/proxy.go\<close>: one proxy of a subscription read into its typed
  struct, checked, and written back as the options the core gets. What the source takes
  from outside the language core is a field of \<open>proxy_lib\<close>: whether \<^verbatim>\<open>encoding/pem\<close> finds a
  block, whether \<^verbatim>\<open>crypto/tls\<close> loads a certificate with its key, and how \<^verbatim>\<open>strconv\<close> prints a
  float.
\<close>

record proxy_lib =
  pem_block :: "string \<Rightarrow> bool"
  key_pair :: "string \<Rightarrow> string \<Rightarrow> bool"
  float_text :: "float64 \<Rightarrow> string"

datatype proxy_error =
    NoName
  | NoType
  | TypeNotSupported string
  | NotString string
  | NotWhole string
  | NotByte string
  | NotBool string
  | NotMap string
  | NotList string
  | NotBase64 string
  | ServerMissing
  | PortMissing
  | PortOutOfRange
  | PluginNotSupported string
  | ProtocolNotSupported string
  | HopIntervalTooLong
  | HopIntervalInvalid
  | AmneziaError amnezia_error
  | PeerError nat proxy_error
  | ObfsModeNotSupported string

subsection \<open>Scalars\<close>

definition optString :: "proxy_lib \<Rightarrow> goval \<Rightarrow> string option" where
  "optString L raw = (case raw of
     GStr s \<Rightarrow> Some s
   | GInt i \<Rightarrow> Some (itoa i)
   | GUint n \<Rightarrow> Some (itoa_nat n)
   | GFloat f \<Rightarrow> Some (float_text L f)
   | _ \<Rightarrow> None)"

definition checkInt :: "int \<Rightarrow> int option" where
  "checkInt n = (if n < 0 \<or> n > 2147483647 then None else Some n)"

definition optInt :: "goval \<Rightarrow> int option" where
  "optInt raw = (case raw of
     GInt i \<Rightarrow> checkInt i
   | GUint n \<Rightarrow> if n \<le> 2 ^ 63 - 1 then checkInt (int n) else None
   | GFloat f \<Rightarrow> (case float_int f of Some i \<Rightarrow> if \<bar>i\<bar> < 2 ^ 53 then checkInt i else None | None \<Rightarrow> None)
   | GStr s \<Rightarrow> Option.bind (parse_int s) checkInt
   | _ \<Rightarrow> None)"

definition optBool :: "goval \<Rightarrow> bool option" where
  "optBool raw = (case raw of
     GBool b \<Rightarrow> Some b
   | GInt i \<Rightarrow> Some (i \<noteq> 0)
   | GUint n \<Rightarrow> Some (n \<noteq> 0)
   | _ \<Rightarrow> None)"

definition optMap :: "goval \<Rightarrow> goval strmap option" where
  "optMap raw = (case raw of GMap m \<Rightarrow> Some m | _ \<Rightarrow> None)"

lemma optInt_range: "optInt raw = Some n \<Longrightarrow> 0 \<le> n \<and> n \<le> 2147483647"
  by (auto simp: optInt_def checkInt_def Option.bind_eq_Some_conv split: goval.splits option.splits if_splits)

text \<open>\<^verbatim>\<open>strings.EqualFold(k, key)\<close> for the ASCII keys of the structs: apart from ASCII letters,
  only U+212A (the Kelvin sign) and U+017F (long s) fold to an ASCII letter.\<close>

fun fold_key :: "string \<Rightarrow> string" where
  "fold_key [] = []"
| "fold_key (c # s) =
     (if c = CHR 0xE2 \<and> take 2 s = [CHR 0x84, CHR 0xAA] then CHR ''k'' # fold_key (drop 2 s)
      else if c = CHR 0xC5 \<and> take 1 s = [CHR 0xBF] then CHR ''s'' # fold_key (drop 1 s)
      else lower_char c # fold_key s)"

definition equal_fold_key :: "string \<Rightarrow> string \<Rightarrow> bool" where
  "equal_fold_key k key \<longleftrightarrow> fold_key k = map lower_char key"

definition lookup_key :: "goval strmap \<Rightarrow> string \<Rightarrow> goval option" where
  "lookup_key m key =
     (case map_of m key of
        Some v \<Rightarrow> Some v
      | None \<Rightarrow>
          (case find (\<lambda>k. equal_fold_key (map (\<lambda>c. if c = CHR ''_'' then CHR ''-'' else c) k) key)
                  (sorted_keys m) of
             Some k \<Rightarrow> map_of m k
           | None \<Rightarrow> None))"

text \<open>The test \<^verbatim>\<open>!ok || raw == nil\<close> of \<^verbatim>\<open>readStruct\<close>: an entry that is null counts as absent.\<close>

definition present_at :: "goval strmap \<Rightarrow> string \<Rightarrow> goval option" where
  "present_at m key = (case lookup_key m key of
     None \<Rightarrow> None | Some raw \<Rightarrow> if raw = GNil then None else Some raw)"

text \<open>\<^verbatim>\<open>base64.StdEncoding.DecodeString\<close>: line breaks are skipped, padding is required.\<close>

definition base64_val :: "char \<Rightarrow> nat option" where
  "base64_val c =
     (if CHR ''A'' \<le> c \<and> c \<le> CHR ''Z'' then Some (of_char c - 65)
      else if CHR ''a'' \<le> c \<and> c \<le> CHR ''z'' then Some (of_char c - 71)
      else if CHR ''0'' \<le> c \<and> c \<le> CHR ''9'' then Some (of_char c + 4)
      else if c = CHR ''+'' then Some 62
      else if c = CHR ''/'' then Some 63
      else None)"

fun base64_quads :: "string \<Rightarrow> nat list option" where
  "base64_quads [] = Some []"
| "base64_quads (a # b # c # d # rest) =
     (case (base64_val a, base64_val b) of
        (Some x, Some y) \<Rightarrow>
          if c = CHR ''='' then
            (if d = CHR ''='' \<and> rest = [] then Some [(x * 4 + y div 16) mod 256] else None)
          else (case base64_val c of
                  None \<Rightarrow> None
                | Some z \<Rightarrow>
                    if d = CHR ''='' then
                      (if rest = [] then Some [(x * 4 + y div 16) mod 256, (y * 16 + z div 4) mod 256] else None)
                    else (case (base64_val d, base64_quads rest) of
                            (Some w, Some bs) \<Rightarrow>
                              Some ([(x * 4 + y div 16) mod 256, (y * 16 + z div 4) mod 256, (z * 64 + w) mod 256] @ bs)
                          | _ \<Rightarrow> None))
      | _ \<Rightarrow> None)"
| "base64_quads _ = None"

definition base64_decode :: "string \<Rightarrow> nat list option" where
  "base64_decode s = base64_quads (filter (\<lambda>c. c \<noteq> CHR 0x0D \<and> c \<noteq> CHR 0x0A) s)"

lemma base64_quads_bytes: "base64_quads s = Some bs \<Longrightarrow> b \<in> set bs \<Longrightarrow> b < 256"
proof (induction s arbitrary: bs rule: base64_quads.induct)
  case (2 a b' c d rest)
  then show ?case by (auto split: option.splits if_splits prod.splits)
qed auto

definition isInline :: "proxy_lib \<Rightarrow> inline_tag \<Rightarrow> string \<Rightarrow> bool" where
  "isInline L tag s = (case tag of
     NoTag \<Rightarrow> True
   | InlinePEM \<Rightarrow> pem_block L (trim_space s)
   | InlineSSH \<Rightarrow> pem_block L (trim_space s) \<and> contains_str s ''PRIVATE KEY'')"

text \<open>A tagged field is a string pointer; any other value has no tag.\<close>

definition keeps :: "proxy_lib \<Rightarrow> inline_tag \<Rightarrow> val \<Rightarrow> bool" where
  "keeps L tag v = (case v of VString s \<Rightarrow> isInline L tag s | _ \<Rightarrow> tag = NoTag)"

subsection \<open>Reading and writing structs\<close>

function (sequential) readValue :: "proxy_lib \<Rightarrow> kind \<Rightarrow> string \<Rightarrow> goval \<Rightarrow> (proxy_error, val) res"
  and readStruct :: "proxy_lib \<Rightarrow> field list \<Rightarrow> string \<Rightarrow> goval strmap \<Rightarrow> (proxy_error, fields_val) res"
where
  "readValue L KString path raw =
     (case optString L raw of None \<Rightarrow> Inl (NotString path) | Some s \<Rightarrow> Inr (VString s))"
| "readValue L KInt path raw =
     (case optInt raw of None \<Rightarrow> Inl (NotWhole path) | Some n \<Rightarrow> Inr (VInt n))"
| "readValue L KUint8 path raw =
     (case optInt raw of
        None \<Rightarrow> Inl (NotByte path)
      | Some n \<Rightarrow> if n < 0 \<or> n > 255 then Inl (NotByte path) else Inr (VByte (nat n)))"
| "readValue L KBool path raw =
     (case optBool raw of None \<Rightarrow> Inl (NotBool path) | Some b \<Rightarrow> Inr (VBool b))"
| "readValue L (KStruct fs) path raw =
     (case optMap raw of
        None \<Rightarrow> Inl (NotMap path)
      | Some m \<Rightarrow> bind_res (readStruct L fs (path @ ''.'') m) (\<lambda>v. Inr (VStruct v)))"
| "readValue L (KSlice k) path raw =
     (case raw of
        GStr s \<Rightarrow>
          if k = KUint8 then
            (case base64_decode s of
               None \<Rightarrow> Inl (NotBase64 path)
             | Some bs \<Rightarrow> Inr (VSlice (map VByte bs)))
          else Inl (NotList path)
      | GList xs \<Rightarrow>
          bind_res (map_res (\<lambda>(i, x). readValue L k (path @ ''['' @ itoa_nat i @ '']'') x) (enumerate 0 xs))
            (\<lambda>vs. Inr (VSlice vs))
      | _ \<Rightarrow> Inl (NotList path))"
| "readValue L (KMap k) path raw =
     (case optMap raw of
        None \<Rightarrow> Inl (NotMap path)
      | Some m \<Rightarrow>
          bind_res (map_res (\<lambda>key. bind_res (readValue L k (path @ ''.'' @ key) (the (map_of m key)))
                                     (\<lambda>v. Inr (key, v))) (sorted_keys m))
            (\<lambda>vs. Inr (VMap vs)))"
| "readStruct L [] path m = Inr []"
| "readStruct L ((key, tag, k) # fs) path m =
     (case present_at m key of
        None \<Rightarrow> readStruct L fs path m
      | Some raw \<Rightarrow>
          bind_res (readValue L k (path @ key) raw) (\<lambda>v.
          bind_res (readStruct L fs path m) (\<lambda>vs.
          Inr (if keeps L tag v then (key, v) # vs else vs))))"
  by pat_completeness auto
termination
  by (relation "measure (\<lambda>x. case x of Inl (L, k, p, r) \<Rightarrow> size k
        | Inr (L, fs, p, m) \<Rightarrow> size_list (size_prod (\<lambda>_. 0) (size_prod (\<lambda>_. 0) size)) fs)") auto

fun writeValue :: "val \<Rightarrow> goval" where
  "writeValue (VString s) = GStr s"
| "writeValue (VInt n) = GInt n"
| "writeValue (VByte n) = GInt (int n)"
| "writeValue (VBool b) = GBool b"
| "writeValue (VStruct m) = GMap (map (\<lambda>(k, v). (k, writeValue v)) m)"
| "writeValue (VSlice vs) = GList (map writeValue vs)"
| "writeValue (VMap m) = GMap (map (\<lambda>(k, v). (k, writeValue v)) m)"

definition writeStruct :: "fields_val \<Rightarrow> goval strmap" where
  "writeStruct m = map (\<lambda>(k, v). (k, writeValue v)) m"

definition keepFields :: "fields_val \<Rightarrow> string list \<Rightarrow> fields_val" where
  "keepFields m keys = filter (\<lambda>(k, _). k \<in> set keys) m"

subsection \<open>Checks\<close>

definition checkEndpoint :: "string option \<Rightarrow> int option \<Rightarrow> bool \<Rightarrow> (proxy_error, unit) res" where
  "checkEndpoint server port portOptional =
     (if server = None \<or> server = Some [] then Inl ServerMissing
      else if port = None \<and> \<not> portOptional then Inl PortMissing
      else (case port of
              Some n \<Rightarrow> if n < 1 \<or> n > 65535 then Inl PortOutOfRange else Inr ()
            | None \<Rightarrow> Inr ()))"

definition serverOpts_check :: "fields_val \<Rightarrow> (proxy_error, unit) res" where
  "serverOpts_check s = checkEndpoint (v_str s ''server'') (v_int s ''port'') False"

definition shadowsocks_check :: "fields_val \<Rightarrow> (proxy_error, fields_val) res" where
  "shadowsocks_check p =
     bind_res (serverOpts_check p) (\<lambda>_.
       case v_str p ''plugin'' of
         None \<Rightarrow> Inr (filter (\<lambda>(k, _). k \<noteq> ''plugin-opts'') p)
       | Some plugin \<Rightarrow>
           if plugin = [] then Inr (filter (\<lambda>(k, _). k \<noteq> ''plugin-opts'') p)
           else (case map_of ssPlugins plugin of
                   None \<Rightarrow> Inl (PluginNotSupported plugin)
                 | Some keys \<Rightarrow>
                     Inr (map (\<lambda>(k, v). if k = ''plugin-opts''
                                then (k, case v of VStruct m \<Rightarrow> VStruct (keepFields m keys) | _ \<Rightarrow> v)
                                else (k, v)) p)))"

definition hysteriaProtocols :: "string list" where
  "hysteriaProtocols = ['''', ''udp'', ''wechat-video'']"

definition maxHopInterval :: int where
  "maxHopInterval = 24 * 60 * 60"

definition hysteria_check :: "fields_val \<Rightarrow> (proxy_error, unit) res" where
  "hysteria_check p =
     (case find (\<lambda>proto. proto \<notin> set hysteriaProtocols)
             (List.map_filter (v_str p) [''protocol'', ''obfs-protocol'']) of
        Some proto \<Rightarrow> Inl (ProtocolNotSupported proto)
      | None \<Rightarrow>
          if (case v_int p ''hop-interval'' of None \<Rightarrow> False | Some n \<Rightarrow> n > maxHopInterval)
          then Inl HopIntervalTooLong
          else checkEndpoint (v_str p ''server'') (v_int p ''port'') (v_str p ''ports'' \<noteq> None))"

definition hop_interval_ok :: "string \<Rightarrow> bool" where
  "hop_interval_ok s =
     (let (lo, hi0, ok) = cut_at (CHR ''-'') s; hi = (if ok then hi0 else lo)
      in case (parse_uint 32 (trim_space lo), parse_uint 32 (trim_space hi)) of
           (Some a, Some b) \<Rightarrow> a \<le> b \<and> int b \<le> maxHopInterval
         | _ \<Rightarrow> False)"

definition hysteria2_check :: "fields_val \<Rightarrow> (proxy_error, unit) res" where
  "hysteria2_check p =
     (if (case v_str p ''hop-interval'' of None \<Rightarrow> False | Some s \<Rightarrow> \<not> hop_interval_ok s)
      then Inl HopIntervalInvalid
      else checkEndpoint (v_str p ''server'') (v_int p ''port'') (v_str p ''ports'' \<noteq> None))"

definition mieru_check :: "fields_val \<Rightarrow> (proxy_error, unit) res" where
  "mieru_check p = checkEndpoint (v_str p ''server'') (v_int p ''port'') (v_str p ''port-range'' \<noteq> None)"

fun peers_check :: "nat \<Rightarrow> val list \<Rightarrow> (proxy_error, unit) res" where
  "peers_check i [] = Inr ()"
| "peers_check i (peer # peers) =
     (let m = (case peer of VStruct m \<Rightarrow> m | _ \<Rightarrow> [])
      in case checkEndpoint (v_str m ''server'') (v_int m ''port'') False of
           Inl e \<Rightarrow> Inl (PeerError (i + 1) e)
         | Inr _ \<Rightarrow> peers_check (i + 1) peers)"

definition v_slice :: "fields_val \<Rightarrow> string \<Rightarrow> val list" where
  "v_slice m k = (case map_of m k of Some (VSlice vs) \<Rightarrow> vs | _ \<Rightarrow> [])"

definition wireguard_check :: "fields_val \<Rightarrow> (proxy_error, unit) res" where
  "wireguard_check p =
     bind_res (case v_struct p ''amnezia-wg-option'' of
                 None \<Rightarrow> Inr ()
               | Some a \<Rightarrow> (case amnezia_check a of Inl e \<Rightarrow> Inl (AmneziaError e) | Inr _ \<Rightarrow> Inr ()))
       (\<lambda>_. if v_slice p ''peers'' = []
            then checkEndpoint (v_str p ''server'') (v_int p ''port'') False
            else peers_check 0 (v_slice p ''peers''))"

definition snell_check :: "fields_val \<Rightarrow> (proxy_error, unit) res" where
  "snell_check p =
     (case Option.bind (v_struct p ''obfs-opts'') (\<lambda>obfs. v_str obfs ''mode'') of
        Some mode \<Rightarrow>
          if mode \<notin> {'''', ''tls'', ''http''} then Inl (ObfsModeNotSupported mode) else serverOpts_check p
      | None \<Rightarrow> serverOpts_check p)"

text \<open>The method \<^verbatim>\<open>check\<close> a type's struct has: its own, or the one promoted from the embedded
  \<^verbatim>\<open>serverOpts\<close>; \<^verbatim>\<open>direct\<close> embeds no server and has none. Only the shadowsocks check changes the
  struct.\<close>

definition checks :: "string \<Rightarrow> fields_val \<Rightarrow> (proxy_error, fields_val) res" where
  "checks ty p =
     (if ty = ''ss'' then shadowsocks_check p
      else bind_res
        (if ty = ''hysteria'' then hysteria_check p
         else if ty = ''hysteria2'' then hysteria2_check p
         else if ty = ''mieru'' then mieru_check p
         else if ty = ''wireguard'' then wireguard_check p
         else if ty = ''snell'' then snell_check p
         else if ty = ''direct'' then Inr ()
         else serverOpts_check p) (\<lambda>_. Inr p))"

text \<open>\<^verbatim>\<open>keyPairs\<close> deletes a certificate and key that do not load together, here and in every map
  below.\<close>

fun keyPairs :: "proxy_lib \<Rightarrow> bool \<Rightarrow> goval \<Rightarrow> goval" where
  "keyPairs L tls (GMap m) =
     (let cert = str_at m ''certificate''; key = str_at m ''private-key'';
          bad = (tls \<and> (cert \<noteq> None \<or> key \<noteq> None)
                 \<and> \<not> key_pair L (str_or_empty m ''certificate'') (str_or_empty m ''private-key''))
      in GMap (filter (\<lambda>(k, _). \<not> (bad \<and> (k = ''certificate'' \<or> k = ''private-key'')))
                 (map (\<lambda>(k, v). (k, keyPairs L True v)) m)))"
| "keyPairs L tls v = v"

definition options_of :: "goval \<Rightarrow> goval strmap" where
  "options_of v = (case v of GMap m \<Rightarrow> m | _ \<Rightarrow> [])"

definition Proxy :: "proxy_lib \<Rightarrow> goval strmap \<Rightarrow> (proxy_error, core_proxy) res" where
  "Proxy L m =
     (case Option.bind (map_of m ''name'') (optString L) of
        None \<Rightarrow> Inl NoName
      | Some name \<Rightarrow>
          if name = [] then Inl NoName
          else if str_or_empty m ''type'' = [] then Inl NoType
          else (case map_of proxyTypes (str_or_empty m ''type'') of
                  None \<Rightarrow> Inl (TypeNotSupported (str_or_empty m ''type''))
                | Some fs \<Rightarrow>
                    bind_res (readStruct L fs [] m) (\<lambda>v.
                    bind_res (checks (str_or_empty m ''type'') v) (\<lambda>v'.
                    Inr \<lparr>px_name = name, px_type = str_or_empty m ''type'',
                         px_options = options_of (keyPairs L
                           (str_or_empty m ''type'' \<noteq> ''ssh'' \<and> str_or_empty m ''type'' \<noteq> ''wireguard'')
                           (GMap (writeStruct v')))\<rparr>))))"

end
