(* ===== verification/Profile_Build.thy ===== *)
theory Profile_Build
  imports Proxy Rule_Lines Fetch
begin

text \<open>
  \<^verbatim>\<open>internal/profile/profile.go\<close>: a downloaded subscription read into a document, and the
  document with its providers' bodies built into the profile the core runs.

  \<open>build_lib\<close> extends \<^typ>\<open>proxy_lib\<close> with what the source calls outside this repository: the
  YAML decoder (one field per type it decodes into), the share-link reader handed to \<^verbatim>\<open>Read\<close>,
  the \<^verbatim>\<open>regexp2\<close> engine, the URL parser and Unicode's case tables. \<open>re_match n e s\<close> is the
  \<open>n\<close>-th match of one \<^verbatim>\<open>Build\<close>, \<open>None\<close> when the time all its filters share has run out.

  The builder's map of names is the list \<open>b_names\<close>; a message in the dropped list is the value
  \<open>drop\<close> that names what was left out and why.
\<close>

record document =
  d_proxies :: "goval strmap list"
  d_groups :: "goval strmap list"
  d_sub_rules :: "string list option strmap"
  d_rules :: "string list"
  d_proxy_providers :: "goval strmap strmap"
  d_rule_providers :: "goval strmap strmap"
  d_wrapped :: bool

record build_lib = proxy_lib +
  yaml_top :: "string \<Rightarrow> goval strmap option"
  yaml_document :: "string \<Rightarrow> document option"
  yaml_proxies :: "string \<Rightarrow> goval strmap list option"
  yaml_payload :: "string \<Rightarrow> goval option"
  share_links :: "string \<Rightarrow> goval strmap list option"
  re_compile :: "string \<Rightarrow> bool"
  re_match :: "nat \<Rightarrow> string \<Rightarrow> string \<Rightarrow> bool option"
  url_parse :: "string \<Rightarrow> (string \<times> string) option"
  uni_upper :: "string \<Rightarrow> string"
  uni_lower :: "string \<Rightarrow> string"

abbreviation plib :: "build_lib \<Rightarrow> proxy_lib" where
  "plib L \<equiv> proxy_lib.truncate L"

datatype name_error = NameShape | NameSpaceOrComma | NameReserved

datatype drop_why =
    WhyProxy proxy_error
  | WhyName name_error
  | WhyNotCompiled string
  | WhyNotList
  | WhyLineNotString
  | WhyNotHTTPS
  | WhyKind
  | WhyBehavior string
  | WhyFormat string
  | WhyTestURL
  | WhyNotWhole string
  | WhyStrategy string
  | WhyMalformed
  | WhyRuleType string
  | WhyNoSubRule string
  | WhyNoTarget string
  | WhyNoRuleSet string

datatype drop =
    DropProxy nat drop_why
  | DropProxyTaken string
  | DropProvider string drop_why
  | DropProviderProxy string nat drop_why
  | DropGroup nat drop_why
  | DropGroupType string string
  | DropGroupTaken string
  | DropGroupOptions string drop_why
  | DropMember string nat
  | DropNoProvider string string
  | DropRuleProvider string drop_why
  | DropRule nat drop_why

datatype build_error =
    NotConfigNorLinks
  | YamlNotConfig
  | TooManyEntries
  | ProviderNotDownloaded string
  | ProviderUnreadable string
  | FiltersTooSlow
  | TooManyProviderProxies
  | NoneCanRun
  | ProxyNamedWrapper
  | GroupFilterInvalid string drop_why
  | GroupEmpty string
  | RuleProviderNotDownloaded string
  | RuleProviderUnreadable string
  | SubRuleLimits
  | SubRuleMalformed
  | NoProxies

record download_item =
  dl_kind :: string
  dl_name :: string
  dl_url :: string

definition Key :: "string \<Rightarrow> string \<Rightarrow> string" where
  "Key kind name = kind @ '':'' @ name"

definition structural :: "string list" where
  "structural = [''proxies'', ''proxy-providers'', ''proxy-groups'', ''rules'', ''sub-rules'', ''rule-providers'',
     ''dns'', ''tun'']"

definition Read :: "build_lib \<Rightarrow> string \<Rightarrow> (build_error, document) res" where
  "Read L body0 =
     (let bom = [CHR 0xEF, CHR 0xBB, CHR 0xBF];
          body = (if has_prefix body0 bom then drop 3 body0 else body0)
      in if (case yaml_top L body of
               Some m \<Rightarrow> list_ex (\<lambda>k. map_of m k \<noteq> None) structural
             | None \<Rightarrow> False)
         then (case yaml_document L body of
                 None \<Rightarrow> Inl YamlNotConfig
               | Some d \<Rightarrow> Inr (d\<lparr>d_wrapped := (d_groups d = [] \<and> d_rules d = [])\<rparr>))
         else (case share_links L body of
                 Some (px # pxs) \<Rightarrow>
                   Inr \<lparr>d_proxies = px # pxs, d_groups = [], d_sub_rules = [], d_rules = [], d_proxy_providers = [],
                        d_rule_providers = [], d_wrapped = True\<rparr>
               | _ \<Rightarrow> Inl NotConfigNorLinks))"

definition behaviors :: "string list" where
  "behaviors = [''domain'', ''ipcidr'', ''classical'']"

definition modelledRuleSet :: "goval strmap \<Rightarrow> bool" where
  "modelledRuleSet def \<longleftrightarrow>
     str_or_empty def ''behavior'' \<in> set behaviors
     \<and> (str_or_empty def ''format'' = [] \<or> str_or_empty def ''format'' = ''yaml'' \<or> str_or_empty def ''format'' = ''text'')"

definition type_is :: "goval strmap \<Rightarrow> string \<Rightarrow> bool" where
  "type_is def ty \<longleftrightarrow> map_of def ''type'' = Some (GStr ty)"

definition downloads_of :: "build_lib \<Rightarrow> string \<Rightarrow> goval strmap strmap \<Rightarrow> download_item list" where
  "downloads_of L kind providers =
     List.map_filter (\<lambda>name.
        let p = the (map_of providers name); url = str_or_empty p ''url''
        in if type_is p ''http'' \<and> CheckURL (url_parse L) url = None \<and> (kind = ''proxy'' \<or> modelledRuleSet p)
           then Some \<lparr>dl_kind = kind, dl_name = name, dl_url = url\<rparr> else None) (sorted_keys providers)"

definition Downloads :: "build_lib \<Rightarrow> document \<Rightarrow> download_item list" where
  "Downloads L d = downloads_of L ''proxy'' (d_proxy_providers d) @ downloads_of L ''rule'' (d_rule_providers d)"

subsection \<open>Names and limits\<close>

definition maxName :: nat where "maxName = 256"
definition maxProxies :: nat where "maxProxies = 20000"
definition maxGroups :: nat where "maxGroups = 2000"
definition maxRules :: nat where "maxRules = 200000"

definition builtins :: "string list" where
  "builtins = [''DIRECT'', ''REJECT'', ''REJECT-DROP'', ''PASS'', ''COMPATIBLE'']"

definition wrapperGroup :: string where "wrapperGroup = ''Proxy''"

definition checkName :: "string \<Rightarrow> name_error option" where
  "checkName name =
     (if name = [] \<or> length name > maxName \<or> has_control name then Some NameShape
      else if name \<noteq> trim_space name \<or> CHR '','' \<in> set name then Some NameSpaceOrComma
      else if name = ''GLOBAL'' \<or> name \<in> set builtins then Some NameReserved
      else None)"

record builder =
  b_names :: "string list"
  b_dropped :: "drop list"
  b_proxies :: "core_proxy list"
  b_topLevel :: nat
  b_fromProvider :: "string list strmap"
  b_matches :: nat

definition dropping :: "drop \<Rightarrow> builder \<Rightarrow> builder" where
  "dropping x b = b\<lparr>b_dropped := b_dropped b @ [x]\<rparr>"

text \<open>\<^verbatim>\<open>unique\<close>. The loop ends: only finitely many names are taken, and no two numbers give the
  same candidate.\<close>

definition candidate :: "string \<Rightarrow> nat \<Rightarrow> string" where
  "candidate name i = name @ '' '' @ itoa_nat i"

lemma candidate_inj: "candidate name i = candidate name j \<Longrightarrow> i = j"
  by (simp add: candidate_def itoa_nat_inj)

lemma finite_taken: "finite {j. i \<le> j \<and> candidate name j \<in> set names}"
proof (rule finite_imageD)
  show "finite (candidate name ` {j. i \<le> j \<and> candidate name j \<in> set names})"
    by (rule finite_subset[of _ "set names"]) auto
  show "inj_on (candidate name) {j. i \<le> j \<and> candidate name j \<in> set names}"
    by (auto simp: inj_on_def dest: candidate_inj)
qed

function unique_from :: "string list \<Rightarrow> string \<Rightarrow> nat \<Rightarrow> string" where
  "unique_from names name i =
     (if candidate name i \<in> set names then unique_from names name (Suc i) else candidate name i)"
  by pat_completeness auto
termination
proof (relation "measure (\<lambda>(names, name, i). card {j. i \<le> j \<and> candidate name j \<in> set names})", goal_cases)
  case 1
  then show ?case by simp
next
  case (2 names name i)
  let ?A = "{j. Suc i \<le> j \<and> candidate name j \<in> set names}"
  let ?B = "{j. i \<le> j \<and> candidate name j \<in> set names}"
  have "?A \<subseteq> ?B" by auto
  moreover have "i \<in> ?B" "i \<notin> ?A" using 2 by simp_all
  ultimately have "?A \<subset> ?B" by blast
  then show ?case using psubset_card_mono[OF finite_taken] by simp
qed

declare unique_from.simps [simp del]

definition unique :: "string list \<Rightarrow> string \<Rightarrow> string" where
  "unique names name = (if name \<in> set names then unique_from names name 2 else name)"

lemma unique_from_fresh: "unique_from names name i \<notin> set names"
proof (induction names name i rule: unique_from.induct)
  case (1 names name i)
  then show ?case by (subst unique_from.simps) simp
qed

lemma unique_fresh: "unique names name \<notin> set names"
  by (simp add: unique_def unique_from_fresh)

lemma unique_from_candidate: "\<exists>j \<ge> i. unique_from names name i = candidate name j"
proof (induction names name i rule: unique_from.induct)
  case (1 names name i)
  then show ?case by (subst unique_from.simps) (metis Suc_leD order_refl)
qed

subsection \<open>Filters\<close>

record filter_spec =
  f_include :: "string list"
  f_exclude :: "string list"
  f_excludeTypes :: "string list"

definition filter_exprs :: "goval strmap \<Rightarrow> string \<Rightarrow> string list" where
  "filter_exprs def key = filter (\<lambda>e. e \<noteq> []) (split_on (CHR 0x60) (str_or_empty def key))"

definition newFilter :: "build_lib \<Rightarrow> goval strmap \<Rightarrow> (drop_why, filter_spec) res" where
  "newFilter L def =
     (if \<not> list_all (re_compile L) (filter_exprs def ''filter'') then Inl (WhyNotCompiled ''filter'')
      else if \<not> list_all (re_compile L) (filter_exprs def ''exclude-filter'') then Inl (WhyNotCompiled ''exclude-filter'')
      else Inr \<lparr>f_include = filter_exprs def ''filter'', f_exclude = filter_exprs def ''exclude-filter'',
             f_excludeTypes = (if str_or_empty def ''exclude-type'' = [] then []
               else map (\<lambda>t. to_lower (uni_lower L) (trim_space t)) (split_on (CHR ''|'') (str_or_empty def ''exclude-type'')))\<rparr>)"

text \<open>A match takes the number of matches made so far and returns the next number.\<close>

fun match_any :: "build_lib \<Rightarrow> string list \<Rightarrow> string \<Rightarrow> nat \<Rightarrow> (build_error, bool \<times> nat) res" where
  "match_any L [] name n = Inr (False, n)"
| "match_any L (re # res) name n =
     (case re_match L n re name of
        None \<Rightarrow> Inl FiltersTooSlow
      | Some True \<Rightarrow> Inr (True, Suc n)
      | Some False \<Rightarrow> match_any L res name (Suc n))"

definition keep :: "build_lib \<Rightarrow> filter_spec \<Rightarrow> string \<Rightarrow> string \<Rightarrow> nat \<Rightarrow> (build_error, bool \<times> nat) res" where
  "keep L f name ty n =
     (if to_lower (uni_lower L) ty \<in> set (f_excludeTypes f) then Inr (False, n)
      else bind_res (if f_include f \<noteq> [] then match_any L (f_include f) name n else Inr (True, n)) (\<lambda>(ok, n').
           if \<not> ok then Inr (False, n')
           else bind_res (match_any L (f_exclude f) name n') (\<lambda>(excluded, n''). Inr (\<not> excluded, n''))))"

subsection \<open>Proxies\<close>

definition add_top_proxy :: "build_lib \<Rightarrow> nat \<times> goval strmap \<Rightarrow> builder \<Rightarrow> builder" where
  "add_top_proxy L im b =
     (case Proxy (plib L) (snd im) of
        Inl e \<Rightarrow> dropping (DropProxy (fst im + 1) (WhyProxy e)) b
      | Inr px \<Rightarrow>
          (case checkName (px_name px) of
             Some e \<Rightarrow> dropping (DropProxy (fst im + 1) (WhyName e)) b
           | None \<Rightarrow>
               if px_name px \<in> set (b_names b) then dropping (DropProxyTaken (px_name px)) b
               else b\<lparr>b_names := px_name px # b_names b, b_proxies := b_proxies b @ [px]\<rparr>))"

definition providerProxies :: "build_lib \<Rightarrow> string \<Rightarrow> goval strmap list option" where
  "providerProxies L body =
     (case yaml_proxies L body of
        Some (x # xs) \<Rightarrow> Some (x # xs)
      | _ \<Rightarrow> (case share_links L body of Some (x # xs) \<Rightarrow> Some (x # xs) | _ \<Rightarrow> None))"

datatype raw_provider = RawDropped drop_why | RawFailed build_error | RawList "goval strmap list"

definition provider_raw :: "build_lib \<Rightarrow> string strmap \<Rightarrow> string \<Rightarrow> goval strmap \<Rightarrow> raw_provider" where
  "provider_raw L bodies name def =
     (if type_is def ''inline'' then
        (case list_at def ''payload'' of
           None \<Rightarrow> RawDropped WhyNotList
         | Some xs \<Rightarrow> RawList (List.map_filter (\<lambda>v. case v of GMap m \<Rightarrow> Some m | _ \<Rightarrow> None) xs))
      else if type_is def ''http'' then
        (if CheckURL (url_parse L) (str_or_empty def ''url'') \<noteq> None then RawDropped WhyNotHTTPS
         else case map_of bodies (Key ''proxy'' name) of
                None \<Rightarrow> RawFailed (ProviderNotDownloaded name)
              | Some body \<Rightarrow>
                  (case providerProxies L body of
                     None \<Rightarrow> RawFailed (ProviderUnreadable name)
                   | Some raw \<Rightarrow> RawList raw))
      else RawDropped WhyKind)"

definition override_names :: "goval strmap \<Rightarrow> string \<times> string" where
  "override_names def =
     (case map_at def ''override'' of
        None \<Rightarrow> ([], [])
      | Some ov \<Rightarrow> (str_or_empty ov ''additional-prefix'', str_or_empty ov ''additional-suffix''))"

definition add_provider_proxy ::
  "build_lib \<Rightarrow> string \<Rightarrow> filter_spec \<Rightarrow> string \<times> string \<Rightarrow> nat \<times> goval strmap \<Rightarrow> builder \<times> string list
     \<Rightarrow> (build_error, builder \<times> string list) res" where
  "add_provider_proxy L name f affix im st =
     (let b = fst st
      in case Proxy (plib L) (snd im) of
           Inl e \<Rightarrow> Inr (dropping (DropProviderProxy name (fst im + 1) (WhyProxy e)) b, snd st)
         | Inr px0 \<Rightarrow>
             let px = px0\<lparr>px_name := fst affix @ px_name px0 @ snd affix\<rparr>
             in case checkName (px_name px) of
                  Some e \<Rightarrow> Inr (dropping (DropProviderProxy name (fst im + 1) (WhyName e)) b, snd st)
                | None \<Rightarrow>
                    bind_res (keep L f (px_name px) (px_type px) (b_matches b)) (\<lambda>(kept, n).
                      if \<not> kept then Inr (b\<lparr>b_matches := n\<rparr>, snd st)
                      else if length (b_proxies b) \<ge> maxProxies then Inl TooManyProviderProxies
                      else let fresh = unique (b_names b) (px_name px)
                           in Inr (b\<lparr>b_names := fresh # b_names b, b_matches := n,
                                      b_proxies := b_proxies b @ [px\<lparr>px_name := fresh\<rparr>]\<rparr>, snd st @ [fresh])))"

definition add_provider :: "build_lib \<Rightarrow> document \<Rightarrow> string strmap \<Rightarrow> string \<Rightarrow> builder \<Rightarrow> (build_error, builder) res" where
  "add_provider L d bodies name b =
     (let def = the (map_of (d_proxy_providers d) name)
      in case provider_raw L bodies name def of
           RawDropped why \<Rightarrow> Inr (dropping (DropProvider name why) b)
         | RawFailed e \<Rightarrow> Inl e
         | RawList raw \<Rightarrow>
             (case newFilter L def of
                Inl why \<Rightarrow> Inr (dropping (DropProvider name why) b)
              | Inr f \<Rightarrow>
                  bind_res (fold_res (add_provider_proxy L name f (override_names def)) (enumerate 0 raw) (b, []))
                    (\<lambda>(b', names). Inr (b'\<lparr>b_fromProvider := (name, names) # b_fromProvider b'\<rparr>))))"

definition providers :: "build_lib \<Rightarrow> document \<Rightarrow> string strmap \<Rightarrow> builder \<Rightarrow> (build_error, builder) res" where
  "providers L d bodies b =
     fold_res (add_provider L d bodies) (sorted_keys (d_proxy_providers d)) (b\<lparr>b_fromProvider := []\<rparr>)"

subsection \<open>Groups\<close>

definition groupTypes :: "string list" where
  "groupTypes = [''select'', ''url-test'', ''fallback'', ''load-balance'']"

definition strategies :: "string list" where
  "strategies = [''consistent-hashing'', ''round-robin'', ''sticky-sessions'']"

definition wholeNumber :: "goval \<Rightarrow> int option" where
  "wholeNumber v = (case v of
     GInt n \<Rightarrow> Some n
   | GStr s \<Rightarrow> parse_int (trim_space s)
   | GFloat f \<Rightarrow> (case float_int f of
       Some n \<Rightarrow> if - (2 ^ 63) \<le> n \<and> n < 2 ^ 63 then Some n else None
     | None \<Rightarrow> None)
   | _ \<Rightarrow> None)"

fun number_options :: "string list \<Rightarrow> goval strmap \<Rightarrow> (drop_why, goval strmap) res" where
  "number_options [] def = Inr []"
| "number_options (key # keys) def =
     (case map_of def key of
        None \<Rightarrow> number_options keys def
      | Some v \<Rightarrow>
          (case wholeNumber v of
             None \<Rightarrow> Inl (WhyNotWhole key)
           | Some n \<Rightarrow> bind_res (number_options keys def) (\<lambda>opts. Inr ((key, GInt n) # opts))))"

definition bool_option :: "goval strmap \<Rightarrow> string \<Rightarrow> goval strmap" where
  "bool_option def key = (case bool_at def key of Some v \<Rightarrow> [(key, GBool v)] | None \<Rightarrow> [])"

definition groupOptions :: "string \<Rightarrow> goval strmap \<Rightarrow> (drop_why, goval strmap) res" where
  "groupOptions ty def =
     bind_res
       (if ty = ''select'' then Inr []
        else if (case str_at def ''url'' of
                   Some u \<Rightarrow> \<not> has_prefix u ''https://'' \<and> \<not> has_prefix u ''http://''
                 | None \<Rightarrow> False)
        then Inl WhyTestURL
        else bind_res (number_options [''interval'', ''timeout'', ''tolerance'', ''max-failed-times''] def) (\<lambda>nums.
          Inr ((case str_at def ''url'' of Some u \<Rightarrow> [(''url'', GStr u)] | None \<Rightarrow> [])
               @ nums @ bool_option def ''lazy''
               @ (case map_of def ''expected-status'' of
                    Some (GStr s) \<Rightarrow> [(''expected-status'', GStr s)]
                  | Some (GInt n) \<Rightarrow> [(''expected-status'', GStr (itoa n))]
                  | _ \<Rightarrow> []))))
       (\<lambda>auto_opts.
         bind_res
           (if ty = ''load-balance'' then
              (case str_at def ''strategy'' of
                 None \<Rightarrow> Inr []
               | Some s \<Rightarrow> if s \<notin> set strategies then Inl (WhyStrategy s) else Inr [(''strategy'', GStr s)])
            else Inr [])
           (\<lambda>strategy. Inr (auto_opts @ strategy @ bool_option def ''disable-udp'' @ bool_option def ''hidden'')))"

record pending =
  pd_group :: core_group
  pd_def :: "goval strmap"

definition add_pending :: "nat \<times> goval strmap \<Rightarrow> builder \<times> pending list \<Rightarrow> builder \<times> pending list" where
  "add_pending im st =
     (let b = fst st; def = snd im; name = str_or_empty def ''name''; ty = str_or_empty def ''type''
      in case checkName name of
           Some e \<Rightarrow> (dropping (DropGroup (fst im + 1) (WhyName e)) b, snd st)
         | None \<Rightarrow>
             if ty \<notin> set groupTypes then (dropping (DropGroupType name ty) b, snd st)
             else if name \<in> set (b_names b) then (dropping (DropGroupTaken name) b, snd st)
             else (case groupOptions ty def of
                     Inl why \<Rightarrow> (dropping (DropGroupOptions name why) b, snd st)
                   | Inr opts \<Rightarrow>
                       (b\<lparr>b_names := name # b_names b\<rparr>,
                        snd st @ [\<lparr>pd_group = \<lparr>g_name = name, g_type = ty, g_members = [], g_options = opts\<rparr>,
                                   pd_def = def\<rparr>])))"

text \<open>\<^verbatim>\<open>add\<close>: the map \<^verbatim>\<open>seen\<close> holds exactly the members added so far.\<close>

definition add_member :: "string \<Rightarrow> string list \<Rightarrow> string list" where
  "add_member name members = (if name \<in> set members then members else members @ [name])"

definition listed_member :: "string \<Rightarrow> nat \<times> goval \<Rightarrow> builder \<times> string list \<Rightarrow> builder \<times> string list" where
  "listed_member gname iv st =
     (let name = (case snd iv of GStr s \<Rightarrow> s | _ \<Rightarrow> [])
      in if name \<in> set (b_names (fst st)) \<and> name \<noteq> gname then (fst st, add_member name (snd st))
         else (dropping (DropMember gname (fst iv + 1)) (fst st), snd st))"

definition filtered_member :: "build_lib \<Rightarrow> filter_spec \<Rightarrow> string \<times> string \<Rightarrow> builder \<times> string list
    \<Rightarrow> (build_error, builder \<times> string list) res" where
  "filtered_member L f nt st =
     bind_res (keep L f (fst nt) (snd nt) (b_matches (fst st))) (\<lambda>(kept, n).
       Inr ((fst st)\<lparr>b_matches := n\<rparr>, if kept then add_member (fst nt) (snd st) else snd st))"

definition type_of_name :: "builder \<Rightarrow> string \<Rightarrow> string" where
  "type_of_name b name =
     (case map_of (rev (map (\<lambda>px. (px_name px, px_type px)) (b_proxies b))) name of Some t \<Rightarrow> t | None \<Rightarrow> [])"

definition provider_members :: "build_lib \<Rightarrow> filter_spec \<Rightarrow> string \<Rightarrow> string \<Rightarrow> builder \<times> string list
    \<Rightarrow> (build_error, builder \<times> string list) res" where
  "provider_members L f gname provider st =
     (case map_of (b_fromProvider (fst st)) provider of
        None \<Rightarrow> Inr (dropping (DropNoProvider gname provider) (fst st), snd st)
      | Some names \<Rightarrow>
          fold_res (filtered_member L f) (map (\<lambda>n. (n, type_of_name (fst st) n)) names) st)"

definition is_true :: "goval strmap \<Rightarrow> string \<Rightarrow> bool" where
  "is_true def key \<longleftrightarrow> map_of def key = Some (GBool True)"

definition group_providers :: "builder \<Rightarrow> goval strmap \<Rightarrow> string list" where
  "group_providers b def =
     (if is_true def ''include-all'' \<or> is_true def ''include-all-providers'' then sorted_keys (b_fromProvider b)
      else case list_at def ''use'' of
             Some use \<Rightarrow> List.map_filter (\<lambda>v. case v of GStr s \<Rightarrow> Some s | _ \<Rightarrow> None) use
           | None \<Rightarrow> [])"

definition expand_group :: "build_lib \<Rightarrow> pending \<Rightarrow> builder \<times> core_group list
    \<Rightarrow> (build_error, builder \<times> core_group list) res" where
  "expand_group L p st =
     (let g = pd_group p; def = pd_def p;
          listed = fold (listed_member (g_name g))
                     (enumerate 0 (case list_at def ''proxies'' of Some xs \<Rightarrow> xs | None \<Rightarrow> [])) (fst st, [])
      in case newFilter L def of
           Inl why \<Rightarrow> Inl (GroupFilterInvalid (g_name g) why)
         | Inr f \<Rightarrow>
             bind_res
               (if is_true def ''include-all'' \<or> is_true def ''include-all-proxies''
                then fold_res (filtered_member L f)
                       (map (\<lambda>px. (px_name px, px_type px)) (take (b_topLevel (fst st)) (b_proxies (fst st)))) listed
                else Inr listed)
               (\<lambda>st1. bind_res (fold_res (provider_members L f (g_name g)) (group_providers (fst st1) def) st1)
               (\<lambda>st2. if snd st2 = [] then Inl (GroupEmpty (g_name g))
                      else Inr (fst st2, snd st @ [g\<lparr>g_members := snd st2\<rparr>]))))"

definition groups :: "build_lib \<Rightarrow> document \<Rightarrow> builder \<Rightarrow> (build_error, builder \<times> core_group list) res" where
  "groups L d b =
     (let st = fold add_pending (enumerate 0 (d_groups d)) (b, [])
      in fold_res (expand_group L) (snd st) (fst st, []))"

subsection \<open>Rule sets and rules\<close>

definition payload_lines :: "goval option \<Rightarrow> (drop_why, string list) res" where
  "payload_lines v = (case v of
     Some (GList xs) \<Rightarrow>
       bind_res (map_res (\<lambda>x. case x of GStr s \<Rightarrow> Inr s | _ \<Rightarrow> Inl WhyLineNotString) xs) (\<lambda>ss.
         Inr (filter (\<lambda>s. s \<noteq> [] \<and> \<not> contains_any s [CHR 0x0D, CHR 0x0A]) (map trim_space ss)))
   | _ \<Rightarrow> Inl WhyNotList)"

definition text_lines :: "string \<Rightarrow> string list" where
  "text_lines body =
     filter (\<lambda>l. l \<noteq> [] \<and> \<not> has_prefix l ''#'') (map trim_space (split_on (CHR 0x0A) body))"

definition rule_set_payload :: "build_lib \<Rightarrow> string strmap \<Rightarrow> string \<Rightarrow> goval strmap
    \<Rightarrow> (build_error, (drop_why, string list) res) res" where
  "rule_set_payload L bodies name def =
     (let format = str_or_empty def ''format''
      in if type_is def ''inline'' then Inr (payload_lines (map_of def ''payload''))
         else if type_is def ''http'' then
           (if CheckURL (url_parse L) (str_or_empty def ''url'') \<noteq> None then Inr (Inl WhyNotHTTPS)
            else if format \<noteq> [] \<and> format \<noteq> ''yaml'' \<and> format \<noteq> ''text'' then Inr (Inl (WhyFormat format))
            else case map_of bodies (Key ''rule'' name) of
                   None \<Rightarrow> Inl (RuleProviderNotDownloaded name)
                 | Some body \<Rightarrow>
                     if format = [] \<or> format = ''yaml'' then
                       (case yaml_payload L body of
                          None \<Rightarrow> Inl (RuleProviderUnreadable name)
                        | Some v \<Rightarrow>
                            (case payload_lines (Some v) of
                               Inl _ \<Rightarrow> Inl (RuleProviderUnreadable name)
                             | Inr ls \<Rightarrow> Inr (Inr ls)))
                     else Inr (Inr (text_lines body)))
         else Inr (Inl WhyKind))"

definition add_rule_set :: "build_lib \<Rightarrow> document \<Rightarrow> string strmap \<Rightarrow> string \<Rightarrow> builder \<times> core_rule_set list
    \<Rightarrow> (build_error, builder \<times> core_rule_set list) res" where
  "add_rule_set L d bodies name st =
     (let def = the (map_of (d_rule_providers d) name); behavior = str_or_empty def ''behavior''
      in if behavior \<notin> set behaviors
         then Inr (dropping (DropRuleProvider name (WhyBehavior behavior)) (fst st), snd st)
         else bind_res (rule_set_payload L bodies name def) (\<lambda>payload.
                case payload of
                  Inl why \<Rightarrow> Inr (dropping (DropRuleProvider name why) (fst st), snd st)
                | Inr ls \<Rightarrow>
                    Inr (fst st, snd st @ [\<lparr>rs_name = name, rs_behavior = behavior, rs_payload = ls\<rparr>])))"

definition ruleSets :: "build_lib \<Rightarrow> document \<Rightarrow> string strmap \<Rightarrow> builder
    \<Rightarrow> (build_error, builder \<times> core_rule_set list) res" where
  "ruleSets L d bodies b = fold_res (add_rule_set L d bodies) (sorted_keys (d_rule_providers d)) (b, [])"

definition parse_sub_rule :: "build_lib \<Rightarrow> string \<Rightarrow> (build_error, core_rule) res" where
  "parse_sub_rule L line =
     (case ParseRule (uni_upper L) line of
        Inl _ \<Rightarrow> Inl SubRuleMalformed
      | Inr r \<Rightarrow> if r_type r \<notin> set ruleTypes then Inl SubRuleMalformed else Inr (r\<lparr>r_source := SourceSubscription\<rparr>))"

definition add_sub_rules :: "build_lib \<Rightarrow> string \<times> string list option \<Rightarrow> core_rule list strmap
    \<Rightarrow> (build_error, core_rule list strmap) res" where
  "add_sub_rules L nl acc =
     (let ls = (case snd nl of Some ls \<Rightarrow> ls | None \<Rightarrow> [])
      in if length (fst nl) > 256 \<or> length ls > maxRules \<or> length acc \<ge> 1000 then Inl SubRuleLimits
         else bind_res (map_res (parse_sub_rule L) ls) (\<lambda>rs.
                Inr (if rs = [] then acc else acc @ [(fst nl, rs)])))"

definition add_rule :: "build_lib \<Rightarrow> document \<Rightarrow> core_rule_set list \<Rightarrow> nat \<times> string \<Rightarrow> builder \<times> core_rule list
    \<Rightarrow> builder \<times> core_rule list" where
  "add_rule L d sets il st =
     (let b = fst st; dropped = (\<lambda>why. (dropping (DropRule (fst il + 1) why) b, snd st))
      in case ParseRule (uni_upper L) (snd il) of
           Inl _ \<Rightarrow> dropped WhyMalformed
         | Inr r \<Rightarrow>
             if r_type r \<notin> set ruleTypes then dropped (WhyRuleType (r_type r))
             else if r_type r = ''SUB-RULE'' \<and> (case map_of (d_sub_rules d) (r_target r) of Some (Some _) \<Rightarrow> False | _ \<Rightarrow> True)
             then dropped (WhyNoSubRule (r_target r))
             else if r_type r \<noteq> ''SUB-RULE'' \<and> r_target r \<notin> set (b_names b) \<and> r_target r \<noteq> ''GLOBAL''
             then dropped (WhyNoTarget (r_target r))
             else if r_type r = ''RULE-SET'' \<and> \<not> list_ex (\<lambda>s. rs_name s = r_value r) sets
             then dropped (WhyNoRuleSet (r_value r))
             else (b, snd st @ [r\<lparr>r_params := filter (\<lambda>p. p \<in> set ruleParams) (r_params r),
                                  r_source := SourceSubscription\<rparr>]))"

definition rules :: "build_lib \<Rightarrow> document \<Rightarrow> core_rule_set list \<Rightarrow> builder \<Rightarrow> builder \<times> core_rule list" where
  "rules L d sets b = fold (add_rule L d sets) (enumerate 0 (d_rules d)) (b, [])"

subsection \<open>Build\<close>

definition new_builder :: builder where
  "new_builder = \<lparr>b_names = builtins, b_dropped = [], b_proxies = [], b_topLevel = 0, b_fromProvider = [], b_matches = 0\<rparr>"

definition wrapped_profile :: "builder \<Rightarrow> core_profile" where
  "wrapped_profile b =
     empty_profile\<lparr>p_groups := [\<lparr>g_name = wrapperGroup, g_type = ''select'', g_members = map px_name (b_proxies b), g_options = []\<rparr>],
       p_rules := [\<lparr>r_type = ''MATCH'', r_value = [], r_target = wrapperGroup, r_params = [], r_source = SourceSubscription\<rparr>],
       p_proxies := b_proxies b\<rparr>"

definition build_config :: "build_lib \<Rightarrow> document \<Rightarrow> string strmap \<Rightarrow> builder \<Rightarrow> (build_error, core_profile \<times> drop list) res" where
  "build_config L d bodies b0 =
     bind_res (groups L d b0) (\<lambda>(b1, gs).
     bind_res (ruleSets L d bodies b1) (\<lambda>(b2, sets).
     bind_res (fold_res (add_sub_rules L) (d_sub_rules d) []) (\<lambda>subs.
       let (b3, rs) = rules L d sets b2
       in if gs = [] \<and> b_proxies b0 = [] then Inl NoProxies
          else Inr (\<lparr>p_proxies = b_proxies b0, p_groups = gs, p_sub_rules = subs, p_rules = rs, p_rule_sets = sets\<rparr>,
                    b_dropped b3))))"

definition Build :: "build_lib \<Rightarrow> document \<Rightarrow> string strmap \<Rightarrow> (build_error, core_profile \<times> drop list) res" where
  "Build L d bodies =
     (if length (d_proxies d) > maxProxies \<or> length (d_groups d) > maxGroups \<or> length (d_rules d) > maxRules
      then Inl TooManyEntries
      else let b = fold (add_top_proxy L) (enumerate 0 (d_proxies d)) new_builder
           in bind_res (providers L d bodies (b\<lparr>b_topLevel := length (b_proxies b)\<rparr>)) (\<lambda>b'.
                if d_wrapped d then
                  (if b_proxies b' = [] then Inl NoneCanRun
                   else if wrapperGroup \<in> set (b_names b') then Inl ProxyNamedWrapper
                   else Inr (wrapped_profile b', b_dropped b'))
                else build_config L d bodies b'))"

end
