(* ===== verification/Migration.thy ===== *)
theory Migration
  imports Store Run_Config Headers Profile_Build
begin

text \<open>
  \<^verbatim>\<open>internal/migration\<close>: the one-time import of an older installation. \<open>Prepare\<close> reads the old state, a function from names
  to files that the import never changes, and writes a staged state directory; \<open>Commit\<close> swaps the directories and \<open>Rollback\<close>
  swaps them back. Decoders, hashes, the profile reader's libraries, the network and the core's own imports are parameters.
\<close>

subsection \<open>Reading the old state\<close>

datatype old_file = OldAbsent | OldUnreadable | OldIrregular | OldFile nat string

datatype import_error = OldNotExist | OldReadError | NotRegular | OverLimit | OldLocked
  | BadRecords | StateExists | StateUnreadable | StageFailed | BadOverride | BadMode | BadGroup | RawRules | MalformedOldRule
  | RawOldRule | UntypedOldRule | BadOldCidr | BadOldDomain | TooManyOldRules
  | BadOldName nat | NotHttps nat | BadRequests nat | PausedRequests nat | BadCache nat import_error
  | CacheMalformed | NotACache | CacheUnparsed | TooManyProviders | ProviderUnavailable string | CacheUnusable
  | ActiveMissing | RunningWithoutActive | EmptyCacheDb | NoExporter | ExportFailed | SelectionLimits | SelectionNames
  | SelectionsFailed | GeodataFailed | SaveFailed msg | RefusesRoot | CorruptCacheDb | CacheDbLimits

text \<open>\<^verbatim>\<open>read\<close>: the size \<^verbatim>\<open>Stat\<close> reported may differ from what is read after it.\<close>

definition old_read :: "(string \<Rightarrow> old_file) \<Rightarrow> string \<Rightarrow> int \<Rightarrow> (import_error, string) res" where
  "old_read root name limit =
     (case root name of
        OldAbsent \<Rightarrow> Inl OldNotExist
      | OldUnreadable \<Rightarrow> Inl OldReadError
      | OldIrregular \<Rightarrow> Inl NotRegular
      | OldFile len b \<Rightarrow>
          if limit < 0 \<or> int len > limit then Inl OverLimit
          else let got = take (nat (limit + 1)) b
               in if int (length got) > limit then Inl OverLimit else Inr got)"

definition old_optional :: "(string \<Rightarrow> old_file) \<Rightarrow> string \<Rightarrow> int \<Rightarrow> (import_error, string option) res" where
  "old_optional root name limit =
     (case old_read root name limit of
        Inl OldNotExist \<Rightarrow> Inr None
      | Inl e \<Rightarrow> Inl e
      | Inr b \<Rightarrow> Inr (Some b))"

definition safeName :: "string \<Rightarrow> bool" where
  "safeName name \<longleftrightarrow> name \<noteq> [] \<and> length name \<le> 256 \<and> \<not> has_prefix name ''.'' \<and> trim_space name = name
     \<and> \<not> contains_any name [CHR ''/'', CHR 0x5C] \<and> \<not> has_control name"

text \<open>\<^verbatim>\<open>filepath.IsLocal\<close>: a relative path that never climbs above where it starts.\<close>

fun climbs :: "nat \<Rightarrow> string list \<Rightarrow> bool" where
  "climbs depth [] = False"
| "climbs depth (part # parts) =
     (if part = [] \<or> part = ''.'' then climbs depth parts
      else if part = ''..'' then (if depth = 0 then True else climbs (depth - 1) parts)
      else climbs (depth + 1) parts)"

definition IsLocal :: "string \<Rightarrow> bool" where
  "IsLocal path \<longleftrightarrow> path \<noteq> [] \<and> hd path \<noteq> CHR ''/'' \<and> \<not> climbs 0 (split_on (CHR ''/'') path)"

subsection \<open>What is decoded\<close>

record old_record =
  or_name :: string
  or_url :: string
  or_updated :: string
  or_hours :: int
  or_upload :: "int option"
  or_download :: "int option"
  or_total :: "int option"
  or_expire :: "int option"

record old_requests =
  oq_attempted :: "int option"
  oq_automatic :: "int option"
  oq_manual :: "int option"
  oq_paused :: "bool option"

record old_override =
  oo_mode :: string
  oo_tun :: bool
  oo_redirect :: bool
  oo_group :: string
  oo_tailscale :: bool
  oo_tailnet :: bool
  oo_prepend :: "string list"
  oo_append :: "string list"
  oo_filter :: "string list"

record old_provider =
  op_type :: string
  op_path :: string

record 'w import_env =
  im_records :: "string \<Rightarrow> old_record list option"
  im_requests :: "string \<Rightarrow> old_requests option"
  im_override :: "string \<Rightarrow> old_override option"
  im_providers :: "string \<Rightarrow> (old_provider strmap \<times> old_provider strmap) option"
  im_sha256 :: "string \<Rightarrow> string"
  im_md5 :: "string \<Rightarrow> string"
  im_time :: "string \<Rightarrow> int option"
  im_lib :: build_lib
  im_codec :: codec
  im_get :: "string \<Rightarrow> int \<Rightarrow> 'w \<Rightarrow> string option \<times> 'w"
  im_new_id :: "'w \<Rightarrow> string \<times> 'w"
  im_fault :: "'w \<Rightarrow> (write_fault \<times> string) \<times> 'w"
  im_export :: "(string \<Rightarrow> string strmap option) option"
  im_selections :: "core_profile \<Rightarrow> string strmap \<Rightarrow> 'w \<Rightarrow> bool \<times> 'w"
  im_geodata :: "core_profile \<Rightarrow> 'w \<Rightarrow> bool \<times> 'w"

subsection \<open>Request limits\<close>

definition max_seconds :: int where "max_seconds = 9007199254740991"

definition deadline_ok :: "int option \<Rightarrow> bool" where
  "deadline_ok d \<longleftrightarrow> (case d of None \<Rightarrow> False | Some n \<Rightarrow> 0 \<le> n \<and> n \<le> max_seconds)"

text \<open>\<^verbatim>\<open>requestState\<close> of the \<open>i\<close>-th subscription.\<close>

definition requestState ::
  "'w import_env \<Rightarrow> (string \<Rightarrow> old_file) \<Rightarrow> nat \<Rightarrow> subscription \<Rightarrow> (import_error, subscription) res" where
  "requestState M root i sub =
     (case old_optional root (''requests/'' @ im_sha256 M (sb_url sub) @ ''.json'') 4096 of
        Inl e \<Rightarrow> Inl (BadRequests i)
      | Inr None \<Rightarrow> Inr sub
      | Inr (Some body) \<Rightarrow>
          (case im_requests M body of
             None \<Rightarrow> Inl (BadRequests i)
           | Some old \<Rightarrow>
               if oq_paused old = None \<or> \<not> list_all deadline_ok [oq_attempted old, oq_automatic old, oq_manual old]
               then Inl (BadRequests i)
               else if oq_paused old = Some True then Inl (PausedRequests i)
               else let held = the (oq_manual old) * 1000
                    in Inr (sub\<lparr>sb_last_attempt := the (oq_attempted old) * 1000, sb_held_until := held,
                                sb_retry_at := max (the (oq_automatic old) * 1000) held\<rparr>)))"

subsection \<open>Settings\<close>

definition old_rule_types :: "string list" where
  "old_rule_types = [''DOMAIN-SUFFIX'', ''DOMAIN-KEYWORD'', ''IP-CIDR'', ''PROCESS-NAME'']"

text \<open>One line of \<^verbatim>\<open>old.Rules.Prepend\<close>.\<close>

definition old_rule :: "(string \<Rightarrow> string) \<Rightarrow> string \<Rightarrow> (import_error, rule_entry) res" where
  "old_rule uni line =
     (case ParseRule uni line of
        Inl e \<Rightarrow> Inl MalformedOldRule
      | Inr r \<Rightarrow>
          if r_type r \<notin> set old_rule_types then Inl RawOldRule
          else if r_target r = [] \<or> r_value r = [] \<or> trim_space (r_target r) \<noteq> r_target r
             \<or> trim_space (r_value r) \<noteq> r_value r \<or> r_params r \<noteq> [] \<or> length (r_value r) > 256
             \<or> length (r_target r) > 256 \<or> has_control (r_value r @ r_target r) then Inl UntypedOldRule
          else if r_type r = ''IP-CIDR'' \<and> ParsePrefix (r_value r) = None then Inl BadOldCidr
          else if (r_type r = ''DOMAIN-SUFFIX'' \<or> r_type r = ''DOMAIN-KEYWORD'')
             \<and> contains_any (r_value r) [CHR '' '', CHR ''/'', CHR 0x5C] then Inl BadOldDomain
          else Inr (RuleEntry (r_type r) (r_value r) (r_target r) (join '' '' (r_params r)) False None))"

text \<open>\<^verbatim>\<open>readSettings\<close> on the decoded override file.\<close>

definition typed_settings :: "(string \<Rightarrow> string) \<Rightarrow> old_override \<Rightarrow> (import_error, state_settings) res" where
  "typed_settings uni old =
     (let mode = (if oo_mode old \<noteq> [] then oo_mode old else s_mode (st_settings DefaultSettings))
      in if mode \<noteq> ''rule'' \<and> mode \<noteq> ''global'' \<and> mode \<noteq> ''direct'' then Inl BadMode
         else if length (oo_group old) > 256 \<or> has_control (oo_group old) then Inl BadGroup
         else if oo_append old \<noteq> [] \<or> oo_filter old \<noteq> [] then Inl RawRules
         else bind_res (map_res (old_rule uni) (oo_prepend old)) (\<lambda>rs.
           if length rs > 1000 then Inl TooManyOldRules
           else Inr (DefaultSettings\<lparr>st_settings := (st_settings DefaultSettings)\<lparr>s_mode := mode,
                   s_tun := oo_tun old, s_tun_redirect := oo_redirect old, s_primary_group := oo_group old,
                   s_tailscale := oo_tailscale old, s_tailnet_proxy := oo_tailnet old\<rparr>,
                 st_rules := rs\<rparr>)))"

definition readSettings :: "'w import_env \<Rightarrow> (string \<Rightarrow> old_file) \<Rightarrow> (import_error, state_settings) res" where
  "readSettings M root =
     bind_res (old_optional root ''override.yaml'' (2 ^ 20)) (\<lambda>b.
       (case im_override M (case b of Some x \<Rightarrow> x | None \<Rightarrow> []) of
          None \<Rightarrow> Inl BadOverride
        | Some old \<Rightarrow> typed_settings (uni_upper (im_lib M)) old))"

subsection \<open>Snapshots\<close>

text \<open>The body an old subscription stands for: its cache, or the file a lone file provider of the cache names. \<open>left\<close> is how
  many bytes the import may still read.\<close>

definition cache_body ::
  "(string \<Rightarrow> old_file) \<Rightarrow> string \<Rightarrow> old_provider strmap \<Rightarrow> int \<Rightarrow> (import_error, string \<times> int) res" where
  "cache_body root body provs left =
     fold_res (\<lambda>(_, p) (b, l).
        if op_type p \<noteq> ''file'' then Inr (b, l)
        else if length provs \<noteq> 1 \<or> \<not> has_prefix (op_path p) ''./providers/'' \<or> \<not> IsLocal (op_path p) then Inl NotACache
        else bind_res (old_read root (op_path p) l) (\<lambda>raw. Inr (raw, l - int (length raw)))) provs (body, left)"

text \<open>The two places the cached body of a provider may be in.\<close>

definition provider_cache ::
  "'w import_env \<Rightarrow> (string \<Rightarrow> old_file) \<Rightarrow> old_provider strmap \<times> old_provider strmap \<Rightarrow> int \<Rightarrow> download_item
   \<Rightarrow> (import_error, string) res" where
  "provider_cache M root provs left it =
     (let path = (case map_of (if dl_kind it = ''rule'' then snd provs else fst provs) (dl_name it) of
                    Some p \<Rightarrow> op_path p | None \<Rightarrow> []);
          first = (if path \<noteq> [] \<and> IsLocal path then old_read root path left else Inl OldNotExist)
      in if first = Inl OldNotExist
         then old_read root ((if dl_kind it = ''rule'' then ''rules'' else ''proxies'') @ ''/'' @ im_md5 M (dl_url it)) left
         else first)"

fun provider_bodies ::
  "'w import_env \<Rightarrow> (string \<Rightarrow> old_file) \<Rightarrow> old_provider strmap \<times> old_provider strmap \<Rightarrow> int \<Rightarrow> download_item list
   \<Rightarrow> string strmap \<Rightarrow> 'w \<Rightarrow> (import_error, string strmap \<times> int) res \<times> 'w" where
  "provider_bodies M root provs left [] bodies w = (Inr (bodies, left), w)"
| "provider_bodies M root provs left (it # its) bodies w =
     (let store = (\<lambda>dat w. provider_bodies M root provs (left - int (length dat)) its
                     ((Key (dl_kind it) (dl_name it), dat) # delete_key (Key (dl_kind it) (dl_name it)) bodies) w)
      in case provider_cache M root provs left it of
           Inr dat \<Rightarrow> store dat w
         | Inl e \<Rightarrow>
             if e \<noteq> OldNotExist then (Inl e, w)
             else if left \<le> 0 then (Inl OverLimit, w)
             else (case im_get M (dl_url it) left w of
                (None, w1) \<Rightarrow> (Inl (ProviderUnavailable (dl_name it)), w1)
              | (Some dat, w1) \<Rightarrow> store dat w1))"

text \<open>\<^verbatim>\<open>snapshot\<close>, with what is left of the limit.\<close>

definition import_snapshot ::
  "'w import_env \<Rightarrow> (string \<Rightarrow> old_file) \<Rightarrow> string \<Rightarrow> int \<Rightarrow> 'w
   \<Rightarrow> (import_error, snapshot \<times> core_profile \<times> int) res \<times> 'w" where
  "import_snapshot M root cached left w =
     (case im_providers M cached of
        None \<Rightarrow> (Inl CacheMalformed, w)
      | Some provs \<Rightarrow>
          (case cache_body root cached (fst provs) left of
             Inl e \<Rightarrow> (Inl e, w)
           | Inr (body, left1) \<Rightarrow>
               (case Read (im_lib M) body of
                  Inl e \<Rightarrow> (Inl CacheUnparsed, w)
                | Inr doc \<Rightarrow>
                    let its = Downloads (im_lib M) doc
                    in if length its > 64 then (Inl TooManyProviders, w)
                       else (case provider_bodies M root provs left1 its [] w of
                          (Inl e, w1) \<Rightarrow> (Inl e, w1)
                        | (Inr (bodies, left2), w1) \<Rightarrow>
                            (case Build (im_lib M) doc bodies of
                               Inl e \<Rightarrow> (Inl CacheUnusable, w1)
                             | Inr (p, _) \<Rightarrow> (Inr (\<lparr>sn_body = body, sn_providers = bodies\<rparr>, p, left2), w1))))))"

subsection \<open>Selections\<close>

definition MaxSelectionCache :: int where "MaxSelectionCache = 16 * 2 ^ 20"

definition selectionName :: "string \<Rightarrow> bool" where
  "selectionName name \<longleftrightarrow> 0 < length name \<and> length name \<le> 256 \<and> utf8_valid name \<and> \<not> has_control name"

definition ValidateSelections :: "string strmap \<Rightarrow> import_error option" where
  "ValidateSelections selected =
     (if length selected > 4096 then Some SelectionLimits
      else if \<not> list_all (\<lambda>(group, member). selectionName group \<and> selectionName member) selected then Some SelectionNames
      else None)"

definition exportSelections :: "'w import_env \<Rightarrow> (string \<Rightarrow> old_file) \<Rightarrow> (import_error, string strmap) res" where
  "exportSelections M root =
     bind_res (old_optional root ''cache.db'' MaxSelectionCache) (\<lambda>b. case b of
        None \<Rightarrow> Inr []
      | Some body \<Rightarrow>
          if body = [] then Inl EmptyCacheDb
          else (case im_export M of
             None \<Rightarrow> Inl NoExporter
           | Some export \<Rightarrow>
               (case export body of
                  None \<Rightarrow> Inl ExportFailed
                | Some selected \<Rightarrow>
                    (case ValidateSelections selected of Some e \<Rightarrow> Inl e | None \<Rightarrow> Inr selected))))"

text \<open>\<^verbatim>\<open>ExportLegacySelections\<close> on the bytes its input holds: the helper that opens the old database, given as the entries of its
  bucket, or nothing when it has none.\<close>

fun export_entries :: "(string \<times> string) list \<Rightarrow> string strmap \<Rightarrow> (import_error, string strmap) res" where
  "export_entries [] selected = Inr selected"
| "export_entries ((k, v) # kvs) selected =
     (if length selected \<ge> 4096 \<or> \<not> selectionName k \<or> \<not> selectionName v then Inl SelectionLimits
      else export_entries kvs ((k, v) # delete_key k selected))"

definition ExportLegacySelections ::
  "bool \<Rightarrow> (string \<Rightarrow> (string \<times> string) list option option) \<Rightarrow> string \<Rightarrow> (import_error, string strmap) res" where
  "ExportLegacySelections root open_db input =
     (if root then Inl RefusesRoot
      else let body = take (nat (MaxSelectionCache + 1)) input
           in if body = [] \<or> int (length body) > MaxSelectionCache then Inl CacheDbLimits
              else (case open_db body of
                 None \<Rightarrow> Inl CorruptCacheDb
               | Some None \<Rightarrow> Inr []
               | Some (Some kvs) \<Rightarrow> export_entries kvs []))"

subsection \<open>Directories\<close>

text \<open>The daemon's state directory as \<^verbatim>\<open>os.ReadDir\<close> lists it, with what lies in its directories.\<close>

datatype listing = NoDir | Unlistable | Listing "(string \<times> node) list"
  and node = NFile string | NDir listing | NOther

definition lone_cache :: "(string \<times> node) list \<Rightarrow> bool" where
  "lone_cache es \<longleftrightarrow> (case es of [(n, NFile _)] \<Rightarrow> n = ''cache.db'' | _ \<Rightarrow> False)"

fun harmless_entry :: "string \<times> node \<Rightarrow> bool" where
  "harmless_entry (n, NFile _) = (n = ''owner'')"
| "harmless_entry (n, NDir (Listing es)) =
     ((n = ''core'' \<or> n = ''subscriptions'') \<and> (es = [] \<or> (n = ''core'' \<and> lone_cache es)))"
| "harmless_entry (n, _) = False"

definition emptyState :: "listing \<Rightarrow> import_error option" where
  "emptyState d = (case d of
     NoDir \<Rightarrow> None
   | Unlistable \<Rightarrow> Some StateUnreadable
   | Listing es \<Rightarrow> if list_all harmless_entry es then None else Some StateExists)"

subsection \<open>Prepare\<close>

record staging =
  ss_disk :: disk
  ss_left :: int
  ss_subs :: subscriptions
  ss_seen :: "string list"
  ss_groups :: "core_group list"
  ss_profile :: core_profile

text \<open>A write of the staged store, with the fault and the temporary name of its turn.\<close>

definition staged_write ::
  "'w import_env \<Rightarrow> (write_fault \<Rightarrow> string \<Rightarrow> disk \<Rightarrow> msg option \<times> disk) \<Rightarrow> disk \<Rightarrow> 'w
   \<Rightarrow> (import_error, disk) res \<times> 'w" where
  "staged_write M f d w =
     (case im_fault M w of ((fault, suffix), w1) \<Rightarrow>
        (case f fault suffix d of
           (Some e, _) \<Rightarrow> Inl (SaveFailed e)
         | (None, d1) \<Rightarrow> Inr d1, w1))"

definition imported_sub :: "old_record \<Rightarrow> string \<Rightarrow> subscription" where
  "imported_sub old i = \<lparr>sb_id = i, sb_name = or_name old, sb_url = or_url old, sb_updated_at = 0, sb_interval_seconds = 0,
     sb_upload = or_upload old, sb_download = or_download old, sb_total = or_total old, sb_expire = or_expire old,
     sb_last_attempt = 0, sb_retry_at = 0, sb_held_until = 0, sb_last_error = []\<rparr>"

definition Second_ns :: int where "Second_ns = 10 ^ 9"

definition dated :: "'w import_env \<Rightarrow> old_record \<Rightarrow> subscription \<Rightarrow> subscription" where
  "dated M old sub =
     (let sub1 = sub\<lparr>sb_interval_seconds := Interval [(''Profile-Update-Interval'', itoa (or_hours old))] div Second_ns\<rparr>
      in case im_time M (or_updated old) of Some t \<Rightarrow> sub1\<lparr>sb_updated_at := t\<rparr> | None \<Rightarrow> sub1)"

text \<open>One turn of the loop over the old records; \<open>i\<close> is the record's number, from one.\<close>

definition import_record ::
  "'w import_env \<Rightarrow> (string \<Rightarrow> old_file) \<Rightarrow> string \<Rightarrow> nat \<Rightarrow> old_record \<Rightarrow> staging \<Rightarrow> 'w
   \<Rightarrow> (import_error, staging) res \<times> 'w" where
  "import_record M root activeName i old st w =
     (if \<not> safeName (or_name old) \<or> or_name old \<in> set (ss_seen st) then (Inl (BadOldName i), w)
      else if CheckURL (url_parse (im_lib M)) (or_url old) \<noteq> None then (Inl (NotHttps i), w)
      else (case im_new_id M w of (newid, w0) \<Rightarrow>
        (case requestState M root i (imported_sub old newid) of
           Inl e \<Rightarrow> (Inl e, w0)
         | Inr sub \<Rightarrow>
             (case old_read root (''cache/'' @ or_name old @ ''.yaml'') (ss_left st) of
                Inl e \<Rightarrow> (Inl (BadCache i e), w0)
              | Inr cached \<Rightarrow>
                  (case import_snapshot M root cached (ss_left st - int (length cached)) w0 of
                     (Inl e, w1) \<Rightarrow> (Inl (BadCache i e), w1)
                   | (Inr (snap, p, left), w1) \<Rightarrow>
                       (case staged_write M (\<lambda>fault suffix. SaveSnapshot (im_codec M) fault suffix newid snap) (ss_disk st) w1 of
                          (Inl e, w2) \<Rightarrow> (Inl e, w2)
                        | (Inr d, w2) \<Rightarrow>
                            let active = or_name old = activeName
                            in (Inr (st\<lparr>ss_disk := d, ss_left := left, ss_seen := or_name old # ss_seen st,
                                  ss_groups := ss_groups st @ p_groups p,
                                  ss_subs := \<lparr>su_active = (if active then newid else su_active (ss_subs st)),
                                              su_list = su_list (ss_subs st) @ [dated M old sub]\<rparr>,
                                  ss_profile := (if active then p else ss_profile st)\<rparr>), w2)))))))"

fun import_records ::
  "'w import_env \<Rightarrow> (string \<Rightarrow> old_file) \<Rightarrow> string \<Rightarrow> nat \<Rightarrow> old_record list \<Rightarrow> staging \<Rightarrow> 'w
   \<Rightarrow> (import_error, staging) res \<times> 'w" where
  "import_records M root activeName i [] st w = (Inr st, w)"
| "import_records M root activeName i (old # olds) st w =
     (case import_record M root activeName i old st w of
        (Inl e, w1) \<Rightarrow> (Inl e, w1)
      | (Inr st1, w1) \<Rightarrow> import_records M root activeName (i + 1) olds st1 w1)"

definition new_staging :: staging where
  "new_staging = \<lparr>ss_disk = (\<lambda>_. None), ss_left = int MaxBytes, ss_subs = \<lparr>su_active = [], su_list = []\<rparr>, ss_seen = [],
     ss_groups = [], ss_profile = empty_profile\<rparr>"

text \<open>\<^verbatim>\<open>Prepare\<close> from the staged directory on: everything that is written into it.\<close>

definition stage_import ::
  "'w import_env \<Rightarrow> (string \<Rightarrow> old_file) \<Rightarrow> bool \<Rightarrow> old_record list \<Rightarrow> 'w
   \<Rightarrow> (import_error, state_settings \<times> disk) res \<times> 'w" where
  "stage_import M root running records w =
     (case readSettings M root of
        Inl e \<Rightarrow> (Inl e, w)
      | Inr settings0 \<Rightarrow>
          let settings = settings0\<lparr>st_running := running\<rparr>
          in case old_optional root ''active'' 1024 of
               Inl e \<Rightarrow> (Inl e, w)
             | Inr active \<Rightarrow>
                 let activeName = trim_space (case active of Some b \<Rightarrow> b | None \<Rightarrow> [])
                 in case import_records M root activeName 1 records new_staging w of
                      (Inl e, w1) \<Rightarrow> (Inl e, w1)
                    | (Inr st, w1) \<Rightarrow>
                        if activeName \<noteq> [] \<and> su_active (ss_subs st) = [] then (Inl ActiveMissing, w1)
                        else if running \<and> su_active (ss_subs st) = [] then (Inl RunningWithoutActive, w1)
                        else (case exportSelections M root of
                           Inl e \<Rightarrow> (Inl e, w1)
                         | Inr selections \<Rightarrow>
                             let groups = empty_profile\<lparr>p_groups := ss_groups st\<rparr>
                             in (case im_selections M groups (FilterSelections groups selections) w1 of
                                (False, w2) \<Rightarrow> (Inl SelectionsFailed, w2)
                              | (True, w2) \<Rightarrow>
                                  (case im_geodata M (ss_profile st) w2 of
                                     (False, w3) \<Rightarrow> (Inl GeodataFailed, w3)
                                   | (True, w3) \<Rightarrow>
                                       (case staged_write M (\<lambda>fault suffix. SaveSettings (im_codec M) fault suffix settings)
                                               (ss_disk st) w3 of
                                          (Inl e, w4) \<Rightarrow> (Inl e, w4)
                                        | (Inr d1, w4) \<Rightarrow>
                                            (case staged_write M (\<lambda>fault suffix. SaveSubscriptions (im_codec M) fault suffix (ss_subs st))
                                                    d1 w4 of
                                               (Inl e, w5) \<Rightarrow> (Inl e, w5)
                                             | (Inr d2, w5) \<Rightarrow> (Inr (settings, d2), w5)))))))"

text \<open>\<^verbatim>\<open>Prepare\<close>: nothing to import when the daemon has subscriptions already, or the old installation has none. \<open>locked\<close> is
  whether the old installation's lock is taken; \<open>copied\<close> whether the owner record, if any, could be written.\<close>

definition has_subscriptions :: "listing \<Rightarrow> bool" where
  "has_subscriptions d = (case d of Listing es \<Rightarrow> map_of es ''subscriptions.json'' \<noteq> None | _ \<Rightarrow> False)"

definition copy_owner :: "listing \<Rightarrow> bool \<Rightarrow> disk \<Rightarrow> (import_error, disk) res" where
  "copy_owner target copied d =
     (case target of
        Listing es \<Rightarrow> (case map_of es ''owner'' of
             Some (NFile b) \<Rightarrow> if copied then Inr (d(''owner'' \<mapsto> b)) else Inl (SaveFailed [])
           | _ \<Rightarrow> Inr d)
      | _ \<Rightarrow> Inr d)"

definition Prepare ::
  "'w import_env \<Rightarrow> (string \<Rightarrow> old_file) option \<Rightarrow> listing \<Rightarrow> bool \<Rightarrow> bool \<Rightarrow> bool \<Rightarrow> bool \<Rightarrow> 'w
   \<Rightarrow> (import_error, (state_settings \<times> disk) option) res \<times> 'w" where
  "Prepare M source target running locked staged copied w =
     (if target = Unlistable then (Inl StateUnreadable, w)
      else if has_subscriptions target then (Inr None, w)
      else case source of
             None \<Rightarrow> (Inr None, w)
           | Some root \<Rightarrow>
               if root ''.lock'' = OldUnreadable then (Inl OldReadError, w)
               else if root ''.lock'' = OldIrregular then (Inl NotRegular, w)
               else if root ''.lock'' \<noteq> OldAbsent \<and> locked then (Inl OldLocked, w)
               else (case old_read root ''subscriptions.json'' (2 ^ 20) of
                  Inl OldNotExist \<Rightarrow> (Inr None, w)
                | Inl e \<Rightarrow> (Inl e, w)
                | Inr body \<Rightarrow>
                    (case im_records M body of
                       None \<Rightarrow> (Inl BadRecords, w)
                     | Some records \<Rightarrow>
                         if length records > 256 then (Inl BadRecords, w)
                         else (case emptyState target of
                            Some e \<Rightarrow> (Inl e, w)
                          | None \<Rightarrow>
                              if \<not> staged then (Inl StageFailed, w)
                              else (case stage_import M root running records w of
                                 (Inl e, w1) \<Rightarrow> (Inl e, w1)
                               | (Inr (settings, d), w1) \<Rightarrow>
                                   (bind_res (copy_owner target copied d) (\<lambda>d1. Inr (Some (settings, d1))), w1))))))"

subsection \<open>Cutover\<close>

text \<open>The directories around the state directory. \<open>fails n\<close> is whether the \<open>n\<close>-th system call of an operation fails.\<close>

type_synonym dirs = "string \<Rightarrow> listing"

record import_state =
  ip_dir :: string
  ip_target :: string
  ip_backup :: string
  ip_installed :: bool

datatype rename_result = Renamed dirs | RenameMissing | RenameFailed

definition rename_dir :: "bool \<Rightarrow> string \<Rightarrow> string \<Rightarrow> dirs \<Rightarrow> rename_result" where
  "rename_dir fault a b fs =
     (if fault then RenameFailed else if fs a = NoDir then RenameMissing else Renamed (fs(b := fs a, a := NoDir)))"

text \<open>\<^verbatim>\<open>Commit\<close>: \<open>backup\<close> is the name \<^verbatim>\<open>MkdirTemp\<close> picks.\<close>

definition install_dir :: "(nat \<Rightarrow> bool) \<Rightarrow> import_state \<Rightarrow> dirs \<Rightarrow> bool \<times> import_state \<times> dirs" where
  "install_dir fails m fs =
     (case rename_dir (fails 4) (ip_dir m) (ip_target m) fs of
        Renamed fs1 \<Rightarrow> (True, m\<lparr>ip_installed := True\<rparr>, fs1)
      | _ \<Rightarrow> if ip_backup m = [] then (False, m, fs)
             else (case rename_dir (fails 5) (ip_backup m) (ip_target m) fs of
                     Renamed fs1 \<Rightarrow> (False, m, fs1) | _ \<Rightarrow> (False, m, fs)))"

definition Commit :: "(nat \<Rightarrow> bool) \<Rightarrow> string \<Rightarrow> import_state \<Rightarrow> dirs \<Rightarrow> bool \<times> import_state \<times> dirs" where
  "Commit fails backup m fs =
     (if emptyState (fs (ip_target m)) \<noteq> None \<or> fails 1 then (False, m, fs)
      else if fails 2 then (False, m, fs(backup := Listing []))
      else let fs1 = fs(backup := NoDir)
           in case rename_dir (fails 3) (ip_target m) backup fs1 of
                Renamed fs2 \<Rightarrow> install_dir fails (m\<lparr>ip_backup := backup\<rparr>) fs2
              | RenameMissing \<Rightarrow> install_dir fails m fs1
              | RenameFailed \<Rightarrow> (False, m, fs1))"

definition Rollback :: "(nat \<Rightarrow> bool) \<Rightarrow> import_state \<Rightarrow> dirs \<Rightarrow> bool \<times> import_state \<times> dirs" where
  "Rollback fails m fs =
     (if \<not> ip_installed m then (True, m, fs)
      else case rename_dir (fails 1) (ip_target m) (ip_dir m) fs of
             Renamed fs1 \<Rightarrow>
               let m1 = m\<lparr>ip_installed := False\<rparr>
               in if ip_backup m1 \<noteq> []
                  then (case rename_dir (fails 2) (ip_backup m1) (ip_target m1) fs1 of
                          Renamed fs2 \<Rightarrow> (True, m1, fs2) | _ \<Rightarrow> (False, m1, fs1))
                  else (True, m1, fs1)
           | _ \<Rightarrow> (False, m, fs))"

definition Finish :: "import_state \<Rightarrow> dirs \<Rightarrow> import_state \<times> dirs" where
  "Finish m fs =
     (if ip_backup m \<noteq> [] then (m\<lparr>ip_backup := []\<rparr>, fs(ip_backup m := NoDir)) else (m, fs))"

definition Close_import :: "import_state \<Rightarrow> dirs \<Rightarrow> dirs" where
  "Close_import m fs = fs(ip_dir m := NoDir)"

end
