(* ===== verification/Server.thy ===== *)
theory Server
  imports Run_Config Headers Profile_Build
begin

text \<open>
  The daemon's state and what surrounds it (\<^verbatim>\<open>internal/daemon/daemon.go\<close>, \<^verbatim>\<open>ops.go\<close>, \<^verbatim>\<open>session.go\<close>).

  \<open>server\<close> holds the fields of the Go struct that the calls read and change. Everything outside the
  process's memory, the core, the state directory, the network, the host's Tailscale service and
  the clock, is a world of type \<open>'w\<close> that the functions of \<open>env\<close> read and change. A call is a function of the server
  and the world that returns both with its answer. Each call that changes what the core runs holds
  \<^verbatim>\<open>opMu\<close> while it does, so such calls are one step each; \<open>System\<close> says how the steps of calls that
  wait for a download interleave.
\<close>

subsection \<open>Clients\<close>

record session =
  sn_streams :: "string list"
  sn_out :: "string list"
  sn_closed :: bool

record hub =
  hb_sessions :: "session list"
  hb_lastPushed :: "string strmap"
  hb_lastActive :: string
  hb_lastStarted :: int

datatype event =
    EvDownloads "download_request list"
  | EvStatus status
  | EvGroups "group_item list"
  | EvRules rule_list
  | EvSubscriptions "sub_item list"

record server =
  sv_state :: proxy_state
  sv_detail :: msg
  sv_startedAt :: int
  sv_settings :: state_settings
  sv_subs :: subscriptions
  sv_profile :: core_profile
  sv_restorePending :: bool
  sv_addAsked :: "int strmap"
  sv_downloads :: "download_request strmap"
  sv_hub :: hub

subsection \<open>The world\<close>

datatype file_stat = StatOk int | StatMissing | StatError msg

record request =
  rq_url :: string
  rq_max_bytes :: int
  rq_allow_direct :: bool

record response =
  rp_body :: string
  rp_header :: header

text \<open>What \<^verbatim>\<open>errors.Is\<close> and \<^verbatim>\<open>errors.AsType\<close> find in a failed download: \<open>fe_status\<close> is the
  \<^verbatim>\<open>RetryAfter\<close> of a \<^verbatim>\<open>StatusError\<close>, in nanoseconds.\<close>

record fetch_err =
  fe_direct_required :: bool
  fe_too_large :: bool
  fe_status :: "int option"
  fe_text :: msg

datatype approval = Expired | Declined | Approved

record 'w env =
  e_apply :: "core_config \<Rightarrow> 'w \<Rightarrow> core_err option \<times> 'w"
  e_check :: "core_config \<Rightarrow> 'w \<Rightarrow> core_err option \<times> 'w"
  e_stop :: "'w \<Rightarrow> core_err option \<times> 'w"
  e_groups :: "'w \<Rightarrow> (core_err, group_item list) res"
  e_select :: "string \<Rightarrow> string \<Rightarrow> 'w \<Rightarrow> core_err option \<times> 'w"
  e_geodata :: "core_profile \<Rightarrow> geodata_file list"
  e_install :: "geodata_file \<Rightarrow> string \<Rightarrow> core_profile \<Rightarrow> 'w \<Rightarrow> msg option \<times> 'w"
  e_stat :: "string \<Rightarrow> 'w \<Rightarrow> file_stat"
  e_write_temp :: "geodata_file \<Rightarrow> string \<Rightarrow> 'w \<Rightarrow> (msg, string) res \<times> 'w"
  e_remove_temp :: "string \<Rightarrow> 'w \<Rightarrow> 'w"
  e_fetch :: "request \<Rightarrow> 'w \<Rightarrow> (fetch_err, response) res \<times> 'w"
  e_approval :: "download_request \<Rightarrow> 'w \<Rightarrow> approval \<times> 'w"
  e_save_settings :: "state_settings \<Rightarrow> 'w \<Rightarrow> msg option \<times> 'w"
  e_save_subs :: "subscriptions \<Rightarrow> 'w \<Rightarrow> msg option \<times> 'w"
  e_save_snapshot :: "string \<Rightarrow> snapshot \<Rightarrow> 'w \<Rightarrow> msg option \<times> 'w"
  e_remove_snapshot :: "string \<Rightarrow> 'w \<Rightarrow> msg option \<times> 'w"
  e_snapshot :: "string \<Rightarrow> 'w \<Rightarrow> (msg, snapshot) res"
  e_tailscale_sync :: "(bool \<Rightarrow> 'w \<Rightarrow> msg option \<times> 'w) option"
  e_tailscale_present :: "'w \<Rightarrow> bool"
  e_now :: "'w \<Rightarrow> int"
  e_new_id :: "'w \<Rightarrow> string \<times> 'w"
  e_download_limit :: int
  e_lib :: build_lib
  e_headers :: header_lib
  e_marshal :: "string \<Rightarrow> event + code \<Rightarrow> string option"
  e_wall :: "'w \<Rightarrow> int"
  e_initial :: bool

text \<open>Times are nanoseconds; \<^verbatim>\<open>ms\<close> is \<^verbatim>\<open>UnixMilli\<close>. \<open>e_now\<close> is the configured clock, \<open>e_wall\<close> is
  \<^verbatim>\<open>time.Now\<close>. \<open>e_initial\<close> is the value the call's context holds under \<^verbatim>\<open>initialDownload\<close>.\<close>

definition ms :: "int \<Rightarrow> int" where "ms t = t div 1000000"

definition Second :: int where "Second = 1000000000"

subsection \<open>Reading the state\<close>

definition running :: "server \<Rightarrow> bool" where
  "running s \<longleftrightarrow> sv_state s = StateOn \<or> sv_state s = StateDegraded"

definition sub_by_id :: "string \<Rightarrow> subscription list \<Rightarrow> subscription option" where
  "sub_by_id i subs = find (\<lambda>sub. sb_id sub = i) subs"

definition activeSub :: "server \<Rightarrow> subscription option" where
  "activeSub s = (if su_active (sv_subs s) = [] then None else sub_by_id (su_active (sv_subs s)) (su_list (sv_subs s)))"

definition nextUpdate :: "subscription \<Rightarrow> int" where
  "nextUpdate sub = (if sb_retry_at sub \<noteq> 0 then sb_retry_at sub else sb_updated_at sub + sb_interval_seconds sub * 1000)"

definition describe :: "subscription \<Rightarrow> bool \<Rightarrow> sub_item" where
  "describe sub active = \<lparr>si_name = sb_name sub, si_updated_at = sb_updated_at sub, si_upload = sb_upload sub,
     si_download = sb_download sub, si_total = sb_total sub, si_expire = sb_expire sub, si_active = active,
     si_interval = sb_interval_seconds sub, si_next_update = nextUpdate sub, si_error = sb_last_error sub\<rparr>"

definition subscriptionList :: "server \<Rightarrow> sub_item list" where
  "subscriptionList s = map (\<lambda>sub. describe sub (sb_id sub = su_active (sv_subs s))) (su_list (sv_subs s))"

definition downloadList :: "server \<Rightarrow> download_request list" where
  "downloadList s = map snd (sv_downloads s)"

definition status_of :: "'w env \<Rightarrow> server \<Rightarrow> 'w \<Rightarrow> status" where
  "status_of E s w =
     (let t = st_settings (sv_settings s)
      in \<lparr>ss_state = sv_state s, ss_detail = sv_detail s,
          ss_active_subscription = (case activeSub s of Some sub \<Rightarrow> sb_name sub | None \<Rightarrow> []),
          ss_primary_group = s_primary_group t, ss_dns_destination = s_dns_destination t, ss_mode = s_mode t,
          ss_tun = s_tun t, ss_tun_redirect = s_tun_redirect t, ss_tailscale = s_tailscale t,
          ss_tailscale_present = e_tailscale_present E w, ss_tailnet_proxy = s_tailnet_proxy t,
          ss_started_at = sv_startedAt s, ss_tun_bypass = bypass t\<rparr>)"

subsection \<open>Publishing\<close>

definition StreamDownloads :: string where "StreamDownloads = ''downloads''"
definition StreamStatus :: string where "StreamStatus = ''status''"
definition StreamGroups :: string where "StreamGroups = ''groups''"
definition StreamRules :: string where "StreamRules = ''rules''"
definition StreamTraffic :: string where "StreamTraffic = ''traffic''"
definition StreamConnections :: string where "StreamConnections = ''connections''"
definition StreamSubscriptions :: string where "StreamSubscriptions = ''subscriptions''"

lemmas stream_defs = StreamDownloads_def StreamStatus_def StreamGroups_def StreamRules_def StreamTraffic_def
  StreamConnections_def StreamSubscriptions_def

definition stateStreams :: "string list" where
  "stateStreams = [StreamStatus, StreamGroups, StreamRules, StreamSubscriptions, StreamDownloads]"

definition allStreams :: "string list" where
  "allStreams = stateStreams @ [StreamTraffic, StreamConnections]"

definition snapshot_event :: "'w env \<Rightarrow> string \<Rightarrow> server \<Rightarrow> 'w \<Rightarrow> event option" where
  "snapshot_event E stream s w =
     (if stream = StreamDownloads then Some (EvDownloads (downloadList s))
      else if stream = StreamStatus then Some (EvStatus (status_of E s w))
      else if stream = StreamGroups then Some (EvGroups (case e_groups E w of Inr gs \<Rightarrow> gs | Inl _ \<Rightarrow> []))
      else if stream = StreamRules then Some (EvRules (rule_listing (sv_settings s) (sv_profile s)))
      else if stream = StreamSubscriptions then Some (EvSubscriptions (subscriptionList s))
      else None)"

definition MaxLine :: nat where "MaxLine = 2 ^ 20"

text \<open>\<^verbatim>\<open>protocol.Line\<close> over the JSON encoder, the parameter \<open>e_marshal\<close>; an event that cannot be sent
  becomes an error event.\<close>

definition eventLine :: "'w env \<Rightarrow> string \<Rightarrow> event \<Rightarrow> string" where
  "eventLine E stream data =
     (let line = (\<lambda>v. case e_marshal E stream v of
            Some b \<Rightarrow> if length b > MaxLine then Inl CodeTooLarge else Inr (b @ [CHR 0x0A])
          | None \<Rightarrow> Inl CodeInternal)
      in case line (Inl data) of
           Inr b \<Rightarrow> b
         | Inl code \<Rightarrow> (case line (Inr code) of Inr b \<Rightarrow> b | Inl _ \<Rightarrow> []))"

definition sendQueue :: nat where "sendQueue = 256"

definition sendLine :: "string \<Rightarrow> session \<Rightarrow> session" where
  "sendLine b ss =
     (if sn_closed ss then ss
      else if length (sn_out ss) < sendQueue then ss\<lparr>sn_out := sn_out ss @ [b]\<rparr>
      else ss\<lparr>sn_closed := True\<rparr>)"

definition wants :: "session \<Rightarrow> string \<Rightarrow> bool" where
  "wants ss stream \<longleftrightarrow> stream \<in> set (sn_streams ss)"

text \<open>\<^verbatim>\<open>publishLocked\<close>; \<open>also\<close> is the index of the session that gets the line in any case.\<close>

definition push_lines :: "string \<Rightarrow> string \<Rightarrow> bool \<Rightarrow> nat option \<Rightarrow> session list \<Rightarrow> session list" where
  "push_lines stream b changed also sessions =
     map (\<lambda>(i, ss). if also = Some i then sendLine b ss
                    else if changed \<and> wants ss stream then sendLine b ss else ss) (enumerate 0 sessions)"

definition publishLocked :: "'w env \<Rightarrow> string \<Rightarrow> nat option \<Rightarrow> 'w \<Rightarrow> server \<Rightarrow> server" where
  "publishLocked E stream also w s =
     (case snapshot_event E stream s w of
        None \<Rightarrow> s
      | Some data \<Rightarrow>
          let h0 = sv_hub s;
              h1 = (case data of
                      EvStatus st \<Rightarrow>
                        (let moved = ss_active_subscription st \<noteq> hb_lastActive h0 \<or> ss_started_at st \<noteq> hb_lastStarted h0
                         in h0\<lparr>hb_lastPushed := (if moved then delete_key StreamGroups (hb_lastPushed h0) else hb_lastPushed h0),
                               hb_lastActive := ss_active_subscription st, hb_lastStarted := ss_started_at st\<rparr>)
                    | _ \<Rightarrow> h0);
              b = eventLine E stream data;
              changed = (map_of (hb_lastPushed h1) stream \<noteq> Some b)
          in s\<lparr>sv_hub := h1\<lparr>hb_lastPushed := (if changed then (stream, b) # delete_key stream (hb_lastPushed h1) else hb_lastPushed h1),
                          hb_sessions := push_lines stream b changed also (hb_sessions h1)\<rparr>\<rparr>)"

definition publish :: "'w env \<Rightarrow> 'w \<Rightarrow> server \<Rightarrow> server" where
  "publish E w s = fold (\<lambda>stream. publishLocked E stream None w) stateStreams s"

definition publishDownloads :: "'w env \<Rightarrow> 'w \<Rightarrow> server \<Rightarrow> server" where
  "publishDownloads E w s = publishLocked E StreamDownloads None w s"

text \<open>\<^verbatim>\<open>subscribe\<close> for the session at index \<open>i\<close>.\<close>

definition subscribe :: "'w env \<Rightarrow> nat \<Rightarrow> string list \<Rightarrow> bool \<Rightarrow> 'w \<Rightarrow> server \<Rightarrow> perr option \<times> server" where
  "subscribe E i streams on w s =
     (if streams = [] then (Some (fail CodeInvalid ''no streams named'' []), s)
      else case find (\<lambda>x. x \<notin> set allStreams) streams of
             Some x \<Rightarrow> (Some (fail CodeInvalid ''unknown stream %q'' [x]), s)
           | None \<Rightarrow>
               let h = sv_hub s; ss = hb_sessions h ! i;
                   fresh = (if on then rev (remdups (rev (filter (\<lambda>x. x \<notin> set (sn_streams ss)) streams))) else []);
                   ss' = ss\<lparr>sn_streams := (if on then sn_streams ss @ fresh
                                          else filter (\<lambda>x. x \<notin> set streams) (sn_streams ss))\<rparr>;
                   s1 = s\<lparr>sv_hub := h\<lparr>hb_sessions := (hb_sessions h)[i := ss']\<rparr>\<rparr>
               in (None, fold (\<lambda>x. publishLocked E x (Some i) w) (filter (\<lambda>x. x \<in> set stateStreams) fresh) s1))"

subsection \<open>What publishing leaves alone\<close>

text \<open>\<open>quiet\<close>: nothing but the clients' queues and the pending downloads differs.\<close>

definition quiet :: "server \<Rightarrow> server \<Rightarrow> bool" where
  "quiet s s' \<longleftrightarrow> s' = s\<lparr>sv_downloads := sv_downloads s', sv_hub := sv_hub s'\<rparr>"

lemma quiet_refl [simp]: "quiet s s"
  by (cases s) (simp add: quiet_def)

lemma quiet_sel:
  assumes "quiet s s'"
  shows "sv_state s' = sv_state s" "sv_detail s' = sv_detail s" "sv_startedAt s' = sv_startedAt s"
    "sv_settings s' = sv_settings s" "sv_subs s' = sv_subs s" "sv_profile s' = sv_profile s"
    "sv_restorePending s' = sv_restorePending s" "sv_addAsked s' = sv_addAsked s" "running s' = running s"
  using assms[unfolded quiet_def] by (cases s; cases s'; simp add: running_def)+

lemma quiet_trans: "quiet s s' \<Longrightarrow> quiet s' s'' \<Longrightarrow> quiet s s''"
  unfolding quiet_def by (cases s; cases s'; cases s'') simp

lemma quiet_hub: "quiet s (s\<lparr>sv_hub := h\<rparr>)" "quiet s (s\<lparr>sv_downloads := d\<rparr>)"
  by (cases s; simp add: quiet_def)+

lemma publishLocked_quiet: "quiet s (publishLocked E stream also w s)"
  by (cases "snapshot_event E stream s w") (simp_all add: publishLocked_def Let_def quiet_hub)

lemma publish_quiet: "quiet s (publish E w s)"
  unfolding publish_def
  by (rule fold_invariant[of "quiet s"]) (simp, blast intro: quiet_trans publishLocked_quiet)

lemmas publish_sel [simp] = quiet_sel[OF publish_quiet]

end
