(* ===== verification/Ops.thy ===== *)
theory Ops
  imports Server
begin

text \<open>
  The calls of \<^verbatim>\<open>internal/daemon/ops.go\<close> that start, stop and configure the proxy, with the downloads
  of \<^verbatim>\<open>downloads.go\<close> and the geodata of \<^verbatim>\<open>subscriptions.go\<close> they need. Every function returns its
  answer, the server and the world.
\<close>

datatype reply = RStatus status | RSubscription sub_item | RGroup group_item | REmpty | RNothing

definition coreError :: "core_err \<Rightarrow> perr" where
  "coreError e =
     (if errors_is e ErrInvalid then fail_with CodeRejected ''%v'' [] (ce_text e)
      else if errors_is e ErrNotRunning then fail CodeNotRunning ''the proxy is not running'' []
      else if errors_is e ErrNotFound then fail_with CodeNotFound ''%v'' [] (ce_text e)
      else if errors_is e DeadlineExceeded then fail CodeCore ''timed out'' []
      else fail_with CodeCore ''%v'' [] (ce_text e))"

subsection \<open>Downloads that wait for approval\<close>

definition maxPending :: nat where "maxPending = 64"

definition fetch_fail :: "string \<Rightarrow> fetch_err" where
  "fetch_fail text = \<lparr>fe_direct_required = False, fe_too_large = False, fe_status = None, fe_text = [(text, [])]\<rparr>"

definition short_label :: "string \<Rightarrow> string" where
  "short_label label =
     (if length label > 512 then ToValidUTF8 (take 512 label) @ [CHR 0xE2, CHR 0x80, CHR 0xA6] else label)"

definition getDownload :: "'w env \<Rightarrow> string \<Rightarrow> request \<Rightarrow> server \<Rightarrow> 'w
    \<Rightarrow> (fetch_err, response) res \<times> server \<times> 'w" where
  "getDownload E label rq s w =
     (let rq = rq\<lparr>rq_allow_direct := e_initial E\<rparr>
      in case e_fetch E rq w of
           (Inr resp, w1) \<Rightarrow> (Inr resp, s, w1)
         | (Inl err, w1) \<Rightarrow>
             if \<not> fe_direct_required err then (Inl err, s, w1)
             else
               let (i, w2) = e_new_id E w1;
                   pending = \<lparr>dr_id = i, dr_label = short_label label\<rparr>
               in if length (sv_downloads s) \<ge> maxPending
                  then (Inl (fetch_fail ''too many downloads waiting for approval''), s, w2)
                  else
                    let s1 = s\<lparr>sv_downloads := (i, pending) # delete_key i (sv_downloads s)\<rparr>;
                        s2 = publishDownloads E w2 s1;
                        (decision, w3) = e_approval E pending w2;
                        s3 = publishDownloads E w3 (s2\<lparr>sv_downloads := delete_key i (sv_downloads s2)\<rparr>)
                    in case decision of
                         Expired \<Rightarrow> (Inl (fetch_fail ''direct download approval expired''), s3, w3)
                       | Declined \<Rightarrow> (Inl (fetch_fail ''direct download declined''), s3, w3)
                       | Approved \<Rightarrow>
                           (let (r, w4) = e_fetch E (rq\<lparr>rq_allow_direct := True\<rparr>) w3 in (r, s3, w4)))"

text \<open>\<open>decideDownload\<close> also returns what it sends on the channel of the download that waits, which is
  what \<open>e_approval\<close> returns there.\<close>

definition decideDownload :: "'w env \<Rightarrow> string \<Rightarrow> bool \<Rightarrow> server \<Rightarrow> 'w \<Rightarrow> (perr, reply) res \<times> approval option \<times> server" where
  "decideDownload E i allow s w =
     (case map_of (sv_downloads s) i of
        None \<Rightarrow> (Inl (fail CodeNotFound ''this download is no longer waiting for approval'' []), None, s)
      | Some pending \<Rightarrow>
          (Inr REmpty, Some (if allow then Approved else Declined),
           publishDownloads E w (s\<lparr>sv_downloads := delete_key i (sv_downloads s)\<rparr>)))"

subsection \<open>Geodata\<close>

definition geodataAge :: int where "geodataAge = 7 * 24 * 3600 * Second"

text \<open>\<^verbatim>\<open>filepath.Base\<close> of a path that does not end in a separator.\<close>

definition base_name :: "string \<Rightarrow> string" where
  "base_name p = rev (takeWhile (\<lambda>c. c \<noteq> CHR ''/'') (rev p))"

definition downloadGeodata :: "'w env \<Rightarrow> geodata_file \<Rightarrow> server \<Rightarrow> 'w \<Rightarrow> (msg, string) res \<times> server \<times> 'w" where
  "downloadGeodata E f s w =
     (case getDownload E (''Geodata '' @ base_name (gd_path f))
             \<lparr>rq_url = gd_url f, rq_max_bytes = 0, rq_allow_direct = False\<rparr> s w of
        (Inl err, s1, w1) \<Rightarrow> (Inl ((''the rules need geodata %s, which did not download: %w'', [base_name (gd_path f)]) # fe_text err), s1, w1)
      | (Inr resp, s1, w1) \<Rightarrow>
          (case e_write_temp E f (rp_body resp) w1 of
             (Inl err, w2) \<Rightarrow> (Inl ((''save geodata %s: %w'', [base_name (gd_path f)]) # err), s1, w2)
           | (Inr tmp, w2) \<Rightarrow> (Inr tmp, s1, w2)))"

definition installGeodata :: "'w env \<Rightarrow> geodata_file \<Rightarrow> string \<Rightarrow> core_profile \<Rightarrow> 'w \<Rightarrow> msg option \<times> 'w" where
  "installGeodata E f tmp p w =
     (case e_install E f tmp p w of
        (Some err, w1) \<Rightarrow> (Some ((''the geodata %s that downloaded is not usable: %w'', [base_name (gd_path f)]) # err), w1)
      | (None, w1) \<Rightarrow> (None, w1))"

fun ensure_files :: "'w env \<Rightarrow> core_profile \<Rightarrow> geodata_file list \<Rightarrow> server \<Rightarrow> 'w \<Rightarrow> msg option \<times> server \<times> 'w" where
  "ensure_files E p [] s w = (None, s, w)"
| "ensure_files E p (f # fs) s w =
     (case e_stat E (gd_path f) w of
        StatOk _ \<Rightarrow> ensure_files E p fs s w
      | StatError err \<Rightarrow> (Some ((''geodata %s: %w'', [base_name (gd_path f)]) # err), s, w)
      | StatMissing \<Rightarrow>
          (case downloadGeodata E f s w of
             (Inl err, s1, w1) \<Rightarrow> (Some err, s1, w1)
           | (Inr tmp, s1, w1) \<Rightarrow>
               (case installGeodata E f tmp p w1 of
                  (Some err, w2) \<Rightarrow> (Some err, s1, e_remove_temp E tmp w2)
                | (None, w2) \<Rightarrow> ensure_files E p fs s1 (e_remove_temp E tmp w2))))"

definition ensureGeodata :: "'w env \<Rightarrow> core_profile \<Rightarrow> server \<Rightarrow> 'w \<Rightarrow> msg option \<times> server \<times> 'w" where
  "ensureGeodata E p s w = ensure_files E p (e_geodata E p) s w"

fun refresh_files :: "'w env \<Rightarrow> geodata_file list \<Rightarrow> server \<Rightarrow> 'w \<Rightarrow> server \<times> 'w" where
  "refresh_files E [] s w = (s, w)"
| "refresh_files E (f # fs) s w =
     (case e_stat E (gd_path f) w of
        StatOk mtime \<Rightarrow>
          if e_now E w - mtime < geodataAge then refresh_files E fs s w
          else (case downloadGeodata E f s w of
                  (Inl _, s1, w1) \<Rightarrow> refresh_files E fs s1 w1
                | (Inr tmp, s1, w1) \<Rightarrow>
                    (let current = c_profile (runConfig (sv_settings s1) (sv_profile s1));
                         (_, w2) = installGeodata E f tmp current w1
                     in refresh_files E fs s1 (e_remove_temp E tmp w2)))
      | _ \<Rightarrow> refresh_files E fs s w)"

definition refreshGeodata :: "'w env \<Rightarrow> server \<Rightarrow> 'w \<Rightarrow> server \<times> 'w" where
  "refreshGeodata E s w = refresh_files E (e_geodata E (c_profile (runConfig (sv_settings s) (sv_profile s)))) s w"

subsection \<open>Starting and stopping\<close>

definition setState :: "'w env \<Rightarrow> proxy_state \<Rightarrow> msg \<Rightarrow> 'w \<Rightarrow> server \<Rightarrow> server" where
  "setState E state detail w s =
     (let s1 = s\<lparr>sv_state := state, sv_detail := detail\<rparr>
      in case state of
           StateOn \<Rightarrow> (if sv_startedAt s1 = 0 then s1\<lparr>sv_startedAt := ms (e_wall E w)\<rparr> else s1)
         | StateStopped \<Rightarrow> s1\<lparr>sv_startedAt := 0\<rparr>
         | _ \<Rightarrow> s1)"

definition saveSettings :: "'w env \<Rightarrow> state_settings \<Rightarrow> server \<Rightarrow> 'w \<Rightarrow> perr option \<times> server \<times> 'w" where
  "saveSettings E next s w =
     (case e_save_settings E next w of
        (Some err, w1) \<Rightarrow> (Some (fail_with CodeInternal ''the settings could not be saved: %v'' [] err), s, w1)
      | (None, w1) \<Rightarrow> (None, s\<lparr>sv_settings := next\<rparr>, w1))"

definition saveRunning :: "'w env \<Rightarrow> bool \<Rightarrow> server \<Rightarrow> 'w \<Rightarrow> perr option \<times> server \<times> 'w" where
  "saveRunning E on s w =
     (if st_running (sv_settings s) = on then (None, s, w)
      else saveSettings E ((sv_settings s)\<lparr>st_running := on\<rparr>) s w)"

definition loadProfile :: "'w env \<Rightarrow> subscription \<Rightarrow> 'w \<Rightarrow> (msg, core_profile) res" where
  "loadProfile E sub w =
     (case e_snapshot E (sb_id sub) w of
        Inl err \<Rightarrow> Inl err
      | Inr snap \<Rightarrow>
          (case Read (e_lib E) (sn_body snap) of
             Inl err \<Rightarrow> Inl [(''the subscription is not usable'', [])]
           | Inr doc \<Rightarrow>
               (case Build (e_lib E) doc (sn_providers snap) of
                  Inl err \<Rightarrow> Inl [(''the subscription is not usable'', [])]
                | Inr (p, _) \<Rightarrow> Inr p)))"

text \<open>The error of a failed start or change: the text of what \<^verbatim>\<open>ensureGeodata\<close> or the core said.\<close>

definition geo_err :: "msg \<Rightarrow> core_err" where
  "geo_err text = \<lparr>ce_is = [], ce_text = text\<rparr>"

definition ensure_and_apply :: "'w env \<Rightarrow> core_config \<Rightarrow> server \<Rightarrow> 'w \<Rightarrow> core_err option \<times> server \<times> 'w" where
  "ensure_and_apply E cfg s w =
     (case ensureGeodata E (c_profile cfg) s w of
        (Some err, s1, w1) \<Rightarrow> (Some (geo_err err), s1, w1)
      | (None, s1, w1) \<Rightarrow> (let (r, w2) = e_apply E cfg w1 in (r, s1, w2)))"

definition ensure_and_check :: "'w env \<Rightarrow> code \<Rightarrow> core_config \<Rightarrow> server \<Rightarrow> 'w \<Rightarrow> perr option \<times> server \<times> 'w" where
  "ensure_and_check E code cfg s w =
     (case ensureGeodata E (c_profile cfg) s w of
        (Some err, s1, w1) \<Rightarrow> (Some (fail_with CodeFetch ''%v'' [] err), s1, w1)
      | (None, s1, w1) \<Rightarrow>
          (case e_check E cfg w1 of
             (Some err, w2) \<Rightarrow> (Some (fail_with code ''the core would not run it: %v'' [] (ce_text err)), s1, w2)
           | (None, w2) \<Rightarrow> (None, s1, w2)))"

definition start_failed :: "'w env \<Rightarrow> msg \<Rightarrow> server \<Rightarrow> 'w \<Rightarrow> server" where
  "start_failed E detail s w = publish E w (setState E StateStopped detail w s)"

definition start_active :: "'w env \<Rightarrow> server \<Rightarrow> 'w \<Rightarrow> perr option \<times> server \<times> 'w" where
  "start_active E s w =
     (let s1 = publish E w (setState E StateStarting [] w s);
          cfg = runConfig (sv_settings s1) (sv_profile s1)
      in case ensure_and_apply E cfg s1 w of
           (Some err, s2, w2) \<Rightarrow> (Some (coreError err), start_failed E (ce_text err) s2 w2, w2)
         | (None, s2, w2) \<Rightarrow> (None, publish E w2 (setState E StateOn [] w2 s2), w2))"

definition startLocked :: "'w env \<Rightarrow> server \<Rightarrow> 'w \<Rightarrow> perr option \<times> server \<times> 'w" where
  "startLocked E s0 w =
     (let s = s0\<lparr>sv_restorePending := False\<rparr>
      in if running s then (None, s, w)
         else case checkSettings (st_settings (sv_settings s)) of
                Some err \<Rightarrow> (Some err, start_failed E (pe_message err) s w, w)
              | None \<Rightarrow>
                  (case checkRules (uni_lower (e_lib E)) (st_rules (sv_settings s)) of
                     Some err \<Rightarrow> (Some err, start_failed E (pe_message err) s w, w)
                   | None \<Rightarrow>
                       (case activeSub s of
                          None \<Rightarrow> start_active E s w
                        | Some sub \<Rightarrow>
                            (case loadProfile E sub w of
                               Inl err \<Rightarrow>
                                 (let detail = (''the active subscription could not be read: '', []) # err
                                  in (Some (fail_with CodeRejected ''%s'' [] detail), start_failed E detail s w, w))
                             | Inr p \<Rightarrow> start_active E (s\<lparr>sv_profile := p\<rparr>) w))))"

definition start :: "'w env \<Rightarrow> server \<Rightarrow> 'w \<Rightarrow> (perr, reply) res \<times> server \<times> 'w" where
  "start E s w =
     (case startLocked E s w of
        (Some err, s1, w1) \<Rightarrow> (Inl err, s1, w1)
      | (None, s1, w1) \<Rightarrow>
          (case saveRunning E True s1 w1 of
             (Some err, s2, w2) \<Rightarrow> (Inl err, s2, w2)
           | (None, s2, w2) \<Rightarrow> (Inr (RStatus (status_of E s2 w2)), s2, w2)))"

definition stop :: "'w env \<Rightarrow> server \<Rightarrow> 'w \<Rightarrow> (perr, reply) res \<times> server \<times> 'w" where
  "stop E s0 w =
     (let s = s0\<lparr>sv_restorePending := False\<rparr>
      in case e_stop E w of
           (Some err, w1) \<Rightarrow> (Inl (coreError err), s, w1)
         | (None, w1) \<Rightarrow>
             (case saveRunning E False (publish E w1 (setState E StateStopped [] w1 s)) w1 of
                (Some err, s2, w2) \<Rightarrow> (Inl err, s2, w2)
              | (None, s2, w2) \<Rightarrow> (Inr (RStatus (status_of E s2 w2)), s2, w2)))"

definition retryRestore :: "'w env \<Rightarrow> server \<Rightarrow> 'w \<Rightarrow> server \<times> 'w" where
  "retryRestore E s w =
     (if \<not> sv_restorePending s then (s, w)
      else case startLocked E s w of
             (Some _, s1, w1) \<Rightarrow> (s1\<lparr>sv_restorePending := True\<rparr>, w1)
           | (None, s1, w1) \<Rightarrow> (s1, w1))"

subsection \<open>Changing the settings\<close>

definition reapply :: "'w env \<Rightarrow> state_settings \<Rightarrow> core_profile \<Rightarrow> server \<Rightarrow> 'w \<Rightarrow> perr option \<times> server \<times> 'w" where
  "reapply E next p s w =
     (if \<not> running s then ensure_and_check E CodeCore (runConfig next p) s w
      else case ensure_and_apply E (runConfig next p) s w of
             (None, s1, w1) \<Rightarrow> (None, s1, w1)
           | (Some err, s1, w1) \<Rightarrow>
               (Some (coreError err), if errors_is err ErrStopped then start_failed E (ce_text err) s1 w1 else s1, w1))"

definition rollback :: "'w env \<Rightarrow> state_settings \<Rightarrow> core_profile \<Rightarrow> server \<Rightarrow> 'w \<Rightarrow> bool \<times> server \<times> 'w" where
  "rollback E settings p s w =
     (if \<not> running s then (True, s, w)
      else case reapply E settings p s w of
             (Some _, s1, w1) \<Rightarrow> (False, s1, w1)
           | (None, s1, w1) \<Rightarrow> (True, s1, w1))"

definition syncHost :: "'w env \<Rightarrow> bool \<Rightarrow> 'w \<Rightarrow> msg option \<times> 'w" where
  "syncHost E on w = (case e_tailscale_sync E of None \<Rightarrow> (None, w) | Some sync \<Rightarrow> sync on w)"

text \<open>The errors of a host change made when \<open>c\<close>, to be joined.\<close>

definition sync_if :: "'w env \<Rightarrow> bool \<Rightarrow> bool \<Rightarrow> 'w \<Rightarrow> msg list \<times> 'w" where
  "sync_if E c on w = (if c then (case syncHost E on w of (Some e, w1) \<Rightarrow> ([e], w1) | (None, w1) \<Rightarrow> ([], w1)) else ([], w))"

definition add_text :: "msg list \<Rightarrow> perr \<Rightarrow> perr" where
  "add_text errs err = (if errs = [] then err
     else err\<lparr>pe_message := pe_message err @ (''; restore Tailscale integration: '', []) # concat errs\<rparr>)"

definition tailscale_on :: "state_settings \<Rightarrow> bool" where
  "tailscale_on ss = s_tailscale (st_settings ss)"

definition revert_settings :: "'w env \<Rightarrow> state_settings \<Rightarrow> state_settings \<Rightarrow> core_profile \<Rightarrow> perr \<Rightarrow> server \<Rightarrow> 'w
    \<Rightarrow> perr option \<times> server \<times> 'w" where
  "revert_settings E prev next p failure s w =
     (let changed = (tailscale_on next \<noteq> tailscale_on prev);
          (e1, w1) = sync_if E (changed \<and> \<not> tailscale_on prev) False w;
          (restored, s2, w2) = rollback E prev p s w1;
          (e2, w3) = sync_if E (changed \<and> tailscale_on prev) True w2;
          (e3, w4) = sync_if E (\<not> restored \<and> changed) (tailscale_on next) w3
      in (Some (add_text (e1 @ e2 @ e3) failure), if restored then s2 else s2\<lparr>sv_settings := next\<rparr>, w4))"

definition commitSettings :: "'w env \<Rightarrow> state_settings \<Rightarrow> core_profile \<Rightarrow> server \<Rightarrow> 'w \<Rightarrow> perr option \<times> server \<times> 'w" where
  "commitSettings E next p s w =
     (let prev = sv_settings s; changed = (tailscale_on next \<noteq> tailscale_on prev);
          off = (changed \<and> \<not> tailscale_on next);
          (pre, w1) = (if off then syncHost E False w else (None, w))
      in case pre of
           Some err \<Rightarrow> (Some (fail_with CodeCore ''Tailscale integration failed: %v'' [] err), s, w1)
         | None \<Rightarrow>
             (case reapply E next p s w1 of
                (Some err, s2, w2) \<Rightarrow>
                  (let (text, w3) = sync_if E off (tailscale_on prev) w2 in (Some (add_text text err), s2, w3))
              | (None, s2, w2) \<Rightarrow>
                  (case (if changed \<and> tailscale_on next then syncHost E True w2 else (None, w2)) of
                     (Some err, w3) \<Rightarrow>
                       revert_settings E prev next p (fail_with CodeCore ''Tailscale integration failed: %v'' [] err) s2 w3
                   | (None, w3) \<Rightarrow>
                       (case saveSettings E next s2 w3 of
                          (Some err, s4, w4) \<Rightarrow> revert_settings E prev next p err s4 w4
                        | (None, s4, w4) \<Rightarrow> (None, s4, w4)))))"

definition dns_unavailable :: "core_profile \<Rightarrow> string \<Rightarrow> bool" where
  "dns_unavailable p name \<longleftrightarrow> name \<noteq> [] \<and> (name = ''GLOBAL'' \<or>
     \<not> (list_ex (\<lambda>g. g_name g = name) (p_groups p) \<or> list_ex (\<lambda>px. px_name px = name) (p_proxies p)))"

definition apply_locked :: "'w env \<Rightarrow> apply_args \<Rightarrow> server \<Rightarrow> 'w \<Rightarrow> (perr, reply) res \<times> server \<times> 'w" where
  "apply_locked E args s w =
     (let next = sv_settings s; p = sv_profile s; inp = aa_settings args; old = st_settings next;
          rules = PruneCategories (aa_rules args)
      in if dns_unavailable p (s_dns_destination inp)
         then (Inl (fail CodeNotFound ''DNS destination %q is unavailable in the active subscription'' [s_dns_destination inp]), s, w)
         else if (s_tailscale inp \<and> \<not> s_tailscale old \<or> s_tailnet_proxy inp \<and> \<not> s_tailnet_proxy old) \<and> \<not> e_tailscale_present E w
         then (Inl (fail CodeConflict ''tailscaled is not installed'' []), s, w)
         else if inp = old \<and> rules = st_rules next then (Inr (RStatus (status_of E s w)), s, w)
         else case commitSettings E (next\<lparr>st_settings := inp, st_rules := rules\<rparr>) p s w of
                (Some err, s1, w1) \<Rightarrow> (Inl err, s1, w1)
              | (None, s1, w1) \<Rightarrow> (let s2 = publish E w1 s1 in (Inr (RStatus (status_of E s2 w1)), s2, w1)))"

definition apply_settings :: "'w env \<Rightarrow> apply_args \<Rightarrow> server \<Rightarrow> 'w \<Rightarrow> (perr, reply) res \<times> server \<times> 'w" where
  "apply_settings E args s w =
     (case checkSettings (aa_settings args) of
        Some err \<Rightarrow> (Inl err, s, w)
      | None \<Rightarrow>
          (case checkRules (uni_lower (e_lib E)) (aa_rules args) of
             Some err \<Rightarrow> (Inl err, s, w)
           | None \<Rightarrow> apply_locked E args s w))"

text \<open>\<^verbatim>\<open>acceptContent\<close>.\<close>

definition acceptContent :: "'w env \<Rightarrow> state_settings \<Rightarrow> core_profile \<Rightarrow> bool \<Rightarrow> server \<Rightarrow> 'w \<Rightarrow> perr option \<times> server \<times> 'w" where
  "acceptContent E settings p becomes s w =
     (if becomes \<and> running s then reapply E settings p s w
      else ensure_and_check E CodeRejected (runConfig settings p) s w)"

definition selectProxy :: "'w env \<Rightarrow> string \<Rightarrow> string \<Rightarrow> server \<Rightarrow> 'w \<Rightarrow> (perr, reply) res \<times> server \<times> 'w" where
  "selectProxy E gname proxy s w =
     (case validName ''group'' gname of
        Some err \<Rightarrow> (Inl err, s, w)
      | None \<Rightarrow>
          (case validName ''proxy'' proxy of
             Some err \<Rightarrow> (Inl err, s, w)
           | None \<Rightarrow>
               (case e_select E gname proxy w of
                  (Some err, w1) \<Rightarrow> (Inl (coreError err), s, w1)
                | (None, w1) \<Rightarrow>
                    (let s1 = publish E w1 s
                     in case e_groups E w1 of
                          Inl err \<Rightarrow> (Inl (coreError err), s1, w1)
                        | Inr gs \<Rightarrow>
                            (case find (\<lambda>g. gi_name g = gname) gs of
                               Some g \<Rightarrow> (Inr (RGroup g), s1, w1)
                             | None \<Rightarrow> (Inl (fail CodeNotFound ''group %q is gone'' [gname]), s1, w1))))))"

end
