(* ===== verification/Core_Contract.thy ===== *)
theory Core_Contract
  imports Protocol
begin

text \<open>
  The contract of \<^verbatim>\<open>core.Core\<close> (\<^verbatim>\<open>internal/core/core.go\<close>) the daemon relies on. \<open>runs\<close> is the
  configuration the engine routes by, \<open>None\<close> while it is stopped. The two implementations in the
  repository, \<open>Fake_Core\<close> and \<open>Mihomo_Core\<close>, interpret the locale.
\<close>

locale core_contract =
  fixes apply_cfg :: "core_config \<Rightarrow> 'c \<Rightarrow> core_err option \<times> 'c"
    and check_cfg :: "core_config \<Rightarrow> 'c \<Rightarrow> core_err option \<times> 'c"
    and stop_core :: "'c \<Rightarrow> core_err option \<times> 'c"
    and groups_of :: "'c \<Rightarrow> (core_err, group_item list) res"
    and select_in :: "string \<Rightarrow> string \<Rightarrow> 'c \<Rightarrow> core_err option \<times> 'c"
    and runs :: "'c \<Rightarrow> core_config option"
  assumes apply_ok: "apply_cfg cfg c = (None, c') \<Longrightarrow> runs c' = Some cfg"
    and apply_failed: "apply_cfg cfg c = (Some e, c') \<Longrightarrow> \<not> errors_is e ErrStopped \<Longrightarrow> runs c' = runs c"
    and apply_stopped: "apply_cfg cfg c = (Some e, c') \<Longrightarrow> errors_is e ErrStopped \<Longrightarrow> runs c' = None"
    and check_keeps: "check_cfg cfg c = (r, c') \<Longrightarrow> runs c' = runs c"
    and stop_stops: "stop_core c = (r, c') \<Longrightarrow> r = None \<and> runs c' = None"
    and groups_stopped: "runs c = None \<Longrightarrow> \<exists>e. groups_of c = Inl e \<and> errors_is e ErrNotRunning"
    and select_keeps: "select_in g p c = (r, c') \<Longrightarrow> runs c' = runs c"
    and select_stopped: "runs c = None \<Longrightarrow> \<exists>e. fst (select_in g p c) = Some e \<and> errors_is e ErrNotRunning"
begin

text \<open>After any apply the engine runs the new configuration, what it ran before, or nothing; and
  it runs nothing it was not given.\<close>

lemma apply_cases:
  assumes "apply_cfg cfg c = (r, c')"
  shows "runs c' = (case r of None \<Rightarrow> Some cfg | Some e \<Rightarrow> if errors_is e ErrStopped then None else runs c)"
  using assms apply_ok apply_failed apply_stopped by (auto split: option.split)

lemma stop_idempotent: "stop_core c = (r, c') \<Longrightarrow> stop_core c' = (r', c'') \<Longrightarrow> r = r' \<and> runs c'' = runs c'"
  using stop_stops by metis

text \<open>Operations one after the other: the engine never runs a configuration that was not applied.\<close>

definition apply_all :: "core_config list \<Rightarrow> 'c \<Rightarrow> 'c" where
  "apply_all cfgs c = fold (\<lambda>cfg c. snd (apply_cfg cfg c)) cfgs c"

lemma apply_all_origin:
  "runs (apply_all cfgs c) = Some cfg \<Longrightarrow> cfg \<in> set cfgs \<or> runs c = Some cfg"
proof (induction cfgs arbitrary: c)
  case (Cons x xs)
  have "runs (snd (apply_cfg x c)) \<in> {Some x, None, runs c}"
    using apply_cases[of x c "fst (apply_cfg x c)" "snd (apply_cfg x c)"] by (auto split: option.splits if_splits)
  moreover have "cfg \<in> set xs \<or> runs (snd (apply_cfg x c)) = Some cfg"
    using Cons by (simp add: apply_all_def)
  ultimately show ?case by auto
qed (simp add: apply_all_def)

end

end
