(* ===== verification/Ops_Laws.thy ===== *)
theory Ops_Laws
  imports Ops Core_Contract
begin

text \<open>
  The laws of the daemon's calls: starting, stopping and changing the settings keep the daemon's view
  of the proxy in step with the core, whatever fails on the way. They hold in every environment whose
  core keeps the contract of \<open>Core_Contract\<close>.
\<close>

text \<open>\<open>in_step\<close> is the daemon's central invariant: while the daemon says the proxy is on, the core runs
  the configuration of the current settings and profile, and otherwise it is stopped.\<close>

definition in_step :: "('w \<Rightarrow> core_config option) \<Rightarrow> server \<Rightarrow> 'w \<Rightarrow> bool" where
  "in_step runs s w \<longleftrightarrow> runs w = (if running s then Some (runConfig (sv_settings s) (sv_profile s)) else None)"

text \<open>\<open>halted\<close>: as before, but shown stopped.\<close>

definition halted :: "server \<Rightarrow> server \<Rightarrow> bool" where
  "halted s s' \<longleftrightarrow> sv_state s' = StateStopped \<and> sv_startedAt s' = 0 \<and> sv_settings s' = sv_settings s
     \<and> sv_profile s' = sv_profile s \<and> sv_subs s' = sv_subs s \<and> sv_restorePending s' = sv_restorePending s
     \<and> sv_addAsked s' = sv_addAsked s"

text \<open>The daemon's environment: a core that keeps its contract, and services (files, network,
  Tailscale, identifiers) none of which touches the core.\<close>

locale daemon_env = core_contract "e_apply E" "e_check E" "e_stop E" "e_groups E" "e_select E" runs
  for E :: "'w env" and runs :: "'w \<Rightarrow> core_config option" +
  assumes install_keeps: "e_install E f tmp p w = (r1, w') \<Longrightarrow> runs w' = runs w"
    and write_temp_keeps: "e_write_temp E f body w = (r2, w') \<Longrightarrow> runs w' = runs w"
    and remove_temp_keeps: "runs (e_remove_temp E tmp w) = runs w"
    and fetch_keeps: "e_fetch E rq w = (r3, w') \<Longrightarrow> runs w' = runs w"
    and approval_keeps: "e_approval E pd w = (r4, w') \<Longrightarrow> runs w' = runs w"
    and save_settings_keeps: "e_save_settings E ss w = (r5, w') \<Longrightarrow> runs w' = runs w"
    and save_subs_keeps: "e_save_subs E su w = (r5, w') \<Longrightarrow> runs w' = runs w"
    and save_snapshot_keeps: "e_save_snapshot E i sn w = (r5, w') \<Longrightarrow> runs w' = runs w"
    and remove_snapshot_keeps: "e_remove_snapshot E i w = (r5, w') \<Longrightarrow> runs w' = runs w"
    and sync_keeps: "e_tailscale_sync E = Some sync \<Longrightarrow> sync on w = (r5, w') \<Longrightarrow> runs w' = runs w"
    and new_id_keeps: "e_new_id E w = (i, w') \<Longrightarrow> runs w' = runs w"
begin

lemma in_step_quiet: "quiet s s' \<Longrightarrow> runs w' = runs w \<Longrightarrow> in_step runs s' w' = in_step runs s w"
  by (simp add: in_step_def quiet_sel)

lemma in_step_publish: "in_step runs (publish E w1 s) w = in_step runs s w"
  by (rule in_step_quiet[OF publish_quiet refl])

subsection \<open>Downloads and geodata\<close>

lemma publishDownloads_quiet: "quiet s (publishDownloads E w s)"
  by (simp add: publishDownloads_def publishLocked_quiet)

lemma getDownload_quiet:
  assumes "getDownload E label rq s w = (r, s', w')"
  shows "quiet s s' \<and> runs w' = runs w"
proof -
  define rq0 where "rq0 = rq\<lparr>rq_allow_direct := e_initial E\<rparr>"
  obtain r1 w1 where f: "e_fetch E rq0 w = (r1, w1)" by fastforce
  note k1 = fetch_keeps[OF f]
  show ?thesis
  proof (cases "\<exists>err. r1 = Inl err \<and> fe_direct_required err")
    case False
    then show ?thesis using assms f k1
      by (cases r1) (auto simp: getDownload_def Let_def rq0_def[symmetric])
  next
    case True
    then obtain err where err: "r1 = Inl err" "fe_direct_required err" by blast
    obtain i w2 where ni: "e_new_id E w1 = (i, w2)" by fastforce
    define pd where "pd = \<lparr>dr_id = i, dr_label = short_label label\<rparr>"
    obtain dec w3 where ap: "e_approval E pd w2 = (dec, w3)" by fastforce
    obtain r4 w4 where f2: "e_fetch E (rq0\<lparr>rq_allow_direct := True\<rparr>) w3 = (r4, w4)" by fastforce
    define s2 where "s2 = publishDownloads E w2 (s\<lparr>sv_downloads := (i, pd) # delete_key i (sv_downloads s)\<rparr>)"
    define s3 where "s3 = publishDownloads E w3 (s2\<lparr>sv_downloads := delete_key i (sv_downloads s2)\<rparr>)"
    have "quiet s s2" unfolding s2_def by (blast intro: quiet_trans quiet_hub publishDownloads_quiet)
    then have q3: "quiet s s3" unfolding s3_def by (blast intro: quiet_trans quiet_hub publishDownloads_quiet)
    have keeps: "runs w2 = runs w" "runs w3 = runs w" "runs w4 = runs w"
      using k1 new_id_keeps[OF ni] approval_keeps[OF ap] fetch_keeps[OF f2] by simp_all
    have "(s', w') \<in> {(s, w2), (s3, w3), (s3, w4)}"
      using assms err
      unfolding getDownload_def Let_def rq0_def[symmetric] f ni prod.case err sum.case pd_def[symmetric] ap
        s2_def[symmetric] s3_def[symmetric] f2
      by (auto split: if_splits approval.splits)
    then show ?thesis using q3 keeps by auto
  qed
qed

lemma downloadGeodata_quiet: "downloadGeodata E f s w = (r, s', w') \<Longrightarrow> quiet s s' \<and> runs w' = runs w"
  unfolding downloadGeodata_def
  by (auto split: prod.splits sum.splits dest!: getDownload_quiet write_temp_keeps)

lemma installGeodata_keeps: "installGeodata E f tmp p w = (r, w') \<Longrightarrow> runs w' = runs w"
  unfolding installGeodata_def by (auto split: prod.splits option.splits dest: install_keeps)

lemma ensure_files_quiet: "ensure_files E p fs s w = (r, s', w') \<Longrightarrow> quiet s s' \<and> runs w' = runs w"
proof (induction fs arbitrary: s w)
  case (Cons f fs)
  show ?case
  proof (cases "e_stat E (gd_path f) w")
    case StatMissing
    obtain r1 s1 w1 where d: "downloadGeodata E f s w = (r1, s1, w1)" by (metis prod_cases3)
    note q1 = downloadGeodata_quiet[OF d]
    show ?thesis
    proof (cases r1)
      case (Inr tmp)
      obtain r2 w2 where i: "installGeodata E f tmp p w1 = (r2, w2)" by fastforce
      have k: "runs (e_remove_temp E tmp w2) = runs w" using q1 installGeodata_keeps[OF i] remove_temp_keeps by simp
      show ?thesis
      proof (cases r2)
        case None
        then have "ensure_files E p fs s1 (e_remove_temp E tmp w2) = (r, s', w')"
          using Cons.prems StatMissing d Inr i by simp
        then show ?thesis using Cons.IH q1 k quiet_trans by metis
      qed (use Cons.prems StatMissing d Inr i q1 k in auto)
    qed (use Cons.prems StatMissing d q1 in auto)
  qed (use Cons in auto)
qed simp

lemma ensureGeodata_quiet: "ensureGeodata E p s w = (r, s', w') \<Longrightarrow> quiet s s' \<and> runs w' = runs w"
  unfolding ensureGeodata_def by (rule ensure_files_quiet)

lemma refresh_files_quiet: "refresh_files E fs s w = (s', w') \<Longrightarrow> quiet s s' \<and> runs w' = runs w"
proof (induction fs arbitrary: s w)
  case (Cons f fs)
  show ?case
  proof (cases "\<exists>mtime. e_stat E (gd_path f) w = StatOk mtime \<and> \<not> e_now E w - mtime < geodataAge")
    case True
    then obtain mtime where st: "e_stat E (gd_path f) w = StatOk mtime" "\<not> e_now E w - mtime < geodataAge" by blast
    obtain r1 s1 w1 where d: "downloadGeodata E f s w = (r1, s1, w1)" by (metis prod_cases3)
    note q1 = downloadGeodata_quiet[OF d]
    show ?thesis
    proof (cases r1)
      case (Inl e)
      then have "refresh_files E fs s1 w1 = (s', w')" using Cons.prems st d by simp
      then show ?thesis using Cons.IH q1 quiet_trans by metis
    next
      case (Inr tmp)
      obtain r2 w2 where i: "installGeodata E f tmp (c_profile (runConfig (sv_settings s1) (sv_profile s1))) w1 = (r2, w2)" by fastforce
      have k: "runs (e_remove_temp E tmp w2) = runs w" using q1 installGeodata_keeps[OF i] remove_temp_keeps by simp
      have "refresh_files E fs s1 (e_remove_temp E tmp w2) = (s', w')" using Cons.prems st d Inr i by simp
      then show ?thesis using Cons.IH q1 k quiet_trans by metis
    qed
  next
    case False
    then have "refresh_files E fs s w = (s', w')" using Cons.prems by (auto split: file_stat.splits if_splits)
    then show ?thesis by (rule Cons.IH)
  qed
qed simp

lemma ensure_and_apply_runs:
  assumes "ensure_and_apply E cfg s w = (r, s', w')"
  shows "quiet s s' \<and> runs w' = (case r of None \<Rightarrow> Some cfg | Some e \<Rightarrow> if errors_is e ErrStopped then None else runs w)"
proof -
  obtain r1 s1 w1 where g: "ensureGeodata E (c_profile cfg) s w = (r1, s1, w1)" by (metis prod_cases3)
  note q = ensureGeodata_quiet[OF g]
  show ?thesis
  proof (cases r1)
    case None
    obtain r2 w2 where a: "e_apply E cfg w1 = (r2, w2)" by fastforce
    then show ?thesis using assms g None q apply_cases[OF a] by (auto simp: ensure_and_apply_def split: option.splits)
  next
    case (Some e)
    then show ?thesis using assms g q by (auto simp: ensure_and_apply_def geo_err_def errors_is_def)
  qed
qed

lemma ensure_and_check_quiet:
  "ensure_and_check E code cfg s w = (r, s', w') \<Longrightarrow> quiet s s' \<and> runs w' = runs w"
  unfolding ensure_and_check_def
  by (auto split: prod.splits option.splits dest!: ensureGeodata_quiet check_keeps)

subsection \<open>Starting and stopping\<close>

lemma setState_sel [simp]:
  "sv_settings (setState E st d w s) = sv_settings s" "sv_profile (setState E st d w s) = sv_profile s"
  "sv_subs (setState E st d w s) = sv_subs s" "sv_state (setState E st d w s) = st"
  "sv_restorePending (setState E st d w s) = sv_restorePending s" "sv_addAsked (setState E st d w s) = sv_addAsked s"
  "running (setState E st d w s) = (st = StateOn \<or> st = StateDegraded)"
  by (simp_all add: setState_def running_def Let_def split: proxy_state.split)

lemma start_failed_halted: "halted s (start_failed E d s w)"
proof -
  have "sv_startedAt (setState E StateStopped d w s) = 0" by (simp add: setState_def)
  then show ?thesis by (simp add: halted_def start_failed_def)
qed

lemma halted_running: "halted s s' \<Longrightarrow> \<not> running s'"
  by (simp add: halted_def running_def)

lemma halted_quiet: "quiet s s1 \<Longrightarrow> halted s1 s2 \<Longrightarrow> halted s s2"
  by (simp add: halted_def quiet_sel)

lemma in_step_halted: "halted s s' \<Longrightarrow> runs w = None \<Longrightarrow> in_step runs s' w"
  by (simp add: in_step_def halted_running)

lemma start_active_in_step:
  assumes run: "start_active E s w = (r, s', w')" and none: "runs w = None"
  shows "in_step runs s' w' \<and> (r = None \<longleftrightarrow> running s') \<and> sv_subs s' = sv_subs s"
proof -
  define s1 where "s1 = publish E w (setState E StateStarting [] w s)"
  obtain r2 s2 w2 where a: "ensure_and_apply E (runConfig (sv_settings s1) (sv_profile s1)) s1 w = (r2, s2, w2)"
    by (metis prod_cases3)
  note q = ensure_and_apply_runs[OF a]
  have s1: "sv_subs s1 = sv_subs s" by (simp add: s1_def)
  show ?thesis
  proof (cases r2)
    case None
    then have eq: "r = None" "s' = publish E w2 (setState E StateOn [] w2 s2)" "w' = w2"
      using run a by (auto simp: start_active_def Let_def s1_def[symmetric])
    moreover have "quiet s1 s2" using q by simp
    ultimately show ?thesis using q None s1 quiet_sel[of s1 s2] by (simp add: in_step_def)
  next
    case (Some e)
    then have eq: "r = Some (coreError e)" "s' = start_failed E (ce_text e) s2 w2" "w' = w2"
      using run a by (auto simp: start_active_def Let_def s1_def[symmetric])
    have h: "halted s1 s'" using eq q halted_quiet start_failed_halted by metis
    have "runs w' = None" using q Some none eq by (simp split: if_splits)
    then show ?thesis using h in_step_halted halted_running[OF h] eq s1 by (auto simp: halted_def)
  qed
qed

lemma startLocked_in_step:
  assumes run: "startLocked E s w = (r, s', w')" and ok: "in_step runs s w"
  shows "in_step runs s' w' \<and> (r = None \<longleftrightarrow> running s') \<and> sv_subs s' = sv_subs s"
proof -
  define s1 where "s1 = s\<lparr>sv_restorePending := False\<rparr>"
  have same: "in_step runs s1 w" "running s1 = running s" "sv_subs s1 = sv_subs s" "sv_settings s1 = sv_settings s"
    using ok by (simp_all add: s1_def in_step_def running_def)
  show ?thesis
  proof (cases "running s")
    case True
    then show ?thesis using run same by (simp add: startLocked_def s1_def[symmetric])
  next
    case False
    then have none: "runs w = None" using ok by (simp add: in_step_def)
    have failed: "in_step runs s' w' \<and> (r = None \<longleftrightarrow> running s') \<and> sv_subs s' = sv_subs s"
      if "r = Some e" "s' = start_failed E d s1 w" "w' = w" for e d
      using that in_step_halted[OF start_failed_halted none] halted_running[OF start_failed_halted] same
        start_failed_halted[of s1 d w] by (auto simp: halted_def)
    have active: "in_step runs s' w' \<and> (r = None \<longleftrightarrow> running s') \<and> sv_subs s' = sv_subs s"
      if "start_active E s2 w = (r, s', w')" "sv_subs s2 = sv_subs s1" for s2
      using start_active_in_step[OF that(1) none] that(2) same by simp
    have "(\<exists>e d. r = Some e \<and> s' = start_failed E d s1 w \<and> w' = w)
        \<or> (\<exists>s2. start_active E s2 w = (r, s', w') \<and> sv_subs s2 = sv_subs s1)"
      using run False same(2) unfolding startLocked_def Let_def s1_def[symmetric]
      by (auto split: option.splits sum.splits)
    then show ?thesis using failed active by blast
  qed
qed

lemma saveSettings_in_step:
  assumes "saveSettings E nxt s w = (r, s', w')"
  shows "runs w' = runs w \<and> (r = None \<longrightarrow> s' = s\<lparr>sv_settings := nxt\<rparr>) \<and> (r \<noteq> None \<longrightarrow> s' = s)"
  using assms unfolding saveSettings_def by (auto split: prod.splits option.splits dest: save_settings_keeps)

lemma runConfig_running [simp]: "runConfig (ss\<lparr>st_running := on\<rparr>) p = runConfig ss p"
  by (simp add: runConfig_def)

lemma saveRunning_in_step:
  assumes "saveRunning E on s w = (r, s', w')"
  shows "runs w' = runs w \<and> (s' = s \<or> s' = s\<lparr>sv_settings := (sv_settings s)\<lparr>st_running := on\<rparr>\<rparr>)
    \<and> (r = None \<longrightarrow> st_running (sv_settings s') = on)"
proof (cases "st_running (sv_settings s) = on")
  case True
  then show ?thesis using assms by (simp add: saveRunning_def)
next
  case False
  then have "saveSettings E ((sv_settings s)\<lparr>st_running := on\<rparr>) s w = (r, s', w')" using assms by (simp add: saveRunning_def)
  from saveSettings_in_step[OF this] show ?thesis by (cases r) simp_all
qed

lemma saveRunning_keeps_step: "saveRunning E on s w = (r, s', w') \<Longrightarrow> in_step runs s' w' = in_step runs s w"
  using saveRunning_in_step[of on s w r s' w'] by (auto simp: in_step_def running_def)

lemma start_in_step:
  assumes run: "start E s w = (r, s', w')" and ok: "in_step runs s w"
  shows "in_step runs s' w' \<and> sv_subs s' = sv_subs s"
proof -
  obtain r1 s1 w1 where l: "startLocked E s w = (r1, s1, w1)" by (metis prod_cases3)
  obtain r2 s2 w2 where v: "saveRunning E True s1 w1 = (r2, s2, w2)" by (metis prod_cases3)
  note a = startLocked_in_step[OF l ok] and b = saveRunning_keeps_step[OF v] and c = saveRunning_in_step[OF v]
  show ?thesis using run l v a b c by (auto simp: start_def split: option.splits)
qed

lemma start_on:
  assumes run: "start E s w = (Inr rep, s', w')" and ok: "in_step runs s w"
  shows "running s' \<and> st_running (sv_settings s') \<and> runs w' = Some (runConfig (sv_settings s') (sv_profile s'))"
proof -
  obtain r1 s1 w1 where l: "startLocked E s w = (r1, s1, w1)" by (metis prod_cases3)
  obtain r2 s2 w2 where v: "saveRunning E True s1 w1 = (r2, s2, w2)" by (metis prod_cases3)
  have n: "r1 = None" "r2 = None" "s' = s2" "w' = w2"
    using run l v by (auto simp: start_def split: option.splits)
  then have "running s'" using startLocked_in_step[OF l ok] saveRunning_in_step[OF v] by (auto simp: running_def)
  moreover have "in_step runs s' w'" using start_in_step[OF run ok] by simp
  ultimately show ?thesis using saveRunning_in_step[OF v] n by (simp add: in_step_def)
qed

lemma stop_in_step:
  assumes run: "stop E s w = (r, s', w')"
  shows "in_step runs s' w' \<and> sv_state s' = StateStopped \<and> runs w' = None \<and> sv_subs s' = sv_subs s"
proof -
  obtain r1 w1 where st: "e_stop E w = (r1, w1)" by fastforce
  have k: "r1 = None" "runs w1 = None" using stop_stops[OF st] by simp_all
  define s1 where "s1 = publish E w1 (setState E StateStopped [] w1 (s\<lparr>sv_restorePending := False\<rparr>))"
  obtain r2 s2 w2 where v: "saveRunning E False s1 w1 = (r2, s2, w2)" by (metis prod_cases3)
  have eq: "s' = s2" "w' = w2" using run st k v by (auto simp: stop_def Let_def s1_def[symmetric] split: option.splits)
  have "sv_state s1 = StateStopped" "sv_subs s1 = sv_subs s" by (simp_all add: s1_def)
  then show ?thesis using saveRunning_in_step[OF v] eq k by (auto simp: in_step_def running_def)
qed

lemma retryRestore_in_step:
  assumes run: "retryRestore E s w = (s', w')" and ok: "in_step runs s w"
  shows "in_step runs s' w' \<and> sv_subs s' = sv_subs s"
proof (cases "sv_restorePending s")
  case True
  obtain r1 s1 w1 where l: "startLocked E s w = (r1, s1, w1)" by (metis prod_cases3)
  then show ?thesis using run True startLocked_in_step[OF l ok]
    by (cases r1) (auto simp: retryRestore_def in_step_def running_def)
qed (use assms in \<open>simp add: retryRestore_def\<close>)

subsection \<open>Changing what runs\<close>

lemma reapply_cases:
  assumes run: "reapply E nxt p s w = (r, s', w')"
  obtains (stopped) "\<not> running s" "quiet s s'" "runs w' = runs w"
  | (applied) "running s" "r = None" "quiet s s'" "runs w' = Some (runConfig nxt p)"
  | (kept) e where "running s" "r = Some e" "quiet s s'" "runs w' = runs w"
  | (halted) e where "running s" "r = Some e" "halted s s'" "runs w' = None"
proof (cases "running s")
  case False
  then show ?thesis using run ensure_and_check_quiet[of CodeCore "runConfig nxt p" s w r s' w'] stopped
    by (simp add: reapply_def)
next
  case True
  obtain r1 s1 w1 where a: "ensure_and_apply E (runConfig nxt p) s w = (r1, s1, w1)" by (metis prod_cases3)
  note q = ensure_and_apply_runs[OF a]
  show ?thesis
  proof (cases r1)
    case None
    then show ?thesis using run a q True applied by (simp add: reapply_def)
  next
    case (Some e)
    show ?thesis
    proof (cases "errors_is e ErrStopped")
      case e: True
      then have "r = Some (coreError e)" "s' = start_failed E (ce_text e) s1 w1" "w' = w1"
        using run a Some True by (auto simp: reapply_def)
      moreover have "quiet s s1" "runs w1 = None" using q Some e by simp_all
      ultimately show ?thesis using halted[OF True] halted_quiet start_failed_halted by blast
    next
      case False
      then show ?thesis using run a Some True q kept[of "coreError e"] by (simp add: reapply_def)
    qed
  qed
qed

text \<open>After a failed change: the engine runs either of two configurations, or it is shown stopped.\<close>

lemma rollback_in_step:
  assumes run: "rollback E prev p s w = (ok, s', w')"
    and at: "runs w = (if running s then Some cfg else None)"
  shows "sv_subs s' = sv_subs s" "sv_settings s' = sv_settings s" "sv_profile s' = sv_profile s"
    "ok \<Longrightarrow> runs w' = (if running s' then Some (runConfig prev p) else None)"
    "\<not> ok \<Longrightarrow> runs w' = (if running s' then Some cfg else None)"
    "sv_restorePending s' = sv_restorePending s" "sv_addAsked s' = sv_addAsked s"
proof -
  have "sv_subs s' = sv_subs s \<and> sv_settings s' = sv_settings s \<and> sv_profile s' = sv_profile s
    \<and> sv_restorePending s' = sv_restorePending s \<and> sv_addAsked s' = sv_addAsked s
    \<and> (ok \<longrightarrow> runs w' = (if running s' then Some (runConfig prev p) else None))
    \<and> (\<not> ok \<longrightarrow> runs w' = (if running s' then Some cfg else None))"
  proof (cases "running s")
    case False
    then show ?thesis using run at by (simp add: rollback_def)
  next
    case True
    obtain r1 s1 w1 where a: "reapply E prev p s w = (r1, s1, w1)" by (metis prod_cases3)
    have eq: "s' = s1" "w' = w1" "ok = (r1 = None)"
      using run a True by (auto simp: rollback_def split: option.splits)
    from a show ?thesis
      by (cases rule: reapply_cases) (use True at eq in \<open>auto simp: quiet_sel halted_def running_def\<close>)
  qed
  then show "sv_subs s' = sv_subs s" "sv_settings s' = sv_settings s" "sv_profile s' = sv_profile s"
    "ok \<Longrightarrow> runs w' = (if running s' then Some (runConfig prev p) else None)"
    "\<not> ok \<Longrightarrow> runs w' = (if running s' then Some cfg else None)"
    "sv_restorePending s' = sv_restorePending s" "sv_addAsked s' = sv_addAsked s" by simp_all
qed

lemma syncHost_keeps: "syncHost E on w = (r, w') \<Longrightarrow> runs w' = runs w"
  by (auto simp: syncHost_def split: option.splits dest: sync_keeps)

lemma sync_if_keeps: "sync_if E c on w = (r, w') \<Longrightarrow> runs w' = runs w"
  by (auto simp: sync_if_def split: if_splits prod.splits option.splits dest: syncHost_keeps)

lemma revert_settings_in_step:
  assumes run: "revert_settings E prev nxt p failure s w = (r, s', w')"
    and at: "runs w = (if running s then Some (runConfig nxt p) else None)"
    and cur: "sv_settings s = prev" "sv_profile s = p"
  shows "in_step runs s' w' \<and> r \<noteq> None \<and> sv_subs s' = sv_subs s \<and> sv_profile s' = sv_profile s
    \<and> (sv_settings s' = prev \<or> sv_settings s' = nxt)"
proof -
  define changed where "changed = (tailscale_on nxt \<noteq> tailscale_on prev)"
  obtain e1 w1 where a: "sync_if E (changed \<and> \<not> tailscale_on prev) False w = (e1, w1)" by fastforce
  obtain ok s2 w2 where b: "rollback E prev p s w1 = (ok, s2, w2)" by (metis prod_cases3)
  obtain e2 w3 where c: "sync_if E (changed \<and> tailscale_on prev) True w2 = (e2, w3)" by fastforce
  obtain e3 w4 where d: "sync_if E (\<not> ok \<and> changed) (tailscale_on nxt) w3 = (e3, w4)" by fastforce
  have eq: "r = Some (add_text (e1 @ e2 @ e3) failure)" "s' = (if ok then s2 else s2\<lparr>sv_settings := nxt\<rparr>)" "w' = w4"
    using run unfolding revert_settings_def Let_def changed_def[symmetric] a b c d prod.case by auto
  have k: "runs w1 = runs w" "runs w' = runs w2"
    using sync_if_keeps[OF a] sync_if_keeps[OF c] sync_if_keeps[OF d] eq(3) by simp_all
  have at1: "runs w1 = (if running s then Some (runConfig nxt p) else None)" using at k by simp
  note rb = rollback_in_step[OF b at1]
  show ?thesis
    using rb cur eq k by (cases ok) (auto simp: in_step_def running_def)
qed

lemma commitSettings_in_step:
  assumes run: "commitSettings E nxt p s w = (r, s', w')" and ok: "in_step runs s w" and p: "sv_profile s = p"
  shows "in_step runs s' w' \<and> sv_subs s' = sv_subs s \<and> sv_profile s' = sv_profile s
    \<and> (r = None \<longrightarrow> sv_settings s' = nxt \<and> running s' = running s)
    \<and> (sv_settings s' = sv_settings s \<or> sv_settings s' = nxt)"
proof -
  define prev where "prev = sv_settings s"
  define changed where "changed = (tailscale_on nxt \<noteq> tailscale_on prev)"
  define off where "off = (changed \<and> \<not> tailscale_on nxt)"
  obtain pre w1 where a: "(if off then syncHost E False w else (None, w)) = (pre, w1)" by fastforce
  have k1: "runs w1 = runs w" using a syncHost_keeps by (auto split: if_splits)
  obtain r2 s2 w2 where b: "reapply E nxt p s w1 = (r2, s2, w2)" by (metis prod_cases3)
  obtain tx w2' where t: "sync_if E off (tailscale_on prev) w2 = (tx, w2')" by fastforce
  obtain r3 w3 where c: "(if changed \<and> tailscale_on nxt then syncHost E True w2 else (None, w2)) = (r3, w3)" by fastforce
  have k3: "runs w3 = runs w2" using c syncHost_keeps by (auto split: if_splits)
  obtain r4 s4 w4 where v: "saveSettings E nxt s2 w3 = (r4, s4, w4)" by (metis prod_cases3)
  note sv = saveSettings_in_step[OF v]
  have eqn: "(r, s', w') = (case pre of
       Some err \<Rightarrow> (Some (fail_with CodeCore ''Tailscale integration failed: %v'' [] err), s, w1)
     | None \<Rightarrow> (case r2 of
         Some err \<Rightarrow> (Some (add_text tx err), s2, w2')
       | None \<Rightarrow> (case r3 of
           Some err \<Rightarrow> revert_settings E prev nxt p (fail_with CodeCore ''Tailscale integration failed: %v'' [] err) s2 w3
         | None \<Rightarrow> (case r4 of Some err \<Rightarrow> revert_settings E prev nxt p err s4 w4 | None \<Rightarrow> (None, s4, w4)))))"
    using run unfolding commitSettings_def Let_def prev_def[symmetric] changed_def[symmetric] off_def[symmetric] a prod.case b t c v
    by (auto split: option.splits)
  show ?thesis
  proof (cases pre)
    case (Some err)
    then show ?thesis using eqn ok k1 by (simp add: in_step_def)
  next
    case pre: None
    show ?thesis
    proof (cases r2)
      case r2: (Some err)
      have e: "r = Some (add_text tx err)" "s' = s2" "w' = w2'" using eqn pre r2 by simp_all
      have kt: "runs w' = runs w2" using sync_if_keeps[OF t] e by simp
      from b show ?thesis
        by (cases rule: reapply_cases) (use r2 e ok k1 kt in \<open>auto simp: in_step_def quiet_sel halted_def running_def\<close>)
    next
      case r2: None
      have q: "quiet s s2" "runs w2 = (if running s then Some (runConfig nxt p) else None)"
        using b ok k1 by (cases rule: reapply_cases; use r2 in \<open>auto simp: in_step_def\<close>)+
      note qs = quiet_sel[OF q(1)]
      have at3: "runs w3 = (if running s2 then Some (runConfig nxt p) else None)" using q k3 qs by simp
      have cur: "sv_settings s2 = prev" "sv_profile s2 = p" using qs p by (simp_all add: prev_def)
      have rev: ?thesis if "revert_settings E prev nxt p f s2 w5 = (r, s', w')" "runs w5 = runs w3" for f w5
        using revert_settings_in_step[OF that(1) _ cur] at3 that(2) qs by (auto simp: prev_def)
      show ?thesis
      proof (cases r3)
        case (Some err)
        then show ?thesis using rev eqn pre r2 by simp
      next
        case r3: None
        show ?thesis
        proof (cases r4)
          case (Some err)
          then have "s4 = s2" "runs w4 = runs w3" using sv by simp_all
          then show ?thesis using rev eqn pre r2 r3 Some by simp
        next
          case None
          then have "r = None" "s' = s2\<lparr>sv_settings := nxt\<rparr>" "w' = w4" "runs w4 = runs w3"
            using eqn pre r2 r3 sv by simp_all
          then show ?thesis using at3 cur qs p by (simp add: in_step_def running_def)
        qed
      qed
    qed
  qed
qed

lemma apply_settings_in_step:
  assumes run: "apply_settings E args s w = (r, s', w')" and ok: "in_step runs s w"
  shows "in_step runs s' w' \<and> sv_subs s' = sv_subs s"
proof (cases "checkSettings (aa_settings args) = None \<and> checkRules (uni_lower (e_lib E)) (aa_rules args) = None")
  case False
  then show ?thesis using run ok by (auto simp: apply_settings_def split: option.splits)
next
  case True
  then have l: "apply_locked E args s w = (r, s', w')" using run by (simp add: apply_settings_def)
  define nxt where "nxt = (sv_settings s)\<lparr>st_settings := aa_settings args, st_rules := PruneCategories (aa_rules args)\<rparr>"
  obtain r1 s1 w1 where c: "commitSettings E nxt (sv_profile s) s w = (r1, s1, w1)" by (metis prod_cases3)
  note cs = commitSettings_in_step[OF c ok refl]
  have "(s', w') = (s, w) \<or> (s', w') = (s1, w1) \<or> (s', w') = (publish E w1 s1, w1)"
    using l c unfolding apply_locked_def Let_def nxt_def[symmetric] by (auto split: if_splits option.splits)
  then show ?thesis using cs ok by (auto simp: in_step_publish)
qed

text \<open>An accepted change is stored, current and running.\<close>

lemma apply_settings_accepted:
  assumes run: "apply_settings E args s w = (Inr rep, s', w')" and ok: "in_step runs s w"
  shows "st_settings (sv_settings s') = aa_settings args \<and> st_rules (sv_settings s') = PruneCategories (aa_rules args)
    \<and> running s' = running s \<and> sv_profile s' = sv_profile s"
proof -
  have l: "apply_locked E args s w = (Inr rep, s', w')" using run by (auto simp: apply_settings_def split: option.splits)
  define nxt where "nxt = (sv_settings s)\<lparr>st_settings := aa_settings args, st_rules := PruneCategories (aa_rules args)\<rparr>"
  obtain r1 s1 w1 where c: "commitSettings E nxt (sv_profile s) s w = (r1, s1, w1)" by (metis prod_cases3)
  note cs = commitSettings_in_step[OF c ok refl]
  have "(s' = s \<and> aa_settings args = st_settings (sv_settings s) \<and> PruneCategories (aa_rules args) = st_rules (sv_settings s))
      \<or> (r1 = None \<and> s' = publish E w1 s1)"
    using l c unfolding apply_locked_def Let_def nxt_def[symmetric] by (auto split: if_splits option.splits)
  moreover have "st_settings nxt = aa_settings args" "st_rules nxt = PruneCategories (aa_rules args)"
    by (simp_all add: nxt_def)
  ultimately show ?thesis using cs by auto
qed

lemma acceptContent_cases:
  assumes run: "acceptContent E settings p becomes s w = (r, s', w')"
  obtains (checked) "\<not> (becomes \<and> running s)" "quiet s s'" "runs w' = runs w"
  | (applied) "becomes" "running s" "r = None" "quiet s s'" "runs w' = Some (runConfig settings p)"
  | (kept) e where "becomes" "running s" "r = Some e" "quiet s s'" "runs w' = runs w"
  | (halted) e where "becomes" "running s" "r = Some e" "halted s s'" "runs w' = None"
proof (cases "becomes \<and> running s")
  case False
  then have "ensure_and_check E CodeRejected (runConfig settings p) s w = (r, s', w')"
    using run unfolding acceptContent_def by (auto split: if_splits)
  then show ?thesis using ensure_and_check_quiet checked False by blast
next
  case True
  then have "reapply E settings p s w = (r, s', w')" using run by (simp add: acceptContent_def)
  then show ?thesis by (cases rule: reapply_cases) (use True applied kept halted in auto)
qed

lemma acceptContent_error_in_step:
  assumes "acceptContent E (sv_settings s) p becomes s w = (Some e, s', w')" "in_step runs s w"
  shows "in_step runs s' w' \<and> sv_subs s' = sv_subs s \<and> sv_profile s' = sv_profile s \<and> sv_settings s' = sv_settings s
    \<and> sv_addAsked s' = sv_addAsked s"
  using assms(1)
  by (cases rule: acceptContent_cases) (use assms(2) in \<open>auto simp: in_step_def quiet_sel halted_def running_def\<close>)

lemma acceptContent_ok_in_step:
  assumes "acceptContent E (sv_settings s) p becomes s w = (None, s', w')" "in_step runs s w"
  shows "quiet s s' \<and> runs w' = (if running s then Some (runConfig (sv_settings s) (if becomes then p else sv_profile s)) else None)"
  using assms(1)
  by (cases rule: acceptContent_cases) (use assms(2) in \<open>auto simp: in_step_def\<close>)

lemma selectProxy_in_step:
  "selectProxy E g p s w = (r, s', w') \<Longrightarrow> in_step runs s w \<Longrightarrow> in_step runs s' w' \<and> sv_subs s' = sv_subs s"
  using in_step_quiet[OF publish_quiet] select_keeps
  by (auto simp: selectProxy_def Let_def in_step_def split: option.splits prod.splits sum.splits)

end

end
