(* ===== verification/Subscriptions.thy ===== *)
theory Subscriptions
  imports Ops_Laws
begin

text \<open>
  \<^verbatim>\<open>internal/daemon/subscriptions.go\<close>: adding, refreshing, activating and removing subscriptions.

  A call that downloads holds \<^verbatim>\<open>refreshMu\<close> from its checks to its end and \<^verbatim>\<open>opMu\<close> only after the
  download, so each is two functions here, \<open>_ask\<close> up to the end of the download and \<open>_finish\<close> after it, and
  other calls may come between the two (\<open>System\<close>). Durations in a message are left out of its arguments.
\<close>

subsection \<open>Constants and lookups\<close>

definition maxProviders :: nat where "maxProviders = 64"
definition manualGap :: int where "manualGap = 60 * Second"
definition retryFirst :: int where "retryFirst = 60 * Second"

definition findSub :: "string \<Rightarrow> server \<Rightarrow> (perr, subscription) res" where
  "findSub name s =
     (case validName ''subscription'' name of
        Some err \<Rightarrow> Inl err
      | None \<Rightarrow>
          (case find (\<lambda>sub. sb_name sub = name) (su_list (sv_subs s)) of
             Some sub \<Rightarrow> Inr sub
           | None \<Rightarrow> Inl (fail CodeNotFound ''no subscription %q'' [name])))"

subsection \<open>Downloads\<close>

record fetched =
  dn_snap :: snapshot
  dn_header :: header
  dn_profile :: core_profile

record downloadError =
  de_err :: perr
  de_answered :: bool
  de_retryAfter :: int

definition fetchFailed :: "fetch_err \<Rightarrow> perr \<Rightarrow> downloadError" where
  "fetchFailed err msg =
     (case fe_status err of
        Some after \<Rightarrow> \<lparr>de_err = msg, de_answered = True, de_retryAfter = after\<rparr>
      | None \<Rightarrow> \<lparr>de_err = msg, de_answered = fe_too_large err, de_retryAfter = 0\<rparr>)"

definition rejected :: "string \<Rightarrow> downloadError" where
  "rejected text = \<lparr>de_err = fail_with CodeRejected ''%v'' [] [(text, [])], de_answered = True, de_retryAfter = 0\<rparr>"

fun fetch_providers :: "'w env \<Rightarrow> string \<Rightarrow> int \<Rightarrow> download_item list \<Rightarrow> string strmap \<Rightarrow> server \<Rightarrow> 'w
    \<Rightarrow> (downloadError, string strmap) res \<times> server \<times> 'w" where
  "fetch_providers E name left [] got s w = (Inr got, s, w)"
| "fetch_providers E name left (p # ps) got s w =
     (if left \<le> 0
      then (Inl \<lparr>de_err = fail CodeFetch ''provider %q: %v'' [dl_name p, ''the response is too large''],
                 de_answered = True, de_retryAfter = 0\<rparr>, s, w)
      else case getDownload E (''Provider '' @ dl_name p @ '' for '' @ name)
                  \<lparr>rq_url = dl_url p, rq_max_bytes = left, rq_allow_direct = False\<rparr> s w of
             (Inl err, s1, w1) \<Rightarrow>
               (Inl (fetchFailed err (fail_with CodeFetch ''provider %q: %v'' [dl_name p] (fe_text err))), s1, w1)
           | (Inr r, s1, w1) \<Rightarrow>
               (let key = Key (dl_kind p) (dl_name p)
                in fetch_providers E name (left - int (length (rp_body r))) ps
                     ((key, rp_body r) # delete_key key got) s1 w1))"

definition download :: "'w env \<Rightarrow> string \<Rightarrow> string \<Rightarrow> server \<Rightarrow> 'w \<Rightarrow> (downloadError, fetched) res \<times> server \<times> 'w" where
  "download E name url s w =
     (case getDownload E (''Subscription '' @ name)
             \<lparr>rq_url = url, rq_max_bytes = e_download_limit E, rq_allow_direct = False\<rparr> s w of
        (Inl err, s1, w1) \<Rightarrow> (Inl (fetchFailed err (fail_with CodeFetch ''%v'' [] (fe_text err))), s1, w1)
      | (Inr resp, s1, w1) \<Rightarrow>
          (case Read (e_lib E) (rp_body resp) of
             Inl err \<Rightarrow> (Inl (rejected ''the subscription is not usable''), s1, w1)
           | Inr doc \<Rightarrow>
               (let providers = Downloads (e_lib E) doc
                in if length providers > maxProviders
                   then (Inl (rejected ''it names more than 64 providers''), s1, w1)
                   else
                     (case fetch_providers E name (e_download_limit E - int (length (rp_body resp))) providers [] s1 w1 of
                        (Inl err, s2, w2) \<Rightarrow> (Inl err, s2, w2)
                      | (Inr bodies, s2, w2) \<Rightarrow>
                          (case Build (e_lib E) doc bodies of
                             Inl err \<Rightarrow> (Inl (rejected ''the subscription is not usable''), s2, w2)
                           | Inr (p, dropped) \<Rightarrow>
                               (Inr \<lparr>dn_snap = \<lparr>sn_body = rp_body resp, sn_providers = bodies\<rparr>,
                                     dn_header = rp_header resp, dn_profile = p\<rparr>, s2, w2))))))"

subsection \<open>Names\<close>

text \<open>\<^verbatim>\<open>uniqueName\<close>. A suffix is a space and a number, so no two numbers give the same candidate and the
  loop ends. A suffix longer than \<^verbatim>\<open>MaxTitle\<close> would take more subscriptions than there can be.\<close>

definition sub_candidate :: "string \<Rightarrow> nat \<Rightarrow> string" where
  "sub_candidate name i =
     (let rs = runes name; suffix = '' '' @ itoa_nat i
      in trim_space (concat (take (min (length rs) (MaxTitle - length suffix)) rs)) @ suffix)"

lemma itoa_nat_no_space: "CHR '' '' \<notin> set (itoa_nat i)"
proof -
  have "list_all is_digit (itoa_nat i)" "\<not> is_digit (CHR '' '')" using itoa_nat_digits by (blast, code_simp)
  then show ?thesis by (auto simp: list_all_iff)
qed

lemma space_split_eq:
  "a @ CHR '' '' # x = b @ CHR '' '' # y \<Longrightarrow> CHR '' '' \<notin> set x \<Longrightarrow> CHR '' '' \<notin> set y \<Longrightarrow> x = y"
  by (induction a arbitrary: b) (auto simp: Cons_eq_append_conv append_eq_Cons_conv split: if_splits)

lemma sub_candidate_inj: "sub_candidate name i = sub_candidate name j \<Longrightarrow> i = j"
  unfolding sub_candidate_def Let_def
  by (rule itoa_nat_inj, rule space_split_eq) (auto simp: itoa_nat_no_space)

lemma finite_sub_taken: "finite {j. i \<le> j \<and> sub_candidate name j \<in> set names}"
proof (rule finite_imageD)
  show "finite (sub_candidate name ` {j. i \<le> j \<and> sub_candidate name j \<in> set names})"
    by (rule finite_subset[of _ "set names"]) auto
  show "inj_on (sub_candidate name) {j. i \<le> j \<and> sub_candidate name j \<in> set names}"
    by (auto simp: inj_on_def dest: sub_candidate_inj)
qed

function uniqueName_from :: "string list \<Rightarrow> string \<Rightarrow> nat \<Rightarrow> string" where
  "uniqueName_from names name i =
     (if sub_candidate name i \<in> set names then uniqueName_from names name (Suc i) else sub_candidate name i)"
  by pat_completeness auto
termination
proof (relation "measure (\<lambda>(names, name, i). card {j. i \<le> j \<and> sub_candidate name j \<in> set names})", goal_cases)
  case (2 names name i)
  let ?A = "{j. Suc i \<le> j \<and> sub_candidate name j \<in> set names}"
  let ?B = "{j. i \<le> j \<and> sub_candidate name j \<in> set names}"
  have "?A \<subseteq> ?B" "i \<in> ?B" "i \<notin> ?A" using 2 by auto
  then have "?A \<subset> ?B" by blast
  then show ?case using psubset_card_mono[OF finite_sub_taken] by simp
qed simp

declare uniqueName_from.simps [simp del]

definition uniqueName :: "subscription list \<Rightarrow> string \<Rightarrow> string" where
  "uniqueName subs name =
     (let names = map sb_name subs in if name \<in> set names then uniqueName_from names name 2 else name)"

lemma uniqueName_from_fresh: "uniqueName_from names name i \<notin> set names"
proof (induction names name i rule: uniqueName_from.induct)
  case (1 names name i)
  then show ?case by (subst uniqueName_from.simps) simp
qed

lemma uniqueName_fresh: "uniqueName subs name \<notin> sb_name ` set subs"
  using uniqueName_from_fresh[of "map sb_name subs" name 2] by (simp add: uniqueName_def Let_def)

lemma uniqueName_from_index:
  "\<exists>j. j \<le> i + card {k. i \<le> k \<and> sub_candidate name k \<in> set names} \<and> uniqueName_from names name i = sub_candidate name j"
proof (induction names name i rule: uniqueName_from.induct)
  case (1 names name i)
  let ?A = "\<lambda>i. {k. i \<le> k \<and> sub_candidate name k \<in> set names}"
  show ?case
  proof (cases "sub_candidate name i \<in> set names")
    case True
    then have "?A i = insert i (?A (Suc i))" by (auto simp: le_Suc_eq Suc_le_eq)
    then have "card (?A i) = Suc (card (?A (Suc i)))" using finite_sub_taken by simp
    then show ?thesis using 1[OF True] True by (subst uniqueName_from.simps) auto
  next
    case False
    then show ?thesis by (subst uniqueName_from.simps) (auto intro: exI[of _ i])
  qed
qed

lemma uniqueName_candidate:
  assumes "uniqueName subs name \<noteq> name"
  obtains j where "j \<le> length subs + 2" "uniqueName subs name = sub_candidate name j"
proof -
  let ?T = "{k. 2 \<le> k \<and> sub_candidate name k \<in> set (map sb_name subs)}"
  have "card ?T = card (sub_candidate name ` ?T)"
    by (rule card_image[symmetric]) (auto simp: inj_on_def dest: sub_candidate_inj)
  also have "\<dots> \<le> card (set (map sb_name subs))" by (rule card_mono) auto
  also have "\<dots> \<le> length subs" using card_length[of "map sb_name subs"] by simp
  finally have "card ?T \<le> length subs" .
  moreover have "uniqueName subs name = uniqueName_from (map sb_name subs) name 2"
    using assms by (auto simp: uniqueName_def Let_def)
  moreover obtain j where "j \<le> 2 + card ?T" "uniqueName_from (map sb_name subs) name 2 = sub_candidate name j"
    using uniqueName_from_index[of 2 name "map sb_name subs"] by blast
  ultimately show ?thesis using that[of j] by simp
qed

lemma itoa_nat_length: "n < 10 ^ Suc k \<Longrightarrow> length (itoa_nat n) \<le> Suc k"
proof (induction k arbitrary: n)
  case (Suc k)
  show ?case
  proof (cases "n < 10")
    case False
    have "n div 10 < 10 ^ Suc k" using Suc.prems by (auto intro: less_mult_imp_div_less simp: mult.commute)
    then show ?thesis using Suc.IH[of "n div 10"] False by (subst itoa_nat.simps) simp
  qed (subst itoa_nat.simps, simp)
qed (subst itoa_nat.simps, simp)

lemma spaces_not_digits: "e \<in> set spaces \<Longrightarrow> e \<noteq> [] \<and> \<not> is_digit (last e)"
proof -
  have "list_all (\<lambda>e. e \<noteq> [] \<and> \<not> is_digit (last e)) spaces" by code_simp
  then show "e \<in> set spaces \<Longrightarrow> ?thesis" by (simp add: list_all_iff)
qed

lemma digit_end: "s \<noteq> [] \<Longrightarrow> is_digit (last s) \<Longrightarrow> leading (map rev spaces) (rev s) = None"
  using spaces_not_digits
  by (auto simp: leading_def find_None_iff has_prefix_append) (metis append_is_Nil_conv last_appendR last_rev rev_append rev_is_Nil_conv rev_rev_ident)

lemma digit_facts: "is_digit c \<Longrightarrow> c \<noteq> CHR ''/'' \<and> c \<noteq> CHR 0x5C \<and> rune [c] \<and> \<not> control_rune [c] \<and> \<not> is_cont c"
  by (auto simp: is_digit_def control_rune_def rune_def rune_len.simps(2) is_cont_def less_eq_char_def less_char_def)

lemma digits_plain: "list_all is_digit s \<Longrightarrow> no_sep s \<and> \<not> has_control s \<and> starts s = length s"
proof (induction s)
  case (Cons c s)
  then show ?case using digit_facts[of c] has_control_append[of "[c]" s] by (auto simp: no_sep_def starts_def)
qed (simp add: no_sep_def)

lemma runes_ne: "s \<noteq> [] \<Longrightarrow> runes s \<noteq> []"
  by (subst runes.simps) (auto split: list.split option.split)

lemma strip_left_all: "strip_left es s = [] \<Longrightarrow> s \<noteq> [] \<Longrightarrow> \<exists>u e. s = u @ e \<and> e \<in> set es \<and> e \<noteq> []"
proof (induction es s rule: strip_left.induct)
  case (1 es s)
  from "1.prems" obtain e where e: "leading es s = Some e" by (cases "leading es s") (auto simp: strip_left.simps[of es s])
  then have f: "e \<in> set es" "e \<noteq> []" "s = e @ drop (length e) s" using leading_SomeD by blast+
  show ?case
  proof (cases "drop (length e) s = []")
    case True
    then have "s = [] @ e" using f(3) by simp
    then show ?thesis using f by blast
  next
    case False
    then obtain u e' where "drop (length e) s = u @ e'" "e' \<in> set es" "e' \<noteq> []"
      using "1.IH"[OF e] "1.prems"(1) e by (auto simp: strip_left.simps[of es s])
    then show ?thesis using f(3) by (metis append_assoc)
  qed
qed

lemma trim_space_ne:
  assumes "s \<noteq> []" "leading spaces s = None"
  shows "trim_space s \<noteq> []"
proof
  assume "trim_space s = []"
  then have "strip_left (map rev spaces) (rev s) = []"
    using assms(2) by (simp add: trim_space_def trim_left_def trim_right_def strip_left_id)
  then obtain u e where "rev s = u @ rev e" "e \<in> set spaces" "e \<noteq> []"
    using strip_left_all[of "map rev spaces" "rev s"] assms(1) by auto
  then have "s = e @ rev u" by (metis rev_append rev_rev_ident)
  then show False using assms(2) \<open>e \<in> set spaces\<close> \<open>e \<noteq> []\<close> by (auto simp: leading_def find_None_iff has_prefix_append)
qed

lemma sub_candidate_ok:
  assumes name: "safe_name name" "name \<noteq> []" and short: "length (itoa_nat i) < MaxTitle - 1"
  shows "safe_name (sub_candidate name i) \<and> sub_candidate name i \<noteq> [] \<and> length (sub_candidate name i) \<le> 4 * MaxTitle"
proof -
  define d where "d = itoa_nat i"
  define n where "n = MaxTitle - Suc (length d)"
  define cut where "cut = concat (take n (runes name))"
  have d: "d \<noteq> []" "list_all is_digit d" using itoa_nat_digits by (simp_all add: d_def)
  have eq: "sub_candidate name i = trim_space cut @ CHR '' '' # d"
    by (simp add: sub_candidate_def Let_def cut_def n_def d_def min_def)
  have ln: "leading spaces name = None" using name(1) trim_space_fixed_iff by (auto simp: safe_name_def)
  have nm: "no_sep name" "\<not> has_control name" "name \<noteq> [] \<longrightarrow> hd name \<noteq> CHR ''.''" using name(1) by (auto simp: safe_name_def)
  note co = cut_runes_ok[OF nm(1,2) ln nm(3), of n, folded cut_def]
  have n: "0 < n" "n + Suc (length d) = MaxTitle" using short by (simp_all add: n_def d_def)
  obtain r rs where rr: "runes name = r # rs" using runes_ne[OF name(2)] by (cases "runes name") simp_all
  then have "rune r" using runes_rune[of r name] by simp
  then have "cut \<noteq> []" using n(1) rr by (cases n) (auto simp: cut_def rune_def)
  define t where "t = trim_space cut"
  have st: "safe_name t" unfolding t_def using co n(2) by (intro safe_trim) auto
  obtain p where p: "cut = t @ p" unfolding t_def using trim_space_prefix[OF co(5)] by blast
  have t: "t \<noteq> []" unfolding t_def by (rule trim_space_ne) fact+
  have "starts cut = starts t + starts p" using p by simp
  then have a: "starts (t @ CHR '' '' # d) \<le> MaxTitle"
    using co(3) digits_plain[OF d(2)] n(2) by (simp add: starts_def is_cont_def less_eq_char_def)
  have "leading spaces t = None" using st trim_space_fixed_iff by (simp add: safe_name_def)
  then have "leading spaces (t @ CHR '' '' # d) = None" by (rule leading_before_space[OF t])
  moreover have "leading (map rev spaces) (rev (t @ CHR '' '' # d)) = None"
    by (rule digit_end) (use d in \<open>auto simp: list_all_iff\<close>)
  ultimately have b: "trim_space (t @ CHR '' '' # d) = t @ CHR '' '' # d" by (simp only: trim_space_fixed_iff)
  have c: "no_sep (t @ CHR '' '' # d)" "\<not> has_control (t @ CHR '' '' # d)"
    using st digits_plain[OF d(2)] by (auto simp: safe_name_def no_sep_def has_control_space)
  have "length t \<le> 4 * n" using trim_space_length[of cut] cut_length[of n name] by (simp add: t_def cut_def)
  then have "length (t @ CHR '' '' # d) \<le> 4 * MaxTitle" using n(2) by simp
  moreover have "hd (t @ CHR '' '' # d) \<noteq> CHR ''.''" using st t by (simp add: safe_name_def)
  ultimately show ?thesis using a b c by (simp add: eq t_def[symmetric] safe_name_def)
qed

lemma uniqueName_ok:
  assumes "safe_name name" "name \<noteq> []" "length name \<le> 4 * MaxTitle" "length subs < 10 ^ 60"
  shows "safe_name (uniqueName subs name) \<and> uniqueName subs name \<noteq> [] \<and> length (uniqueName subs name) \<le> 4 * MaxTitle"
proof (cases "uniqueName subs name = name")
  case False
  then obtain j where j: "j \<le> length subs + 2" "uniqueName subs name = sub_candidate name j"
    by (rule uniqueName_candidate)
  have "j < 10 ^ Suc 60" using j(1) assms(4) by simp
  then have "length (itoa_nat j) < MaxTitle - 1" using itoa_nat_length[of j 60] by (simp add: MaxTitle_def)
  then show ?thesis using sub_candidate_ok[OF assms(1,2)] j(2) by simp
qed (use assms in simp)

subsection \<open>Saving records\<close>

definition saveSubs :: "'w env \<Rightarrow> subscriptions \<Rightarrow> server \<Rightarrow> 'w \<Rightarrow> perr option \<times> server \<times> 'w" where
  "saveSubs E nxt s w =
     (case e_save_subs E nxt w of
        (Some err, w1) \<Rightarrow> (Some (fail_with CodeInternal ''the subscriptions could not be saved: %v'' [] err), s, w1)
      | (None, w1) \<Rightarrow> (None, s\<lparr>sv_subs := nxt\<rparr>, w1))"

fun edit_first :: "string \<Rightarrow> (subscription \<Rightarrow> subscription) \<Rightarrow> subscription list \<Rightarrow> subscription list option" where
  "edit_first i edit [] = None"
| "edit_first i edit (sub # subs) =
     (if sb_id sub = i then Some (edit sub # subs) else map_option (Cons sub) (edit_first i edit subs))"

definition removed_meanwhile :: perr where
  "removed_meanwhile = fail CodeNotFound ''the subscription was removed meanwhile'' []"

definition updateSub :: "'w env \<Rightarrow> string \<Rightarrow> (subscription \<Rightarrow> subscription) \<Rightarrow> server \<Rightarrow> 'w \<Rightarrow> perr option \<times> server \<times> 'w" where
  "updateSub E i edit s w =
     (case edit_first i edit (su_list (sv_subs s)) of
        None \<Rightarrow> (Some removed_meanwhile, s, w)
      | Some subs \<Rightarrow> saveSubs E ((sv_subs s)\<lparr>su_list := subs\<rparr>) s w)"

subsection \<open>Adding\<close>

definition ctx_of :: "'w env \<Rightarrow> bool \<Rightarrow> 'w env" where
  "ctx_of E initial = (if initial then E\<lparr>e_initial := True\<rparr> else E)"

definition prune_asked :: "int \<Rightarrow> int strmap \<Rightarrow> int strmap" where
  "prune_asked now asked = filter (\<lambda>(u, at). \<not> now - at \<ge> manualGap) asked"

definition add_ask :: "'w env \<Rightarrow> string \<Rightarrow> server \<Rightarrow> 'w \<Rightarrow> (perr, bool \<times> fetched) res \<times> server \<times> 'w" where
  "add_ask E url s w =
     (case CheckURL (url_parse (e_lib E)) url of
        Some err \<Rightarrow> (Inl (fail CodeInvalid ''the subscription URL is not usable: %v'' []), s, w)
      | None \<Rightarrow>
          (let initial = (su_list (sv_subs s) = []);
               taken = list_ex (\<lambda>sub. sb_url sub = url) (su_list (sv_subs s))
           in if taken then (Inl (fail CodeConflict ''a subscription with this URL is already added'' []), s, w)
              else
                let now = e_now E w; asked = prune_asked now (sv_addAsked s); s1 = s\<lparr>sv_addAsked := asked\<rparr>
                in if map_of asked url \<noteq> None
                   then (Inl (fail CodeConflict ''this URL was asked %s ago; try again in %s'' []), s1, w)
                   else
                     (case download (ctx_of E initial) ''(new)'' url (s1\<lparr>sv_addAsked := (url, now) # asked\<rparr>) w of
                        (Inl derr, s2, w2) \<Rightarrow> (Inl (de_err derr), s2, w2)
                      | (Inr dl, s2, w2) \<Rightarrow> (Inr (initial, dl), s2, w2))))"

definition new_sub :: "'w env \<Rightarrow> string \<Rightarrow> string \<Rightarrow> fetched \<Rightarrow> int \<Rightarrow> subscription list \<Rightarrow> subscription" where
  "new_sub E i url dl now subs =
     (let u = ReadUsage (e_headers E) (dn_header dl)
      in \<lparr>sb_id = i, sb_name = uniqueName subs (Name (e_headers E) (dn_header dl) url), sb_url = url,
          sb_updated_at = ms now, sb_interval_seconds = Interval (dn_header dl) div Second,
          sb_upload = u_upload u, sb_download = u_download u, sb_total = u_total u, sb_expire = u_expire u,
          sb_last_attempt = ms now, sb_retry_at = 0, sb_held_until = 0, sb_last_error = []\<rparr>)"

definition revert_add :: "'w env \<Rightarrow> bool \<Rightarrow> state_settings \<Rightarrow> core_profile \<Rightarrow> subscriptions \<Rightarrow> core_profile \<Rightarrow> server \<Rightarrow> 'w
    \<Rightarrow> server \<times> 'w" where
  "revert_add E activate settings prev nxt p s w =
     (if activate
      then (case rollback E settings prev s w of
              (True, s1, w1) \<Rightarrow> (publish E w1 s1, w1)
            | (False, s1, w1) \<Rightarrow> (publish E w1 (s1\<lparr>sv_subs := nxt, sv_profile := p\<rparr>), w1))
      else (publish E w s, w))"

definition with_sub :: "subscription \<Rightarrow> subscriptions \<Rightarrow> subscriptions" where
  "with_sub sub subs =
     \<lparr>su_active = (if su_active subs = [] then sb_id sub else su_active subs), su_list = su_list subs @ [sub]\<rparr>"

text \<open>\<open>E\<close> is the context of the call, with the value \<open>ctx_of\<close> gave it.\<close>

definition add_finish :: "'w env \<Rightarrow> string \<Rightarrow> fetched \<Rightarrow> server \<Rightarrow> 'w \<Rightarrow> (perr, reply) res \<times> server \<times> 'w" where
  "add_finish E url dl s w0 =
     (let now = e_now E w0; (i, w) = e_new_id E w0;
          sub = new_sub E i url dl now (su_list (sv_subs s));
          activate = (su_active (sv_subs s) = []);
          nxt = with_sub sub (sv_subs s);
          settings = sv_settings s; prev = sv_profile s
      in case acceptContent E settings (dn_profile dl) activate s w of
           (Some err, s1, w1) \<Rightarrow> (Inl err, s1, w1)
         | (None, s1, w1) \<Rightarrow>
             (case e_save_snapshot E i (dn_snap dl) w1 of
                (Some err, w2) \<Rightarrow>
                  (let (s3, w3) = revert_add E activate settings prev nxt (dn_profile dl) s1 w2
                   in (Inl (fail_with CodeInternal ''the subscription could not be saved: %v'' [] err), s3, w3))
              | (None, w2) \<Rightarrow>
                  (case saveSubs E nxt s1 w2 of
                     (Some err, s3, w3) \<Rightarrow>
                       (let (_, w4) = e_remove_snapshot E i w3;
                            (s5, w5) = revert_add E activate settings prev nxt (dn_profile dl) s3 w4
                        in (Inl err, s5, w5))
                   | (None, s3, w3) \<Rightarrow>
                       (let s4 = (if activate then s3\<lparr>sv_profile := dn_profile dl\<rparr> else s3)
                        in (Inr (RSubscription (describe sub activate)), publish E w3 s4, w3)))))"

definition addSubscription :: "'w env \<Rightarrow> string \<Rightarrow> server \<Rightarrow> 'w \<Rightarrow> (perr, reply) res \<times> server \<times> 'w" where
  "addSubscription E url s w =
     (case add_ask E url s w of
        (Inl err, s1, w1) \<Rightarrow> (Inl err, s1, w1)
      | (Inr (initial, dl), s1, w1) \<Rightarrow> add_finish (ctx_of E initial) url dl s1 w1)"

subsection \<open>Refreshing\<close>

definition mayAsk :: "subscription \<Rightarrow> int \<Rightarrow> perr option" where
  "mayAsk sub now =
     (if sb_last_attempt sub * 1000000 + manualGap - now > 0
      then Some (fail CodeConflict ''%s was asked %s ago; try again in %s'' [sb_name sub])
      else if sb_held_until sub > ms now
      then Some (fail CodeConflict ''%s cannot be asked again until %s'' [sb_name sub])
      else None)"

text \<open>The answer of a call that ends at once, or the record and the download \<open>refresh_finish\<close> goes on with.\<close>

datatype asked = Answered "(perr, reply) res" | Asked subscription "(downloadError, fetched) res"

definition refresh_ask :: "'w env \<Rightarrow> string \<Rightarrow> bool \<Rightarrow> server \<Rightarrow> 'w \<Rightarrow> asked \<times> server \<times> 'w" where
  "refresh_ask E i manual s w =
     (case sub_by_id i (su_list (sv_subs s)) of
        None \<Rightarrow> (Answered (Inl removed_meanwhile), s, w)
      | Some sub \<Rightarrow>
          (case (if manual then mayAsk sub (e_now E w) else None) of
             Some err \<Rightarrow> (Answered (Inl err), s, w)
           | None \<Rightarrow>
               if \<not> manual \<and> nextUpdate sub > ms (e_now E w) then (Answered (Inr RNothing), s, w)
               else (case download E (sb_name sub) (sb_url sub) s w of (r, s1, w1) \<Rightarrow> (Asked sub r, s1, w1))))"

definition retry_wait :: "subscription \<Rightarrow> int \<Rightarrow> bool \<Rightarrow> int \<Rightarrow> int" where
  "retry_wait sub interval answered after =
     (let wait = (if answered then interval
                  else min (if sb_retry_at sub > sb_last_attempt sub \<and> sb_last_attempt sub > 0
                            then 2 * (sb_retry_at sub - sb_last_attempt sub) * 1000000 else retryFirst) interval)
      in max wait after)"

definition failed_edit :: "int \<Rightarrow> int \<Rightarrow> bool \<Rightarrow> msg \<Rightarrow> subscription \<Rightarrow> subscription" where
  "failed_edit now wait answered why sub =
     (let sub1 = sub\<lparr>sb_last_attempt := ms now, sb_retry_at := ms (now + wait), sb_last_error := why\<rparr>
      in if answered then sub1\<lparr>sb_held_until := sb_retry_at sub1\<rparr> else sub1)"

definition failRefresh :: "'w env \<Rightarrow> subscription \<Rightarrow> int \<Rightarrow> int \<Rightarrow> bool \<Rightarrow> int \<Rightarrow> msg \<Rightarrow> server \<Rightarrow> 'w \<Rightarrow> server \<times> 'w" where
  "failRefresh E sub now interval answered after why s w =
     (case updateSub E (sb_id sub) (failed_edit now (retry_wait sub interval answered after) answered why) s w of
        (_, s1, w1) \<Rightarrow> (s1, w1))"

definition done_edit :: "'w env \<Rightarrow> int \<Rightarrow> header \<Rightarrow> subscription \<Rightarrow> subscription" where
  "done_edit E now h sub =
     (let u = ReadUsage (e_headers E) h
      in sub\<lparr>sb_updated_at := ms now, sb_last_attempt := ms now, sb_retry_at := 0, sb_held_until := 0, sb_last_error := [],
             sb_interval_seconds := Interval h div Second,
             sb_upload := u_upload u, sb_download := u_download u, sb_total := u_total u, sb_expire := u_expire u\<rparr>)"

definition set_profile_if :: "bool \<Rightarrow> core_profile \<Rightarrow> server \<Rightarrow> server" where
  "set_profile_if c p s = (if c then s\<lparr>sv_profile := p\<rparr> else s)"

definition refresh_finish :: "'w env \<Rightarrow> subscription \<Rightarrow> (downloadError, fetched) res \<Rightarrow> server \<Rightarrow> 'w
    \<Rightarrow> (perr, reply) res \<times> server \<times> 'w" where
  "refresh_finish E sub result s w =
     (let i = sb_id sub; now = e_now E w
      in case result of
           Inl derr \<Rightarrow>
             (let (s1, w1) = failRefresh E sub now (sb_interval_seconds sub * Second) (de_answered derr) (de_retryAfter derr)
                               (pe_message (de_err derr)) s w
              in (Inl (de_err derr), publish E w1 s1, w1))
         | Inr dl \<Rightarrow>
             let active = (su_active (sv_subs s) = i); settings = sv_settings s; prev = sv_profile s
             in if \<not> list_ex (\<lambda>x. sb_id x = i) (su_list (sv_subs s)) then (Inl removed_meanwhile, s, w)
                else case acceptContent E settings (dn_profile dl) active s w of
                       (Some err, s1, w1) \<Rightarrow>
                         (let (s2, w2) = failRefresh E sub now (Interval (dn_header dl)) (pe_code err = CodeRejected) 0
                                           (pe_message err) s1 w1
                          in (Inl err, publish E w2 s2, w2))
                     | (None, s1, w1) \<Rightarrow>
                         (case e_save_snapshot E i (dn_snap dl) w1 of
                            (Some err, w2) \<Rightarrow>
                              (let (ok, s3, w3) = (if active then rollback E settings prev s1 w2 else (True, s1, w2))
                               in (Inl (fail_with CodeInternal ''the subscription could not be saved: %v'' [] err),
                                   set_profile_if (\<not> ok) (dn_profile dl) s3, w3))
                          | (None, w2) \<Rightarrow>
                              (let s3 = set_profile_if active (dn_profile dl) s1
                               in case updateSub E i (done_edit E now (dn_header dl)) s3 w2 of
                                    (Some err, s4, w4) \<Rightarrow> (Inl err, s4, w4)
                                  | (None, s4, w4) \<Rightarrow>
                                      (Inr (case sub_by_id i (su_list (sv_subs s4)) of
                                              Some sub' \<Rightarrow> RSubscription (describe sub' active) | None \<Rightarrow> RNothing),
                                       publish E w4 s4, w4))))"

definition refresh :: "'w env \<Rightarrow> string \<Rightarrow> bool \<Rightarrow> server \<Rightarrow> 'w \<Rightarrow> (perr, reply) res \<times> server \<times> 'w" where
  "refresh E i manual s w =
     (case refresh_ask E i manual s w of
        (Answered r, s1, w1) \<Rightarrow> (r, s1, w1)
      | (Asked sub result, s1, w1) \<Rightarrow> refresh_finish E sub result s1 w1)"

definition updateSubscription :: "'w env \<Rightarrow> string \<Rightarrow> server \<Rightarrow> 'w \<Rightarrow> (perr, reply) res \<times> server \<times> 'w" where
  "updateSubscription E name s w =
     (case findSub name s of Inl err \<Rightarrow> (Inl err, s, w) | Inr sub \<Rightarrow> refresh E (sb_id sub) True s w)"

definition due :: "int \<Rightarrow> subscription list \<Rightarrow> string list" where
  "due now subs = map sb_id (filter (\<lambda>sub. nextUpdate sub \<le> now) subs)"

definition refreshDue :: "'w env \<Rightarrow> server \<Rightarrow> 'w \<Rightarrow> server \<times> 'w" where
  "refreshDue E s w =
     fold (\<lambda>i (s, w). snd (refresh E i False s w)) (due (ms (e_now E w)) (su_list (sv_subs s))) (s, w)"

subsection \<open>Activating and removing\<close>

definition activateSubscription :: "'w env \<Rightarrow> string \<Rightarrow> server \<Rightarrow> 'w \<Rightarrow> (perr, reply) res \<times> server \<times> 'w" where
  "activateSubscription E name s w =
     (case findSub name s of
        Inl err \<Rightarrow> (Inl err, s, w)
      | Inr sub \<Rightarrow>
          (let settings = sv_settings s; prev = sv_profile s
           in if su_active (sv_subs s) = sb_id sub then (Inr (RStatus (status_of E s w)), s, w)
              else case loadProfile E sub w of
                     Inl err \<Rightarrow> (Inl (fail_with CodeRejected ''%s cannot be read: %v'' [sb_name sub] err), s, w)
                   | Inr p \<Rightarrow>
                       (case acceptContent E settings p True s w of
                          (Some err, s1, w1) \<Rightarrow> (Inl err, s1, w1)
                        | (None, s1, w1) \<Rightarrow>
                            (let nxt = (sv_subs s)\<lparr>su_active := sb_id sub\<rparr>
                             in case saveSubs E nxt s1 w1 of
                                  (Some err, s2, w2) \<Rightarrow>
                                    (let (s3, w3) = revert_add E True settings prev nxt p s2 w2 in (Inl err, s3, w3))
                                | (None, s2, w2) \<Rightarrow>
                                    (let s3 = s2\<lparr>sv_profile := p,
                                                 sv_detail := (if sv_state s2 = StateStopped then [] else sv_detail s2)\<rparr>;
                                         s4 = publish E w2 s3
                                     in (Inr (RStatus (status_of E s4 w2)), s4, w2))))))"

definition remove_found :: "'w env \<Rightarrow> subscription \<Rightarrow> server \<Rightarrow> 'w \<Rightarrow> (perr, reply) res \<times> server \<times> 'w" where
  "remove_found E sub s w =
     (let active = (su_active (sv_subs s) = sb_id sub)
      in if active \<and> running s
         then (Inl (fail CodeConflict ''%s is running; stop the proxy or activate another subscription first'' [sb_name sub]), s, w)
         else
           let nxt = \<lparr>su_active = (if active then [] else su_active (sv_subs s)),
                      su_list = filter (\<lambda>x. sb_id x \<noteq> sb_id sub) (su_list (sv_subs s))\<rparr>
           in case saveSubs E nxt s w of
                (Some err, s1, w1) \<Rightarrow> (Inl err, s1, w1)
              | (None, s1, w1) \<Rightarrow>
                  (let (_, w2) = e_remove_snapshot E (sb_id sub) w1;
                       s2 = set_profile_if active empty_profile s1
                   in (Inr REmpty, publish E w2 s2, w2)))"

definition removeSubscription :: "'w env \<Rightarrow> string \<Rightarrow> server \<Rightarrow> 'w \<Rightarrow> (perr, reply) res \<times> server \<times> 'w" where
  "removeSubscription E name s w =
     (case findSub name s of Inl err \<Rightarrow> (Inl err, s, w) | Inr sub \<Rightarrow> remove_found E sub s w)"

text \<open>One round of \<^verbatim>\<open>refreshLoop\<close>.\<close>

definition refresh_round :: "'w env \<Rightarrow> server \<Rightarrow> 'w \<Rightarrow> server \<times> 'w" where
  "refresh_round E s w =
     (let (s1, w1) = retryRestore E s w; (s2, w2) = refreshDue E s1 w1 in refreshGeodata E s2 w2)"

end
