(* ===== verification/Subs_Laws.thy ===== *)
theory Subs_Laws
  imports Subscriptions
begin

text \<open>
  The laws of the subscription calls: they keep the daemon in step with the core, keep the list of
  subscriptions well formed, and keep the times a server was promised.
\<close>

subsection \<open>Records\<close>

text \<open>Identifiers, names and URLs are each used once; the active subscription is one of the list.\<close>

definition subs_ok :: "subscriptions \<Rightarrow> bool" where
  "subs_ok su \<longleftrightarrow> distinct (map sb_id (su_list su)) \<and> distinct (map sb_name (su_list su)) \<and> distinct (map sb_url (su_list su))
     \<and> [] \<notin> sb_id ` set (su_list su) \<and> (su_active su = [] \<or> su_active su \<in> sb_id ` set (su_list su))"

text \<open>A server's hold ends no later than the next refresh, and the refresh interval is at least an hour.\<close>

definition times_ok :: "subscription \<Rightarrow> bool" where
  "times_ok sub \<longleftrightarrow> sb_held_until sub \<le> sb_retry_at sub \<and> 3600 \<le> sb_interval_seconds sub"

definition same_identity :: "(subscription \<Rightarrow> subscription) \<Rightarrow> bool" where
  "same_identity edit \<longleftrightarrow> (\<forall>sub. sb_id (edit sub) = sb_id sub \<and> sb_name (edit sub) = sb_name sub \<and> sb_url (edit sub) = sb_url sub)"

lemma edit_first_maps:
  assumes "edit_first i edit l = Some l'" "same_identity edit"
  shows "map sb_id l' = map sb_id l" "map sb_name l' = map sb_name l" "map sb_url l' = map sb_url l"
  using assms by (induction l arbitrary: l') (auto simp: same_identity_def split: if_splits)

lemma edit_first_set:
  "edit_first i edit l = Some l' \<Longrightarrow> x \<in> set l' \<Longrightarrow> x \<in> set l \<or> (\<exists>y \<in> set l. sb_id y = i \<and> x = edit y)"
  by (induction l arbitrary: l') (auto split: if_splits)

lemma edit_first_None: "edit_first i edit l = None \<longleftrightarrow> i \<notin> sb_id ` set l"
  by (induction l) auto

lemma edit_first_at:
  "edit_first i edit l = Some l' \<Longrightarrow> same_identity edit \<Longrightarrow> sub_by_id i l' = map_option edit (sub_by_id i l)"
  by (induction l arbitrary: l') (auto simp: sub_by_id_def same_identity_def split: if_splits)

lemma failed_edit_identity: "same_identity (failed_edit now wait answered why)"
  by (simp add: same_identity_def failed_edit_def Let_def)

lemma done_edit_identity: "same_identity (done_edit E now h)"
  by (simp add: same_identity_def done_edit_def Let_def)

lemma subs_ok_edit:
  assumes "subs_ok su" "edit_first i edit (su_list su) = Some l" "same_identity edit"
  shows "subs_ok (su\<lparr>su_list := l\<rparr>)"
proof -
  note m = edit_first_maps[OF assms(2,3)]
  have "sb_id ` set l = sb_id ` set (su_list su)" using m(1) by (metis set_map)
  then show ?thesis using assms(1) m by (simp add: subs_ok_def)
qed

lemma subs_ok_with:
  assumes "subs_ok su" "sb_id sub \<notin> sb_id ` set (su_list su)" "sb_id sub \<noteq> []" "sb_name sub \<notin> sb_name ` set (su_list su)"
    "sb_url sub \<notin> sb_url ` set (su_list su)"
  shows "subs_ok (with_sub sub su)"
  using assms by (auto simp: subs_ok_def with_sub_def)

lemma subs_ok_remove:
  "subs_ok su \<Longrightarrow> subs_ok \<lparr>su_active = (if su_active su = i then [] else su_active su), su_list = filter (\<lambda>x. sb_id x \<noteq> i) (su_list su)\<rparr>"
  by (auto simp: subs_ok_def distinct_map inj_on_def)

lemma ms_mono: "a \<le> b \<Longrightarrow> ms a \<le> ms b"
  by (simp add: ms_def zdiv_mono1)

text \<open>How long a failed refresh waits.\<close>

lemma retry_wait_bounds:
  "0 \<le> interval \<Longrightarrow> min retryFirst interval \<le> retry_wait sub interval answered after \<or> sb_last_attempt sub < sb_retry_at sub"
  "retry_wait sub interval answered after \<le> max interval after"
  "after \<le> retry_wait sub interval answered after"
  by (auto simp: retry_wait_def Let_def)

lemma retry_wait_nonneg: "0 \<le> interval \<Longrightarrow> 0 \<le> retry_wait sub interval answered after"
  by (auto simp: retry_wait_def Let_def retryFirst_def Second_def)

lemma failed_edit_times:
  assumes "times_ok sub" "sb_held_until sub \<le> ms now" "0 \<le> wait"
  shows "times_ok (failed_edit now wait answered why sub)"
proof -
  have "ms now \<le> ms (now + wait)" using assms(3) by (intro ms_mono) simp
  then show ?thesis using assms by (auto simp: times_ok_def failed_edit_def Let_def)
qed

lemma Interval_seconds: "3600 \<le> Interval h div Second"
proof -
  have "Hour \<le> Interval h" using Interval_bounds by blast
  then have "Hour div Second \<le> Interval h div Second" by (intro zdiv_mono1) (simp_all add: Second_def)
  then show ?thesis by (simp add: Hour_def Second_def)
qed

lemma done_edit_times: "times_ok (done_edit E now h sub)"
  using Interval_seconds[of h] by (simp add: times_ok_def done_edit_def Let_def)

lemma new_sub_times: "times_ok (new_sub E i url dl now subs)"
  using Interval_seconds[of "dn_header dl"] by (simp add: times_ok_def new_sub_def Let_def)

lemma new_sub_sel [simp]:
  "sb_id (new_sub E i url dl now subs) = i" "sb_url (new_sub E i url dl now subs) = url"
  "sb_name (new_sub E i url dl now subs) = uniqueName subs (Name (e_headers E) (dn_header dl) url)"
  by (simp_all add: new_sub_def Let_def)

text \<open>What a call may do to the list: nothing, or one edit of the record with identifier \<open>i\<close>.\<close>

definition edited :: "string \<Rightarrow> (subscription \<Rightarrow> subscription) \<Rightarrow> subscriptions \<Rightarrow> subscriptions \<Rightarrow> bool" where
  "edited i edit su su' \<longleftrightarrow> su' = su \<or> (\<exists>l. edit_first i edit (su_list su) = Some l \<and> su' = su\<lparr>su_list := l\<rparr>)"

text \<open>The edits a refresh of \<open>sub\<close> makes to its record.\<close>

inductive refresh_edit :: "'w env \<Rightarrow> subscription \<Rightarrow> int \<Rightarrow> (subscription \<Rightarrow> subscription) \<Rightarrow> bool"
  for E :: "'w env" and sub :: subscription and now :: int
where
  failed: "refresh_edit E sub now (failed_edit now (retry_wait sub (sb_interval_seconds sub * Second) answered after) answered why)"
| refused: "refresh_edit E sub now (failed_edit now (retry_wait sub (Interval h) answered 0) answered why)"
| refreshed: "refresh_edit E sub now (done_edit E now h)"

lemma refresh_edit_identity: "refresh_edit E sub now edit \<Longrightarrow> same_identity edit"
  by (auto elim!: refresh_edit.cases intro: failed_edit_identity done_edit_identity)

lemma refresh_edit_times:
  assumes "refresh_edit E sub now edit" "times_ok sub" "times_ok x" "sb_held_until x \<le> ms now"
  shows "times_ok (edit x)"
  using assms(1)
proof cases
  case failed
  have "0 \<le> sb_interval_seconds sub * Second" using assms(2) by (simp add: times_ok_def Second_def)
  then show ?thesis unfolding failed by (intro failed_edit_times[OF assms(3,4)] retry_wait_nonneg)
next
  case (refused h answered why)
  have "0 \<le> Interval h" using Interval_bounds[of h] by (simp add: Hour_def)
  then show ?thesis unfolding refused by (intro failed_edit_times[OF assms(3,4)] retry_wait_nonneg)
qed (simp add: done_edit_times)

subsection \<open>Calls\<close>

lemma in_step_sel:
  "sv_state s' = sv_state s \<Longrightarrow> sv_settings s' = sv_settings s \<Longrightarrow> sv_profile s' = sv_profile s \<Longrightarrow> runs w' = runs w \<Longrightarrow>
     in_step runs s' w' = in_step runs s w"
  by (simp add: in_step_def running_def)

context daemon_env
begin

lemma ctx_env: "daemon_env (ctx_of E b) runs"
  using daemon_env_axioms unfolding ctx_of_def daemon_env_def core_contract_def daemon_env_axioms_def by simp

lemma fetch_providers_quiet:
  "fetch_providers E name left ps got s w = (r, s', w') \<Longrightarrow> quiet s s' \<and> runs w' = runs w"
proof (induction ps arbitrary: left got s w)
  case (Cons p ps)
  define rq where "rq = \<lparr>rq_url = dl_url p, rq_max_bytes = left, rq_allow_direct = False\<rparr>"
  obtain r1 s1 w1 where g: "getDownload E (''Provider '' @ dl_name p @ '' for '' @ name) rq s w = (r1, s1, w1)"
    by (metis prod_cases3)
  note q = getDownload_quiet[OF g]
  show ?case
  proof (cases "left \<le> 0")
    case False
    show ?thesis
    proof (cases r1)
      case (Inr rp)
      then have "fetch_providers E name (left - int (length (rp_body rp))) ps
          ((Key (dl_kind p) (dl_name p), rp_body rp) # delete_key (Key (dl_kind p) (dl_name p)) got) s1 w1 = (r, s', w')"
        using Cons.prems False g by (simp add: rq_def Let_def)
      then show ?thesis using Cons.IH q quiet_trans by metis
    qed (use Cons.prems False g q in \<open>auto simp: rq_def\<close>)
  qed (use Cons.prems in auto)
qed simp

lemma download_quiet: "download E name url s w = (r, s', w') \<Longrightarrow> quiet s s' \<and> runs w' = runs w"
proof -
  assume run: "download E name url s w = (r, s', w')"
  define rq where "rq = \<lparr>rq_url = url, rq_max_bytes = e_download_limit E, rq_allow_direct = False\<rparr>"
  obtain r1 s1 w1 where g: "getDownload E (''Subscription '' @ name) rq s w = (r1, s1, w1)" by (metis prod_cases3)
  note q = getDownload_quiet[OF g]
  have "(s', w') = (s1, w1) \<or> (\<exists>left ps r2. fetch_providers E name left ps [] s1 w1 = (r2, s', w'))"
    using run g unfolding download_def rq_def[symmetric] Let_def
    by (auto split: sum.splits if_splits prod.splits)
  then show ?thesis using q fetch_providers_quiet quiet_trans by (metis prod.inject)
qed

lemma saveSubs_cases:
  "saveSubs E nxt s w = (r, s', w') \<Longrightarrow> runs w' = runs w \<and> s' = (if r = None then s\<lparr>sv_subs := nxt\<rparr> else s)"
  by (auto simp: saveSubs_def split: prod.splits option.splits dest: save_subs_keeps)

lemma updateSub_cases:
  assumes "updateSub E i edit s w = (r, s', w')"
  shows "runs w' = runs w \<and> (s' = s \<or> (\<exists>l. edit_first i edit (su_list (sv_subs s)) = Some l
    \<and> s' = s\<lparr>sv_subs := (sv_subs s)\<lparr>su_list := l\<rparr>\<rparr>))"
  using assms by (auto simp: updateSub_def split: option.splits if_splits dest!: saveSubs_cases)

lemma updateSub_in_step:
  assumes "updateSub E i edit s w = (r, s', w')"
  shows "in_step runs s' w' = in_step runs s w \<and> edited i edit (sv_subs s) (sv_subs s')"
  using updateSub_cases[OF assms] by (auto simp: in_step_def running_def edited_def)

lemma failRefresh_in_step:
  assumes "failRefresh E sub now interval answered after why s w = (s', w')"
  shows "in_step runs s' w' = in_step runs s w
    \<and> edited (sb_id sub) (failed_edit now (retry_wait sub interval answered after) answered why) (sv_subs s) (sv_subs s')"
  using assms by (auto simp: failRefresh_def split: prod.splits dest: updateSub_in_step)

subsubsection \<open>Adding\<close>

lemma add_ask_quiet:
  assumes "add_ask E url s w = (r, s', w')"
  shows "runs w' = runs w \<and> sv_subs s' = sv_subs s \<and> in_step runs s' w' = in_step runs s w
    \<and> (\<not> isl r \<longrightarrow> url \<notin> sb_url ` set (su_list (sv_subs s)))"
proof (cases "CheckURL (url_parse (e_lib E)) url = None \<and> \<not> list_ex (\<lambda>sub. sb_url sub = url) (su_list (sv_subs s))")
  case False
  then show ?thesis using assms by (auto simp: add_ask_def Let_def split: option.splits)
next
  case True
  define asked where "asked = prune_asked (e_now E w) (sv_addAsked s)"
  define s1 where "s1 = s\<lparr>sv_addAsked := (url, e_now E w) # asked\<rparr>"
  obtain r2 s2 w2 where d: "download (ctx_of E (su_list (sv_subs s) = [])) ''(new)'' url s1 w = (r2, s2, w2)" by (metis prod_cases3)
  note q = daemon_env.download_quiet[OF ctx_env d]
  have "(s', w') = (s\<lparr>sv_addAsked := asked\<rparr>, w) \<or> (s', w') = (s2, w2)"
    using assms True d unfolding add_ask_def Let_def
    by (auto simp: asked_def s1_def split: option.splits if_splits sum.splits)
  moreover have "sv_subs s2 = sv_subs s" "in_step runs s2 w2 = in_step runs s w" "runs w2 = runs w"
    using q quiet_sel[of s1 s2] by (auto simp: s1_def in_step_def running_def)
  ultimately show ?thesis using True by (auto simp: in_step_def running_def list_ex_iff)
qed

lemma revert_add_in_step:
  assumes run: "revert_add E activate settings prev nxt p s w = (s', w')"
    and at: "runs w = (if running s then Some (runConfig settings (if activate then p else prev)) else None)"
    and cur: "sv_settings s = settings" "sv_profile s = prev"
  shows "in_step runs s' w' \<and> (sv_subs s' = sv_subs s \<or> sv_subs s' = nxt)"
proof (cases activate)
  case False
  then show ?thesis using run at cur by (auto simp: revert_add_def in_step_def)
next
  case True
  obtain ok s1 w1 where b: "rollback E settings prev s w = (ok, s1, w1)" by (metis prod_cases3)
  have at1: "runs w = (if running s then Some (runConfig settings p) else None)" using at True by simp
  note rb = rollback_in_step[OF b at1]
  show ?thesis using run True b rb cur
    by (cases ok) (auto simp: revert_add_def in_step_def running_def)
qed

lemma add_finish_in_step:
  assumes run: "add_finish E url dl s w = (r, s', w')" and ok: "in_step runs s w"
  shows "in_step runs s' w' \<and> (sv_subs s' = sv_subs s
    \<or> sv_subs s' = with_sub (new_sub E (fst (e_new_id E w)) url dl (e_now E w) (su_list (sv_subs s))) (sv_subs s))"
proof -
  obtain i w1 where ni: "e_new_id E w = (i, w1)" by fastforce
  define activate where "activate = (su_active (sv_subs s) = [])"
  define nxt where "nxt = with_sub (new_sub E i url dl (e_now E w) (su_list (sv_subs s))) (sv_subs s)"
  define p where "p = dn_profile dl"
  obtain r2 s2 w2 where a: "acceptContent E (sv_settings s) p activate s w1 = (r2, s2, w2)" by (metis prod_cases3)
  have ok1: "in_step runs s w1" using ok new_id_keeps[OF ni] by (simp add: in_step_def)
  note unf = add_finish_def Let_def ni prod.case activate_def[symmetric] nxt_def[symmetric] p_def[symmetric] a
  show ?thesis
  proof (cases r2)
    case (Some err)
    then show ?thesis using run acceptContent_error_in_step[of s p activate w1 err s2 w2] a ok1 unfolding unf by simp
  next
    case r2: None
    obtain r3 w3 where sn: "e_save_snapshot E i (dn_snap dl) w2 = (r3, w3)" by fastforce
    obtain r4 s4 w4 where ss: "saveSubs E nxt s2 w3 = (r4, s4, w4)" by (metis prod_cases3)
    obtain r5 w5 where rm: "e_remove_snapshot E i w4 = (r5, w5)" by fastforce
    have q: "quiet s s2" "runs w2 = (if running s then Some (runConfig (sv_settings s) (if activate then p else sv_profile s)) else None)"
      using acceptContent_ok_in_step[of s p activate w1 s2 w2] a r2 ok1 by simp_all
    note qs = quiet_sel[OF q(1)]
    have k: "runs w3 = runs w2" "runs w4 = runs w2" "runs w5 = runs w2"
      using save_snapshot_keeps[OF sn] saveSubs_cases[OF ss] remove_snapshot_keeps[OF rm] by simp_all
    have rev: ?thesis if "revert_add E activate (sv_settings s) (sv_profile s) nxt p s2 w6 = (s', w')" "runs w6 = runs w2" for w6
      using revert_add_in_step[OF that(1)] q that(2) qs ni by (auto simp: nxt_def)
    show ?thesis
    proof (cases r3)
      case (Some err)
      then show ?thesis using run r2 sn rev[of w3] k unfolding unf by (auto split: prod.splits)
    next
      case r3: None
      show ?thesis
      proof (cases r4)
        case (Some err)
        then have "s4 = s2" using saveSubs_cases[OF ss] by simp
        then show ?thesis using run r2 sn r3 ss Some rm rev[of w5] k unfolding unf by (auto split: prod.splits)
      next
        case None
        then have s4: "s4 = s2\<lparr>sv_subs := nxt\<rparr>" using saveSubs_cases[OF ss] by simp
        have "s' = publish E w4 (if activate then s4\<lparr>sv_profile := p\<rparr> else s4)" "w' = w4"
          using run r2 sn r3 ss None unfolding unf by auto
        then show ?thesis using q k qs ni s4 by (auto simp: in_step_publish in_step_def running_def nxt_def)
      qed
    qed
  qed
qed

subsubsection \<open>Refreshing\<close>

lemma refresh_ask_quiet: "refresh_ask E i manual s w = (r, s', w') \<Longrightarrow> quiet s s' \<and> runs w' = runs w"
  by (auto simp: refresh_ask_def split: option.splits if_splits prod.splits dest: download_quiet)

lemma refresh_finish_in_step:
  assumes run: "refresh_finish E sub result s w = (r, s', w')" and ok: "in_step runs s w"
  shows "in_step runs s' w' \<and> (\<exists>edit. edited (sb_id sub) edit (sv_subs s) (sv_subs s') \<and> refresh_edit E sub (e_now E w) edit)"
proof (cases result)
  case (Inl derr)
  obtain s1 w1 where f: "failRefresh E sub (e_now E w) (sb_interval_seconds sub * Second) (de_answered derr) (de_retryAfter derr)
      (pe_message (de_err derr)) s w = (s1, w1)" by fastforce
  have "s' = publish E w1 s1" "w' = w1" using run Inl f by (auto simp: refresh_finish_def Let_def)
  then show ?thesis using failRefresh_in_step[OF f] ok refresh_edit.failed by (simp add: in_step_publish) blast
next
  case (Inr dl)
  define i where "i = sb_id sub"
  define active where "active = (su_active (sv_subs s) = i)"
  define p where "p = dn_profile dl"
  have same: "\<exists>edit. edited i edit (sv_subs s) (sv_subs s) \<and> refresh_edit E sub (e_now E w) edit"
    unfolding edited_def using refresh_edit.refreshed by blast
  obtain r2 s2 w2 where a: "acceptContent E (sv_settings s) p active s w = (r2, s2, w2)" by (metis prod_cases3)
  note unf = refresh_finish_def Let_def Inr sum.case i_def[symmetric] active_def[symmetric] p_def[symmetric] a
  show ?thesis
  proof (cases "list_ex (\<lambda>x. sb_id x = i) (su_list (sv_subs s))")
    case False
    then show ?thesis using run ok same unfolding unf i_def[symmetric] by simp
  next
    case ex: True
    show ?thesis
    proof (cases r2)
      case (Some err)
      obtain s3 w3 where f: "failRefresh E sub (e_now E w) (Interval (dn_header dl)) (pe_code err = CodeRejected) 0 (pe_message err) s2 w2 = (s3, w3)"
        by fastforce
      have e: "s' = publish E w3 s3" "w' = w3" using run ex Some f unfolding unf by auto
      have b: "in_step runs s2 w2" "sv_subs s2 = sv_subs s" using acceptContent_error_in_step[of s p active w err s2 w2] a Some ok by simp_all
      show ?thesis using failRefresh_in_step[OF f] e b refresh_edit.refused by (simp add: in_step_publish) blast
    next
      case r2: None
      obtain r3 w3 where sn: "e_save_snapshot E i (dn_snap dl) w2 = (r3, w3)" by fastforce
      have q: "quiet s s2" "runs w2 = (if running s then Some (runConfig (sv_settings s) (if active then p else sv_profile s)) else None)"
        using acceptContent_ok_in_step[of s p active w s2 w2] a r2 ok by simp_all
      note qs = quiet_sel[OF q(1)]
      have k: "runs w3 = runs w2" using save_snapshot_keeps[OF sn] by simp
      show ?thesis
      proof (cases r3)
        case (Some err)
        obtain ok' s4 w4 where rb: "(if active then rollback E (sv_settings s) (sv_profile s) s2 w3 else (True, s2, w3)) = (ok', s4, w4)"
          by (metis prod_cases3)
        have e: "s' = set_profile_if (\<not> ok') p s4" "w' = w4" using run ex r2 sn Some rb unfolding unf by auto
        show ?thesis
        proof (cases active)
          case True
          have at: "runs w3 = (if running s2 then Some (runConfig (sv_settings s) p) else None)" using q k qs True by simp
          have rb': "rollback E (sv_settings s) (sv_profile s) s2 w3 = (ok', s4, w4)" using rb True by simp
          note r = rollback_in_step[OF rb' at]
          show ?thesis using r e qs same unfolding i_def[symmetric]
            by (cases ok') (auto simp: set_profile_if_def in_step_def running_def)
        next
          case False
          then show ?thesis using rb e q k qs same unfolding i_def[symmetric] by (auto simp: set_profile_if_def in_step_def)
        qed
      next
        case r3: None
        define s3 where "s3 = set_profile_if active p s2"
        obtain r4 s4 w4 where u: "updateSub E i (done_edit E (e_now E w) (dn_header dl)) s3 w3 = (r4, s4, w4)" by (metis prod_cases3)
        have e: "s' = s4 \<or> s' = publish E w4 s4" "w' = w4"
          using run ex r2 sn r3 u[unfolded s3_def] unfolding unf by (auto split: option.splits)
        have "in_step runs s3 w3" "sv_subs s3 = sv_subs s"
          using q k qs by (auto simp: s3_def set_profile_if_def in_step_def running_def)
        then show ?thesis using updateSub_in_step[OF u] e refresh_edit.refreshed unfolding i_def[symmetric]
          by (auto simp: in_step_publish intro!: exI[of _ "done_edit E (e_now E w) (dn_header dl)"])
      qed
    qed
  qed
qed

subsubsection \<open>Activating and removing\<close>

lemma findSub_in: "findSub name s = Inr sub \<Longrightarrow> sub \<in> set (su_list (sv_subs s)) \<and> sb_name sub = name"
  by (auto simp: findSub_def find_Some_iff split: option.splits)

lemma activateSubscription_in_step:
  assumes run: "activateSubscription E name s w = (r, s', w')" and ok: "in_step runs s w"
  shows "in_step runs s' w' \<and> (sv_subs s' = sv_subs s
    \<or> (\<exists>sub \<in> set (su_list (sv_subs s)). sv_subs s' = (sv_subs s)\<lparr>su_active := sb_id sub\<rparr>))"
proof (cases "\<exists>sub p. findSub name s = Inr sub \<and> su_active (sv_subs s) \<noteq> sb_id sub \<and> loadProfile E sub w = Inr p")
  case False
  then show ?thesis using run ok by (auto simp: activateSubscription_def Let_def split: sum.splits if_splits)
next
  case True
  then obtain sub p where pre: "findSub name s = Inr sub" "su_active (sv_subs s) \<noteq> sb_id sub" "loadProfile E sub w = Inr p" by blast
  define nxt where "nxt = (sv_subs s)\<lparr>su_active := sb_id sub\<rparr>"
  obtain r2 s2 w2 where a: "acceptContent E (sv_settings s) p True s w = (r2, s2, w2)" by (metis prod_cases3)
  have sub: "\<exists>sub \<in> set (su_list (sv_subs s)). nxt = (sv_subs s)\<lparr>su_active := sb_id sub\<rparr>"
    using findSub_in[OF pre(1)] nxt_def by blast
  note unf = activateSubscription_def Let_def pre(1,3) sum.case a nxt_def[symmetric]
  show ?thesis
  proof (cases r2)
    case (Some err)
    then show ?thesis using run pre(2) acceptContent_error_in_step[of s p True w err s2 w2] a ok unfolding unf by simp
  next
    case r2: None
    obtain r3 s3 w3 where ss: "saveSubs E nxt s2 w2 = (r3, s3, w3)" by (metis prod_cases3)
    have q: "quiet s s2" "runs w2 = (if running s then Some (runConfig (sv_settings s) p) else None)"
      using acceptContent_ok_in_step[of s p True w s2 w2] a r2 ok by simp_all
    note qs = quiet_sel[OF q(1)]
    show ?thesis
    proof (cases r3)
      case (Some err)
      then have s3: "s3 = s2" "runs w3 = runs w2" using saveSubs_cases[OF ss] by simp_all
      obtain s4 w4 where rv: "revert_add E True (sv_settings s) (sv_profile s) nxt p s2 w3 = (s4, w4)" by fastforce
      have "s' = s4" "w' = w4" using run pre(2) r2 ss Some s3 rv unfolding unf by auto
      then show ?thesis using revert_add_in_step[OF rv] q qs s3(2) sub by auto
    next
      case None
      then have s3: "s3 = s2\<lparr>sv_subs := nxt\<rparr>" "runs w3 = runs w2" using saveSubs_cases[OF ss] by simp_all
      have e: "s' = publish E w3 (s3\<lparr>sv_profile := p, sv_detail := (if sv_state s3 = StateStopped then [] else sv_detail s3)\<rparr>)" "w' = w3"
        using run pre(2) r2 ss None unfolding unf by auto
      have "in_step runs s' w'" unfolding e in_step_publish using q qs s3 by (simp add: in_step_def running_def)
      then show ?thesis using e s3 sub by simp
    qed
  qed
qed

lemma remove_found_in_step:
  assumes run: "remove_found E sub s w = (r, s', w')" and ok: "in_step runs s w"
  shows "in_step runs s' w' \<and> (sv_subs s' = sv_subs s
    \<or> sv_subs s' = \<lparr>su_active = (if su_active (sv_subs s) = sb_id sub then [] else su_active (sv_subs s)),
         su_list = filter (\<lambda>x. sb_id x \<noteq> sb_id sub) (su_list (sv_subs s))\<rparr>)"
proof (cases "su_active (sv_subs s) = sb_id sub \<and> running s")
  case True
  then show ?thesis using run ok by (simp add: remove_found_def Let_def)
next
  case False
  define active where "active = (su_active (sv_subs s) = sb_id sub)"
  define nxt where "nxt = \<lparr>su_active = (if active then [] else su_active (sv_subs s)),
    su_list = filter (\<lambda>x. sb_id x \<noteq> sb_id sub) (su_list (sv_subs s))\<rparr>"
  obtain r1 s1 w1 where ss: "saveSubs E nxt s w = (r1, s1, w1)" by (metis prod_cases3)
  obtain r2 w2 where rm: "e_remove_snapshot E (sb_id sub) w1 = (r2, w2)" by fastforce
  note c = saveSubs_cases[OF ss] and k = remove_snapshot_keeps[OF rm]
  have "(s', w') = (s1, w1) \<and> r1 \<noteq> None \<or> (s', w') = (publish E w2 (set_profile_if active empty_profile s1), w2) \<and> r1 = None"
    using run False rm ss unfolding remove_found_def Let_def active_def[symmetric] nxt_def[symmetric]
    by (cases r1) (auto simp: active_def)
  moreover have "in_step runs (set_profile_if active empty_profile (s\<lparr>sv_subs := nxt\<rparr>)) w2"
    using ok c k False by (auto simp: set_profile_if_def active_def in_step_def running_def)
  moreover have "sv_subs (set_profile_if active empty_profile (s\<lparr>sv_subs := nxt\<rparr>)) = nxt" by (simp add: set_profile_if_def)
  ultimately show ?thesis using c ok by (auto simp: in_step_publish nxt_def active_def in_step_def)
qed

end

end
