(* ===== verification/Proxy_Props.thy ===== *)
theory Proxy_Props
  imports Proxy
begin

text \<open>
  What \<^const>\<open>Proxy\<close> guarantees of the proxies it keeps: their options fit the struct of their
  type, their numbers are in range, their server is set, and a certificate and its key only
  stay as a pair that loads.
\<close>

subsection \<open>Typed values\<close>

inductive conforms :: "proxy_lib \<Rightarrow> kind \<Rightarrow> val \<Rightarrow> bool"
  and conforms_fields :: "proxy_lib \<Rightarrow> field list \<Rightarrow> fields_val \<Rightarrow> bool"
  for L :: proxy_lib
where
  "conforms L KString (VString s)"
| "0 \<le> n \<Longrightarrow> n \<le> 2147483647 \<Longrightarrow> conforms L KInt (VInt n)"
| "n < 256 \<Longrightarrow> conforms L KUint8 (VByte n)"
| "conforms L KBool (VBool b)"
| "conforms_fields L fs m \<Longrightarrow> conforms L (KStruct fs) (VStruct m)"
| "(\<And>v. v \<in> set vs \<Longrightarrow> conforms L k v) \<Longrightarrow> conforms L (KSlice k) (VSlice vs)"
| "sorted_wrt (<) (map fst m) \<Longrightarrow> (\<And>key v. (key, v) \<in> set m \<Longrightarrow> conforms L k v) \<Longrightarrow> conforms L (KMap k) (VMap m)"
| "conforms_fields L [] []"
| "conforms_fields L fs m \<Longrightarrow> conforms_fields L (f # fs) m"
| "conforms L k v \<Longrightarrow> keeps L tag v \<Longrightarrow> conforms_fields L fs m \<Longrightarrow>
     conforms_fields L ((key, tag, k) # fs) ((key, v) # m)"

inductive_cases conforms_StringE [elim!]: "conforms L KString v"
inductive_cases conforms_IntE [elim!]: "conforms L KInt v"
inductive_cases conforms_Uint8E [elim!]: "conforms L KUint8 v"
inductive_cases conforms_BoolE [elim!]: "conforms L KBool v"
inductive_cases conforms_StructE [elim!]: "conforms L (KStruct fs) v"
inductive_cases conforms_SliceE [elim!]: "conforms L (KSlice k) v"
inductive_cases conforms_MapE [elim!]: "conforms L (KMap k) v"
inductive_cases conforms_NilE [elim!]: "conforms_fields L [] m"
inductive_cases conforms_ConsE: "conforms_fields L (f # fs) m"

lemma conforms_fields_entry:
  "conforms_fields L fs m \<Longrightarrow> (key, v) \<in> set m \<Longrightarrow> \<exists>tag k. (key, tag, k) \<in> set fs \<and> conforms L k v \<and> keeps L tag v"
proof (induction fs arbitrary: m)
  case Nil
  then show ?case by auto
next
  case (Cons f fs)
  from Cons.prems(1) show ?case
    by (rule conforms_ConsE) (use Cons in \<open>fastforce+\<close>)
qed

lemma conforms_fields_keys: "conforms_fields L fs m \<Longrightarrow> set (map fst m) \<subseteq> set (map fst fs)"
proof
  fix x
  assume c: "conforms_fields L fs m" and "x \<in> set (map fst m)"
  then obtain v where "(x, v) \<in> set m" by auto
  from conforms_fields_entry[OF c this] show "x \<in> set (map fst fs)" by force
qed

lemma conforms_fields_distinct:
  "conforms_fields L fs m \<Longrightarrow> distinct (map fst fs) \<Longrightarrow> distinct (map fst m)"
proof (induction fs arbitrary: m)
  case Nil
  then show ?case by auto
next
  case (Cons f fs)
  from Cons.prems(1) show ?case
  proof (rule conforms_ConsE)
    assume "conforms_fields L fs m"
    with Cons show ?thesis by simp
  next
    fix k v tag m' key
    assume f: "f = (key, tag, k)" and m: "m = (key, v) # m'" and c: "conforms_fields L fs m'"
    from conforms_fields_keys[OF c] Cons.prems(2) f have "key \<notin> set (map fst m')" by auto
    with Cons.IH[OF c] Cons.prems(2) m show ?thesis by simp
  qed
qed

lemma sorted_keys_strict: "sorted_wrt (<) (sorted_keys m)"
  by (simp add: sorted_keys_def strict_sorted_iff)

lemma map_res_fst:
  "map_res (\<lambda>key. bind_res (f key) (\<lambda>v. Inr (key, v))) ks = Inr vs \<Longrightarrow> map fst vs = ks"
  by (induction ks arbitrary: vs) (auto simp: result_simps)

lemma readStruct_conforms:
  "readValue L k path raw = Inr v \<Longrightarrow> conforms L k v"
  "readStruct L fs path m = Inr vs \<Longrightarrow> conforms_fields L fs vs"
proof (induction L k path raw and L fs path m arbitrary: v and vs rule: readValue_readStruct.induct)
  case (6 L k path raw)
  then show ?case
  proof (cases raw)
    case (GStr s)
    with 6(2) show ?thesis
      by (auto split: if_splits option.splits simp: base64_decode_def dest: base64_quads_bytes intro!: conforms_conforms_fields.intros)
  next
    case (GList xs)
    then obtain us where us: "map_res (\<lambda>(i, x). readValue L k (path @ ''['' @ itoa_nat i @ '']'') x) (enumerate 0 xs) = Inr us"
      and v: "v = VSlice us" using 6(2) by (auto simp: result_simps)
    have "conforms L k u" if "u \<in> set us" for u
      using map_res_in_range[OF us that] 6(1)[OF GList] by (auto simp: in_set_enumerate_eq)
    with v show ?thesis by (auto intro: conforms_conforms_fields.intros)
  qed (use 6(2) in auto)
next
  case (7 L k path raw)
  then obtain m us where m: "optMap raw = Some m"
    and us: "map_res (\<lambda>key. bind_res (readValue L k (path @ ''.'' @ key) (the (map_of m key))) (\<lambda>v. Inr (key, v))) (sorted_keys m) = Inr us"
    and v: "v = VMap us" by (auto simp: result_simps split: option.splits)
  have "conforms L k x" if "(key, x) \<in> set us" for key x
    using map_res_in_range[OF us that] 7(1)[OF m] by (auto simp: result_simps)
  with v map_res_fst[OF us] sorted_keys_strict[of m] show ?case
    by (auto intro!: conforms_conforms_fields.intros)
next
  case (9 L key tag k fs path m)
  show ?case
  proof (cases "present_at m key")
    case None
    with 9 show ?thesis by (auto intro: conforms_conforms_fields.intros)
  next
    case (Some raw)
    with 9(4) obtain v us where "readValue L k (path @ key) raw = Inr v" "readStruct L fs path m = Inr us"
      "vs = (if keeps L tag v then (key, v) # us else us)"
      by (auto simp: result_simps)
    moreover from this have "conforms L k v" "conforms_fields L fs us"
      using 9(2,3) Some by auto
    ultimately show ?thesis by (auto intro: conforms_conforms_fields.intros)
  qed
qed (auto simp: result_simps split: option.splits if_splits dest: optInt_range intro!: conforms_conforms_fields.intros)

subsection \<open>Written options\<close>

text \<open>\<open>fits k v\<close>: \<open>v\<close> has the shape and the ranges of kind \<open>k\<close>, and every key of a struct is
  one of its fields.\<close>

fun fits :: "kind \<Rightarrow> goval \<Rightarrow> bool" where
  "fits KString v = (case v of GStr _ \<Rightarrow> True | _ \<Rightarrow> False)"
| "fits KInt v = (case v of GInt n \<Rightarrow> 0 \<le> n \<and> n \<le> 2147483647 | _ \<Rightarrow> False)"
| "fits KUint8 v = (case v of GInt n \<Rightarrow> 0 \<le> n \<and> n \<le> 255 | _ \<Rightarrow> False)"
| "fits KBool v = (case v of GBool _ \<Rightarrow> True | _ \<Rightarrow> False)"
| "fits (KStruct fs) v = (case v of
     GMap m \<Rightarrow> list_all (\<lambda>(key, x). list_ex (\<lambda>(key', _, k). key' = key \<and> fits k x) fs) m | _ \<Rightarrow> False)"
| "fits (KSlice k) v = (case v of GList xs \<Rightarrow> list_all (fits k) xs | _ \<Rightarrow> False)"
| "fits (KMap k) v = (case v of GMap m \<Rightarrow> list_all (\<lambda>(_, x). fits k x) m | _ \<Rightarrow> False)"

lemma fits_StructI:
  "(\<And>key x. (key, x) \<in> set m \<Longrightarrow> \<exists>tag k. (key, tag, k) \<in> set fs \<and> fits k x) \<Longrightarrow> fits (KStruct fs) (GMap m)"
  by (force simp: list_all_iff list_ex_iff)

lemma fits_StructD:
  "fits (KStruct fs) (GMap m) \<Longrightarrow> (key, x) \<in> set m \<Longrightarrow> \<exists>tag k. (key, tag, k) \<in> set fs \<and> fits k x"
  by (force simp: list_all_iff list_ex_iff)

lemma conforms_fits: "conforms L k v \<Longrightarrow> fits k (writeValue v)"
  and conforms_fields_fits: "conforms_fields L fs m \<Longrightarrow> fits (KStruct fs) (GMap (writeStruct m))"
proof (induction rule: conforms_conforms_fields.inducts)
  case (9 fs m f)
  then show ?case by (cases f) (force simp: list_all_iff list_ex_iff)
next
  case (10 k v tag fs m key)
  then show ?case by (force simp: list_all_iff list_ex_iff writeStruct_def)
qed (auto simp: list_all_iff writeStruct_def)

lemma fits_subset: "fits (KStruct fs) (GMap m) \<Longrightarrow> set m' \<subseteq> set m \<Longrightarrow> fits (KStruct fs) (GMap m')"
  by (auto simp: list_all_iff)

lemma keyPairs_fits: "fits k v \<Longrightarrow> fits k (keyPairs L tls v)"
proof (induction L tls v arbitrary: k rule: keyPairs.induct)
  case (1 L tls m)
  have sub: "fits k' (keyPairs L True x)" if "(key, x) \<in> set m" "fits k' x" for key x k'
    using "1.IH"[OF refl refl refl that(1) refl that(2)] .
  from "1.prems" show ?case
    by (cases k) (fastforce simp: Let_def list_all_iff list_ex_iff intro: sub)+
qed auto

declare keyPairs.simps(1) [simp del]

subsection \<open>The checks\<close>

lemma keepFields_subset: "set (keepFields m keys) \<subseteq> set m"
  by (auto simp: keepFields_def)

text \<open>The checks change the struct only by removing fields, so it fits its kind as before.\<close>

lemma checks_fits:
  assumes ok: "checks ty v = Inr v'" and v: "conforms_fields L fs v"
  shows "fits (KStruct fs) (GMap (writeStruct v'))"
proof (cases "v' = v")
  case True
  with v conforms_fields_fits show ?thesis by blast
next
  case False
  then have ss: "shadowsocks_check v = Inr v'"
    using ok by (auto simp: checks_def result_simps split: if_splits)
  have entry: "\<exists>w. (key, w) \<in> set v \<and> (w = x \<or> (\<exists>m keys. w = VStruct m \<and> x = VStruct (keepFields m keys)))"
    if "(key, x) \<in> set v'" for key x
    using ss that by (auto simp: shadowsocks_check_def result_simps split: option.splits if_splits val.splits) blast+
  show ?thesis
  proof (rule fits_StructI)
    fix key x
    assume "(key, x) \<in> set (writeStruct v')"
    then obtain y where y: "(key, y) \<in> set v'" "x = writeValue y" by (auto simp: writeStruct_def)
    from entry[OF y(1)] obtain w where w: "(key, w) \<in> set v"
      "w = y \<or> (\<exists>m keys. w = VStruct m \<and> y = VStruct (keepFields m keys))" by blast
    from conforms_fields_entry[OF v w(1)] obtain tag k where k: "(key, tag, k) \<in> set fs" "conforms L k w" by blast
    have "fits k x"
      using w(2)
    proof
      assume "w = y"
      with k(2) y(2) conforms_fits show ?thesis by simp
    next
      assume "\<exists>m keys. w = VStruct m \<and> y = VStruct (keepFields m keys)"
      then obtain m keys where m: "w = VStruct m" "y = VStruct (keepFields m keys)" by blast
      from k(2) m obtain fs' where fs': "k = KStruct fs'" by (cases k) auto
      from k(2) m fs' have "conforms L (KStruct fs') (VStruct m)" by simp
      then have "fits (KStruct fs') (writeValue (VStruct m))" by (rule conforms_fits)
      moreover have "set (map (\<lambda>(k, v). (k, writeValue v)) (keepFields m keys)) \<subseteq> set (map (\<lambda>(k, v). (k, writeValue v)) m)"
        using keepFields_subset by fastforce
      ultimately have "fits (KStruct fs') (writeValue (VStruct (keepFields m keys)))"
        unfolding writeValue.simps by (rule fits_subset)
      with m y(2) fs' show ?thesis by simp
    qed
    with k(1) show "\<exists>tag k. (key, tag, k) \<in> set fs \<and> fits k x" by blast
  qed
qed

lemma Proxy_steps:
  assumes "Proxy L m = Inr p"
  obtains fs v v' where "map_of proxyTypes (px_type p) = Some fs" "readStruct L fs [] m = Inr v"
    "checks (px_type p) v = Inr v'" "px_name p \<noteq> []"
    "px_options p = options_of (keyPairs L (px_type p \<noteq> ''ssh'' \<and> px_type p \<noteq> ''wireguard'') (GMap (writeStruct v')))"
  using assms by (auto simp: Proxy_def result_simps split: option.splits if_splits)

lemma keyPairs_GMap: "\<exists>m'. keyPairs L tls (GMap m) = GMap m'"
  by (simp add: keyPairs.simps Let_def)

lemma Proxy_fits:
  assumes "Proxy L m = Inr p"
  obtains fs where "map_of proxyTypes (px_type p) = Some fs" "fits (KStruct fs) (GMap (px_options p))"
proof -
  from assms obtain fs v v' where ty: "map_of proxyTypes (px_type p) = Some fs"
    and v: "readStruct L fs [] m = Inr v" "checks (px_type p) v = Inr v'"
    and opts: "px_options p = options_of (keyPairs L (px_type p \<noteq> ''ssh'' \<and> px_type p \<noteq> ''wireguard'') (GMap (writeStruct v')))"
    by (rule Proxy_steps)
  have "fits (KStruct fs) (GMap (writeStruct v'))"
    using checks_fits[OF v(2) readStruct_conforms(2)[OF v(1)]] .
  then have kp: "fits (KStruct fs) (keyPairs L (px_type p \<noteq> ''ssh'' \<and> px_type p \<noteq> ''wireguard'') (GMap (writeStruct v')))"
    by (rule keyPairs_fits)
  obtain m' where "keyPairs L (px_type p \<noteq> ''ssh'' \<and> px_type p \<noteq> ''wireguard'') (GMap (writeStruct v')) = GMap m'"
    using keyPairs_GMap by blast
  with kp opts have "fits (KStruct fs) (GMap (px_options p))" by (simp add: options_of_def)
  with ty that show ?thesis by blast
qed

lemma proxyTypes_distinct_keys: "map_of proxyTypes ty = Some fs \<Longrightarrow> distinct (map fst fs)"
  using proxyTypes_distinct by (auto dest!: map_of_SomeD simp: list_all_iff)

lemma proxyTypes_clean:
  "map_of proxyTypes ty = Some fs \<Longrightarrow> set (option_names (KStruct fs)) \<inter> set never_modelled = {}"
proof -
  assume "map_of proxyTypes ty = Some fs"
  then have "(ty, fs) \<in> set proxyTypes" by (rule map_of_SomeD)
  with proxyTypes_never_modelled
  have "list_all (\<lambda>n. n \<notin> set never_modelled) (option_names (KStruct fs))"
    unfolding list_all_iff by blast
  then show ?thesis unfolding list_all_iff by blast
qed

lemma fits_keys: "fits (KStruct fs) (GMap m) \<Longrightarrow> fst ` set m \<subseteq> set (option_names (KStruct fs))"
proof
  fix key
  assume f: "fits (KStruct fs) (GMap m)" and "key \<in> fst ` set m"
  then obtain x where "(key, x) \<in> set m" by auto
  from fits_StructD[OF f this] obtain tag k where "(key, tag, k) \<in> set fs" by blast
  then show "key \<in> set (option_names (KStruct fs))" by (auto intro!: bexI)
qed

subsection \<open>The server and its port\<close>

lemma map_of_filter_key: "P k \<Longrightarrow> map_of (filter (\<lambda>(k, _). P k) m) k = map_of m k"
  by (induction m) auto

lemma map_of_map_values: "map_of (map (\<lambda>(k, v). (k, f v)) m) k = map_option f (map_of m k)"
  by (induction m) auto

lemma map_of_writeStruct: "map_of (writeStruct m) k = map_option writeValue (map_of m k)"
  by (simp add: writeStruct_def map_of_map_values)

lemma map_of_keyPairs:
  "k \<noteq> ''certificate'' \<Longrightarrow> k \<noteq> ''private-key'' \<Longrightarrow>
   map_of (options_of (keyPairs L tls (GMap m))) k = map_option (keyPairs L True) (map_of m k)"
  by (simp add: keyPairs.simps options_of_def Let_def map_of_filter_key map_of_map_values)

lemma checks_keep: "checks ty v = Inr v' \<Longrightarrow> k \<noteq> ''plugin-opts'' \<Longrightarrow> map_of v' k = map_of v k"
proof -
  have upd: "k \<noteq> ''plugin-opts'' \<Longrightarrow>
    map_of (map (\<lambda>(k, v). if k = ''plugin-opts'' then (k, f v) else (k, v)) m) k = map_of m k" for m :: fields_val and f
    by (induction m) auto
  show "checks ty v = Inr v' \<Longrightarrow> k \<noteq> ''plugin-opts'' \<Longrightarrow> map_of v' k = map_of v k"
    by (auto simp: checks_def shadowsocks_check_def result_simps map_of_filter_key upd split: if_splits option.splits)
qed

definition port_optional :: "string \<Rightarrow> bool" where
  "port_optional ty \<longleftrightarrow> ty \<in> {''hysteria'', ''hysteria2'', ''mieru''}"

lemma checks_endpoint:
  assumes "checks ty v = Inr v'" "ty \<noteq> ''wireguard''" "ty \<noteq> ''direct''"
  shows "\<exists>opt. checkEndpoint (v_str v ''server'') (v_int v ''port'') opt = Inr () \<and> (opt \<longrightarrow> port_optional ty)"
  using assms
  by (auto simp: checks_def shadowsocks_check_def serverOpts_check_def hysteria_check_def hysteria2_check_def
      mieru_check_def snell_check_def port_optional_def result_simps split: if_splits option.splits)

lemma checkEndpoint_ok:
  "checkEndpoint server port opt = Inr () \<longleftrightarrow>
     (\<exists>s. server = Some s \<and> s \<noteq> []) \<and> (port = None \<longrightarrow> opt) \<and> (\<forall>n. port = Some n \<longrightarrow> 1 \<le> n \<and> n \<le> 65535)"
  by (cases server; cases port) (auto simp: checkEndpoint_def)

lemma port_kind: "map_of proxyTypes ty = Some fs \<Longrightarrow> (''port'', tag, k) \<in> set fs \<Longrightarrow> k = KInt"
proof -
  have "list_all (\<lambda>(ty, fs). list_all (\<lambda>(key, tag, k). key = ''port'' \<longrightarrow> k = KInt) fs) proxyTypes"
    by code_simp
  then show "map_of proxyTypes ty = Some fs \<Longrightarrow> (''port'', tag, k) \<in> set fs \<Longrightarrow> k = KInt"
    by (fastforce dest!: map_of_SomeD simp: list_all_iff)
qed

lemma Proxy_server:
  assumes "Proxy L m = Inr p" "px_type p \<noteq> ''wireguard''" "px_type p \<noteq> ''direct''"
  shows "\<exists>s. s \<noteq> [] \<and> map_of (px_options p) ''server'' = Some (GStr s)"
    and "map_of (px_options p) ''port'' = None \<Longrightarrow> port_optional (px_type p)"
    and "map_of (px_options p) ''port'' = Some x \<Longrightarrow> \<exists>n. x = GInt n \<and> 1 \<le> n \<and> n \<le> 65535"
proof -
  from assms(1) obtain fs v v' where ty: "map_of proxyTypes (px_type p) = Some fs"
    and v: "readStruct L fs [] m = Inr v" "checks (px_type p) v = Inr v'"
    and opts: "px_options p = options_of (keyPairs L (px_type p \<noteq> ''ssh'' \<and> px_type p \<noteq> ''wireguard'') (GMap (writeStruct v')))"
    by (rule Proxy_steps)
  have at: "map_of (px_options p) k = map_option (keyPairs L True \<circ> writeValue) (map_of v k)"
    if "k \<in> {''server'', ''port''}" for k
    using that checks_keep[OF v(2), of k] by (auto simp: opts map_of_keyPairs map_of_writeStruct option.map_comp)
  obtain opt where opt: "checkEndpoint (v_str v ''server'') (v_int v ''port'') opt = Inr ()" "opt \<longrightarrow> port_optional (px_type p)"
    using checks_endpoint[OF v(2) assms(2,3)] by blast
  then obtain s where "s \<noteq> []" "map_of v ''server'' = Some (VString s)"
    by (auto simp: checkEndpoint_ok v_str_def split: option.splits val.splits)
  with at[of "''server''"] show "\<exists>s. s \<noteq> [] \<and> map_of (px_options p) ''server'' = Some (GStr s)" by simp
  have typed: "\<exists>n. w = VInt n" if "map_of v ''port'' = Some w" for w
    using conforms_fields_entry[OF readStruct_conforms(2)[OF v(1)] map_of_SomeD[OF that]] port_kind[OF ty] by force
  show "map_of (px_options p) ''port'' = None \<Longrightarrow> port_optional (px_type p)"
    using opt at[of "''port''"] by (auto simp: checkEndpoint_ok v_int_def)
  show "map_of (px_options p) ''port'' = Some x \<Longrightarrow> \<exists>n. x = GInt n \<and> 1 \<le> n \<and> n \<le> 65535"
    using opt at[of "''port''"] typed by (auto simp: checkEndpoint_ok v_int_def)
qed

subsection \<open>Certificates and keys\<close>

fun pairs_load :: "proxy_lib \<Rightarrow> bool \<Rightarrow> goval \<Rightarrow> bool" where
  "pairs_load L tls (GMap m) =
     ((tls \<and> (str_at m ''certificate'' \<noteq> None \<or> str_at m ''private-key'' \<noteq> None)
         \<longrightarrow> key_pair L (str_or_empty m ''certificate'') (str_or_empty m ''private-key''))
      \<and> list_all (\<lambda>(_, v). pairs_load L True v) m)"
| "pairs_load L tls v = True"

lemma keyPairs_GStr: "keyPairs L tls v = GStr s \<longleftrightarrow> v = GStr s"
  by (cases v) (auto simp: keyPairs.simps Let_def)

lemma str_at_keyPairs: "str_at (map (\<lambda>(k, v). (k, keyPairs L True v)) m) k = str_at m k"
  by (auto simp: str_at_def map_of_map_values keyPairs_GStr split: option.splits goval.splits)

lemma str_at_filtered: "\<not> P k \<Longrightarrow> str_at (filter (\<lambda>(k, _). P k) m) k = None"
proof -
  assume "\<not> P k"
  then have "map_of (filter (\<lambda>(k, _). P k) m) k = None" by (auto simp: map_of_eq_None_iff)
  then show ?thesis by (simp add: str_at_def)
qed

lemma pairs_load_keyPairs: "pairs_load L tls (keyPairs L tls v)"
proof (induction L tls v rule: keyPairs.induct)
  case (1 L tls m)
  let ?bad = "tls \<and> (str_at m ''certificate'' \<noteq> None \<or> str_at m ''private-key'' \<noteq> None)
    \<and> \<not> key_pair L (str_or_empty m ''certificate'') (str_or_empty m ''private-key'')"
  have sub: "pairs_load L True (keyPairs L True x)" if "(key, x) \<in> set m" for key x
    using 1[OF refl refl refl that refl] .
  show ?case
  proof (cases ?bad)
    case True
    then show ?thesis
      using sub by (auto simp: keyPairs.simps Let_def str_at_filtered list_all_iff simp del: not_None_eq)
  next
    case False
    then have "keyPairs L tls (GMap m) = GMap (map (\<lambda>(k, v). (k, keyPairs L True v)) m)"
      by (auto simp: keyPairs.simps Let_def filter_id_conv)
    with False sub show ?thesis
      by (auto simp: str_at_keyPairs str_or_empty_def list_all_iff)
  qed
qed auto

lemma Proxy_pairs_load:
  assumes "Proxy L m = Inr p"
  shows "pairs_load L (px_type p \<noteq> ''ssh'' \<and> px_type p \<noteq> ''wireguard'') (GMap (px_options p))"
proof -
  from assms obtain v' where
    "px_options p = options_of (keyPairs L (px_type p \<noteq> ''ssh'' \<and> px_type p \<noteq> ''wireguard'') (GMap (writeStruct v')))"
    by (rule Proxy_steps)
  moreover obtain m' where
    "keyPairs L (px_type p \<noteq> ''ssh'' \<and> px_type p \<noteq> ''wireguard'') (GMap (writeStruct v')) = GMap m'"
    using keyPairs_GMap by blast
  ultimately show ?thesis
    using pairs_load_keyPairs[of L "px_type p \<noteq> ''ssh'' \<and> px_type p \<noteq> ''wireguard''" "GMap (writeStruct v')"]
    by (simp add: options_of_def)
qed

subsection \<open>Reading back what was written\<close>

text \<open>The keys of a struct stay apart when case and underscores are ignored.\<close>

definition dashed :: "string \<Rightarrow> string" where
  "dashed k = map (\<lambda>c. if c = CHR ''_'' then CHR ''-'' else c) k"

fun good_kind :: "kind \<Rightarrow> bool" where
  "good_kind (KStruct fs) =
     (distinct (map (\<lambda>f. map lower_char (fst f)) fs)
      \<and> list_all (\<lambda>(key, _, k). fold_key (dashed key) = map lower_char key \<and> good_kind k) fs)"
| "good_kind (KSlice k) = good_kind k"
| "good_kind (KMap k) = good_kind k"
| "good_kind _ = True"

lemma proxyTypes_good: "map_of proxyTypes ty = Some fs \<Longrightarrow> good_kind (KStruct fs)"
proof -
  have "list_all (\<lambda>(ty, fs). good_kind (KStruct fs)) proxyTypes" by code_simp
  then show "map_of proxyTypes ty = Some fs \<Longrightarrow> good_kind (KStruct fs)"
    unfolding list_all_iff by (blast dest: map_of_SomeD)
qed

lemma lookup_key_absent:
  assumes "key \<notin> fst ` set m" "\<And>k. k \<in> fst ` set m \<Longrightarrow> fold_key (dashed k) \<noteq> map lower_char key"
  shows "lookup_key m key = None"
proof -
  have "find (\<lambda>k. equal_fold_key (map (\<lambda>c. if c = CHR ''_'' then CHR ''-'' else c) k) key) (sorted_keys m) = None"
    using assms(2) by (auto simp: find_None_iff equal_fold_key_def dashed_def simp del: not_None_eq)
  moreover have "map_of m key = None" using assms(1) by (simp add: map_of_eq_None_iff)
  ultimately show ?thesis by (simp add: lookup_key_def)
qed

lemma writeValue_not_nil [simp]: "writeValue v \<noteq> GNil"
  by (cases v) auto

lemma map_res_enumerate:
  "(\<And>i x. x \<in> set xs \<Longrightarrow> f (i, g x) = Inr x) \<Longrightarrow> map_res f (enumerate n (map g xs)) = Inr xs"
  by (induction xs arbitrary: n) auto

lemma optInt_GInt: "0 \<le> n \<Longrightarrow> n \<le> 2147483647 \<Longrightarrow> optInt (GInt n) = Some n"
  by (simp add: optInt_def checkInt_def)

lemma sorted_keys_write:
  "sorted_wrt (<) (map fst m) \<Longrightarrow> sorted_keys (map (\<lambda>(k, v). (k, writeValue v)) m) = map fst m"
proof -
  assume a: "sorted_wrt (<) (map fst m)"
  have "map fst (map (\<lambda>(k, v). (k, writeValue v)) m) = map fst m" by auto
  with a show ?thesis
    by (simp only: sorted_keys_def) (simp add: strict_sorted_iff distinct_remdups_id sorted_sort_id)
qed

text \<open>One field of the struct being read from the written form of \<open>m0\<close>.\<close>

lemma present_at_write:
  assumes "\<And>k. k \<in> fst ` set m0 \<Longrightarrow> k \<noteq> key \<Longrightarrow> fold_key (dashed k) \<noteq> map lower_char key"
  shows "present_at (writeStruct m0) key = map_option writeValue (map_of m0 key)"
proof (cases "map_of m0 key")
  case None
  have "fst ` set (writeStruct m0) = fst ` set m0" by (force simp: writeStruct_def)
  with None assms have "lookup_key (writeStruct m0) key = None"
    by (intro lookup_key_absent) (auto simp: map_of_eq_None_iff)
  with None show ?thesis by (simp add: present_at_def)
next
  case (Some v)
  then show ?thesis by (simp add: present_at_def lookup_key_def map_of_writeStruct)
qed

lemma readStruct_writeStruct:
  "conforms L k v \<Longrightarrow> good_kind k \<Longrightarrow> readValue L k path (writeValue v) = Inr v"
  "conforms_fields L fs m \<Longrightarrow> good_kind (KStruct fs) \<Longrightarrow>
     (\<And>key. key \<in> fst ` set fs \<Longrightarrow> map_of m0 key = map_of m key) \<Longrightarrow>
     (\<And>k key. k \<in> fst ` set m0 \<Longrightarrow> key \<in> fst ` set fs \<Longrightarrow> k \<noteq> key \<Longrightarrow> fold_key (dashed k) \<noteq> map lower_char key) \<Longrightarrow>
     readStruct L fs path (writeStruct m0) = Inr m"
proof (induction arbitrary: path and path m0 rule: conforms_conforms_fields.inducts)
  case (5 fs m)
  have keys: "set (map fst m) \<subseteq> fst ` set fs" using conforms_fields_keys[OF 5(1)] by simp
  have "readStruct L fs (path @ ''.'') (writeStruct m) = Inr m"
  proof (rule "5.IH")
    fix k key
    assume k: "k \<in> fst ` set m" "key \<in> fst ` set fs" "k \<noteq> key"
    then have kf: "k \<in> fst ` set fs" using keys by auto
    have inj: "map lower_char k \<noteq> map lower_char key"
      using "5.prems" kf k(2,3) by (auto simp: distinct_map inj_on_def)
    moreover have "fold_key (dashed k) = map lower_char k"
      using "5.prems" kf by (auto simp: list_all_iff)
    ultimately show "fold_key (dashed k) \<noteq> map lower_char key" by simp
  qed (use "5.prems" in simp_all)
  then show ?case by (simp add: optMap_def writeStruct_def)
next
  case (6 vs k)
  then have "map_res (\<lambda>(i, x). readValue L k (path @ ''['' @ itoa_nat i @ '']'') x) (enumerate 0 (map writeValue vs)) = Inr vs"
    by (intro map_res_enumerate) auto
  then show ?case by simp
next
  case (7 m k)
  have d: "distinct (map fst m)" using 7(1) by (simp add: strict_sorted_iff)
  have "map_res (\<lambda>key. bind_res (readValue L k (path @ ''.'' @ key)
      (the (map_of (map (\<lambda>(k, v). (k, writeValue v)) m) key))) (\<lambda>v. Inr (key, v))) (map fst m) = Inr (map (\<lambda>x. x) m)"
    by (rule map_res_Inr_map) (use d 7 in \<open>auto simp: map_of_map_values\<close>)
  then show ?case using sorted_keys_write[OF 7(1)] by (simp add: optMap_def)
next
  case (9 fs m f)
  obtain key tag k where f: "f = (key, tag, k)" by (cases f)
  have gk: "good_kind (KStruct fs)" using 9(3) f by simp
  have "key \<notin> fst ` set fs" using 9(3) f by (auto simp: image_iff)
  then have "map_of m key = None"
    using conforms_fields_keys[OF 9(1)] by (auto simp: map_of_eq_None_iff)
  then have "present_at (writeStruct m0) key = None"
    using present_at_write[of m0 key] 9(4,5) f by simp
  with 9(2)[OF gk] 9(4,5) f show ?case by simp
next
  case (10 k v tag fs m key)
  have gk: "good_kind (KStruct fs)" "good_kind k" using 10(6) by auto
  have nk: "key \<notin> fst ` set fs" using 10(6) by (auto simp: image_iff)
  have "present_at (writeStruct m0) key = Some (writeValue v)"
    using present_at_write[of m0 key] 10(7)[of key] 10(8) by simp
  moreover have "readStruct L fs path (writeStruct m0) = Inr m"
    by (rule 10(5)[OF gk(1)]) (use 10(7,8) nk in \<open>auto split: if_splits\<close>)
  ultimately show ?case using 10(2)[OF gk(2)] 10(3) by simp
qed (auto simp: optString_def optInt_GInt optBool_def)

end
