(* ===== verification/Build_Props.thy ===== *)
theory Build_Props
  imports Profile_Build Proxy_Props
begin

text \<open>
  What \<^verbatim>\<open>Document.Build\<close> promises of the profile it returns: every proxy was read by
  \<^const>\<open>Proxy\<close>, names are distinct and none is reserved, every group has members and all of
  them exist, every rule has a known type and a target that exists. The invariants follow the
  builder through its four passes: \<open>reads\<close> over the proxies, \<open>names_ok\<close> over its table of
  names, \<open>members_ok\<close> over a group's members and \<open>rule_ok\<close> over the rules.
\<close>

subsection \<open>Names\<close>

definition reserved :: "string set" where
  "reserved = insert ''GLOBAL'' (set builtins)"

text \<open>A name in a profile: one \<^const>\<open>checkName\<close> takes, or such a name with a number after it.\<close>

definition profile_name :: "string \<Rightarrow> bool" where
  "profile_name s \<longleftrightarrow> (\<exists>base. checkName base = None \<and> (s = base \<or> (\<exists>j \<ge> 2. s = candidate base j)))"

lemma checkName_None:
  "checkName s = None \<longleftrightarrow> s \<noteq> [] \<and> length s \<le> maxName \<and> \<not> has_control s \<and> s = trim_space s
     \<and> CHR '','' \<notin> set s \<and> s \<notin> reserved"
  by (auto simp: checkName_def reserved_def)

lemma candidate_not_global: "candidate base j \<noteq> ''GLOBAL''"
proof
  assume a: "candidate base j = ''GLOBAL''"
  have "CHR '' '' \<in> set (candidate base j)" by (simp add: candidate_def)
  with a show False by simp
qed

lemma profile_name_not_global: "profile_name s \<Longrightarrow> s \<noteq> ''GLOBAL''"
  by (auto simp: profile_name_def checkName_None reserved_def candidate_not_global[symmetric])

lemma unique_profile_name: "checkName s = None \<Longrightarrow> profile_name (unique names s)"
proof (cases "s \<in> set names")
  case True
  assume "checkName s = None"
  moreover obtain j where "2 \<le> j" "unique_from names s 2 = candidate s j"
    using unique_from_candidate[of 2 names s] by auto
  ultimately show ?thesis using True by (auto simp: profile_name_def unique_def)
qed (auto simp: profile_name_def unique_def)

subsection \<open>Proxies\<close>

text \<open>A proxy a profile holds was read from a mapping of the subscription, under its own name
  or a provider's name for it.\<close>

definition reads :: "build_lib \<Rightarrow> core_proxy \<Rightarrow> bool" where
  "reads L px \<longleftrightarrow> profile_name (px_name px)
     \<and> (\<exists>m px0. Proxy (plib L) m = Inr px0 \<and> px = px0\<lparr>px_name := px_name px\<rparr>)"

lemma px_name_self [simp]: "px\<lparr>px_name := px_name px\<rparr> = (px :: core_proxy)"
  by (cases px) simp

lemma reads_own: "Proxy (plib L) m = Inr px \<Longrightarrow> checkName (px_name px) = None \<Longrightarrow> reads L px"
  unfolding reads_def profile_name_def by (metis px_name_self)

definition names_ok :: "build_lib \<Rightarrow> builder \<Rightarrow> bool" where
  "names_ok L b \<longleftrightarrow>
     set (b_names b) = set builtins \<union> px_name ` set (b_proxies b)
     \<and> distinct (map px_name (b_proxies b)) \<and> px_name ` set (b_proxies b) \<inter> set builtins = {}
     \<and> (\<forall>px \<in> set (b_proxies b). reads L px)
     \<and> (\<forall>(k, ns) \<in> set (b_fromProvider b). set ns \<subseteq> px_name ` set (b_proxies b))"

lemma names_ok_dropping [simp]: "names_ok L (dropping x b) = names_ok L b"
  by (simp add: names_ok_def dropping_def)

lemma proxies_dropping [simp]:
  "b_proxies (dropping x b) = b_proxies b" "b_names (dropping x b) = b_names b"
  "b_fromProvider (dropping x b) = b_fromProvider b" "b_topLevel (dropping x b) = b_topLevel b"
  by (simp_all add: dropping_def)

lemma names_ok_add:
  assumes "names_ok L b" "reads L px" "px_name px \<notin> set (b_names b)"
  shows "names_ok L (b\<lparr>b_names := px_name px # b_names b, b_proxies := b_proxies b @ [px]\<rparr>)"
    and "names_ok L (b\<lparr>b_names := px_name px # b_names b, b_matches := n, b_proxies := b_proxies b @ [px]\<rparr>)"
  using assms unfolding names_ok_def by (auto 0 3)

lemma names_ok_matches [simp]: "names_ok L (b\<lparr>b_matches := n\<rparr>) = names_ok L b"
  by (simp add: names_ok_def)

lemma add_top_proxy_ok: "names_ok L b \<Longrightarrow> names_ok L (add_top_proxy L im b)"
proof (cases "Proxy (plib L) (snd im)")
  case (Inr px)
  assume ok: "names_ok L b"
  show ?thesis
  proof (cases "checkName (px_name px)")
    case None
    then have "reads L px" using Inr reads_own by blast
    then show ?thesis using ok Inr None names_ok_add(1) by (auto simp: add_top_proxy_def)
  qed (use ok Inr in \<open>simp add: add_top_proxy_def\<close>)
qed (simp add: add_top_proxy_def)

text \<open>The state of the loop over one provider: what it has added is among the proxies.\<close>

definition provider_ok :: "build_lib \<Rightarrow> builder \<times> string list \<Rightarrow> bool" where
  "provider_ok L st \<longleftrightarrow> names_ok L (fst st) \<and> set (snd st) \<subseteq> px_name ` set (b_proxies (fst st))
     \<and> length (b_proxies (fst st)) \<le> maxProxies"

lemma add_provider_proxy_ok:
  assumes ok: "provider_ok L st" and run: "add_provider_proxy L name f affix im st = Inr st'"
  shows "provider_ok L st'"
proof (cases "Proxy (plib L) (snd im)")
  case (Inl e)
  then show ?thesis using ok run by (auto simp: add_provider_proxy_def provider_ok_def Let_def)
next
  case (Inr px0)
  define px where "px = px0\<lparr>px_name := fst affix @ px_name px0 @ snd affix\<rparr>"
  define b where "b = fst st"
  show ?thesis
  proof (cases "checkName (px_name px)")
    case (Some e)
    then show ?thesis using ok run Inr
      by (auto simp: add_provider_proxy_def provider_ok_def Let_def px_def)
  next
    case None
    then obtain kept n where k: "keep L f (px_name px) (px_type px) (b_matches b) = Inr (kept, n)"
      and st': "(if \<not> kept then Inr (b\<lparr>b_matches := n\<rparr>, snd st)
          else if length (b_proxies b) \<ge> maxProxies then Inl TooManyProviderProxies
          else Inr (b\<lparr>b_names := unique (b_names b) (px_name px) # b_names b, b_matches := n,
                 b_proxies := b_proxies b @ [px\<lparr>px_name := unique (b_names b) (px_name px)\<rparr>]\<rparr>,
               snd st @ [unique (b_names b) (px_name px)])) = Inr st'"
    proof -
      have eq: "add_provider_proxy L name f affix im st =
          bind_res (keep L f (px_name px) (px_type px) (b_matches b)) (\<lambda>(kept, n).
            if \<not> kept then Inr (b\<lparr>b_matches := n\<rparr>, snd st)
            else if length (b_proxies b) \<ge> maxProxies then Inl TooManyProviderProxies
            else Inr (b\<lparr>b_names := unique (b_names b) (px_name px) # b_names b, b_matches := n,
                 b_proxies := b_proxies b @ [px\<lparr>px_name := unique (b_names b) (px_name px)\<rparr>]\<rparr>,
               snd st @ [unique (b_names b) (px_name px)]))"
        unfolding add_provider_proxy_def Let_def Inr b_def px_def[symmetric] sum.case None option.case ..
      show ?thesis using run[unfolded eq] that by (auto simp only: bind_res_Inr split_paired_Ex prod.case)
    qed
    define u where "u = unique (b_names b) (px_name px)"
    have "reads L (px\<lparr>px_name := u\<rparr>)"
      using Inr unique_profile_name[OF None] unfolding reads_def px_def u_def by auto
    moreover have "u \<notin> set (b_names b)" by (simp add: u_def unique_fresh)
    ultimately have "names_ok L (b\<lparr>b_names := u # b_names b, b_matches := n,
        b_proxies := b_proxies b @ [px\<lparr>px_name := u\<rparr>]\<rparr>)"
      using ok names_ok_add(2)[of L b "px\<lparr>px_name := u\<rparr>"] by (simp add: provider_ok_def b_def)
    then show ?thesis using ok st' unfolding u_def[symmetric]
      by (auto simp: provider_ok_def b_def split: if_splits)
  qed
qed

lemma add_provider_ok:
  assumes "names_ok L b" "length (b_proxies b) \<le> maxProxies" "add_provider L d bodies name b = Inr b'"
  shows "names_ok L b' \<and> length (b_proxies b') \<le> maxProxies"
proof -
  define def where "def = the (map_of (d_proxy_providers d) name)"
  show ?thesis
  proof (cases "provider_raw L bodies name def")
    case (RawList raw)
    show ?thesis
    proof (cases "newFilter L def")
      case (Inr f)
      obtain b1 names where run: "fold_res (add_provider_proxy L name f (override_names def)) (enumerate 0 raw) (b, []) = Inr (b1, names)"
        and b': "b' = b1\<lparr>b_fromProvider := (name, names) # b_fromProvider b1\<rparr>"
        using assms(3) RawList Inr by (auto simp: add_provider_def Let_def def_def result_simps)
      have "provider_ok L (b1, names)"
      proof (rule fold_res_invariant[OF run])
        show "provider_ok L (b, [])" using assms by (simp add: provider_ok_def)
      qed (rule add_provider_proxy_ok)
      then show ?thesis by (auto simp: b' provider_ok_def names_ok_def)
    qed (use assms RawList in \<open>auto simp: add_provider_def Let_def def_def\<close>)
  qed (use assms in \<open>auto simp: add_provider_def Let_def def_def\<close>)
qed

lemma providers_ok:
  assumes "names_ok L b" "length (b_proxies b) \<le> maxProxies" "providers L d bodies b = Inr b'"
  shows "names_ok L b' \<and> length (b_proxies b') \<le> maxProxies"
  using assms(3) unfolding providers_def
proof (rule fold_res_invariant)
  show "names_ok L (b\<lparr>b_fromProvider := []\<rparr>) \<and> length (b_proxies (b\<lparr>b_fromProvider := []\<rparr>)) \<le> maxProxies"
    using assms(1,2) by (simp add: names_ok_def)
qed (use add_provider_ok in blast)

text \<open>The top-level pass keeps at most one proxy per entry.\<close>

lemma top_proxies_length:
  "length (b_proxies (fold (add_top_proxy L) xs b)) \<le> length (b_proxies b) + length xs"
proof (induction xs arbitrary: b)
  case (Cons x xs)
  have "length (b_proxies (add_top_proxy L x b)) \<le> Suc (length (b_proxies b))"
    by (simp add: add_top_proxy_def split: sum.split option.split)
  then show ?case using Cons.IH[of "add_top_proxy L x b"] by simp
qed simp

lemma new_builder_ok: "names_ok L new_builder"
  by (simp add: names_ok_def new_builder_def)

lemma top_level_ok: "names_ok L (fold (add_top_proxy L) xs new_builder)"
  by (rule fold_invariant) (simp_all add: new_builder_ok add_top_proxy_ok)

lemma names_ok_topLevel [simp]: "names_ok L (b\<lparr>b_topLevel := n\<rparr>) = names_ok L b"
  by (simp add: names_ok_def)

subsection \<open>Groups\<close>

text \<open>After the first pass over the groups the table holds the proxies' and the groups' names.\<close>

definition pending_ok :: "build_lib \<Rightarrow> builder \<Rightarrow> builder \<times> pending list \<Rightarrow> bool" where
  "pending_ok L b0 st \<longleftrightarrow>
     b_proxies (fst st) = b_proxies b0 \<and> b_fromProvider (fst st) = b_fromProvider b0
     \<and> set (b_names (fst st)) = set (b_names b0) \<union> (g_name \<circ> pd_group) ` set (snd st)
     \<and> distinct (map (g_name \<circ> pd_group) (snd st))
     \<and> (g_name \<circ> pd_group) ` set (snd st) \<inter> set (b_names b0) = {}
     \<and> (\<forall>p \<in> set (snd st). checkName (g_name (pd_group p)) = None \<and> g_type (pd_group p) \<in> set groupTypes
          \<and> (\<exists>def. groupOptions (g_type (pd_group p)) def = Inr (g_options (pd_group p))))"

lemma add_pending_ok: "pending_ok L b0 st \<Longrightarrow> pending_ok L b0 (add_pending im st)"
proof -
  assume ok: "pending_ok L b0 st"
  define name ty where "name = str_or_empty (snd im) ''name''" and "ty = str_or_empty (snd im) ''type''"
  consider (drop) x where "add_pending im st = (dropping x (fst st), snd st)"
    | (add) opts where "checkName name = None" "ty \<in> set groupTypes" "name \<notin> set (b_names (fst st))"
        "groupOptions ty (snd im) = Inr opts"
        "add_pending im st = ((fst st)\<lparr>b_names := name # b_names (fst st)\<rparr>,
           snd st @ [\<lparr>pd_group = \<lparr>g_name = name, g_type = ty, g_members = [], g_options = opts\<rparr>, pd_def = snd im\<rparr>])"
    unfolding add_pending_def Let_def name_def[symmetric] ty_def[symmetric]
    by (cases "checkName name"; cases "groupOptions ty (snd im)"; cases "ty \<in> set groupTypes";
        cases "name \<in> set (b_names (fst st))") auto
  then show ?thesis
  proof cases
    case (drop x)
    then show ?thesis using ok by (simp add: pending_ok_def)
  next
    case (add opts)
    then show ?thesis using ok unfolding pending_ok_def by auto
  qed
qed

text \<open>A group's members so far: distinct, known names, and never the group itself.\<close>

definition members_ok :: "builder \<Rightarrow> string \<Rightarrow> builder \<times> string list \<Rightarrow> bool" where
  "members_ok b0 gname st \<longleftrightarrow>
     b_proxies (fst st) = b_proxies b0 \<and> b_fromProvider (fst st) = b_fromProvider b0
     \<and> b_names (fst st) = b_names b0 \<and> distinct (snd st) \<and> set (snd st) \<subseteq> set (b_names b0) - {gname}"

lemma add_member_ok:
  "members_ok b0 g st \<Longrightarrow> name \<in> set (b_names b0) - {g} \<Longrightarrow> members_ok b0 g (b, add_member name (snd st))
    = (b_proxies b = b_proxies b0 \<and> b_fromProvider b = b_fromProvider b0 \<and> b_names b = b_names b0)"
  by (auto simp: members_ok_def add_member_def)

lemma listed_member_ok: "members_ok b0 g st \<Longrightarrow> members_ok b0 g (listed_member g iv st)"
proof -
  assume ok: "members_ok b0 g st"
  define name where "name = (case snd iv of GStr s \<Rightarrow> s | _ \<Rightarrow> [])"
  have fst_ok: "b_proxies (fst st) = b_proxies b0 \<and> b_fromProvider (fst st) = b_fromProvider b0 \<and> b_names (fst st) = b_names b0"
    using ok by (simp add: members_ok_def)
  show ?thesis
  proof (cases "name \<in> set (b_names (fst st)) \<and> name \<noteq> g")
    case True
    then show ?thesis using add_member_ok[OF ok, of name "fst st"] fst_ok
      by (simp add: listed_member_def Let_def name_def[symmetric])
  next
    case False
    then have "listed_member g iv st = (dropping (DropMember g (fst iv + 1)) (fst st), snd st)"
      by (auto simp: listed_member_def Let_def name_def[symmetric])
    then show ?thesis using ok by (simp add: members_ok_def)
  qed
qed

lemma filtered_member_ok:
  assumes "members_ok b0 g st" "fst nt \<in> set (b_names b0) - {g}" "filtered_member L f nt st = Inr st'"
  shows "members_ok b0 g st'"
proof -
  obtain kept n where "st' = ((fst st)\<lparr>b_matches := n\<rparr>, if kept then add_member (fst nt) (snd st) else snd st)"
    using assms(3) by (auto simp: filtered_member_def result_simps)
  moreover have "members_ok b0 g ((fst st)\<lparr>b_matches := n\<rparr>, add_member (fst nt) (snd st))"
    by (subst add_member_ok[OF assms(1,2)]) (use assms(1) in \<open>simp add: members_ok_def\<close>)
  moreover have "members_ok b0 g ((fst st)\<lparr>b_matches := n\<rparr>, snd st)"
    using assms(1) by (simp add: members_ok_def)
  ultimately show ?thesis by simp
qed

lemma filtered_members_ok:
  assumes "fold_res (filtered_member L f) nts st = Inr st'" "members_ok b0 g st"
    "fst ` set nts \<subseteq> set (b_names b0) - {g}"
  shows "members_ok b0 g st'"
  using assms(1,2) by (rule fold_res_invariant) (use assms(3) filtered_member_ok in blast)

lemma provider_members_ok:
  assumes ok: "members_ok b0 g st" and run: "provider_members L f g provider st = Inr st'"
    and from_ok: "\<And>k ns. (k, ns) \<in> set (b_fromProvider b0) \<Longrightarrow> set ns \<subseteq> set (b_names b0) - {g}"
  shows "members_ok b0 g st'"
proof (cases "map_of (b_fromProvider (fst st)) provider")
  case None
  then show ?thesis using ok run by (auto simp: provider_members_def members_ok_def)
next
  case (Some ns)
  have "set ns \<subseteq> set (b_names b0) - {g}"
    using from_ok map_of_SomeD[OF Some] ok by (simp add: members_ok_def)
  then show ?thesis
    using filtered_members_ok[OF _ ok, of L f "map (\<lambda>n. (n, type_of_name (fst st) n)) ns"] run Some
    by (simp add: provider_members_def image_image)
qed

text \<open>The groups the second pass has made.\<close>

definition group_ok :: "builder \<Rightarrow> core_group \<Rightarrow> bool" where
  "group_ok b g \<longleftrightarrow> g_members g \<noteq> [] \<and> distinct (g_members g)
     \<and> set (g_members g) \<subseteq> set (b_names b) - {g_name g} \<and> g_type g \<in> set groupTypes
     \<and> (\<exists>def. groupOptions (g_type g) def = Inr (g_options g))"

definition same_tables :: "builder \<Rightarrow> builder \<Rightarrow> bool" where
  "same_tables b b0 \<longleftrightarrow> b_names b = b_names b0 \<and> b_proxies b = b_proxies b0 \<and> b_fromProvider b = b_fromProvider b0"

lemma expand_group_ok:
  assumes run: "expand_group L p (b, gs) = Inr (b', gs')" and same: "same_tables b b0"
    and from_ok: "\<And>k ns. (k, ns) \<in> set (b_fromProvider b0) \<Longrightarrow> set ns \<subseteq> set (b_names b0) - {g_name (pd_group p)}"
    and px_ok: "px_name ` set (b_proxies b0) \<subseteq> set (b_names b0) - {g_name (pd_group p)}"
    and ty: "g_type (pd_group p) \<in> set groupTypes" "groupOptions (g_type (pd_group p)) def = Inr (g_options (pd_group p))"
  shows "same_tables b' b0 \<and> (\<exists>g. gs' = gs @ [g] \<and> g_name g = g_name (pd_group p) \<and> group_ok b0 g)"
proof -
  let ?g = "g_name (pd_group p)"
  define listed where "listed = fold (listed_member ?g)
    (enumerate 0 (case list_at (pd_def p) ''proxies'' of Some xs \<Rightarrow> xs | None \<Rightarrow> [])) (b, [])"
  have "members_ok b0 ?g (b, [])" using same by (simp add: members_ok_def same_tables_def)
  then have listed_ok: "members_ok b0 ?g listed" unfolding listed_def
    by (rule fold_invariant) (rule listed_member_ok)
  obtain f st1 st2 where
    s1: "(if is_true (pd_def p) ''include-all'' \<or> is_true (pd_def p) ''include-all-proxies''
            then fold_res (filtered_member L f)
                   (map (\<lambda>px. (px_name px, px_type px)) (take (b_topLevel b) (b_proxies b))) listed
            else Inr listed) = Inr st1"
    and s2: "fold_res (provider_members L f ?g) (group_providers (fst st1) (pd_def p)) st1 = Inr st2"
    and s3: "snd st2 \<noteq> []" "b' = fst st2" "gs' = gs @ [(pd_group p)\<lparr>g_members := snd st2\<rparr>]"
    using run unfolding expand_group_def Let_def fst_conv listed_def[symmetric]
    by (auto simp: result_simps split: sum.splits if_splits)
  have tops: "fst ` set (map (\<lambda>px. (px_name px, px_type px)) (take (b_topLevel b) (b_proxies b))) \<subseteq> set (b_names b0) - {?g}"
    using same px_ok set_take_subset[of "b_topLevel b" "b_proxies b"] by (fastforce simp: same_tables_def)
  have "members_ok b0 ?g st1"
    using s1 filtered_members_ok[OF _ listed_ok tops] listed_ok by (auto split: if_splits)
  then have "members_ok b0 ?g st2"
    using fold_res_invariant[OF s2, of "members_ok b0 ?g"] provider_members_ok from_ok by blast
  then show ?thesis using s3 ty by (auto simp: members_ok_def same_tables_def group_ok_def)
qed

definition groups_ok :: "builder \<Rightarrow> core_group list \<Rightarrow> bool" where
  "groups_ok b gs \<longleftrightarrow> (\<forall>g \<in> set gs. group_ok b g)"

lemma expand_groups_ok:
  assumes "fold_res (expand_group L) ps (b, gs) = Inr (b', gs')" "same_tables b b0" "groups_ok b0 gs"
    and from_ok: "\<And>p k ns. p \<in> set ps \<Longrightarrow> (k, ns) \<in> set (b_fromProvider b0) \<Longrightarrow> set ns \<subseteq> set (b_names b0) - {g_name (pd_group p)}"
    and px_ok: "\<And>p. p \<in> set ps \<Longrightarrow> px_name ` set (b_proxies b0) \<subseteq> set (b_names b0) - {g_name (pd_group p)}"
    and ty: "\<And>p. p \<in> set ps \<Longrightarrow> g_type (pd_group p) \<in> set groupTypes
      \<and> (\<exists>def. groupOptions (g_type (pd_group p)) def = Inr (g_options (pd_group p)))"
  shows "same_tables b' b0 \<and> groups_ok b0 gs' \<and> map g_name gs' = map g_name gs @ map (g_name \<circ> pd_group) ps"
  using assms
proof (induction ps arbitrary: b gs)
  case Nil
  then show ?case by simp
next
  case (Cons p ps)
  obtain b1 gs1 where one: "expand_group L p (b, gs) = Inr (b1, gs1)"
    and rest: "fold_res (expand_group L) ps (b1, gs1) = Inr (b', gs')"
    using Cons.prems(1) by (auto simp: result_simps)
  obtain def where def: "groupOptions (g_type (pd_group p)) def = Inr (g_options (pd_group p))"
    using Cons.prems(6)[of p] by auto
  have "same_tables b1 b0 \<and> (\<exists>g. gs1 = gs @ [g] \<and> g_name g = g_name (pd_group p) \<and> group_ok b0 g)"
  proof (rule expand_group_ok[OF one Cons.prems(2) _ _ _ def])
    fix k ns assume "(k, ns) \<in> set (b_fromProvider b0)"
    then show "set ns \<subseteq> set (b_names b0) - {g_name (pd_group p)}" by (rule Cons.prems(4)[rotated]) simp
  next
    show "px_name ` set (b_proxies b0) \<subseteq> set (b_names b0) - {g_name (pd_group p)}" by (rule Cons.prems(5)) simp
    show "g_type (pd_group p) \<in> set groupTypes" using Cons.prems(6)[of p] by simp
  qed
  then have "same_tables b1 b0" "groups_ok b0 gs1" "map g_name gs1 = map g_name gs @ [g_name (pd_group p)]"
    using Cons.prems(3) by (auto simp: groups_ok_def)
  moreover have "same_tables b' b0 \<and> groups_ok b0 gs' \<and> map g_name gs' = map g_name gs1 @ map (g_name \<circ> pd_group) ps"
  proof (rule Cons.IH[OF rest])
    show "same_tables b1 b0" "groups_ok b0 gs1" by fact+
  next
    fix q assume "q \<in> set ps"
    then have q: "q \<in> set (p # ps)" by simp
    show "px_name ` set (b_proxies b0) \<subseteq> set (b_names b0) - {g_name (pd_group q)}" by (rule Cons.prems(5)[OF q])
    show "g_type (pd_group q) \<in> set groupTypes \<and> (\<exists>def. groupOptions (g_type (pd_group q)) def = Inr (g_options (pd_group q)))"
      by (rule Cons.prems(6)[OF q])
    show "set ns \<subseteq> set (b_names b0) - {g_name (pd_group q)}" if "(k, ns) \<in> set (b_fromProvider b0)" for k ns
      by (rule Cons.prems(4)[OF q that])
  qed
  ultimately show ?case by simp
qed

lemma groups_run:
  assumes "groups L d b = Inr (b', gs)" "names_ok L b"
  shows "b_proxies b' = b_proxies b" "groups_ok b' gs" "distinct (map g_name gs)"
    "set (b_names b') = set (b_names b) \<union> g_name ` set gs" "g_name ` set gs \<inter> set (b_names b) = {}"
    "\<forall>g \<in> set gs. checkName (g_name g) = None"
proof -
  define st where "st = fold add_pending (enumerate 0 (d_groups d)) (b, [])"
  have pend: "pending_ok L b st" unfolding st_def
    by (rule fold_invariant[of "pending_ok L b"]) (simp add: pending_ok_def, rule add_pending_ok)
  have run: "fold_res (expand_group L) (snd st) (fst st, []) = Inr (b', gs)"
    using assms(1) by (simp add: groups_def st_def Let_def)
  have px: "px_name ` set (b_proxies b) \<subseteq> set (b_names b)"
    and fromp: "\<And>k ns. (k, ns) \<in> set (b_fromProvider b) \<Longrightarrow> set ns \<subseteq> set (b_names b)"
    using assms(2) unfolding names_ok_def by blast+
  have disj: "\<And>p. p \<in> set (snd st) \<Longrightarrow> g_name (pd_group p) \<notin> set (b_names b)"
    and sub: "set (b_names b) \<subseteq> set (b_names (fst st))"
    and same: "b_proxies (fst st) = b_proxies b" "b_fromProvider (fst st) = b_fromProvider b"
    using pend unfolding pending_ok_def by auto
  have all: "same_tables b' (fst st) \<and> groups_ok (fst st) gs \<and> map g_name gs = map g_name ([] :: core_group list) @ map (g_name \<circ> pd_group) (snd st)"
  proof (rule expand_groups_ok[OF run])
    show "same_tables (fst st) (fst st)" "groups_ok (fst st) []"
      by (simp_all add: same_tables_def groups_ok_def)
  next
    fix p k ns assume "p \<in> set (snd st)" "(k, ns) \<in> set (b_fromProvider (fst st))"
    then show "set ns \<subseteq> set (b_names (fst st)) - {g_name (pd_group p)}"
      using fromp[of k ns] disj[of p] sub same by auto
  next
    fix p assume "p \<in> set (snd st)"
    then show "px_name ` set (b_proxies (fst st)) \<subseteq> set (b_names (fst st)) - {g_name (pd_group p)}"
      using px disj[of p] sub same by auto
  next
    fix p assume "p \<in> set (snd st)"
    then show "g_type (pd_group p) \<in> set groupTypes \<and> (\<exists>def. groupOptions (g_type (pd_group p)) def = Inr (g_options (pd_group p)))"
      using pend unfolding pending_ok_def by blast
  qed
  then have names: "map g_name gs = map (g_name \<circ> pd_group) (snd st)" and t: "same_tables b' (fst st)"
    and ok: "groups_ok (fst st) gs" by simp_all
  have img: "g_name ` set gs = (g_name \<circ> pd_group) ` set (snd st)"
    using arg_cong[OF names, of set] by simp
  show "b_proxies b' = b_proxies b" using t same by (simp add: same_tables_def)
  show "groups_ok b' gs" using ok t by (simp add: groups_ok_def group_ok_def same_tables_def)
  show "distinct (map g_name gs)" using pend names by (simp add: pending_ok_def)
  show "set (b_names b') = set (b_names b) \<union> g_name ` set gs"
    using pend t img by (simp add: pending_ok_def same_tables_def)
  show "g_name ` set gs \<inter> set (b_names b) = {}" using pend img by (simp add: pending_ok_def)
  show "\<forall>g \<in> set gs. checkName (g_name g) = None"
  proof
    fix g assume "g \<in> set gs"
    then have "g_name g \<in> (g_name \<circ> pd_group) ` set (snd st)" using img by blast
    then show "checkName (g_name g) = None" using pend unfolding pending_ok_def by auto
  qed
qed

subsection \<open>Rule sets and rules\<close>

definition line_ok :: "string \<Rightarrow> bool" where
  "line_ok l \<longleftrightarrow> l \<noteq> [] \<and> l = trim_space l \<and> CHR 0x0A \<notin> set l"

lemma payload_lines_ok: "payload_lines v = Inr ls \<Longrightarrow> list_all line_ok ls"
  by (auto simp: payload_lines_def result_simps list_all_iff line_ok_def trim_space_idem contains_any_def list_ex_iff
      split: option.splits goval.splits)

lemma text_lines_ok: "list_all line_ok (text_lines body)"
proof -
  have "CHR 0x0A \<notin> set (trim_space l)" if "l \<in> set (split_on (CHR 0x0A) body)" for l
    using that split_on_no_sep trim_space_set by fastforce
  then show ?thesis by (auto simp: text_lines_def list_all_iff line_ok_def trim_space_idem)
qed

lemma rule_set_payload_ok:
  assumes "rule_set_payload L bodies name def = Inr (Inr ls)"
  shows "list_all line_ok ls"
  using assms payload_lines_ok text_lines_ok
  by (auto simp: rule_set_payload_def Let_def split: if_splits option.splits sum.splits)

definition rule_set_ok :: "core_rule_set \<Rightarrow> bool" where
  "rule_set_ok s \<longleftrightarrow> rs_behavior s \<in> set behaviors \<and> list_all line_ok (rs_payload s)"

lemma add_rule_set_ok:
  assumes "add_rule_set L d bodies name (b, sets) = Inr (b', sets')"
  shows "same_tables b' b"
    "sets' = sets \<or> (\<exists>s. sets' = sets @ [s] \<and> rs_name s = name \<and> rule_set_ok s)"
proof -
  define def where "def = the (map_of (d_rule_providers d) name)"
  consider (drop) why where "b' = dropping (DropRuleProvider name why) b" "sets' = sets"
    | (add) ls where "b' = b" "rule_set_payload L bodies name def = Inr (Inr ls)" "str_or_empty def ''behavior'' \<in> set behaviors"
        "sets' = sets @ [\<lparr>rs_name = name, rs_behavior = str_or_empty def ''behavior'', rs_payload = ls\<rparr>]"
    using assms unfolding add_rule_set_def Let_def def_def[symmetric] fst_conv snd_conv
    by (cases "str_or_empty def ''behavior'' \<in> set behaviors"; cases "rule_set_payload L bodies name def")
       (auto split: sum.splits)
  then show "same_tables b' b" "sets' = sets \<or> (\<exists>s. sets' = sets @ [s] \<and> rs_name s = name \<and> rule_set_ok s)"
    by (cases; simp add: same_tables_def rule_set_ok_def rule_set_payload_ok)+
qed

lemma same_tables_trans: "same_tables a b \<Longrightarrow> same_tables b c \<Longrightarrow> same_tables a c"
  by (simp add: same_tables_def)

lemma rule_set_fold_ok:
  assumes "fold_res (add_rule_set L d bodies) names (b, sets) = Inr (b', sets')" "distinct names"
    "list_all rule_set_ok sets" "distinct (map rs_name sets)" "rs_name ` set sets \<inter> set names = {}"
  shows "same_tables b' b \<and> list_all rule_set_ok sets' \<and> distinct (map rs_name sets')"
  using assms
proof (induction names arbitrary: b sets)
  case Nil
  then show ?case by (simp add: same_tables_def)
next
  case (Cons name names)
  obtain b1 sets1 where one: "add_rule_set L d bodies name (b, sets) = Inr (b1, sets1)"
    and rest: "fold_res (add_rule_set L d bodies) names (b1, sets1) = Inr (b', sets')"
    using Cons.prems(1) by (auto simp: result_simps)
  have "list_all rule_set_ok sets1" "distinct (map rs_name sets1)" "rs_name ` set sets1 \<inter> set names = {}"
    using add_rule_set_ok(2)[OF one] Cons.prems by (auto simp: disjoint_iff)
  then show ?case using Cons.IH[OF rest] Cons.prems(2) add_rule_set_ok(1)[OF one] same_tables_trans by auto
qed

text \<open>A rule the profile runs: its target is \<open>GLOBAL\<close> or one of the names, unless it enters a
  list of sub-rules, and the rule set it uses is in the profile.\<close>

definition rule_ok :: "document \<Rightarrow> string set \<Rightarrow> core_rule_set list \<Rightarrow> core_rule \<Rightarrow> bool" where
  "rule_ok d names sets r \<longleftrightarrow>
     r_type r \<in> set ruleTypes \<and> r_source r = SourceSubscription \<and> set (r_params r) \<subseteq> set ruleParams
     \<and> (if r_type r = ''SUB-RULE'' then \<exists>ls. map_of (d_sub_rules d) (r_target r) = Some (Some ls)
        else r_target r \<in> insert ''GLOBAL'' names)
     \<and> (r_type r = ''RULE-SET'' \<longrightarrow> r_value r \<in> rs_name ` set sets)"

lemma add_rule_ok:
  assumes "same_tables (fst st) b0" "\<forall>r \<in> set (snd st). rule_ok d (set (b_names b0)) sets r"
  shows "same_tables (fst (add_rule L d sets il st)) b0
    \<and> (\<forall>r \<in> set (snd (add_rule L d sets il st)). rule_ok d (set (b_names b0)) sets r)"
proof (cases "ParseRule (uni_upper L) (snd il)")
  case (Inl e)
  then show ?thesis using assms by (simp add: add_rule_def Let_def same_tables_def)
next
  case (Inr r)
  define nosub where "nosub = (r_type r = ''SUB-RULE'' \<and> (case map_of (d_sub_rules d) (r_target r) of Some (Some _) \<Rightarrow> False | _ \<Rightarrow> True))"
  define notarget where "notarget = (r_type r \<noteq> ''SUB-RULE'' \<and> r_target r \<notin> set (b_names (fst st)) \<and> r_target r \<noteq> ''GLOBAL'')"
  define noset where "noset = (r_type r = ''RULE-SET'' \<and> \<not> list_ex (\<lambda>s. rs_name s = r_value r) sets)"
  define kept where "kept = r\<lparr>r_params := filter (\<lambda>p. p \<in> set ruleParams) (r_params r), r_source := SourceSubscription\<rparr>"
  consider (drop) why where "add_rule L d sets il st = (dropping (DropRule (fst il + 1) why) (fst st), snd st)"
    | (keep) "r_type r \<in> set ruleTypes" "\<not> nosub" "\<not> notarget" "\<not> noset" "add_rule L d sets il st = (fst st, snd st @ [kept])"
    unfolding add_rule_def Let_def Inr sum.case nosub_def[symmetric] notarget_def[symmetric] noset_def[symmetric] kept_def[symmetric]
    by (cases "r_type r \<in> set ruleTypes"; cases nosub; cases notarget; cases noset) simp_all
  then show ?thesis
  proof cases
    case keep
    have tgt: "if r_type r = ''SUB-RULE'' then \<exists>ls. map_of (d_sub_rules d) (r_target r) = Some (Some ls)
        else r_target r \<in> insert ''GLOBAL'' (set (b_names b0))"
      using keep(2,3) assms(1) unfolding nosub_def notarget_def same_tables_def by (auto split: option.splits)
    have set_ok: "r_type r = ''RULE-SET'' \<longrightarrow> r_value r \<in> rs_name ` set sets"
      using keep(4) unfolding noset_def list_ex_iff by force
    have sel: "r_type kept = r_type r" "r_target kept = r_target r" "r_value kept = r_value r"
      "r_source kept = SourceSubscription" "set (r_params kept) \<subseteq> set ruleParams" by (auto simp: kept_def)
    have "rule_ok d (set (b_names b0)) sets kept" unfolding rule_ok_def sel using sel(5) keep(1) tgt set_ok by blast
    then show ?thesis using keep(5) assms by simp
  qed (use assms in \<open>simp add: same_tables_def\<close>)
qed

lemma rules_run:
  assumes "rules L d sets b = (b', rs)"
  shows "same_tables b' b" "\<forall>r \<in> set rs. rule_ok d (set (b_names b)) sets r"
proof -
  let ?P = "\<lambda>st. same_tables (fst st) b \<and> (\<forall>r \<in> set (snd st). rule_ok d (set (b_names b)) sets r)"
  have "?P (rules L d sets b)" unfolding rules_def
    by (rule fold_invariant[of ?P]) (simp add: same_tables_def, rule add_rule_ok, auto)
  then show "same_tables b' b" "\<forall>r \<in> set rs. rule_ok d (set (b_names b)) sets r" using assms by auto
qed

subsection \<open>The profile\<close>

definition profile_names :: "core_profile \<Rightarrow> string list" where
  "profile_names p = map px_name (p_proxies p) @ map g_name (p_groups p)"

definition profile_group_ok :: "core_profile \<Rightarrow> core_group \<Rightarrow> bool" where
  "profile_group_ok p g \<longleftrightarrow> checkName (g_name g) = None \<and> g_members g \<noteq> [] \<and> distinct (g_members g)
     \<and> set (g_members g) \<subseteq> set (profile_names p) \<union> set builtins - {g_name g} \<and> g_type g \<in> set groupTypes
     \<and> (\<exists>def. groupOptions (g_type g) def = Inr (g_options g))"

definition profile_ok :: "build_lib \<Rightarrow> document \<Rightarrow> core_profile \<Rightarrow> bool" where
  "profile_ok L d p \<longleftrightarrow>
     distinct (profile_names p) \<and> set (profile_names p) \<inter> reserved = {}
     \<and> (\<forall>px \<in> set (p_proxies p). reads L px) \<and> length (p_proxies p) \<le> maxProxies
     \<and> (\<forall>g \<in> set (p_groups p). profile_group_ok p g)
     \<and> (\<forall>r \<in> set (p_rules p). rule_ok d (set (profile_names p) \<union> set builtins) (p_rule_sets p) r)
     \<and> list_all rule_set_ok (p_rule_sets p) \<and> distinct (map rs_name (p_rule_sets p))
     \<and> (p_proxies p \<noteq> [] \<or> p_groups p \<noteq> [])"

lemma names_ok_proxies:
  assumes "names_ok L b"
  shows "distinct (map px_name (b_proxies b))" "px_name ` set (b_proxies b) \<inter> reserved = {}"
    "\<forall>px \<in> set (b_proxies b). reads L px"
proof -
  show "distinct (map px_name (b_proxies b))" and all: "\<forall>px \<in> set (b_proxies b). reads L px"
    using assms by (simp_all add: names_ok_def)
  have "px_name px \<noteq> ''GLOBAL''" if "px \<in> set (b_proxies b)" for px
    using all that profile_name_not_global unfolding reads_def by blast
  then show "px_name ` set (b_proxies b) \<inter> reserved = {}"
    using assms unfolding names_ok_def reserved_def by fastforce
qed

lemma wrapped_profile_ok:
  assumes ok: "names_ok L b" and n: "length (b_proxies b) \<le> maxProxies" "b_proxies b \<noteq> []"
    and w: "wrapperGroup \<notin> set (b_names b)"
  shows "profile_ok L d (wrapped_profile b)"
proof -
  note px = names_ok_proxies[OF ok]
  have fresh: "\<forall>px \<in> set (b_proxies b). px_name px \<noteq> wrapperGroup"
    using w ok unfolding names_ok_def by (metis UnI2 imageI)
  have names: "profile_names (wrapped_profile b) = map px_name (b_proxies b) @ [wrapperGroup]"
    by (simp add: profile_names_def wrapped_profile_def)
  have "checkName wrapperGroup = None" by code_simp
  moreover have "wrapperGroup \<notin> reserved" by (simp add: wrapperGroup_def reserved_def builtins_def)
  moreover have "groupOptions ''select'' [] = Inr []" by (simp add: groupOptions_def bool_option_def bool_at_def)
  moreover have "''select'' \<in> set groupTypes" "''MATCH'' \<in> set ruleTypes"
    by (simp_all add: groupTypes_def ruleTypes_def)
  ultimately show ?thesis
    using px fresh n unfolding profile_ok_def names profile_group_ok_def rule_ok_def
    by (auto simp: wrapped_profile_def empty_profile_def)
qed

lemma build_config_run:
  assumes "build_config L d bodies b0 = Inr (p, dropped)"
  obtains b1 gs b2 sets subs b3 rs where "groups L d b0 = Inr (b1, gs)" "ruleSets L d bodies b1 = Inr (b2, sets)"
    "fold_res (add_sub_rules L) (d_sub_rules d) [] = Inr subs" "rules L d sets b2 = (b3, rs)"
    "\<not> (gs = [] \<and> b_proxies b0 = [])"
    "p = \<lparr>p_proxies = b_proxies b0, p_groups = gs, p_sub_rules = subs, p_rules = rs, p_rule_sets = sets\<rparr>"
proof -
  obtain b1 gs b2 sets subs where steps: "groups L d b0 = Inr (b1, gs)" "ruleSets L d bodies b1 = Inr (b2, sets)"
    "fold_res (add_sub_rules L) (d_sub_rules d) [] = Inr subs"
    using assms unfolding build_config_def by (auto simp: result_simps)
  obtain b3 rs where "rules L d sets b2 = (b3, rs)" by fastforce
  then show ?thesis using assms that steps by (auto simp: build_config_def split: if_splits)
qed

lemma build_config_ok:
  assumes run: "build_config L d bodies b0 = Inr (p, dropped)" and ok: "names_ok L b0"
    and n: "length (b_proxies b0) \<le> maxProxies"
  shows "profile_ok L d p"
proof -
  obtain b1 gs b2 sets subs b3 rs where g: "groups L d b0 = Inr (b1, gs)"
    and s: "ruleSets L d bodies b1 = Inr (b2, sets)" and "fold_res (add_sub_rules L) (d_sub_rules d) [] = Inr subs"
    and r: "rules L d sets b2 = (b3, rs)" and ne: "\<not> (gs = [] \<and> b_proxies b0 = [])"
    and p: "p = \<lparr>p_proxies = b_proxies b0, p_groups = gs, p_sub_rules = subs, p_rules = rs, p_rule_sets = sets\<rparr>"
    using run by (rule build_config_run)
  note gr = groups_run[OF g ok] and px = names_ok_proxies[OF ok] and rr = rules_run[OF r]
  have st: "same_tables b2 b1 \<and> list_all rule_set_ok sets \<and> distinct (map rs_name sets)"
    using rule_set_fold_ok[of L d bodies _ b1 "[]" b2 sets] s by (simp add: ruleSets_def)
  have names: "set (profile_names p) \<union> set builtins = set (b_names b1)"
    using ok gr(4) unfolding names_ok_def profile_names_def p by auto
  have grp: "g_name ` set gs \<inter> reserved = {}" using gr(6) by (auto simp: checkName_None)
  have "distinct (profile_names p)" "set (profile_names p) \<inter> reserved = {}"
    using px gr(3,5) grp ok unfolding profile_names_def p names_ok_def by auto
  moreover have "\<forall>g \<in> set gs. profile_group_ok p g"
    using gr(2,6) unfolding profile_group_ok_def names groups_ok_def group_ok_def by blast
  moreover have "\<forall>r \<in> set rs. rule_ok d (set (profile_names p) \<union> set builtins) sets r"
    using rr(2) st unfolding names same_tables_def by simp
  ultimately show ?thesis using px(3) n st ne unfolding profile_ok_def by (auto simp: p)
qed

text \<open>\<^verbatim>\<open>Build\<close> from the builder its first two passes leave.\<close>

definition top_builder :: "build_lib \<Rightarrow> document \<Rightarrow> builder" where
  "top_builder L d = (let b = fold (add_top_proxy L) (enumerate 0 (d_proxies d)) new_builder
     in b\<lparr>b_topLevel := length (b_proxies b)\<rparr>)"

lemma Build_run:
  assumes "Build L d bodies = Inr (p, dropped)"
  obtains b where "providers L d bodies (top_builder L d) = Inr b"
    "names_ok L b" "length (b_proxies b) \<le> maxProxies"
    "if d_wrapped d then b_proxies b \<noteq> [] \<and> wrapperGroup \<notin> set (b_names b) \<and> p = wrapped_profile b
     else build_config L d bodies b = Inr (p, dropped)"
proof -
  define b0 where "b0 = fold (add_top_proxy L) (enumerate 0 (d_proxies d)) new_builder"
  obtain b where b: "providers L d bodies (b0\<lparr>b_topLevel := length (b_proxies b0)\<rparr>) = Inr b"
    and size_ok: "length (d_proxies d) \<le> maxProxies"
    and rest: "if d_wrapped d then b_proxies b \<noteq> [] \<and> wrapperGroup \<notin> set (b_names b) \<and> p = wrapped_profile b
       else build_config L d bodies b = Inr (p, dropped)"
    using assms unfolding Build_def Let_def b0_def[symmetric]
    by (auto simp: result_simps split: if_splits)
  have "length (b_proxies b0) \<le> maxProxies"
    using top_proxies_length[of L "enumerate 0 (d_proxies d)" new_builder] size_ok
    by (simp add: b0_def new_builder_def)
  then have "names_ok L b \<and> length (b_proxies b) \<le> maxProxies"
    using providers_ok[OF _ _ b] top_level_ok[of L "enumerate 0 (d_proxies d)"] by (simp add: b0_def)
  moreover have "top_builder L d = b0\<lparr>b_topLevel := length (b_proxies b0)\<rparr>"
    by (simp add: top_builder_def b0_def Let_def)
  ultimately show ?thesis using that[of b] b rest by simp
qed

lemma Build_profile_ok: "Build L d bodies = Inr (p, dropped) \<Longrightarrow> profile_ok L d p"
  by (erule Build_run) (auto split: if_splits intro: wrapped_profile_ok build_config_ok)

subsection \<open>Downloads\<close>

lemma Downloads_in:
  assumes "dl \<in> set (downloads_of L kind ps)"
  obtains def where "map_of ps (dl_name dl) = Some def" "dl_name dl \<in> set (sorted_keys ps)" "dl_kind dl = kind"
    "type_is def ''http''" "dl_url dl = str_or_empty def ''url''" "CheckURL (url_parse L) (dl_url dl) = None"
    "kind = ''proxy'' \<or> modelledRuleSet def"
proof -
  obtain name where name: "name \<in> set (sorted_keys ps)" and ifs:
    "(let p = the (map_of ps name); url = str_or_empty p ''url''
        in if type_is p ''http'' \<and> CheckURL (url_parse L) url = None \<and> (kind = ''proxy'' \<or> modelledRuleSet p)
           then Some \<lparr>dl_kind = kind, dl_name = name, dl_url = url\<rparr> else None) = Some dl"
    using assms unfolding downloads_of_def List.map_filter_def by (auto simp del: set_sorted_keys)
  obtain def where "map_of ps name = Some def" using name sorted_keys_map_of by fastforce
  then show ?thesis using that[of def] name ifs by (auto simp: Let_def simp del: set_sorted_keys split: if_splits)
qed

lemma fold_res_all:
  "fold_res f xs s = Inr s' \<Longrightarrow> x \<in> set xs \<Longrightarrow> \<exists>a b. f x a = Inr b"
  by (induction xs arbitrary: s) (auto simp: result_simps)

lemma add_provider_body:
  assumes "map_of (d_proxy_providers d) name = Some def" "type_is def ''http''"
    "CheckURL (url_parse L) (str_or_empty def ''url'') = None" "add_provider L d bodies name b = Inr b'"
  shows "map_of bodies (Key ''proxy'' name) \<noteq> None"
proof
  assume none: "map_of bodies (Key ''proxy'' name) = None"
  have "\<not> type_is def ''inline''" using assms(2) by (simp add: type_is_def)
  then have "provider_raw L bodies name def = RawFailed (ProviderNotDownloaded name)"
    using assms(2,3) none by (simp add: provider_raw_def)
  then show False using assms(1,4) by (simp add: add_provider_def Let_def)
qed

lemma add_rule_set_body:
  assumes "map_of (d_rule_providers d) name = Some def" "type_is def ''http''"
    "CheckURL (url_parse L) (str_or_empty def ''url'') = None" "modelledRuleSet def"
    "add_rule_set L d bodies name st = Inr st'"
  shows "map_of bodies (Key ''rule'' name) \<noteq> None"
proof
  assume none: "map_of bodies (Key ''rule'' name) = None"
  have "\<not> type_is def ''inline''" using assms(2) by (simp add: type_is_def)
  then have "rule_set_payload L bodies name def = Inl (RuleProviderNotDownloaded name)"
    using assms(2-4) none by (auto simp: rule_set_payload_def Let_def modelledRuleSet_def)
  then show False using assms(1,4,5) by (auto simp: add_rule_set_def Let_def modelledRuleSet_def)
qed

lemma Build_needs_downloads:
  assumes run: "Build L d bodies = Inr (p, dropped)" and dl: "dl \<in> set (Downloads L d)"
    and kind: "dl_kind dl = ''proxy'' \<or> \<not> d_wrapped d"
  shows "map_of bodies (Key (dl_kind dl) (dl_name dl)) \<noteq> None"
proof -
  obtain b where pr: "providers L d bodies (top_builder L d) = Inr b"
    and rest: "if d_wrapped d then b_proxies b \<noteq> [] \<and> wrapperGroup \<notin> set (b_names b) \<and> p = wrapped_profile b
       else build_config L d bodies b = Inr (p, dropped)"
    using run by (rule Build_run)
  from dl consider (px) "dl \<in> set (downloads_of L ''proxy'' (d_proxy_providers d))"
    | (rl) "dl \<in> set (downloads_of L ''rule'' (d_rule_providers d))" by (auto simp: Downloads_def)
  then show ?thesis
  proof cases
    case px
    then obtain def where d: "map_of (d_proxy_providers d) (dl_name dl) = Some def"
      "dl_name dl \<in> set (sorted_keys (d_proxy_providers d))" "dl_kind dl = ''proxy''" "type_is def ''http''"
      "CheckURL (url_parse L) (str_or_empty def ''url'') = None" by (rule Downloads_in) auto
    obtain x y where "add_provider L d bodies (dl_name dl) x = Inr y"
      using fold_res_all[OF pr[unfolded providers_def] d(2)] by blast
    then show ?thesis unfolding d(3) by (rule add_provider_body[OF d(1,4,5)])
  next
    case rl
    then obtain def where d: "map_of (d_rule_providers d) (dl_name dl) = Some def"
      "dl_name dl \<in> set (sorted_keys (d_rule_providers d))" "dl_kind dl = ''rule''" "type_is def ''http''"
      "CheckURL (url_parse L) (str_or_empty def ''url'') = None" "modelledRuleSet def" by (rule Downloads_in) auto
    with kind rest obtain b1 b2 sets where rsets: "ruleSets L d bodies b1 = Inr (b2, sets)"
      unfolding build_config_def by (auto simp: result_simps)
    obtain x y where "add_rule_set L d bodies (dl_name dl) x = Inr y"
      using fold_res_all[OF rsets[unfolded ruleSets_def] d(2)] by blast
    then show ?thesis unfolding d(3) by (rule add_rule_set_body[OF d(1,4-6)])
  qed
qed

subsection \<open>Sub-rules\<close>

text \<open>Every list of sub-rules the profile keeps has rules of known types.\<close>

lemma parse_sub_rule_ok:
  "parse_sub_rule L line = Inr r \<Longrightarrow> r_type r \<in> set ruleTypes \<and> r_source r = SourceSubscription"
  by (cases "ParseRule (uni_upper L) line") (auto simp: parse_sub_rule_def split: if_splits)

lemma add_sub_rules_ok:
  assumes "add_sub_rules L nl acc = Inr acc'"
    "\<forall>(n, rs) \<in> set acc. rs \<noteq> [] \<and> (\<forall>r \<in> set rs. r_type r \<in> set ruleTypes \<and> r_source r = SourceSubscription)"
  shows "\<forall>(n, rs) \<in> set acc'. rs \<noteq> [] \<and> (\<forall>r \<in> set rs. r_type r \<in> set ruleTypes \<and> r_source r = SourceSubscription)"
proof -
  obtain rs where rs: "map_res (parse_sub_rule L) (case snd nl of Some ls \<Rightarrow> ls | None \<Rightarrow> []) = Inr rs"
    and acc': "acc' = (if rs = [] then acc else acc @ [(fst nl, rs)])"
    using assms(1) by (auto simp: add_sub_rules_def Let_def result_simps split: if_splits)
  have "r_type r \<in> set ruleTypes \<and> r_source r = SourceSubscription" if "r \<in> set rs" for r
    using map_res_in_range[OF rs that] parse_sub_rule_ok by blast
  then show ?thesis using assms(2) acc' by auto
qed

lemma Build_sub_rules_ok:
  assumes run: "Build L d bodies = Inr (p, dropped)"
  shows "\<forall>(n, rs) \<in> set (p_sub_rules p). rs \<noteq> [] \<and> (\<forall>r \<in> set rs. r_type r \<in> set ruleTypes \<and> r_source r = SourceSubscription)"
proof -
  obtain b where rest: "if d_wrapped d then b_proxies b \<noteq> [] \<and> wrapperGroup \<notin> set (b_names b) \<and> p = wrapped_profile b
      else build_config L d bodies b = Inr (p, dropped)"
    using run by (rule Build_run)
  show ?thesis
  proof (cases "d_wrapped d")
    case False
    then have "fold_res (add_sub_rules L) (d_sub_rules d) [] = Inr (p_sub_rules p)"
      using rest by (auto elim!: build_config_run)
    then show ?thesis by (rule fold_res_invariant) (simp, rule add_sub_rules_ok)
  qed (use rest in \<open>simp add: wrapped_profile_def empty_profile_def\<close>)
qed

end
