(* ===== verification/Profile_Claims.thy ===== *)
theory Profile_Claims
  imports Build_Props Proxy_Props Headers
begin

text \<open>
  What a subscription becomes: the properties of \<^verbatim>\<open>internal/profile\<close> and \<^verbatim>\<open>internal/fetch\<close>, each for
  every library behaviour (YAML, regular expressions, key pairs, URLs) the parameters stand for. A small
  subscription, \<open>demo_doc\<close>, with one provider witnesses the hypotheses.
\<close>

subsection \<open>An example subscription\<close>

definition demo_lib :: build_lib where
  "demo_lib = \<lparr>pem_block = (\<lambda>_. False), key_pair = (\<lambda>_ _. False), float_text = (\<lambda>_. []), yaml_top = (\<lambda>_. None),
     yaml_document = (\<lambda>_. None),
     yaml_proxies = (\<lambda>_. Some [[(''name'', GStr ''b''), (''type'', GStr ''socks5''), (''server'', GStr ''192.0.2.2''), (''port'', GInt 1080)]]),
     yaml_payload = (\<lambda>_. None), share_links = (\<lambda>_. None), re_compile = (\<lambda>_. True), re_match = (\<lambda>_ _ _. Some True),
     url_parse = (\<lambda>_. Some (''https'', ''example.org'')), uni_upper = id, uni_lower = id\<rparr>"

definition demo_doc :: document where
  "demo_doc = \<lparr>d_proxies = [[(''name'', GStr ''a''), (''type'', GStr ''socks5''), (''server'', GStr ''192.0.2.1''), (''port'', GInt 1080)]],
     d_groups = [[(''name'', GStr ''G''), (''type'', GStr ''select''), (''proxies'', GList [GStr ''a'']), (''use'', GList [GStr ''pool''])]],
     d_sub_rules = [(''inner'', Some [''DOMAIN,example.org,a''])],
     d_rules = [''DOMAIN-SUFFIX,example.org,G'', ''SUB-RULE,(NETWORK,udp),inner'', ''DOMAIN,lost.example,gone'', ''MATCH,DIRECT''],
     d_proxy_providers = [(''pool'', [(''type'', GStr ''http''), (''url'', GStr ''https://example.org/pool'')])],
     d_rule_providers = [], d_wrapped = False\<rparr>"

definition demo_bodies :: "string strmap" where
  "demo_bodies = [(''proxy:pool'', ''proxies'')]"

text \<open>What \<^const>\<open>Build\<close> makes of it.\<close>

definition demo_profile :: core_profile where
  "demo_profile = \<lparr>p_proxies =
       [\<lparr>px_name = ''a'', px_type = ''socks5'', px_options = [(''server'', GStr ''192.0.2.1''), (''port'', GInt 1080)]\<rparr>,
        \<lparr>px_name = ''b'', px_type = ''socks5'', px_options = [(''server'', GStr ''192.0.2.2''), (''port'', GInt 1080)]\<rparr>],
     p_groups = [\<lparr>g_name = ''G'', g_type = ''select'', g_members = [''a'', ''b''], g_options = []\<rparr>],
     p_sub_rules = [(''inner'', [\<lparr>r_type = ''DOMAIN'', r_value = ''example.org'', r_target = ''a'', r_params = [], r_source = SourceSubscription\<rparr>])],
     p_rules =
       [\<lparr>r_type = ''DOMAIN-SUFFIX'', r_value = ''example.org'', r_target = ''G'', r_params = [], r_source = SourceSubscription\<rparr>,
        \<lparr>r_type = ''SUB-RULE'', r_value = ''(NETWORK,udp)'', r_target = ''inner'', r_params = [], r_source = SourceSubscription\<rparr>,
        \<lparr>r_type = ''MATCH'', r_value = [], r_target = ''DIRECT'', r_params = [], r_source = SourceSubscription\<rparr>],
     p_rule_sets = []\<rparr>"

lemma demo_built: "\<exists>dropped. Build demo_lib demo_doc demo_bodies = Inr (demo_profile, dropped)"
proof -
  have "case Build demo_lib demo_doc demo_bodies of Inl _ \<Rightarrow> False
    | Inr (p, _) \<Rightarrow> p_proxies p = p_proxies demo_profile \<and> p_groups p = p_groups demo_profile
        \<and> p_sub_rules p = p_sub_rules demo_profile \<and> p_rules p = p_rules demo_profile \<and> p_rule_sets p = p_rule_sets demo_profile"
    by code_simp
  then show ?thesis
    by (cases "Build demo_lib demo_doc demo_bodies") (auto intro!: core_profile.equality)
qed

definition demo_proxy :: core_proxy where
  "demo_proxy = hd (p_proxies demo_profile)"

lemma demo_proxy_in: "demo_proxy \<in> set (p_proxies demo_profile)"
proof -
  have "p_proxies demo_profile \<noteq> []" by code_simp
  then show ?thesis by (simp add: demo_proxy_def)
qed

subsection \<open>Profiles\<close>





text \<open>C14: no proxy of a subscription reaches into the host. The options of every proxy a profile holds have the keys and
  the ranges of its type's struct; the keys that would chain it through another proxy, bind it to an interface
  or mark its packets are none of them, whatever the subscription says.\<close>

theorem Build_options_modelled:
  assumes "Build L d bodies = Inr (p, dropped)" "px \<in> set (p_proxies p)"
  shows "\<exists>fs. map_of proxyTypes (px_type px) = Some fs \<and> fits (KStruct fs) (GMap (px_options px))
     \<and> fst ` set (px_options px) \<inter> set never_modelled = {}"
proof -
  have "reads L px" using Build_profile_ok[OF assms(1)] assms(2) by (simp add: profile_ok_def)
  then obtain m px0 where px0: "Proxy (plib L) m = Inr px0" "px_type px = px_type px0" "px_options px = px_options px0"
    unfolding reads_def by (metis core_proxy.select_convs core_proxy.surjective core_proxy.update_convs(1))
  obtain fs where fs: "map_of proxyTypes (px_type px0) = Some fs" "fits (KStruct fs) (GMap (px_options px0))"
    using px0(1) by (rule Proxy_fits)
  then have "fst ` set (px_options px0) \<inter> set never_modelled = {}"
    using fits_keys[OF fs(2)] proxyTypes_clean[OF fs(1)] by blast
  then show ?thesis using px0(2,3) fs by metis
qed

theorem Build_options_modelled_witness:
  "\<exists>fs. map_of proxyTypes (px_type demo_proxy) = Some fs \<and> fits (KStruct fs) (GMap (px_options demo_proxy))
     \<and> fst ` set (px_options demo_proxy) \<inter> set never_modelled = {}"
  using demo_built demo_proxy_in Build_options_modelled by blast

text \<open>Every list of sub-rules a profile holds has a rule, and its rules have types the core supports.\<close>

theorem Build_sub_rules:
  assumes "Build L d bodies = Inr (p, dropped)" "(n, rs) \<in> set (p_sub_rules p)"
  shows "rs \<noteq> [] \<and> list_all (\<lambda>r. r_type r \<in> set ruleTypes \<and> r_source r = SourceSubscription) rs"
  using Build_sub_rules_ok[OF assms(1)] assms(2) by (auto simp: list_all_iff)

theorem Build_sub_rules_witness:
  "snd (hd (p_sub_rules demo_profile)) \<noteq> []
   \<and> list_all (\<lambda>r. r_type r \<in> set ruleTypes \<and> r_source r = SourceSubscription) (snd (hd (p_sub_rules demo_profile)))"
proof -
  have "p_sub_rules demo_profile \<noteq> []" by code_simp
  then have "(fst (hd (p_sub_rules demo_profile)), snd (hd (p_sub_rules demo_profile))) \<in> set (p_sub_rules demo_profile)" by simp
  then show ?thesis using demo_built Build_sub_rules by blast
qed

definition empty_sub_doc :: document where
  "empty_sub_doc = demo_doc\<lparr>d_sub_rules := [(''inner'', Some [])]\<rparr>"

text \<open>An empty list of sub-rules is left out of the profile, yet a rule that enters it is kept: the profile then has
  a \<^verbatim>\<open>SUB-RULE\<close> whose list does not exist.\<close>

theorem Build_empty_sub_rules:
  "case Build demo_lib empty_sub_doc demo_bodies of
     Inr (p, _) \<Rightarrow> map_of (p_sub_rules p) ''inner'' = None
       \<and> list_ex (\<lambda>r. r_type r = ''SUB-RULE'' \<and> r_target r = ''inner'') (p_rules p)
   | Inl _ \<Rightarrow> False"
  by code_simp

subsection \<open>Proxies\<close>

text \<open>A proxy that connects to a server has one: its \<^verbatim>\<open>server\<close> is not empty, its \<^verbatim>\<open>port\<close> is between 1 and
  65535, and only the types that take a range of ports go without.\<close>

theorem Proxy_endpoint:
  assumes "Proxy L m = Inr p" "px_type p \<noteq> ''wireguard''" "px_type p \<noteq> ''direct''"
  shows "(\<exists>s. s \<noteq> [] \<and> map_of (px_options p) ''server'' = Some (GStr s))
    \<and> (case map_of (px_options p) ''port'' of
         None \<Rightarrow> port_optional (px_type p)
       | Some x \<Rightarrow> \<exists>n. x = GInt n \<and> 1 \<le> n \<and> n \<le> 65535)"
  using Proxy_server[OF assms] by (simp split: option.split)

definition socks_map :: "goval strmap" where
  "socks_map = [(''name'', GStr ''a''), (''type'', GStr ''socks5''), (''server'', GStr ''192.0.2.1''), (''port'', GInt 1080)]"

definition socks_proxy :: core_proxy where
  "socks_proxy = projr (Proxy (plib demo_lib) socks_map)"

lemma socks_read: "Proxy (plib demo_lib) socks_map = Inr socks_proxy"
proof -
  have "\<not> isl (Proxy (plib demo_lib) socks_map)" by code_simp
  then show ?thesis by (cases "Proxy (plib demo_lib) socks_map") (auto simp: socks_proxy_def)
qed

lemma socks_type: "px_type socks_proxy = ''socks5''"
  by code_simp

theorem Proxy_endpoint_witness:
  "(\<exists>s. s \<noteq> [] \<and> map_of (px_options socks_proxy) ''server'' = Some (GStr s))
    \<and> (case map_of (px_options socks_proxy) ''port'' of
         None \<Rightarrow> port_optional (px_type socks_proxy)
       | Some x \<Rightarrow> \<exists>n. x = GInt n \<and> 1 \<le> n \<and> n \<le> 65535)"
  by (rule Proxy_endpoint[OF socks_read]) (simp_all add: socks_type)

text \<open>Wherever the options of a proxy hold a certificate or a private key, the two load as a pair: the core is never given
  a path on the host or half of a pair. The top level of \<^verbatim>\<open>ssh\<close> and \<^verbatim>\<open>wireguard\<close>, where the key means something
  else, is apart.\<close>

theorem Proxy_keys_load:
  "Proxy L m = Inr p \<Longrightarrow> pairs_load L (px_type p \<noteq> ''ssh'' \<and> px_type p \<noteq> ''wireguard'') (GMap (px_options p))"
  by (rule Proxy_pairs_load)

theorem Proxy_keys_load_witness: "pairs_load (plib demo_lib) True (GMap (px_options socks_proxy))"
  using Proxy_keys_load[OF socks_read] by (simp add: socks_type)

text \<open>What \<^const>\<open>writeStruct\<close> writes for a proxy type, \<^const>\<open>readStruct\<close> reads back as it was.\<close>

theorem proxy_roundtrip:
  assumes "map_of proxyTypes ty = Some fs" "readStruct L fs path m = Inr v"
  shows "readStruct L fs path' (writeStruct v) = Inr v"
proof (rule readStruct_writeStruct(2)[OF readStruct_conforms(2)[OF assms(2)] proxyTypes_good[OF assms(1)] refl])
  fix k key
  assume k: "k \<in> fst ` set v" "key \<in> fst ` set fs" "k \<noteq> key"
  have good: "good_kind (KStruct fs)" by (rule proxyTypes_good[OF assms(1)])
  have kf: "k \<in> fst ` set fs" using k(1) conforms_fields_keys[OF readStruct_conforms(2)[OF assms(2)]] by auto
  then have "fold_key (dashed k) = map lower_char k" using good by (auto simp: list_all_iff)
  moreover have "map lower_char k \<noteq> map lower_char key" using good kf k(2,3) by (auto simp: distinct_map inj_on_def)
  ultimately show "fold_key (dashed k) \<noteq> map lower_char key" by simp
qed

definition socks_val :: fields_val where
  "socks_val = projr (readStruct (plib demo_lib) (the (map_of proxyTypes ''socks5'')) [] socks_map)"

theorem proxy_roundtrip_witness:
  "readStruct (plib demo_lib) (the (map_of proxyTypes ''socks5'')) [] (writeStruct socks_val) = Inr socks_val"
proof -
  have "map_of proxyTypes ''socks5'' \<noteq> None" by code_simp
  then have ty: "map_of proxyTypes ''socks5'' = Some (the (map_of proxyTypes ''socks5''))" by (cases "map_of proxyTypes ''socks5''") simp_all
  have "\<not> isl (readStruct (plib demo_lib) (the (map_of proxyTypes ''socks5'')) [] socks_map)" by code_simp
  then have "readStruct (plib demo_lib) (the (map_of proxyTypes ''socks5'')) [] socks_map = Inr socks_val"
    by (cases "readStruct (plib demo_lib) (the (map_of proxyTypes ''socks5'')) [] socks_map") (simp_all add: socks_val_def)
  from proxy_roundtrip[OF ty this] show ?thesis .
qed

text \<open>The packet templates of AmneziaWG that are accepted are exactly those of its grammar: a sequence of tags in angle
  brackets, each of a known kind, at most 64 of them, at most 1280 bytes and 5000 milliseconds in all, the
  counter and the time at most once each.\<close>

theorem amnezia_grammar: "amneziaPacket s = Inr w \<longleftrightarrow> packet_spec s w"
  by (rule amneziaPacket_spec)

subsection \<open>Rule lines\<close>

text \<open>C11: a rule written for the core is read back as the same rule, with the spaces around the parts of a logical value
  dropped. So no value, target or parameter of a rule can turn its line into another rule.\<close>

theorem rule_line_roundtrip:
  assumes "ruleLine uni re r = Inr line" "r_type r \<in> set ruleTypes"
  shows "ParseRule uni line = Inr (r\<lparr>r_source := [], r_value :=
    (if r_type r \<in> set commaValues then join '','' (map trim_space (split_on (CHR '','') (r_value r)))
     else r_value r)\<rparr>)"
  using assms by (rule ParseRule_ruleLine)

theorem rule_line_roundtrip_witness:
  "ParseRule id ''IP-CIDR,192.0.2.0/24,G,no-resolve''
     = Inr \<lparr>r_type = ''IP-CIDR'', r_value = ''192.0.2.0/24'', r_target = ''G'', r_params = [''no-resolve''], r_source = []\<rparr>"
proof -
  let ?r = "\<lparr>r_type = ''IP-CIDR'', r_value = ''192.0.2.0/24'', r_target = ''G'', r_params = [''no-resolve''], r_source = SourceUser\<rparr>"
  have "ruleLine id (\<lambda>_. True) ?r = Inr ''IP-CIDR,192.0.2.0/24,G,no-resolve''" by code_simp
  moreover have "r_type ?r \<in> set ruleTypes" "r_type ?r \<notin> set commaValues" by code_simp+
  ultimately show ?thesis using rule_line_roundtrip[of id "\<lambda>_. True" ?r] by simp
qed

subsection \<open>Headers and URLs\<close>

text \<open>The name a subscription gets from its server is fit to show and to type, whatever the headers hold: not
  empty, without control characters or path separators, trimmed, without a leading dot, and of at most 64
  runes and 256 bytes.\<close>

theorem Name_fit: "safe_name (Name L h rawURL) \<and> Name L h rawURL \<noteq> [] \<and> length (Name L h rawURL) \<le> 256"
  using Name_safe[of L h rawURL] Name_length[of L h rawURL] by (simp add: MaxTitle_def)

text \<open>The refresh interval a server asks for is kept between an hour and a year, so the duration never overflows.\<close>

theorem Interval_kept: "Hour \<le> Interval h \<and> Interval h \<le> maxInterval \<and> maxInterval < 2 ^ 63"
  using Interval_bounds[of h] by (simp add: maxInterval_def Hour_def)

text \<open>The wait a server asks for in \<^verbatim>\<open>Retry-After\<close> counts for a week at most, whatever the header holds, and is never
  negative.\<close>

theorem retryAfter_kept: "0 \<le> retryAfter parse_time v now \<and> retryAfter parse_time v now \<le> 7 * 24 * 3600"
  using retryAfter_bounds[of parse_time v now] by simp

text \<open>A body is read whole or not at all: it is accepted exactly when neither its declared length nor the bytes that
  came are over the limit, and then it is all of them.\<close>

theorem body_limit:
  "read_limited limit declared data = Some b \<longleftrightarrow>
     b = data \<and> length data \<le> limit \<and> (case declared of Some n \<Rightarrow> n \<le> limit | None \<Rightarrow> True)"
  unfolding read_limited_spec by (auto split: option.split)

text \<open>Only an HTTPS URL with a host, of at most 8 KiB and without spaces or control characters, is ever
  downloaded from a subscription.\<close>

theorem Downloads_secure:
  assumes "dl \<in> set (Downloads L d)"
  shows "dl_url dl \<noteq> [] \<and> length (dl_url dl) \<le> 8192 \<and> \<not> has_control (dl_url dl) \<and> \<not> has_space (dl_url dl)
     \<and> (\<exists>host. url_parse L (dl_url dl) = Some (''https'', host) \<and> host \<noteq> [])"
proof -
  have "CheckURL (url_parse L) (dl_url dl) = None"
    using assms by (auto simp: Downloads_def downloads_of_def Let_def map_filter_def split: if_splits)
  then show ?thesis by (rule CheckURL_ok)
qed

theorem Downloads_secure_witness:
  "\<exists>dl. dl \<in> set (Downloads demo_lib demo_doc) \<and> (\<exists>host. url_parse demo_lib (dl_url dl) = Some (''https'', host) \<and> host \<noteq> [])"
proof -
  have "Downloads demo_lib demo_doc \<noteq> []" by code_simp
  then have "hd (Downloads demo_lib demo_doc) \<in> set (Downloads demo_lib demo_doc)" by simp
  then show ?thesis using Downloads_secure by blast
qed

end
