(* ===== verification/Migration_Props.thy ===== *)
theory Migration_Props
  imports Migration Subs_Laws Profile_Claims
begin

text \<open>
  What an import promises: the settings and subscriptions it stages are ones the daemon accepts and can load, within one budget
  of bytes, with the limits on requests kept; and a cutover that fails, or is rolled back, leaves the directories as they
  were.
\<close>

subsection \<open>Names and settings\<close>

lemma safeName_valid: "safeName n \<Longrightarrow> validName what n = None"
  by (simp add: safeName_def validName_def Rule_Check.maxName_def)

lemma split_no_comma: "x \<in> set (map trim_space (split_on c s)) \<Longrightarrow> c \<notin> set x"
  using split_on_no_sep trim_space_set by fastforce

lemma old_types: "ty \<in> set old_rule_types \<Longrightarrow>
   ty \<noteq> ''MATCH'' \<and> ty \<notin> set commaValues \<and> ty \<in> set userRuleTypes"
  by (auto simp: old_rule_types_def commaValues_def userRuleTypes_def)

lemma parsed_plain_commas:
  assumes "ParseRule uni line = Inr r" "r_type r \<in> set old_rule_types"
  shows "CHR '','' \<notin> set (r_value r) \<and> CHR '','' \<notin> set (r_target r)"
proof -
  let ?fs = "map trim_space (split_on (CHR '','') line)"
  have "r_type r = to_upper uni (hd ?fs)" using assms(1) by (auto simp: ParseRule_def Let_def split: if_splits)
  then have t: "to_upper uni (hd ?fs) \<noteq> ''MATCH''" "to_upper uni (hd ?fs) \<notin> set commaValues" using old_types[OF assms(2)] by auto
  have "length ?fs \<ge> 3 \<and> r_value r = ?fs ! 1 \<and> r_target r = ?fs ! 2"
    using assms(1) unfolding ParseRule_def Let_def by (simp add: t del: map_map length_map nth_map split: if_splits) auto
  then have "length ?fs \<ge> 3" "r_value r = ?fs ! 1" "r_target r = ?fs ! 2" by blast+
  moreover from this have "?fs ! 1 \<in> set ?fs" "?fs ! 2 \<in> set ?fs"
    using nth_mem[of 1 ?fs] nth_mem[of 2 ?fs] by simp_all
  ultimately show ?thesis using split_no_comma by metis
qed

lemma old_rule_accepted:
  assumes "old_rule uni line = Inr e"
  shows "checkRule lower e = None" "re_category e = None"
proof -
  obtain r where r: "ParseRule uni line = Inr r" "r_type r \<in> set old_rule_types"
    and v: "r_target r \<noteq> []" "r_value r \<noteq> []" "trim_space (r_value r) = r_value r" "r_params r = []"
      "length (r_value r) \<le> 256" "length (r_target r) \<le> 256" "\<not> has_control (r_value r @ r_target r)"
    and cidr: "r_type r = ''IP-CIDR'' \<Longrightarrow> ParsePrefix (r_value r) \<noteq> None"
    and dom: "r_type r = ''DOMAIN-SUFFIX'' \<or> r_type r = ''DOMAIN-KEYWORD'' \<Longrightarrow> \<not> contains_any (r_value r) [CHR '' '', CHR ''/'', CHR 0x5C]"
    and e: "e = RuleEntry (r_type r) (r_value r) (r_target r) [] False None"
    using assms by (auto simp: old_rule_def split: sum.splits if_splits)
  have ctl: "\<not> has_control (r_value r)" "\<not> has_control (r_target r)"
    using v(7) has_control_infix[of "r_value r" "[]" "r_target r"] has_control_infix[of "r_target r" "r_value r" "[]"] by auto
  have commas: "CHR '','' \<notin> set (r_value r)" "CHR '','' \<notin> set (r_target r)" using parsed_plain_commas[OF r] by auto
  have ty: "r_type r = ''DOMAIN-SUFFIX'' \<or> r_type r = ''DOMAIN-KEYWORD'' \<or> r_type r = ''IP-CIDR'' \<or> r_type r = ''PROCESS-NAME''"
    using r(2) by (auto simp: old_rule_types_def)
  have val: "r_value r \<noteq> []" "\<not> 4096 < length (r_value r)" "trim_space (r_value r) = r_value r" using v by auto
  from ty have "checkRuleValue lower (r_type r) (r_value r) = None"
  proof (elim disjE)
    assume t: "r_type r = ''IP-CIDR''"
    with cidr obtain f where "ParsePrefix (r_value r) = Some f" by blast
    with t val ctl commas show ?thesis by (simp add: checkRuleValue_def)
  qed (use val ctl commas dom in \<open>simp_all add: checkRuleValue_def\<close>)
  moreover have "str_fields [] = []" by (simp add: str_fields_def fields_from.simps)
  ultimately show "checkRule lower e = None" "re_category e = None"
    using old_types[OF r(2)] v ctl commas by (auto simp: checkRule_def e validName_def Rule_Check.maxName_def)
qed

lemma checkRules_plain:
  assumes "\<forall>e \<in> set es. checkRule lower e = None \<and> re_category e = None" "length es \<le> maxUserRules"
  shows "checkRules lower es = None"
proof -
  have "fold_res (checkEntry lower) (enumerate k es) st = Inr (st\<lparr>ck_count := ck_count st + length es\<rparr>)" for k st
    using assms(1) by (induction es arbitrary: k st) (auto simp: checkEntry_def)
  then show ?thesis using assms(2) by (simp add: checkRules_def)
qed

lemma typed_settings_accepted:
  assumes "typed_settings uni old = Inr s"
  shows "checkSettings (st_settings s) = None" "checkRules lower (st_rules s) = None" "PruneCategories (st_rules s) = st_rules s"
proof -
  define mode where "mode = (if oo_mode old \<noteq> [] then oo_mode old else s_mode (st_settings DefaultSettings))"
  have m: "mode = ''rule'' \<or> mode = ''global'' \<or> mode = ''direct''" "length (oo_group old) \<le> 256" "\<not> has_control (oo_group old)"
    using assms by (auto simp: typed_settings_def Let_def mode_def[symmetric] split: if_splits)
  with assms have rs: "map_res (old_rule uni) (oo_prepend old) = Inr (st_rules s)" "length (st_rules s) \<le> 1000"
    and s: "st_settings s = (st_settings DefaultSettings)\<lparr>s_mode := mode,
        s_tun := oo_tun old, s_tun_redirect := oo_redirect old, s_primary_group := oo_group old,
        s_tailscale := oo_tailscale old, s_tailnet_proxy := oo_tailnet old\<rparr>"
    by (auto simp: typed_settings_def Let_def mode_def[symmetric] result_simps split: if_splits)
  show "checkSettings (st_settings s) = None"
    using m by (auto simp: checkSettings_def s DefaultSettings_def default_settings_def ModeRule_def ModeGlobal_def
        ModeDirect_def validName_def Rule_Check.maxName_def)
  have e: "\<forall>e \<in> set (st_rules s). checkRule lower e = None \<and> re_category e = None"
    using map_res_in_range[OF rs(1)] old_rule_accepted by metis
  then show "checkRules lower (st_rules s) = None" using rs(2) by (intro checkRules_plain) (auto simp: maxUserRules_def)
  show "PruneCategories (st_rules s) = st_rules s" using e by (auto simp: PruneCategories_def intro!: filter_True)
qed

lemma readSettings_accepted:
  assumes "readSettings M root = Inr s"
  shows "checkSettings (st_settings s) = None \<and> checkRules lower (st_rules s) = None \<and> PruneCategories (st_rules s) = st_rules s"
  using assms typed_settings_accepted by (auto simp: readSettings_def result_simps split: option.splits)

subsection \<open>The budget\<close>

definition bodies_size :: "string strmap \<Rightarrow> nat" where
  "bodies_size m = sum_list (map (\<lambda>(_, b). length b) m)"

definition snapshot_size :: "snapshot \<Rightarrow> nat" where
  "snapshot_size s = length (sn_body s) + bodies_size (sn_providers s)"

lemma bodies_size_delete: "bodies_size (delete_key k m) \<le> bodies_size m"
  by (induction m) (auto simp: delete_key_def bodies_size_def)

lemma old_read_bound: "old_read root name l = Inr b \<Longrightarrow> 0 \<le> l \<and> int (length b) \<le> l"
  by (auto simp: old_read_def Let_def split: old_file.splits if_splits)

lemma cache_body_bound:
  assumes "cache_body root body provs left = Inr (b, l)" "0 \<le> left"
  shows "0 \<le> l \<and> int (length b) + l \<le> int (length body) + left"
proof -
  let ?P = "\<lambda>(b, l). 0 \<le> l \<and> int (length b) + l \<le> int (length body) + left"
  have "?P (b, l)"
  proof (rule fold_res_invariant[OF assms(1)[unfolded cache_body_def], of ?P])
    show "?P (body, left)" using assms(2) by simp
  next
    fix x s s' assume P: "?P s"
      and step: "(case x of (_, p) \<Rightarrow> \<lambda>(b, l).
        if op_type p \<noteq> ''file'' then Inr (b, l)
        else if length provs \<noteq> 1 \<or> \<not> has_prefix (op_path p) ''./providers/'' \<or> \<not> IsLocal (op_path p) then Inl NotACache
        else bind_res (old_read root (op_path p) l) (\<lambda>raw. Inr (raw, l - int (length raw)))) s = Inr s'"
    then show "?P s'"
      by (auto simp: result_simps split: prod.splits if_splits dest!: old_read_bound)
  qed
  then show ?thesis by simp
qed

text \<open>What the import relies on of a download: \<^verbatim>\<open>Fetcher.Get\<close> returns no body over the limit of the request.\<close>

definition get_bounded :: "'w import_env \<Rightarrow> bool" where
  "get_bounded M \<longleftrightarrow> (\<forall>u n w b w'. im_get M u n w = (Some b, w') \<longrightarrow> int (length b) \<le> n)"

lemma provider_bodies_bound:
  assumes "provider_bodies M root provs left its bodies w = (Inr (bs, l), w')" "0 \<le> left"
    and get: "get_bounded M"
  shows "0 \<le> l \<and> int (bodies_size bs) + l \<le> int (bodies_size bodies) + left"
  using assms(1,2)
proof (induction its arbitrary: left bodies w)
  case Nil
  then show ?case by simp
next
  case (Cons it its)
  have go: ?case if "provider_bodies M root provs (left - int (length dat)) its
      ((Key (dl_kind it) (dl_name it), dat) # delete_key (Key (dl_kind it) (dl_name it)) bodies) w1 = (Inr (bs, l), w')"
    "int (length dat) \<le> left" for dat w1
  proof -
    let ?k = "Key (dl_kind it) (dl_name it)"
    have "bodies_size ((?k, dat) # delete_key ?k bodies) \<le> length dat + bodies_size bodies"
      using bodies_size_delete[of ?k bodies] by (simp add: bodies_size_def)
    with Cons.IH[OF that(1)] that(2) show ?thesis by simp
  qed
  have cached: "int (length dat) \<le> left" if "provider_cache M root provs left it = Inr dat" for dat
    using that by (auto simp: provider_cache_def Let_def split: if_splits dest: old_read_bound)
  show ?case
  proof (cases "provider_cache M root provs left it")
    case (Inl e)
    then obtain dat w1 where "im_get M (dl_url it) left w = (Some dat, w1)"
      "provider_bodies M root provs (left - int (length dat)) its
        ((Key (dl_kind it) (dl_name it), dat) # delete_key (Key (dl_kind it) (dl_name it)) bodies) w1 = (Inr (bs, l), w')"
      using Cons.prems(1) by (auto simp: Let_def split: if_splits prod.splits option.splits)
    then show ?thesis using go get unfolding get_bounded_def by blast
  next
    case (Inr dat)
    with Cons.prems(1) cached[OF Inr] show ?thesis by (intro go[of dat w]) (auto simp: Let_def)
  qed
qed

lemma import_snapshot_ok:
  assumes "import_snapshot M root cached left w = (Inr (snap, p, l), w')" "0 \<le> left"
    and get: "get_bounded M"
  shows "0 \<le> l" "int (snapshot_size snap) + l \<le> int (length cached) + left"
proof -
  obtain provs left1 doc bs where c: "cache_body root cached (fst provs) left = Inr (sn_body snap, left1)"
    and b: "provider_bodies M root provs left1 (Downloads (im_lib M) doc) [] w = (Inr (bs, l), w')" "sn_providers snap = bs"
    using assms(1) by (auto simp: import_snapshot_def Let_def split: option.splits sum.splits if_splits prod.splits)
  have "0 \<le> left1" "int (length (sn_body snap)) + left1 \<le> int (length cached) + left" using cache_body_bound[OF c assms(2)] by auto
  moreover have "0 \<le> l" "int (bodies_size bs) + l \<le> left1"
    using provider_bodies_bound[OF b(1) _ get] calculation(1) by (auto simp: bodies_size_def)
  ultimately show "0 \<le> l" "int (snapshot_size snap) + l \<le> int (length cached) + left" by (auto simp: snapshot_size_def b(2))
qed

lemma import_snapshot_builds:
  "import_snapshot M root cached left w = (Inr (snap, p, l), w') \<Longrightarrow>
     \<exists>doc drops. Read (im_lib M) (sn_body snap) = Inr doc \<and> Build (im_lib M) doc (sn_providers snap) = Inr (p, drops)"
  by (fastforce simp: import_snapshot_def Let_def split: option.splits sum.splits if_splits prod.splits)

subsection \<open>The staged store\<close>

definition store_key :: "string \<Rightarrow> bool" where
  "store_key x \<longleftrightarrow> x = settingsFile \<or> x = subscriptionsFile \<or> (\<exists>i. snapshotFile i = Some x)"

lemma dir_file_parts: "CHR ''/'' \<notin> set b \<Longrightarrow> dir_part (a @ CHR ''/'' # b) = a @ ''/'' \<and> file_part (a @ CHR ''/'' # b) = b"
proof -
  assume b: "CHR ''/'' \<notin> set b"
  then have "takeWhile (\<lambda>c. c \<noteq> CHR ''/'') (rev b @ t) = rev b @ takeWhile (\<lambda>c. c \<noteq> CHR ''/'') t"
    "dropWhile (\<lambda>c. c \<noteq> CHR ''/'') (rev b @ t) = dropWhile (\<lambda>c. c \<noteq> CHR ''/'') t" for t
    by (auto intro!: takeWhile_append2 dropWhile_append2)
  then show ?thesis by (simp add: dir_part_def file_part_def)
qed

lemma validID_chars: "validID i \<Longrightarrow> CHR ''/'' \<notin> set i \<and> i \<noteq> [] \<and> hd i \<noteq> CHR ''.''"
  by (cases i) (auto simp: validID_def is_digit_def less_eq_char_def list_all_iff)

lemma snapshotFile_temp:
  assumes "snapshotFile i = Some x"
  shows "x = ''subscriptions/'' @ i @ ''.json''" "temp_name x suffix = ''subscriptions/.'' @ i @ ''.json-'' @ suffix" "validID i"
proof -
  show x: "x = ''subscriptions/'' @ i @ ''.json''" and v: "validID i"
    using assms by (auto simp: snapshotFile_def snapshotDir_def split: if_splits)
  have "CHR ''/'' \<notin> set (i @ ''.json'')" using validID_chars[OF v] by simp
  from dir_file_parts[OF this, of "''subscriptions''"] show "temp_name x suffix = ''subscriptions/.'' @ i @ ''.json-'' @ suffix"
    by (simp add: temp_name_def x)
qed

lemma temp_fresh: "store_key x \<Longrightarrow> store_key n \<Longrightarrow> temp_name n suffix \<noteq> x"
proof -
  assume x: "store_key x" and n: "store_key n"
  have s: "temp_name settingsFile suffix = ''.settings.json-'' @ suffix"
    "temp_name subscriptionsFile suffix = ''.subscriptions.json-'' @ suffix"
    by (simp_all add: temp_name_def dir_part_def file_part_def settingsFile_def subscriptionsFile_def)
  have f: "validID i \<and> x = ''subscriptions/'' @ i @ ''.json''" if "snapshotFile i = Some x" for i
    using snapshotFile_temp(1,3)[OF that] by blast
  have k2: "x = settingsFile \<or> x = subscriptionsFile \<or> (\<exists>i. validID i \<and> x = ''subscriptions/'' @ i @ ''.json'')"
    using x f unfolding store_key_def by blast
  then have k1: "hd x = CHR ''s''" by (auto simp: settingsFile_def subscriptionsFile_def)
  from n consider "n = settingsFile" | "n = subscriptionsFile" | i where "snapshotFile i = Some n" by (auto simp: store_key_def)
  then show ?thesis
  proof cases
    case 3
    have "x \<noteq> ''subscriptions/.'' @ t" for t
    proof
      assume e: "x = ''subscriptions/.'' @ t"
      with k2 obtain i where i: "validID i" "i @ ''.json'' = CHR ''.'' # t" by (auto simp: settingsFile_def subscriptionsFile_def)
      then show False using validID_chars[OF i(1)] by (cases i) auto
    qed
    then show ?thesis unfolding snapshotFile_temp(2)[OF 3] by (metis append_Cons append_assoc append_Nil)
  qed (use k1 s in \<open>auto dest: arg_cong[of _ _ hd]\<close>)
qed

definition store_keys :: "disk \<Rightarrow> bool" where
  "store_keys d \<longleftrightarrow> (\<forall>x. d x \<noteq> None \<longrightarrow> store_key x)"

lemma staged_file:
  assumes "write_file fault suffix n (enc v) d = (None, d1)" "store_keys d" "store_key n"
  shows "store_keys d1" "\<forall>x. x \<noteq> n \<longrightarrow> d1 x = d x"
    "(\<And>b. enc v = Some b \<Longrightarrow> dec (b @ [CHR 0x0A]) = Some v) \<Longrightarrow> read_file dec n d1 = Inr v"
proof -
  have fresh: "d (temp_name n suffix) = None"
    using assms(2) temp_fresh[OF _ assms(3)] unfolding store_keys_def by blast
  note w = write_file_atomic(1)[OF assms(1) fresh]
  show "store_keys d1" "\<forall>x. x \<noteq> n \<longrightarrow> d1 x = d x" using assms(2,3) w by (auto simp: store_keys_def)
  show "(\<And>b. enc v = Some b \<Longrightarrow> dec (b @ [CHR 0x0A]) = Some v) \<Longrightarrow> read_file dec n d1 = Inr v"
    by (rule write_read[where enc = enc and v = v, OF assms(1) fresh])
qed

lemma staged_write_done: "staged_write M f d w = (Inr d1, w1) \<Longrightarrow> \<exists>fault suffix. f fault suffix d = (None, d1)"
  by (fastforce simp: staged_write_def split: prod.splits option.splits)

lemma staged_snapshot:
  assumes "staged_write M (\<lambda>fault suffix. SaveSnapshot K fault suffix i snap) d w = (Inr d1, w1)" "store_keys d" "codec_ok K"
  shows "store_keys d1" "validID i" "Snapshot K i d1 = Inr snap" "\<And>j. j \<noteq> i \<Longrightarrow> Snapshot K j d1 = Snapshot K j d"
proof -
  obtain n fault suffix where n: "snapshotFile i = Some n" "write_file fault suffix n (enc_snapshot K snap) d = (None, d1)"
    using staged_write_done[OF assms(1)] by (auto simp: SaveSnapshot_def split: option.splits)
  have k: "store_key n" using n(1) by (auto simp: store_key_def)
  note f = staged_file[where enc = "enc_snapshot K" and v = snap, OF n(2) assms(2) k]
  show "store_keys d1" by (rule f(1))
  show "validID i" using n(1) snapshotFile_temp(3) by blast
  show "Snapshot K i d1 = Inr snap" using f(3)[of "dec_snapshot K"] assms(3) n(1) by (simp add: Snapshot_def codec_ok_def)
  fix j assume "j \<noteq> i"
  then have "snapshotFile j \<noteq> Some n" using snapshotFile_inj[OF n(1)] by blast
  then show "Snapshot K j d1 = Snapshot K j d"
    using f(2) by (cases "snapshotFile j") (simp_all add: Snapshot_def read_file_def)
qed

subsection \<open>The loop over the old subscriptions\<close>

definition imported_ok :: "'w import_env \<Rightarrow> subscription \<Rightarrow> bool" where
  "imported_ok M sub \<longleftrightarrow> validID (sb_id sub) \<and> safeName (sb_name sub) \<and> CheckURL (url_parse (im_lib M)) (sb_url sub) = None
     \<and> times_ok sub \<and> 0 \<le> sb_held_until sub"

definition usable :: "'w import_env \<Rightarrow> snapshot \<Rightarrow> bool" where
  "usable M snap \<longleftrightarrow> (\<exists>doc p drops. Read (im_lib M) (sn_body snap) = Inr doc
     \<and> Build (im_lib M) doc (sn_providers snap) = Inr (p, drops))"

definition stored :: "codec \<Rightarrow> disk \<Rightarrow> subscription \<Rightarrow> snapshot \<Rightarrow> bool" where
  "stored K d sub snap \<longleftrightarrow> Snapshot K (sb_id sub) d = Inr snap"

definition staging_ok :: "'w import_env \<Rightarrow> string \<Rightarrow> staging \<Rightarrow> snapshot list \<Rightarrow> bool" where
  "staging_ok M active st snaps \<longleftrightarrow>
     (let subs = su_list (ss_subs st); act = su_active (ss_subs st) in
       distinct (map sb_name subs) \<and> set (ss_seen st) = sb_name ` set subs \<and> (\<forall>sub \<in> set subs. imported_ok M sub)
       \<and> (act = [] \<or> (\<exists>sub \<in> set subs. sb_id sub = act \<and> sb_name sub = active))
       \<and> store_keys (ss_disk st) \<and> length snaps = length subs \<and> (\<forall>snap \<in> set snaps. usable M snap)
       \<and> (distinct (map sb_id subs) \<longrightarrow> list_all2 (stored (im_codec M) (ss_disk st)) subs snaps)
       \<and> 0 \<le> ss_left st \<and> int (sum_list (map snapshot_size snaps)) + ss_left st \<le> int MaxBytes)"

lemma requestState_ok:
  "requestState M root i sub = Inr sub' \<Longrightarrow> sb_held_until sub = 0 \<Longrightarrow> sb_retry_at sub = 0 \<Longrightarrow>
     sb_id sub' = sb_id sub \<and> sb_name sub' = sb_name sub \<and> sb_url sub' = sb_url sub
     \<and> 0 \<le> sb_held_until sub' \<and> sb_held_until sub' \<le> sb_retry_at sub'"
  by (auto simp: requestState_def Let_def deadline_ok_def split: sum.splits option.splits if_splits)

lemma dated_ok: "0 \<le> sb_held_until sub \<Longrightarrow> sb_held_until sub \<le> sb_retry_at sub \<Longrightarrow>
    times_ok (dated M old sub) \<and> sb_held_until (dated M old sub) = sb_held_until sub
    \<and> sb_id (dated M old sub) = sb_id sub \<and> sb_name (dated M old sub) = sb_name sub \<and> sb_url (dated M old sub) = sb_url sub"
proof -
  have "3600 * Second_ns \<le> Interval h" for h using Interval_bounds[of h] by (simp add: Second_ns_def Hour_def)
  from zdiv_mono1[OF this, of Second_ns] have "3600 \<le> Interval h div Second_ns" for h by (simp add: Second_ns_def)
  then show "0 \<le> sb_held_until sub \<Longrightarrow> sb_held_until sub \<le> sb_retry_at sub \<Longrightarrow> ?thesis"
    by (auto simp: dated_def Let_def times_ok_def split: option.splits)
qed

lemma import_record_ok:
  assumes "import_record M root active i old st w = (Inr st', w')" "staging_ok M active st snaps" "codec_ok (im_codec M)"
    and get: "get_bounded M"
  shows "\<exists>snap. staging_ok M active st' (snaps @ [snap])"
proof -
  obtain newid w0 sub cached snap p left w1 d
    where name: "safeName (or_name old)" "or_name old \<notin> set (ss_seen st)" "CheckURL (url_parse (im_lib M)) (or_url old) = None"
      and sub: "requestState M root i (imported_sub old newid) = Inr sub"
      and cached: "old_read root (''cache/'' @ or_name old @ ''.yaml'') (ss_left st) = Inr cached"
      and snap: "import_snapshot M root cached (ss_left st - int (length cached)) w0 = (Inr (snap, p, left), w1)"
      and wr: "staged_write M (\<lambda>fault suffix. SaveSnapshot (im_codec M) fault suffix newid snap) (ss_disk st) w1 = (Inr d, w')"
      and st': "st' = st\<lparr>ss_disk := d, ss_left := left, ss_seen := or_name old # ss_seen st,
          ss_groups := ss_groups st @ p_groups p,
          ss_subs := \<lparr>su_active = (if or_name old = active then newid else su_active (ss_subs st)),
                      su_list = su_list (ss_subs st) @ [dated M old sub]\<rparr>,
          ss_profile := (if or_name old = active then p else ss_profile st)\<rparr>"
    using assms(1) by (auto simp: import_record_def Let_def split: if_splits prod.splits sum.splits)
  let ?new = "dated M old sub"
  have rs: "sb_id sub = newid" "sb_name sub = or_name old" "sb_url sub = or_url old" "0 \<le> sb_held_until sub"
    "sb_held_until sub \<le> sb_retry_at sub"
    using requestState_ok[OF sub] by (simp_all add: imported_sub_def)
  note dt = dated_ok[of sub M old, OF rs(4,5)]
  have keys: "store_keys (ss_disk st)" using assms(2) by (simp add: staging_ok_def Let_def)
  note sn = staged_snapshot[OF wr keys assms(3)]
  have new: "imported_ok M ?new" using dt rs name sn(2) by (simp add: imported_ok_def)
  have sz: "0 \<le> left" "int (snapshot_size snap) + left \<le> ss_left st"
    using import_snapshot_ok[OF snap _ get] old_read_bound[OF cached] by auto
  have old_stored: "list_all2 (stored (im_codec M) d) (su_list (ss_subs st)) snaps"
    if "distinct (map sb_id (su_list (ss_subs st) @ [?new]))"
  proof -
    have "list_all2 (stored (im_codec M) (ss_disk st)) (su_list (ss_subs st)) snaps"
      using assms(2) that by (simp add: staging_ok_def Let_def)
    moreover have "sb_id s \<noteq> newid" if "s \<in> set (su_list (ss_subs st))" for s
      using \<open>distinct (map sb_id (su_list (ss_subs st) @ [?new]))\<close> imageI[OF that, of sb_id] dt rs(1) by auto
    ultimately show ?thesis using sn(4) by (auto simp: stored_def list_all2_conv_all_nth)
  qed
  have "usable M snap" using import_snapshot_builds[OF snap] unfolding usable_def by blast
  then have "staging_ok M active st' (snaps @ [snap])"
    using assms(2) name new dt rs sn sz old_stored
    by (auto simp: staging_ok_def Let_def st' stored_def list_all2_append)
  then show ?thesis by blast
qed

lemma import_records_ok:
  assumes "import_records M root active i olds st w = (Inr st', w')" "staging_ok M active st snaps" "codec_ok (im_codec M)"
    and get: "get_bounded M"
  shows "\<exists>snaps. staging_ok M active st' snaps"
  using assms(1,2)
proof (induction olds arbitrary: i st w snaps)
  case (Cons old olds)
  then obtain st1 w1 where one: "import_record M root active i old st w = (Inr st1, w1)"
    "import_records M root active (i + 1) olds st1 w1 = (Inr st', w')" by (auto split: prod.splits sum.splits)
  from import_record_ok[OF one(1) Cons.prems(2) assms(3) get] Cons.IH[OF one(2)] show ?case by blast
qed auto

lemma new_staging_ok: "staging_ok M active new_staging []"
  by (simp add: staging_ok_def new_staging_def store_keys_def)

subsection \<open>What is staged\<close>

lemma Snapshot_other: "(\<And>n. snapshotFile i = Some n \<Longrightarrow> d1 n = d n) \<Longrightarrow> Snapshot K i d1 = Snapshot K i d"
  by (auto simp: Snapshot_def read_file_def split: option.splits)

lemma staged_settings:
  assumes "staged_write M (\<lambda>fault suffix. SaveSettings K fault suffix v) d w = (Inr d1, w1)" "store_keys d" "codec_ok K"
    "PruneCategories (st_rules v) = st_rules v"
  shows "store_keys d1" "store_Settings K d1 = Inr v" "Snapshot K i d1 = Snapshot K i d"
proof -
  obtain fault suffix where n: "write_file fault suffix settingsFile (enc_settings K v) d = (None, d1)"
    using staged_write_done[OF assms(1)] by (auto simp: SaveSettings_def)
  have k: "store_key settingsFile" by (simp add: store_key_def)
  note f = staged_file[where enc = "enc_settings K" and v = v, OF n assms(2) k]
  show "store_keys d1" by (rule f(1))
  show "store_Settings K d1 = Inr v" using f(3)[of "dec_settings K"] assms(3,4) by (simp add: store_Settings_def codec_ok_def)
  show "Snapshot K i d1 = Snapshot K i d" using f(2) snapshotFile_apart by (intro Snapshot_other) blast
qed

lemma staged_subscriptions:
  assumes "staged_write M (\<lambda>fault suffix. SaveSubscriptions K fault suffix v) d w = (Inr d1, w1)" "store_keys d" "codec_ok K"
    "list_all (\<lambda>sub. validID (sb_id sub)) (su_list v)"
  shows "store_Subscriptions K d1 = Inr v" "Snapshot K i d1 = Snapshot K i d" "store_Settings K d1 = store_Settings K d"
proof -
  obtain fault suffix where n: "write_file fault suffix subscriptionsFile (enc_subs K v) d = (None, d1)"
    using staged_write_done[OF assms(1)] by (auto simp: SaveSubscriptions_def)
  have k: "store_key subscriptionsFile" by (simp add: store_key_def)
  note f = staged_file[where enc = "enc_subs K" and v = v, OF n assms(2) k]
  show "store_Subscriptions K d1 = Inr v" using f(3)[of "dec_subs K"] assms(3,4) by (simp add: store_Subscriptions_def codec_ok_def)
  show "Snapshot K i d1 = Snapshot K i d" using f(2) snapshotFile_apart by (intro Snapshot_other) blast
  have "settingsFile \<noteq> subscriptionsFile" by (simp add: settingsFile_def subscriptionsFile_def)
  then show "store_Settings K d1 = store_Settings K d" using f(2) by (simp add: store_Settings_def read_file_def)
qed

definition loadable :: "'w import_env \<Rightarrow> bool \<Rightarrow> disk \<Rightarrow> subscriptions \<Rightarrow> snapshot list \<Rightarrow> bool" where
  "loadable M on d su snaps \<longleftrightarrow> store_Subscriptions (im_codec M) d = Inr su
     \<and> distinct (map sb_name (su_list su)) \<and> (\<forall>sub \<in> set (su_list su). imported_ok M sub)
     \<and> (su_active su = [] \<and> \<not> on \<or> su_active su \<in> sb_id ` set (su_list su))
     \<and> (distinct (map sb_id (su_list su)) \<longrightarrow> list_all2 (stored (im_codec M) d) (su_list su) snaps)
     \<and> (\<forall>snap \<in> set snaps. usable M snap) \<and> sum_list (map snapshot_size snaps) \<le> MaxBytes"

definition acceptable :: "'w import_env \<Rightarrow> (string \<Rightarrow> string) \<Rightarrow> bool \<Rightarrow> disk \<Rightarrow> state_settings \<Rightarrow> bool" where
  "acceptable M lower on d v \<longleftrightarrow> store_Settings (im_codec M) d = Inr v \<and> st_running v = on
     \<and> checkSettings (st_settings v) = None \<and> checkRules lower (st_rules v) = None"

lemma stage_import_ok:
  assumes "stage_import M root on records w = (Inr (v, d), w')" "codec_ok (im_codec M)" "get_bounded M"
  shows "acceptable M lower on d v \<and> (\<exists>su snaps. loadable M on d su snaps)"
proof -
  obtain v0 active st w1 w3 d1 w4 where v0: "readSettings M root = Inr v0" "v = v0\<lparr>st_running := on\<rparr>"
    and recs: "import_records M root active 1 records new_staging w = (Inr st, w1)"
    and act: "\<not> (on \<and> su_active (ss_subs st) = [])"
    and w1: "staged_write M (\<lambda>fault suffix. SaveSettings (im_codec M) fault suffix v) (ss_disk st) w3 = (Inr d1, w4)"
    and w2: "staged_write M (\<lambda>fault suffix. SaveSubscriptions (im_codec M) fault suffix (ss_subs st)) d1 w4 = (Inr d, w')"
    using assms(1) by (auto simp: stage_import_def Let_def split: sum.splits prod.splits if_splits bool.splits)
  obtain snaps where ok: "staging_ok M active st snaps" using import_records_ok[OF recs new_staging_ok assms(2,3)] by blast
  note acc = readSettings_accepted[OF v0(1), of lower]
  have prune: "PruneCategories (st_rules v) = st_rules v" using acc v0(2) by simp
  have keys: "store_keys (ss_disk st)" and ids: "list_all (\<lambda>sub. validID (sb_id sub)) (su_list (ss_subs st))"
    using ok by (auto simp: staging_ok_def Let_def imported_ok_def list_all_iff)
  note s1 = staged_settings[OF w1 keys assms(2) prune]
  note s2 = staged_subscriptions[OF w2 s1(1) assms(2) ids]
  have a: "acceptable M lower on d v" using acc v0(2) s1(2) s2(3) by (simp add: acceptable_def)
  have "stored (im_codec M) d = stored (im_codec M) (ss_disk st)"
    by (simp add: stored_def fun_eq_iff s2(2) s1(3))
  moreover have "su_active (ss_subs st) = [] \<and> \<not> on \<or> su_active (ss_subs st) \<in> sb_id ` set (su_list (ss_subs st))"
    using ok act unfolding staging_ok_def Let_def by (metis imageI)
  ultimately have "loadable M on d (ss_subs st) snaps"
    using ok s2(1) by (auto simp: loadable_def staging_ok_def Let_def)
  with a show ?thesis by blast
qed

lemma copy_owner_keeps:
  assumes "copy_owner target copied d = Inr d1"
  shows "acceptable M lower on d1 v = acceptable M lower on d v" "loadable M on d1 su snaps = loadable M on d su snaps"
proof -
  have d1: "d1 x = d x" if "x \<noteq> ''owner''" for x
    using assms that by (auto simp: copy_owner_def split: listing.splits option.splits node.splits if_splits)
  have "n \<noteq> ''owner''" if "snapshotFile i = Some n" for i n using snapshotFile_temp(1)[OF that] by simp
  then have "Snapshot K i d1 = Snapshot K i d" for K i using d1 by (intro Snapshot_other) blast
  moreover have "d1 settingsFile = d settingsFile" "d1 subscriptionsFile = d subscriptionsFile"
    using d1 by (simp_all add: settingsFile_def subscriptionsFile_def)
  then have "store_Settings K d1 = store_Settings K d" "store_Subscriptions K d1 = store_Subscriptions K d" for K
    by (simp_all add: store_Settings_def store_Subscriptions_def read_file_def)
  ultimately show "acceptable M lower on d1 v = acceptable M lower on d v" "loadable M on d1 su snaps = loadable M on d su snaps"
    by (auto simp: acceptable_def loadable_def stored_def list_all2_conv_all_nth)
qed

lemma Prepare_staged:
  assumes "Prepare M source target on locked staged copied w = (Inr (Some (v, d)), w')"
    "codec_ok (im_codec M)" "get_bounded M"
  shows "acceptable M lower on d v \<and> (\<exists>su snaps. loadable M on d su snaps)"
proof -
  obtain root records d0 w1 where st: "stage_import M root on records w = (Inr (v, d0), w1)" "copy_owner target copied d0 = Inr d"
    using assms(1)
    by (auto simp: Prepare_def result_simps split: if_splits option.splits sum.splits prod.splits import_error.splits)
  show ?thesis using stage_import_ok[OF st(1) assms(2,3)] copy_owner_keeps[OF st(2)] by blast
qed

subsection \<open>Cutover\<close>

definition fresh_import :: "import_state \<Rightarrow> string \<Rightarrow> dirs \<Rightarrow> bool" where
  "fresh_import m backup fs \<longleftrightarrow> ip_backup m = [] \<and> \<not> ip_installed m \<and> backup \<noteq> [] \<and> fs backup = NoDir \<and> fs (ip_dir m) \<noteq> NoDir
     \<and> ip_dir m \<noteq> ip_target m \<and> backup \<noteq> ip_target m \<and> backup \<noteq> ip_dir m"

lemma install_dir_cases:
  assumes "install_dir fails m fs = (ok, m1, fs1)" "fs (ip_dir m) \<noteq> NoDir" "ip_backup m \<noteq> [] \<Longrightarrow> fs (ip_backup m) \<noteq> NoDir"
  shows "ok \<and> m1 = m\<lparr>ip_installed := True\<rparr> \<and> fs1 = fs(ip_target m := fs (ip_dir m), ip_dir m := NoDir)
     \<or> \<not> ok \<and> m1 = m \<and> (if ip_backup m = [] \<or> fails 5 then fs1 = fs
          else fs1 = fs(ip_target m := fs (ip_backup m), ip_backup m := NoDir))"
  using assms by (auto simp: install_dir_def rename_dir_def split: if_splits)

lemma Commit_cases:
  assumes "Commit fails backup m fs = (ok, m1, fs1)" "fresh_import m backup fs"
  shows "ok \<and> m1 = m\<lparr>ip_installed := True, ip_backup := (if fs (ip_target m) = NoDir then [] else backup)\<rparr>
       \<and> fs1 = fs(backup := fs (ip_target m), ip_target m := fs (ip_dir m), ip_dir m := NoDir)
     \<or> \<not> ok \<and> ip_installed m1 = False \<and> (fs1 = fs \<or> fs1 = fs(backup := Listing [])
       \<or> fails 5 \<and> fs1 = fs(backup := fs (ip_target m), ip_target m := NoDir))"
proof -
  let ?t = "ip_target m"
  let ?s = "fs(backup := fs ?t, ?t := NoDir)"
  have f: "ip_backup m = []" "\<not> ip_installed m" "backup \<noteq> []" "fs backup = NoDir" "fs (ip_dir m) \<noteq> NoDir"
     "ip_dir m \<noteq> ?t" "backup \<noteq> ?t" "backup \<noteq> ip_dir m" using assms(2) by (auto simp: fresh_import_def)
  have e: "fs(backup := NoDir) = fs" "?s(?t := fs ?t, backup := NoDir) = fs" using f by (simp_all add: fun_eq_iff)
  consider "\<not> ok" "m1 = m" "fs1 = fs \<or> fs1 = fs(backup := Listing [])"
    | "fs ?t = NoDir" "install_dir fails m fs = (ok, m1, fs1)"
    | "fs ?t \<noteq> NoDir" "install_dir fails (m\<lparr>ip_backup := backup\<rparr>) ?s = (ok, m1, fs1)"
    using assms(1) f by (auto simp: Commit_def Let_def e rename_dir_def split: if_splits)
  then show ?thesis
  proof cases
    case 1
    with f show ?thesis by auto
  next
    case 2
    from install_dir_cases[OF 2(2)] f 2(1) e(1) show ?thesis by (auto simp: fun_upd_idem_iff)
  next
    case 3
    from install_dir_cases[OF 3(2)] f 3(1) e(2) show ?thesis by (auto split: if_splits)
  qed
qed

lemma Rollback_undoes:
  assumes "Commit fails backup m fs = (True, m1, fs1)" "fresh_import m backup fs" "Rollback fails' m1 fs1 = (ok, m2, fs2)"
  shows "(ok \<longrightarrow> fs2 = fs \<and> \<not> ip_installed m2) \<and> (\<not> ok \<longrightarrow> fs2 backup = fs (ip_target m))"
proof -
  let ?t = "ip_target m" and ?d = "ip_dir m"
  have f: "fs backup = NoDir" "fs ?d \<noteq> NoDir" "backup \<noteq> []" "?d \<noteq> ?t" "backup \<noteq> ?t" "backup \<noteq> ?d"
    using assms(2) by (auto simp: fresh_import_def)
  let ?s = "fs(backup := fs ?t, ?t := fs ?d, ?d := NoDir)"
  let ?u = "fs(backup := fs ?t, ?t := NoDir)"
  from Commit_cases[OF assms(1,2)] have c: "ip_installed m1" "ip_backup m1 = (if fs ?t = NoDir then [] else backup)"
    "ip_dir m1 = ?d" "ip_target m1 = ?t" "fs1 = ?s" by auto
  have e: "?s(?d := fs ?d, ?t := NoDir) = ?u" "?u(?t := fs ?t, backup := NoDir) = fs" "fs ?t = NoDir \<Longrightarrow> ?u = fs"
    using f by (auto simp: fun_eq_iff)
  show ?thesis
  proof (cases "fails' 1")
    case True
    with assms(3) f c show ?thesis by (auto simp: Rollback_def rename_dir_def)
  next
    case False
    then have "rename_dir (fails' 1) ?t ?d ?s = Renamed ?u" using f e(1) by (simp add: rename_dir_def)
    with assms(3) c have "(if fs ?t = NoDir then (True, m1\<lparr>ip_installed := False\<rparr>, ?u)
        else (case rename_dir (fails' 2) backup ?t ?u of Renamed fs2 \<Rightarrow> (True, m1\<lparr>ip_installed := False\<rparr>, fs2)
               | _ \<Rightarrow> (False, m1\<lparr>ip_installed := False\<rparr>, ?u))) = (ok, m2, fs2)"
      using f by (simp add: Rollback_def Let_def split: if_splits)
    with f e(2,3) show ?thesis by (auto simp: rename_dir_def split: if_splits)
  qed
qed

subsection \<open>The claims\<close>

text \<open>C31: what an import stages is what the daemon can run. The settings are read back from the staged store as they were decided,
  pass the daemon's own checks of settings and rules, and start the proxy exactly if the old service ran; the subscriptions
  are read back with names used once, HTTPS addresses, an active one among them if there was one, and the wait the old
  installation owed their servers; and each has a content, stored under its identifier when the random identifiers
  differ, that the daemon builds a profile from, all of them together within 64 MiB.\<close>

theorem import_loads:
  assumes "Prepare M source target on locked staged copied w = (Inr (Some (v, d)), w')"
    "codec_ok (im_codec M)" "get_bounded M"
  shows "acceptable M lower on d v \<and> (\<exists>su snaps. loadable M on d su snaps)"
  by (rule Prepare_staged[OF assms])

text \<open>A cutover installs the staged directory or changes nothing, and it can be undone. When \<^verbatim>\<open>Commit\<close> succeeds the state
  directory is the staged one and the old one is kept; when it fails, every directory is as before but for the empty
  backup, unless moving the old one back fails too, and then the backup has it. A rollback that succeeds leaves every
  directory as it was before the commit, and one that fails leaves the old state in the backup.\<close>

theorem cutover_reversible:
  assumes "fresh_import m backup fs" "Commit fails backup m fs = (ok, m1, fs1)"
  shows "(ok \<longrightarrow> fs1 (ip_target m) = fs (ip_dir m) \<and> fs1 backup = fs (ip_target m))
    \<and> (\<not> ok \<longrightarrow> (\<forall>x. x \<noteq> backup \<longrightarrow> fs1 x = fs x) \<or> fails 5 \<and> fs1 backup = fs (ip_target m))
    \<and> (ok \<longrightarrow> (case Rollback fails' m1 fs1 of (undone, m2, fs2) \<Rightarrow>
          (undone \<longrightarrow> fs2 = fs \<and> \<not> ip_installed m2) \<and> (\<not> undone \<longrightarrow> fs2 backup = fs (ip_target m))))"
proof -
  have "ip_dir m \<noteq> ip_target m \<and> backup \<noteq> ip_target m \<and> backup \<noteq> ip_dir m" using assms(1) by (simp add: fresh_import_def)
  with Commit_cases[OF assms(2,1)] Rollback_undoes[OF _ assms(1), of fails m1 fs1 fails'] assms(2) show ?thesis
    by (auto split: prod.splits)
qed

subsection \<open>An import\<close>

text \<open>An old installation with one active subscription, whose cache holds share links.\<close>

definition mig_record :: old_record where
  "mig_record = \<lparr>or_name = ''old'', or_url = ''https://example.org/old'', or_updated = [], or_hours = 24,
     or_upload = None, or_download = None, or_total = None, or_expire = None\<rparr>"

definition mig_root :: "string \<Rightarrow> old_file" where
  "mig_root name = (if name = ''subscriptions.json'' then OldFile 1 ''r'' else if name = ''active'' then OldFile 3 ''old''
     else if name = ''cache/old.yaml'' then OldFile 5 ''links'' else OldAbsent)"

definition mig_id :: string where "mig_id = replicate 32 CHR ''1''"

definition mig_direct :: "goval strmap" where
  "mig_direct = [(''name'', GStr ''d''), (''type'', GStr ''direct'')]"

definition mig_settings :: state_settings where
  "mig_settings = DefaultSettings\<lparr>st_running := True\<rparr>"

definition mig_snapshot :: snapshot where
  "mig_snapshot = \<lparr>sn_body = ''links'', sn_providers = []\<rparr>"

definition mig_subs :: subscriptions where
  "mig_subs = \<lparr>su_active = mig_id, su_list = [(imported_sub mig_record mig_id)\<lparr>sb_interval_seconds := 86400\<rparr>]\<rparr>"

definition mig_codec :: codec where
  "mig_codec = \<lparr>enc_settings = (\<lambda>v. if v = mig_settings then Some [] else None), dec_settings = (\<lambda>_. Some mig_settings),
     enc_subs = (\<lambda>v. if v = mig_subs then Some [] else None), dec_subs = (\<lambda>_. Some mig_subs),
     enc_snapshot = (\<lambda>v. if v = mig_snapshot then Some [] else None), dec_snapshot = (\<lambda>_. Some mig_snapshot)\<rparr>"

definition mig_env :: "unit import_env" where
  "mig_env = \<lparr>im_records = (\<lambda>_. Some [mig_record]), im_requests = (\<lambda>_. None),
     im_override = (\<lambda>_. Some \<lparr>oo_mode = [], oo_tun = False, oo_redirect = False, oo_group = [], oo_tailscale = False,
        oo_tailnet = False, oo_prepend = [], oo_append = [], oo_filter = []\<rparr>),
     im_providers = (\<lambda>_. Some ([], [])), im_sha256 = (\<lambda>_. ''s''), im_md5 = (\<lambda>_. ''m''), im_time = (\<lambda>_. None),
     im_lib = demo_lib\<lparr>share_links := (\<lambda>_. Some [mig_direct])\<rparr>, im_codec = mig_codec,
     im_get = (\<lambda>_ _ w. (None, w)), im_new_id = (\<lambda>w. (mig_id, w)), im_fault = (\<lambda>w. ((NoFault, ''1''), w)),
     im_export = None, im_selections = (\<lambda>_ _ w. (True, w)), im_geodata = (\<lambda>_ w. (True, w))\<rparr>"

lemma mig_codec_ok: "codec_ok mig_codec" "get_bounded mig_env"
  by (auto simp: codec_ok_def mig_codec_def get_bounded_def mig_env_def split: if_splits)

lemma mig_snapshot_read: "\<exists>p left. import_snapshot mig_env mig_root ''links'' n () = (Inr (mig_snapshot, p, left), ())"
proof -
  have b: "\<exists>p drops. Build (im_lib mig_env) doc [] = Inr (p, drops)" if "Read (im_lib mig_env) ''links'' = Inr doc" for doc
  proof -
    have "case Read (im_lib mig_env) ''links'' of Inr doc \<Rightarrow> (case Build (im_lib mig_env) doc [] of Inr _ \<Rightarrow> True | _ \<Rightarrow> False) | _ \<Rightarrow> False"
      by code_simp
    with that show ?thesis by (auto split: sum.splits)
  qed
  have r: "case Read (im_lib mig_env) ''links'' of Inr doc \<Rightarrow> Downloads (im_lib mig_env) doc = [] | _ \<Rightarrow> False" by code_simp
  then obtain doc where doc: "Read (im_lib mig_env) ''links'' = Inr doc" "Downloads (im_lib mig_env) doc = []" by (auto split: sum.splits)
  obtain p drops where "Build (im_lib mig_env) doc [] = Inr (p, drops)" using b doc by blast
  moreover have "im_providers mig_env ''links'' = Some ([], [])" by (simp add: mig_env_def)
  ultimately show ?thesis using doc by (simp add: import_snapshot_def cache_body_def mig_snapshot_def)
qed

lemma mig_reads:
  "safeName ''old''" "CheckURL (url_parse (im_lib mig_env)) ''https://example.org/old'' = None" "validID mig_id"
  "trim_space ''old'' = ''old''" "Interval [(''Profile-Update-Interval'', itoa 24)] div Second_ns = 86400"
  by code_simp+

lemma mig_sel:
  "im_new_id mig_env w = (mig_id, w)" "im_fault mig_env w = ((NoFault, ''1''), w)" "im_codec mig_env = mig_codec"
  "im_selections mig_env p t w = (True, w)" "im_geodata mig_env p w = (True, w)" "im_time mig_env when = None"
  "im_records mig_env b = Some [mig_record]" "im_sha256 mig_env u = ''s''"
  by (simp_all add: mig_env_def)

lemma mig_settings_read: "\<exists>v. readSettings mig_env mig_root = Inr v \<and> v\<lparr>st_running := True\<rparr> = mig_settings"
  by (simp add: readSettings_def old_optional_def old_read_def mig_root_def mig_env_def typed_settings_def Let_def
      mig_settings_def DefaultSettings_def default_settings_def ModeRule_def)

lemma mig_write: "\<exists>d. write_file NoFault suffix n (Some b) d0 = (None, d)"
  by (simp add: write_file_def Let_def)

lemma mig_import: "\<exists>st. import_records mig_env mig_root ''old'' 1 [mig_record] new_staging () = (Inr st, ()) \<and> ss_subs st = mig_subs"
proof -
  obtain p left where sn: "import_snapshot mig_env mig_root ''links'' (int MaxBytes - 5) () = (Inr (mig_snapshot, p, left), ())"
    using mig_snapshot_read by blast
  have c: "old_read mig_root ''cache/old.yaml'' (int MaxBytes) = Inr ''links''"
    "old_optional mig_root ''requests/s.json'' 4096 = Inr None"
    by (simp_all add: old_read_def old_optional_def mig_root_def MaxBytes_def Let_def)
  have w: "\<exists>d. staged_write mig_env (\<lambda>fault suffix. SaveSnapshot mig_codec fault suffix mig_id mig_snapshot) d0 () = (Inr d, ())" for d0
    using mig_write by (auto simp: staged_write_def mig_sel SaveSnapshot_def snapshotFile_def mig_reads mig_codec_def write_file_def Let_def)
  show ?thesis using w[of "ss_disk new_staging"] sn c mig_reads
    by (auto simp: import_record_def mig_sel mig_record_def requestState_def imported_sub_def new_staging_def dated_def mig_subs_def
        Let_def)
qed

lemma mig_prepared: "\<exists>d. Prepare mig_env (Some mig_root) NoDir True False True True () = (Inr (Some (mig_settings, d)), ())"
proof -
  obtain v where v: "readSettings mig_env mig_root = Inr v" "v\<lparr>st_running := True\<rparr> = mig_settings" using mig_settings_read by blast
  obtain st where st: "import_records mig_env mig_root ''old'' 1 [mig_record] new_staging () = (Inr st, ())" "ss_subs st = mig_subs"
    using mig_import by blast
  have a: "old_optional mig_root ''active'' 1024 = Inr (Some ''old'')" "exportSelections mig_env mig_root = Inr []"
    "old_read mig_root ''subscriptions.json'' (2 ^ 20) = Inr ''r''" "mig_root ''.lock'' = OldAbsent"
    by (simp_all add: old_read_def old_optional_def exportSelections_def mig_root_def Let_def)
  have w: "\<exists>d. staged_write mig_env (\<lambda>fault suffix. SaveSettings mig_codec fault suffix mig_settings) d0 () = (Inr d, ())"
    "\<exists>d. staged_write mig_env (\<lambda>fault suffix. SaveSubscriptions mig_codec fault suffix mig_subs) d0 () = (Inr d, ())" for d0
    by (simp_all add: staged_write_def mig_sel SaveSettings_def SaveSubscriptions_def mig_codec_def write_file_def Let_def)
  obtain d1 where d1: "staged_write mig_env (\<lambda>fault suffix. SaveSettings mig_codec fault suffix mig_settings) (ss_disk st) () = (Inr d1, ())"
    using w by blast
  obtain d2 where d2: "staged_write mig_env (\<lambda>fault suffix. SaveSubscriptions mig_codec fault suffix mig_subs) d1 () = (Inr d2, ())"
    using w by blast
  have "su_active mig_subs \<noteq> []" by (simp add: mig_subs_def mig_id_def)
  with v st a d1 d2 have "stage_import mig_env mig_root True [mig_record] () = (Inr (mig_settings, d2), ())"
    by (simp add: stage_import_def mig_sel mig_reads Let_def)
  then show ?thesis using a by (simp add: Prepare_def has_subscriptions_def emptyState_def copy_owner_def mig_sel)
qed

theorem import_loads_witness:
  "\<exists>d su snaps. acceptable mig_env id True d mig_settings \<and> loadable mig_env True d su snaps
     \<and> fst (Prepare mig_env (Some mig_root) NoDir True False True True ()) = Inr (Some (mig_settings, d))"
proof -
  obtain d where d: "Prepare mig_env (Some mig_root) NoDir True False True True () = (Inr (Some (mig_settings, d)), ())"
    using mig_prepared by blast
  from import_loads[OF d _ mig_codec_ok(2), of id] mig_codec_ok(1) d show ?thesis by (auto simp: mig_sel)
qed

definition mig_dirs :: dirs where
  "mig_dirs x = (if x = ''/var/lib/omihomo'' then Listing [(''owner'', NFile ''1000'')]
     else if x = ''/var/lib/.staged'' then Listing [(''subscriptions.json'', NFile [])] else NoDir)"

definition mig_state :: import_state where
  "mig_state = \<lparr>ip_dir = ''/var/lib/.staged'', ip_target = ''/var/lib/omihomo'', ip_backup = [], ip_installed = False\<rparr>"

theorem cutover_reversible_witness:
  "fst (Commit (\<lambda>_. False) ''/var/lib/.old'' mig_state mig_dirs)
   \<and> snd (snd (Commit (\<lambda>_. False) ''/var/lib/.old'' mig_state mig_dirs)) ''/var/lib/omihomo'' = mig_dirs ''/var/lib/.staged''"
proof -
  have f: "fresh_import mig_state ''/var/lib/.old'' mig_dirs" by (simp add: fresh_import_def mig_state_def mig_dirs_def)
  have ok: "fst (Commit (\<lambda>_. False) ''/var/lib/.old'' mig_state mig_dirs)" by code_simp
  show ?thesis
    using cutover_reversible[OF f, of "\<lambda>_. False" True] ok by (auto simp: mig_state_def prod_eq_iff)
qed

end
