(* ===== verification/Uplink.thy ===== *)
theory Uplink
  imports Core_Types
begin

text \<open>
  \<^verbatim>\<open>internal/uplink\<close>: reaching the network around the proxy. Which addresses a download may be made from
  (\<^verbatim>\<open>download.go\<close>), how the current uplinks and their DNS servers are found (\<^verbatim>\<open>discover.go\<close>), and how names are looked up and
  connections made over them (\<^verbatim>\<open>uplink.go\<close>). Sockets, DNS exchanges, contexts, netlink and the two commands are
  parameters over a world \<open>'w\<close>.
\<close>

subsection \<open>Addresses\<close>

record ip_addr =
  ip_a :: netaddr
  ip_zone :: string

definition no_zone :: "netaddr \<Rightarrow> ip_addr" where
  "no_zone a = \<lparr>ip_a = a, ip_zone = []\<rparr>"

fun Addr_Is4 :: "netaddr \<Rightarrow> bool" where
  "Addr_Is4 (A4 _) = True"
| "Addr_Is4 (A6 _) = False"

text \<open>\<^verbatim>\<open>Addr.Unmap\<close>: an IPv4 address in IPv6 form is the IPv4 address; the zone goes with it.\<close>

definition unmap_addr :: "netaddr \<Rightarrow> netaddr" where
  "unmap_addr a = (case a of
     A4 x \<Rightarrow> A4 x
   | A6 x \<Rightarrow> if drop_bit 32 x = 0xFFFF then A4 (ucast x) else A6 x)"

definition Unmap :: "ip_addr \<Rightarrow> ip_addr" where
  "Unmap ip = (if unmap_addr (ip_a ip) = ip_a ip then ip else no_zone (unmap_addr (ip_a ip)))"

text \<open>These methods look at the IPv4 address inside an IPv6 one.\<close>

definition IsLoopback :: "netaddr \<Rightarrow> bool" where
  "IsLoopback a = (case unmap_addr a of A4 x \<Rightarrow> drop_bit 24 x = 127 | A6 x \<Rightarrow> x = 1)"

definition IsMulticast :: "netaddr \<Rightarrow> bool" where
  "IsMulticast a = (case unmap_addr a of A4 x \<Rightarrow> drop_bit 28 x = 0xE | A6 x \<Rightarrow> drop_bit 120 x = 0xFF)"

definition IsLinkLocalUnicast :: "netaddr \<Rightarrow> bool" where
  "IsLinkLocalUnicast a = (case unmap_addr a of A4 x \<Rightarrow> drop_bit 16 x = 0xA9FE | A6 x \<Rightarrow> drop_bit 118 x = 0x3FA)"

definition IsPrivate :: "netaddr \<Rightarrow> bool" where
  "IsPrivate a = (case unmap_addr a of
     A4 x \<Rightarrow> drop_bit 24 x = 10 \<or> drop_bit 20 x = 0xAC1 \<or> drop_bit 16 x = 0xC0A8
   | A6 x \<Rightarrow> drop_bit 121 x = 0x7E)"

definition IsGlobalUnicast :: "netaddr \<Rightarrow> bool" where
  "IsGlobalUnicast a \<longleftrightarrow> a \<noteq> A4 0 \<and> a \<noteq> A4 0xFFFFFFFF \<and> a \<noteq> A6 0 \<and> \<not> IsLoopback a \<and> \<not> IsMulticast a
     \<and> \<not> IsLinkLocalUnicast a"

definition downloadIPv6 :: netprefix where "downloadIPv6 = V6 0x20000000000000000000000000000000 3"

definition downloadBlocked :: "netprefix list" where
  "downloadBlocked = [V4 (ipv4 0 0 0 0) 8, V4 (ipv4 100 64 0 0) 10, V4 (ipv4 192 0 0 0) 24, V4 (ipv4 192 0 2 0) 24,
     V4 (ipv4 192 88 99 0) 24, V4 (ipv4 198 18 0 0) 15, V4 (ipv4 198 51 100 0) 24, V4 (ipv4 203 0 113 0) 24,
     V4 (ipv4 240 0 0 0) 4, V6 0x20010000000000000000000000000000 23, V6 0x20010db8000000000000000000000000 32,
     V6 0x20020000000000000000000000000000 16, V6 0x3fff0000000000000000000000000000 20]"

text \<open>\<^verbatim>\<open>CheckDownloadAddress\<close>: whether the address is let through.\<close>

definition CheckDownloadAddress :: "ip_addr \<Rightarrow> bool" where
  "CheckDownloadAddress ip0 =
     (let ip = Unmap ip0; a = ip_a ip
      in if ip_zone ip \<noteq> [] \<or> \<not> IsGlobalUnicast a \<or> IsPrivate a then False
         else if \<not> Addr_Is4 a \<and> \<not> prefix_contains downloadIPv6 a then False
         else \<not> list_ex (\<lambda>p. prefix_contains p a) downloadBlocked)"

subsection \<open>Errors\<close>

text \<open>What \<^verbatim>\<open>errors.Is\<close> and \<^verbatim>\<open>errors.As\<close> find in an error: its own kind, then that of what it wraps, which is one error or, where it
  was joined of several, all of them.\<close>

datatype mark = MOp | MLookup bool | MVerify | MAuthority | MHostname | MInvalid | MRecord | MAlert | MDeadline
  | MDownloadAddress | MDirectRequired | MUnavailable | MTooLarge | MInsecure | MResponse | MEOF | MGzip | MFlate
  | MNotRunning | MURL | MOther

datatype neterr = NErr mark string | NWrap mark string neterr | NJoin string "neterr list"

fun err_marks :: "neterr \<Rightarrow> mark list" where
  "err_marks (NErr k _) = [k]"
| "err_marks (NWrap k _ e) = k # err_marks e"
| "err_marks (NJoin _ es) = concat (map err_marks es)"

definition err_is :: "neterr \<Rightarrow> mark \<Rightarrow> bool" where
  "err_is e k \<longleftrightarrow> k \<in> set (err_marks e)"

definition tls_marks :: "mark list" where
  "tls_marks = [MVerify, MAuthority, MHostname, MInvalid, MRecord, MAlert]"

text \<open>The first \<^verbatim>\<open>DNSError\<close>, and whether it says that the name does not exist.\<close>

definition first_lookup :: "neterr \<Rightarrow> bool option" where
  "first_lookup e = (case find (\<lambda>k. case k of MLookup _ \<Rightarrow> True | _ \<Rightarrow> False) (err_marks e) of
     Some (MLookup nf) \<Rightarrow> Some nf | _ \<Rightarrow> None)"

text \<open>The causes the first join below an error has, if there is one.\<close>

fun joined_causes :: "neterr \<Rightarrow> neterr list option" where
  "joined_causes (NErr _ _) = None"
| "joined_causes (NWrap _ _ e) = joined_causes e"
| "joined_causes (NJoin _ es) = Some es"

lemma joined_smaller: "joined_causes e = Some es \<Longrightarrow> x \<in> set es \<Longrightarrow> size x < size e"
  by (induction e) (auto simp: less_Suc_eq_le size_list_estimation' dest: size_list_estimation'[of _ _ _ size])

definition connectivity :: "neterr \<Rightarrow> bool" where
  "connectivity e \<longleftrightarrow> \<not> list_ex (err_is e) tls_marks \<and> first_lookup e \<noteq> Some True
     \<and> (err_is e MDeadline \<or> err_is e MOp \<or> first_lookup e \<noteq> None)"

function Recoverable :: "neterr \<Rightarrow> bool" where
  "Recoverable e =
     (if err_is e MDownloadAddress then False
      else case joined_causes e of
             Some es \<Rightarrow> es \<noteq> [] \<and> list_all Recoverable es
           | None \<Rightarrow> connectivity e)"
  by pat_completeness auto
termination
  by (relation "measure size") (auto dest: joined_smaller)

declare Recoverable.simps [simp del]

subsection \<open>Links\<close>

record link =
  ln_name :: string
  ln_addresses :: "netaddr list"
  ln_dns :: "ip_addr list"

datatype rrtype = TypeA | TypeAAAA | TypeHTTPS

datatype dns_rr = RR_A "nat list" | RR_AAAA "nat list" | RR_ECH string | RR_Other

record dns_query =
  dq_id :: nat
  dq_questions :: "(string \<times> rrtype) list"

record dns_reply =
  dy_id :: nat
  dy_questions :: "(string \<times> rrtype) list"
  dy_truncated :: bool
  dy_answers :: "dns_rr list"

datatype network = UDP | TCP

record uplink_conn =
  cn_network :: network
  cn_device :: string
  cn_source :: ip_addr
  cn_remote :: ip_addr
  cn_port :: string

record 'w net_env =
  ne_links :: "'w \<Rightarrow> (neterr, link list) res \<times> 'w"
  ne_connect :: "uplink_conn \<Rightarrow> 'w \<Rightarrow> neterr option \<times> 'w"
  ne_exchange :: "uplink_conn \<Rightarrow> dns_query \<Rightarrow> 'w \<Rightarrow> (neterr, dns_reply) res \<times> 'w"
  ne_ctx :: "'w \<Rightarrow> neterr option"
  ne_parse_addr :: "string \<Rightarrow> ip_addr option"
  ne_split :: "string \<Rightarrow> (neterr, string \<times> string) res"
  ne_fqdn :: "string \<Rightarrow> string"
  ne_query_id :: "'w \<Rightarrow> nat \<times> 'w"

text \<open>\<^verbatim>\<open>netip.AddrFromSlice\<close>.\<close>

definition octets_value :: "nat list \<Rightarrow> nat" where
  "octets_value bs = foldl (\<lambda>n b. 256 * n + b mod 256) 0 bs"

definition AddrFromSlice :: "nat list \<Rightarrow> netaddr option" where
  "AddrFromSlice bs =
     (if length bs = 4 then Some (A4 (word_of_nat (octets_value bs)))
      else if length bs = 16 then Some (A6 (word_of_nat (octets_value bs)))
      else None)"

text \<open>\<^verbatim>\<open>dial\<close>: the source is an address of the link of the remote's family and scope.\<close>

definition dial_source :: "link \<Rightarrow> ip_addr \<Rightarrow> ip_addr option" where
  "dial_source l remote =
     map_option (\<lambda>a. \<lparr>ip_a = a, ip_zone = (if IsLinkLocalUnicast a then ln_name l else [])\<rparr>)
       (find (\<lambda>a. Addr_Is4 a = Addr_Is4 (ip_a remote) \<and> IsLinkLocalUnicast a = IsLinkLocalUnicast (ip_a remote)) (ln_addresses l))"

definition dial ::
  "'w net_env \<Rightarrow> link \<Rightarrow> network \<Rightarrow> ip_addr \<Rightarrow> string \<Rightarrow> 'w \<Rightarrow> (neterr, uplink_conn) res \<times> 'w" where
  "dial N l net remote port w =
     (case dial_source l remote of
        None \<Rightarrow> (Inl (NErr MOther ''uplink has no address for this family''), w)
      | Some source \<Rightarrow>
          let c = \<lparr>cn_network = net, cn_device = ln_name l, cn_source = source, cn_remote = remote, cn_port = port\<rparr>
          in case ne_connect N c w of
               (Some e, w1) \<Rightarrow> (Inl e, w1)
             | (None, w1) \<Rightarrow> (Inr c, w1))"

text \<open>\<^verbatim>\<open>exchange\<close>: over UDP, and over TCP when the answer was cut off.\<close>

fun exchange_over ::
  "'w net_env \<Rightarrow> network list \<Rightarrow> link \<Rightarrow> ip_addr \<Rightarrow> dns_query \<Rightarrow> 'w \<Rightarrow> (neterr, dns_reply) res \<times> 'w" where
  "exchange_over N [] l server q w = (Inl (NErr MOther ''truncated uplink DNS response''), w)"
| "exchange_over N (net # nets) l server q w =
     (case dial N l net server ''53'' w of
        (Inl e, w1) \<Rightarrow> (Inl e, w1)
      | (Inr c, w1) \<Rightarrow>
          (case ne_exchange N c q w1 of
             (Inl e, w2) \<Rightarrow> (Inl e, w2)
           | (Inr reply, w2) \<Rightarrow>
               if \<not> dy_truncated reply then (Inr reply, w2) else exchange_over N nets l server q w2))"

definition exchange :: "'w net_env \<Rightarrow> link \<Rightarrow> ip_addr \<Rightarrow> dns_query \<Rightarrow> 'w \<Rightarrow> (neterr, dns_reply) res \<times> 'w" where
  "exchange N l server q w = exchange_over N [UDP, TCP] l server q w"

definition link_servers :: "link list \<Rightarrow> (link \<times> ip_addr) list" where
  "link_servers ls = concat (map (\<lambda>l. map (Pair l) (ln_dns l)) ls)"

definition ErrUnavailable :: neterr where
  "ErrUnavailable = NErr MUnavailable ''uplink DNS is unavailable''"

fun query_servers ::
  "'w net_env \<Rightarrow> (link \<times> ip_addr) list \<Rightarrow> dns_query \<Rightarrow> neterr \<Rightarrow> 'w \<Rightarrow> (neterr, dns_reply) res \<times> 'w" where
  "query_servers N [] q prev w = (Inl prev, w)"
| "query_servers N ((l, server) # rest) q prev w =
     (case exchange N l server q w of
        (Inr reply, w1) \<Rightarrow> (Inr reply, w1)
      | (Inl e, w1) \<Rightarrow>
          (case ne_ctx N w1 of
             Some ctx \<Rightarrow> (Inl ctx, w1)
           | None \<Rightarrow> query_servers N rest q e w1))"

definition queryLinks :: "'w net_env \<Rightarrow> link list \<Rightarrow> dns_query \<Rightarrow> 'w \<Rightarrow> (neterr, dns_reply) res \<times> 'w" where
  "queryLinks N ls q w = query_servers N (link_servers ls) q ErrUnavailable w"

definition ExchangeContext :: "'w net_env \<Rightarrow> dns_query \<Rightarrow> 'w \<Rightarrow> (neterr, dns_reply) res \<times> 'w" where
  "ExchangeContext N q w =
     (case ne_links N w of
        (Inl e, w1) \<Rightarrow> (Inl e, w1)
      | (Inr ls, w1) \<Rightarrow> queryLinks N ls q w1)"

text \<open>The addresses in a reply. An \<^verbatim>\<open>A\<close> record is unmapped.\<close>

definition rr_addr :: "dns_rr \<Rightarrow> ip_addr option" where
  "rr_addr rr = (case rr of
     RR_A bs \<Rightarrow> map_option (\<lambda>a. no_zone (unmap_addr a)) (AddrFromSlice bs)
   | RR_AAAA bs \<Rightarrow> map_option no_zone (AddrFromSlice bs)
   | _ \<Rightarrow> None)"

definition SetQuestion :: "'w net_env \<Rightarrow> string \<Rightarrow> rrtype \<Rightarrow> 'w \<Rightarrow> dns_query \<times> 'w" where
  "SetQuestion N host ty w =
     (let (i, w1) = ne_query_id N w in (\<lparr>dq_id = i, dq_questions = [(ne_fqdn N host, ty)]\<rparr>, w1))"

fun lookup_types ::
  "'w net_env \<Rightarrow> link list \<Rightarrow> string \<Rightarrow> rrtype list \<Rightarrow> ip_addr list \<Rightarrow> neterr option \<Rightarrow> 'w
   \<Rightarrow> (ip_addr list \<times> neterr option) \<times> 'w" where
  "lookup_types N ls host [] ips prev w = ((ips, prev), w)"
| "lookup_types N ls host (ty # tys) ips prev w =
     (let (q, w1) = SetQuestion N host ty w
      in case queryLinks N ls q w1 of
           (Inl e, w2) \<Rightarrow> lookup_types N ls host tys ips (Some e) w2
         | (Inr reply, w2) \<Rightarrow> lookup_types N ls host tys (ips @ List.map_filter rr_addr (dy_answers reply)) prev w2)"

definition lookup :: "'w net_env \<Rightarrow> link list \<Rightarrow> string \<Rightarrow> 'w \<Rightarrow> (neterr, ip_addr list) res \<times> 'w" where
  "lookup N ls host w =
     (case ne_parse_addr N host of
        Some ip \<Rightarrow> (Inr [ip], w)
      | None \<Rightarrow>
          (case lookup_types N ls host [TypeA, TypeAAAA] [] None w of
             ((ips, prev), w1) \<Rightarrow>
               (if ips \<noteq> [] then Inr ips
                else case prev of Some e \<Rightarrow> Inl e | None \<Rightarrow> Inl (NErr (MLookup True) ''no addresses''), w1)))"

fun dial_each ::
  "'w net_env \<Rightarrow> (ip_addr \<times> link) list \<Rightarrow> network \<Rightarrow> string \<Rightarrow> neterr \<Rightarrow> 'w \<Rightarrow> (neterr, uplink_conn) res \<times> 'w" where
  "dial_each N [] net port prev w = (Inl prev, w)"
| "dial_each N ((ip, l) # rest) net port prev w =
     (case dial N l net ip port w of
        (Inr c, w1) \<Rightarrow> (Inr c, w1)
      | (Inl e, w1) \<Rightarrow> dial_each N rest net port e w1)"

definition DialContext :: "'w net_env \<Rightarrow> network \<Rightarrow> string \<Rightarrow> 'w \<Rightarrow> (neterr, uplink_conn) res \<times> 'w" where
  "DialContext N net address w =
     (case ne_links N w of
        (Inl e, w1) \<Rightarrow> (Inl e, w1)
      | (Inr ls, w1) \<Rightarrow>
          (case ne_split N address of
             Inl e \<Rightarrow> (Inl e, w1)
           | Inr (host, port) \<Rightarrow>
               (case lookup N ls host w1 of
                  (Inl e, w2) \<Rightarrow> (Inl e, w2)
                | (Inr ips, w2) \<Rightarrow>
                    if \<not> list_all CheckDownloadAddress ips
                    then (Inl (NErr MDownloadAddress ''downloads require a public address''), w2)
                    else dial_each N (concat (map (\<lambda>ip. map (Pair ip) ls) ips)) net port ErrUnavailable w2)))"

definition DialDNS :: "'w net_env \<Rightarrow> 'w \<Rightarrow> (neterr, uplink_conn) res \<times> 'w" where
  "DialDNS N w =
     (case ne_links N w of
        (Inl e, w1) \<Rightarrow> (Inl e, w1)
      | (Inr ls, w1) \<Rightarrow> dial_each N (map (\<lambda>(l, server). (server, l)) (link_servers ls)) TCP ''53'' ErrUnavailable w1)"

subsection \<open>Discovery\<close>

text \<open>What netlink and the commands answer. \<open>rt_ones\<close> is the length of a route's destination mask, none without a destination.
  The raw records of \<^verbatim>\<open>busctl\<close>'s JSON come with their index, family and octets when they decode.\<close>

record route =
  rt_ones :: "nat option"
  rt_unicast :: bool
  rt_link :: nat
  rt_priority :: int

record link_info =
  li_type :: string
  li_up :: bool
  li_loopback :: bool
  li_name :: string
  li_addresses :: "(nat list \<times> bool) list option"

record resolved_record =
  rr_length :: nat
  rr_fields :: "(nat \<times> int \<times> nat list) option"

record host_network =
  hn_routes :: "route list option"
  hn_link :: "nat \<Rightarrow> link_info option"
  hn_busctl :: "string option"
  hn_resolved :: "string \<Rightarrow> (string \<times> resolved_record list) option"
  hn_nmcli :: "string \<Rightarrow> string option"
  hn_parse_addr :: "string \<Rightarrow> ip_addr option"

definition AF_INET :: int where "AF_INET = 2"
definition AF_INET6 :: int where "AF_INET6 = 10"

definition unicast_addr :: "netaddr \<Rightarrow> bool" where
  "unicast_addr a \<longleftrightarrow> IsGlobalUnicast a \<or> IsLinkLocalUnicast a"

text \<open>\<open>good\<close>: the address is neither tentative nor a duplicate.\<close>

definition link_addresses :: "(nat list \<times> bool) list \<Rightarrow> netaddr list" where
  "link_addresses as = List.map_filter (\<lambda>(bs, good). case AddrFromSlice bs of
      Some a \<Rightarrow> if good \<and> unicast_addr a then Some (unmap_addr a) else None
    | None \<Rightarrow> None) as"

definition uplink_types :: "string list" where
  "uplink_types = [''device'', ''bridge'', ''bond'', ''vlan'', ''veth'', ''ppp'']"

text \<open>The link a default route leads to, if it is one to use.\<close>

definition route_link :: "host_network \<Rightarrow> route \<Rightarrow> link option" where
  "route_link H r =
     (if (rt_ones r \<noteq> None \<and> rt_ones r \<noteq> Some 0) \<or> \<not> rt_unicast r then None
      else case hn_link H (rt_link r) of
             None \<Rightarrow> None
           | Some i \<Rightarrow>
               if li_type i \<notin> set uplink_types then None
               else if \<not> li_up i \<or> li_loopback i \<or> li_name i = ''omihomo'' \<or> li_name i = ''tailscale0'' then None
               else (case li_addresses i of
                       None \<Rightarrow> None
                     | Some as \<Rightarrow>
                         if link_addresses as = [] then None
                         else Some \<lparr>ln_name = li_name i, ln_addresses = link_addresses as, ln_dns = []\<rparr>))"

text \<open>The loop over the routes, with the index of each link found; it stops at eight.\<close>

fun find_links :: "host_network \<Rightarrow> route list \<Rightarrow> (nat \<times> link) list \<Rightarrow> (nat \<times> link) list" where
  "find_links H [] ls = ls"
| "find_links H (r # rs) ls =
     (if rt_link r \<in> set (map fst ls) then find_links H rs ls
      else case route_link H r of
             None \<Rightarrow> find_links H rs ls
           | Some l \<Rightarrow> if length ls + 1 = 8 then ls @ [(rt_link r, l)] else find_links H rs (ls @ [(rt_link r, l)]))"

text \<open>\<^verbatim>\<open>addServer\<close> of the link at a position.\<close>

definition tailscale_resolver :: netaddr where "tailscale_resolver = A4 (ipv4 100 100 100 100)"

definition addServer :: "nat \<Rightarrow> ip_addr \<Rightarrow> link list \<Rightarrow> link list" where
  "addServer k ip0 ls =
     (let ip = Unmap ip0; l = ls ! k
      in if \<not> unicast_addr (ip_a ip) \<or> ip = no_zone tailscale_resolver then ls
         else if list_ex (\<lambda>l. ip_a ip \<in> set (ln_addresses l)) ls then ls
         else if length (ln_dns l) \<ge> 8 then ls
         else let server = (if IsLinkLocalUnicast (ip_a ip) then ip\<lparr>ip_zone := ln_name l\<rparr> else ip)
              in if server \<in> set (ln_dns l) then ls else ls[k := l\<lparr>ln_dns := ln_dns l @ [server]\<rparr>])"

fun position_of :: "nat \<Rightarrow> nat list \<Rightarrow> nat option" where
  "position_of i [] = None"
| "position_of i (j # js) = (if i = j then Some 0 else map_option Suc (position_of i js))"

text \<open>\<^verbatim>\<open>resolvedLinks\<close>: the servers it added before a record it refuses stay, since it changes the links in place.\<close>

fun resolved_records :: "nat list \<Rightarrow> resolved_record list \<Rightarrow> link list \<Rightarrow> link list" where
  "resolved_records indices [] ls = ls"
| "resolved_records indices (r # rs) ls =
     (if rr_length r \<noteq> 3 then ls
      else case rr_fields r of
             None \<Rightarrow> ls
           | Some (index, family, octets) \<Rightarrow>
               (case (position_of index indices, AddrFromSlice octets) of
                  (Some k, Some a) \<Rightarrow>
                    if (family \<noteq> AF_INET \<and> family \<noteq> AF_INET6) \<or> Addr_Is4 a \<noteq> (family = AF_INET)
                    then resolved_records indices rs ls
                    else resolved_records indices rs (addServer k (no_zone a) ls)
                | _ \<Rightarrow> resolved_records indices rs ls))"

definition resolvedLinks :: "host_network \<Rightarrow> string \<Rightarrow> nat list \<Rightarrow> link list \<Rightarrow> link list" where
  "resolvedLinks H dat indices ls =
     (case hn_resolved H dat of
        None \<Rightarrow> ls
      | Some (ty, rs) \<Rightarrow> if ty \<noteq> ''a(iiay)'' then ls else resolved_records indices rs ls)"

text \<open>\<^verbatim>\<open>commandOutput\<close>: the command fails when it writes more than the buffer takes.\<close>

definition commandOutput :: "string option \<Rightarrow> string option" where
  "commandOutput out = (case out of Some b \<Rightarrow> if length b > 2 ^ 20 then None else Some b | None \<Rightarrow> None)"

definition manager_servers :: "host_network \<Rightarrow> nat \<Rightarrow> link list \<Rightarrow> link list" where
  "manager_servers H k ls =
     (if ln_dns (ls ! k) \<noteq> [] then ls
      else case commandOutput (hn_nmcli H (ln_name (ls ! k))) of
             None \<Rightarrow> ls
           | Some dat \<Rightarrow>
               fold (\<lambda>field ls. case hn_parse_addr H field of Some ip \<Rightarrow> addServer k ip ls | None \<Rightarrow> ls) (str_fields dat) ls)"

definition discover :: "host_network \<Rightarrow> (neterr, link list) res" where
  "discover H =
     (case hn_routes H of
        None \<Rightarrow> Inl (NJoin ''discover default uplinks'' [ErrUnavailable, NErr MOther []])
      | Some rs \<Rightarrow>
          let found = find_links H (sort_key rt_priority rs) []; ls0 = map snd found
          in if ls0 = [] then Inl (NWrap MOther ''no default uplink is available'' ErrUnavailable)
             else let ls1 = (case commandOutput (hn_busctl H) of
                               None \<Rightarrow> ls0 | Some dat \<Rightarrow> resolvedLinks H dat (map fst found) ls0);
                      ls2 = fold (manager_servers H) [0..<length ls1] ls1;
                      ls3 = filter (\<lambda>l. ln_dns l \<noteq> []) ls2
                  in if ls3 = [] then Inl (NWrap MOther ''no per-link uplink DNS is available'' ErrUnavailable) else Inr ls3)"

end
