(* ===== verification/Rule_Props.thy ===== *)
theory Rule_Props
  imports Run_Config Build_Props Headers
begin

text \<open>
  What the rule checks and the run configuration promise together: the rules listed as active are
  the rules the core runs (\<open>rules_agree\<close>), the unreachable mark is exact
  (\<open>mark_unreachable_nth\<close>), every checked rule of the owner can be written for the engine
  (\<open>user_rules_written\<close>), and the TUN bypass leaves out the last address and treats the tailnet as
  the settings say (\<open>bypass_no_last\<close>, \<open>bypass_tailnet\<close>).
\<close>

subsection \<open>Words\<close>

lemma tails_free_space: "tails_free f [] \<Longrightarrow> tails_free f (CHR '' '' # x)"
  unfolding tails_free_def using leading_before_space by (metis append_Nil2)

lemma fields_from_word: "tails_free f s \<Longrightarrow> fields_from acc (f @ s) = fields_from (acc @ f) s"
proof (induction f arbitrary: acc)
  case (Cons c f)
  have "leading spaces (c # f @ s) = None"
    using Cons.prems unfolding tails_free_def by (metis append_Cons append_Nil list.distinct(1))
  moreover have "tails_free f s" using Cons.prems unfolding tails_free_def by (metis append_Cons)
  ultimately show ?case using Cons.IH[of "acc @ [c]"] by (simp add: fields_from.simps[of acc "c # f @ s"])
qed simp

lemma str_fields_join:
  "\<forall>f \<in> set fs. f \<noteq> [] \<and> tails_free f [] \<Longrightarrow> str_fields (join '' '' fs) = fs"
proof (induction fs rule: induct_list012)
  case 1
  show ?case by (simp add: str_fields_def fields_from.simps)
next
  case (2 f)
  then show ?case using fields_from_word[of f "[]" "[]"] by (simp add: str_fields_def fields_from.simps[of f "[]"])
next
  case (3 f g fs)
  have sp: "leading spaces (CHR '' '' # x) = Some '' ''" for x
    by (simp add: leading_def spaces_def has_prefix_def)
  have "str_fields (join '' '' (f # g # fs)) = fields_from f (CHR '' '' # join '' '' (g # fs))"
    using fields_from_word[OF tails_free_space, of f "[]"] 3(3) by (simp add: str_fields_def)
  also have "\<dots> = f # fields_from [] (join '' '' (g # fs))"
    using 3(3) sp by (simp add: fields_from.simps[of f "CHR '' '' # _"])
  finally show ?case using 3 by (simp add: str_fields_def)
qed

lemma ruleParams_words: "f \<in> set ruleParams \<Longrightarrow> f \<noteq> [] \<and> tails_free f []"
proof -
  have "list_all (\<lambda>f. f \<noteq> [] \<and> list_all (\<lambda>i. leading spaces (drop i f) = None) [0..<length f]) ruleParams" by code_simp
  then have "f \<in> set ruleParams \<Longrightarrow> f \<noteq> [] \<and> (\<forall>i < length f. leading spaces (drop i f) = None)"
    by (auto simp: list_all_iff)
  then show "f \<in> set ruleParams \<Longrightarrow> f \<noteq> [] \<and> tails_free f []"
    unfolding tails_free_def by (metis append_Nil2 append_eq_conv_conj length_append length_greater_0_conv less_add_same_cancel1)
qed

lemma params_words: "set ps \<subseteq> set ruleParams \<Longrightarrow> str_fields (join '' '' ps) = ps"
  using str_fields_join ruleParams_words by blast

subsection \<open>The rules that run are the rules listed as active\<close>

text \<open>What a listed rule says of the rule the core runs.\<close>

definition item_rule :: "rule_item \<Rightarrow> core_rule" where
  "item_rule i = \<lparr>r_type = ru_type i, r_value = ru_value i, r_target = ru_target i, r_params = str_fields (ru_params i),
     r_source = ru_source i\<rparr>"

definition active_rules :: "rule_item list \<Rightarrow> core_rule list" where
  "active_rules items = map item_rule (filter (\<lambda>i. \<not> ru_inactive i) items)"

lemma active_rules_append [simp]: "active_rules (xs @ ys) = active_rules xs @ active_rules ys"
  by (simp add: active_rules_def)

lemma add_compiled_agree:
  "fst st = active_rules (snd st) \<Longrightarrow> fst (add_compiled p r c off st) = active_rules (snd (add_compiled p r c off st))"
  by (simp add: add_compiled_def Let_def active_rules_def item_rule_def)

lemma compile_entry_invariant:
  assumes "P st" "\<And>r c off st. P st \<Longrightarrow> P (add_compiled p r c off st)"
  shows "P (compile_entry p e st)"
proof (cases "re_category e")
  case None
  then show ?thesis using assms by (simp add: compile_entry_def)
next
  case (Some c)
  have "P (fold (\<lambda>r. add_compiled p r (rc_id c) (re_disabled e)) (rc_rules c) st)"
    by (rule fold_invariant[of P]) (rule assms(1), rule assms(2))
  with Some show ?thesis by (simp add: compile_entry_def)
qed

lemma compileRules_agree: "fst (compileRules es p) = active_rules (snd (compileRules es p))"
proof -
  let ?P = "\<lambda>st. fst st = active_rules (snd st)"
  have "?P (compile_entry p e st)" if "?P st" for e st
    using that by (rule compile_entry_invariant) (rule add_compiled_agree)
  then show ?thesis unfolding compileRules_def
    by (intro fold_invariant[of ?P]) (auto simp: active_rules_def)
qed

lemma mark_unreachable_active [simp]: "active_rules (mark_unreachable b rs) = active_rules rs"
  by (induction b rs rule: mark_unreachable.induct) (auto simp: active_rules_def item_rule_def)

definition plain_rule :: "core_rule \<Rightarrow> bool" where
  "plain_rule r \<longleftrightarrow> r_source r = SourceSubscription \<and> set (r_params r) \<subseteq> set ruleParams"

lemma active_listed:
  assumes "\<forall>r \<in> set rs. r_source r = source \<and> set (r_params r) \<subseteq> set ruleParams"
  shows "active_rules (map (listed_rule source category off) rs) = (if off then [] else rs)"
proof -
  have "item_rule (listed_rule source category off r) = r" if "r \<in> set rs" for r
    using assms that params_words[of "r_params r"] by (cases r) (auto simp: item_rule_def listed_rule_def)
  then show ?thesis by (auto simp: active_rules_def listed_rule_def o_def intro: map_idI)
qed

lemma IntegrationRules_params: "r \<in> set (IntegrationRules cfg) \<Longrightarrow> set (r_params r) \<subseteq> set ruleParams"
  by (auto simp: IntegrationRules_def Let_def ruleParams_def split: if_splits)

lemma compiled_source: "r \<in> set (fst (compileRules es p)) \<Longrightarrow> r_source r = SourceUser"
proof -
  let ?P = "\<lambda>st. \<forall>r \<in> set (fst st). r_source r = SourceUser"
  have add: "?P st \<Longrightarrow> ?P (add_compiled p e c off st)" for e c off st
    by (auto simp: add_compiled_def Let_def split: if_splits)
  have "?P (compile_entry p e st)" if "?P st" for e st
    using that by (rule compile_entry_invariant) (rule add)
  then have "?P (compileRules es p)" unfolding compileRules_def by (intro fold_invariant[of ?P]) auto
  then show "r \<in> set (fst (compileRules es p)) \<Longrightarrow> r_source r = SourceUser" by blast
qed

lemma rules_agree:
  assumes plain: "\<forall>r \<in> set (p_rules p). plain_rule r"
  shows "active_rules (rl_rules (rule_listing ss p))
    = withOmihomoRules (p_rules (c_profile (runConfig ss p))) (runConfig ss p)"
proof -
  define users where "users = fst (compileRules (st_rules ss) p)"
  define subs where "subs = (if s_subscription_rules_disabled (st_settings ss) then [] else p_rules p)"
  have u: "\<forall>r \<in> set users. r_source r = SourceUser" using compiled_source users_def by blast
  have s: "\<forall>r \<in> set subs. r_source r \<noteq> SourceUser"
    using plain by (auto simp: subs_def plain_rule_def source_defs)
  have split: "takeWhile (\<lambda>r. r_source r = SourceUser) (users @ subs) = users"
    "dropWhile (\<lambda>r. r_source r = SourceUser) (users @ subs) = subs"
    using u s by (cases subs; simp add: takeWhile_append dropWhile_append)+
  have cfg: "p_rules (c_profile (runConfig ss p)) = users @ subs"
    "c_omihomo_rules_disabled (runConfig ss p) = s_omihomo_rules_disabled (st_settings ss)"
    by (simp_all add: runConfig_def Let_def users_def subs_def)
  have integ: "active_rules (map (listed_rule SourceOmihomo ''omihomo'' off) (IntegrationRules c)) = (if off then [] else IntegrationRules c)" for off c
    by (rule active_listed) (use IntegrationRules_source IntegrationRules_params in blast)
  have subsc: "active_rules (map (listed_rule SourceSubscription ''subscription'' off) (p_rules p)) = (if off then [] else p_rules p)" for off
    by (rule active_listed) (use plain in \<open>auto simp: plain_rule_def\<close>)
  show ?thesis
    unfolding withOmihomoRules_def cfg split
    by (simp add: rule_listing_def Let_def integ subsc users_def subs_def compileRules_agree[symmetric])
qed

text \<open>A rule is marked unreachable exactly when it is active and an active \<open>MATCH\<close> comes before it.\<close>

lemma mark_unreachable_length [simp]: "length (mark_unreachable b rs) = length rs"
  by (induction b rs rule: mark_unreachable.induct) auto

lemma mark_unreachable_nth:
  "i < length rs \<Longrightarrow> mark_unreachable b rs ! i
     = (if ru_inactive (rs ! i) then rs ! i
        else (rs ! i)\<lparr>ru_unreachable := (b \<or> (\<exists>j < i. \<not> ru_inactive (rs ! j) \<and> ru_type (rs ! j) = ''MATCH''))\<rparr>)"
proof (induction b rs arbitrary: i rule: mark_unreachable.induct)
  case (2 b r rs)
  have ex: "(\<exists>j < Suc k. \<not> ru_inactive ((r # rs) ! j) \<and> ru_type ((r # rs) ! j) = ''MATCH'')
      \<longleftrightarrow> (\<not> ru_inactive r \<and> ru_type r = ''MATCH'') \<or> (\<exists>j < k. \<not> ru_inactive (rs ! j) \<and> ru_type (rs ! j) = ''MATCH'')" for k
    by (auto simp: less_Suc_eq_0_disj)
  show ?case
  proof (cases i)
    case (Suc k)
    then show ?thesis using 2 by (cases "ru_inactive r") (simp_all add: ex disj_ac)
  qed simp
qed simp

subsection \<open>What the checks let through can be written for the engine\<close>

lemma userRuleTypes_sub: "set userRuleTypes \<subseteq> set ruleTypes"
proof -
  have "list_all (\<lambda>t. t \<in> set ruleTypes) userRuleTypes" by code_simp
  then show ?thesis by (auto simp: list_all_iff)
qed

lemma user_types_checked:
  "ty \<in> set userRuleTypes \<Longrightarrow> ty \<in> set commaValues \<longleftrightarrow> comma_types ty"
  "ty \<in> set userRuleTypes \<Longrightarrow> ty \<in> set param_types \<Longrightarrow> ty \<noteq> ''MATCH'' \<and> ty \<notin> set commaValues"
proof -
  have "list_all (\<lambda>ty. (ty \<in> set commaValues \<longleftrightarrow> comma_types ty)
      \<and> (ty \<in> set param_types \<longrightarrow> ty \<noteq> ''MATCH'' \<and> ty \<notin> set commaValues)) userRuleTypes" by code_simp
  then show "ty \<in> set userRuleTypes \<Longrightarrow> ty \<in> set commaValues \<longleftrightarrow> comma_types ty"
    "ty \<in> set userRuleTypes \<Longrightarrow> ty \<in> set param_types \<Longrightarrow> ty \<noteq> ''MATCH'' \<and> ty \<notin> set commaValues"
    by (auto simp: list_all_iff)
qed

lemma checkRuleValue_None:
  assumes "checkRuleValue lower ty v = None"
  shows "ty = ''MATCH'' \<Longrightarrow> v = []"
    "ty \<noteq> ''MATCH'' \<Longrightarrow> v \<noteq> [] \<and> v = trim_space v \<and> \<not> has_control v \<and> (CHR '','' \<in> set v \<longrightarrow> comma_types ty)"
  using assms unfolding checkRuleValue_def by (auto split: if_splits)

lemma checkRule_None:
  assumes "checkRule lower r = None"
  shows "re_type r \<in> set userRuleTypes" "checkRuleValue lower (re_type r) (re_value r) = None"
    "\<forall>p \<in> set (str_fields (re_params r)). p \<in> set ruleParams \<and> re_type r \<in> set param_types"
    "re_target r \<noteq> []" "\<not> has_control (re_target r)" "CHR '','' \<notin> set (re_target r)"
proof -
  let ?f = "\<lambda>param. if param \<noteq> ''no-resolve'' \<and> param \<noteq> ''src'' then Some (fail CodeInvalid ''unknown rule parameter %q'' [param])
      else if re_type r \<notin> set param_types then Some (fail CodeInvalid ''%s takes no parameters'' [re_type r]) else None"
  have ty: "re_type r \<in> set userRuleTypes" using assms unfolding checkRule_def by (rule contrapos_pp) simp
  have val: "checkRuleValue lower (re_type r) (re_value r) = None"
    using assms ty unfolding checkRule_def by (cases "checkRuleValue lower (re_type r) (re_value r)") simp_all
  have par: "first_error ?f (str_fields (re_params r)) = None"
    using assms ty val unfolding checkRule_def by (cases "first_error ?f (str_fields (re_params r))") simp_all
  have tgt: "validName ''target'' (re_target r) = None"
    using assms ty val par unfolding checkRule_def by (cases "validName ''target'' (re_target r)") simp_all
  show "re_type r \<in> set userRuleTypes" "checkRuleValue lower (re_type r) (re_value r) = None" by fact+
  show "CHR '','' \<notin> set (re_target r)"
    using assms ty val par tgt unfolding checkRule_def by (cases "CHR '','' \<in> set (re_target r)") simp_all
  show "re_target r \<noteq> []" "\<not> has_control (re_target r)" using tgt by (auto simp: validName_def split: if_splits)
  show "\<forall>p \<in> set (str_fields (re_params r)). p \<in> set ruleParams \<and> re_type r \<in> set param_types"
  proof
    fix p assume "p \<in> set (str_fields (re_params r))"
    then have "?f p = None" using par unfolding first_error_None by blast
    then show "p \<in> set ruleParams \<and> re_type r \<in> set param_types"
      by (cases "p = ''no-resolve''"; cases "p = ''src''"; cases "re_type r \<in> set param_types") (simp_all add: ruleParams_def)
  qed
qed

lemma no_control_no_break: "\<not> has_control s \<Longrightarrow> \<not> contains_any s [CHR 0x0D, CHR 0x0A]"
proof -
  assume a: "\<not> has_control s"
  have "\<not> CHR 0x20 \<le> CHR 0x0D" "\<not> CHR 0x20 \<le> CHR 0x0A" by (simp_all add: less_eq_char_def)
  then have "CHR 0x0D \<notin> set s" "CHR 0x0A \<notin> set s" using has_control_ascii[of s] a by blast+
  then show ?thesis by (auto simp: contains_any_def list_ex_iff)
qed

text \<open>A checked rule whose target is trimmed is written, unless a regular expression in it does not
  compile.\<close>

definition rule_of :: "rule_entry \<Rightarrow> core_rule" where
  "rule_of r = \<lparr>r_type = re_type r, r_value = re_value r, r_target = re_target r, r_params = str_fields (re_params r),
     r_source = SourceUser\<rparr>"

lemma ruleLine_checked:
  assumes chk: "checkRule lower e = None" and trim: "trim_space (re_target e) = re_target e"
    and re_ok: "checkRuleRegex re (re_type e) (re_value e)"
  shows "\<exists>line. ruleLine uni re (rule_of e) = Inr line"
proof -
  note c = checkRule_None[OF chk]
  have ty: "re_type e \<in> set ruleTypes" using c(1) userRuleTypes_sub by blast
  note pl = ruleTypes_plain[OF ty] and v = checkRuleValue_None[OF c(2)]
  have nb: "\<not> contains_any s [CHR 0x0D, CHR 0x0A]" if "s \<in> {re_type e, re_value e, re_target e}" for s
  proof -
    have "list_all (\<lambda>t. \<not> has_control t) ruleTypes" by code_simp
    then have "\<not> has_control (re_type e)" using ty by (auto simp: list_all_iff)
    moreover have "\<not> has_control (re_value e)" using v by (cases "re_type e = ''MATCH''") auto
    ultimately show ?thesis using that c(5) no_control_no_break by auto
  qed
  have params: "set (str_fields (re_params e)) \<subseteq> set ruleParams" using c(3) by blast
  have pnb: "\<not> contains_any s [CHR 0x0D, CHR 0x0A] \<and> s = trim_space s" if "s \<in> set ruleParams" for s
  proof -
    have "list_all (\<lambda>s. \<not> contains_any s [CHR 0x0D, CHR 0x0A] \<and> s = trim_space s) ruleParams" by code_simp
    then show ?thesis using that by (auto simp: list_all_iff)
  qed
  have vt: "re_value e = trim_space (re_value e)" using v by (cases "re_type e = ''MATCH''") auto
  have fs: "\<not> list_ex (\<lambda>f. contains_any f [CHR 0x0D, CHR 0x0A] \<or> f \<noteq> trim_space f)
      ([re_type e, re_value e, re_target e] @ str_fields (re_params e))"
    using nb pnb params pl(3) vt trim by (auto simp: list_ex_iff)
  have fp: "find (\<lambda>p. p \<notin> set ruleParams) (str_fields (re_params e)) = None"
    using params by (auto simp: find_None_iff)
  have none: "str_fields (re_params e) = []" if "re_type e = ''MATCH'' \<or> re_type e \<in> set commaValues"
    using that c(3) user_types_checked(2)[OF c(1)] by (cases "str_fields (re_params e)") auto
  show ?thesis
    using fs fp none pl re_ok c(4,6) v user_types_checked(1)[OF c(1)]
    unfolding ruleLine_def Let_def rule_of_def by auto
qed

text \<open>Every rule compiled for the core comes from a checked entry that is active.\<close>

definition entry_rules :: "rule_entry list \<Rightarrow> rule_entry list" where
  "entry_rules es = concat (map (\<lambda>e. case re_category e of None \<Rightarrow> [e] | Some c \<Rightarrow> rc_rules c) es)"

lemma checkEntry_Inr:
  assumes "checkEntry lower ie st = Inr st'" "r \<in> set (case re_category (snd ie) of None \<Rightarrow> [snd ie] | Some c \<Rightarrow> rc_rules c)"
  shows "checkRule lower r = None"
proof (cases "re_category (snd ie)")
  case None
  then show ?thesis using assms by (auto simp: checkEntry_def split: option.splits)
next
  case (Some c)
  then have "checkCategory lower (snd ie) c st = Inr st'" "r \<in> set (rc_rules c)"
    using assms by (simp_all add: checkEntry_def)
  then show ?thesis
    by (auto simp: checkCategory_def first_error_None split: if_splits option.splits)
qed

lemma checkRules_None:
  assumes "checkRules lower es = None" "r \<in> set (entry_rules es)"
  shows "checkRule lower r = None"
proof -
  obtain st where st: "fold_res (checkEntry lower) (enumerate 0 es) \<lparr>ck_count = 0, ck_ids = [], ck_names = []\<rparr> = Inr st"
    using assms(1) by (auto simp: checkRules_def split: sum.splits)
  obtain e where e: "e \<in> set es" "r \<in> set (case re_category e of None \<Rightarrow> [e] | Some c \<Rightarrow> rc_rules c)"
    using assms(2) by (auto simp: entry_rules_def)
  have "e \<in> snd ` set (enumerate 0 es)" using e(1) by (metis list.set_map map_snd_enumerate)
  then obtain i where i: "(i, e) \<in> set (enumerate 0 es)" by auto
  obtain a b where "checkEntry lower (i, e) a = Inr b" using fold_res_all[OF st i] by blast
  then show ?thesis by (rule checkEntry_Inr) (simp only: snd_conv e(2))
qed

lemma compiled_active:
  "r \<in> set (fst (compileRules es p)) \<Longrightarrow> \<exists>e \<in> set (entry_rules es). ruleActive p e \<and> r = rule_of e"
proof -
  let ?P = "\<lambda>st. \<forall>r \<in> set (fst st). \<exists>e \<in> set (entry_rules es). ruleActive p e \<and> r = rule_of e"
  have add: "?P st \<Longrightarrow> x \<in> set (entry_rules es) \<Longrightarrow> ?P (add_compiled p x c off st)" for x c off st
    by (auto simp: add_compiled_def Let_def rule_of_def split: if_splits)
  have step: "?P (compile_entry p e st)" if "e \<in> set es" "?P st" for e st
  proof (cases "re_category e")
    case None
    then have "e \<in> set (entry_rules es)" using that(1) by (force simp: entry_rules_def)
    then show ?thesis using None add[OF that(2)] by (simp add: compile_entry_def)
  next
    case (Some c)
    then have sub: "set (rc_rules c) \<subseteq> set (entry_rules es)" using that(1) by (force simp: entry_rules_def)
    have "?P (fold (\<lambda>r. add_compiled p r (rc_id c) (re_disabled e)) (rc_rules c) st)"
      by (rule fold_invariant[of ?P]) (rule that(2), rule add, use sub in auto)
    then show ?thesis using Some by (simp add: compile_entry_def)
  qed
  have "?P (compileRules es p)" unfolding compileRules_def
    by (rule fold_invariant[of ?P]) (simp, rule step)
  then show "r \<in> set (fst (compileRules es p)) \<Longrightarrow> \<exists>e \<in> set (entry_rules es). ruleActive p e \<and> r = rule_of e" by blast
qed

lemma digits_not_space: "is_digit c \<Longrightarrow> leading (map rev spaces) (c # s) = None"
proof -
  assume "is_digit c"
  moreover have "list_all (\<lambda>e. e = [] \<or> \<not> is_digit (last e)) spaces" by code_simp
  ultimately have "\<forall>e \<in> set spaces. e = [] \<or> last e \<noteq> c" by (auto simp: list_all_iff)
  then show ?thesis by (auto simp: leading_def find_None_iff has_prefix_append) (metis hd_rev list.sel(1) append_Cons rev_is_Nil_conv hd_append2)
qed

lemma itoa_nat_last: "\<exists>t c. itoa_nat n = t @ [c] \<and> is_digit c"
proof -
  have d: "m < 10 \<Longrightarrow> is_digit (digit_char m)" for m
  proof -
    have "list_all (\<lambda>m. is_digit (digit_char m)) [0..<10]" by code_simp
    then show "m < 10 \<Longrightarrow> is_digit (digit_char m)" by (auto simp: list_all_iff)
  qed
  show ?thesis
  proof (cases "n < 10")
    case True
    then show ?thesis using d[of n] by (simp add: itoa_nat.simps[of n])
  next
    case False
    then show ?thesis using d[of "n mod 10"] by (simp add: itoa_nat.simps[of n])
  qed
qed

lemma profile_name_trimmed: "profile_name s \<Longrightarrow> trim_space s = s"
proof -
  assume "profile_name s"
  then obtain base where b: "checkName base = None" "s = base \<or> (\<exists>j \<ge> 2. s = candidate base j)"
    by (auto simp: profile_name_def)
  have base: "base \<noteq> []" "trim_space base = base" using b(1) by (auto simp: checkName_None)
  have "trim_space (candidate base j) = candidate base j" for j
  proof -
    obtain t c where t: "itoa_nat j = t @ [c]" "is_digit c" using itoa_nat_last by blast
    have "leading spaces base = None" using base(2) trim_space_fixed_iff by blast
    then have "leading spaces (candidate base j) = None"
      using leading_before_space[OF base(1)] by (simp add: candidate_def)
    moreover have "leading (map rev spaces) (rev (candidate base j)) = None"
      using digits_not_space[OF t(2)] t(1) by (simp add: candidate_def)
    ultimately show ?thesis by (simp add: trim_space_fixed_iff)
  qed
  with b base show ?thesis by auto
qed

lemma target_trimmed:
  assumes ok: "profile_ok L d p" and act: "hasTarget p t"
  shows "trim_space t = t"
proof -
  have "list_all (\<lambda>t. trim_space t = t) builtinTargets" by code_simp
  moreover have "trim_space (px_name px) = px_name px" if "px \<in> set (p_proxies p)" for px
    using ok that profile_name_trimmed unfolding profile_ok_def reads_def by blast
  moreover have "trim_space (g_name g) = g_name g" if "g \<in> set (p_groups p)" for g
    using ok that unfolding profile_ok_def profile_group_ok_def checkName_None by metis
  ultimately show ?thesis using act unfolding hasTarget_def list_ex_iff list_all_iff by blast
qed

lemma user_rules_written:
  assumes ok: "profile_ok L d p" and chk: "checkRules lower (st_rules ss) = None"
    and r: "r \<in> set (p_rules (c_profile (runConfig ss p)))" "r_source r = SourceUser"
    and sub: "r_type r = ''SUB-RULE'' \<Longrightarrow> trim_space (r_target r) = r_target r"
    and re_ok: "checkRuleRegex re (r_type r) (r_value r)"
  shows "\<exists>line. ruleLine uni re r = Inr line"
proof -
  have "r \<notin> set (p_rules p)" using ok r(2) by (auto simp: profile_ok_def rule_ok_def source_defs)
  then have "r \<in> set (fst (compileRules (st_rules ss) p))"
    using r(1) by (auto simp: runConfig_def Let_def split: if_splits)
  then obtain e where e: "e \<in> set (entry_rules (st_rules ss))" "ruleActive p e" "r = rule_of e"
    using compiled_active by blast
  have sel: "r_type r = re_type e" "r_value r = re_value e" "r_target r = re_target e" by (simp_all add: e(3) rule_of_def)
  have "trim_space (re_target e) = re_target e"
    using sub sel e(2) target_trimmed[OF ok] by (auto simp: ruleActive_def split: if_splits)
  then show ?thesis using ruleLine_checked[OF checkRules_None[OF chk e(1)]] re_ok e(3) sel by simp
qed

subsection \<open>The bypass\<close>

lemma bypass_no_last:
  "list_all (\<lambda>p. \<not> prefix_contains p (A4 (- 1)) \<and> \<not> prefix_contains p (A6 (- 1))) (tailscaleDNS # tunBypass)"
  by code_simp

text \<open>No other prefix of the table meets the tailnet range.\<close>

fun apart :: "netprefix \<Rightarrow> bool" where
  "apart (V4 p n) = (drop_bit (max (32 - n) 22) p \<noteq> drop_bit (max (32 - n) 22) (ipv4 100 64 0 0))"
| "apart (V6 p n) = True"

lemma tunBypass_apart: "list_all (\<lambda>p. p = tailnetRange \<or> apart p) tunBypass"
  by code_simp

lemma apart_sound:
  assumes "apart q" "prefix_contains tailnetRange (A4 a)"
  shows "\<not> prefix_contains q (A4 a)"
proof (cases q)
  case (V4 p n)
  define m where "m = max (32 - n) 22"
  have t: "drop_bit 22 a = drop_bit 22 (ipv4 100 64 0 0)" using assms(2) by (simp add: tailnetRange_def)
  have "drop_bit m a = drop_bit (m - 22) (drop_bit 22 a)" by (simp add: m_def)
  then have a: "drop_bit m a = drop_bit m (ipv4 100 64 0 0)" using t by (simp add: m_def)
  show ?thesis
  proof
    assume "prefix_contains q (A4 a)"
    then have "drop_bit (32 - n) a = drop_bit (32 - n) p" using V4 by simp
    then have "drop_bit (m - (32 - n)) (drop_bit (32 - n) a) = drop_bit (m - (32 - n)) (drop_bit (32 - n) p)" by simp
    then have "drop_bit m a = drop_bit m p" by (simp add: m_def)
    then show False using a assms(1) V4 by (simp add: m_def)
  qed
qed simp

lemma bypass_tailnet:
  assumes "prefix_contains tailnetRange (A4 a)"
  shows "list_ex (\<lambda>p. prefix_contains p (A4 a)) (bypass s) \<longleftrightarrow> s_tailnet_proxy s \<longrightarrow> a = ipv4 100 100 100 100"
proof (cases "s_tailnet_proxy s")
  case False
  have "tailnetRange \<in> set tunBypass" by (simp add: tunBypass_def)
  with False assms show ?thesis by (auto simp: bypass_def list_ex_iff)
next
  case True
  have "\<not> prefix_contains p (A4 a)" if "p \<in> set tunBypass" "p \<noteq> tailnetRange" for p
    using tunBypass_apart that apart_sound[OF _ assms] by (auto simp: list_all_iff)
  moreover have "prefix_contains tailscaleDNS (A4 a) \<longleftrightarrow> a = ipv4 100 100 100 100"
    by (simp add: tailscaleDNS_def)
  ultimately show ?thesis using True by (auto simp: bypass_def list_ex_iff)
qed
end
