(* ===== verification/Mihomo_Build.thy ===== *)
theory Mihomo_Build
  imports Rule_Props
begin

text \<open>
  \<^verbatim>\<open>internal/core/mihomo/build.go\<close>: the configuration of \<^verbatim>\<open>core.Config\<close> translated into what mihomo
  parses. \<open>raw_host\<close> is what belongs to the core and \<open>raw_config\<close> adds what comes from the profile;
  a field the source leaves at \<^verbatim>\<open>DefaultRawConfig\<close>'s value has no place in them. A Go map is
  visited in no fixed order; the loops here follow the list, and an error names the entry they
  meet first.
\<close>

definition globalGroup :: string where "globalGroup = ''GLOBAL''"
definition tailscaleListener :: string where "tailscaleListener = ''omihomo-tailscale''"
definition tailscaleInterface :: string where "tailscaleInterface = ''tailscale0''"
definition tailscaleDomain :: string where "tailscaleDomain = ''+.ts.net''"
definition tailscaleResolver :: string where "tailscaleResolver = ''100.100.100.100''"
definition tailnetTUNRuleIndex :: int where "tailnetTUNRuleIndex = 5260"
definition tunDevice :: string where "tunDevice = ''omihomo''"
definition mixedPort :: int where "mixedPort = 7890"
definition tailscalePort :: int where "tailscalePort = 7899"
definition defaultNameservers :: "string list" where
  "defaultNameservers = [''https://1.1.1.1/dns-query'', ''https://1.0.0.1/dns-query'']"

datatype tunnel_mode = TunnelRule | TunnelGlobal | TunnelDirect
datatype tun_stack = TunMixed | TunGvisor

record raw_host =
  rh_mode :: tunnel_mode
  rh_mixed_port :: int
  rh_allow_lan :: bool
  rh_store_selected :: bool
  rh_geo_auto_update :: bool
  rh_geo_url :: string
  rh_external_ui_url :: string
  rh_dns_enable :: bool
  rh_dns_default :: "string list"
  rh_dns_proxy_server :: "string list"
  rh_dns_nameserver :: "string list"
  rh_dns_policy :: "string strmap"
  rh_sniff :: "string list strmap"
  rh_tun_enable :: bool
  rh_tun_device :: string
  rh_tun_auto_redirect :: bool
  rh_tun_stack :: tun_stack
  rh_tun_dns_hijack :: "string list"
  rh_tun_exclude_address :: "netprefix list"
  rh_tun_exclude_interface :: "string list"
  rh_tun_rule_index :: "int option"
  rh_listeners :: "goval strmap list"

record raw_config =
  rw_host :: raw_host
  rw_proxies :: "goval strmap list"
  rw_groups :: "goval strmap list"
  rw_rule_providers :: "goval strmap strmap"
  rw_sub_rules :: "string list strmap"
  rw_rules :: "string list"

datatype build_fault =
    UnknownMode string
  | GroupNotWhole string string
  | GroupNotNumber string string
  | GroupOutOfRange string string int
  | RuleSetTwice string
  | SetRegex string
  | BadRule core_rule line_error

fun line_error_text :: "line_error \<Rightarrow> string" where
  "line_error_text BadRegex = ''use Go-compatible regex syntax: %w''"
| "line_error_text LineBreakOrSpace = ''has a line break or surrounding space''"
| "line_error_text MalformedRule = ''is malformed''"
| "line_error_text (UnknownParam p) = ''has an unknown param '' @ p"
| "line_error_text MatchTakesNone = ''has a value or params, which MATCH takes none of''"
| "line_error_text NeedsValueNoParams = ''needs a value and takes no params''"
| "line_error_text NeedsValueNoCommas = ''needs a value without commas''"

fun fault_text :: "build_fault \<Rightarrow> msg" where
  "fault_text (UnknownMode m) = [(''unknown mode %q'', [m])]"
| "fault_text (GroupNotWhole g k) = [(''group %q: %s is not a whole number'', [g, k])]"
| "fault_text (GroupNotNumber g k) = [(''group %q: %s is not a number'', [g, k])]"
| "fault_text (GroupOutOfRange g k n) = [(''group %q: %s must be between 0 and %d'', [g, k, itoa n])]"
| "fault_text (RuleSetTwice n) = [(''rule set %q is defined twice'', [n])]"
| "fault_text (SetRegex l) = [(''use Go-compatible regex syntax: %w'', [l])]"
| "fault_text (BadRule r e) = [(''rule %s,%s,%s %s'', [r_type r, r_value r, r_target r, line_error_text e])]"

definition tunnel_mode_of :: "string \<Rightarrow> tunnel_mode option" where
  "tunnel_mode_of m = map_of [(ModeRule, TunnelRule), (ModeGlobal, TunnelGlobal), (ModeDirect, TunnelDirect)] m"

definition host_config :: "core_config \<Rightarrow> tunnel_mode \<Rightarrow> raw_host" where
  "host_config cfg mode =
     \<lparr>rh_mode = mode, rh_mixed_port = mixedPort, rh_allow_lan = False, rh_store_selected = True,
      rh_geo_auto_update = False, rh_geo_url = [], rh_external_ui_url = [],
      rh_dns_enable = True, rh_dns_default = defaultNameservers, rh_dns_proxy_server = defaultNameservers,
      rh_dns_nameserver = map (\<lambda>ns. if c_dns_destination cfg = [] then ns @ ''#'' @ globalGroup else ns) defaultNameservers,
      rh_dns_policy = [(tailscaleDomain, tailscaleResolver)],
      rh_sniff = [(''HTTP'', [''80'', ''8080'', ''8880'']), (''TLS'', [''443'', ''8443'']), (''QUIC'', [''443'', ''8443''])],
      rh_tun_enable = c_tun cfg, rh_tun_device = tunDevice, rh_tun_auto_redirect = c_tun_redirect cfg,
      rh_tun_stack = (if c_tun_redirect cfg then TunMixed else TunGvisor), rh_tun_dns_hijack = [''any:53''],
      rh_tun_exclude_address = c_tun_bypass cfg, rh_tun_exclude_interface = [tailscaleInterface],
      rh_tun_rule_index = (if c_tailnet_proxy cfg then Some tailnetTUNRuleIndex else None),
      rh_listeners = (if c_tailscale cfg
        then [[(''name'', GStr tailscaleListener), (''type'', GStr ''mixed''), (''listen'', GStr ''127.0.0.1''),
               (''port'', GInt tailscalePort), (''udp'', GBool False), (''users'', GList [])]]
        else [])\<rparr>"

definition set_key :: "string \<Rightarrow> 'a \<Rightarrow> 'a strmap \<Rightarrow> 'a strmap" where
  "set_key k v m = (k, v) # delete_key k m"

lemma map_of_set_key [simp]: "map_of (set_key k v m) k' = (if k' = k then Some v else map_of m k')"
  by (simp add: set_key_def map_of_delete_key)

definition raw_proxy :: "core_proxy \<Rightarrow> goval strmap" where
  "raw_proxy px = set_key ''type'' (GStr (px_type px)) (set_key ''name'' (GStr (px_name px)) (px_options px))"

definition groupNumbers :: "int strmap" where
  "groupNumbers = [(''interval'', 7 * 24 * 60 * 60), (''timeout'', 5 * 60 * 1000), (''max-failed-times'', 1000),
     (''tolerance'', 65535)]"

definition group_number :: "core_group \<Rightarrow> string \<times> int \<Rightarrow> build_fault option" where
  "group_number g kl =
     (case map_of (g_options g) (fst kl) of
        None \<Rightarrow> None
      | Some v \<Rightarrow>
          (let range = (\<lambda>n. if n < 0 \<or> n > snd kl then Some (GroupOutOfRange (g_name g) (fst kl) (snd kl)) else None)
           in case v of
                GInt n \<Rightarrow> range n
              | GUint n \<Rightarrow> range (int (min n (nat (snd kl) + 1)))
              | GFloat f \<Rightarrow> (case float_int f of
                  Some n \<Rightarrow> if - (2 ^ 63) \<le> n \<and> n < 2 ^ 63 then range n else Some (GroupNotWhole (g_name g) (fst kl))
                | None \<Rightarrow> Some (GroupNotWhole (g_name g) (fst kl)))
              | _ \<Rightarrow> Some (GroupNotNumber (g_name g) (fst kl))))"

definition checkGroupNumbers :: "core_group \<Rightarrow> build_fault option" where
  "checkGroupNumbers g = (case List.map_filter (group_number g) groupNumbers of e # _ \<Rightarrow> Some e | [] \<Rightarrow> None)"

definition hidden :: "core_group \<Rightarrow> bool" where
  "hidden g \<longleftrightarrow> bool_at (g_options g) ''hidden'' = Some True"

definition primaryGroup :: "core_group list \<Rightarrow> string \<Rightarrow> string" where
  "primaryGroup gs want =
     (if want \<noteq> [] \<and> list_ex (\<lambda>g. g_name g = want) gs then want
      else
        let visible = filter (\<lambda>g. \<not> hidden g) gs;
            candidates = (if visible \<noteq> [] then visible else gs)
        in case find (\<lambda>g. g_type g = ''select'') candidates of
             Some g \<Rightarrow> g_name g
           | None \<Rightarrow> (case candidates of g # _ \<Rightarrow> g_name g | [] \<Rightarrow> []))"

definition raw_group :: "string \<Rightarrow> core_group \<Rightarrow> (build_fault, goval strmap) res" where
  "raw_group primary g =
     (case checkGroupNumbers g of
        Some e \<Rightarrow> Inl e
      | None \<Rightarrow>
          (let m = set_key ''proxies'' (GList (map GStr (g_members g)))
                     (set_key ''type'' (GStr (g_type g)) (set_key ''name'' (GStr (g_name g)) (g_options g)))
           in Inr (if g_name g = primary then set_key ''hidden'' (GBool False) m else m)))"

definition own_groups :: "core_profile \<Rightarrow> core_group list" where
  "own_groups p = filter (\<lambda>g. g_name g \<noteq> globalGroup) (p_groups p)"

definition global_group :: "string \<Rightarrow> goval strmap" where
  "global_group primary = [(''name'', GStr globalGroup), (''type'', GStr ''select''), (''proxies'', GList [GStr primary])]"

definition raw_rule_set :: "(string \<Rightarrow> bool) \<Rightarrow> core_rule_set \<Rightarrow> goval strmap strmap \<Rightarrow> (build_fault, goval strmap strmap) res" where
  "raw_rule_set re rs acc =
     (if map_of acc (rs_name rs) \<noteq> None then Inl (RuleSetTwice (rs_name rs))
      else case find (\<lambda>line. rs_behavior rs = ''classical'' \<and> \<not> checkRuleRegex re (fst (cut_rule line)) (snd (cut_rule line)))
                  (rs_payload rs) of
             Some line \<Rightarrow> Inl (SetRegex line)
           | None \<Rightarrow> Inr (acc @ [(rs_name rs, [(''type'', GStr ''inline''), (''behavior'', GStr (rs_behavior rs)),
                                  (''payload'', GList (map GStr (rs_payload rs)))])]))"

definition write_rule :: "(string \<Rightarrow> string) \<Rightarrow> (string \<Rightarrow> bool) \<Rightarrow> core_rule \<Rightarrow> (build_fault, string) res" where
  "write_rule uni re r = (case ruleLine uni re r of Inl e \<Rightarrow> Inl (BadRule r e) | Inr line \<Rightarrow> Inr line)"

definition runtime_rule :: "core_rule \<Rightarrow> rule_item" where
  "runtime_rule r =
     \<lparr>ru_type = r_type r, ru_value = r_value r, ru_target = r_target r, ru_source = r_source r,
      ru_params = join '' '' (r_params r), ru_inactive = False, ru_index = 0, ru_category = [], ru_disabled = False,
      ru_unreachable = False, ru_inactive_reason = []\<rparr>"

definition rawConfig :: "(string \<Rightarrow> string) \<Rightarrow> (string \<Rightarrow> bool) \<Rightarrow> core_config
    \<Rightarrow> (build_fault, raw_config \<times> rule_item list) res" where
  "rawConfig uni re cfg =
     (case tunnel_mode_of (c_mode cfg) of
        None \<Rightarrow> Inl (UnknownMode (c_mode cfg))
      | Some mode \<Rightarrow>
          let p = c_profile cfg; gs = own_groups p; primary = primaryGroup gs (c_primary_group cfg);
              rules = withOmihomoRules (p_rules p) cfg
          in bind_res (map_res (raw_group primary) gs) (\<lambda>rgs.
             bind_res (fold_res (raw_rule_set re) (p_rule_sets p) []) (\<lambda>sets.
             bind_res (map_res (\<lambda>nr. bind_res (map_res (write_rule uni re) (snd nr)) (\<lambda>ls. Inr (fst nr, ls)))
                         (p_sub_rules p)) (\<lambda>subs.
             bind_res (map_res (write_rule uni re) rules) (\<lambda>lines.
               Inr (\<lparr>rw_host = host_config cfg mode, rw_proxies = map raw_proxy (p_proxies p),
                     rw_groups = (if primary \<noteq> [] then [global_group primary] else []) @ rgs,
                     rw_rule_providers = sets, rw_sub_rules = filter (\<lambda>nl. snd nl \<noteq> []) subs, rw_rules = lines\<rparr>,
                    map runtime_rule rules))))))"

definition stopped_rules :: "string list" where
  "stopped_rules = [''MATCH,REJECT'']"

subsection \<open>Facts\<close>

text \<open>The primary group: the owner's choice when it exists, else a group of the profile.\<close>

lemma primaryGroup_choice: "want \<noteq> [] \<Longrightarrow> want \<in> g_name ` set gs \<Longrightarrow> primaryGroup gs want = want"
  by (auto simp: primaryGroup_def list_ex_iff)

lemma primaryGroup_in: "gs \<noteq> [] \<Longrightarrow> primaryGroup gs want \<in> g_name ` set gs"
proof -
  assume ne: "gs \<noteq> []"
  define cs where "cs = (if filter (\<lambda>g. \<not> hidden g) gs \<noteq> [] then filter (\<lambda>g. \<not> hidden g) gs else gs)"
  have cs: "cs \<noteq> []" "set cs \<subseteq> set gs" using ne by (auto simp: cs_def)
  show ?thesis
  proof (cases "want \<noteq> [] \<and> list_ex (\<lambda>g. g_name g = want) gs")
    case True
    then show ?thesis by (auto simp: primaryGroup_def list_ex_iff)
  next
    case False
    then have eq: "primaryGroup gs want = (case find (\<lambda>g. g_type g = ''select'') cs of
        Some g \<Rightarrow> g_name g | None \<Rightarrow> (case cs of g # _ \<Rightarrow> g_name g | [] \<Rightarrow> []))"
      unfolding primaryGroup_def Let_def cs_def[symmetric] by (rule if_not_P)
    show ?thesis
    proof (cases "find (\<lambda>g. g_type g = ''select'') cs")
      case None
      then show ?thesis using eq cs by (cases cs) auto
    next
      case (Some g)
      then have "g \<in> set cs" by (auto simp: find_Some_iff)
      then show ?thesis using eq Some cs by auto
    qed
  qed
qed

lemma primaryGroup_visible:
  assumes "want \<notin> g_name ` set gs" "g \<in> set gs" "\<not> hidden g"
  shows "\<exists>h \<in> set gs. g_name h = primaryGroup gs want \<and> \<not> hidden h
    \<and> ((\<exists>s \<in> set gs. \<not> hidden s \<and> g_type s = ''select'') \<longrightarrow> g_type h = ''select'')"
proof -
  define cs where "cs = filter (\<lambda>g. \<not> hidden g) gs"
  have cs: "cs \<noteq> []" using assms(2,3) by (auto simp: cs_def filter_empty_conv)
  have "\<not> list_ex (\<lambda>g. g_name g = want) gs" using assms(1) by (auto simp: list_ex_iff)
  then have eq: "primaryGroup gs want = (case find (\<lambda>g. g_type g = ''select'') cs of
      Some g \<Rightarrow> g_name g | None \<Rightarrow> (case cs of g # _ \<Rightarrow> g_name g | [] \<Rightarrow> []))"
    using cs unfolding primaryGroup_def Let_def cs_def by simp
  show ?thesis
  proof (cases "find (\<lambda>g. g_type g = ''select'') cs")
    case None
    then have "\<forall>s \<in> set cs. g_type s \<noteq> ''select''" by (auto simp: find_None_iff)
    moreover obtain h t where "cs = h # t" using cs by (cases cs) auto
    moreover from this have "h \<in> set gs \<and> \<not> hidden h" by (metis cs_def list.set_intros(1) mem_Collect_eq set_filter)
    ultimately show ?thesis using eq None by (auto simp: cs_def)
  next
    case (Some h)
    then have "h \<in> set cs" "g_type h = ''select''" by (auto simp: find_Some_iff)
    then show ?thesis using eq Some by (auto simp: cs_def)
  qed
qed

lemma tunnel_mode_cases:
  "rawConfig uni re cfg = Inr x \<Longrightarrow> \<exists>mode. tunnel_mode_of (c_mode cfg) = Some mode"
  by (auto simp: rawConfig_def split: option.splits)

lemma rawConfig_run:
  assumes "rawConfig uni re cfg = Inr (raw, listed)"
  obtains mode rgs sets subs where
    "tunnel_mode_of (c_mode cfg) = Some mode" "rw_host raw = host_config cfg mode"
    "rw_proxies raw = map raw_proxy (p_proxies (c_profile cfg))"
    "map_res (raw_group (primaryGroup (own_groups (c_profile cfg)) (c_primary_group cfg))) (own_groups (c_profile cfg)) = Inr rgs"
    "rw_groups raw = (if primaryGroup (own_groups (c_profile cfg)) (c_primary_group cfg) \<noteq> []
       then [global_group (primaryGroup (own_groups (c_profile cfg)) (c_primary_group cfg))] else []) @ rgs"
    "map_res (write_rule uni re) (withOmihomoRules (p_rules (c_profile cfg)) cfg) = Inr (rw_rules raw)"
    "listed = map runtime_rule (withOmihomoRules (p_rules (c_profile cfg)) cfg)"
proof -
  obtain mode where m: "tunnel_mode_of (c_mode cfg) = Some mode" using tunnel_mode_cases[OF assms] by blast
  show ?thesis using assms that unfolding rawConfig_def m
    by (auto simp: result_simps Let_def)
qed

text \<open>Every rule line the engine gets reads back as the rule it was written from, but for the blanks
  around the commas of a value that may hold commas.\<close>

definition read_back :: "core_rule \<Rightarrow> core_rule" where
  "read_back r = r\<lparr>r_source := [], r_value :=
     (if r_type r \<in> set commaValues then join '','' (map trim_space (split_on (CHR '','') (r_value r))) else r_value r)\<rparr>"

lemma write_rule_reads:
  "write_rule uni re r = Inr line \<Longrightarrow> r_type r \<in> set ruleTypes \<Longrightarrow> ParseRule uni line = Inr (read_back r)"
  unfolding read_back_def by (rule ParseRule_ruleLine) (auto simp: write_rule_def split: sum.splits)

lemma rawConfig_rules_read:
  assumes "rawConfig uni re cfg = Inr (raw, listed)" "\<forall>r \<in> set (p_rules (c_profile cfg)). r_type r \<in> set ruleTypes"
  shows "map (ParseRule uni) (rw_rules raw) = map (\<lambda>r. Inr (read_back r)) (withOmihomoRules (p_rules (c_profile cfg)) cfg)"
proof -
  define rs where "rs = withOmihomoRules (p_rules (c_profile cfg)) cfg"
  have "r_type r \<in> set ruleTypes" if "r \<in> set (IntegrationRules cfg)" for r
  proof -
    have "''IP-CIDR'' \<in> set ruleTypes" "''DOMAIN-SUFFIX'' \<in> set ruleTypes" by (simp_all add: ruleTypes_def)
    then show ?thesis using that by (auto simp: IntegrationRules_def Let_def split: if_splits)
  qed
  then have ty: "\<forall>r \<in> set rs. r_type r \<in> set ruleTypes"
    using assms(2) unfolding rs_def withOmihomoRules_def by (auto dest: set_takeWhileD set_dropWhileD)
  have "map_res (write_rule uni re) rs = Inr (rw_rules raw)"
    using assms(1) unfolding rs_def by (rule rawConfig_run)
  then have "list_all2 (\<lambda>r line. write_rule uni re r = Inr line) rs (rw_rules raw)" by (simp add: map_res_Inr_iff)
  then have "map (ParseRule uni) (rw_rules raw) = map (\<lambda>r. Inr (read_back r)) rs"
    using ty by (induction rule: list_all2_induct) (auto intro: write_rule_reads)
  then show ?thesis by (simp add: rs_def)
qed

text \<open>Nothing of the profile reaches the core's own part.\<close>

lemma rawConfig_host:
  "rawConfig uni re cfg = Inr (raw, l) \<Longrightarrow> rawConfig uni re (cfg\<lparr>c_profile := p\<rparr>) = Inr (raw', l') \<Longrightarrow> rw_host raw' = rw_host raw"
  by (elim rawConfig_run) (simp add: host_config_def)

text \<open>A proxy keeps its checked name and type whatever its options say.\<close>

lemma raw_proxy_name: "map_of (raw_proxy px) ''name'' = Some (GStr (px_name px))"
    "map_of (raw_proxy px) ''type'' = Some (GStr (px_type px))"
  by (simp_all add: raw_proxy_def)

lemma checkGroupNumbers_bounds:
  assumes "checkGroupNumbers g = None" "(key, limit) \<in> set groupNumbers" "map_of (g_options g) key = Some (GInt n)"
  shows "0 \<le> n \<and> n \<le> limit"
proof -
  have "List.map_filter (group_number g) groupNumbers = []"
    using assms(1) by (auto simp: checkGroupNumbers_def split: list.splits)
  then have "group_number g (key, limit) = None"
    using assms(2) by (auto simp: List.map_filter_def filter_empty_conv)
  then show ?thesis using assms(3) by (auto simp: group_number_def Let_def split: if_splits)
qed

end
