(* ===== verification/Download_Path.thy ===== *)
theory Download_Path
  imports Uplink Mihomo_Build Fetch Headers
begin

text \<open>
  The way a download takes. \<^verbatim>\<open>internal/core/mihomo/dns.go\<close>: names looked up over DNS-over-HTTPS through the proxy, and the
  connection to the address found, made through the primary exit. \<^verbatim>\<open>internal/fetch/routing.go\<close>: the one recovery over the
  uplink when the proxy cannot be reached and the owner lets it. \<^verbatim>\<open>internal/fetch/fetch.go\<close>: the request itself, its
  redirects, the decoding of the body, and the errors it may show.
\<close>

subsection \<open>DNS over HTTPS\<close>

text \<open>A resolver's two lookups return addresses, an error, or both are empty.\<close>

record 'w ip_resolver =
  rv_lookup :: "rrtype \<Rightarrow> string \<Rightarrow> 'w \<Rightarrow> (ip_addr list \<times> neterr option) \<times> 'w"

definition ErrIPNotFound :: neterr where "ErrIPNotFound = NErr MOther ''couldnt find ip''"

definition join_errors :: "neterr option list \<Rightarrow> neterr option" where
  "join_errors es = (let xs = List.map_filter id es in if xs = [] then None else Some (NJoin [] xs))"

definition lookupIPs ::
  "('w \<Rightarrow> neterr option) \<Rightarrow> 'w ip_resolver option \<Rightarrow> string \<Rightarrow> 'w \<Rightarrow> (neterr, ip_addr list) res \<times> 'w" where
  "lookupIPs ctx r host w =
     (case r of
        None \<Rightarrow> (Inl (NWrap MOp ''lookup'' (NErr MNotRunning [])), w)
      | Some r \<Rightarrow>
          (case rv_lookup r TypeA host w of ((ips, first), w1) \<Rightarrow>
             if ips \<noteq> [] then (Inr ips, w1)
             else if ctx w1 \<noteq> None then (Inl (the (join_errors [first, ctx w1])), w1)
             else (case rv_lookup r TypeAAAA host w1 of ((ips, second), w2) \<Rightarrow>
                if ips \<noteq> [] then (Inr ips, w2)
                else (case join_errors [first, second] of None \<Rightarrow> (Inl ErrIPNotFound, w2) | Some e \<Rightarrow> (Inl e, w2)))))"

text \<open>\<^verbatim>\<open>downloadDNS\<close>: what one endpoint answers, its status, as many bytes as are read, whether reading them failed.\<close>

record doh_answer =
  da_status :: nat
  da_body :: string
  da_error :: "neterr option"

record 'w doh_env =
  de_lower :: "string \<Rightarrow> string"
  de_magic :: "dns_query \<Rightarrow> 'w \<Rightarrow> (neterr, dns_reply) res \<times> 'w"
  de_pack :: "dns_query \<Rightarrow> (neterr, string) res"
  de_post :: "string \<Rightarrow> string \<Rightarrow> 'w \<Rightarrow> (neterr, doh_answer) res \<times> 'w"
  de_unpack :: "string \<Rightarrow> (neterr, dns_reply) res"

definition doh_limit :: nat where "doh_limit = 65536"

definition doh_reply :: "'w doh_env \<Rightarrow> dns_query \<Rightarrow> doh_answer \<Rightarrow> (neterr, dns_reply) res" where
  "doh_reply D q a =
     (let body = take doh_limit (da_body a);
          err = (if da_status a \<noteq> 200 then Some (NErr MOther ''DNS server answered HTTP'') else da_error a)
      in case err of
           Some e \<Rightarrow> Inl e
         | None \<Rightarrow>
             if length body \<ge> doh_limit then Inl (NErr MOther ''DNS response exceeds size limit'')
             else (case de_unpack D body of
                Inl e \<Rightarrow> Inl e
              | Inr r \<Rightarrow>
                  if dy_id r \<noteq> dq_id q \<or> length (dy_questions r) \<noteq> 1 \<or> hd (dy_questions r) \<noteq> hd (dq_questions q)
                  then Inl (NErr MOther ''DNS response does not match question'') else Inr r))"

fun doh_endpoints ::
  "'w doh_env \<Rightarrow> dns_query \<Rightarrow> string \<Rightarrow> string list \<Rightarrow> neterr list \<Rightarrow> 'w \<Rightarrow> (neterr, dns_reply) res \<times> 'w" where
  "doh_endpoints D q wire [] failures w = (Inl (NJoin [] failures), w)"
| "doh_endpoints D q wire (endpoint # rest) failures w =
     (case de_post D endpoint wire w of
        (Inl e, w1) \<Rightarrow> doh_endpoints D q wire rest (failures @ [e]) w1
      | (Inr a, w1) \<Rightarrow>
          (case doh_reply D q a of
             Inr r \<Rightarrow> (Inr r, w1)
           | Inl e \<Rightarrow> doh_endpoints D q wire rest (failures @ [e]) w1))"

definition download_exchange :: "'w doh_env \<Rightarrow> dns_query \<Rightarrow> 'w \<Rightarrow> (neterr, dns_reply) res \<times> 'w" where
  "download_exchange D q w =
     (if has_suffix (to_lower (de_lower D) (fst (hd (dq_questions q)))) ''.ts.net.'' then de_magic D q w
      else case de_pack D q of
             Inl e \<Rightarrow> (Inl e, w)
           | Inr wire \<Rightarrow> doh_endpoints D q wire defaultNameservers [] w)"

text \<open>\<^verbatim>\<open>bootstrapDNS\<close>: the provider's resolver answers when the normal one cannot be reached, and the queries the normal one itself
  makes on the way.\<close>

definition bootstrap_exchange ::
  "(dns_query \<Rightarrow> 'w \<Rightarrow> (neterr, dns_reply) res \<times> 'w) \<Rightarrow> (dns_query \<Rightarrow> 'w \<Rightarrow> (neterr, dns_reply) res \<times> 'w)
   \<Rightarrow> ('w \<Rightarrow> neterr option) \<Rightarrow> bool \<Rightarrow> dns_query \<Rightarrow> 'w \<Rightarrow> (neterr, dns_reply) res \<times> 'w" where
  "bootstrap_exchange normal provider ctx nested q w =
     (if nested then provider q w
      else case normal q w of
             (Inr r, w1) \<Rightarrow> (Inr r, w1)
           | (Inl e, w1) \<Rightarrow> if ctx w1 \<noteq> None \<or> \<not> Recoverable e then (Inl e, w1) else provider q w1)"

text \<open>\<^verbatim>\<open>bootstrapResolver\<close> over a client: \<^verbatim>\<open>ExchangeContext\<close>, \<^verbatim>\<open>lookup\<close> and \<^verbatim>\<open>ResolveECH\<close>.\<close>

definition one_question ::
  "(dns_query \<Rightarrow> 'w \<Rightarrow> (neterr, dns_reply) res \<times> 'w) \<Rightarrow> dns_query \<Rightarrow> 'w \<Rightarrow> (neterr, dns_reply) res \<times> 'w" where
  "one_question client q w =
     (if length (dq_questions q) \<noteq> 1 then (Inl (NErr MOther ''DNS needs one question''), w) else client q w)"

definition rr_of_type :: "rrtype \<Rightarrow> dns_rr \<Rightarrow> ip_addr option" where
  "rr_of_type ty rr = (case rr of
     RR_A _ \<Rightarrow> if ty = TypeA then rr_addr rr else None
   | RR_AAAA _ \<Rightarrow> if ty = TypeAAAA then rr_addr rr else None
   | _ \<Rightarrow> None)"

definition resolver_lookup ::
  "'w net_env \<Rightarrow> (dns_query \<Rightarrow> 'w \<Rightarrow> (neterr, dns_reply) res \<times> 'w) \<Rightarrow> rrtype \<Rightarrow> string \<Rightarrow> 'w
   \<Rightarrow> (ip_addr list \<times> neterr option) \<times> 'w" where
  "resolver_lookup N client ty host w =
     (case ne_parse_addr N host of
        Some ip \<Rightarrow> ((if Addr_Is4 (ip_a ip) = (ty = TypeA) then ([Unmap ip], None) else ([], Some ErrIPNotFound)), w)
      | None \<Rightarrow>
          let (q, w1) = SetQuestion N host ty w
          in case one_question client q w1 of
               (Inl e, w2) \<Rightarrow> (([], Some e), w2)
             | (Inr r, w2) \<Rightarrow>
                 let ips = List.map_filter (rr_of_type ty) (dy_answers r)
                 in ((ips, if ips = [] then Some ErrIPNotFound else None), w2))"

definition bootstrap_resolver ::
  "'w net_env \<Rightarrow> (dns_query \<Rightarrow> 'w \<Rightarrow> (neterr, dns_reply) res \<times> 'w) \<Rightarrow> 'w ip_resolver" where
  "bootstrap_resolver N client = \<lparr>rv_lookup = resolver_lookup N client\<rparr>"

definition ResolveECH ::
  "'w net_env \<Rightarrow> (dns_query \<Rightarrow> 'w \<Rightarrow> (neterr, dns_reply) res \<times> 'w) \<Rightarrow> string \<Rightarrow> 'w \<Rightarrow> (neterr, string) res \<times> 'w" where
  "ResolveECH N client host w =
     (let (q, w1) = SetQuestion N host TypeHTTPS w
      in case one_question client q w1 of
           (Inl e, w2) \<Rightarrow> (Inl e, w2)
         | (Inr r, w2) \<Rightarrow>
             (case find (\<lambda>rr. case rr of RR_ECH _ \<Rightarrow> True | _ \<Rightarrow> False) (dy_answers r) of
                Some (RR_ECH c) \<Rightarrow> (Inr c, w2)
              | _ \<Rightarrow> (Inl (NErr MOther ''no ECH config found in DNS records''), w2)))"

subsection \<open>Dialing\<close>

text \<open>What a dial is to reach, as \<^verbatim>\<open>SetRemoteAddress\<close> reads it: an address or a name, and the port.\<close>

record remote =
  rm_ip :: "ip_addr option"
  rm_host :: string
  rm_port :: string

datatype download_conn = ThroughProxy ip_addr string | AroundProxy uplink_conn

record 'w dial_env =
  di_running :: "'w \<Rightarrow> bool"
  di_remote :: "string \<Rightarrow> (neterr, remote) res"
  di_resolver :: "'w \<Rightarrow> 'w ip_resolver option"
  di_ctx :: "'w \<Rightarrow> neterr option"
  di_proxy :: "'w \<Rightarrow> bool"
  di_exit :: "ip_addr \<Rightarrow> string \<Rightarrow> 'w \<Rightarrow> neterr option \<times> 'w"

text \<open>\<^verbatim>\<open>DialDownload\<close>. \<open>di_proxy\<close> is whether the engine has the group every download leaves by.\<close>

definition DialDownload :: "'w dial_env \<Rightarrow> string \<Rightarrow> string \<Rightarrow> 'w \<Rightarrow> (neterr, download_conn) res \<times> 'w" where
  "DialDownload C network address w =
     (if \<not> di_running C w then (Inl (NWrap MOp ''dial'' (NErr MNotRunning [])), w)
      else if network \<noteq> ''tcp'' \<and> network \<noteq> ''tcp4'' \<and> network \<noteq> ''tcp6'' then (Inl (NErr MOther ''downloads require TCP''), w)
      else case di_remote C address of
             Inl e \<Rightarrow> (Inl e, w)
           | Inr rm \<Rightarrow>
               (case (case rm_ip rm of
                        Some ip \<Rightarrow> (Inr ip, w)
                      | None \<Rightarrow>
                          (case lookupIPs (di_ctx C) (di_resolver C w) (rm_host rm) w of
                             (Inl e, w1) \<Rightarrow> (Inl e, w1)
                           | (Inr ips, w1) \<Rightarrow> (Inr (hd ips), w1))) of
                  (Inl e, w1) \<Rightarrow> (Inl e, w1)
                | (Inr ip, w1) \<Rightarrow>
                    if \<not> CheckDownloadAddress ip
                    then (Inl (NErr MDownloadAddress ''downloads require a public address''), w1)
                    else if \<not> di_proxy C w1 then (Inl (NWrap MOp ''dial'' (NErr MNotRunning [])), w1)
                    else (case di_exit C ip (rm_port rm) w1 of
                       (Some e, w2) \<Rightarrow> (Inl e, w2)
                     | (None, w2) \<Rightarrow> (Inr (ThroughProxy ip (rm_port rm)), w2))))"

definition ErrDirectRequired :: neterr where
  "ErrDirectRequired = NErr MDirectRequired ''direct download needs approval''"

text \<open>The dial of \<^verbatim>\<open>RoutedTransport\<close>: \<open>allowed\<close> is the permission of the one request.\<close>

definition routed_dial ::
  "('w \<Rightarrow> (neterr, 'c) res \<times> 'w) \<Rightarrow> ('w \<Rightarrow> (neterr, 'c) res \<times> 'w) \<Rightarrow> ('w \<Rightarrow> neterr option) \<Rightarrow> bool \<Rightarrow> 'w
   \<Rightarrow> (neterr, 'c) res \<times> 'w" where
  "routed_dial proxy direct ctx allowed w =
     (case proxy w of
        (Inr c, w1) \<Rightarrow> (Inr c, w1)
      | (Inl e, w1) \<Rightarrow>
          if ctx w1 \<noteq> None \<or> \<not> Recoverable e then (Inl e, w1)
          else if \<not> allowed then (Inl ErrDirectRequired, w1)
          else direct w1)"

text \<open>The transport the daemon downloads with.\<close>

definition download_dial ::
  "'w dial_env \<Rightarrow> 'w net_env \<Rightarrow> bool \<Rightarrow> string \<Rightarrow> 'w \<Rightarrow> (neterr, download_conn) res \<times> 'w" where
  "download_dial C N allowed address w =
     routed_dial (DialDownload C ''tcp'' address)
       (\<lambda>w. case DialContext N TCP address w of (r, w1) \<Rightarrow> (map_sum id AroundProxy r, w1)) (di_ctx C) allowed w"

text \<open>The address at the other end of a connection.\<close>

fun far_end :: "download_conn \<Rightarrow> ip_addr" where
  "far_end (ThroughProxy ip _) = ip"
| "far_end (AroundProxy c) = cn_remote c"

end
