(* ===== verification/Fetcher.thy ===== *)
theory Fetcher
  imports Download_Path
begin

text \<open>
  \<^verbatim>\<open>Fetcher.Get\<close> of \<^verbatim>\<open>internal/fetch/fetch.go\<close>: one download with its redirects, the decoding of the body within a limit, and
  the errors that may be shown. A machine notes every request that is sent; the transport, gzip, the clock and \<^verbatim>\<open>net/url\<close>
  are parameters. \<open>fx_cause\<close> is the cause of the request's context once it is done.
\<close>

record fetch_url =
  fu_scheme :: string
  fu_host :: string
  fu_hostname :: string
  fu_path :: string
  fu_query :: string
  fu_user :: "string option"

record out_request =
  og_url :: fetch_url
  og_header :: header
  og_direct :: bool

record http_answer =
  ha_status :: nat
  ha_header :: header
  ha_length :: int
  ha_uncompressed :: bool
  ha_bytes :: string
  ha_error :: "neterr option"

datatype hop_answer = HopError neterr | HopRedirect fetch_url | HopAnswer http_answer

datatype gunzip = GzEOF | GzBad | GzData string "neterr option"

record 'w fetch_env =
  fx_parse :: "string \<Rightarrow> fetch_url option"
  fx_round :: "out_request \<Rightarrow> 'w \<Rightarrow> hop_answer \<times> 'w"
  fx_referer :: "fetch_url \<Rightarrow> fetch_url \<Rightarrow> string"
  fx_gunzip :: "string \<Rightarrow> neterr option \<Rightarrow> gunzip"
  fx_cause :: "'w \<Rightarrow> neterr option"
  fx_now :: "'w \<Rightarrow> int"
  fx_time :: "string \<Rightarrow> int option"
  fx_lower :: "string \<Rightarrow> string"
  fx_agent :: string

record 'w fetch_machine =
  fm_sent :: "out_request list"
  fm_rest :: 'w

record fetch_request =
  fr_url :: string
  fr_max_bytes :: int
  fr_allow_direct :: bool

subsection \<open>Redirects\<close>

text \<open>The client names the URL a redirect came from; \<^verbatim>\<open>checkRedirect\<close> takes that out again.\<close>

definition redirected :: "'w fetch_env \<Rightarrow> nat \<Rightarrow> out_request \<Rightarrow> fetch_url \<Rightarrow> (neterr, out_request) res" where
  "redirected E via rq u =
     (let named = (''Referer'', fx_referer E (og_url rq) u) # delete_key ''Referer'' (og_header rq)
      in case checkRedirect (fu_scheme u) (fu_host u) via of
           Some TooManyRedirects \<Rightarrow> Inl (NWrap MResponse ''stopped after 10 redirects'' (NErr MOther []))
         | Some RedirectInsecure \<Rightarrow> Inl (NWrap MInsecure ''redirect refused'' (NErr MOther []))
         | None \<Rightarrow> Inr (rq\<lparr>og_url := u, og_header := delete_key ''Referer'' named\<rparr>))"

text \<open>\<^verbatim>\<open>client.Do\<close>, after \<open>via\<close> requests. Its errors name the URL.\<close>

function fetch_do :: "'w fetch_env \<Rightarrow> nat \<Rightarrow> out_request \<Rightarrow> 'w fetch_machine \<Rightarrow> (neterr, http_answer) res \<times> 'w fetch_machine" where
  "fetch_do E via rq m =
     (case fx_round E rq (fm_rest m) of (h, w) \<Rightarrow>
        let m1 = m\<lparr>fm_sent := fm_sent m @ [rq], fm_rest := w\<rparr>
        in case h of
             HopError e \<Rightarrow> (Inl (NWrap MURL [] e), m1)
           | HopAnswer a \<Rightarrow> (Inr a, m1)
           | HopRedirect u \<Rightarrow>
               (case redirected E (via + 1) rq u of
                  Inl e \<Rightarrow> (Inl (NWrap MURL [] e), m1)
                | Inr rq1 \<Rightarrow> fetch_do E (via + 1) rq1 m1))"
  by pat_completeness auto
termination
  by (relation "measure (\<lambda>(E, via, rq, m). 10 - via)")
    (auto simp: redirected_def checkRedirect_def maxRedirects_def split: if_splits)

declare fetch_do.simps [simp del]

subsection \<open>Bodies\<close>

definition too_large_err :: neterr where
  "too_large_err = NErr MTooLarge ''response is larger than the size limit''"

text \<open>\<^verbatim>\<open>io.ReadAll(io.LimitReader(body, limit+1))\<close> and the check after it.\<close>

definition read_all :: "string \<Rightarrow> neterr option \<Rightarrow> int \<Rightarrow> (neterr, string) res" where
  "read_all b err limit =
     (let got = take (nat (limit + 1)) b
      in case (if int (length b) \<le> limit then err else None) of
           Some e \<Rightarrow> Inl e
         | None \<Rightarrow> if int (length got) > limit then Inl too_large_err else Inr got)"

definition readBody :: "'w fetch_env \<Rightarrow> http_answer \<Rightarrow> int \<Rightarrow> (neterr, string \<times> header) res" where
  "readBody E a limit =
     (let enc = to_lower (fx_lower E) (trim_space (header_get (ha_header a) ''Content-Encoding''))
      in if ha_uncompressed a \<or> enc = [] \<or> enc = ''identity'' then
           (if ha_length a > limit then Inl too_large_err
            else bind_res (read_all (ha_bytes a) (ha_error a) limit) (\<lambda>b. Inr (b, ha_header a)))
         else if enc = ''gzip'' \<or> enc = ''x-gzip'' then
           (case fx_gunzip E (ha_bytes a) (ha_error a) of
              GzEOF \<Rightarrow> Inr ([], ha_header a)
            | GzBad \<Rightarrow> Inl (NErr MResponse ''bad response: gzip does not decode'')
            | GzData b err \<Rightarrow>
                bind_res (read_all b err limit) (\<lambda>b.
                  Inr (b, delete_key ''Content-Length'' (delete_key ''Content-Encoding'' (ha_header a)))))
         else Inl (NErr MResponse ''bad response: unsupported content encoding''))"

subsection \<open>Errors that may be shown\<close>

fun err_text :: "neterr \<Rightarrow> string" where
  "err_text (NErr _ t) = t"
| "err_text (NWrap _ t _) = t"
| "err_text (NJoin t _) = t"

fun strip_url :: "neterr \<Rightarrow> neterr" where
  "strip_url (NWrap k t e) = (if k = MURL then strip_url e else NWrap k t e)"
| "strip_url e = e"

definition known_marks :: "mark list" where
  "known_marks = [MTooLarge, MInsecure, MResponse, MEOF, MGzip, MOp, MVerify, MRecord, MAlert, MAuthority, MHostname, MInvalid,
     MFlate]"

definition knownCause :: "neterr \<Rightarrow> bool" where
  "knownCause e \<longleftrightarrow> list_ex (err_is e) known_marks \<or> first_lookup e \<noteq> None"

definition leaks :: "fetch_url \<Rightarrow> string \<Rightarrow> bool" where
  "leaks u m \<longleftrightarrow> contains_str m ''://'' \<or> (fu_query u \<noteq> [] \<and> contains_str m (fu_query u))
     \<or> (case fu_user u of None \<Rightarrow> False | Some x \<Rightarrow> contains_str m x)
     \<or> (length (fu_path u) > 1 \<and> contains_str m (fu_path u))"

definition errWithheld :: neterr where
  "errWithheld = NErr MOther ''the cause is withheld, since it may name a URL''"

definition ErrDownloadAddress :: neterr where
  "ErrDownloadAddress = NErr MDownloadAddress ''downloads require a public address''"

definition scrub :: "neterr \<Rightarrow> fetch_url \<Rightarrow> neterr" where
  "scrub err0 u =
     (let err = strip_url err0
      in if err_is err MDownloadAddress then ErrDownloadAddress
         else if err_is err MDirectRequired then ErrDirectRequired
         else if err_is err MUnavailable then ErrUnavailable
         else if \<not> knownCause err then errWithheld
         else if leaks u (err_text err) then errWithheld
         else err)"

definition failure :: "neterr option \<Rightarrow> neterr \<Rightarrow> fetch_url \<Rightarrow> neterr" where
  "failure cause err u = (case cause of Some c \<Rightarrow> c | None \<Rightarrow> scrub err u)"

subsection \<open>Get\<close>

datatype get_error = GetURL url_error | GetStatus nat int | GetFailed neterr

record fetch_response =
  fp_body :: string
  fp_header :: header

definition first_request :: "'w fetch_env \<Rightarrow> fetch_request \<Rightarrow> fetch_url \<Rightarrow> out_request" where
  "first_request E r u = \<lparr>og_url = u, og_header = [(''User-Agent'', fx_agent E), (''Accept'', ''*/*'')], og_direct = fr_allow_direct r\<rparr>"

definition Get :: "'w fetch_env \<Rightarrow> fetch_request \<Rightarrow> 'w fetch_machine \<Rightarrow> (get_error, fetch_response) res \<times> 'w fetch_machine" where
  "Get E r m =
     (case CheckURL (\<lambda>s. map_option (\<lambda>u. (fu_scheme u, fu_hostname u)) (fx_parse E s)) (fr_url r) of
        Some e \<Rightarrow> (Inl (GetURL e), m)
      | None \<Rightarrow>
          let limit = (if fr_max_bytes r \<le> 0 then int MaxBytes else fr_max_bytes r)
          in case fx_parse E (fr_url r) of
               None \<Rightarrow> (Inl (GetURL UrlInvalid), m)
             | Some u \<Rightarrow>
                 (case fetch_do E 0 (first_request E r u) m of
                    (Inl e, m1) \<Rightarrow> (Inl (GetFailed (failure (fx_cause E (fm_rest m1)) e u)), m1)
                  | (Inr a, m1) \<Rightarrow>
                      if ha_status a \<noteq> 200
                      then (Inl (GetStatus (ha_status a)
                              (retryAfter (fx_time E) (header_get (ha_header a) ''Retry-After'') (fx_now E (fm_rest m1)))), m1)
                      else (case (readBody E a limit, fx_cause E (fm_rest m1)) of
                         (Inr (b, h), None) \<Rightarrow> (Inr \<lparr>fp_body = b, fp_header = h\<rparr>, m1)
                       | (Inr _, Some c) \<Rightarrow> (Inl (GetFailed c), m1)
                       | (Inl e, cause) \<Rightarrow> (Inl (GetFailed (failure cause e u)), m1))))"

end
