(* ===== verification/Fetch_Props.thy ===== *)
theory Fetch_Props
  imports Fetcher
begin

text \<open>
  What holds of every download: where it may connect to and by which way, what a request and its redirects are, how much it
  may return, and what its errors may say; and which links and DNS servers the uplink is found to have.
\<close>

subsection \<open>Public addresses\<close>

text \<open>The special-purpose blocks of IPv4, and those inside the global unicast block of IPv6.\<close>

definition special4 :: "netprefix list" where
  "special4 = [V4 (ipv4 0 0 0 0) 8, V4 (ipv4 10 0 0 0) 8, V4 (ipv4 100 64 0 0) 10, V4 (ipv4 127 0 0 0) 8,
     V4 (ipv4 169 254 0 0) 16, V4 (ipv4 172 16 0 0) 12, V4 (ipv4 192 0 0 0) 24, V4 (ipv4 192 0 2 0) 24,
     V4 (ipv4 192 88 99 0) 24, V4 (ipv4 192 168 0 0) 16, V4 (ipv4 198 18 0 0) 15, V4 (ipv4 198 51 100 0) 24,
     V4 (ipv4 203 0 113 0) 24, V4 (ipv4 224 0 0 0) 4, V4 (ipv4 240 0 0 0) 4]"

definition special6 :: "netprefix list" where
  "special6 = [V6 0x20010000000000000000000000000000 23, V6 0x20010db8000000000000000000000000 32,
     V6 0x20020000000000000000000000000000 16, V6 0x3fff0000000000000000000000000000 20]"

definition public_addr :: "netaddr \<Rightarrow> bool" where
  "public_addr a = (case a of
     A4 x \<Rightarrow> \<not> list_ex (\<lambda>p. prefix_contains p a) special4
   | A6 x \<Rightarrow> prefix_contains (V6 0x20000000000000000000000000000000 3) a \<and> \<not> list_ex (\<lambda>p. prefix_contains p a) special6)"

lemma unmap_idem [simp]: "unmap_addr (unmap_addr a) = unmap_addr a"
  by (auto simp: unmap_addr_def split: netaddr.splits)

lemma Unmap_addr [simp]: "ip_a (Unmap ip) = unmap_addr (ip_a ip)"
  by (simp add: Unmap_def no_zone_def)

lemma public4: "IsGlobalUnicast (A4 x) \<and> \<not> IsPrivate (A4 x) \<and> \<not> list_ex (\<lambda>p. prefix_contains p (A4 x)) downloadBlocked
    \<longleftrightarrow> public_addr (A4 x)"
proof -
  have z: "drop_bit 24 (0 :: 32 word) = 0" "drop_bit 28 (0xFFFFFFFF :: 32 word) = 0xF" by simp_all
  have e0: "x = 0 \<Longrightarrow> drop_bit 24 x = 0" and e1: "x = 0xFFFFFFFF \<Longrightarrow> drop_bit 28 x = 0xF" using z by simp_all
  show ?thesis
    by (auto simp: IsGlobalUnicast_def IsLoopback_def IsMulticast_def IsLinkLocalUnicast_def IsPrivate_def unmap_addr_def
        public_addr_def special4_def downloadBlocked_def ipv4_def dest: e0 e1)
qed

lemma global6_excludes:
  fixes x :: "128 word"
  assumes "drop_bit 125 x = 1"
  shows "x \<noteq> 0" "x \<noteq> 1" "drop_bit 120 x \<noteq> 0xFF" "drop_bit 118 x \<noteq> 0x3FA" "drop_bit 121 x \<noteq> 0x7E"
proof -
  have up: "drop_bit (n + m) x = drop_bit n c" if "drop_bit m x = c" for n m c using that by (metis drop_bit_drop_bit)
  show "x \<noteq> 0" "x \<noteq> 1" using assms by auto
  show "drop_bit 120 x \<noteq> 0xFF" using up[of 120 "0xFF" 5] assms by (intro notI) simp
  show "drop_bit 118 x \<noteq> 0x3FA" using up[of 118 "0x3FA" 7] assms by (intro notI) simp
  show "drop_bit 121 x \<noteq> 0x7E" using up[of 121 "0x7E" 4] assms by (intro notI) simp
qed

lemma public6:
  assumes "unmap_addr (A6 x) = A6 x"
  shows "IsGlobalUnicast (A6 x) \<and> \<not> IsPrivate (A6 x) \<and> prefix_contains downloadIPv6 (A6 x)
      \<and> \<not> list_ex (\<lambda>p. prefix_contains p (A6 x)) downloadBlocked \<longleftrightarrow> public_addr (A6 x)"
proof -
  have "prefix_contains downloadIPv6 (A6 x) \<longleftrightarrow> drop_bit 125 x = 1" by (simp add: downloadIPv6_def)
  then have "IsGlobalUnicast (A6 x) \<and> \<not> IsPrivate (A6 x) \<and> prefix_contains downloadIPv6 (A6 x) \<longleftrightarrow> prefix_contains downloadIPv6 (A6 x)"
    using global6_excludes[of x] assms
    by (auto simp: IsGlobalUnicast_def IsLoopback_def IsMulticast_def IsLinkLocalUnicast_def IsPrivate_def)
  moreover have "list_ex (\<lambda>p. prefix_contains p (A6 x)) downloadBlocked = list_ex (\<lambda>p. prefix_contains p (A6 x)) special6"
    by (simp add: downloadBlocked_def special6_def)
  ultimately show ?thesis by (auto simp: public_addr_def downloadIPv6_def)
qed

lemma CheckDownloadAddress_public:
  "CheckDownloadAddress ip \<longleftrightarrow> ip_zone (Unmap ip) = [] \<and> public_addr (unmap_addr (ip_a ip))"
proof (cases "unmap_addr (ip_a ip)")
  case (A4 x)
  then show ?thesis using public4[of x] by (auto simp: CheckDownloadAddress_def Let_def)
next
  case (A6 x)
  have "unmap_addr (A6 x) = A6 x" using unmap_idem[of "ip_a ip"] by (simp add: A6)
  from public6[OF this] A6 show ?thesis by (auto simp: CheckDownloadAddress_def Let_def)
qed

subsection \<open>Recovery\<close>

text \<open>The causes of an error: what it says itself when nothing below it was joined of several errors, and otherwise theirs.\<close>

fun flat_causes :: "neterr \<Rightarrow> neterr list" where
  "flat_causes (NErr k t) = [NErr k t]"
| "flat_causes (NWrap k t e) = (if joined_causes e = None then [NWrap k t e] else flat_causes e)"
| "flat_causes (NJoin t es) = concat (map flat_causes es)"

lemma flat_single: "joined_causes e = None \<Longrightarrow> flat_causes e = [e]"
  by (cases e) auto

lemma flat_joined: "joined_causes e = Some es \<Longrightarrow> flat_causes e = concat (map flat_causes es)"
  by (induction e) auto

lemma Recoverable_causes: "Recoverable e \<Longrightarrow> flat_causes e \<noteq> [] \<and> (\<forall>c \<in> set (flat_causes e). connectivity c)"
proof (induction e rule: Recoverable.induct)
  case (1 e)
  show ?case
  proof (cases "joined_causes e")
    case None
    with "1.prems" show ?thesis by (simp add: Recoverable.simps[of e] flat_single split: if_splits)
  next
    case (Some es)
    with "1.prems" have r: "\<not> err_is e MDownloadAddress" "es \<noteq> []" "\<forall>x \<in> set es. Recoverable x"
      by (auto simp: Recoverable.simps[of e] list_all_iff split: if_splits)
    with "1.IH"[OF r(1) Some] have "\<forall>x \<in> set es. flat_causes x \<noteq> [] \<and> (\<forall>c \<in> set (flat_causes x). connectivity c)" by blast
    with r(2) show ?thesis by (auto simp: flat_joined[OF Some] neq_Nil_conv)
  qed
qed

subsection \<open>Dialing\<close>

lemma dial_conn:
  assumes "dial N l net ip port w = (Inr c, w')"
  shows "cn_remote c = ip \<and> cn_device c = ln_name l \<and> cn_port c = port \<and> cn_network c = net
     \<and> ip_a (cn_source c) \<in> set (ln_addresses l) \<and> Addr_Is4 (ip_a (cn_source c)) = Addr_Is4 (ip_a ip)"
  using assms
  by (auto simp: dial_def dial_source_def Let_def find_Some_iff split: option.splits prod.splits)

lemma dial_each_conn:
  "dial_each N ps net port e w = (Inr c, w') \<Longrightarrow> \<exists>(ip, l) \<in> set ps. \<exists>w1 w2. dial N l net ip port w1 = (Inr c, w2)"
  by (induction N ps net port e w rule: dial_each.induct) (fastforce split: prod.splits sum.splits)+

text \<open>The uplink is only ever dialed at a public address, from an address of the link the connection is bound to.\<close>

lemma DialContext_public:
  assumes "DialContext N net address w = (Inr c, w')"
  shows "CheckDownloadAddress (cn_remote c)"
    "\<exists>w ls w1 l. ne_links N w = (Inr ls, w1) \<and> l \<in> set ls \<and> cn_device c = ln_name l \<and> ip_a (cn_source c) \<in> set (ln_addresses l)"
proof -
  obtain ls w1 host port ips w2 where l: "ne_links N w = (Inr ls, w1)" and ok: "list_all CheckDownloadAddress ips"
    and d: "dial_each N (concat (map (\<lambda>ip. map (Pair ip) ls) ips)) net port ErrUnavailable w2 = (Inr c, w')"
    using assms by (auto simp: DialContext_def split: prod.splits sum.splits if_splits)
  from dial_each_conn[OF d] obtain ip l' w3 w4 where x: "ip \<in> set ips" "l' \<in> set ls" "dial N l' net ip port w3 = (Inr c, w4)" by auto
  with ok dial_conn[OF x(3)] show "CheckDownloadAddress (cn_remote c)" by (auto simp: list_all_iff)
  from l x dial_conn[OF x(3)] show
    "\<exists>w ls w1 l. ne_links N w = (Inr ls, w1) \<and> l \<in> set ls \<and> cn_device c = ln_name l \<and> ip_a (cn_source c) \<in> set (ln_addresses l)" by blast
qed

lemma DialDownload_public:
  "DialDownload C net address w = (Inr c, w') \<Longrightarrow> \<exists>ip port. c = ThroughProxy ip port \<and> CheckDownloadAddress ip"
  by (auto simp: DialDownload_def split: if_splits sum.splits option.splits prod.splits)

lemma download_dial_public:
  assumes "download_dial C N allowed address w = (Inr c, w')"
  shows "CheckDownloadAddress (far_end c)"
    "c = AroundProxy u \<Longrightarrow> allowed \<and> (\<exists>e w1. DialDownload C ''tcp'' address w = (Inl e, w1) \<and> Recoverable e)"
proof -
  have "CheckDownloadAddress (far_end c) \<and> (c = AroundProxy u \<longrightarrow> allowed \<and> (\<exists>e w1. DialDownload C ''tcp'' address w = (Inl e, w1) \<and> Recoverable e))"
  proof (cases "DialDownload C ''tcp'' address w")
    case (Pair r w1)
    show ?thesis
    proof (cases r)
      case (Inr c')
      with Pair assms have "c' = c" by (simp add: download_dial_def routed_dial_def)
      with DialDownload_public Pair Inr show ?thesis by fastforce
    next
      case (Inl e)
      with Pair assms have a: "Recoverable e" "allowed" "map_sum id AroundProxy (fst (DialContext N TCP address w1)) = Inr c"
        by (auto simp: download_dial_def routed_dial_def split: if_splits prod.splits)
      then obtain u' where u': "fst (DialContext N TCP address w1) = Inr u'" "c = AroundProxy u'"
        by (cases "fst (DialContext N TCP address w1)") auto
      then have "DialContext N TCP address w1 = (Inr u', snd (DialContext N TCP address w1))" by (simp add: prod_eq_iff)
      from DialContext_public(1)[OF this] u'(2) a Pair Inl show ?thesis by auto
    qed
  qed
  then show "CheckDownloadAddress (far_end c)"
    "c = AroundProxy u \<Longrightarrow> allowed \<and> (\<exists>e w1. DialDownload C ''tcp'' address w = (Inl e, w1) \<and> Recoverable e)" by blast+
qed

subsection \<open>Requests\<close>

text \<open>A request that may be sent: over https, to a host, without naming where it was sent from, and with the permission of the
  download it belongs to.\<close>

definition request_ok :: "bool \<Rightarrow> out_request \<Rightarrow> bool" where
  "request_ok direct rq \<longleftrightarrow> fu_scheme (og_url rq) = ''https'' \<and> (fu_host (og_url rq) \<noteq> [] \<or> fu_hostname (og_url rq) \<noteq> [])
     \<and> map_of (og_header rq) ''Referer'' = None \<and> og_direct rq = direct"

definition sent :: "nat \<Rightarrow> bool \<Rightarrow> 'w fetch_machine \<Rightarrow> 'w fetch_machine \<Rightarrow> bool" where
  "sent n direct m m' \<longleftrightarrow> (\<exists>rqs. fm_sent m' = fm_sent m @ rqs \<and> length rqs \<le> n \<and> list_all (request_ok direct) rqs)"

lemma redirected_ok: "redirected E via rq u = Inr rq' \<Longrightarrow> request_ok direct rq \<Longrightarrow> request_ok direct rq' \<and> via < 10"
  by (auto simp: redirected_def request_ok_def checkRedirect_def maxRedirects_def map_of_delete_key
      split: option.splits redirect_error.splits if_splits)

lemma fetch_do_sent:
  "fetch_do E via rq m = (r, m') \<Longrightarrow> request_ok direct rq \<Longrightarrow> via < 10 \<Longrightarrow> sent (10 - via) direct m m'"
proof (induction E via rq m arbitrary: r m' rule: fetch_do.induct)
  case (1 E via rq m)
  obtain h w where o: "fx_round E rq (fm_rest m) = (h, w)" by fastforce
  let ?m1 = "m\<lparr>fm_sent := fm_sent m @ [rq], fm_rest := w\<rparr>"
  have one: "sent (10 - via) direct m ?m1" using "1.prems" by (auto simp: sent_def)
  show ?case
  proof (cases "\<exists>u rq1. h = HopRedirect u \<and> redirected E (via + 1) rq u = Inr rq1")
    case True
    then obtain u rq1 where u: "h = HopRedirect u" "redirected E (via + 1) rq u = Inr rq1" by blast
    with "1.prems"(1) have go: "fetch_do E (via + 1) rq1 ?m1 = (r, m')" by (simp add: fetch_do.simps[of E via] o)
    from redirected_ok[OF u(2) "1.prems"(2)] have "request_ok direct rq1" "via + 1 < 10" by auto
    from "1.IH"[OF o[symmetric] refl u(1) u(2) go this] obtain rqs where
      "fm_sent m' = (fm_sent m @ [rq]) @ rqs" "length rqs \<le> 10 - (via + 1)" "list_all (request_ok direct) rqs"
      by (auto simp: sent_def)
    with "1.prems"(2) \<open>via + 1 < 10\<close> show ?thesis unfolding sent_def by (intro exI[of _ "rq # rqs"]) auto
  next
    case False
    with "1.prems"(1) have "m' = ?m1"
      by (auto simp: fetch_do.simps[of E via] o Let_def split: hop_answer.splits sum.splits)
    with one show ?thesis by simp
  qed
qed

lemma read_all_limit: "read_all b e limit = Inr got \<Longrightarrow> 0 \<le> limit \<Longrightarrow> int (length got) \<le> limit \<and> got = b"
  by (auto simp: read_all_def Let_def split: option.splits if_splits)

lemma readBody_limit: "readBody E a limit = Inr (b, h) \<Longrightarrow> 0 \<le> limit \<Longrightarrow> int (length b) \<le> limit"
  by (auto simp: readBody_def Let_def result_simps split: if_splits gunzip.splits dest: read_all_limit)

definition request_limit :: "fetch_request \<Rightarrow> int" where
  "request_limit r = (if fr_max_bytes r \<le> 0 then int MaxBytes else fr_max_bytes r)"

lemma Get_sent:
  assumes "Get E r m = (res, m')"
  shows "sent 10 (fr_allow_direct r) m m'"
proof (cases "CheckURL (\<lambda>s. map_option (\<lambda>u. (fu_scheme u, fu_hostname u)) (fx_parse E s)) (fr_url r)")
  case None
  from CheckURL_ok[OF None] obtain u where u: "fx_parse E (fr_url r) = Some u" "fu_scheme u = ''https''" "fu_hostname u \<noteq> []" by auto
  have ok: "request_ok (fr_allow_direct r) (first_request E r u)" using u by (simp add: request_ok_def first_request_def)
  obtain d m1 where d: "fetch_do E 0 (first_request E r u) m = (d, m1)" by fastforce
  with assms None u(1) have "m' = m1" by (auto simp: Get_def Let_def split: sum.splits if_splits option.splits prod.splits)
  with fetch_do_sent[OF d ok] show ?thesis by simp
next
  case (Some e)
  with assms show ?thesis by (auto simp: Get_def sent_def)
qed

lemma Get_body: "Get E r m = (Inr resp, m') \<Longrightarrow> int (length (fp_body resp)) \<le> request_limit r"
  by (auto simp: Get_def Let_def request_limit_def split: option.splits sum.splits prod.splits if_splits
      dest!: readBody_limit)

subsection \<open>Errors\<close>

definition fixed_errors :: "neterr list" where
  "fixed_errors = [ErrDownloadAddress, ErrDirectRequired, ErrUnavailable, errWithheld]"

lemma scrub_shown: "scrub e u \<in> set fixed_errors \<or> (\<not> leaks u (err_text (scrub e u)) \<and> knownCause (scrub e u))"
  by (auto simp: scrub_def Let_def fixed_errors_def)

subsection \<open>Links\<close>

definition server_ok :: "netaddr list \<Rightarrow> link \<Rightarrow> ip_addr \<Rightarrow> bool" where
  "server_ok own l s \<longleftrightarrow> unicast_addr (ip_a s) \<and> ip_a s \<noteq> tailscale_resolver \<and> ip_a s \<notin> set own
     \<and> (IsLinkLocalUnicast (ip_a s) \<longrightarrow> ip_zone s = ln_name l)"

lemma server_ok_dns [simp]: "server_ok own (l\<lparr>ln_dns := d\<rparr>) = server_ok own l"
  by (simp add: server_ok_def fun_eq_iff)

definition link_ok :: "netaddr list \<Rightarrow> link \<Rightarrow> bool" where
  "link_ok own l \<longleftrightarrow> ln_name l \<noteq> ''omihomo'' \<and> ln_name l \<noteq> ''tailscale0'' \<and> ln_addresses l \<noteq> []
     \<and> set (ln_addresses l) \<subseteq> set own \<and> length (ln_dns l) \<le> 8 \<and> distinct (ln_dns l) \<and> list_all (server_ok own l) (ln_dns l)"

definition own_addresses :: "link list \<Rightarrow> netaddr list" where
  "own_addresses ls = concat (map ln_addresses ls)"

definition links_ok :: "link list \<Rightarrow> bool" where
  "links_ok ls \<longleftrightarrow> length ls \<le> 8 \<and> list_all (link_ok (own_addresses ls)) ls"

lemma route_link_ok:
  "route_link H r = Some l \<Longrightarrow> ln_name l \<noteq> ''omihomo'' \<and> ln_name l \<noteq> ''tailscale0'' \<and> ln_addresses l \<noteq> [] \<and> ln_dns l = []"
  by (auto simp: route_link_def split: if_splits option.splits)

lemma find_links_ok:
  "length ls < 8 \<Longrightarrow> list_all (\<lambda>(_, l). ln_name l \<noteq> ''omihomo'' \<and> ln_name l \<noteq> ''tailscale0'' \<and> ln_addresses l \<noteq> [] \<and> ln_dns l = []) ls
    \<Longrightarrow> length (find_links H rs ls) \<le> 8 \<and> list_all (\<lambda>(_, l). ln_name l \<noteq> ''omihomo'' \<and> ln_name l \<noteq> ''tailscale0''
       \<and> ln_addresses l \<noteq> [] \<and> ln_dns l = []) (find_links H rs ls)"
  by (induction H rs ls rule: find_links.induct) (auto split: option.splits dest: route_link_ok)

lemma own_update: "k < length ls \<Longrightarrow> own_addresses (ls[k := (ls ! k)\<lparr>ln_dns := d\<rparr>]) = own_addresses ls"
  unfolding own_addresses_def by (simp add: map_update) (metis list_update_id map_update)

lemma own_addresses_in: "a \<in> set (own_addresses ls) \<longleftrightarrow> list_ex (\<lambda>l. a \<in> set (ln_addresses l)) ls"
  by (auto simp: own_addresses_def list_ex_iff)

text \<open>An IPv4 address has no zone: \<^verbatim>\<open>netip.ParseAddr\<close> reads none.\<close>

definition zone_ok :: "ip_addr \<Rightarrow> bool" where
  "zone_ok ip \<longleftrightarrow> (case ip_a ip of A4 _ \<Rightarrow> ip_zone ip = [] | A6 _ \<Rightarrow> True)"

lemma Unmap_resolver: "zone_ok ip \<Longrightarrow> ip_a (Unmap ip) = tailscale_resolver \<Longrightarrow> Unmap ip = no_zone tailscale_resolver"
  by (auto simp: zone_ok_def Unmap_def no_zone_def tailscale_resolver_def split: netaddr.splits if_splits)

lemma addServer_ok:
  assumes "links_ok ls" "k < length ls" "zone_ok ip"
  shows "links_ok (addServer k ip ls) \<and> length (addServer k ip ls) = length ls"
proof -
  let ?ip = "Unmap ip" and ?l = "ls ! k" and ?own = "own_addresses ls"
  let ?s = "if IsLinkLocalUnicast (ip_a ?ip) then ?ip\<lparr>ip_zone := ln_name ?l\<rparr> else ?ip"
  show ?thesis
  proof (cases "addServer k ip ls = ls")
    case False
    then have c: "unicast_addr (ip_a ?ip)" "?ip \<noteq> no_zone tailscale_resolver" "ip_a ?ip \<notin> set ?own"
      "length (ln_dns ?l) < 8" "?s \<notin> set (ln_dns ?l)"
      and e: "addServer k ip ls = ls[k := ?l\<lparr>ln_dns := ln_dns ?l @ [?s]\<rparr>]"
      by (auto simp: addServer_def Let_def own_addresses_in split: if_splits)
    have "ip_a ?ip \<noteq> tailscale_resolver" using c(2) Unmap_resolver[OF assms(3)] by blast
    then have s: "server_ok ?own ?l ?s" using c(1,3) by (simp add: server_ok_def)
    have "link_ok ?own ?l" using assms(1,2) by (simp add: links_ok_def list_all_length)
    then have "link_ok ?own (?l\<lparr>ln_dns := ln_dns ?l @ [?s]\<rparr>)" using c(4,5) s unfolding link_ok_def by simp
    then have "list_all (link_ok ?own) (addServer k ip ls)"
      using assms(1,2) unfolding e by (auto simp: links_ok_def list_all_length nth_list_update)
    then show ?thesis using assms(1) own_update[OF assms(2)] by (simp add: e links_ok_def)
  qed (use assms in simp)
qed

lemma position_of_less: "position_of i js = Some k \<Longrightarrow> k < length js"
  by (induction js arbitrary: k) (auto split: if_splits)

lemma resolved_records_ok:
  "links_ok ls \<Longrightarrow> length indices = length ls \<Longrightarrow> links_ok (resolved_records indices rs ls) \<and> length (resolved_records indices rs ls) = length ls"
proof (induction indices rs ls rule: resolved_records.induct)
  case (2 indices r rs ls)
  have add: "links_ok (addServer k (no_zone a) ls) \<and> length (addServer k (no_zone a) ls) = length ls"
    if "position_of i indices = Some k" for i k a
    using addServer_ok[OF "2.prems"(1), of k "no_zone a"] position_of_less[OF that] "2.prems"(2)
    by (simp add: zone_ok_def no_zone_def split: netaddr.splits)
  show ?case using 2 add by (auto split: option.splits prod.splits)
qed simp

lemma manager_servers_ok:
  assumes "links_ok ls" "k < length ls" "\<And>f ip. hn_parse_addr H f = Some ip \<Longrightarrow> zone_ok ip"
  shows "links_ok (manager_servers H k ls) \<and> length (manager_servers H k ls) = length ls"
proof -
  have "links_ok (fold (\<lambda>field ls. case hn_parse_addr H field of Some ip \<Rightarrow> addServer k ip ls | None \<Rightarrow> ls) fs ls)
      \<and> length (fold (\<lambda>field ls. case hn_parse_addr H field of Some ip \<Rightarrow> addServer k ip ls | None \<Rightarrow> ls) fs ls) = length ls" for fs
    using assms(1,2)
  proof (induction fs arbitrary: ls)
    case (Cons f fs)
    then show ?case
      using addServer_ok[OF Cons.prems] assms(3)[of f] by (cases "hn_parse_addr H f") simp_all
  qed simp
  then show ?thesis using assms(1) by (auto simp: manager_servers_def split: option.splits)
qed

lemma discover_ok:
  assumes "discover H = Inr ls" "\<And>f ip. hn_parse_addr H f = Some ip \<Longrightarrow> zone_ok ip"
  shows "ls \<noteq> [] \<and> length ls \<le> 8 \<and> (\<exists>own. list_all (\<lambda>l. link_ok own l \<and> ln_dns l \<noteq> []) ls)"
proof -
  obtain rs where rs: "hn_routes H = Some rs" using assms(1) by (auto simp: discover_def split: option.splits)
  define found where "found = find_links H (sort_key rt_priority rs) []"
  let ?ls0 = "map snd found"
  define ls1 where "ls1 = (case commandOutput (hn_busctl H) of None \<Rightarrow> ?ls0 | Some dat \<Rightarrow> resolvedLinks H dat (map fst found) ?ls0)"
  define ls2 where "ls2 = fold (manager_servers H) [0..<length ls1] ls1"
  have f: "length found \<le> 8" "list_all (\<lambda>(_, l). ln_name l \<noteq> ''omihomo'' \<and> ln_name l \<noteq> ''tailscale0'' \<and> ln_addresses l \<noteq> [] \<and> ln_dns l = []) found"
    using find_links_ok[of "[]" H "sort_key rt_priority rs"] by (auto simp: found_def)
  then have "list_all (link_ok (own_addresses ?ls0)) ?ls0"
    by (fastforce simp: list_all_iff link_ok_def own_addresses_def)
  with f(1) have l0: "links_ok ?ls0" by (simp add: links_ok_def)
  have l1: "links_ok ls1"
    using l0 resolved_records_ok[OF l0, of "map fst found"]
    by (auto simp: ls1_def resolvedLinks_def split: option.splits)
  have "links_ok (fold (manager_servers H) ks ls1) \<and> length (fold (manager_servers H) ks ls1) = length ls1"
    if "set ks \<subseteq> {..<length ls1}" for ks
    using that
  proof (induction ks rule: rev_induct)
    case (snoc k ks)
    then show ?case using manager_servers_ok[of "fold (manager_servers H) ks ls1" k H] assms(2) by simp
  qed (simp add: l1)
  from this[of "[0..<length ls1]"] have l2: "links_ok ls2" by (simp add: ls2_def atLeast0LessThan)
  have "ls = filter (\<lambda>l. ln_dns l \<noteq> []) ls2 \<and> ls \<noteq> []"
    using assms(1) by (auto simp: discover_def rs Let_def found_def[symmetric] ls1_def[symmetric] ls2_def[symmetric] split: if_splits)
  moreover have "list_all (link_ok (own_addresses ls2)) ls2" "length ls2 \<le> 8" using l2 by (auto simp: links_ok_def)
  ultimately show ?thesis
    by (auto simp: list_all_iff intro!: exI[of _ "own_addresses ls2"] order_trans[OF length_filter_le])
qed

subsection \<open>The claims\<close>


text \<open>C17: every connection of a download ends at a public address, whatever names resolve to, through the proxy or around it; and
  it goes around the proxy only when the owner lets this download, and only because the proxy could not be reached: no cause of
  its failure is a certificate, a TLS error or a name that does not exist.\<close>

theorem download_connection_public:
  assumes "download_dial C N allowed address w = (Inr c, w')"
  shows "CheckDownloadAddress (far_end c)
    \<and> (\<forall>u. c = AroundProxy u \<longrightarrow> allowed \<and> (\<exists>e w1. DialDownload C ''tcp'' address w = (Inl e, w1)
          \<and> flat_causes e \<noteq> [] \<and> (\<forall>x \<in> set (flat_causes e). connectivity x)))"
proof (intro conjI allI impI)
  show "CheckDownloadAddress (far_end c)" using download_dial_public[OF assms] by simp
next
  fix u assume "c = AroundProxy u"
  with download_dial_public(2)[OF assms, of u] obtain e w1 where a: "allowed" "DialDownload C ''tcp'' address w = (Inl e, w1)" "Recoverable e"
    by auto
  with Recoverable_causes[of e]
  show "allowed" "\<exists>e w1. DialDownload C ''tcp'' address w = (Inl e, w1) \<and> flat_causes e \<noteq> [] \<and> (\<forall>x \<in> set (flat_causes e). connectivity x)"
    by auto
qed

text \<open>A download makes at most ten requests whatever it is redirected to, each over https to a host, none naming the URL it
  was sent from, and all with the permission of that download alone.\<close>

theorem download_requests:
  "sent 10 (fr_allow_direct r) m (snd (Get E r m))"
  by (rule Get_sent) (rule prod.collapse[symmetric])



subsection \<open>A download around the proxy\<close>

definition up_addr :: ip_addr where "up_addr = no_zone (A4 (ipv4 93 184 216 34))"

definition up_net :: "unit net_env" where
  "up_net = \<lparr>ne_links = (\<lambda>w. (Inr [\<lparr>ln_name = ''eth0'', ln_addresses = [A4 (ipv4 192 168 1 7)], ln_dns = [no_zone (A4 (ipv4 192 168 1 1))]\<rparr>], w)),
     ne_connect = (\<lambda>_ w. (None, w)), ne_exchange = (\<lambda>_ _ w. (Inl (NErr MOther []), w)), ne_ctx = (\<lambda>_. None),
     ne_parse_addr = (\<lambda>_. Some up_addr), ne_split = (\<lambda>_. Inr (''example.com'', ''443'')), ne_fqdn = id, ne_query_id = (\<lambda>w. (0, w))\<rparr>"

definition up_core :: "unit dial_env" where
  "up_core = \<lparr>di_running = (\<lambda>_. False), di_remote = (\<lambda>_. Inl (NErr MOther [])), di_resolver = (\<lambda>_. None), di_ctx = (\<lambda>_. None),
     di_proxy = (\<lambda>_. False), di_exit = (\<lambda>_ _ w. (None, w))\<rparr>"

definition up_conn :: uplink_conn where
  "up_conn = \<lparr>cn_network = TCP, cn_device = ''eth0'', cn_source = no_zone (A4 (ipv4 192 168 1 7)), cn_remote = up_addr, cn_port = ''443''\<rparr>"

theorem download_connection_public_witness:
  "download_dial up_core up_net True ''example.com:443'' () = (Inr (AroundProxy up_conn), ()) \<and> CheckDownloadAddress (cn_remote up_conn)"
proof -
  have c: "CheckDownloadAddress up_addr" by (simp add: up_addr_def CheckDownloadAddress_public public_addr_def special4_def Unmap_def no_zone_def unmap_addr_def ipv4_def)
  have s: "\<not> IsLinkLocalUnicast (A4 (ipv4 192 168 1 7))" "\<not> IsLinkLocalUnicast (ip_a up_addr)" "Addr_Is4 (ip_a up_addr)"
    by (simp_all add: IsLinkLocalUnicast_def unmap_addr_def ipv4_def up_addr_def no_zone_def)
  have d: "download_dial up_core up_net True ''example.com:443'' () = (Inr (AroundProxy up_conn), ())"
    using c s by (simp add: download_dial_def routed_dial_def DialDownload_def up_core_def Recoverable.simps connectivity_def err_is_def
        tls_marks_def first_lookup_def DialContext_def up_net_def lookup_def dial_def dial_source_def up_conn_def no_zone_def)
  with download_connection_public[OF d] show ?thesis by simp
qed

definition up_host :: host_network where
  "up_host = \<lparr>hn_routes = Some [\<lparr>rt_ones = None, rt_unicast = True, rt_link = 2, rt_priority = 100\<rparr>],
     hn_link = (\<lambda>_. Some \<lparr>li_type = ''device'', li_up = True, li_loopback = False, li_name = ''eth0'', li_addresses = Some [([192, 168, 1, 7], True)]\<rparr>),
     hn_busctl = None, hn_resolved = (\<lambda>_. None), hn_nmcli = (\<lambda>_. Some ''192.168.1.1''),
     hn_parse_addr = (\<lambda>_. Some (no_zone (A4 (ipv4 192 168 1 1))))\<rparr>"


end
