(* ===== verification/System.thy ===== *)
theory System
  imports Subs_Laws
begin

text \<open>
  The daemon as a whole: the calls of its clients, the refresh loop and the passing of time as one step
  relation. A call that holds \<^verbatim>\<open>opMu\<close> throughout is one step. A call that downloads holds \<^verbatim>\<open>refreshMu\<close>, so at most one
  is between its two steps at a time, and any other call may come there: \<open>sy_flight\<close> is that call with what it
  has downloaded. The identifier of a new subscription, 128 random bits, is taken to be new, and a step
  never ends before it began.
\<close>

subsection \<open>Starting up\<close>

text \<open>\<^verbatim>\<open>New\<close>: the state the daemon starts in, from what the store holds (\<open>store_settings\<close>, \<open>store_subs\<close>) and whether an
  owner is recorded.\<close>

definition empty_hub :: hub where
  "empty_hub = \<lparr>hb_sessions = [], hb_lastPushed = [], hb_lastActive = [], hb_lastStarted = 0\<rparr>"

definition load_active :: "'w env \<Rightarrow> 'w \<Rightarrow> server \<Rightarrow> server" where
  "load_active E w s =
     (case activeSub s of
        None \<Rightarrow> s
      | Some sub \<Rightarrow>
          (case loadProfile E sub w of
             Inl err \<Rightarrow> s\<lparr>sv_detail := (''the active subscription could not be read: '', []) # err, sv_profile := empty_profile\<rparr>
           | Inr p \<Rightarrow> s\<lparr>sv_profile := p\<rparr>))"

definition New :: "'w env \<Rightarrow> bool \<Rightarrow> (msg, state_settings) res \<Rightarrow> (msg, subscriptions) res \<Rightarrow> 'w \<Rightarrow> (msg, server) res \<times> 'w" where
  "New E owned store_settings store_subs w =
     (case store_settings of
        Inl err \<Rightarrow> (Inl err, w)
      | Inr settings \<Rightarrow>
          (case store_subs of
             Inl err \<Rightarrow> (Inl err, w)
           | Inr subs \<Rightarrow>
               (case (if owned then syncHost E (tailscale_on settings) w else (None, w)) of
                  (Some err, w1) \<Rightarrow> (Inl ((''restore Tailscale integration: %w'', []) # err), w1)
                | (None, w1) \<Rightarrow>
                    (Inr (load_active E w1 \<lparr>sv_state = StateStopped, sv_detail = [], sv_startedAt = 0, sv_settings = settings,
                       sv_subs = subs, sv_profile = empty_profile, sv_restorePending = st_running settings, sv_addAsked = [],
                       sv_downloads = [], sv_hub = empty_hub\<rparr>), w1))))"

subsection \<open>Steps\<close>

datatype flight = Adding string bool fetched | Refreshing subscription "(downloadError, fetched) res"

record 'w sys =
  sy_server :: server
  sy_world :: 'w
  sy_flight :: "flight option"

abbreviation at :: "server \<Rightarrow> 'w \<Rightarrow> flight option \<Rightarrow> 'w sys" where
  "at s w f \<equiv> \<lparr>sy_server = s, sy_world = w, sy_flight = f\<rparr>"

inductive sys_step :: "'w env \<Rightarrow> ('w \<Rightarrow> core_config option) \<Rightarrow> 'w sys \<Rightarrow> 'w sys \<Rightarrow> bool"
  for E :: "'w env" and runs :: "'w \<Rightarrow> core_config option"
where
  started: "start E s w = (r, s', w') \<Longrightarrow> sys_step E runs (at s w f) (at s' w' f)"
| stopped: "stop E s w = (r, s', w') \<Longrightarrow> sys_step E runs (at s w f) (at s' w' f)"
| applied: "apply_settings E args s w = (r, s', w') \<Longrightarrow> sys_step E runs (at s w f) (at s' w' f)"
| selected: "selectProxy E g p s w = (r, s', w') \<Longrightarrow> sys_step E runs (at s w f) (at s' w' f)"
| activated: "activateSubscription E name s w = (r, s', w') \<Longrightarrow> sys_step E runs (at s w f) (at s' w' f)"
| removed: "remove_found E sub s w = (r, s', w') \<Longrightarrow> sys_step E runs (at s w f) (at s' w' f)"
| decided: "decideDownload E i allow s w = (r, d, s') \<Longrightarrow> sys_step E runs (at s w f) (at s' w f)"
| watched: "subscribe E n streams on w s = (r, s') \<Longrightarrow> sys_step E runs (at s w f) (at s' w f)"
| restored: "retryRestore E s w = (s', w') \<Longrightarrow> sys_step E runs (at s w f) (at s' w' f)"
| geodata: "refreshGeodata E s w = (s', w') \<Longrightarrow> sys_step E runs (at s w f) (at s' w' f)"
| add_refused: "add_ask E url s w = (Inl err, s', w') \<Longrightarrow> sys_step E runs (at s w None) (at s' w' None)"
| add_asked: "add_ask E url s w = (Inr (initial, dl), s', w') \<Longrightarrow>
    sys_step E runs (at s w None) (at s' w' (Some (Adding url initial dl)))"
| add_finished: "add_finish (ctx_of E initial) url dl s w = (r, s', w') \<Longrightarrow>
    fst (e_new_id E w) \<notin> sb_id ` set (su_list (sv_subs s)) \<Longrightarrow> fst (e_new_id E w) \<noteq> [] \<Longrightarrow>
    sys_step E runs (at s w (Some (Adding url initial dl))) (at s' w' None)"
| refresh_answered: "refresh_ask E i manual s w = (Answered r, s', w') \<Longrightarrow> sys_step E runs (at s w None) (at s' w' None)"
| refresh_asked: "refresh_ask E i manual s w = (Asked sub result, s', w') \<Longrightarrow>
    sys_step E runs (at s w None) (at s' w' (Some (Refreshing sub result)))"
| refresh_finished: "refresh_finish E sub result s w = (r, s', w') \<Longrightarrow>
    sys_step E runs (at s w (Some (Refreshing sub result))) (at s' w' None)"
| elapsed: "runs w' = runs w \<Longrightarrow> sys_step E runs (at s w f) (at s w' f)"

inductive_cases sys_stepE: "sys_step E runs c c'"

inductive reachable :: "'w env \<Rightarrow> ('w \<Rightarrow> core_config option) \<Rightarrow> 'w sys \<Rightarrow> bool"
  for E :: "'w env" and runs :: "'w \<Rightarrow> core_config option"
where
  boot: "New E owned (Inr settings) (Inr subs) w0 = (Inr s, w) \<Longrightarrow> runs w0 = None \<Longrightarrow> subs_ok subs \<Longrightarrow>
    list_all times_ok (su_list subs) \<Longrightarrow> 0 \<le> e_now E w \<Longrightarrow> reachable E runs (at s w None)"
| step: "reachable E runs c \<Longrightarrow> sys_step E runs c c' \<Longrightarrow> e_now E (sy_world c) \<le> e_now E (sy_world c') \<Longrightarrow> reachable E runs c'"

subsection \<open>The invariant\<close>

text \<open>What the call in flight relies on: the URL it adds is still new, and the hold of the record it refreshes is over.\<close>

fun flight_ok :: "int \<Rightarrow> subscription list \<Rightarrow> flight option \<Rightarrow> bool" where
  "flight_ok now subs None = True"
| "flight_ok now subs (Some (Adding url initial dl)) = (url \<notin> sb_url ` set subs)"
| "flight_ok now subs (Some (Refreshing sub result)) =
     (times_ok sub \<and> list_all (\<lambda>x. sb_id x = sb_id sub \<longrightarrow> sb_held_until x \<le> ms now) subs)"

definition sys_ok :: "'w env \<Rightarrow> ('w \<Rightarrow> core_config option) \<Rightarrow> 'w sys \<Rightarrow> bool" where
  "sys_ok E runs c \<longleftrightarrow>
     in_step runs (sy_server c) (sy_world c) \<and> subs_ok (sv_subs (sy_server c))
     \<and> list_all times_ok (su_list (sv_subs (sy_server c)))
     \<and> flight_ok (e_now E (sy_world c)) (su_list (sv_subs (sy_server c))) (sy_flight c) \<and> 0 \<le> e_now E (sy_world c)"

lemma flight_ok_mono:
  assumes "flight_ok now subs f" "set subs' \<subseteq> set subs" "now \<le> now'"
  shows "flight_ok now' subs' f"
  using assms(1)
proof (cases rule: flight_ok.cases[of "(now, subs, f)"])
  case (3 now'' subs'' sub result)
  then have "\<forall>x \<in> set subs'. sb_id x = sb_id sub \<longrightarrow> sb_held_until x \<le> ms now'"
    using assms ms_mono[OF assms(3)] by (auto simp: list_all_iff intro: order_trans)
  then show ?thesis using assms(1) 3 by (simp add: list_all_iff)
qed (use assms in auto)

text \<open>The steps that add no record.\<close>

lemma sys_ok_shrink:
  assumes "sys_ok E runs (at s w f)" "in_step runs s' w'" "subs_ok (sv_subs s')"
    "set (su_list (sv_subs s')) \<subseteq> set (su_list (sv_subs s))" "e_now E w \<le> e_now E w'"
  shows "sys_ok E runs (at s' w' f)"
proof -
  have "flight_ok (e_now E w') (su_list (sv_subs s')) f"
    using assms(1) by (intro flight_ok_mono[OF _ assms(4,5)]) (simp add: sys_ok_def)
  moreover have "list_all times_ok (su_list (sv_subs s'))" using assms(1,4) by (auto simp: sys_ok_def list_all_iff)
  ultimately show ?thesis using assms by (auto simp: sys_ok_def)
qed

lemma sys_ok_same_subs:
  "sys_ok E runs (at s w f) \<Longrightarrow> in_step runs s' w' \<Longrightarrow> sv_subs s' = sv_subs s \<Longrightarrow> e_now E w \<le> e_now E w' \<Longrightarrow>
     sys_ok E runs (at s' w' f)"
  by (rule sys_ok_shrink) (auto simp: sys_ok_def)

lemma sys_ok_no_flight: "sys_ok E runs (at s w f) \<Longrightarrow> sys_ok E runs (at s w None)"
  by (simp add: sys_ok_def)

lemma subscribe_quiet: "subscribe E n streams on w s = (r, s') \<Longrightarrow> quiet s s'"
proof -
  assume run: "subscribe E n streams on w s = (r, s')"
  have pub: "quiet s (fold (\<lambda>x. publishLocked E x (Some n) w) xs s1)" if "quiet s s1" for xs s1
    by (rule fold_invariant[of "quiet s"]) (rule that, blast intro: quiet_trans publishLocked_quiet)
  show ?thesis using run unfolding subscribe_def Let_def
    by (auto split: if_splits option.splits intro!: pub quiet_hub)
qed

lemma decideDownload_quiet: "decideDownload E i allow s w = (r, d, s') \<Longrightarrow> quiet s s'"
  by (auto simp: decideDownload_def publishDownloads_def split: option.splits intro: quiet_trans quiet_hub publishLocked_quiet)

text \<open>A request goes out only when the hold of its record is over.\<close>

lemma refresh_ask_held:
  assumes "refresh_ask E i manual s w = (Asked sub result, s', w')" "list_all times_ok (su_list (sv_subs s))" "0 \<le> e_now E w"
  shows "sub \<in> set (su_list (sv_subs s)) \<and> sb_id sub = i \<and> sb_held_until sub \<le> ms (e_now E w)
    \<and> (\<not> manual \<longrightarrow> nextUpdate sub \<le> ms (e_now E w)) \<and> (manual \<longrightarrow> mayAsk sub (e_now E w) = None)"
proof -
  have sub: "sub_by_id i (su_list (sv_subs s)) = Some sub" and may: "manual \<Longrightarrow> mayAsk sub (e_now E w) = None"
    and due: "\<not> manual \<Longrightarrow> nextUpdate sub \<le> ms (e_now E w)"
    using assms(1) by (auto simp: refresh_ask_def split: option.splits if_splits prod.splits)
  have in_l: "sub \<in> set (su_list (sv_subs s))" "sb_id sub = i" using sub by (auto simp: sub_by_id_def find_Some_iff)
  then have t: "sb_held_until sub \<le> sb_retry_at sub" using assms(2) by (simp add: list_all_iff times_ok_def)
  have now: "0 \<le> ms (e_now E w)" using ms_mono[OF assms(3)] by (simp add: ms_def)
  have "sb_held_until sub \<le> ms (e_now E w)"
  proof (cases manual)
    case True
    then show ?thesis using may by (auto simp: mayAsk_def split: if_splits)
  next
    case False
    then show ?thesis using due t now by (auto simp: nextUpdate_def split: if_splits)
  qed
  then show ?thesis using in_l may due by blast
qed

lemma subs_ok_same_id: "subs_ok su \<Longrightarrow> x \<in> set (su_list su) \<Longrightarrow> y \<in> set (su_list su) \<Longrightarrow> sb_id x = sb_id y \<Longrightarrow> x = y"
  by (auto simp: subs_ok_def distinct_map inj_on_def)

context daemon_env
begin

lemma refreshGeodata_quiet: "refreshGeodata E s w = (s', w') \<Longrightarrow> quiet s s' \<and> runs w' = runs w"
  unfolding refreshGeodata_def by (rule refresh_files_quiet)

lemma boot_ok:
  assumes "New E owned (Inr settings) (Inr subs) w0 = (Inr s, w)" "runs w0 = None" "subs_ok subs"
    "list_all times_ok (su_list subs)" "0 \<le> e_now E w"
  shows "sys_ok E runs (at s w None)"
proof -
  have la: "sv_subs (load_active E w x) = sv_subs x" "sv_state (load_active E w x) = sv_state x" for x
    by (simp_all add: load_active_def split: option.split sum.split)
  have "sv_subs s = subs" "sv_state s = StateStopped"
    using assms(1) la by (auto simp: New_def split: if_splits prod.splits option.splits)
  moreover have "runs w = None"
    using assms(1,2) syncHost_keeps by (auto simp: New_def split: if_splits prod.splits option.splits)
  ultimately show ?thesis using assms by (simp add: sys_ok_def in_step_def running_def)
qed

lemma add_finished_ok:
  assumes run: "add_finish (ctx_of E initial) url dl s w = (r, s', w')"
    and fresh: "fst (e_new_id E w) \<notin> sb_id ` set (su_list (sv_subs s))" "fst (e_new_id E w) \<noteq> []"
    and ok: "sys_ok E runs (at s w (Some (Adding url initial dl)))" and now: "e_now E w \<le> e_now E w'"
  shows "sys_ok E runs (at s' w' None)"
proof -
  have same: "e_new_id (ctx_of E initial) = e_new_id E" "e_now (ctx_of E initial) = e_now E" by (simp_all add: ctx_of_def)
  define sub where "sub = new_sub (ctx_of E initial) (fst (e_new_id E w)) url dl (e_now E w) (su_list (sv_subs s))"
  have st: "in_step runs s w" "subs_ok (sv_subs s)" "list_all times_ok (su_list (sv_subs s))"
    "url \<notin> sb_url ` set (su_list (sv_subs s))" "0 \<le> e_now E w" using ok by (simp_all add: sys_ok_def)
  have f: "in_step runs s' w'" "sv_subs s' = sv_subs s \<or> sv_subs s' = with_sub sub (sv_subs s)"
    using daemon_env.add_finish_in_step[OF ctx_env run st(1)] by (simp_all add: same sub_def)
  have "subs_ok (with_sub sub (sv_subs s))"
    by (rule subs_ok_with[OF st(2)]) (use fresh st(4) uniqueName_fresh in \<open>auto simp: sub_def\<close>)
  moreover have "list_all times_ok (su_list (with_sub sub (sv_subs s)))"
    using st(3) new_sub_times by (simp add: with_sub_def sub_def)
  ultimately show ?thesis using f st now by (auto simp: sys_ok_def)
qed

lemma refresh_finished_ok:
  assumes run: "refresh_finish E sub result s w = (r, s', w')"
    and ok: "sys_ok E runs (at s w (Some (Refreshing sub result)))" and now: "e_now E w \<le> e_now E w'"
  shows "sys_ok E runs (at s' w' None)"
proof -
  have st: "in_step runs s w" "subs_ok (sv_subs s)" "list_all times_ok (su_list (sv_subs s))" "times_ok sub"
    "list_all (\<lambda>x. sb_id x = sb_id sub \<longrightarrow> sb_held_until x \<le> ms (e_now E w)) (su_list (sv_subs s))" "0 \<le> e_now E w"
    using ok by (simp_all add: sys_ok_def)
  obtain edit where f: "in_step runs s' w'" "edited (sb_id sub) edit (sv_subs s) (sv_subs s')" "refresh_edit E sub (e_now E w) edit"
    using refresh_finish_in_step[OF run st(1)] by blast
  show ?thesis
  proof (cases "sv_subs s' = sv_subs s")
    case True
    then show ?thesis using f st now by (simp add: sys_ok_def)
  next
    case False
    then obtain l where l: "edit_first (sb_id sub) edit (su_list (sv_subs s)) = Some l" "sv_subs s' = (sv_subs s)\<lparr>su_list := l\<rparr>"
      using f(2) by (auto simp: edited_def)
    have "times_ok x" if "x \<in> set l" for x
      using edit_first_set[OF l(1) that] st refresh_edit_times[OF f(3) st(4)] by (auto simp: list_all_iff)
    moreover have "subs_ok (sv_subs s')" using subs_ok_edit[OF st(2) l(1) refresh_edit_identity[OF f(3)]] l(2) by simp
    ultimately show ?thesis using f l st now by (simp add: sys_ok_def list_all_iff)
  qed
qed

lemma step_ok:
  assumes "sys_step E runs c c'" "sys_ok E runs c" "e_now E (sy_world c) \<le> e_now E (sy_world c')"
  shows "sys_ok E runs c'"
  using assms
proof (cases rule: sys_step.cases)
  case (started s w r s' w' f)
  then show ?thesis using assms(2,3) start_in_step[of s w r s' w'] sys_ok_same_subs[of E runs s w f s' w'] by (simp add: sys_ok_def)
next
  case (stopped s w r s' w' f)
  then show ?thesis using assms(2,3) stop_in_step[of s w r s' w'] sys_ok_same_subs[of E runs s w f s' w'] by simp
next
  case (applied args s w r s' w' f)
  then show ?thesis using assms(2,3) apply_settings_in_step[of args s w r s' w'] sys_ok_same_subs[of E runs s w f s' w'] by (simp add: sys_ok_def)
next
  case (selected g p s w r s' w' f)
  then show ?thesis using assms(2,3) selectProxy_in_step[of g p s w r s' w'] sys_ok_same_subs[of E runs s w f s' w'] by (simp add: sys_ok_def)
next
  case (activated name s w r s' w' f)
  have ok: "sys_ok E runs (at s w f)" using assms(2) activated by simp
  then have a: "in_step runs s' w'" "sv_subs s' = sv_subs s \<or> (\<exists>sub \<in> set (su_list (sv_subs s)). sv_subs s' = (sv_subs s)\<lparr>su_active := sb_id sub\<rparr>)"
    using activateSubscription_in_step[OF activated(3)] by (simp_all add: sys_ok_def)
  then have "subs_ok (sv_subs s')" "set (su_list (sv_subs s')) \<subseteq> set (su_list (sv_subs s))"
    using ok by (auto simp: sys_ok_def subs_ok_def)
  then show ?thesis using sys_ok_shrink[OF ok a(1)] assms(3) activated by simp
next
  case (removed sub s w r s' w' f)
  have ok: "sys_ok E runs (at s w f)" using assms(2) removed by simp
  then have a: "in_step runs s' w'" "sv_subs s' = sv_subs s \<or> sv_subs s' = \<lparr>su_active = (if su_active (sv_subs s) = sb_id sub then [] else su_active (sv_subs s)),
         su_list = filter (\<lambda>x. sb_id x \<noteq> sb_id sub) (su_list (sv_subs s))\<rparr>"
    using remove_found_in_step[OF removed(3)] by (simp_all add: sys_ok_def)
  then have "subs_ok (sv_subs s')" "set (su_list (sv_subs s')) \<subseteq> set (su_list (sv_subs s))"
    using ok subs_ok_remove[of "sv_subs s" "sb_id sub"] by (auto simp: sys_ok_def)
  then show ?thesis using sys_ok_shrink[OF ok a(1)] assms(3) removed by simp
next
  case (decided i allow s w r d s' f)
  note q = decideDownload_quiet[OF decided(3)]
  show ?thesis using assms(2) decided quiet_sel(5)[OF q] in_step_quiet[OF q refl] by (simp add: sys_ok_def)
next
  case (watched n streams on w s r s' f)
  note q = subscribe_quiet[OF watched(3)]
  show ?thesis using assms(2) watched quiet_sel(5)[OF q] in_step_quiet[OF q refl] by (simp add: sys_ok_def)
next
  case (restored s w s' w' f)
  then show ?thesis using assms(2,3) retryRestore_in_step[of s w s' w'] sys_ok_same_subs[of E runs s w f s' w'] by (simp add: sys_ok_def)
next
  case (geodata s w s' w' f)
  have q: "quiet s s'" "runs w' = runs w" using refreshGeodata_quiet[OF geodata(3)] by simp_all
  then show ?thesis using assms(2,3) geodata quiet_sel(5)[OF q(1)] in_step_quiet[OF q] sys_ok_same_subs[of E runs s w f s' w'] by (simp add: sys_ok_def)
next
  case (add_refused url s w err s' w')
  then show ?thesis using assms(2,3) add_ask_quiet[OF add_refused(3)] sys_ok_same_subs[of E runs s w None s' w'] by (simp add: sys_ok_def)
next
  case (add_asked url s w initial dl s' w')
  then show ?thesis using assms(2,3) add_ask_quiet[OF add_asked(3)] sys_ok_same_subs[of E runs s w None s' w'] by (simp add: sys_ok_def)
next
  case (add_finished initial url dl s w r s' w')
  then show ?thesis using add_finished_ok[OF add_finished(3-5)] assms(2,3) by simp
next
  case (refresh_answered i manual s w r s' w')
  have q: "quiet s s'" "runs w' = runs w" using refresh_ask_quiet[OF refresh_answered(3)] by simp_all
  then show ?thesis using assms(2,3) refresh_answered quiet_sel(5)[OF q(1)] in_step_quiet[OF q] sys_ok_same_subs[of E runs s w None s' w'] by (simp add: sys_ok_def)
next
  case (refresh_asked i manual s w sub result s' w')
  have q: "quiet s s'" "runs w' = runs w" using refresh_ask_quiet[OF refresh_asked(3)] by simp_all
  have ok: "sys_ok E runs (at s w None)" using assms(2) refresh_asked by simp
  then have t: "list_all times_ok (su_list (sv_subs s))" "0 \<le> e_now E w" "subs_ok (sv_subs s)" by (simp_all add: sys_ok_def)
  note h = refresh_ask_held[OF refresh_asked(3) t(1,2)]
  have "flight_ok (e_now E w) (su_list (sv_subs s)) (Some (Refreshing sub result))"
    using h t subs_ok_same_id[OF t(3)] by (auto simp: list_all_iff)
  then have "sys_ok E runs (at s w (Some (Refreshing sub result)))" using ok by (simp add: sys_ok_def)
  then show ?thesis using assms(3) refresh_asked quiet_sel(5)[OF q(1)] in_step_quiet[OF q]
    sys_ok_same_subs[of E runs s w "Some (Refreshing sub result)" s' w'] by (simp add: sys_ok_def)
next
  case (refresh_finished sub result s w r s' w')
  then show ?thesis using refresh_finished_ok[OF refresh_finished(3)] assms(2,3) by simp
next
  case (elapsed w' w s f)
  then show ?thesis using assms(2,3) sys_ok_same_subs[of E runs s w f s w'] by (simp add: sys_ok_def in_step_def)
qed

lemma reachable_ok: "reachable E runs c \<Longrightarrow> sys_ok E runs c"
  by (induction rule: reachable.induct) (blast intro: boot_ok step_ok)+

end

end
