(* ===== verification/Daemon_Props.thy ===== *)
theory Daemon_Props
  imports System
begin

text \<open>
  Further laws of the daemon's calls: what one subscription may download, what a failed refresh leaves, when a
  download may go around the proxy, and what waits for a client.
\<close>

subsection \<open>Downloads\<close>

text \<open>\<^verbatim>\<open>fetch.Get\<close> returns no body over the limit of its request (\<open>read_limited_spec\<close>).\<close>

definition fetch_bounded :: "'w env \<Rightarrow> bool" where
  "fetch_bounded E \<longleftrightarrow> (\<forall>rq w resp w'. 0 < rq_max_bytes rq \<longrightarrow> e_fetch E rq w = (Inr resp, w') \<longrightarrow> int (length (rp_body resp)) \<le> rq_max_bytes rq)"

lemma getDownload_bounded:
  assumes "fetch_bounded E" "0 < rq_max_bytes rq" "getDownload E label rq s w = (Inr resp, s', w')"
  shows "int (length (rp_body resp)) \<le> rq_max_bytes rq"
proof -
  have "\<exists>rq' w1. rq_max_bytes rq' = rq_max_bytes rq \<and> e_fetch E rq' w1 = (Inr resp, w')"
    using assms(3) unfolding getDownload_def Let_def
    by (auto split: prod.splits sum.splits if_splits approval.splits intro: exI[of _ "rq\<lparr>rq_allow_direct := e_initial E\<rparr>"])
      (metis (no_types, lifting) request.select_convs(2) request.surjective request.update_convs(3))+
  then show ?thesis using assms(1,2) unfolding fetch_bounded_def by metis
qed

definition bytes_total :: "string strmap \<Rightarrow> int" where
  "bytes_total m = (\<Sum>(k, b)\<leftarrow>m. int (length b))"

lemma total_simps [simp]: "bytes_total [] = 0" "bytes_total ((k, b) # m) = int (length b) + bytes_total m"
  by (simp_all add: bytes_total_def)

lemma total_delete: "bytes_total (delete_key k m) \<le> bytes_total m"
  by (induction m) (auto simp: delete_key_def bytes_total_def)

lemma fetch_providers_total:
  assumes "fetch_bounded E"
  shows "0 \<le> left \<Longrightarrow> fetch_providers E name left ps got s w = (Inr bodies, s', w') \<Longrightarrow>
    bytes_total bodies \<le> bytes_total got + left \<and> length bodies \<le> length got + length ps"
proof (induction ps arbitrary: left got s w)
  case (Cons p ps)
  define rq where "rq = \<lparr>rq_url = dl_url p, rq_max_bytes = left, rq_allow_direct = False\<rparr>"
  define key where "key = Key (dl_kind p) (dl_name p)"
  obtain r1 s1 w1 where g: "getDownload E (''Provider '' @ dl_name p @ '' for '' @ name) rq s w = (r1, s1, w1)"
    by (metis prod_cases3)
  have pos: "0 < left" using Cons.prems by (auto split: if_splits)
  then obtain rp where r1: "r1 = Inr rp" using Cons.prems(2) g by (cases r1) (auto simp: rq_def)
  have len: "int (length (rp_body rp)) \<le> left" using getDownload_bounded[OF assms _ g[unfolded r1]] pos by (simp add: rq_def)
  have "fetch_providers E name (left - int (length (rp_body rp))) ps ((key, rp_body rp) # delete_key key got) s1 w1 = (Inr bodies, s', w')"
    using Cons.prems(2) pos g r1 by (simp add: rq_def key_def Let_def)
  from Cons.IH[OF _ this] len have "bytes_total bodies \<le> bytes_total (delete_key key got) + left"
    "length bodies \<le> Suc (length (delete_key key got) + length ps)" by simp_all
  moreover have "length (delete_key key got) \<le> length got" by (simp add: delete_key_def)
  ultimately show ?case using total_delete[of key got] by simp
qed auto

lemma download_total:
  assumes "fetch_bounded E" "0 < e_download_limit E" "download E name url s w = (Inr dl, s', w')"
  shows "int (length (sn_body (dn_snap dl))) + bytes_total (sn_providers (dn_snap dl)) \<le> e_download_limit E
    \<and> length (sn_providers (dn_snap dl)) \<le> maxProviders"
proof -
  define rq where "rq = \<lparr>rq_url = url, rq_max_bytes = e_download_limit E, rq_allow_direct = False\<rparr>"
  obtain r1 s1 w1 where g: "getDownload E (''Subscription '' @ name) rq s w = (r1, s1, w1)" by (metis prod_cases3)
  then obtain resp where r1: "r1 = Inr resp" using assms(3) by (cases r1) (auto simp: download_def rq_def)
  define left where "left = e_download_limit E - int (length (rp_body resp))"
  have "int (length (rp_body resp)) \<le> e_download_limit E" using getDownload_bounded[OF assms(1) _ g[unfolded r1]] assms(2) by (simp add: rq_def)
  then have left: "0 \<le> left" by (simp add: left_def)
  obtain doc bodies s2 w2 where f: "fetch_providers E name left (Downloads (e_lib E) doc) [] s1 w1 = (Inr bodies, s2, w2)"
    "length (Downloads (e_lib E) doc) \<le> maxProviders" "dn_snap dl = \<lparr>sn_body = rp_body resp, sn_providers = bodies\<rparr>"
    using assms(3) g r1 unfolding download_def rq_def[symmetric] Let_def left_def
    by (auto split: sum.splits if_splits prod.splits)
  then show ?thesis using fetch_providers_total[OF assms(1) left f(1)] by (simp add: left_def)
qed

text \<open>A request that may go around the proxy is made only for a first subscription or after the owner's consent: without
  both, it does not matter what such a request would return.\<close>

definition direct_fetch :: "(request \<Rightarrow> 'w \<Rightarrow> (fetch_err, response) res \<times> 'w) \<Rightarrow> 'w env \<Rightarrow> 'w env" where
  "direct_fetch X E = E\<lparr>e_fetch := (\<lambda>rq w. if rq_allow_direct rq then X rq w else e_fetch E rq w)\<rparr>"

lemma direct_publish [simp]: "publishLocked (direct_fetch X E) = publishLocked E"
proof -
  have "snapshot_event (direct_fetch X E) = snapshot_event E" "eventLine (direct_fetch X E) = eventLine E"
    by (intro ext, simp add: snapshot_event_def status_of_def eventLine_def direct_fetch_def)+
  then show ?thesis by (intro ext) (simp only: publishLocked_def)
qed

lemma direct_publishDownloads [simp]: "publishDownloads (direct_fetch X E) = publishDownloads E"
  by (simp add: fun_eq_iff publishDownloads_def)

lemma getDownload_consent:
  assumes "\<not> e_initial E" "\<And>pd w. fst (e_approval E pd w) \<noteq> Approved"
  shows "getDownload (direct_fetch X E) label rq s w = getDownload E label rq s w"
proof -
  have same: "e_fetch (direct_fetch X E) (rq\<lparr>rq_allow_direct := False\<rparr>) w = e_fetch E (rq\<lparr>rq_allow_direct := False\<rparr>) w"
    "e_initial (direct_fetch X E) = False" "e_initial E = False" "e_new_id (direct_fetch X E) = e_new_id E"
    "e_approval (direct_fetch X E) = e_approval E"
    using assms(1) by (simp_all add: direct_fetch_def)
  have appr: "e_approval E pd w' = (Approved, w'') \<Longrightarrow> False" for pd w' w'' using assms(2)[of pd w'] by simp
  show ?thesis unfolding getDownload_def Let_def same direct_publishDownloads
    by (auto split: prod.split sum.split approval.split dest: appr)
qed

subsection \<open>A failed refresh\<close>

text \<open>The part of a record that says what was accepted.\<close>

definition content :: "subscription \<Rightarrow> subscription" where
  "content sub = sub\<lparr>sb_last_attempt := 0, sb_retry_at := 0, sb_held_until := 0, sb_last_error := []\<rparr>"

lemma content_failed [simp]: "content (failed_edit now wait answered why sub) = content sub"
  by (simp add: content_def failed_edit_def Let_def)

lemma edit_first_content:
  "edit_first i edit l = Some l' \<Longrightarrow> (\<And>x. content (edit x) = content x) \<Longrightarrow> map content l' = map content l"
  by (induction l arbitrary: l') (auto split: if_splits)

context daemon_env
begin

lemma failRefresh_content:
  "failRefresh E sub now interval answered after why s w = (s', w') \<Longrightarrow>
     map content (su_list (sv_subs s')) = map content (su_list (sv_subs s)) \<and> su_active (sv_subs s') = su_active (sv_subs s)"
  using failRefresh_in_step[of sub now interval answered after why s w s' w'] edit_first_content
  by (fastforce simp: edited_def)

lemma refresh_failed_content:
  assumes run: "refresh_finish E sub result s w = (Inl e, s', w')" and ok: "in_step runs s w"
  shows "map content (su_list (sv_subs s')) = map content (su_list (sv_subs s)) \<and> su_active (sv_subs s') = su_active (sv_subs s)"
proof (cases result)
  case (Inl derr)
  then show ?thesis using run by (auto simp: refresh_finish_def Let_def split: prod.splits dest!: failRefresh_content)
next
  case (Inr dl)
  define i where "i = sb_id sub"
  define active where "active = (su_active (sv_subs s) = i)"
  define p where "p = dn_profile dl"
  obtain r2 s2 w2 where a: "acceptContent E (sv_settings s) p active s w = (r2, s2, w2)" by (metis prod_cases3)
  have s2: "sv_subs s2 = sv_subs s"
    using a by (cases rule: acceptContent_cases) (simp_all add: quiet_sel halted_def)
  have rb: "sv_subs s3 = sv_subs s2" if "rollback E (sv_settings s) (sv_profile s) s2 w3 = (x, s3, w4)" for w3 x s3 w4
  proof (cases "running s2")
    case False
    then show ?thesis using that by (simp add: rollback_def)
  next
    case True
    obtain r5 s5 w5 where r5: "reapply E (sv_settings s) (sv_profile s) s2 w3 = (r5, s5, w5)" by (metis prod_cases3)
    then have "s3 = s5" using that True by (cases r5) (auto simp: rollback_def)
    with r5 show ?thesis by (cases rule: reapply_cases) (simp_all add: quiet_sel halted_def)
  qed
  have up: "sv_subs s4 = sv_subs s2" if "updateSub E i edit (set_profile_if active p s2) w3 = (Some err, s4, w4)" for edit w3 err s4 w4
    using that by (auto simp: updateSub_def saveSubs_def set_profile_if_def split: option.splits prod.splits)
  show ?thesis
  proof (cases "list_ex (\<lambda>x. sb_id x = i) (su_list (sv_subs s))")
    case False
    then show ?thesis using run Inr by (auto simp: refresh_finish_def Let_def i_def)
  next
    case ex: True
    show ?thesis
    proof (cases r2)
      case (Some err)
      then show ?thesis using run Inr ex a s2 failRefresh_content
        unfolding refresh_finish_def Let_def i_def[symmetric] active_def[symmetric] p_def[symmetric]
        by (auto simp: i_def[symmetric] active_def[symmetric] p_def[symmetric] split: prod.splits)
    next
      case None
      then show ?thesis using run Inr ex a s2 rb up
        by (auto simp: refresh_finish_def Let_def i_def[symmetric] active_def[symmetric] p_def[symmetric] set_profile_if_def
            split: prod.splits option.splits if_splits)
    qed
  qed
qed

end

subsection \<open>Clients\<close>

definition queues_ok :: "server \<Rightarrow> bool" where
  "queues_ok s \<longleftrightarrow> list_all (\<lambda>ss. length (sn_out ss) \<le> sendQueue) (hb_sessions (sv_hub s))"

lemma sendLine_queue: "length (sn_out ss) \<le> sendQueue \<Longrightarrow> length (sn_out (sendLine b ss)) \<le> sendQueue"
  by (simp add: sendLine_def)

lemma push_lines_queue:
  "list_all (\<lambda>ss. length (sn_out ss) \<le> sendQueue) l \<Longrightarrow> list_all (\<lambda>ss. length (sn_out ss) \<le> sendQueue) (push_lines stream b changed also l)"
  by (auto simp: push_lines_def list_all_iff in_set_enumerate_eq intro!: sendLine_queue)

lemma publishLocked_queue: "queues_ok s \<Longrightarrow> queues_ok (publishLocked E stream also w s)"
  using push_lines_queue by (auto simp: queues_ok_def publishLocked_def Let_def split: option.split event.split)

lemma publish_queue: "queues_ok s \<Longrightarrow> queues_ok (publish E w s)"
  unfolding publish_def by (rule fold_invariant[of queues_ok]) (auto intro: publishLocked_queue)

lemma subscribe_queue:
  assumes "queues_ok s" "i < length (hb_sessions (sv_hub s))"
  shows "queues_ok (snd (subscribe E i streams on w s))"
proof -
  have base: "queues_ok (s\<lparr>sv_hub := (sv_hub s)\<lparr>hb_sessions := (hb_sessions (sv_hub s))[i := (hb_sessions (sv_hub s) ! i)\<lparr>sn_streams := x\<rparr>]\<rparr>\<rparr>)" for x
    using assms by (auto simp: queues_ok_def list_all_iff dest!: subsetD[OF set_update_subset_insert])
  have "queues_ok (fold (\<lambda>x. publishLocked E x (Some i) w) xs s1)" if "queues_ok s1" for xs s1
    by (rule fold_invariant[of queues_ok]) (auto intro: that publishLocked_queue)
  then show ?thesis using assms(1) base by (auto simp: subscribe_def Let_def split: option.split)
qed

end
