(* ===== verification/Fake_Core.thy ===== *)
theory Fake_Core
  imports Core_Contract
begin

text \<open>
  \<^verbatim>\<open>internal/core/fakecore/fake.go\<close>: the in-memory core the daemon runs without an engine. The
  record is the struct; \<^verbatim>\<open>FailApply\<close> and \<^verbatim>\<open>FailCheck\<close> set the errors the following calls return.
\<close>

record fake_core =
  fc_running :: bool
  fc_cfg :: core_config
  fc_applyErr :: "core_err option"
  fc_checkErr :: "core_err option"
  fc_groups :: "group_item list"
  fc_connections :: "open_connection list"

definition zero_config :: core_config where
  "zero_config = \<lparr>c_mode = [], c_tun = False, c_tun_redirect = False, c_tailscale = False, c_tailnet_proxy = False,
     c_omihomo_rules_disabled = False, c_primary_group = [], c_dns_destination = [], c_tun_bypass = [],
     c_profile = empty_profile\<rparr>"

definition fake_delays :: "(string \<times> int) list" where
  "fake_delays = [(''Tokyo'', 120), (''Frankfurt'', 0), (''Amsterdam'', 85), (''DIRECT'', 3)]"

definition fake_member :: "string \<Rightarrow> string \<Rightarrow> proxy_item" where
  "fake_member name ty = \<lparr>pi_name = name, pi_type = ty, pi_alive = True, pi_delay = 0\<rparr>"

definition fake_start :: int where "fake_start = 1791720000000"

definition fake_connections :: "open_connection list" where
  "fake_connections =
     [\<lparr>oc_id = ''c1'', oc_network = ''tcp'', oc_inbound = ''tun'', oc_host = ''example.com'', oc_process = ''firefox'',
        oc_source_ip = ''198.18.0.1'', oc_source_port = 50000, oc_destination_ip = ''93.184.215.14'', oc_destination_port = 443,
        oc_chain = ''Tokyo'', oc_rule = ''Match'', oc_upload = 1200, oc_download = 48000, oc_started_at = fake_start\<rparr>,
      \<lparr>oc_id = ''c2'', oc_network = ''udp'', oc_inbound = ''tun'', oc_host = ''dns.google'', oc_process = [],
        oc_source_ip = ''198.18.0.1'', oc_source_port = 50001, oc_destination_ip = ''8.8.8.8'', oc_destination_port = 443,
        oc_chain = ''DIRECT'', oc_rule = ''DomainSuffix(google)'', oc_upload = 300, oc_download = 900, oc_started_at = fake_start\<rparr>]"

definition fake_reset :: "fake_core \<Rightarrow> fake_core" where
  "fake_reset c = c\<lparr>fc_groups :=
     [\<lparr>gi_name = ''Proxy'', gi_type = ''select'', gi_now = ''Tokyo'', gi_selectable = True, gi_members =
         [fake_member ''Tokyo'' ''vless'', fake_member ''Frankfurt'' ''trojan'', fake_member ''Amsterdam'' ''hysteria2'',
          fake_member ''Auto'' ''url-test'', fake_member ''DIRECT'' ''direct'']\<rparr>,
      \<lparr>gi_name = ''Auto'', gi_type = ''url-test'', gi_now = ''Amsterdam'', gi_selectable = False, gi_members =
         [fake_member ''Tokyo'' ''vless'', fake_member ''Frankfurt'' ''trojan'', fake_member ''Amsterdam'' ''hysteria2'']\<rparr>],
     fc_connections := fake_connections\<rparr>"

definition fake_new :: fake_core where
  "fake_new = fake_reset \<lparr>fc_running = False, fc_cfg = zero_config, fc_applyErr = None, fc_checkErr = None, fc_groups = [],
     fc_connections = []\<rparr>"

definition FailApply :: "core_err option \<Rightarrow> fake_core \<Rightarrow> fake_core" where
  "FailApply e c = c\<lparr>fc_applyErr := e\<rparr>"

definition FailCheck :: "core_err option \<Rightarrow> fake_core \<Rightarrow> fake_core" where
  "FailCheck e c = c\<lparr>fc_checkErr := e\<rparr>"

definition fake_check :: "core_config \<Rightarrow> fake_core \<Rightarrow> core_err option \<times> fake_core" where
  "fake_check cfg c = (fc_checkErr c, c)"

definition fake_apply :: "core_config \<Rightarrow> fake_core \<Rightarrow> core_err option \<times> fake_core" where
  "fake_apply cfg c =
     (case fc_applyErr c of
        Some e \<Rightarrow> (Some e, if errors_is e ErrStopped then c\<lparr>fc_running := False\<rparr> else c)
      | None \<Rightarrow> (None, (if fc_running c then c else fake_reset c)\<lparr>fc_cfg := cfg, fc_running := True\<rparr>))"

definition fake_stop :: "fake_core \<Rightarrow> core_err option \<times> fake_core" where
  "fake_stop c = (None, c\<lparr>fc_running := False\<rparr>)"

definition not_running :: core_err where
  "not_running = \<lparr>ce_is = [ErrNotRunning], ce_text = [(''the proxy is not running'', [])]\<rparr>"

definition not_found :: "string \<Rightarrow> string list \<Rightarrow> core_err" where
  "not_found format args = \<lparr>ce_is = [ErrNotFound], ce_text = [(format, args)]\<rparr>"

definition fake_Groups :: "fake_core \<Rightarrow> (core_err, group_item list) res" where
  "fake_Groups c = (if \<not> fc_running c then Inl not_running else Inr (fc_groups c))"

definition fake_group :: "fake_core \<Rightarrow> string \<Rightarrow> group_item option" where
  "fake_group c name = find (\<lambda>g. gi_name g = name) (fc_groups c)"

text \<open>\<^verbatim>\<open>group\<close> returns a pointer to the first group of the name; assigning through it changes that
  group alone.\<close>

fun set_now :: "string \<Rightarrow> string \<Rightarrow> group_item list \<Rightarrow> group_item list" where
  "set_now name now [] = []"
| "set_now name now (g # gs) = (if gi_name g = name then g\<lparr>gi_now := now\<rparr> # gs else g # set_now name now gs)"

definition fake_Select :: "string \<Rightarrow> string \<Rightarrow> fake_core \<Rightarrow> core_err option \<times> fake_core" where
  "fake_Select gname proxy c =
     (if \<not> fc_running c then (Some not_running, c)
      else case fake_group c gname of
             None \<Rightarrow> (Some (not_found ''selectable group %q: %w'' [gname]), c)
           | Some g \<Rightarrow>
               if \<not> gi_selectable g then (Some (not_found ''selectable group %q: %w'' [gname]), c)
               else if proxy \<notin> pi_name ` set (gi_members g)
               then (Some (not_found ''proxy %q in group %q: %w'' [proxy, gname]), c)
               else (None, c\<lparr>fc_groups := set_now gname proxy (fc_groups c)\<rparr>))"

definition delay_of :: "string \<Rightarrow> int" where
  "delay_of name = (case map_of fake_delays name of Some d \<Rightarrow> d | None \<Rightarrow> 0)"

definition record_delays :: "(string \<times> int) list \<Rightarrow> group_item \<Rightarrow> group_item" where
  "record_delays out g = g\<lparr>gi_members := map (\<lambda>m. case map_of out (pi_name m) of
     Some d \<Rightarrow> m\<lparr>pi_delay := d, pi_alive := (d > 0)\<rparr> | None \<Rightarrow> m) (gi_members g)\<rparr>"

definition fake_TestDelay :: "string \<Rightarrow> string list \<Rightarrow> fake_core \<Rightarrow> (core_err, (string \<times> int) list) res \<times> fake_core" where
  "fake_TestDelay gname proxies c =
     (if \<not> fc_running c then (Inl not_running, c)
      else case fake_group c gname of
             None \<Rightarrow> (Inl (not_found ''group %q: %w'' [gname]), c)
           | Some g \<Rightarrow>
               let out = map (\<lambda>m. (pi_name m, delay_of (pi_name m)))
                           (filter (\<lambda>m. proxies = [] \<or> pi_name m \<in> set proxies) (gi_members g))
               in case find (\<lambda>n. map_of out n = None) proxies of
                    Some n \<Rightarrow> (Inl (not_found ''proxy %q in group %q: %w'' [n, gname]), c)
                  | None \<Rightarrow> (Inr out, c\<lparr>fc_groups := map (record_delays out) (fc_groups c)\<rparr>))"

definition fake_CloseConnections :: "string list option \<Rightarrow> fake_core \<Rightarrow> core_err option \<times> fake_core" where
  "fake_CloseConnections ids c =
     (if \<not> fc_running c then (Some not_running, c)
      else (None, c\<lparr>fc_connections := filter (\<lambda>x. case ids of None \<Rightarrow> False | Some l \<Rightarrow> oc_id x \<notin> set l) (fc_connections c)\<rparr>))"

definition fake_Connections :: "fake_core \<Rightarrow> (core_err, connections) res" where
  "fake_Connections c =
     (if \<not> fc_running c then Inl not_running
      else Inr \<lparr>cs_upload_total = sum_list (map oc_upload (fc_connections c)), cs_download_total = sum_list (map oc_download (fc_connections c)),
             cs_open = length (fc_connections c), cs_connections = fc_connections c\<rparr>)"

definition fake_Traffic :: "fake_core \<Rightarrow> (core_err, traffic) res" where
  "fake_Traffic c = (if \<not> fc_running c then Inl not_running else Inr \<lparr>tr_up = 2048, tr_down = 65536\<rparr>)"

definition fake_runs :: "fake_core \<Rightarrow> core_config option" where
  "fake_runs c = (if fc_running c then Some (fc_cfg c) else None)"

lemmas fake_defs = fake_apply_def fake_check_def fake_stop_def fake_Groups_def fake_Select_def fake_runs_def

interpretation fake: core_contract fake_apply fake_check fake_stop fake_Groups fake_Select fake_runs
  by unfold_locales
    (auto simp: fake_defs not_running_def errors_is_def fake_reset_def split: if_splits option.splits)

end
