(* ===== verification/Mihomo_Core.thy ===== *)
theory Mihomo_Core
  imports Core_Contract Fake_Core Mihomo_Build
begin

text \<open>
  \<^verbatim>\<open>internal/core/mihomo/core.go\<close>: \<^verbatim>\<open>Apply\<close>, \<^verbatim>\<open>Check\<close>, \<^verbatim>\<open>Stop\<close>, \<^verbatim>\<open>Groups\<close> and \<^verbatim>\<open>Select\<close> over the engine
  hosted in the process. The engine itself is mihomo, whose globals are a state of type \<open>'e\<close> that
  the functions of \<open>engine\<close> read and change: parsing a raw configuration, applying a parsed one,
  closing what a stop must not leave open, and what its listeners and log say afterwards.
\<close>

text \<open>What \<^verbatim>\<open>prepare\<close> reads of a parsed configuration: the names of the adapters it has and how many
  lines each rule provider took.\<close>

record parsed_config =
  pc_proxies :: "string list"
  pc_counts :: "nat strmap"

datatype source_config = RawRun raw_config | RawStopped

record 'e engine =
  en_gvisor :: bool
  en_upper :: "string \<Rightarrow> string"
  en_regexp :: "string \<Rightarrow> bool"
  en_parse :: "source_config \<Rightarrow> 'e \<Rightarrow> (msg, parsed_config) res"
  en_apply :: "source_config \<Rightarrow> 'e \<Rightarrow> 'e"
  en_close_tun :: "'e \<Rightarrow> 'e"
  en_close_all :: "'e \<Rightarrow> 'e"
  en_reload_ip :: "'e \<Rightarrow> 'e"
  en_reload_asn :: "'e \<Rightarrow> 'e"
  en_tun_enabled :: "'e \<Rightarrow> bool"
  en_mixed_port :: "'e \<Rightarrow> int"
  en_logged :: "'e \<Rightarrow> string list"
  en_group :: "'e \<Rightarrow> string \<Rightarrow> group_item option"
  en_group_hidden :: "'e \<Rightarrow> string \<Rightarrow> bool"
  en_set :: "string \<Rightarrow> string \<Rightarrow> 'e \<Rightarrow> msg option \<times> 'e"

record runtime =
  rt_cfg :: core_config
  rt_source :: source_config
  rt_rules :: "rule_item list"
  rt_groups :: "string list"
  rt_types :: "string strmap"

definition zero_runtime :: runtime where
  "zero_runtime = \<lparr>rt_cfg = zero_config, rt_source = RawStopped, rt_rules = [], rt_groups = [], rt_types = []\<rparr>"

text \<open>\<^verbatim>\<open>procs\<close>: what was found of the process behind a connection, by the connection's id (\<open>Mihomo_Live\<close>).\<close>

record process_lookup =
  lk_name :: string
  lk_attempts :: nat

record 'e mihomo_core =
  mc_engine :: 'e
  mc_reloadIP :: bool
  mc_reloadASN :: bool
  mc_running :: bool
  mc_current :: runtime
  mc_generation :: "64 word"
  mc_procs :: "process_lookup strmap"

definition plain_err :: "string \<Rightarrow> string list \<Rightarrow> core_err" where
  "plain_err format args = \<lparr>ce_is = [], ce_text = [(format, args)]\<rparr>"

definition builtin_types :: "string strmap" where
  "builtin_types = [(''DIRECT'', ''direct''), (''REJECT'', ''reject''), (''REJECT-DROP'', ''reject-drop''), (''PASS'', ''pass''),
     (''COMPATIBLE'', ''compatible'')]"

definition dns_available :: "core_config \<Rightarrow> parsed_config \<Rightarrow> bool" where
  "dns_available cfg parsed \<longleftrightarrow>
     (let name = c_dns_destination cfg
      in name = [] \<or> (name \<noteq> globalGroup
           \<and> (list_ex (\<lambda>g. g_name g = name) (p_groups (c_profile cfg)) \<or> list_ex (\<lambda>p. px_name p = name) (p_proxies (c_profile cfg)))
           \<and> name \<in> set (pc_proxies parsed)))"

definition short_rule_set :: "parsed_config \<Rightarrow> core_rule_set \<Rightarrow> bool" where
  "short_rule_set parsed rs \<longleftrightarrow>
     (case map_of (pc_counts parsed) (rs_name rs) of Some n \<Rightarrow> n | None \<Rightarrow> 0) \<noteq> length (filter (\<lambda>l. l \<noteq> []) (rs_payload rs))"

definition prepare :: "'e engine \<Rightarrow> core_config \<Rightarrow> 'e \<Rightarrow> (core_err, runtime) res" where
  "prepare E cfg e =
     (case rawConfig (en_upper E) (en_regexp E) cfg of
        Inl fault \<Rightarrow> Inl \<lparr>ce_is = [], ce_text = fault_text fault\<rparr>
      | Inr (raw, listed) \<Rightarrow>
          (case en_parse E (RawRun raw) e of
             Inl text \<Rightarrow> Inl \<lparr>ce_is = [], ce_text = (''the config does not parse: %v'', []) # text\<rparr>
           | Inr parsed \<Rightarrow>
               if \<not> dns_available cfg parsed
               then Inl (plain_err ''DNS destination %q is unavailable in the active subscription'' [c_dns_destination cfg])
               else (case find (short_rule_set parsed) (p_rule_sets (c_profile cfg)) of
                       Some rs \<Rightarrow> Inl (plain_err ''rule set %q: %d of its %d lines do not parse'' [rs_name rs])
                     | None \<Rightarrow>
                         Inr \<lparr>rt_cfg = cfg, rt_source = RawRun raw, rt_rules = listed,
                              rt_groups = map g_name (own_groups (c_profile cfg)),
                              rt_types = rev (map (\<lambda>g. (g_name g, g_type g)) (own_groups (c_profile cfg)))
                                @ rev (map (\<lambda>p. (px_name p, px_type p)) (p_proxies (c_profile cfg))) @ builtin_types\<rparr>)))"

text \<open>\<^verbatim>\<open>started\<close>: the first logged line with the prefix, without it, or the empty string.\<close>

definition log_reason :: "string list \<Rightarrow> string \<Rightarrow> string" where
  "log_reason logged prefix = (case find (\<lambda>l. has_prefix l prefix) logged of Some l \<Rightarrow> drop (length prefix) l | None \<Rightarrow> [])"

definition tunFailed :: string where "tunFailed = ''Start TUN listening error: ''"
definition mixedFailed :: string where "mixedFailed = ''Start Mixed(http+socks) server error: ''"
definition listenerFailed :: string where "listenerFailed = ''Listener omihomo-tailscale listen err: ''"

definition started :: "'e engine \<Rightarrow> core_config \<Rightarrow> 'e \<Rightarrow> core_err option" where
  "started E cfg e =
     (let reason = log_reason (en_logged E e)
      in if en_tun_enabled E e \<noteq> c_tun cfg
         then Some (plain_err ''TUN did not start: %s'' [if reason tunFailed = [] then ''no reason was logged'' else reason tunFailed])
         else if reason mixedFailed \<noteq> [] \<or> en_mixed_port E e = 0
         then Some (plain_err ''the local proxy port %d did not open: %s'' [reason mixedFailed])
         else if c_tailscale cfg \<and> reason listenerFailed \<noteq> []
         then Some (plain_err ''the Tailscale proxy port %d did not open: %s'' [reason listenerFailed])
         else None)"

definition commit :: "runtime \<Rightarrow> 'e mihomo_core \<Rightarrow> 'e mihomo_core" where
  "commit rt c = c\<lparr>mc_running := True, mc_current := rt, mc_generation := mc_generation c + 1\<rparr>"

definition run :: "'e engine \<Rightarrow> runtime \<Rightarrow> 'e mihomo_core \<Rightarrow> core_err option \<times> 'e mihomo_core" where
  "run E rt c =
     (let c1 = c\<lparr>mc_engine := en_apply E (rt_source rt) (mc_engine c)\<rparr>
      in case started E (rt_cfg rt) (mc_engine c1) of
           Some err \<Rightarrow> (Some err, c1)
         | None \<Rightarrow> (None, commit rt c1))"

text \<open>\<^verbatim>\<open>stop\<close>. The goroutine it starts, \<^verbatim>\<open>drain\<close>, closes connections while the generation it was given is
  current: \<open>drainOnce\<close>.\<close>

definition stop_engine :: "'e engine \<Rightarrow> 'e mihomo_core \<Rightarrow> 'e mihomo_core" where
  "stop_engine E c =
     (let c1 = c\<lparr>mc_running := False, mc_current := zero_runtime, mc_generation := mc_generation c + 1\<rparr>;
          e = mc_engine c1;
          e1 = (case en_parse E RawStopped e of
                  Inl _ \<Rightarrow> en_close_tun E e
                | Inr _ \<Rightarrow> en_apply E RawStopped e)
      in c1\<lparr>mc_engine := en_close_all E e1\<rparr>)"

definition drainOnce :: "'e engine \<Rightarrow> 64 word \<Rightarrow> bool \<Rightarrow> 'e mihomo_core \<Rightarrow> bool \<times> 'e mihomo_core" where
  "drainOnce E generation last_tick c =
     (if mc_generation c \<noteq> generation \<or> last_tick then (False, c)
      else (True, c\<lparr>mc_engine := en_close_all E (mc_engine c)\<rparr>))"

definition reloadDatabases :: "'e engine \<Rightarrow> 'e mihomo_core \<Rightarrow> 'e mihomo_core" where
  "reloadDatabases E c =
     (let c1 = (if mc_reloadIP c then c\<lparr>mc_engine := en_reload_ip E (mc_engine c), mc_reloadIP := False\<rparr> else c)
      in if mc_reloadASN c1 then c1\<lparr>mc_engine := en_reload_asn E (mc_engine c1), mc_reloadASN := False\<rparr> else c1)"

definition restore :: "'e engine \<Rightarrow> core_config \<Rightarrow> 'e mihomo_core \<Rightarrow> core_err option \<times> 'e mihomo_core" where
  "restore E previous c =
     (let c1 = stop_engine E c
      in case prepare E previous (mc_engine c1) of
           Inl err \<Rightarrow> (Some err, stop_engine E c1)
         | Inr rt \<Rightarrow>
             (case run E rt c1 of
                (Some err, c2) \<Rightarrow> (Some err, stop_engine E c2)
              | (None, c2) \<Rightarrow> (None, c2)))"

definition no_gvisor :: "'e engine \<Rightarrow> core_config \<Rightarrow> bool" where
  "no_gvisor E cfg \<longleftrightarrow> c_tun cfg \<and> \<not> c_tun_redirect cfg \<and> \<not> en_gvisor E"

definition gvisor_err :: core_err where
  "gvisor_err = plain_err ''TUN without redirect needs the gVisor stack, which this build lacks'' []"

definition Apply :: "'e engine \<Rightarrow> core_config \<Rightarrow> 'e mihomo_core \<Rightarrow> core_err option \<times> 'e mihomo_core" where
  "Apply E cfg c =
     (if no_gvisor E cfg then (Some gvisor_err, c)
      else case prepare E cfg (mc_engine c) of
             Inl err \<Rightarrow> (Some \<lparr>ce_is = ErrInvalid # ce_is err, ce_text = (''%w: %w'', []) # ce_text err\<rparr>, c)
           | Inr rt \<Rightarrow>
               let wasRunning = mc_running c; previous = rt_cfg (mc_current c);
                   c1 = (if wasRunning then c else reloadDatabases E c)
               in case run E rt c1 of
                    (None, c2) \<Rightarrow> (None, c2)
                  | (Some err, c2) \<Rightarrow>
                      if \<not> wasRunning then (Some err, stop_engine E c2)
                      else (case restore E previous c2 of
                              (None, c3) \<Rightarrow> (Some err, c3)
                            | (Some rerr, c3) \<Rightarrow>
                                (Some \<lparr>ce_is = ErrStopped # ce_is err, ce_text =
                                   (''%w; the previous config did not come back either (%v): %w'', []) # ce_text err @ ce_text rerr\<rparr>, c3)))"

definition Check :: "'e engine \<Rightarrow> core_config \<Rightarrow> 'e mihomo_core \<Rightarrow> core_err option \<times> 'e mihomo_core" where
  "Check E cfg c =
     (if no_gvisor E cfg then (Some gvisor_err, c)
      else case prepare E cfg (mc_engine c) of Inl err \<Rightarrow> (Some err, c) | Inr _ \<Rightarrow> (None, c))"

definition Stop :: "'e engine \<Rightarrow> 'e mihomo_core \<Rightarrow> core_err option \<times> 'e mihomo_core" where
  "Stop E c = (None, stop_engine E c)"

definition Groups :: "'e engine \<Rightarrow> 'e mihomo_core \<Rightarrow> (core_err, group_item list) res" where
  "Groups E c =
     (if \<not> mc_running c then Inl not_running
      else Inr (List.map_filter (\<lambda>name. case en_group E (mc_engine c) name of
             None \<Rightarrow> None
           | Some g \<Rightarrow> if en_group_hidden E (mc_engine c) name then None
                       else Some (g\<lparr>gi_name := name, gi_type := (case map_of (rt_types (mc_current c)) name of Some t \<Rightarrow> t | None \<Rightarrow> [])\<rparr>))
         (rt_groups (mc_current c))))"

definition Select :: "'e engine \<Rightarrow> string \<Rightarrow> string \<Rightarrow> 'e mihomo_core \<Rightarrow> core_err option \<times> 'e mihomo_core" where
  "Select E gname proxy c =
     (if \<not> mc_running c then (Some not_running, c)
      else if gname \<notin> set (rt_groups (mc_current c)) then (Some (not_found ''group %q: %w'' [gname]), c)
      else case en_group E (mc_engine c) gname of
             None \<Rightarrow> (Some (not_found ''group %q: %w'' [gname]), c)
           | Some g \<Rightarrow>
               if \<not> gi_selectable g then (Some (not_found ''selectable group %q: %w'' [gname]), c)
               else if proxy \<notin> pi_name ` set (gi_members g)
               then (Some (not_found ''proxy %q in group %q: %w'' [proxy, gname]), c)
               else (case en_set E gname proxy (mc_engine c) of
                       (Some text, e) \<Rightarrow> (Some \<lparr>ce_is = [], ce_text = (''select %q in %q: %w'', [proxy, gname]) # text\<rparr>, c\<lparr>mc_engine := e\<rparr>)
                     | (None, e) \<Rightarrow> (None, c\<lparr>mc_engine := e\<rparr>)))"

definition Rules :: "'e mihomo_core \<Rightarrow> (core_err, rule_item list) res" where
  "Rules c = (if \<not> mc_running c then Inl not_running else Inr (rt_rules (mc_current c)))"

definition mihomo_runs :: "'e mihomo_core \<Rightarrow> core_config option" where
  "mihomo_runs c = (if mc_running c then Some (rt_cfg (mc_current c)) else None)"

subsection \<open>The contract\<close>

lemma prepare_cfg: "prepare E cfg e = Inr rt \<Longrightarrow> rt_cfg rt = cfg"
  by (auto simp: prepare_def split: sum.splits prod.splits if_splits option.splits)

lemma prepare_plain: "prepare E cfg e = Inl err \<Longrightarrow> ce_is err = []"
  by (auto simp: prepare_def plain_err_def split: sum.splits prod.splits if_splits option.splits)

lemma run_plain: "run E rt c = (Some err, c') \<Longrightarrow> ce_is err = []"
  by (auto simp: run_def started_def Let_def plain_err_def split: option.splits if_splits)

lemma run_ok: "run E rt c = (None, c') \<Longrightarrow> mihomo_runs c' = Some (rt_cfg rt)"
  by (auto simp: run_def commit_def mihomo_runs_def Let_def split: option.splits)

lemma stop_engine_runs [simp]: "mihomo_runs (stop_engine E c) = None"
  by (simp add: stop_engine_def mihomo_runs_def Let_def)

lemma stop_engine_stopped [simp]: "\<not> mc_running (stop_engine E c)"
  by (simp add: stop_engine_def Let_def)

lemma restore_runs:
  "restore E previous c = (r, c') \<Longrightarrow> mihomo_runs c' = (if r = None then Some previous else None)"
  by (auto simp: restore_def Let_def dest: run_ok prepare_cfg split: sum.splits prod.splits option.splits)

lemma Apply_runs:
  assumes "Apply E cfg c = (r, c')"
  shows "mihomo_runs c' = (case r of None \<Rightarrow> Some cfg | Some err \<Rightarrow> if errors_is err ErrStopped then None else mihomo_runs c)"
proof (cases "no_gvisor E cfg")
  case True
  then show ?thesis using assms by (auto simp: Apply_def gvisor_err_def plain_err_def errors_is_def)
next
  case gv: False
  show ?thesis
  proof (cases "prepare E cfg (mc_engine c)")
    case (Inl err)
    then show ?thesis using assms gv prepare_plain[OF Inl] by (auto simp: Apply_def errors_is_def)
  next
    case (Inr rt)
    define c1 where "c1 = (if mc_running c then c else reloadDatabases E c)"
    obtain r2 c2 where run: "run E rt c1 = (r2, c2)" by fastforce
    show ?thesis
    proof (cases r2)
      case None
      then show ?thesis
        using assms gv Inr run run_ok[of E rt c1 c2] prepare_cfg[OF Inr] by (auto simp: Apply_def Let_def c1_def[symmetric])
    next
      case (Some err)
      have plain: "ce_is err = []" using run Some run_plain by blast
      show ?thesis
      proof (cases "mc_running c")
        case False
        then have "r = Some err" "c' = stop_engine E c2"
          using assms gv Inr run Some by (simp_all add: Apply_def Let_def c1_def)
        then show ?thesis using plain False by (simp add: errors_is_def mihomo_runs_def[of c])
      next
        case True
        obtain r3 c3 where res: "restore E (rt_cfg (mc_current c)) c2 = (r3, c3)" by fastforce
        then show ?thesis
          using assms gv Inr run Some True restore_runs[OF res] plain
          by (auto simp: Apply_def Let_def c1_def mihomo_runs_def[of c] errors_is_def split: option.splits)
      qed
    qed
  qed
qed

lemma runs_None_iff: "mihomo_runs c = None \<longleftrightarrow> \<not> mc_running c"
  by (simp add: mihomo_runs_def)

lemma Select_runs: "Select E g p c = (r, c') \<Longrightarrow> mihomo_runs c' = mihomo_runs c"
  by (auto simp: Select_def mihomo_runs_def split: if_splits option.splits prod.splits)

interpretation mihomo: core_contract "Apply E" "Check E" "Stop E" "Groups E" "Select E" mihomo_runs for E :: "'e engine"
proof unfold_locales
  fix cfg and c c' :: "'e mihomo_core" and e
  show "Apply E cfg c = (None, c') \<Longrightarrow> mihomo_runs c' = Some cfg" using Apply_runs[of E cfg c None c'] by simp
  show "Apply E cfg c = (Some e, c') \<Longrightarrow> \<not> errors_is e ErrStopped \<Longrightarrow> mihomo_runs c' = mihomo_runs c"
    and "Apply E cfg c = (Some e, c') \<Longrightarrow> errors_is e ErrStopped \<Longrightarrow> mihomo_runs c' = None"
    using Apply_runs[of E cfg c "Some e" c'] by simp_all
next
  fix cfg and c c' :: "'e mihomo_core" and r
  assume "Check E cfg c = (r, c')"
  then show "mihomo_runs c' = mihomo_runs c" by (auto simp: Check_def split: if_splits sum.splits)
next
  fix g p and c c' :: "'e mihomo_core" and r
  assume "Select E g p c = (r, c')"
  then show "mihomo_runs c' = mihomo_runs c" by (rule Select_runs)
qed (auto simp: Stop_def Groups_def Select_def runs_None_iff not_running_def errors_is_def)

text \<open>A drain acts only between the stop that started it and the next commit or stop.\<close>

lemma drainOnce_after_commit:
  "drainOnce E (mc_generation c) last_tick (commit rt c) = (False, commit rt c)"
  by (simp add: drainOnce_def commit_def)

end
