(* ===== verification/Host.thy ===== *)
theory Host
  imports System Mihomo_Core Store
begin

text \<open>
  A machine for the daemon to run on: a core, a state directory (\<open>Store\<close>), geodata files, a clock, and scripts of what
  the network, the owner and the disk will answer. With the two core models of the repository it makes an
  environment in which the laws of \<open>Ops_Laws\<close>, \<open>Subs_Laws\<close> and \<open>System\<close> hold, and in which runs can be computed.
\<close>

record 'c core_ops =
  co_apply :: "core_config \<Rightarrow> 'c \<Rightarrow> core_err option \<times> 'c"
  co_check :: "core_config \<Rightarrow> 'c \<Rightarrow> core_err option \<times> 'c"
  co_stop :: "'c \<Rightarrow> core_err option \<times> 'c"
  co_groups :: "'c \<Rightarrow> (core_err, group_item list) res"
  co_select :: "string \<Rightarrow> string \<Rightarrow> 'c \<Rightarrow> core_err option \<times> 'c"

record host_params =
  hp_codec :: codec
  hp_lib :: build_lib
  hp_headers :: header_lib
  hp_marshal :: "string \<Rightarrow> event + code \<Rightarrow> string option"
  hp_geodata :: "core_profile \<Rightarrow> geodata_file list"
  hp_limit :: int

record 'c host =
  ho_core :: 'c
  ho_disk :: disk
  ho_geodata :: "int strmap"
  ho_clock :: int
  ho_net :: "(fetch_err, response) res list"
  ho_approvals :: "approval list"
  ho_random :: "nat list list"
  ho_faults :: "write_fault list"
  ho_temp :: nat
  ho_tailscaled :: bool

definition no_answer :: fetch_err where
  "no_answer = \<lparr>fe_direct_required = False, fe_too_large = False, fe_status = None, fe_text = [(''no route to host'', [])]\<rparr>"

text \<open>The next answer of the script, or an error when it is over the limit of the request.\<close>

definition too_large :: fetch_err where
  "too_large = \<lparr>fe_direct_required = False, fe_too_large = True, fe_status = None, fe_text = [(''the response is too large'', [])]\<rparr>"

definition host_fetch :: "request \<Rightarrow> 'c host \<Rightarrow> (fetch_err, response) res \<times> 'c host" where
  "host_fetch rq w =
     (case ho_net w of
        [] \<Rightarrow> (Inl no_answer, w)
      | Inl err # as \<Rightarrow> (Inl err, w\<lparr>ho_net := as\<rparr>)
      | Inr resp # as \<Rightarrow>
          (if 0 < rq_max_bytes rq \<and> rq_max_bytes rq < int (length (rp_body resp)) then Inl too_large else Inr resp, w\<lparr>ho_net := as\<rparr>))"

definition host_approval :: "download_request \<Rightarrow> 'c host \<Rightarrow> approval \<times> 'c host" where
  "host_approval pd w = (case ho_approvals w of [] \<Rightarrow> (Expired, w) | a # as \<Rightarrow> (a, w\<lparr>ho_approvals := as\<rparr>))"

definition host_new_id :: "'c host \<Rightarrow> string \<times> 'c host" where
  "host_new_id w = (case ho_random w of [] \<Rightarrow> (NewID (replicate 16 0), w) | b # bs \<Rightarrow> (NewID b, w\<lparr>ho_random := bs\<rparr>))"

text \<open>A write takes the next fault of the script and a temporary name not used before.\<close>

definition host_write :: "(write_fault \<Rightarrow> string \<Rightarrow> disk \<Rightarrow> msg option \<times> disk) \<Rightarrow> 'c host \<Rightarrow> msg option \<times> 'c host" where
  "host_write f w =
     (let (fault, rest) = (case ho_faults w of [] \<Rightarrow> (NoFault, []) | x # xs \<Rightarrow> (x, xs));
          (r, d) = f fault (itoa_nat (ho_temp w)) (ho_disk w)
      in (r, w\<lparr>ho_disk := d, ho_faults := rest, ho_temp := Suc (ho_temp w)\<rparr>))"

definition lift_core :: "('c \<Rightarrow> 'r \<times> 'c) \<Rightarrow> 'c host \<Rightarrow> 'r \<times> 'c host" where
  "lift_core f w = (case f (ho_core w) of (r, c) \<Rightarrow> (r, w\<lparr>ho_core := c\<rparr>))"

definition read_msg :: "(read_error, 'a) res \<Rightarrow> (msg, 'a) res" where
  "read_msg r = (case r of Inl _ \<Rightarrow> Inl [(''read %s: %w'', [])] | Inr v \<Rightarrow> Inr v)"

definition host_env :: "'c core_ops \<Rightarrow> host_params \<Rightarrow> 'c host env" where
  "host_env C P = \<lparr>
     e_apply = (\<lambda>cfg. lift_core (co_apply C cfg)), e_check = (\<lambda>cfg. lift_core (co_check C cfg)),
     e_stop = lift_core (co_stop C), e_groups = (\<lambda>w. co_groups C (ho_core w)),
     e_select = (\<lambda>g p. lift_core (co_select C g p)), e_geodata = hp_geodata P,
     e_install = (\<lambda>f tmp p w. (None, w\<lparr>ho_geodata := (gd_path f, ho_clock w) # delete_key (gd_path f) (ho_geodata w)\<rparr>)),
     e_stat = (\<lambda>path w. case map_of (ho_geodata w) path of None \<Rightarrow> StatMissing | Some t \<Rightarrow> StatOk t),
     e_write_temp = (\<lambda>f body w. (Inr (gd_path f), w)), e_remove_temp = (\<lambda>tmp w. w),
     e_fetch = host_fetch, e_approval = host_approval,
     e_save_settings = (\<lambda>v. host_write (\<lambda>fault suffix. SaveSettings (hp_codec P) fault suffix v)),
     e_save_subs = (\<lambda>v. host_write (\<lambda>fault suffix. SaveSubscriptions (hp_codec P) fault suffix v)),
     e_save_snapshot = (\<lambda>i v. host_write (\<lambda>fault suffix. SaveSnapshot (hp_codec P) fault suffix i v)),
     e_remove_snapshot = (\<lambda>i. host_write (\<lambda>fault suffix. RemoveSnapshot (fault \<noteq> NoFault) i)),
     e_snapshot = (\<lambda>i w. read_msg (Snapshot (hp_codec P) i (ho_disk w))),
     e_tailscale_sync = None, e_tailscale_present = ho_tailscaled, e_now = ho_clock, e_new_id = host_new_id,
     e_download_limit = hp_limit P, e_lib = hp_lib P, e_headers = hp_headers P, e_marshal = hp_marshal P,
     e_wall = ho_clock, e_initial = False\<rparr>"

lemma lift_core_eq: "lift_core f w = (r, w') \<longleftrightarrow> (\<exists>c. f (ho_core w) = (r, c) \<and> w' = w\<lparr>ho_core := c\<rparr>)"
  by (auto simp: lift_core_def split: prod.split)

lemma host_write_core: "host_write f w = (r, w') \<Longrightarrow> ho_core w' = ho_core w"
  by (auto simp: host_write_def split: prod.splits)

lemma host_core_contract:
  assumes "core_contract (co_apply C) (co_check C) (co_stop C) (co_groups C) (co_select C) runs"
  shows "core_contract (e_apply (host_env C P)) (e_check (host_env C P)) (e_stop (host_env C P)) (e_groups (host_env C P))
    (e_select (host_env C P)) (\<lambda>w. runs (ho_core w))"
proof unfold_locales
  show "runs (ho_core w') = Some cfg" if "e_apply (host_env C P) cfg w = (None, w')" for cfg w w'
    using that core_contract.apply_ok[OF assms] by (auto simp: host_env_def lift_core_eq)
  show "runs (ho_core w') = runs (ho_core w)" if "e_apply (host_env C P) cfg w = (Some e, w')" "\<not> errors_is e ErrStopped" for cfg w e w'
    using that core_contract.apply_failed[OF assms] by (auto simp: host_env_def lift_core_eq)
  show "runs (ho_core w') = None" if "e_apply (host_env C P) cfg w = (Some e, w')" "errors_is e ErrStopped" for cfg w e w'
    using that core_contract.apply_stopped[OF assms] by (auto simp: host_env_def lift_core_eq)
  show "runs (ho_core w') = runs (ho_core w)" if "e_check (host_env C P) cfg w = (r, w')" for cfg w r w'
    using that core_contract.check_keeps[OF assms] by (auto simp: host_env_def lift_core_eq)
  show "r = None \<and> runs (ho_core w') = None" if "e_stop (host_env C P) w = (r, w')" for w r w'
    using that core_contract.stop_stops[OF assms] by (auto simp: host_env_def lift_core_eq)
  show "\<exists>e. e_groups (host_env C P) w = Inl e \<and> errors_is e ErrNotRunning" if "runs (ho_core w) = None" for w
    using that core_contract.groups_stopped[OF assms] by (simp add: host_env_def)
  show "runs (ho_core w') = runs (ho_core w)" if "e_select (host_env C P) g p w = (r, w')" for g p w r w'
    using that core_contract.select_keeps[OF assms] by (auto simp: host_env_def lift_core_eq)
  show "\<exists>e. fst (e_select (host_env C P) g p w) = Some e \<and> errors_is e ErrNotRunning" if "runs (ho_core w) = None" for g p w
    using core_contract.select_stopped[OF assms that, of g p] by (auto simp: host_env_def lift_core_def split: prod.split)
qed

lemma host_daemon_env:
  assumes "core_contract (co_apply C) (co_check C) (co_stop C) (co_groups C) (co_select C) runs"
  shows "daemon_env (host_env C P) (\<lambda>w. runs (ho_core w))"
proof -
  have "daemon_env_axioms (host_env C P) (\<lambda>w. runs (ho_core w))"
    by unfold_locales
      (auto simp: host_env_def host_fetch_def host_approval_def host_new_id_def split: list.splits sum.splits if_splits dest: host_write_core)
  then show ?thesis using host_core_contract[OF assms] by (simp add: daemon_env_def)
qed

definition mihomo_ops :: "'e engine \<Rightarrow> 'e mihomo_core core_ops" where
  "mihomo_ops En = \<lparr>co_apply = Apply En, co_check = Check En, co_stop = Stop En, co_groups = Groups En, co_select = Select En\<rparr>"

definition fake_ops :: "fake_core core_ops" where
  "fake_ops = \<lparr>co_apply = fake_apply, co_check = fake_check, co_stop = fake_stop, co_groups = fake_Groups, co_select = fake_Select\<rparr>"

interpretation mihomo_host: daemon_env "host_env (mihomo_ops En) P" "\<lambda>w. mihomo_runs (ho_core w)" for En :: "'e engine" and P
  by (rule host_daemon_env) (simp add: mihomo_ops_def mihomo.core_contract_axioms)

interpretation fake_host: daemon_env "host_env fake_ops P" "\<lambda>w. fake_runs (ho_core w)" for P
  by (rule host_daemon_env) (simp add: fake_ops_def fake.core_contract_axioms)

end
