(* ===== verification/Core_Claims.thy ===== *)
theory Core_Claims
  imports Rule_Props Mihomo_Core Profile_Claims
begin

text \<open>
  What runs: the properties of \<^verbatim>\<open>internal/daemon/settings.go\<close>, \<^verbatim>\<open>rules.go\<close> and \<^verbatim>\<open>internal/core\<close>, from the owner's
  settings and the active profile to the lines the engine is given.
\<close>

subsection \<open>Rules\<close>

text \<open>C10: the owner sees the rules that run. For a profile \<^const>\<open>Build\<close> made, the rules the daemon lists as active are those it
  hands to the core with the core's own added, in the order the core tries them.\<close>

theorem listed_rules_run:
  assumes "Build L d bodies = Inr (p, dropped)"
  shows "active_rules (rl_rules (rule_listing ss p))
    = withOmihomoRules (p_rules (c_profile (runConfig ss p))) (runConfig ss p)"
  by (rule rules_agree) (use Build_profile_ok[OF assms] in \<open>auto simp: profile_ok_def rule_ok_def plain_rule_def\<close>)

definition demo_settings :: state_settings where
  "demo_settings = DefaultSettings\<lparr>st_rules :=
     [RuleEntry ''DOMAIN'' ''example.net'' ''G'' [] False None, RuleEntry ''DOMAIN'' ''example.com'' ''gone'' [] False None,
      RuleEntry ''IP-CIDR'' ''192.0.2.0/24'' ''DIRECT'' ''no-resolve'' False None]\<rparr>"

theorem listed_rules_run_witness:
  "active_rules (rl_rules (rule_listing demo_settings demo_profile))
     = withOmihomoRules (p_rules (c_profile (runConfig demo_settings demo_profile))) (runConfig demo_settings demo_profile)
   \<and> length (filter (\<lambda>i. ru_inactive i) (rl_rules (rule_listing demo_settings demo_profile))) = 1"
proof -
  have "length (filter (\<lambda>i. ru_inactive i) (rl_rules (rule_listing demo_settings demo_profile))) = 1" by code_simp
  then show ?thesis using demo_built listed_rules_run by blast
qed

text \<open>A listed rule is marked unreachable exactly when it is active and an active \<^verbatim>\<open>MATCH\<close> comes before it.\<close>

theorem unreachable_marks:
  assumes "i < length rs"
  shows "mark_unreachable False rs ! i
     = (if ru_inactive (rs ! i) then rs ! i
        else (rs ! i)\<lparr>ru_unreachable := list_ex (\<lambda>r. \<not> ru_inactive r \<and> ru_type r = ''MATCH'') (take i rs)\<rparr>)"
proof -
  have "(\<exists>j < i. \<not> ru_inactive (rs ! j) \<and> ru_type (rs ! j) = ''MATCH'')
    \<longleftrightarrow> list_ex (\<lambda>r. \<not> ru_inactive r \<and> ru_type r = ''MATCH'') (take i rs)"
    using assms nth_image[of i rs] by (auto simp: list_ex_iff simp flip: nth_image)
  then show ?thesis using mark_unreachable_nth[OF assms, of False] by simp
qed

definition demo_items :: "rule_item list" where
  "demo_items = rl_rules (rule_listing (demo_settings\<lparr>st_rules := [RuleEntry ''MATCH'' [] ''DIRECT'' [] False None]\<rparr>) demo_profile)"

theorem unreachable_marks_witness:
  "1 < length demo_items \<and> mark_unreachable False demo_items ! 1 = (demo_items ! 1)\<lparr>ru_unreachable := True\<rparr>"
proof -
  have a: "1 < length demo_items" "\<not> ru_inactive (demo_items ! 1)"
    "list_ex (\<lambda>r. \<not> ru_inactive r \<and> ru_type r = ''MATCH'') (take 1 demo_items)" by code_simp+
  then show ?thesis using unreachable_marks[OF a(1)] by simp
qed

text \<open>A rule of the owner that the checks let through and that is active on a profile \<^const>\<open>Build\<close> made can be written for the
  engine, so the engine never refuses the owner's rules after they were accepted. A target of \<^verbatim>\<open>SUB-RULE\<close> has to be
  trimmed, which the subscription decides.\<close>

theorem accepted_rules_written:
  assumes "Build L d bodies = Inr (p, dropped)" "checkRules lower (st_rules ss) = None"
    "r \<in> set (p_rules (c_profile (runConfig ss p)))" "r_source r = SourceUser"
    "r_type r = ''SUB-RULE'' \<Longrightarrow> trim_space (r_target r) = r_target r"
    "checkRuleRegex re (r_type r) (r_value r)"
  shows "\<exists>line. ruleLine uni re r = Inr line"
  using Build_profile_ok[OF assms(1)] assms(2-6) by (rule user_rules_written)

theorem accepted_rules_written_witness:
  "\<exists>line. ruleLine id (\<lambda>_. True) (hd (p_rules (c_profile (runConfig demo_settings demo_profile)))) = Inr line"
proof -
  let ?rs = "p_rules (c_profile (runConfig demo_settings demo_profile))"
  obtain dropped where b: "Build demo_lib demo_doc demo_bodies = Inr (demo_profile, dropped)" using demo_built by blast
  have "?rs \<noteq> []" by code_simp
  then have in_rs: "hd ?rs \<in> set ?rs" by (rule hd_in_set)
  have chk: "checkRules id (st_rules demo_settings) = None" by code_simp
  have src: "r_source (hd ?rs) = SourceUser" "r_type (hd ?rs) \<noteq> ''SUB-RULE''"
    "checkRuleRegex (\<lambda>_. True) (r_type (hd ?rs)) (r_value (hd ?rs))" by code_simp+
  show ?thesis by (rule accepted_rules_written[OF b chk in_rs src(1) _ src(3)]) (use src(2) in simp)
qed

text \<open>Every rule line the engine gets reads back as the rule it was written from, in order.\<close>

theorem engine_rules:
  assumes "rawConfig uni re cfg = Inr (raw, listed)" "list_all (\<lambda>r. r_type r \<in> set ruleTypes) (p_rules (c_profile cfg))"
  shows "map (ParseRule uni) (rw_rules raw) = map (\<lambda>r. Inr (read_back r)) (withOmihomoRules (p_rules (c_profile cfg)) cfg)"
  using assms by (intro rawConfig_rules_read) (auto simp: list_all_iff)

definition demo_raw :: raw_config where
  "demo_raw = fst (projr (rawConfig id (\<lambda>_. True) (runConfig demo_settings demo_profile)))"

lemma demo_raw_made: "\<exists>listed. rawConfig id (\<lambda>_. True) (runConfig demo_settings demo_profile) = Inr (demo_raw, listed)"
proof -
  have "\<not> isl (rawConfig id (\<lambda>_. True) (runConfig demo_settings demo_profile))" by code_simp
  then show ?thesis
    by (cases "rawConfig id (\<lambda>_. True) (runConfig demo_settings demo_profile)") (auto simp: demo_raw_def)
qed

theorem engine_rules_witness:
  "map (ParseRule id) (rw_rules demo_raw) = map (\<lambda>r. Inr (read_back r))
     (withOmihomoRules (p_rules (c_profile (runConfig demo_settings demo_profile))) (runConfig demo_settings demo_profile))"
proof -
  have "list_all (\<lambda>r. r_type r \<in> set ruleTypes) (p_rules (c_profile (runConfig demo_settings demo_profile)))" by code_simp
  then show ?thesis using demo_raw_made engine_rules by blast
qed

subsection \<open>The engine's configuration\<close>

text \<open>Nothing a subscription holds reaches the core's own part of the engine's configuration, its ports, DNS, TUN device and
  the like: two profiles under the same settings get the same.\<close>

theorem host_part_independent:
  assumes "rawConfig uni re cfg = Inr (raw, l)" "rawConfig uni re (cfg\<lparr>c_profile := p\<rparr>) = Inr (raw', l')"
  shows "rw_host raw' = rw_host raw"
  using assms by (rule rawConfig_host)

theorem host_part_independent_witness:
  "\<exists>raw' l'. rawConfig id (\<lambda>_. True) ((runConfig demo_settings demo_profile)\<lparr>c_profile := empty_profile\<rparr>) = Inr (raw', l')
     \<and> rw_host raw' = rw_host demo_raw"
proof -
  let ?c = "rawConfig id (\<lambda>_. True) ((runConfig demo_settings demo_profile)\<lparr>c_profile := empty_profile\<rparr>)"
  have "\<not> isl ?c" by code_simp
  then obtain raw' l' where "?c = Inr (raw', l')" by (cases ?c) auto
  then show ?thesis using demo_raw_made host_part_independent by blast
qed

text \<open>The primary group of a profile with groups is one of them: the owner's choice when it exists, otherwise a group
  that is shown, if there is one, and one the owner can select in, if there is one among those.\<close>

theorem primary_group_choice:
  assumes "gs \<noteq> []"
  shows "primaryGroup gs want \<in> g_name ` set gs
    \<and> (want \<noteq> [] \<and> want \<in> g_name ` set gs \<longrightarrow> primaryGroup gs want = want)
    \<and> (want \<notin> g_name ` set gs \<and> list_ex (\<lambda>g. \<not> hidden g) gs \<longrightarrow>
         (\<exists>h \<in> set gs. g_name h = primaryGroup gs want \<and> \<not> hidden h
            \<and> (list_ex (\<lambda>g. \<not> hidden g \<and> g_type g = ''select'') gs \<longrightarrow> g_type h = ''select'')))"
  using primaryGroup_in[OF assms] primaryGroup_choice[of want gs] primaryGroup_visible[of want gs]
  by (auto simp: list_ex_iff)

theorem primary_group_choice_witness: "primaryGroup (p_groups demo_profile) ''G'' = ''G''"
proof -
  have "p_groups demo_profile \<noteq> []" "''G'' \<in> g_name ` set (p_groups demo_profile)" by code_simp+
  then show ?thesis using primary_group_choice[of "p_groups demo_profile" "''G''"] by simp
qed

text \<open>An address of the tailnet is routed around the TUN device unless the owner sends the tailnet through the proxy; then
  only Tailscale's resolver is.\<close>

theorem tailnet_bypass:
  assumes "prefix_contains tailnetRange (A4 a)"
  shows "list_ex (\<lambda>p. prefix_contains p (A4 a)) (bypass s) = (if s_tailnet_proxy s then a = ipv4 100 100 100 100 else True)"
  using bypass_tailnet[OF assms, of s] by simp

theorem tailnet_bypass_witness:
  "\<not> list_ex (\<lambda>p. prefix_contains p (A4 (ipv4 100 64 0 7))) (bypass (default_settings\<lparr>s_tailnet_proxy := True\<rparr>))"
proof -
  have "prefix_contains tailnetRange (A4 (ipv4 100 64 0 7))" "ipv4 100 64 0 7 \<noteq> ipv4 100 100 100 100" by code_simp+
  then show ?thesis using tailnet_bypass[of "ipv4 100 64 0 7" "default_settings\<lparr>s_tailnet_proxy := True\<rparr>"] by simp
qed

subsection \<open>The cores\<close>


definition engine_logs :: "'e engine \<Rightarrow> ('e \<Rightarrow> source_config) \<Rightarrow> bool" where
  "engine_logs E given \<longleftrightarrow> (\<forall>src e. given (en_apply E src e) = src) \<and> (\<forall>e. given (en_close_all E e) = given e)
     \<and> (\<forall>e. given (en_reload_ip E e) = given e \<and> given (en_reload_asn E e) = given e) \<and> (\<forall>e. \<not> isl (en_parse E RawStopped e))"

definition in_force :: "('e \<Rightarrow> source_config) \<Rightarrow> 'e mihomo_core \<Rightarrow> bool" where
  "in_force given c \<longleftrightarrow> given (mc_engine c) = (if mc_running c then rt_source (mc_current c) else RawStopped)"

lemma stop_engine_in_force: "engine_logs E given \<Longrightarrow> in_force given (stop_engine E c)"
proof -
  assume logs: "engine_logs E given"
  then obtain p where "en_parse E RawStopped (mc_engine c) = Inr p"
    unfolding engine_logs_def by (metis isl_def sum.exhaust_sel)
  then show ?thesis using logs by (simp add: in_force_def stop_engine_def Let_def engine_logs_def)
qed

lemma run_in_force: "engine_logs E given \<Longrightarrow> run E rt c = (None, c') \<Longrightarrow> in_force given c'"
  by (auto simp: run_def commit_def in_force_def engine_logs_def Let_def split: option.splits)

lemma restore_in_force: "engine_logs E given \<Longrightarrow> restore E previous c = (r, c') \<Longrightarrow> in_force given c'"
  by (auto simp: restore_def Let_def stop_engine_in_force dest: run_in_force split: sum.splits prod.splits option.splits)

text \<open>C9: the engine is never left between configurations. If its last configuration was the one the core says is current, or the
  one that rejects everything while the core is stopped, that is so again after any apply, whichever step of it
  failed, and after any stop. \<open>given\<close> is the configuration the engine was last given; the hypotheses say that
  applying sets it, that nothing else does, and that the rejecting configuration parses.\<close>

theorem engine_in_force:
  assumes "engine_logs E given" "in_force given c"
  shows "in_force given (snd (Apply E cfg c)) \<and> in_force given (snd (Stop E c))"
proof -
  have "in_force given (snd (Apply E cfg c))"
    using assms(2) stop_engine_in_force[OF assms(1)] run_in_force[OF assms(1)] restore_in_force[OF assms(1)]
    by (auto simp: Apply_def Let_def split: sum.split prod.split option.split)
  then show ?thesis by (simp add: Stop_def stop_engine_in_force[OF assms(1)])
qed

definition demo_engine :: "source_config engine" where
  "demo_engine = \<lparr>en_gvisor = True, en_upper = id, en_regexp = (\<lambda>_. True), en_parse = (\<lambda>_ _. Inr \<lparr>pc_proxies = [], pc_counts = []\<rparr>),
     en_apply = (\<lambda>src _. src), en_close_tun = id, en_close_all = id, en_reload_ip = id, en_reload_asn = id,
     en_tun_enabled = (\<lambda>_. False), en_mixed_port = (\<lambda>e. case e of RawRun _ \<Rightarrow> 7890 | RawStopped \<Rightarrow> 0), en_logged = (\<lambda>_. []),
     en_group = (\<lambda>_ _. None), en_group_hidden = (\<lambda>_ _. False), en_set = (\<lambda>_ _ e. (None, e))\<rparr>"

definition idle_core :: "'e \<Rightarrow> 'e mihomo_core" where
  "idle_core e = \<lparr>mc_engine = e, mc_reloadIP = False, mc_reloadASN = False, mc_running = False, mc_current = zero_runtime,
     mc_generation = 0, mc_procs = []\<rparr>"

theorem engine_in_force_witness:
  "in_force id (snd (Apply demo_engine (runConfig demo_settings demo_profile) (idle_core RawStopped)))
   \<and> mc_running (snd (Apply demo_engine (runConfig demo_settings demo_profile) (idle_core RawStopped)))"
proof -
  have "engine_logs demo_engine id" by (simp add: engine_logs_def demo_engine_def)
  moreover have "in_force id (idle_core RawStopped)" by (simp add: in_force_def idle_core_def)
  moreover have "mc_running (snd (Apply demo_engine (runConfig demo_settings demo_profile) (idle_core RawStopped)))" by code_simp
  ultimately show ?thesis using engine_in_force by blast
qed

text \<open>The goroutine a stop starts to close late connections does nothing once another configuration was committed, so it never
  closes the connections of the proxy that runs next.\<close>

theorem drain_spares_next:
  "drainOnce E (mc_generation c) last_tick (commit rt c) = (False, commit rt c)"
  by (rule drainOnce_after_commit)

end
