(* ===== verification/Demo.thy ===== *)
theory Demo
  imports Host Core_Claims
begin

text \<open>
  A machine to run the daemon on in the examples that follow a property: the mihomo core over an engine that accepts
  everything, and a store with one subscription that is not in use. The daemon starts up, turns the proxy on, and, in
  another run, adds a second subscription.
\<close>

definition demo_codec :: codec where
  "demo_codec = \<lparr>enc_settings = (\<lambda>_. Some []), dec_settings = (\<lambda>_. None), enc_subs = (\<lambda>_. Some []), dec_subs = (\<lambda>_. None),
     enc_snapshot = (\<lambda>_. Some []), dec_snapshot = (\<lambda>_. Some \<lparr>sn_body = ''links'', sn_providers = []\<rparr>)\<rparr>"

definition direct_map :: "goval strmap" where
  "direct_map = [(''name'', GStr ''d''), (''type'', GStr ''direct'')]"

definition demo_params :: host_params where
  "demo_params = \<lparr>hp_codec = demo_codec, hp_lib = demo_lib\<lparr>share_links := (\<lambda>_. Some [direct_map])\<rparr>,
     hp_headers = \<lparr>base64_std = (\<lambda>_. None), media_filename = (\<lambda>_. None), url_host = (\<lambda>_. Some ''example.org''), lower_table = id\<rparr>,
     hp_marshal = (\<lambda>_ _. Some []), hp_geodata = (\<lambda>_. []), hp_limit = 1000\<rparr>"

definition demo_host :: "source_config mihomo_core host" where
  "demo_host = \<lparr>ho_core = idle_core RawStopped, ho_disk = (\<lambda>_. None), ho_geodata = [], ho_clock = 1700000000000000000,
     ho_net = [Inr \<lparr>rp_body = ''links'', rp_header = []\<rparr>], ho_approvals = [], ho_random = [replicate 16 1], ho_faults = [],
     ho_temp = 0, ho_tailscaled = False\<rparr>"

definition demo_env :: "source_config mihomo_core host env" where
  "demo_env = host_env (mihomo_ops demo_engine) demo_params"

abbreviation demo_runs :: "source_config mihomo_core host \<Rightarrow> core_config option" where
  "demo_runs \<equiv> \<lambda>w. mihomo_runs (ho_core w)"

definition demo_url :: string where "demo_url = ''https://example.org/sub''"

definition demo_sub :: subscription where
  "demo_sub = \<lparr>sb_id = ''0123456789abcdef0123456789abcdef'', sb_name = ''old'', sb_url = ''https://example.org/old'',
     sb_updated_at = 1699900000000, sb_interval_seconds = 86400, sb_upload = None, sb_download = None, sb_total = None,
     sb_expire = None, sb_last_attempt = 1699900000000, sb_retry_at = 0, sb_held_until = 0, sb_last_error = []\<rparr>"

definition demo_subs :: subscriptions where
  "demo_subs = \<lparr>su_active = [], su_list = [demo_sub]\<rparr>"

definition demo_new :: "(msg, server) res \<times> source_config mihomo_core host" where
  "demo_new = New demo_env False (Inr DefaultSettings) (Inr demo_subs) demo_host"

definition demo_server :: server where
  "demo_server = projr (fst demo_new)"

definition demo_started :: "(perr, reply) res \<times> server \<times> source_config mihomo_core host" where
  "demo_started = start demo_env demo_server demo_host"

abbreviation on_server :: server where "on_server \<equiv> fst (snd demo_started)"
abbreviation on_host :: "source_config mihomo_core host" where "on_host \<equiv> snd (snd demo_started)"

definition demo_asked :: "(perr, bool \<times> fetched) res \<times> server \<times> source_config mihomo_core host" where
  "demo_asked = add_ask demo_env demo_url demo_server demo_host"

definition demo_added :: "(perr, reply) res \<times> server \<times> source_config mihomo_core host" where
  "demo_added = add_finish (ctx_of demo_env False) demo_url (snd (projr (fst demo_asked))) (fst (snd demo_asked)) (snd (snd demo_asked))"

lemma demo_new_eq: "demo_new = (Inr demo_server, demo_host)"
proof -
  have "snd demo_new = demo_host" "\<not> isl (fst demo_new)"
    by (simp_all add: demo_new_def New_def)
  then show ?thesis by (metis demo_server_def prod.collapse sum.collapse(2))
qed

lemma demo_env_sel [simp]: "e_now demo_env = ho_clock" "e_new_id demo_env = host_new_id"
  by (simp_all add: demo_env_def host_env_def)

lemma demo_server_sel:
  "su_list (sv_subs demo_server) = [demo_sub]" "su_active (sv_subs demo_server) = []" "sv_settings demo_server = DefaultSettings"
  "sv_state demo_server = StateStopped" "sv_profile demo_server = empty_profile" "sv_hub demo_server = empty_hub"
  by (simp_all add: demo_server_def demo_new_def New_def load_active_def activeSub_def demo_subs_def)

lemma demo_started_facts:
  "\<not> isl (fst demo_started)" "ho_clock on_host = 1700000000000000000" "running on_server"
  by code_simp+

lemma demo_asked_facts:
  "\<not> isl (fst demo_asked)" "\<not> fst (projr (fst demo_asked))" "ho_clock (snd (snd demo_asked)) = 1700000000000000000"
  "map sb_id (su_list (sv_subs (fst (snd demo_asked)))) = [sb_id demo_sub]"
  by code_simp+

lemma demo_id: "fst (host_new_id (snd (snd demo_asked))) = ''01010101010101010101010101010101''"
  by code_simp

lemma demo_daemon_env: "daemon_env demo_env demo_runs"
  unfolding demo_env_def by (rule mihomo_host.daemon_env_axioms)

lemma demo_new_reachable: "reachable demo_env demo_runs (at demo_server demo_host None)"
proof -
  have "New demo_env False (Inr DefaultSettings) (Inr demo_subs) demo_host = (Inr demo_server, demo_host)"
    using demo_new_eq by (simp add: demo_new_def)
  then show ?thesis
    by (rule reachable.boot)
      (simp_all add: subs_ok_def demo_subs_def demo_sub_def times_ok_def demo_host_def idle_core_def mihomo_runs_def)
qed

lemma demo_in_step: "in_step demo_runs demo_server demo_host"
  using daemon_env.reachable_ok[OF demo_daemon_env demo_new_reachable] by (simp add: sys_ok_def)

lemma demo_started_reachable: "reachable demo_env demo_runs (at on_server on_host None)"
proof (rule reachable.step[OF demo_new_reachable])
  show "sys_step demo_env demo_runs (at demo_server demo_host None) (at on_server on_host None)"
    by (rule sys_step.started[of demo_env _ _ "fst demo_started"]) (simp add: demo_started_def)
qed (simp add: demo_started_facts demo_host_def)

lemma on_in_step: "in_step demo_runs on_server on_host"
  using daemon_env.reachable_ok[OF demo_daemon_env demo_started_reachable] by (simp add: sys_ok_def)

lemma demo_asked_reachable:
  "reachable demo_env demo_runs (at (fst (snd demo_asked)) (snd (snd demo_asked)) (Some (Adding demo_url False (snd (projr (fst demo_asked))))))"
proof -
  have "add_ask demo_env demo_url demo_server demo_host
      = (Inr (False, snd (projr (fst demo_asked))), fst (snd demo_asked), snd (snd demo_asked))"
    using demo_asked_facts(1,2) by (metis (full_types) demo_asked_def prod.collapse sum.collapse(2))
  then show ?thesis
    by (intro reachable.step[OF demo_new_reachable] sys_step.add_asked) (simp_all add: demo_asked_facts demo_host_def)
qed

lemma demo_added_clock: "ho_clock (snd (snd demo_added)) = 1700000000000000000"
  by code_simp

lemma demo_added_reachable: "reachable demo_env demo_runs (at (fst (snd demo_added)) (snd (snd demo_added)) None)"
proof (rule reachable.step[OF demo_asked_reachable])
  have "set (map sb_id (su_list (sv_subs (fst (snd demo_asked))))) = {sb_id demo_sub}" by (simp only: demo_asked_facts) simp
  then show "sys_step demo_env demo_runs
      (at (fst (snd demo_asked)) (snd (snd demo_asked)) (Some (Adding demo_url False (snd (projr (fst demo_asked))))))
      (at (fst (snd demo_added)) (snd (snd demo_added)) None)"
    by (intro sys_step.add_finished[of demo_env False _ _ _ _ "fst demo_added"]) (simp_all add: demo_added_def demo_id demo_sub_def)
qed (simp add: demo_added_clock demo_asked_facts)

end
