(* ===== verification/Wire.thy ===== *)
theory Wire
  imports Server
begin

text \<open>
  \<^verbatim>\<open>internal/protocol\<close>: one message per line (\<^verbatim>\<open>lines.go\<close>). \<^verbatim>\<open>encoding/json\<close> is a parameter: \<open>marshal\<close> encodes a value, a
  decoder reads the first value of a text and returns what follows it.
\<close>

subsection \<open>Lines\<close>

datatype line_error = EncodeFailed | TooLarge

definition Line :: "('v \<Rightarrow> string option) \<Rightarrow> 'v \<Rightarrow> (line_error, string) res" where
  "Line marshal v =
     (case marshal v of
        None \<Rightarrow> Inl EncodeFailed
      | Some b \<Rightarrow> if length b > MaxLine then Inl TooLarge else Inr (b @ [CHR 0x0A]))"

text \<open>A message that cannot be sent is replaced by an error in its place.\<close>

definition line_or_error :: "('v \<Rightarrow> string option) \<Rightarrow> (code \<Rightarrow> 'v) \<Rightarrow> 'v \<Rightarrow> string" where
  "line_or_error marshal bad v =
     (case Line marshal v of
        Inr b \<Rightarrow> b
      | Inl e \<Rightarrow> (case Line marshal (bad (if e = TooLarge then CodeTooLarge else CodeInternal)) of Inr b \<Rightarrow> b | Inl _ \<Rightarrow> []))"

text \<open>\<^verbatim>\<open>bufio.Scanner\<close> over lines: a line of at most \<open>limit\<close> bytes is a token without its end, and the first longer one ends
  the scan. \<open>NewScanner\<close> has a buffer of \<^verbatim>\<open>MaxLine + 1\<close> bytes.\<close>

definition drop_cr :: "string \<Rightarrow> string" where
  "drop_cr l = (if l \<noteq> [] \<and> last l = CHR 0x0D then butlast l else l)"

lemma cut_at_rest: "cut_at c s = (l, rest, found) \<Longrightarrow> s \<noteq> [] \<Longrightarrow> length rest < length s"
  using length_dropWhile_le[of "\<lambda>x. x \<noteq> c" s] by (cases s) (auto simp: cut_at_def less_Suc_eq_le)

function scan_lines :: "nat \<Rightarrow> string \<Rightarrow> string list" where
  "scan_lines limit s =
     (if s = [] then []
      else case cut_at (CHR 0x0A) s of (l, rest, found) \<Rightarrow>
        if length l > limit then []
        else if found then drop_cr l # scan_lines limit rest else [drop_cr l])"
  by pat_completeness auto
termination
  by (relation "measure (\<lambda>(_, s). length s)") (auto dest!: cut_at_rest[OF sym])

declare scan_lines.simps [simp del]

definition NewScanner :: "string \<Rightarrow> string list" where
  "NewScanner s = scan_lines MaxLine s"

text \<open>\<^verbatim>\<open>Decode\<close>: after the value only white space may follow.\<close>

type_synonym 'v decoder = "string \<Rightarrow> (msg, 'v \<times> string) res"

definition json_space :: "char \<Rightarrow> bool" where
  "json_space c \<longleftrightarrow> c \<in> {CHR '' '', CHR 0x09, CHR 0x0A, CHR 0x0D}"

definition Decode :: "'v decoder \<Rightarrow> string \<Rightarrow> (msg, 'v) res" where
  "Decode dec dat =
     (case dec dat of
        Inl err \<Rightarrow> Inl err
      | Inr (v, rest) \<Rightarrow> if list_all json_space rest then Inr v else Inl [(''trailing data after the value'', [])])"

subsection \<open>What lines carry\<close>

text \<open>A line is read back as the message that was written, whatever comes after it.\<close>

definition sendable :: "string \<Rightarrow> bool" where
  "sendable b \<longleftrightarrow> CHR 0x0A \<notin> set b \<and> (b = [] \<or> last b \<noteq> CHR 0x0D)"

lemma cut_at_first: "c \<notin> set b \<Longrightarrow> cut_at c (b @ c # rest) = (b, rest, True)"
  by (induction b) (auto simp: cut_at_def)

lemma drop_cr_sendable: "sendable b \<Longrightarrow> drop_cr b = b"
  by (auto simp: sendable_def drop_cr_def)

lemma NewScanner_Line:
  assumes "Line marshal v = Inr l" "\<And>b. marshal v = Some b \<Longrightarrow> sendable b"
  shows "\<exists>b. marshal v = Some b \<and> NewScanner (l @ rest) = b # NewScanner rest"
proof -
  obtain b where b: "marshal v = Some b" "length b \<le> MaxLine" "l = b @ [CHR 0x0A]"
    using assms(1) by (auto simp: Line_def split: option.splits if_splits)
  with assms(2) have "sendable b" by simp
  then have "cut_at (CHR 0x0A) (b @ CHR 0x0A # rest) = (b, rest, True)" by (simp add: cut_at_first sendable_def)
  then have "NewScanner (l @ rest) = b # NewScanner rest"
    using b drop_cr_sendable[OF \<open>sendable b\<close>] by (simp add: NewScanner_def scan_lines.simps[of _ "b @ CHR 0x0A # rest"])
  with b show ?thesis by blast
qed

end
