(* ===== verification/Dispatch.thy ===== *)
theory Dispatch
  imports Wire System
begin

text \<open>
  \<^verbatim>\<open>handle\<close> of \<^verbatim>\<open>internal/daemon/ops.go\<close>, which decodes the arguments of a call and runs its operation, with the operations
  that only read or that act on the core alone. \<open>call_env\<close> adds to the world of \<open>Server\<close> what these need: the decoders, the
  rest of the core's interface, the address check and the encoders of replies and live values, and \<open>ca_outside\<close>: how the world may change between two steps of the daemon.
\<close>

datatype answer = AReply reply | ADownloads "download_request list" | ASubscriptions "sub_item list"
  | AGroups "group_item list" | ADelays "(string \<times> int) list" | ARules rule_list | AConnections connections | AEgress string int

datatype message = MHello nat string | MRefused perr | MReply nat "(perr, answer) res"

datatype live = LiveTraffic traffic | LiveConnections connections | LiveError code

text \<open>What the HTTP client of the address check returns: the status and its text, what could be read of the body, and the milliseconds.\<close>

datatype trace_answer = BadRequest msg | NoAnswer msg | Answer nat string string int

record call_codec =
  dc_request :: "(nat \<times> string \<times> string) decoder"
  dc_id :: "string \<Rightarrow> nat option"
  dc_none :: "unit decoder"
  dc_decision :: "(string \<times> bool) decoder"
  dc_streams :: "string list decoder"
  dc_apply :: "apply_args decoder"
  dc_select :: "(string \<times> string) decoder"
  dc_delay :: "(string \<times> string list) decoder"
  dc_close :: "(bool \<times> string list) decoder"
  dc_url :: "string decoder"
  dc_name :: "string decoder"

text \<open>What may happen to the world between two steps of the daemon: time passes, the network will answer in this way, the core drains
  connections of an earlier run.\<close>

datatype outside = Elapsed nat | Arriving "(fetch_err, response) res list" | Draining "64 word" bool

record 'w call_env =
  ca_env :: "'w env"
  ca_codec :: call_codec
  ca_delay :: "string \<Rightarrow> string list \<Rightarrow> 'w \<Rightarrow> (core_err, (string \<times> int) list) res \<times> 'w"
  ca_connections :: "'w \<Rightarrow> (core_err, connections) res \<times> 'w"
  ca_close :: "string list option \<Rightarrow> 'w \<Rightarrow> core_err option \<times> 'w"
  ca_traffic :: "'w \<Rightarrow> (core_err, traffic) res"
  ca_trace :: "'w \<Rightarrow> trace_answer \<times> 'w"
  ca_addr :: "string \<Rightarrow> string option"
  ca_message :: "message \<Rightarrow> string option"
  ca_live :: "live \<Rightarrow> string option"
  ca_version :: string
  ca_max_clients :: nat
  ca_outside :: "outside \<Rightarrow> 'w \<Rightarrow> 'w"

subsection \<open>Arguments\<close>

definition decode_args :: "'v decoder \<Rightarrow> string \<Rightarrow> (perr, 'v) res" where
  "decode_args dec raw =
     (case Decode dec (if raw = [] \<or> raw = ''null'' then ''{}'' else raw) of
        Inl err \<Rightarrow> Inl (fail_with CodeBadRequest ''invalid args: %v'' [] err)
      | Inr v \<Rightarrow> Inr v)"

subsection \<open>Operations on the core alone\<close>

definition testDelay :: "'w call_env \<Rightarrow> string \<Rightarrow> string list \<Rightarrow> server \<Rightarrow> 'w \<Rightarrow> (perr, answer) res \<times> server \<times> 'w" where
  "testDelay K gname proxies s w =
     (case validName ''group'' gname of
        Some err \<Rightarrow> (Inl err, s, w)
      | None \<Rightarrow>
          (case validNames ''proxy'' proxies of
             Some err \<Rightarrow> (Inl err, s, w)
           | None \<Rightarrow>
               (case ca_delay K gname proxies w of
                  (Inl err, w1) \<Rightarrow> (Inl (coreError err), s, w1)
                | (Inr delays, w1) \<Rightarrow> (Inr (ADelays delays), publish (ca_env K) w1 s, w1))))"

definition closeConnections :: "'w call_env \<Rightarrow> bool \<Rightarrow> string list \<Rightarrow> server \<Rightarrow> 'w \<Rightarrow> (perr, answer) res \<times> server \<times> 'w" where
  "closeConnections K everything ids s w =
     (if everything = (ids \<noteq> []) then (Inl (fail CodeInvalid ''name either connection ids or all'' []), s, w)
      else case (if everything then None else validNames ''connection id'' ids) of
             Some err \<Rightarrow> (Inl err, s, w)
           | None \<Rightarrow>
               (case ca_close K (if everything then None else Some ids) w of
                  (Some err, w1) \<Rightarrow> (Inl (coreError err), s, w1)
                | (None, w1) \<Rightarrow> (Inr (AReply REmpty), s, w1)))"

definition listConnections :: "'w call_env \<Rightarrow> server \<Rightarrow> 'w \<Rightarrow> (perr, answer) res \<times> server \<times> 'w" where
  "listConnections K s w =
     (case ca_connections K w of
        (Inl err, w1) \<Rightarrow> (Inl (coreError err), s, w1)
      | (Inr c, w1) \<Rightarrow> (Inr (AConnections c), s, w1))"

text \<open>\<^verbatim>\<open>traceIP\<close> over at most 64 KiB; a scanner's own buffer holds 64 KiB too.\<close>

definition traceLimit :: nat where "traceLimit = 65536"

fun trace_lines :: "(string \<Rightarrow> string option) \<Rightarrow> string list \<Rightarrow> (string, string) res" where
  "trace_lines addr [] = Inl ''the trace has no address''"
| "trace_lines addr (l # ls) =
     (if \<not> has_prefix l ''ip='' then trace_lines addr ls
      else case addr (trim_space (drop 3 l)) of
             None \<Rightarrow> Inl ''the trace has no valid address'' | Some a \<Rightarrow> Inr a)"

definition traceIP :: "(string \<Rightarrow> string option) \<Rightarrow> string \<Rightarrow> (string, string) res" where
  "traceIP addr body = trace_lines addr (scan_lines (traceLimit - 1) (take traceLimit body))"

definition egress :: "'w call_env \<Rightarrow> server \<Rightarrow> 'w \<Rightarrow> (perr, answer) res \<times> server \<times> 'w" where
  "egress K s w =
     (if \<not> running s then (Inl (fail CodeNotRunning ''the proxy is not running'' []), s, w)
      else case ca_trace K w of
             (BadRequest err, w1) \<Rightarrow> (Inl (fail_with CodeInternal ''%v'' [] err), s, w1)
           | (NoAnswer err, w1) \<Rightarrow> (Inl (fail_with CodeCore ''egress check failed: %v'' [] err), s, w1)
           | (Answer status text body elapsed, w1) \<Rightarrow>
               if status \<noteq> 200 then (Inl (fail CodeCore ''egress check failed: %s'' [text]), s, w1)
               else (case traceIP (ca_addr K) body of
                  Inl err \<Rightarrow> (Inl (fail_with CodeCore ''egress check failed: %v'' [] [(err, [])]), s, w1)
                | Inr ip \<Rightarrow> (Inr (AEgress ip (max 1 elapsed)), s, w1)))"

subsection \<open>The dispatch\<close>

definition OpDownloads :: string where "OpDownloads = ''downloads.list''"
definition OpDownloadDecision :: string where "OpDownloadDecision = ''downloads.respond''"
definition OpStatus :: string where "OpStatus = ''status''"
definition OpSubscribe :: string where "OpSubscribe = ''subscribe''"
definition OpUnsubscribe :: string where "OpUnsubscribe = ''unsubscribe''"
definition OpStart :: string where "OpStart = ''start''"
definition OpStop :: string where "OpStop = ''stop''"
definition OpApply :: string where "OpApply = ''settings.apply''"
definition OpSubscriptions :: string where "OpSubscriptions = ''subscriptions.list''"
definition OpSubscriptionAdd :: string where "OpSubscriptionAdd = ''subscriptions.add''"
definition OpSubscriptionUpdate :: string where "OpSubscriptionUpdate = ''subscriptions.update''"
definition OpSubscriptionUse :: string where "OpSubscriptionUse = ''subscriptions.activate''"
definition OpSubscriptionRemove :: string where "OpSubscriptionRemove = ''subscriptions.remove''"
definition OpRules :: string where "OpRules = ''rules.list''"
definition OpGroups :: string where "OpGroups = ''groups.list''"
definition OpSelect :: string where "OpSelect = ''groups.select''"
definition OpDelayTest :: string where "OpDelayTest = ''delay.test''"
definition OpConnections :: string where "OpConnections = ''connections.list''"
definition OpCloseConnections :: string where "OpCloseConnections = ''connections.close''"
definition OpEgress :: string where "OpEgress = ''egress.check''"

lemmas op_defs = OpDownloads_def OpDownloadDecision_def OpStatus_def OpSubscribe_def OpUnsubscribe_def OpStart_def OpStop_def
  OpApply_def OpSubscriptions_def OpSubscriptionAdd_def OpSubscriptionUpdate_def OpSubscriptionUse_def OpSubscriptionRemove_def
  OpRules_def OpGroups_def OpSelect_def OpDelayTest_def OpConnections_def OpCloseConnections_def OpEgress_def

text \<open>A call with its arguments decoded; what does not decode changes nothing.\<close>

definition with_args ::
  "'v decoder \<Rightarrow> string \<Rightarrow> server \<Rightarrow> 'w \<Rightarrow> ('v \<Rightarrow> (perr, answer) res \<times> server \<times> 'w) \<Rightarrow> (perr, answer) res \<times> server \<times> 'w" where
  "with_args dec raw s w f = (case decode_args dec raw of Inl err \<Rightarrow> (Inl err, s, w) | Inr v \<Rightarrow> f v)"

definition replying :: "(perr, reply) res \<times> server \<times> 'w \<Rightarrow> (perr, answer) res \<times> server \<times> 'w" where
  "replying x = (case x of (r, s, w) \<Rightarrow> (map_sum id AReply r, s, w))"

definition decide :: "'w call_env \<Rightarrow> string \<times> bool \<Rightarrow> server \<Rightarrow> 'w \<Rightarrow> (perr, answer) res \<times> server \<times> 'w" where
  "decide K a s w = (case decideDownload (ca_env K) (fst a) (snd a) s w of (r, _, s1) \<Rightarrow> (map_sum id AReply r, s1, w))"

definition subscribing :: "'w call_env \<Rightarrow> nat \<Rightarrow> string list \<Rightarrow> bool \<Rightarrow> server \<Rightarrow> 'w \<Rightarrow> (perr, answer) res \<times> server \<times> 'w" where
  "subscribing K i streams on s w =
     (case subscribe (ca_env K) i streams on w s of
        (Some err, s1) \<Rightarrow> (Inl err, s1, w) | (None, s1) \<Rightarrow> (Inr (AReply REmpty), s1, w))"

definition handle :: "'w call_env \<Rightarrow> nat \<Rightarrow> string \<Rightarrow> string \<Rightarrow> server \<Rightarrow> 'w \<Rightarrow> (perr, answer) res \<times> server \<times> 'w" where
  "handle K i op raw s w =
     (let E = ca_env K; D = ca_codec K;
          plain = (\<lambda>f. with_args (dc_none D) raw s w (\<lambda>_. f))
      in if op = OpDownloads then plain (Inr (ADownloads (downloadList s)), s, w)
         else if op = OpDownloadDecision then with_args (dc_decision D) raw s w (\<lambda>a. decide K a s w)
         else if op = OpStatus then plain (Inr (AReply (RStatus (status_of E s w))), s, w)
         else if op = OpSubscribe \<or> op = OpUnsubscribe
           then with_args (dc_streams D) raw s w (\<lambda>streams. subscribing K i streams (op = OpSubscribe) s w)
         else if op = OpStart then plain (replying (start E s w))
         else if op = OpStop then plain (replying (stop E s w))
         else if op = OpApply then with_args (dc_apply D) raw s w (\<lambda>a. replying (apply_settings E a s w))
         else if op = OpGroups then plain (case e_groups E w of
             Inl err \<Rightarrow> (Inl (coreError err), s, w) | Inr gs \<Rightarrow> (Inr (AGroups gs), s, w))
         else if op = OpSelect then with_args (dc_select D) raw s w (\<lambda>a. replying (selectProxy E (fst a) (snd a) s w))
         else if op = OpDelayTest then with_args (dc_delay D) raw s w (\<lambda>a. testDelay K (fst a) (snd a) s w)
         else if op = OpRules then plain (Inr (ARules (rule_listing (sv_settings s) (sv_profile s))), s, w)
         else if op = OpConnections then plain (listConnections K s w)
         else if op = OpCloseConnections then with_args (dc_close D) raw s w (\<lambda>a. closeConnections K (fst a) (snd a) s w)
         else if op = OpEgress then plain (egress K s w)
         else if op = OpSubscriptions then plain (Inr (ASubscriptions (subscriptionList s)), s, w)
         else if op = OpSubscriptionAdd then with_args (dc_url D) raw s w (\<lambda>url. replying (addSubscription E url s w))
         else if op = OpSubscriptionUpdate then with_args (dc_name D) raw s w (\<lambda>name. replying (updateSubscription E name s w))
         else if op = OpSubscriptionUse then with_args (dc_name D) raw s w (\<lambda>name. replying (activateSubscription E name s w))
         else if op = OpSubscriptionRemove then with_args (dc_name D) raw s w (\<lambda>name. replying (removeSubscription E name s w))
         else (Inl (fail CodeUnknownOp ''unknown op %q'' [op]), s, w))"

end
