(* ===== verification/Sessions.thy ===== *)
theory Sessions
  imports Dispatch
begin

text \<open>
  The clients of the daemon: \<^verbatim>\<open>admit\<close>, the ticks and the end of \<^verbatim>\<open>Run\<close> in \<^verbatim>\<open>internal/daemon/daemon.go\<close>, and \<^verbatim>\<open>serve\<close>, \<^verbatim>\<open>reply\<close> and
  \<^verbatim>\<open>write\<close> of \<^verbatim>\<open>session.go\<close>. The queue and the streams of a client are the \<open>session\<close> of \<open>Server\<close>; \<open>client\<close> adds the calls in
  flight and, for the claims, what was read, answered and written. The goroutines of a session take steps in any order;
  a call is one step, in which it runs and its reply enters the queue (\<open>System\<close> says how calls that download interleave).
\<close>

record client_request =
  cr_id :: nat
  cr_op :: string
  cr_args :: string

record client =
  cl_uid :: nat
  cl_flight :: "client_request list"
  cl_eof :: bool
  cl_asked :: "nat list"
  cl_replies :: "(nat \<times> (perr, answer) res) list"
  cl_written :: "string list"

datatype phase = Serving | Closing | Halted

record 'w serving =
  sg_server :: server
  sg_world :: 'w
  sg_clients :: "client list"
  sg_phase :: phase

definition maxInFlight :: nat where "maxInFlight = 8"

definition newSession :: session where
  "newSession = \<lparr>sn_streams = [], sn_out = [], sn_closed = False\<rparr>"

abbreviation sessions :: "'w serving \<Rightarrow> session list" where
  "sessions sg \<equiv> hb_sessions (sv_hub (sg_server sg))"

definition put_sessions :: "session list \<Rightarrow> server \<Rightarrow> server" where
  "put_sessions ss s = s\<lparr>sv_hub := (sv_hub s)\<lparr>hb_sessions := ss\<rparr>\<rparr>"

definition on_session :: "(session \<Rightarrow> session) \<Rightarrow> nat \<Rightarrow> 'w serving \<Rightarrow> 'w serving" where
  "on_session f i sg = sg\<lparr>sg_server := put_sessions ((sessions sg)[i := f (sessions sg ! i)]) (sg_server sg)\<rparr>"

definition on_client :: "(client \<Rightarrow> client) \<Rightarrow> nat \<Rightarrow> 'w serving \<Rightarrow> 'w serving" where
  "on_client f i sg = sg\<lparr>sg_clients := (sg_clients sg)[i := f (sg_clients sg ! i)]\<rparr>"

subsection \<open>Admission\<close>

text \<open>A peer's account, if the socket says it; the record of the owner is read for every connection.\<close>

datatype owner_error = Unclaimed | Unusable msg

definition admission :: "nat option \<Rightarrow> (owner_error, nat) res \<Rightarrow> (perr, nat) res" where
  "admission peer owner =
     (case peer of
        None \<Rightarrow> Inl (fail CodeForbidden ''could not identify the connecting account'' [])
      | Some uid \<Rightarrow>
          (case owner of
             Inl Unclaimed \<Rightarrow> Inl (fail CodeForbidden ''no owner has claimed this omihomo install'' [])
           | Inl (Unusable _) \<Rightarrow> Inl (fail CodeForbidden ''the owner record is unusable; reinstall the core'' [])
           | Inr ouid \<Rightarrow>
               if uid \<noteq> ouid then Inl (fail CodeForbidden ''this account does not own omihomo'' []) else Inr uid))"

text \<open>\<^verbatim>\<open>admit\<close>: the state after it, and what a refused client is sent. \<open>unix\<close> is whether the connection is a unix socket's.\<close>

definition send :: "('v \<Rightarrow> string option) \<Rightarrow> 'v \<Rightarrow> session \<Rightarrow> session" where
  "send marshal v ss = (case Line marshal v of Inr b \<Rightarrow> sendLine b ss | Inl _ \<Rightarrow> ss)"

definition protocolVersion :: nat where "protocolVersion = 3"

definition hello :: "'w call_env \<Rightarrow> message" where
  "hello K = MHello protocolVersion (ca_version K)"

definition admit :: "'w call_env \<Rightarrow> bool \<Rightarrow> nat option \<Rightarrow> (owner_error, nat) res \<Rightarrow> 'w serving \<Rightarrow> perr option \<times> 'w serving" where
  "admit K unix peer owner sg =
     (if \<not> unix then (Some (fail CodeForbidden ''only unix socket peers are served'' []), sg)
      else case admission peer owner of
             Inl err \<Rightarrow> (Some err, sg)
           | Inr uid \<Rightarrow>
               if length (sessions sg) \<ge> ca_max_clients K then (Some (fail CodeBusy ''too many clients'' []), sg)
               else (None, sg\<lparr>sg_server := put_sessions (sessions sg @ [send (ca_message K) (hello K) newSession]) (sg_server sg),
                      sg_clients := sg_clients sg @ [\<lparr>cl_uid = uid, cl_flight = [], cl_eof = False, cl_asked = [], cl_replies = [],
                        cl_written = []\<rparr>]\<rparr>))"

subsection \<open>Requests and replies\<close>

text \<open>\<^verbatim>\<open>reply\<close>: a result too large for one message becomes an error, so that the call fails and not the session.\<close>

definition shown :: "(perr, answer) res \<Rightarrow> (perr, answer) res" where
  "shown r = (if r = Inr (AReply RNothing) then Inr (AReply REmpty) else r)"

definition reply_line :: "'w call_env \<Rightarrow> nat \<Rightarrow> (perr, answer) res \<Rightarrow> string" where
  "reply_line K i r = line_or_error (ca_message K) (\<lambda>c. MReply i (Inl (fail c ''%v'' []))) (MReply i (shown r))"

definition reply_to :: "'w call_env \<Rightarrow> nat \<Rightarrow> nat \<Rightarrow> (perr, answer) res \<Rightarrow> 'w serving \<Rightarrow> 'w serving" where
  "reply_to K i n r sg =
     on_session (sendLine (reply_line K n r)) i (on_client (\<lambda>c. c\<lparr>cl_replies := cl_replies c @ [(n, r)]\<rparr>) i sg)"

text \<open>One line of the loop in \<^verbatim>\<open>serve\<close>.\<close>

definition recoverID :: "'w call_env \<Rightarrow> string \<Rightarrow> nat" where
  "recoverID K l = (case dc_id (ca_codec K) l of None \<Rightarrow> 0 | Some i \<Rightarrow> i)"

definition asked_id :: "nat \<Rightarrow> nat \<Rightarrow> 'w serving \<Rightarrow> 'w serving" where
  "asked_id n = on_client (\<lambda>c. c\<lparr>cl_asked := cl_asked c @ [n]\<rparr>)"

definition serve_line :: "'w call_env \<Rightarrow> nat \<Rightarrow> string \<Rightarrow> 'w serving \<Rightarrow> 'w serving" where
  "serve_line K i raw sg =
     (let l = trim_space raw
      in if l = [] then sg
         else case Decode (dc_request (ca_codec K)) l of
                Inl err \<Rightarrow> reply_to K i (recoverID K l) (Inl (fail_with CodeBadRequest ''not a request: %v'' [] err)) (asked_id (recoverID K l) i sg)
              | Inr (n, op, args) \<Rightarrow>
                  if n = 0 \<or> op = [] then reply_to K i n (Inl (fail CodeBadRequest ''a request needs an id and an op'' [])) (asked_id n i sg)
                  else if length (cl_flight (sg_clients sg ! i)) \<ge> maxInFlight
                  then reply_to K i n (Inl (fail CodeBusy ''too many calls in flight'' [])) (asked_id n i sg)
                  else on_client (\<lambda>c. c\<lparr>cl_flight := cl_flight c @ [\<lparr>cr_id = n, cr_op = op, cr_args = args\<rparr>]\<rparr>) i (asked_id n i sg))"

text \<open>A call in flight ends: \<open>handle\<close> and the reply to it.\<close>

definition drop_nth :: "nat \<Rightarrow> 'a list \<Rightarrow> 'a list" where
  "drop_nth k xs = take k xs @ drop (Suc k) xs"

definition answer_call :: "'w call_env \<Rightarrow> nat \<Rightarrow> nat \<Rightarrow> 'w serving \<Rightarrow> 'w serving" where
  "answer_call K i k sg =
     (let rq = cl_flight (sg_clients sg ! i) ! k
      in case handle K i (cr_op rq) (cr_args rq) (sg_server sg) (sg_world sg) of
           (r, s1, w1) \<Rightarrow>
             reply_to K i (cr_id rq) r (on_client (\<lambda>c. c\<lparr>cl_flight := drop_nth k (cl_flight c)\<rparr>) i
               (sg\<lparr>sg_server := s1, sg_world := w1\<rparr>)))"

subsection \<open>Writing and leaving\<close>

text \<open>\<^verbatim>\<open>put\<close> of the oldest line in the queue; a write that fails or takes too long closes the session.\<close>

definition write_next :: "nat \<Rightarrow> bool \<Rightarrow> 'w serving \<Rightarrow> 'w serving" where
  "write_next i ok sg =
     (if ok
      then on_client (\<lambda>c. c\<lparr>cl_written := cl_written c @ [hd (sn_out (sessions sg ! i))]\<rparr>) i (on_session (\<lambda>ss. ss\<lparr>sn_out := tl (sn_out ss)\<rparr>) i sg)
      else on_session (\<lambda>ss. ss\<lparr>sn_closed := True\<rparr>) i sg)"

definition may_write :: "nat \<Rightarrow> 'w serving \<Rightarrow> bool" where
  "may_write i sg \<longleftrightarrow> \<not> sn_closed (sessions sg ! i) \<and> sn_out (sessions sg ! i) \<noteq> []"

text \<open>The loop over the lines has ended, the calls too, and the writer has returned.\<close>

definition finished :: "nat \<Rightarrow> 'w serving \<Rightarrow> bool" where
  "finished i sg \<longleftrightarrow> cl_flight (sg_clients sg ! i) = [] \<and> (sn_closed (sessions sg ! i) \<or> sn_out (sessions sg ! i) = [])"

definition leave :: "nat \<Rightarrow> 'w serving \<Rightarrow> 'w serving" where
  "leave i sg = sg\<lparr>sg_server := put_sessions (drop_nth i (sessions sg)) (sg_server sg), sg_clients := drop_nth i (sg_clients sg)\<rparr>"

subsection \<open>The loops\<close>

definition listening :: "string \<Rightarrow> 'w serving \<Rightarrow> bool" where
  "listening stream sg = list_ex (\<lambda>ss. wants ss stream) (sessions sg)"

definition broadcast :: "'w call_env \<Rightarrow> string \<Rightarrow> live \<Rightarrow> 'w serving \<Rightarrow> 'w serving" where
  "broadcast K stream v sg =
     (let b = line_or_error (ca_live K) LiveError v
      in sg\<lparr>sg_server := put_sessions (map (\<lambda>ss. if wants ss stream then sendLine b ss else ss) (sessions sg)) (sg_server sg)\<rparr>)"

definition tick_groups :: "'w call_env \<Rightarrow> 'w serving \<Rightarrow> 'w serving" where
  "tick_groups K sg =
     (if running (sg_server sg) \<and> listening StreamGroups sg
      then sg\<lparr>sg_server := publishLocked (ca_env K) StreamGroups None (sg_world sg) (sg_server sg)\<rparr> else sg)"

definition tick :: "'w call_env \<Rightarrow> 'w serving \<Rightarrow> 'w serving" where
  "tick K sg =
     (if \<not> running (sg_server sg) then sg
      else let sg1 = (if listening StreamTraffic sg
                      then (case ca_traffic K (sg_world sg) of Inr v \<Rightarrow> broadcast K StreamTraffic (LiveTraffic v) sg | Inl _ \<Rightarrow> sg) else sg)
           in if listening StreamConnections sg1
              then (case ca_connections K (sg_world sg1) of
                      (Inr v, w1) \<Rightarrow> broadcast K StreamConnections (LiveConnections v) (sg1\<lparr>sg_world := w1\<rparr>)
                    | (Inl _, w1) \<Rightarrow> sg1\<lparr>sg_world := w1\<rparr>)
              else sg1)"

text \<open>The context of \<^verbatim>\<open>Run\<close> is done: every session closes, one that was let in meanwhile as well. Once all clients have left, the core is stopped.\<close>

definition close_all :: "'w serving \<Rightarrow> 'w serving" where
  "close_all sg = sg\<lparr>sg_server := put_sessions (map (\<lambda>ss. ss\<lparr>sn_closed := True\<rparr>) (sessions sg)) (sg_server sg), sg_phase := Closing\<rparr>"

definition halt :: "'w call_env \<Rightarrow> 'w serving \<Rightarrow> 'w serving" where
  "halt K sg = sg\<lparr>sg_world := snd (e_stop (ca_env K) (sg_world sg)), sg_phase := Halted\<rparr>"

subsection \<open>Steps\<close>

inductive serve_step :: "'w call_env \<Rightarrow> 'w serving \<Rightarrow> 'w serving \<Rightarrow> bool" for K :: "'w call_env" where
  admitted: "sg_phase sg \<noteq> Halted \<Longrightarrow> admit K unix peer owner sg = (r, sg') \<Longrightarrow> serve_step K sg sg'"
| line_read: "i < length (sg_clients sg) \<Longrightarrow> \<not> cl_eof (sg_clients sg ! i) \<Longrightarrow> serve_step K sg (serve_line K i raw sg)"
| hung_up: "i < length (sg_clients sg) \<Longrightarrow> serve_step K sg (on_client (\<lambda>c. c\<lparr>cl_eof := True\<rparr>) i sg)"
| answered: "i < length (sg_clients sg) \<Longrightarrow> k < length (cl_flight (sg_clients sg ! i)) \<Longrightarrow> serve_step K sg (answer_call K i k sg)"
| line_written: "i < length (sg_clients sg) \<Longrightarrow> may_write i sg \<Longrightarrow> serve_step K sg (write_next i ok sg)"
| left_us: "i < length (sg_clients sg) \<Longrightarrow> cl_eof (sg_clients sg ! i) \<Longrightarrow> finished i sg \<Longrightarrow> serve_step K sg (leave i sg)"
| groups_ticked: "sg_phase sg \<noteq> Halted \<Longrightarrow> serve_step K sg (tick_groups K sg)"
| ticked: "sg_phase sg \<noteq> Halted \<Longrightarrow> serve_step K sg (tick K sg)"
| refreshed: "sg_phase sg \<noteq> Halted \<Longrightarrow> refresh_round (ca_env K) (sg_server sg) (sg_world sg) = (s', w') \<Longrightarrow>
    serve_step K sg (sg\<lparr>sg_server := s', sg_world := w'\<rparr>)"
| closing: "sg_phase sg \<noteq> Halted \<Longrightarrow> serve_step K sg (close_all sg)"
| halted: "sg_phase sg = Closing \<Longrightarrow> sg_clients sg = [] \<Longrightarrow> serve_step K sg (halt K sg)"
| elapsed_outside: "serve_step K sg (sg\<lparr>sg_world := ca_outside K o_event (sg_world sg)\<rparr>)"

inductive_cases serve_stepE: "serve_step K sg sg'"

text \<open>What the daemon does for one client without reading more from it.\<close>

inductive own_step :: "'w call_env \<Rightarrow> nat \<Rightarrow> 'w serving \<Rightarrow> 'w serving \<Rightarrow> bool" for K :: "'w call_env" and i :: nat where
  own_answer: "i < length (sg_clients sg) \<Longrightarrow> k < length (cl_flight (sg_clients sg ! i)) \<Longrightarrow> own_step K i sg (answer_call K i k sg)"
| own_write: "i < length (sg_clients sg) \<Longrightarrow> may_write i sg \<Longrightarrow> own_step K i sg (write_next i ok sg)"

inductive_cases own_stepE: "own_step K i sg sg'"

inductive serving_reachable :: "'w call_env \<Rightarrow> 'w serving \<Rightarrow> bool" for K :: "'w call_env" where
  served: "New (ca_env K) owned store_settings store_subs w0 = (Inr s, w) \<Longrightarrow>
    serving_reachable K \<lparr>sg_server = s, sg_world = w, sg_clients = [], sg_phase = Serving\<rparr>"
| served_step: "serving_reachable K sg \<Longrightarrow> serve_step K sg sg' \<Longrightarrow> serving_reachable K sg'"

end
