(* ===== verification/Session_Laws.thy ===== *)
theory Session_Laws
  imports Sessions
begin

text \<open>
  What the daemon's operations do to the queues of its clients: lines are only added, at the end and never over the limit of a
  queue; a closed session stays closed; and the streams of a client stay streams that exist.
\<close>

subsection \<open>Queues that grow\<close>

definition grew :: "session \<Rightarrow> session \<Rightarrow> bool" where
  "grew a b \<longleftrightarrow> (\<exists>more. sn_out b = sn_out a @ more) \<and> (sn_closed a \<longrightarrow> sn_closed b)
     \<and> (length (sn_out a) \<le> sendQueue \<longrightarrow> length (sn_out b) \<le> sendQueue)
     \<and> (set (sn_streams a) \<subseteq> set allStreams \<longrightarrow> set (sn_streams b) \<subseteq> set allStreams)"

definition hub_grew :: "session list \<Rightarrow> server \<Rightarrow> bool" where
  "hub_grew ss s \<longleftrightarrow> list_all2 grew ss (hb_sessions (sv_hub s))"

lemma grew_refl [simp]: "grew a a"
  by (simp add: grew_def)

lemma grew_trans: "grew a b \<Longrightarrow> grew b c \<Longrightarrow> grew a c"
  by (auto simp: grew_def)

lemma hub_grew_start: "hub_grew (hb_sessions (sv_hub s)) s"
  by (simp add: hub_grew_def list_all2_refl)

lemma hub_grew_sel [simp]:
  "hub_grew ss (s\<lparr>sv_state := a\<rparr>) = hub_grew ss s" "hub_grew ss (s\<lparr>sv_detail := b\<rparr>) = hub_grew ss s"
  "hub_grew ss (s\<lparr>sv_startedAt := c\<rparr>) = hub_grew ss s" "hub_grew ss (s\<lparr>sv_settings := d\<rparr>) = hub_grew ss s"
  "hub_grew ss (s\<lparr>sv_subs := e\<rparr>) = hub_grew ss s" "hub_grew ss (s\<lparr>sv_profile := f\<rparr>) = hub_grew ss s"
  "hub_grew ss (s\<lparr>sv_restorePending := g\<rparr>) = hub_grew ss s" "hub_grew ss (s\<lparr>sv_addAsked := h\<rparr>) = hub_grew ss s"
  "hub_grew ss (s\<lparr>sv_downloads := k\<rparr>) = hub_grew ss s" "hub_grew ss (setState E st det w s) = hub_grew ss s"
  "hub_grew ss (set_profile_if q f s) = hub_grew ss s"
  by (simp_all add: hub_grew_def setState_def Let_def set_profile_if_def split: proxy_state.split)

lemma sendLine_grew: "grew a (sendLine b a)"
  by (auto simp: sendLine_def grew_def)

lemma push_lines_grew:
  assumes "list_all2 grew ss l" shows "list_all2 grew ss (push_lines stream b changed also l)"
proof -
  have "list_all2 grew l (push_lines stream b changed also l)"
    by (auto simp: push_lines_def list_all2_conv_all_nth nth_enumerate_eq sendLine_grew)
  with assms show ?thesis by (rule list_all2_trans[rotated]) (rule grew_trans)
qed

lemma publishLocked_grew: "hub_grew ss s \<Longrightarrow> hub_grew ss (publishLocked E stream also w s)"
  by (auto simp: publishLocked_def hub_grew_def Let_def intro!: push_lines_grew split: option.split event.split)

lemma publish_grew [simp]: "hub_grew ss s \<Longrightarrow> hub_grew ss (publish E w s)"
  unfolding publish_def by (rule fold_invariant[of "hub_grew ss"]) (auto intro: publishLocked_grew)

lemma publishDownloads_grew [simp]: "hub_grew ss s \<Longrightarrow> hub_grew ss (publishDownloads E w s)"
  by (simp add: publishDownloads_def publishLocked_grew)

lemma subscribe_grew:
  assumes "hub_grew ss s" "subscribe E i streams on w s = (r, s')"
  shows "hub_grew ss s'"
proof -
  let ?l = "hb_sessions (sv_hub s)"
  have at: "hub_grew ss (s\<lparr>sv_hub := (sv_hub s)\<lparr>hb_sessions := ?l[i := (?l ! i)\<lparr>sn_streams := st\<rparr>]\<rparr>\<rparr>)"
    if "set (sn_streams (?l ! i)) \<subseteq> set allStreams \<longrightarrow> set st \<subseteq> set allStreams" for st
  proof -
    have "grew (?l ! i) ((?l ! i)\<lparr>sn_streams := st\<rparr>)" using that by (simp add: grew_def)
    then have "list_all2 grew ?l (?l[i := (?l ! i)\<lparr>sn_streams := st\<rparr>])"
      by (cases "i < length ?l") (auto simp: list_all2_conv_all_nth nth_list_update)
    with assms(1) show ?thesis unfolding hub_grew_def by simp (metis list_all2_trans[of grew grew grew] grew_trans)
  qed
  have f: "hub_grew ss (fold (\<lambda>x. publishLocked E x (Some i) w) xs t)" if "hub_grew ss t" for xs t
    by (rule fold_invariant[of "hub_grew ss"]) (auto intro: that publishLocked_grew)
  show ?thesis
  proof (cases "streams = [] \<or> find (\<lambda>x. x \<notin> set allStreams) streams \<noteq> None")
    case True
    then show ?thesis using assms by (auto simp: subscribe_def split: if_splits)
  next
    case False
    then have "set streams \<subseteq> set allStreams" by (auto simp: find_None_iff)
    with False assms(2) show ?thesis by (auto simp: subscribe_def Let_def intro!: f at split: if_splits)
  qed
qed

subsection \<open>The calls\<close>

named_theorems grows

lemma getDownload_grew [grows]:
  "getDownload E label rq s w = (r, s', w') \<Longrightarrow> hub_grew ss s \<Longrightarrow> hub_grew ss s'"
  unfolding getDownload_def Let_def
  by (auto split: sum.splits prod.splits if_splits approval.splits)

lemma decideDownload_grew [grows]:
  "decideDownload E i allow s w = (r, d, s') \<Longrightarrow> hub_grew ss s \<Longrightarrow> hub_grew ss s'"
  unfolding decideDownload_def by (auto split: option.splits)

lemma downloadGeodata_grew [grows]:
  "downloadGeodata E f s w = (r, s', w') \<Longrightarrow> hub_grew ss s \<Longrightarrow> hub_grew ss s'"
  unfolding downloadGeodata_def by (auto split: sum.splits prod.splits dest: grows)

lemma ensure_files_grew: "ensure_files E p fs s w = (r, s', w') \<Longrightarrow> hub_grew ss s \<Longrightarrow> hub_grew ss s'"
  by (induction fs arbitrary: s w) (auto split: file_stat.splits sum.splits prod.splits option.splits dest: grows)

lemma ensureGeodata_grew [grows]: "ensureGeodata E p s w = (r, s', w') \<Longrightarrow> hub_grew ss s \<Longrightarrow> hub_grew ss s'"
  unfolding ensureGeodata_def by (rule ensure_files_grew)

lemma refresh_files_grew: "refresh_files E fs s w = (s', w') \<Longrightarrow> hub_grew ss s \<Longrightarrow> hub_grew ss s'"
  by (induction fs arbitrary: s w)
    (auto simp: Let_def split: file_stat.splits sum.splits prod.splits if_splits dest: grows)

lemma refreshGeodata_grew [grows]: "refreshGeodata E s w = (s', w') \<Longrightarrow> hub_grew ss s \<Longrightarrow> hub_grew ss s'"
  unfolding refreshGeodata_def by (rule refresh_files_grew)

lemma saves_grew [grows]:
  "saveSettings E nxt s w = (r, s', w') \<Longrightarrow> hub_grew ss s \<Longrightarrow> hub_grew ss s'"
  "saveSubs E su s w = (r, s', w') \<Longrightarrow> hub_grew ss s \<Longrightarrow> hub_grew ss s'"
  unfolding saveSettings_def saveSubs_def by (auto split: prod.splits option.splits)

lemma saveRunning_grew [grows]: "saveRunning E on s w = (r, s', w') \<Longrightarrow> hub_grew ss s \<Longrightarrow> hub_grew ss s'"
  unfolding saveRunning_def by (auto split: if_splits dest: grows)

lemma ensure_grew [grows]:
  "ensure_and_apply E cfg s w = (r, s', w') \<Longrightarrow> hub_grew ss s \<Longrightarrow> hub_grew ss s'"
  "ensure_and_check E code cfg s w = (p, s', w') \<Longrightarrow> hub_grew ss s \<Longrightarrow> hub_grew ss s'"
  unfolding ensure_and_apply_def ensure_and_check_def Let_def by (auto split: prod.splits option.splits dest: grows)

lemma start_failed_grew [simp]: "hub_grew ss s \<Longrightarrow> hub_grew ss (start_failed E det s w)"
  by (simp add: start_failed_def)

lemma start_active_grew [grows]: "start_active E s w = (r, s', w') \<Longrightarrow> hub_grew ss s \<Longrightarrow> hub_grew ss s'"
  unfolding start_active_def Let_def by (auto split: prod.splits option.splits dest!: ensure_grew(1)[where ss = ss])

lemma startLocked_grew [grows]: "startLocked E s w = (r, s', w') \<Longrightarrow> hub_grew ss s \<Longrightarrow> hub_grew ss s'"
  unfolding startLocked_def Let_def by (auto split: if_splits sum.splits option.splits dest!: start_active_grew[where ss = ss])

lemma start_grew [grows]: "start E s w = (r, s', w') \<Longrightarrow> hub_grew ss s \<Longrightarrow> hub_grew ss s'"
  unfolding start_def by (auto split: prod.splits option.splits dest: grows)

lemma stop_grew [grows]: "stop E s w = (r, s', w') \<Longrightarrow> hub_grew ss s \<Longrightarrow> hub_grew ss s'"
  unfolding stop_def Let_def by (auto split: prod.splits option.splits dest!: saveRunning_grew[where ss = ss])

lemma retryRestore_grew [grows]: "retryRestore E s w = (s', w') \<Longrightarrow> hub_grew ss s \<Longrightarrow> hub_grew ss s'"
  unfolding retryRestore_def by (auto split: if_splits prod.splits option.splits dest!: startLocked_grew[where ss = ss])

lemma reapply_grew [grows]: "reapply E nxt p s w = (r, s', w') \<Longrightarrow> hub_grew ss s \<Longrightarrow> hub_grew ss s'"
  unfolding reapply_def by (auto split: if_splits prod.splits option.splits dest!: ensure_grew[where ss = ss])

lemma rollback_grew [grows]: "rollback E settings p s w = (ok, s', w') \<Longrightarrow> hub_grew ss s \<Longrightarrow> hub_grew ss s'"
  unfolding rollback_def by (auto split: if_splits prod.splits option.splits dest: grows)

lemma revert_settings_grew [grows]:
  "revert_settings E prev nxt p failure s w = (r, s', w') \<Longrightarrow> hub_grew ss s \<Longrightarrow> hub_grew ss s'"
  unfolding revert_settings_def Let_def by (auto split: prod.splits if_splits dest!: rollback_grew[where ss = ss])

lemma commitSettings_grew [grows]: "commitSettings E nxt p s w = (r, s', w') \<Longrightarrow> hub_grew ss s \<Longrightarrow> hub_grew ss s'"
  unfolding commitSettings_def Let_def by (auto split: prod.splits option.splits if_splits dest: grows)

lemma apply_settings_grew [grows]: "apply_settings E args s w = (r, s', w') \<Longrightarrow> hub_grew ss s \<Longrightarrow> hub_grew ss s'"
  unfolding apply_settings_def apply_locked_def Let_def
  by (auto split: prod.splits option.splits if_splits dest!: commitSettings_grew[where ss = ss])

lemma acceptContent_grew [grows]: "acceptContent E settings p becomes s w = (r, s', w') \<Longrightarrow> hub_grew ss s \<Longrightarrow> hub_grew ss s'"
  unfolding acceptContent_def by (auto split: if_splits dest: grows)

lemma selectProxy_grew [grows]: "selectProxy E g p s w = (r, s', w') \<Longrightarrow> hub_grew ss s \<Longrightarrow> hub_grew ss s'"
  unfolding selectProxy_def Let_def by (auto split: prod.splits option.splits sum.splits)

subsection \<open>Subscriptions\<close>

lemma fetch_providers_grew [grows]:
  "fetch_providers E name left ps got s w = (r, s', w') \<Longrightarrow> hub_grew ss s \<Longrightarrow> hub_grew ss s'"
  by (induction ps arbitrary: left got s w) (auto simp: Let_def split: prod.splits sum.splits if_splits dest: grows)

lemma download_grew [grows]: "download E name url s w = (r, s', w') \<Longrightarrow> hub_grew ss s \<Longrightarrow> hub_grew ss s'"
  unfolding download_def Let_def by (auto split: prod.splits sum.splits if_splits dest: grows)

lemma updateSub_grew [grows]: "updateSub E i edit s w = (r, s', w') \<Longrightarrow> hub_grew ss s \<Longrightarrow> hub_grew ss s'"
  unfolding updateSub_def by (auto split: option.splits dest: grows)

lemma add_ask_grew [grows]: "add_ask E url s w = (r, s', w') \<Longrightarrow> hub_grew ss s \<Longrightarrow> hub_grew ss s'"
  unfolding add_ask_def Let_def
  by (auto split: prod.splits sum.splits option.splits if_splits dest!: download_grew[where ss = ss])

lemma revert_add_grew [grows]:
  "revert_add E activate settings prev nxt p s w = (s', w') \<Longrightarrow> hub_grew ss s \<Longrightarrow> hub_grew ss s'"
  unfolding revert_add_def by (auto split: prod.splits bool.splits if_splits dest!: rollback_grew[where ss = ss])

lemma add_finish_grew [grows]: "add_finish E url dl s w = (r, s', w') \<Longrightarrow> hub_grew ss s \<Longrightarrow> hub_grew ss s'"
  unfolding add_finish_def Let_def
  by (auto split: prod.splits option.splits if_splits
      dest!: acceptContent_grew[where ss = ss] saves_grew[where ss = ss] revert_add_grew[where ss = ss])

lemma addSubscription_grew [grows]: "addSubscription E url s w = (r, s', w') \<Longrightarrow> hub_grew ss s \<Longrightarrow> hub_grew ss s'"
  unfolding addSubscription_def by (auto split: prod.splits sum.splits dest: grows)

lemma refresh_ask_grew [grows]: "refresh_ask E i manual s w = (r, s', w') \<Longrightarrow> hub_grew ss s \<Longrightarrow> hub_grew ss s'"
  unfolding refresh_ask_def by (auto split: prod.splits option.splits if_splits dest: grows)

lemma failRefresh_grew [grows]:
  "failRefresh E sub now interval answered after why s w = (s', w') \<Longrightarrow> hub_grew ss s \<Longrightarrow> hub_grew ss s'"
  unfolding failRefresh_def by (auto split: prod.splits dest: grows)

lemma refresh_finish_grew [grows]:
  "refresh_finish E sub result s w = (r, s', w') \<Longrightarrow> hub_grew ss s \<Longrightarrow> hub_grew ss s'"
  unfolding refresh_finish_def Let_def
  by (auto split: prod.splits option.splits sum.splits if_splits
      dest!: acceptContent_grew[where ss = ss] failRefresh_grew[where ss = ss] rollback_grew[where ss = ss]
        updateSub_grew[where ss = ss])

lemma refresh_grew [grows]: "refresh E i manual s w = (r, s', w') \<Longrightarrow> hub_grew ss s \<Longrightarrow> hub_grew ss s'"
  unfolding refresh_def by (auto split: prod.splits asked.splits dest: grows)

lemma updateSubscription_grew [grows]: "updateSubscription E name s w = (r, s', w') \<Longrightarrow> hub_grew ss s \<Longrightarrow> hub_grew ss s'"
  unfolding updateSubscription_def by (auto split: sum.splits dest: grows)

lemma activateSubscription_grew [grows]:
  "activateSubscription E name s w = (r, s', w') \<Longrightarrow> hub_grew ss s \<Longrightarrow> hub_grew ss s'"
  unfolding activateSubscription_def Let_def
  by (auto split: prod.splits option.splits sum.splits if_splits
      dest!: acceptContent_grew[where ss = ss] saves_grew[where ss = ss] revert_add_grew[where ss = ss])

lemma removeSubscription_grew [grows]: "removeSubscription E name s w = (r, s', w') \<Longrightarrow> hub_grew ss s \<Longrightarrow> hub_grew ss s'"
  unfolding removeSubscription_def remove_found_def Let_def
  by (auto split: prod.splits option.splits sum.splits if_splits dest!: saves_grew[where ss = ss])

lemma refresh_round_grew: "refresh_round E s w = (s', w') \<Longrightarrow> hub_grew ss s \<Longrightarrow> hub_grew ss s'"
proof -
  assume run: "refresh_round E s w = (s', w')" and ok: "hub_grew ss s"
  obtain s1 w1 where a: "retryRestore E s w = (s1, w1)" by fastforce
  obtain s2 w2 where b: "refreshDue E s1 w1 = (s2, w2)" by fastforce
  have "hub_grew ss (fst (fold (\<lambda>i (s, w). snd (refresh E i False s w)) is (t, v)))" if "hub_grew ss t" for "is" t v
    using that
  proof (induction "is" arbitrary: t v)
    case (Cons i "is")
    obtain r t1 v1 where "refresh E i False t v = (r, t1, v1)" by (metis prod_cases3)
    with Cons.IH[of t1 v1] Cons.prems show ?case by (auto dest: refresh_grew)
  qed simp
  from this[OF retryRestore_grew[OF a ok]] have "hub_grew ss s2" using b by (simp add: refreshDue_def) (metis fst_conv)
  then show ?thesis using run a b by (auto simp: refresh_round_def dest: refreshGeodata_grew)
qed

subsection \<open>The dispatch\<close>

text \<open>In the form of a predicate on what a call returns.\<close>

definition call_grew :: "session list \<Rightarrow> 'r \<times> server \<times> 'w \<Rightarrow> bool" where
  "call_grew ss x = hub_grew ss (fst (snd x))"

lemma call_grew_simps [simp]: "call_grew ss (r, s, w) = hub_grew ss s" "call_grew ss (replying x) = call_grew ss x"
  by (simp_all add: call_grew_def replying_def split: prod.split)

lemma call_grewI: "(\<And>r s' w'. x = (r, s', w') \<Longrightarrow> hub_grew ss s') \<Longrightarrow> call_grew ss x"
  by (cases x) auto

lemma with_args_grew:
  "hub_grew ss s \<Longrightarrow> (\<And>v. call_grew ss (f v)) \<Longrightarrow> call_grew ss (with_args dec raw s w f)"
  by (simp add: with_args_def split: sum.split)

lemma calls_grew:
  assumes "hub_grew ss s"
  shows "call_grew ss (decide K a s w)" "call_grew ss (subscribing K i streams on s w)" "call_grew ss (testDelay K g ps s w)"
    "call_grew ss (closeConnections K everything ids s w)" "call_grew ss (egress K s w)" "call_grew ss (listConnections K s w)"
proof -
  show "call_grew ss (decide K a s w)"
    using assms by (auto simp: decide_def split: prod.split dest: decideDownload_grew)
  show "call_grew ss (subscribing K i streams on s w)"
    using assms by (auto simp: subscribing_def split: prod.split option.split dest: subscribe_grew)
  show "call_grew ss (testDelay K g ps s w)" using assms by (simp add: testDelay_def split: option.split prod.split sum.split)
  show "call_grew ss (closeConnections K everything ids s w)"
    using assms by (simp add: closeConnections_def split: option.split prod.split)
  show "call_grew ss (egress K s w)"
    using assms by (simp add: egress_def split: trace_answer.split prod.split sum.split)
  show "call_grew ss (listConnections K s w)" using assms by (simp add: listConnections_def split: prod.split sum.split)
qed

lemma handle_grew:
  assumes "hub_grew ss s"
  shows "call_grew ss (handle K i op raw s w)"
proof -
  have branch: "(c \<Longrightarrow> call_grew ss x) \<Longrightarrow> (\<not> c \<Longrightarrow> call_grew ss y) \<Longrightarrow> call_grew ss (if c then x else y)"
    for c and x y :: "(perr, answer) res \<times> server \<times> 'a" by simp
  have ops: "call_grew ss (start E s w)" "call_grew ss (stop E s w)" "call_grew ss (apply_settings E args s w)"
    "call_grew ss (selectProxy E g p s w)" "call_grew ss (addSubscription E url s w)" "call_grew ss (updateSubscription E name s w)"
    "call_grew ss (activateSubscription E name s w)" "call_grew ss (removeSubscription E name s w)"
    for E args g p url name using assms by (auto intro!: call_grewI dest: grows)
  show ?thesis unfolding handle_def Let_def
    by (intro branch with_args_grew assms) (simp_all add: ops calls_grew assms split: sum.split)
qed

end
