(* ===== verification/Session_Props.thy ===== *)
theory Session_Props
  imports Session_Laws "HOL-Library.Multiset"
begin

text \<open>
  What a client of the daemon can rely on: every request it sends is answered once, however the goroutines of its session and
  the rest of the daemon interleave, and all its answers come when it stops sending; only the owner is served.
\<close>

subsection \<open>One client\<close>

text \<open>What holds of a client and its session: the requests read are those answered and those in flight, and while the
  session is open the greeting and every reply are in what was written or is queued.\<close>

definition reply_lines :: "'w call_env \<Rightarrow> client \<Rightarrow> string multiset" where
  "reply_lines K c = image_mset (\<lambda>(n, r). reply_line K n r) (mset (cl_replies c))"

definition client_ok :: "'w call_env \<Rightarrow> client \<Rightarrow> session \<Rightarrow> bool" where
  "client_ok K c ss \<longleftrightarrow>
     mset (cl_asked c) = mset (map fst (cl_replies c)) + mset (map cr_id (cl_flight c))
     \<and> length (cl_flight c) \<le> maxInFlight \<and> length (sn_out ss) \<le> sendQueue \<and> set (sn_streams ss) \<subseteq> set allStreams
     \<and> (\<not> sn_closed ss \<longrightarrow> reply_lines K c \<subseteq># mset (cl_written c @ sn_out ss))"

definition serving_ok :: "'w call_env \<Rightarrow> 'w serving \<Rightarrow> bool" where
  "serving_ok K sg \<longleftrightarrow> list_all2 (client_ok K) (sg_clients sg) (sessions sg)"

lemma client_ok_grew: "client_ok K c a \<Longrightarrow> grew a b \<Longrightarrow> client_ok K c b"
  by (auto simp: client_ok_def grew_def add.assoc[symmetric] intro: subset_mset.order_trans)

lemma serving_ok_grew:
  assumes "serving_ok K sg" "hub_grew (sessions sg) s"
  shows "serving_ok K (sg\<lparr>sg_server := s, sg_world := w\<rparr>)" "serving_ok K (sg\<lparr>sg_server := s\<rparr>)"
proof -
  have "list_all2 (client_ok K) (sg_clients sg) (hb_sessions (sv_hub s))"
    using list_all2_trans[of "client_ok K" grew "client_ok K", OF _ assms(1)[unfolded serving_ok_def] assms(2)[unfolded hub_grew_def]]
      client_ok_grew by blast
  then show "serving_ok K (sg\<lparr>sg_server := s, sg_world := w\<rparr>)" "serving_ok K (sg\<lparr>sg_server := s\<rparr>)"
    by (simp_all add: serving_ok_def)
qed

lemma put_sessions_sel [simp]: "hb_sessions (sv_hub (put_sessions ss s)) = ss"
  by (simp add: put_sessions_def)

lemma on_sel [simp]:
  "sessions (on_session f i sg) = (sessions sg)[i := f (sessions sg ! i)]" "sg_clients (on_session f i sg) = sg_clients sg"
  "sessions (on_client g i sg) = sessions sg" "sg_clients (on_client g i sg) = (sg_clients sg)[i := g (sg_clients sg ! i)]"
  "sg_phase (on_session f i sg) = sg_phase sg" "sg_phase (on_client g i sg) = sg_phase sg"
  "sg_world (on_session f i sg) = sg_world sg" "sg_world (on_client g i sg) = sg_world sg"
  by (simp_all add: on_session_def on_client_def)

text \<open>A step of one client's own.\<close>

lemma serving_ok_at:
  assumes "serving_ok K sg" "i < length (sg_clients sg)"
    and "client_ok K (sg_clients sg ! i) (sessions sg ! i) \<Longrightarrow> client_ok K (g (sg_clients sg ! i)) (f (sessions sg ! i))"
  shows "serving_ok K (on_session f i (on_client g i sg))" "serving_ok K (on_client g i (on_session f i sg))"
  using assms by (auto simp: serving_ok_def list_all2_conv_all_nth nth_list_update)

lemma serving_ok_world [simp]: "serving_ok K (sg\<lparr>sg_world := w\<rparr>) = serving_ok K sg"
  by (simp add: serving_ok_def)

lemma serving_ok_client:
  "serving_ok K sg \<Longrightarrow> i < length (sg_clients sg) \<Longrightarrow> client_ok K (sg_clients sg ! i) (sessions sg ! i)"
  by (simp add: serving_ok_def list_all2_conv_all_nth)

lemma sendLine_reply:
  assumes "\<not> sn_closed (sendLine b ss)"
  shows "\<not> sn_closed ss" "sn_out (sendLine b ss) = sn_out ss @ [b]"
  using assms by (auto simp: sendLine_def split: if_splits)

lemma client_ok_reply:
  assumes "client_ok K c ss" "mset (cl_asked c') = add_mset n (mset (map fst (cl_replies c)) + mset (map cr_id (cl_flight c')))"
    "length (cl_flight c') \<le> maxInFlight" "cl_replies c' = cl_replies c @ [(n, r)]" "cl_written c' = cl_written c"
  shows "client_ok K c' (sendLine (reply_line K n r) ss)"
proof -
  have g: "grew ss (sendLine (reply_line K n r) ss)" by (rule sendLine_grew)
  have "reply_lines K c' \<subseteq># mset (cl_written c' @ sn_out (sendLine (reply_line K n r) ss))"
    if "\<not> sn_closed (sendLine (reply_line K n r) ss)"
    using sendLine_reply[OF that] assms(1,4,5) by (simp add: client_ok_def reply_lines_def)
  with g assms show ?thesis by (simp add: client_ok_def grew_def)
qed

subsection \<open>Every step keeps it\<close>

lemma reply_to_parts:
  assumes "i < length (sg_clients sg)"
  shows "reply_to K i n r (on_client g i sg)
    = on_session (sendLine (reply_line K n r)) i (on_client (\<lambda>c. (g c)\<lparr>cl_replies := cl_replies (g c) @ [(n, r)]\<rparr>) i sg)"
  using assms by (simp add: reply_to_def on_client_def)

lemma serve_line_ok:
  assumes "serving_ok K sg" "i < length (sg_clients sg)"
  shows "serving_ok K (serve_line K i raw sg)"
proof -
  have r: "serving_ok K (reply_to K i n r (asked_id n i sg))" for n r
    unfolding asked_id_def reply_to_parts[OF assms(2)]
    by (rule serving_ok_at(1)[OF assms], rule client_ok_reply) (auto simp: client_ok_def)
  have f: "serving_ok K (on_client (\<lambda>c. c\<lparr>cl_flight := cl_flight c @ [\<lparr>cr_id = n, cr_op = op, cr_args = args\<rparr>]\<rparr>) i (asked_id n i sg))"
    if "length (cl_flight (sg_clients sg ! i)) < maxInFlight" for n op args
    using assms that
    by (auto simp: asked_id_def serving_ok_def list_all2_conv_all_nth nth_list_update client_ok_def reply_lines_def)
  show ?thesis using r f assms(1) by (auto simp: serve_line_def Let_def split: sum.split)
qed

lemma mset_drop_nth: "k < length xs \<Longrightarrow> mset xs = add_mset (xs ! k) (mset (drop_nth k xs))"
  unfolding drop_nth_def by (subst id_take_nth_drop[of k xs]) simp_all

lemma length_drop_nth: "k < length xs \<Longrightarrow> length (drop_nth k xs) = length xs - 1"
  by (simp add: drop_nth_def)

lemma answer_call_ok:
  assumes "serving_ok K sg" "i < length (sg_clients sg)" "k < length (cl_flight (sg_clients sg ! i))"
  shows "serving_ok K (answer_call K i k sg)"
proof -
  let ?rq = "cl_flight (sg_clients sg ! i) ! k"
  obtain r s1 w1 where h: "handle K i (cr_op ?rq) (cr_args ?rq) (sg_server sg) (sg_world sg) = (r, s1, w1)" by (metis prod_cases3)
  define sg1 where "sg1 = sg\<lparr>sg_server := s1, sg_world := w1\<rparr>"
  have "hub_grew (sessions sg) s1" using handle_grew[OF hub_grew_start, of "sg_server sg" K i "cr_op ?rq" "cr_args ?rq" "sg_world sg"] h by (metis call_grew_simps(1))
  then have ok1: "serving_ok K sg1" unfolding sg1_def by (rule serving_ok_grew[OF assms(1)])
  have c1: "sg_clients sg1 = sg_clients sg" by (simp add: sg1_def)
  then have i1: "i < length (sg_clients sg1)" using assms(2) by simp
  have split: "mset (map cr_id (cl_flight (sg_clients sg ! i)))
      = add_mset (cr_id ?rq) (mset (map cr_id (drop_nth k (cl_flight (sg_clients sg ! i)))))"
    using mset_drop_nth[OF assms(3)] by (metis (no_types, lifting) image_mset_add_mset mset_map)
  have "answer_call K i k sg = reply_to K i (cr_id ?rq) r (on_client (\<lambda>c. c\<lparr>cl_flight := drop_nth k (cl_flight c)\<rparr>) i sg1)"
    by (simp add: answer_call_def h sg1_def)
  also have "serving_ok K \<dots>"
    unfolding reply_to_parts[OF i1]
    by (rule serving_ok_at(1)[OF ok1 i1], rule client_ok_reply)
      (use assms(3) split in \<open>auto simp: client_ok_def c1 length_drop_nth\<close>)
  finally show ?thesis .
qed

lemma write_next_ok:
  assumes "serving_ok K sg" "i < length (sg_clients sg)" "may_write i sg"
  shows "serving_ok K (write_next i ok sg)"
proof -
  have "sn_out (sessions sg ! i) = hd (sn_out (sessions sg ! i)) # tl (sn_out (sessions sg ! i))"
    using assms(3) by (simp add: may_write_def)
  then obtain b bs where out: "sn_out (sessions sg ! i) = b # bs" by blast
  show ?thesis
  proof (cases ok)
    case True
    then show ?thesis using out assms(1,2) unfolding write_next_def
      by (auto intro!: serving_ok_at(2)[OF assms(1,2)] simp: client_ok_def reply_lines_def)
  next
    case False
    then show ?thesis unfolding write_next_def
      using serving_ok_at(1)[OF assms(1,2), of "\<lambda>c. c" "\<lambda>ss. ss\<lparr>sn_closed := True\<rparr>"] assms(2)
      by (simp add: client_ok_def on_client_def)
  qed
qed

lemma drop_nth_all2: "list_all2 P xs ys \<Longrightarrow> list_all2 P (drop_nth k xs) (drop_nth k ys)"
  by (simp add: drop_nth_def list_all2_appendI)

lemma map_grew: "(\<And>x. grew x (f x)) \<Longrightarrow> hub_grew ss (put_sessions (map f ss) s)"
  by (simp add: hub_grew_def list_all2_conv_all_nth)

lemma broadcast_ok: "serving_ok K sg \<Longrightarrow> serving_ok K (broadcast K stream v sg)"
  unfolding broadcast_def Let_def by (rule serving_ok_grew) (auto intro!: map_grew sendLine_grew)

lemma client_ok_new: "client_ok K \<lparr>cl_uid = u, cl_flight = [], cl_eof = False, cl_asked = [], cl_replies = [], cl_written = []\<rparr>
    (send m v newSession)"
  by (simp add: client_ok_def reply_lines_def send_def newSession_def sendLine_def sendQueue_def split: sum.split)

lemma serve_step_ok:
  assumes "serve_step K sg sg'" "serving_ok K sg"
  shows "serving_ok K sg'"
  using assms
proof (induction rule: serve_step.induct)
  case (admitted sg unix peer owner r sg')
  then show ?case
    by (auto simp: admit_def serving_ok_def client_ok_new intro!: list_all2_appendI split: if_splits sum.splits)
next
  case (hung_up i sg)
  then show ?case by (auto simp: serving_ok_def list_all2_conv_all_nth nth_list_update client_ok_def reply_lines_def)
next
  case (left_us i sg)
  then show ?case by (simp add: leave_def serving_ok_def drop_nth_all2)
next
  case (groups_ticked sg)
  then show ?case by (auto simp: tick_groups_def intro: serving_ok_grew publishLocked_grew hub_grew_start)
next
  case (ticked sg)
  then show ?case by (auto simp: tick_def Let_def intro!: broadcast_ok split: sum.split prod.split)
next
  case (refreshed sg s' w')
  then show ?case by (auto intro: serving_ok_grew refresh_round_grew hub_grew_start)
next
  case (closing sg)
  then show ?case by (auto simp: close_all_def serving_ok_def list_all2_conv_all_nth client_ok_def)
next
  case (halted sg)
  then show ?case by (simp add: halt_def serving_ok_def)
next
  case (elapsed_outside sg o_event)
  then show ?case by (simp add: serving_ok_def)
qed (auto intro: serve_line_ok answer_call_ok write_next_ok)

lemma reachable_serving_ok: "serving_reachable K sg \<Longrightarrow> serving_ok K sg"
proof (induction rule: serving_reachable.induct)
  case (served owned store_settings store_subs w0 s w)
  then have "hb_sessions (sv_hub s) = []"
    by (auto simp: New_def load_active_def empty_hub_def split: sum.splits option.splits if_splits prod.splits)
  then show ?case by (simp add: serving_ok_def)
qed (rule serve_step_ok)

subsection \<open>Draining\<close>

text \<open>What a client that is done has got.\<close>

lemma finished_answers:
  assumes "serving_ok K sg" "i < length (sg_clients sg)" "finished i sg" "\<not> sn_closed (sessions sg ! i)"
  shows "mset (map fst (cl_replies (sg_clients sg ! i))) = mset (cl_asked (sg_clients sg ! i))"
    "reply_lines K (sg_clients sg ! i) \<subseteq># mset (cl_written (sg_clients sg ! i))"
  using serving_ok_client[OF assms(1,2)] assms(3,4) by (auto simp: client_ok_def finished_def)

lemma own_stuck: "i < length (sg_clients sg) \<Longrightarrow> \<not> (\<exists>sg'. own_step K i sg sg') \<Longrightarrow> finished i sg"
  unfolding finished_def using own_answer[of i sg 0 K] own_write[of i sg K True] by (auto simp: may_write_def)

definition backlog :: "nat \<Rightarrow> 'w serving \<Rightarrow> nat \<times> nat" where
  "backlog i sg = (length (cl_flight (sg_clients sg ! i)),
     if sn_closed (sessions sg ! i) then 0 else Suc (length (sn_out (sessions sg ! i))))"

lemma answer_call_flight:
  assumes "i < length (sg_clients sg)" "k < length (cl_flight (sg_clients sg ! i))"
  shows "length (cl_flight (sg_clients (answer_call K i k sg) ! i)) < length (cl_flight (sg_clients sg ! i))"
    "length (sg_clients (answer_call K i k sg)) = length (sg_clients sg)"
    "sg_phase (answer_call K i k sg) = sg_phase sg"
  using assms
  by (auto simp: answer_call_def Let_def reply_to_def on_client_def on_session_def length_drop_nth split: prod.split)

lemma own_step_backlog:
  assumes "own_step K i sg sg'" "length (sessions sg) = length (sg_clients sg)"
  shows "(backlog i sg', backlog i sg) \<in> less_than <*lex*> less_than"
    "length (sg_clients sg') = length (sg_clients sg)" "sg_phase sg' = sg_phase sg"
  using assms
proof (induction rule: own_step.induct)
  case (own_answer sg k)
  case 1 from own_answer answer_call_flight[of i sg k K] show ?case by (simp add: backlog_def)
  case 2 from own_answer answer_call_flight[of i sg k K] show ?case by simp
  case 3 from own_answer answer_call_flight[of i sg k K] show ?case by simp
next
  case (own_write sg ok)
  case 1 with own_write show ?case
    by (cases "sn_out (sessions sg ! i)") (auto simp: backlog_def write_next_def may_write_def)
  case 2 from own_write show ?case by (simp add: write_next_def)
  case 3 from own_write show ?case by (simp add: write_next_def)
qed

lemma own_step_serves: "own_step K i sg sg' \<Longrightarrow> serve_step K sg sg'"
  by (induction rule: own_step.induct) (auto intro: serve_step.intros)

lemma serving_ok_lengths: "serving_ok K sg \<Longrightarrow> length (sessions sg) = length (sg_clients sg)"
  by (simp add: serving_ok_def list_all2_lengthD)

text \<open>Without reading more, a client's own steps come to an end, and it is done then.\<close>

lemma own_steps_finish:
  assumes "serving_ok K sg" "i < length (sg_clients sg)"
  shows "\<exists>sg'. (own_step K i)\<^sup>*\<^sup>* sg sg' \<and> serving_ok K sg' \<and> finished i sg' \<and> length (sg_clients sg') = length (sg_clients sg)
    \<and> sg_phase sg' = sg_phase sg"
proof -
  have "wf (inv_image (less_than <*lex*> less_than) (backlog i))" by (simp add: wf_lex_prod wf_inv_image)
  then show ?thesis using assms
  proof (induction sg rule: wf_induct_rule)
    case (less sg)
    show ?case
    proof (cases "\<exists>sg'. own_step K i sg sg'")
      case False
      then show ?thesis using own_stuck[OF less.prems(2)] less.prems by blast
    next
      case True
      then obtain sg1 where s: "own_step K i sg sg1" by blast
      note b = own_step_backlog[OF s serving_ok_lengths[OF less.prems(1)]]
      have ok: "serving_ok K sg1" by (rule serve_step_ok[OF own_step_serves[OF s] less.prems(1)])
      have "(sg1, sg) \<in> inv_image (less_than <*lex*> less_than) (backlog i)" using b(1) by simp
      from less.IH[OF this ok] b less.prems(2) obtain sg2 where
        "(own_step K i)\<^sup>*\<^sup>* sg1 sg2" "serving_ok K sg2" "finished i sg2" "length (sg_clients sg2) = length (sg_clients sg1)"
        "sg_phase sg2 = sg_phase sg1" by auto
      with s b show ?thesis by (intro exI[of _ sg2]) (auto intro: converse_rtranclp_into_rtranclp)
    qed
  qed
qed

lemma own_steps_serve: "(own_step K i)\<^sup>*\<^sup>* sg sg' \<Longrightarrow> (serve_step K)\<^sup>*\<^sup>* sg sg'"
  by (rule rtranclp_mono[THEN predicate2D]) (auto intro: own_step_serves)

lemma own_steps_ok:
  assumes "(own_step K i)\<^sup>*\<^sup>* sg sg'" "serving_ok K sg"
  shows "serving_ok K sg' \<and> length (sg_clients sg') = length (sg_clients sg)"
  using assms
proof (induction rule: rtranclp_induct)
  case (step sg1 sg2)
  then have ok: "serving_ok K sg1" by blast
  with step show ?case using own_step_backlog(2)[OF step(2) serving_ok_lengths[OF ok]] serve_step_ok[OF own_step_serves[OF step(2)] ok] by simp
qed simp

lemma own_steps_end:
  assumes "serving_ok K sg"
  shows "\<nexists>f. f 0 = sg \<and> (\<forall>n. own_step K i (f n) (f (Suc n)))"
proof
  assume "\<exists>f. f 0 = sg \<and> (\<forall>n. own_step K i (f n) (f (Suc n)))"
  then obtain f where f: "f 0 = sg" "\<And>n. own_step K i (f n) (f (Suc n))" by blast
  have ok: "serving_ok K (f n)" for n
    by (induction n) (use f assms in \<open>auto intro: serve_step_ok own_step_serves\<close>)
  have "(f (Suc n), f n) \<in> inv_image (less_than <*lex*> less_than) (backlog i)" for n
    using own_step_backlog(1)[OF f(2) serving_ok_lengths[OF ok]] by simp
  moreover have "wf (inv_image (less_than <*lex*> less_than) (backlog i :: 'a serving \<Rightarrow> nat \<times> nat))"
    by (simp add: wf_lex_prod wf_inv_image)
  ultimately show False unfolding wf_iff_no_infinite_down_chain by blast
qed

lemma own_steps_answered:
  assumes "serving_ok K sg" "i < length (sg_clients sg)" "(own_step K i)\<^sup>*\<^sup>* sg sg'" "\<nexists>sg''. own_step K i sg' sg''"
    "\<not> sn_closed (sessions sg' ! i)"
  shows "let c = sg_clients sg' ! i in mset (map fst (cl_replies c)) = mset (cl_asked c)
    \<and> mset (map (\<lambda>(n, r). reply_line K n r) (cl_replies c)) \<subseteq># mset (cl_written c)"
proof -
  have ok: "serving_ok K sg'" "i < length (sg_clients sg')" using own_steps_ok[OF assms(3,1)] assms(2) by auto
  show ?thesis using finished_answers[OF ok own_stuck[OF ok(2) assms(4)] assms(5)] by (simp add: Let_def reply_lines_def)
qed

text \<open>A daemon that closes can always come to its end.\<close>

lemma closing_halts:
  assumes "serving_ok K sg" "sg_phase sg = Closing"
  shows "\<exists>sg'. (serve_step K)\<^sup>*\<^sup>* sg sg' \<and> sg_phase sg' = Halted"
  using assms
proof (induction "length (sg_clients sg)" arbitrary: sg)
  case 0
  then show ?case using halted[of sg K] by (auto simp: halt_def intro!: exI[of _ "halt K sg"])
next
  case (Suc n)
  then have i: "0 < length (sg_clients sg)" by linarith
  obtain sg1 where s1: "(own_step K 0)\<^sup>*\<^sup>* sg sg1" "serving_ok K sg1" "finished 0 sg1" "length (sg_clients sg1) = length (sg_clients sg)"
    "sg_phase sg1 = sg_phase sg" using own_steps_finish[OF Suc.prems(1) i] by blast
  define sg2 where "sg2 = on_client (\<lambda>c. c\<lparr>cl_eof := True\<rparr>) 0 sg1"
  have i1: "0 < length (sg_clients sg1)" using s1(4) i by simp
  have s2: "serve_step K sg1 sg2" unfolding sg2_def by (rule hung_up[OF i1])
  have f2: "finished 0 sg2" "cl_eof (sg_clients sg2 ! 0)" "0 < length (sg_clients sg2)" "sg_phase sg2 = Closing"
    "length (sg_clients sg2) = Suc n"
    using s1 i1 Suc.hyps(2) Suc.prems(2) by (auto simp: sg2_def finished_def)
  have s3: "serve_step K sg2 (leave 0 sg2)" by (rule left_us[OF f2(3,2,1)])
  have "serving_ok K (leave 0 sg2)" using s1(2) s2 s3 by (blast intro: serve_step_ok)
  moreover have "n = length (sg_clients (leave 0 sg2))" "sg_phase (leave 0 sg2) = Closing"
    using f2 by (simp_all add: leave_def length_drop_nth)
  ultimately obtain sg' where "(serve_step K)\<^sup>*\<^sup>* (leave 0 sg2) sg'" "sg_phase sg' = Halted" using Suc.hyps(1) by blast
  moreover have "(serve_step K)\<^sup>*\<^sup>* sg (leave 0 sg2)"
    using own_steps_serve[OF s1(1)] s2 s3 by (meson rtranclp.rtrancl_into_rtrancl)
  ultimately show ?case by (blast intro: rtranclp_trans)
qed

subsection \<open>What calls return\<close>

text \<open>The result \<^verbatim>\<open>protocol.go\<close> documents for each operation.\<close>

definition result_of :: "string \<Rightarrow> answer \<Rightarrow> bool" where
  "result_of op a = (case a of
     ADownloads _ \<Rightarrow> op = OpDownloads
   | AReply (RStatus _) \<Rightarrow> op \<in> {OpStatus, OpStart, OpStop, OpApply, OpSubscriptionUse}
   | AReply REmpty \<Rightarrow> op \<in> {OpDownloadDecision, OpSubscribe, OpUnsubscribe, OpCloseConnections, OpSubscriptionRemove}
   | AReply (RSubscription _) \<Rightarrow> op \<in> {OpSubscriptionAdd, OpSubscriptionUpdate}
   | AReply (RGroup _) \<Rightarrow> op = OpSelect
   | AReply RNothing \<Rightarrow> False
   | ASubscriptions _ \<Rightarrow> op = OpSubscriptions
   | ARules _ \<Rightarrow> op = OpRules
   | AGroups _ \<Rightarrow> op = OpGroups
   | ADelays _ \<Rightarrow> op = OpDelayTest
   | AConnections _ \<Rightarrow> op = OpConnections
   | AEgress _ _ \<Rightarrow> op = OpEgress)"

definition typed :: "string \<Rightarrow> (perr, answer) res \<times> server \<times> 'w \<Rightarrow> bool" where
  "typed op x = (case fst x of Inl _ \<Rightarrow> True | Inr a \<Rightarrow> result_of op a)"

lemma typed_simps [simp]: "typed op (Inl e, s, w)" "typed op (Inr a, s, w) = result_of op a"
  by (simp_all add: typed_def)

lemma typed_replying:
  "typed op (replying x) = (case fst x of Inl _ \<Rightarrow> True | Inr r \<Rightarrow> result_of op (AReply r))"
  by (cases x) (simp add: replying_def typed_def split: sum.split)

lemma typed_with_args: "(\<And>v. typed op (f v)) \<Longrightarrow> typed op (with_args dec raw s w f)"
  by (simp add: with_args_def split: sum.split)

lemma status_results:
  "start E s w = (Inr r, s', w') \<Longrightarrow> \<exists>st. r = RStatus st"
  "stop E s w = (Inr r, s', w') \<Longrightarrow> \<exists>st. r = RStatus st"
  "apply_settings E args s w = (Inr r, s', w') \<Longrightarrow> \<exists>st. r = RStatus st"
  "activateSubscription E name s w = (Inr r, s', w') \<Longrightarrow> \<exists>st. r = RStatus st"
  by (auto simp: start_def stop_def apply_settings_def apply_locked_def activateSubscription_def Let_def
      split: prod.splits option.splits sum.splits if_splits)

lemma updateSub_done:
  assumes "updateSub E i edit s w = (None, s', w')" "\<And>x. sb_id (edit x) = sb_id x"
  shows "sub_by_id i (su_list (sv_subs s')) \<noteq> None"
proof -
  have e: "edit_first i edit l = Some l' \<Longrightarrow> \<exists>x \<in> set l'. sb_id x = i" for l l'
    using assms(2) by (induction l arbitrary: l') (auto split: if_splits)
  show ?thesis using assms(1)
    by (auto simp: updateSub_def saveSubs_def sub_by_id_def find_None_iff split: option.splits prod.splits dest!: e)
qed

lemma subscription_results:
  "addSubscription E url s w = (Inr r, s', w') \<Longrightarrow> \<exists>x. r = RSubscription x"
  "updateSubscription E name s w = (Inr r, s', w') \<Longrightarrow> \<exists>x. r = RSubscription x"
proof -
  show "addSubscription E url s w = (Inr r, s', w') \<Longrightarrow> \<exists>x. r = RSubscription x"
    by (auto simp: addSubscription_def add_finish_def Let_def split: prod.splits option.splits sum.splits if_splits)
  have fin: "\<exists>x. r = RSubscription x" if "refresh_finish E sub result t v = (Inr r, s', w')" for sub result t v
    using that
    by (auto simp: refresh_finish_def Let_def split: prod.splits option.splits sum.splits if_splits
        dest!: updateSub_done simp: done_edit_def)
  assume "updateSubscription E name s w = (Inr r, s', w')"
  then show "\<exists>x. r = RSubscription x" using fin
    by (auto simp: updateSubscription_def refresh_def refresh_ask_def split: prod.splits option.splits sum.splits if_splits)
qed

lemma other_results:
  "selectProxy E g p s w = (Inr r, s', w') \<Longrightarrow> \<exists>x. r = RGroup x"
  "removeSubscription E name s w = (Inr r, s', w') \<Longrightarrow> r = REmpty"
  "decideDownload E i allow s w = (Inr r, d, s') \<Longrightarrow> r = REmpty"
  by (auto simp: selectProxy_def removeSubscription_def remove_found_def decideDownload_def Let_def
      split: prod.splits option.splits sum.splits if_splits)

lemma handle_typed:
  fixes K :: "'w call_env"
  shows "typed op (handle K i op raw s w)"
proof -
  have branch: "(c \<Longrightarrow> typed op x) \<Longrightarrow> (\<not> c \<Longrightarrow> typed op y) \<Longrightarrow> typed op (if c then x else y)"
    for c and x y :: "(perr, answer) res \<times> server \<times> 'w" by simp
  have run: "typed op (replying x)" if "\<And>r s' w'. x = (Inr r, s', w') \<Longrightarrow> result_of op (AReply r)"
    for op and x :: "(perr, reply) res \<times> server \<times> 'w"
    using that by (cases x) (auto simp: typed_replying split: sum.split)
  have ops: "typed OpStart (replying (start E s w))" "typed OpStop (replying (stop E s w))"
    "typed OpApply (replying (apply_settings E args s w))" "typed OpSubscriptionUse (replying (activateSubscription E name s w))"
    "typed OpSubscriptionAdd (replying (addSubscription E url s w))"
    "typed OpSubscriptionUpdate (replying (updateSubscription E name s w))"
    "typed OpSelect (replying (selectProxy E g p s w))" "typed OpSubscriptionRemove (replying (removeSubscription E name s w))"
    for E :: "'w env" and args name url g p
    by (auto intro!: run simp: result_of_def dest!: status_results subscription_results other_results)
  have "typed OpDownloadDecision (decide K a s w)" for a
    by (cases "decideDownload (ca_env K) (fst a) (snd a) s w"; cases "fst (decideDownload (ca_env K) (fst a) (snd a) s w)")
      (auto simp: decide_def result_of_def dest: other_results)
  moreover have "op = OpSubscribe \<or> op = OpUnsubscribe \<Longrightarrow> typed op (subscribing K i streams on s w)" for streams on
    by (auto simp: subscribing_def result_of_def split: prod.split option.split)
  moreover have "typed OpDelayTest (testDelay K g ps s w)" "typed OpCloseConnections (closeConnections K everything ids s w)"
    "typed OpEgress (egress K s w)" "typed OpConnections (listConnections K s w)" for g ps everything ids
    by (simp_all add: testDelay_def closeConnections_def egress_def listConnections_def result_of_def split: option.split prod.split sum.split trace_answer.split)
  ultimately show ?thesis unfolding handle_def Let_def
    by (intro branch typed_with_args) (simp_all add: ops result_of_def split: sum.split)
qed

end
