(* ===== verification/Session_World.thy ===== *)
theory Session_World
  imports Session_Props
begin

text \<open>
  The clients and the core together: whatever requests come, the daemon's view of the proxy stays in step with the core, and
  the core is stopped when the daemon has ended.
\<close>

subsection \<open>The core behind the calls\<close>

locale call_world = daemon_env "ca_env K" runs for K :: "'w call_env" and runs :: "'w \<Rightarrow> core_config option" +
  assumes delay_keeps: "ca_delay K g ps w = (r1, w') \<Longrightarrow> runs w' = runs w"
    and close_keeps: "ca_close K ids w = (r2, w') \<Longrightarrow> runs w' = runs w"
    and connections_keep: "ca_connections K w = (r4, w') \<Longrightarrow> runs w' = runs w"
    and trace_keeps: "ca_trace K w = (r3, w') \<Longrightarrow> runs w' = runs w"
    and outside_keeps: "runs (ca_outside K out w) = runs w"
begin

definition stepped :: "'r \<times> server \<times> 'w \<Rightarrow> bool" where
  "stepped x = in_step runs (fst (snd x)) (snd (snd x))"

lemma stepped_simps [simp]: "stepped (r, s, w) = in_step runs s w" "stepped (replying x) = in_step runs (fst (snd x)) (snd (snd x))"
  by (simp_all add: stepped_def replying_def split: prod.split)

lemma stepped_with_args: "in_step runs s w \<Longrightarrow> (\<And>v. stepped (f v)) \<Longrightarrow> stepped (with_args dec raw s w f)"
  by (simp add: with_args_def split: sum.split)

lemma addSubscription_in_step:
  assumes "addSubscription (ca_env K) url s w = (r, s', w')" "in_step runs s w"
  shows "in_step runs s' w'"
proof -
  obtain r1 s1 w1 where a: "add_ask (ca_env K) url s w = (r1, s1, w1)" by (metis prod_cases3)
  have ok: "in_step runs s1 w1" using add_ask_quiet[OF a] assms(2) by simp
  show ?thesis
  proof (cases r1)
    case (Inl e)
    then show ?thesis using assms(1) a ok by (simp add: addSubscription_def)
  next
    case (Inr p)
    then obtain initial dl where p: "r1 = Inr (initial, dl)" by (cases p) auto
    then have "add_finish (ctx_of (ca_env K) initial) url dl s1 w1 = (r, s', w')" using assms(1) a by (simp add: addSubscription_def)
    then show ?thesis using daemon_env.add_finish_in_step[OF ctx_env _ ok] by blast
  qed
qed

lemma refresh_in_step:
  assumes "refresh (ca_env K) i manual s w = (r, s', w')" "in_step runs s w"
  shows "in_step runs s' w'"
proof -
  obtain r1 s1 w1 where a: "refresh_ask (ca_env K) i manual s w = (r1, s1, w1)" by (metis prod_cases3)
  have ok: "in_step runs s1 w1" using in_step_quiet refresh_ask_quiet[OF a] assms(2) by blast
  then show ?thesis using assms(1) a refresh_finish_in_step by (cases r1) (auto simp: refresh_def)
qed

lemma refreshDue_in_step: "in_step runs s w \<Longrightarrow> in_step runs (fst (refreshDue (ca_env K) s w)) (snd (refreshDue (ca_env K) s w))"
proof -
  assume ok: "in_step runs s w"
  let ?f = "\<lambda>i (s, w). snd (refresh (ca_env K) i False s w)"
  have "in_step runs (fst (fold ?f is (s, w))) (snd (fold ?f is (s, w)))" for "is"
  proof (rule fold_invariant[of "\<lambda>x. in_step runs (fst x) (snd x)"])
    fix i x assume "in_step runs (fst x) (snd x)"
    moreover obtain r t v where "refresh (ca_env K) i False (fst x) (snd x) = (r, t, v)" by (metis prod_cases3)
    ultimately show "in_step runs (fst (?f i x)) (snd (?f i x))" using refresh_in_step by (simp add: case_prod_beta)
  qed (simp add: ok)
  then show ?thesis by (simp add: refreshDue_def)
qed

lemma refresh_round_in_step:
  assumes "refresh_round (ca_env K) s w = (s', w')" "in_step runs s w"
  shows "in_step runs s' w'"
proof -
  obtain s1 w1 where a: "retryRestore (ca_env K) s w = (s1, w1)" by fastforce
  obtain s2 w2 where b: "refreshDue (ca_env K) s1 w1 = (s2, w2)" by fastforce
  have "in_step runs s2 w2" using refreshDue_in_step[of s1 w1] retryRestore_in_step[OF a assms(2)] b by simp
  moreover have "refreshGeodata (ca_env K) s2 w2 = (s', w')" using assms(1) a b by (simp add: refresh_round_def)
  ultimately show ?thesis using refreshGeodata_quiet in_step_quiet by blast
qed

lemma handle_in_step:
  assumes ok: "in_step runs s w"
  shows "stepped (handle K i op raw s w)"
proof -
  have branch: "(c \<Longrightarrow> stepped x) \<Longrightarrow> (\<not> c \<Longrightarrow> stepped y) \<Longrightarrow> stepped (if c then x else y)"
    for c and x y :: "(perr, answer) res \<times> server \<times> 'w" by simp
  have run: "in_step runs (fst (snd x)) (snd (snd x))" if "\<And>r s' w'. x = (r, s', w') \<Longrightarrow> in_step runs s' w'"
    for x :: "(perr, reply) res \<times> server \<times> 'w" using that by (cases x) auto
  have ops: "stepped (replying (start (ca_env K) s w))" "stepped (replying (stop (ca_env K) s w))"
    "stepped (replying (apply_settings (ca_env K) args s w))" "stepped (replying (activateSubscription (ca_env K) name s w))"
    "stepped (replying (addSubscription (ca_env K) url s w))" "stepped (replying (updateSubscription (ca_env K) name s w))"
    "stepped (replying (selectProxy (ca_env K) g p s w))" "stepped (replying (removeSubscription (ca_env K) name s w))"
    for args name url g p
    using ok
    by (auto intro!: run dest: start_in_step stop_in_step apply_settings_in_step activateSubscription_in_step addSubscription_in_step
        refresh_in_step selectProxy_in_step remove_found_in_step
        simp: updateSubscription_def removeSubscription_def split: sum.splits)
  have "stepped (decide K a s w)" "stepped (subscribing K i streams on s w)" for a streams on
    using ok
    by (auto simp: decide_def subscribing_def in_step_quiet[OF decideDownload_quiet refl] in_step_quiet[OF subscribe_quiet refl]
        split: prod.split option.split)
  moreover have "stepped (testDelay K g ps s w)" "stepped (closeConnections K everything ids s w)" "stepped (egress K s w)"
    "stepped (listConnections K s w)" for g ps everything ids
    using ok delay_keeps close_keeps trace_keeps connections_keep
    by (auto simp: testDelay_def closeConnections_def egress_def listConnections_def in_step_publish in_step_def split: option.split prod.split sum.split trace_answer.split)
  ultimately show ?thesis unfolding handle_def Let_def
    by (intro branch stepped_with_args ok) (simp_all add: ops ok del: stepped_simps(2) split: sum.split)
qed

text \<open>The invariant of the whole.\<close>

definition served_ok :: "'w serving \<Rightarrow> bool" where
  "served_ok sg = (if sg_phase sg = Halted then runs (sg_world sg) = None \<and> sg_clients sg = []
     else in_step runs (sg_server sg) (sg_world sg))"

lemma in_step_put [simp]: "in_step runs (put_sessions ss s) w = in_step runs s w"
  by (simp add: put_sessions_def in_step_def running_def)

lemma on_session_in_step [simp]:
  "in_step runs (sg_server (on_session f i sg)) w = in_step runs (sg_server sg) w" "sg_server (on_client g i sg) = sg_server sg"
  by (simp_all add: on_session_def on_client_def)

lemma in_step_moved: "runs w' = runs w \<Longrightarrow> in_step runs s w \<Longrightarrow> in_step runs s w'"
  by (simp add: in_step_def)

lemma broadcast_in_step [simp]:
  "in_step runs (sg_server (broadcast K stream v sg)) w = in_step runs (sg_server sg) w" "sg_world (broadcast K stream v sg) = sg_world sg"
  "sg_phase (broadcast K stream v sg) = sg_phase sg"
  by (simp_all add: broadcast_def Let_def)

lemma reply_to_sel [simp]:
  "in_step runs (sg_server (reply_to K i n r sg)) w = in_step runs (sg_server sg) w" "sg_world (reply_to K i n r sg) = sg_world sg"
  "sg_phase (reply_to K i n r sg) = sg_phase sg"
  by (simp_all add: reply_to_def)

lemma serve_step_served:
  assumes "serve_step K sg sg'" "served_ok sg"
  shows "served_ok sg'"
  using assms
proof (induction rule: serve_step.induct)
  case (admitted sg unix peer owner r sg')
  then show ?case by (auto simp: admit_def served_ok_def split: if_splits sum.splits)
next
  case (line_read i sg raw)
  then show ?case by (auto simp: serve_line_def served_ok_def Let_def asked_id_def split: sum.split if_splits)
next
  case (answered i sg k)
  let ?rq = "cl_flight (sg_clients sg ! i) ! k"
  have "sg_phase sg \<noteq> Halted" using answered by (auto simp: served_ok_def)
  then show ?case using answered handle_in_step[of "sg_server sg" "sg_world sg" i "cr_op ?rq" "cr_args ?rq"]
    by (auto simp: answer_call_def served_ok_def Let_def split: prod.split)
next
  case (left_us i sg)
  then show ?case by (auto simp: leave_def served_ok_def)
next
  case (groups_ticked sg)
  then show ?case by (auto simp: tick_groups_def served_ok_def in_step_quiet[OF publishLocked_quiet refl])
next
  case (ticked sg)
  then have ph: "sg_phase sg \<noteq> Halted" "in_step runs (sg_server sg) (sg_world sg)" by (auto simp: served_ok_def)
  have conns: "served_ok (case ca_connections K (sg_world sg1) of
        (Inr v, w1) \<Rightarrow> broadcast K StreamConnections (LiveConnections v) (sg1\<lparr>sg_world := w1\<rparr>) | (Inl _, w1) \<Rightarrow> sg1\<lparr>sg_world := w1\<rparr>)"
    if "sg_phase sg1 \<noteq> Halted" "in_step runs (sg_server sg1) (sg_world sg1)" for sg1
    using that in_step_moved[OF connections_keep] by (auto simp: served_ok_def split: prod.split sum.split)
  define sg1 where "sg1 = (if listening StreamTraffic sg
    then (case ca_traffic K (sg_world sg) of Inr v \<Rightarrow> broadcast K StreamTraffic (LiveTraffic v) sg | Inl _ \<Rightarrow> sg) else sg)"
  have ph1: "sg_phase sg1 \<noteq> Halted" "in_step runs (sg_server sg1) (sg_world sg1)"
    using ph by (auto simp: sg1_def split: sum.split)
  show ?case unfolding tick_def Let_def sg1_def[symmetric] using ph ph1 conns[OF ph1] by (simp add: served_ok_def)
next
  case (refreshed sg s' w')
  then show ?case using refresh_round_in_step by (auto simp: served_ok_def)
next
  case (closing sg)
  then show ?case by (auto simp: close_all_def served_ok_def)
next
  case (halted sg)
  then show ?case using stop_stops[of "sg_world sg"] by (auto simp: halt_def served_ok_def) (metis prod.collapse)
next
  case (elapsed_outside sg o_event)
  then show ?case using outside_keeps by (auto simp: served_ok_def in_step_def)
qed (auto simp: served_ok_def write_next_def)

lemma served_from_start:
  assumes "New (ca_env K) owned store_settings store_subs w0 = (Inr s, w)" "runs w0 = None"
    "(serve_step K)\<^sup>*\<^sup>* \<lparr>sg_server = s, sg_world = w, sg_clients = [], sg_phase = Serving\<rparr> sg"
  shows "served_ok sg"
  using assms(3)
proof (induction rule: rtranclp_induct)
  case base
  have la: "sv_state (load_active (ca_env K) v x) = sv_state x" for v x
    by (simp add: load_active_def split: option.split sum.split)
  have "sv_state s = StateStopped"
    using assms(1) by (auto simp: New_def la split: if_splits prod.splits option.splits sum.splits)
  moreover have "runs w = None"
    using assms(1,2) syncHost_keeps by (auto simp: New_def split: if_splits prod.splits option.splits sum.splits)
  ultimately have "in_step runs s w" by (simp add: in_step_def running_def)
  then show ?case by (simp add: served_ok_def)
qed (rule serve_step_served)

text \<open>A daemon that closes comes to its end, and the core is stopped then.\<close>

lemma closes_stopped:
  assumes "serving_ok K sg" "served_ok sg" "sg_phase sg = Closing"
  shows "\<exists>sg'. (serve_step K)\<^sup>*\<^sup>* sg sg' \<and> sg_phase sg' = Halted \<and> runs (sg_world sg') = None"
proof -
  obtain sg' where r: "(serve_step K)\<^sup>*\<^sup>* sg sg'" "sg_phase sg' = Halted" using closing_halts[OF assms(1,3)] by blast
  from r(1) assms(2) have "served_ok sg'" by (induction rule: rtranclp_induct) (auto intro: serve_step_served)
  with r show ?thesis by (auto simp: served_ok_def)
qed

end

end
