(* ===== verification/Mihomo_Live.thy ===== *)
theory Mihomo_Live
  imports Mihomo_Core Uplink Ops
begin

text \<open>
  \<^verbatim>\<open>internal/core/mihomo/core.go\<close>, what runs over the live engine: \<^verbatim>\<open>TestDelay\<close>, \<^verbatim>\<open>Connections\<close> with the search for the
  process behind a connection, \<^verbatim>\<open>CloseConnections\<close>, \<^verbatim>\<open>Traffic\<close> and \<^verbatim>\<open>DialContext\<close>. The engine's tracker table, its URL test, its
  inner dialer and the search over the system's processes are the functions of \<open>live_engine\<close>.
\<close>

datatype tracked_network = TCP | UDP | OtherNetwork string

fun network_text :: "tracked_network \<Rightarrow> string" where
  "network_text TCP = ''tcp''"
| "network_text UDP = ''udp''"
| "network_text (OtherNetwork s) = s"

record tracker_info =
  ti_id :: string
  ti_network :: tracked_network
  ti_type :: string
  ti_inner :: bool
  ti_host :: string
  ti_process :: string
  ti_src :: "ip_addr option"
  ti_src_port :: nat
  ti_dst :: "ip_addr option"
  ti_dst_port :: nat
  ti_chain :: "string list"
  ti_rule :: string
  ti_payload :: string
  ti_upload :: int
  ti_download :: int
  ti_start :: int

text \<open>\<open>le_find\<close> is \<^verbatim>\<open>findProcess\<close>: the path of the program, or an error. \<open>ti_start\<close> is in nanoseconds.\<close>

record 'e live_engine =
  le_engine :: "'e engine"
  le_table :: "'e \<Rightarrow> tracker_info list"
  le_totals :: "'e \<Rightarrow> int \<times> int"
  le_speed :: "'e \<Rightarrow> int \<times> int"
  le_close :: "string \<Rightarrow> 'e \<Rightarrow> 'e"
  le_test :: "string \<Rightarrow> 'e \<Rightarrow> nat option \<times> 'e"
  le_find :: "'e \<Rightarrow> string \<Rightarrow> ip_addr \<Rightarrow> nat \<Rightarrow> string option"
  le_addr_text :: "ip_addr \<Rightarrow> string"
  le_lower :: "string \<Rightarrow> string"
  le_dial :: "string \<Rightarrow> 'e \<Rightarrow> (msg, nat) res \<times> 'e"

subsection \<open>Delay tests\<close>

definition group_of_core :: "'e engine \<Rightarrow> string \<Rightarrow> 'e mihomo_core \<Rightarrow> (core_err, group_item) res" where
  "group_of_core E name c =
     (if \<not> mc_running c then Inl not_running
      else if name \<notin> set (rt_groups (mc_current c)) then Inl (not_found ''group %q: %w'' [name])
      else case en_group E (mc_engine c) name of None \<Rightarrow> Inl (not_found ''group %q: %w'' [name]) | Some g \<Rightarrow> Inr g)"

text \<open>A test that fails counts 0, one that is faster than a millisecond 1. The tests run side by side, so the order in which
  the engine sees them is not fixed; here it is that of the list.\<close>

definition test_one :: "'e live_engine \<Rightarrow> string \<Rightarrow> 'e \<Rightarrow> int \<times> 'e" where
  "test_one L name e = (case le_test L name e of (None, e1) \<Rightarrow> (0, e1) | (Some d, e1) \<Rightarrow> (max 1 (int d), e1))"

fun test_all :: "'e live_engine \<Rightarrow> string list \<Rightarrow> 'e \<Rightarrow> int strmap \<times> 'e" where
  "test_all L [] e = ([], e)"
| "test_all L (n # ns) e =
     (case test_one L n e of (d, e1) \<Rightarrow>
        (case test_all L ns e1 of (out, e2) \<Rightarrow> (if map_of out n = None then (n, d) # out else out, e2)))"

definition TestDelay :: "'e live_engine \<Rightarrow> string \<Rightarrow> string list \<Rightarrow> 'e mihomo_core \<Rightarrow> (core_err, int strmap) res \<times> 'e mihomo_core" where
  "TestDelay L gname proxies c =
     (case group_of_core (le_engine L) gname c of
        Inl err \<Rightarrow> (Inl err, c)
      | Inr g \<Rightarrow>
          let members = map pi_name (gi_members g)
          in case find (\<lambda>n. n \<notin> set members) proxies of
               Some n \<Rightarrow> (Inl (not_found ''proxy %q in group %q: %w'' [n, gname]), c)
             | None \<Rightarrow>
                 (case test_all L (if proxies = [] then members else proxies) (mc_engine c) of
                    (out, e) \<Rightarrow> (Inr out, c\<lparr>mc_engine := e\<rparr>)))"

subsection \<open>Connections\<close>

definition MaxConnections :: nat where "MaxConnections = 1000"

definition connection :: "'e live_engine \<Rightarrow> tracker_info \<Rightarrow> open_connection" where
  "connection L t =
     \<lparr>oc_id = ti_id t, oc_network = network_text (ti_network t), oc_inbound = le_lower L (ti_type t), oc_host = ti_host t,
      oc_process = ti_process t,
      oc_source_ip = (case ti_src t of None \<Rightarrow> [] | Some a \<Rightarrow> le_addr_text L a), oc_source_port = ti_src_port t,
      oc_destination_ip = (case ti_dst t of None \<Rightarrow> [] | Some a \<Rightarrow> le_addr_text L a), oc_destination_port = ti_dst_port t,
      oc_chain = (case ti_chain t of [] \<Rightarrow> [] | x # _ \<Rightarrow> x),
      oc_rule = ti_rule t @ (if ti_payload t \<noteq> [] then ''('' @ ti_payload t @ '')'' else []),
      oc_upload = ti_upload t, oc_download = ti_download t, oc_started_at = ti_start t div 1000000\<rparr>"

definition As16 :: "ip_addr \<Rightarrow> ip_addr" where
  "As16 a = (case ip_a a of A4 x \<Rightarrow> no_zone (A6 (push_bit 32 0xFFFF + ucast x)) | A6 x \<Rightarrow> no_zone (A6 x))"

text \<open>IPv4 traffic may come from a socket that does both; a connection is looked for under either form of its address.\<close>

definition lookupProcess :: "'e live_engine \<Rightarrow> 'e \<Rightarrow> tracked_network \<Rightarrow> ip_addr \<Rightarrow> nat \<Rightarrow> string" where
  "lookupProcess L e net src port =
     (if net \<noteq> TCP \<and> net \<noteq> UDP then []
      else let ip = Unmap src;
               found = (case le_find L e (network_text net) ip port of
                          Some path \<Rightarrow> Some path
                        | None \<Rightarrow> if Addr_Is4 (ip_a ip) then le_find L e (network_text net) (As16 ip) port else None)
           in case found of None \<Rightarrow> [] | Some path \<Rightarrow> if path = [] then [] else base_name path)"

definition no_lookup :: process_lookup where
  "no_lookup = \<lparr>lk_name = [], lk_attempts = 0\<rparr>"

definition looked_up :: "process_lookup strmap \<Rightarrow> string \<Rightarrow> process_lookup" where
  "looked_up procs i = (case map_of procs i of None \<Rightarrow> no_lookup | Some l \<Rightarrow> l)"

definition try_lookup :: "'e live_engine \<Rightarrow> 'e \<Rightarrow> tracker_info \<Rightarrow> ip_addr \<Rightarrow> process_lookup \<Rightarrow> process_lookup" where
  "try_lookup L e t src l =
     (if lk_name l = [] \<and> lk_attempts l < 3
      then \<lparr>lk_name = lookupProcess L e (ti_network t) src (ti_src_port t), lk_attempts = Suc (lk_attempts l)\<rparr> else l)"

text \<open>Which connections are searched for: those the engine knows no process of and that came from outside of it.\<close>

definition searched :: "tracker_info \<Rightarrow> ip_addr option" where
  "searched t = (if ti_process t = [] \<and> \<not> ti_inner t \<and> ti_src_port t \<noteq> 0 then ti_src t else None)"

definition list_one :: "'e live_engine \<Rightarrow> 'e \<Rightarrow> process_lookup strmap \<Rightarrow> tracker_info \<Rightarrow> open_connection \<times> (string \<times> process_lookup) option" where
  "list_one L e procs t =
     (let conn = connection L t
      in case searched t of
           None \<Rightarrow> (conn, None)
         | Some src \<Rightarrow>
             let l = try_lookup L e t src (looked_up procs (oc_id conn))
             in (conn\<lparr>oc_process := lk_name l\<rparr>, Some (oc_id conn, l)))"

text \<open>The newest first; the order among connections of the same instant, which the source leaves open, is that of the table.\<close>

definition listed_trackers :: "'e live_engine \<Rightarrow> 'e \<Rightarrow> tracker_info list" where
  "listed_trackers L e = take MaxConnections (sort_key (\<lambda>t. - ti_start t) (le_table L e))"

definition Connections :: "'e live_engine \<Rightarrow> 'e mihomo_core \<Rightarrow> (core_err, connections) res \<times> 'e mihomo_core" where
  "Connections L c =
     (if \<not> mc_running c then (Inl not_running, c)
      else let e = mc_engine c;
               listed = map (list_one L e (mc_procs c)) (listed_trackers L e)
           in (Inr \<lparr>cs_upload_total = fst (le_totals L e), cs_download_total = snd (le_totals L e),
                    cs_open = length (le_table L e), cs_connections = map fst listed\<rparr>,
               c\<lparr>mc_procs := rev (List.map_filter snd listed)\<rparr>))"

definition CloseConnections :: "'e live_engine \<Rightarrow> string list option \<Rightarrow> 'e mihomo_core \<Rightarrow> core_err option \<times> 'e mihomo_core" where
  "CloseConnections L ids c =
     (if \<not> mc_running c then (Some not_running, c)
      else case ids of
             None \<Rightarrow> (None, c\<lparr>mc_engine := en_close_all (le_engine L) (mc_engine c)\<rparr>)
           | Some ids \<Rightarrow> (None, c\<lparr>mc_engine := fold (le_close L) ids (mc_engine c)\<rparr>))"

definition Traffic :: "'e live_engine \<Rightarrow> 'e mihomo_core \<Rightarrow> (core_err, traffic) res" where
  "Traffic L c =
     (if \<not> mc_running c then Inl not_running
      else Inr \<lparr>tr_up = fst (le_speed L (mc_engine c)), tr_down = snd (le_speed L (mc_engine c))\<rparr>)"

text \<open>\<open>ended\<close> is what the context of the call has come to.\<close>

definition core_DialContext :: "'e live_engine \<Rightarrow> core_err option \<Rightarrow> string \<Rightarrow> string \<Rightarrow> 'e mihomo_core \<Rightarrow> (core_err, nat) res \<times> 'e mihomo_core" where
  "core_DialContext L ended network address c =
     (if \<not> mc_running c then (Inl not_running, c)
      else case ended of
             Some err \<Rightarrow> (Inl err, c)
           | None \<Rightarrow>
               if network \<notin> {''tcp'', ''tcp4'', ''tcp6''} then (Inl (plain_err ''dial %s: only TCP goes through the core'' [network]), c)
               else (case le_dial L address (mc_engine c) of
                       (Inl text, e) \<Rightarrow> (Inl \<lparr>ce_is = [], ce_text = (''dial %s through the core: %w'', [address]) # text\<rparr>, c\<lparr>mc_engine := e\<rparr>)
                     | (Inr conn, e) \<Rightarrow> (Inr conn, c\<lparr>mc_engine := e\<rparr>)))"

subsection \<open>What runs stays\<close>

lemma live_runs:
  "TestDelay L g ps c = (r1, c') \<Longrightarrow> mihomo_runs c' = mihomo_runs c"
  "Connections L c = (r2, c') \<Longrightarrow> mihomo_runs c' = mihomo_runs c"
  "CloseConnections L ids c = (r3, c') \<Longrightarrow> mihomo_runs c' = mihomo_runs c"
  by (auto simp: TestDelay_def Connections_def CloseConnections_def mihomo_runs_def Let_def split: sum.splits option.splits prod.splits if_splits)

subsection \<open>Delays\<close>

lemma test_all_dom: "test_all L ns e = (out, e') \<Longrightarrow> dom (map_of out) = set ns \<and> distinct (map fst out)"
proof (induction ns arbitrary: e out)
  case (Cons n ns)
  then show ?case by (fastforce simp: map_of_eq_None_iff split: prod.splits if_splits)
qed simp

lemma test_all_nonneg: "test_all L ns e = (out, e') \<Longrightarrow> map_of out n = Some d \<Longrightarrow> 0 \<le> d"
  by (induction ns arbitrary: e out) (auto simp: test_one_def split: prod.splits if_splits option.splits)

subsection \<open>The search for a process\<close>

text \<open>A connection is looked for at most three times while it is listed, and no more once its process is known.\<close>

definition procs_ok :: "process_lookup strmap \<Rightarrow> bool" where
  "procs_ok procs \<longleftrightarrow> list_all (\<lambda>(_, l). lk_attempts l \<le> 3) procs"

lemma looked_up_ok: "procs_ok procs \<Longrightarrow> lk_attempts (looked_up procs i) \<le> 3"
  by (auto simp: procs_ok_def looked_up_def no_lookup_def list_all_iff split: option.split dest!: map_of_SomeD)

lemma try_lookup_attempts: "lk_attempts l \<le> 3 \<Longrightarrow> lk_attempts (try_lookup L e t src l) \<le> 3"
  by (simp add: try_lookup_def)

lemma Connections_procs:
  assumes "Connections L c = (Inr cs, c')" "procs_ok (mc_procs c)"
  shows "procs_ok (mc_procs c')" "fst ` set (mc_procs c') \<subseteq> oc_id ` set (cs_connections cs)" "length (mc_procs c') \<le> MaxConnections"
proof -
  let ?e = "mc_engine c"
  define listed where "listed = map (list_one L ?e (mc_procs c)) (listed_trackers L ?e)"
  have c': "mc_procs c' = rev (List.map_filter snd listed)" and cs: "cs_connections cs = map fst listed"
    using assms(1) by (auto simp: Connections_def Let_def listed_def split: if_splits)
  have one: "(case snd (list_one L ?e (mc_procs c) t) of None \<Rightarrow> True
      | Some (i, l) \<Rightarrow> lk_attempts l \<le> 3 \<and> i = oc_id (fst (list_one L ?e (mc_procs c) t)))" for t
    using try_lookup_attempts[OF looked_up_ok[OF assms(2)]] by (auto simp: list_one_def Let_def split: option.split)
  have each: "lk_attempts l \<le> 3 \<and> i \<in> oc_id ` fst ` set listed" if m: "(i, l) \<in> set (List.map_filter snd listed)" for i l
  proof -
    from m obtain t where t: "t \<in> set (listed_trackers L ?e)" "snd (list_one L ?e (mc_procs c) t) = Some (i, l)"
      by (auto simp: map_filter_def listed_def)
    with one[of t] show ?thesis by (auto simp: listed_def)
  qed
  then show "procs_ok (mc_procs c')" by (auto simp: c' procs_ok_def list_all_iff)
  show "fst ` set (mc_procs c') \<subseteq> oc_id ` set (cs_connections cs)" using each by (auto simp: c' cs)
  have "length (List.map_filter snd listed) \<le> length listed" by (simp add: map_filter_def)
  then show "length (mc_procs c') \<le> MaxConnections" by (simp add: c' listed_def listed_trackers_def)
qed

lemma list_one_shape: "fst (list_one L e procs t) = (connection L t)\<lparr>oc_process := oc_process (fst (list_one L e procs t))\<rparr>"
  by (simp add: list_one_def Let_def split: option.split)

lemma list_one_sel [simp]:
  "oc_id (fst (list_one L e procs t)) = ti_id t" "oc_started_at (fst (list_one L e procs t)) = ti_start t div 1000000"
  by (simp_all add: list_one_def Let_def connection_def split: option.split)

lemma sorted_desc: "sorted (map (\<lambda>t. - ti_start t) ts) \<Longrightarrow> sorted_wrt (\<lambda>a b. b \<le> a) (map (\<lambda>t. ti_start t div 1000000) ts)"
  by (induction ts) (auto intro: zdiv_mono1)

lemma sorted_take_key: "sorted (map f xs) \<Longrightarrow> sorted (map f (take n xs))"
  by (simp flip: take_map add: sorted_wrt_take)

lemma Connections_order:
  assumes "Connections L c = (Inr cs, c')"
  shows "sorted_wrt (\<lambda>a b. b \<le> a) (map oc_started_at (cs_connections cs))"
proof -
  have "map oc_started_at (cs_connections cs) = map (\<lambda>t. ti_start t div 1000000) (listed_trackers L (mc_engine c))"
    using assms by (auto simp: Connections_def Let_def o_def split: if_splits)
  moreover have "sorted (map (\<lambda>t. - ti_start t) (listed_trackers L (mc_engine c)))"
    unfolding listed_trackers_def by (rule sorted_take_key) simp
  ultimately show ?thesis using sorted_desc by metis
qed

lemma Connections_length:
  assumes "Connections L c = (Inr cs, c')"
  shows "length (cs_connections cs) = min MaxConnections (cs_open cs) \<and> cs_open cs = length (le_table L (mc_engine c))"
  using assms by (auto simp: Connections_def Let_def listed_trackers_def split: if_splits)

end
