(* ===== verification/Session_Claims.thy ===== *)
theory Session_Claims
  imports Session_World Mihomo_Live Demo
begin

text \<open>
  The daemon with its clients on the machine of \<open>Host\<close>, over either core of the repository, and the claims about its clients.
\<close>

subsection \<open>The cores behind the calls\<close>

record 'c live_ops =
  lo_delay :: "string \<Rightarrow> string list \<Rightarrow> 'c \<Rightarrow> (core_err, (string \<times> int) list) res \<times> 'c"
  lo_connections :: "'c \<Rightarrow> (core_err, connections) res \<times> 'c"
  lo_close :: "string list option \<Rightarrow> 'c \<Rightarrow> core_err option \<times> 'c"
  lo_traffic :: "'c \<Rightarrow> (core_err, traffic) res"
  lo_drain :: "64 word \<Rightarrow> bool \<Rightarrow> 'c \<Rightarrow> 'c"

text \<open>The decoders, the encoders and the version of the build are those of \<open>K0\<close>. The clock only goes forward.\<close>

fun host_outside :: "'c live_ops \<Rightarrow> outside \<Rightarrow> 'c host \<Rightarrow> 'c host" where
  "host_outside L (Elapsed t) w = w\<lparr>ho_clock := ho_clock w + int t\<rparr>"
| "host_outside L (Arriving net) w = w\<lparr>ho_net := net\<rparr>"
| "host_outside L (Draining generation last_tick) w = w\<lparr>ho_core := lo_drain L generation last_tick (ho_core w)\<rparr>"

definition host_calls :: "'c core_ops \<Rightarrow> 'c live_ops \<Rightarrow> host_params \<Rightarrow> trace_answer \<Rightarrow> 'c host call_env \<Rightarrow> 'c host call_env" where
  "host_calls C L P T K0 = K0\<lparr>ca_env := host_env C P, ca_delay := (\<lambda>g ps. lift_core (lo_delay L g ps)),
     ca_connections := lift_core (lo_connections L), ca_close := (\<lambda>ids. lift_core (lo_close L ids)),
     ca_traffic := (\<lambda>w. lo_traffic L (ho_core w)), ca_trace := (\<lambda>w. (T, w)),
     ca_outside := host_outside L\<rparr>"

lemma host_call_world:
  assumes "core_contract (co_apply C) (co_check C) (co_stop C) (co_groups C) (co_select C) runs"
    and "\<And>g ps c r c'. lo_delay L g ps c = (r, c') \<Longrightarrow> runs c' = runs c"
    and "\<And>c r c'. lo_connections L c = (r, c') \<Longrightarrow> runs c' = runs c"
    and "\<And>ids c r c'. lo_close L ids c = (r, c') \<Longrightarrow> runs c' = runs c"
    and "\<And>generation last_tick c. runs (lo_drain L generation last_tick c) = runs c"
  shows "call_world (host_calls C L P T K0) (\<lambda>w. runs (ho_core w))"
proof -
  have "call_world_axioms (host_calls C L P T K0) (\<lambda>w. runs (ho_core w))"
  proof unfold_locales
    show "runs (ho_core (ca_outside (host_calls C L P T K0) out w)) = runs (ho_core w)" for out w
      by (cases out) (simp_all add: host_calls_def assms(5))
  qed (auto simp: host_calls_def lift_core_eq assms(2-4))
  then show ?thesis using host_daemon_env[OF assms(1)] by (simp add: call_world_def host_calls_def)
qed

definition mihomo_live :: "'e live_engine \<Rightarrow> 'e mihomo_core live_ops" where
  "mihomo_live L = \<lparr>lo_delay = TestDelay L, lo_connections = Connections L, lo_close = CloseConnections L, lo_traffic = Traffic L,
     lo_drain = (\<lambda>generation last_tick c. snd (drainOnce (le_engine L) generation last_tick c))\<rparr>"

definition fake_live :: "fake_core live_ops" where
  "fake_live = \<lparr>lo_delay = fake_TestDelay, lo_connections = (\<lambda>c. (fake_Connections c, c)), lo_close = fake_CloseConnections,
     lo_traffic = fake_Traffic, lo_drain = (\<lambda>_ _ c. c)\<rparr>"

lemma drainOnce_runs: "mihomo_runs (snd (drainOnce E generation last_tick c)) = mihomo_runs c"
  by (simp add: drainOnce_def mihomo_runs_def)

lemma fake_live_runs:
  "fake_TestDelay g ps c = (r1, c') \<Longrightarrow> fake_runs c' = fake_runs c"
  "fake_CloseConnections ids c = (r2, c') \<Longrightarrow> fake_runs c' = fake_runs c"
  by (auto simp: fake_TestDelay_def fake_CloseConnections_def fake_runs_def Let_def split: if_splits option.splits)

abbreviation mihomo_calls where
  "mihomo_calls L P T K0 \<equiv> host_calls (mihomo_ops (le_engine L)) (mihomo_live L) P T K0"

interpretation mihomo_served: call_world "mihomo_calls L P T K0" "\<lambda>w. mihomo_runs (ho_core w)" for L :: "'e live_engine" and P T K0
  by (rule host_call_world) (auto simp: mihomo_ops_def mihomo.core_contract_axioms mihomo_live_def drainOnce_runs dest: live_runs)

interpretation fake_served: call_world "host_calls fake_ops fake_live P T K0" "\<lambda>w. fake_runs (ho_core w)" for P T K0
  by (rule host_call_world) (auto simp: fake_ops_def fake.core_contract_axioms fake_live_def dest: fake_live_runs)

subsection \<open>A session to look at\<close>

definition demo_live :: "source_config live_engine" where
  "demo_live = \<lparr>le_engine = demo_engine, le_table = (\<lambda>_. []), le_totals = (\<lambda>_. (0, 0)), le_speed = (\<lambda>_. (0, 0)), le_close = (\<lambda>_ e. e),
     le_test = (\<lambda>_ e. (Some 20, e)), le_find = (\<lambda>_ _ _ _. None), le_addr_text = (\<lambda>_. []), le_lower = id, le_dial = (\<lambda>_ e. (Inr 0, e))\<rparr>"

definition no_decoder :: "'v decoder" where
  "no_decoder l = Inl []"

definition demo_call_codec :: call_codec where
  "demo_call_codec = \<lparr>dc_request = (\<lambda>l. if l = ''status'' then Inr ((1, ''status'', []), []) else Inl []), dc_id = (\<lambda>_. None),
     dc_none = (\<lambda>l. if l = ''{}'' then Inr ((), []) else Inl []), dc_decision = no_decoder, dc_streams = no_decoder, dc_apply = no_decoder,
     dc_select = no_decoder, dc_delay = no_decoder, dc_close = no_decoder, dc_url = no_decoder, dc_name = no_decoder\<rparr>"

text \<open>What \<open>host_calls\<close> puts in place of the operations is left out here.\<close>

definition demo_base :: "source_config mihomo_core host call_env" where
  "demo_base = \<lparr>ca_env = demo_env, ca_codec = demo_call_codec, ca_delay = (\<lambda>_ _ w. (Inr [], w)),
     ca_connections = (\<lambda>w. (Inl not_running, w)), ca_close = (\<lambda>_ w. (None, w)), ca_traffic = (\<lambda>_. Inl not_running),
     ca_trace = (\<lambda>w. (NoAnswer [], w)), ca_addr = (\<lambda>_. None), ca_message = (\<lambda>m. case m of MHello _ _ \<Rightarrow> Some ''hello'' | _ \<Rightarrow> Some ''reply''),
     ca_live = (\<lambda>_. None), ca_version = ''dev'', ca_max_clients = 16, ca_outside = (\<lambda>_ w. w)\<rparr>"

definition demo_calls :: "source_config mihomo_core host call_env" where
  "demo_calls = mihomo_calls demo_live demo_params (NoAnswer []) demo_base"

definition demo_open :: "source_config mihomo_core host serving" where
  "demo_open = \<lparr>sg_server = demo_server, sg_world = demo_host, sg_clients = [], sg_phase = Serving\<rparr>"

definition demo_admitted :: "source_config mihomo_core host serving" where
  "demo_admitted = snd (admit demo_calls True (Some 1000) (Inr 1000) demo_open)"

definition demo_read :: "source_config mihomo_core host serving" where
  "demo_read = serve_line demo_calls 0 ''status'' demo_admitted"

definition demo_answered :: "source_config mihomo_core host serving" where
  "demo_answered = answer_call demo_calls 0 0 demo_read"

lemma demo_calls_env: "ca_env demo_calls = demo_env"
  by (simp add: demo_calls_def host_calls_def demo_env_def demo_live_def)

lemma demo_boot: "New (ca_env demo_calls) False (Inr DefaultSettings) (Inr demo_subs) demo_host = (Inr demo_server, demo_host)"
  using demo_new_eq by (simp add: demo_calls_env demo_new_def)

lemma demo_session_facts:
  "map cl_uid (sg_clients demo_admitted) = [1000]" "map (\<lambda>c. map cr_op (cl_flight c)) (sg_clients demo_read) = [[''status'']]"
  "map cl_eof (sg_clients demo_admitted) = [False]" "map (map fst \<circ> cl_replies) (sg_clients demo_answered) = [[1]]"
  "sg_phase demo_admitted = Serving"
  by code_simp+

lemma demo_admitted_step: "serve_step demo_calls demo_open demo_admitted"
  by (rule admitted[of demo_open demo_calls True "Some 1000" "Inr 1000" "fst (admit demo_calls True (Some 1000) (Inr 1000) demo_open)"])
    (simp_all add: demo_open_def demo_admitted_def)

lemma demo_admitted_steps: "(serve_step demo_calls)\<^sup>*\<^sup>* demo_open demo_admitted"
  using demo_admitted_step by blast

lemma demo_admitted_reachable: "serving_reachable demo_calls demo_admitted"
  using served[OF demo_boot] demo_admitted_step unfolding demo_open_def by (rule served_step)

lemma one_client:
  "length (sg_clients demo_admitted) = 1" "length (sg_clients demo_read) = 1" "length (sg_clients demo_answered) = 1"
  using demo_session_facts by (metis One_nat_def length_Cons length_map list.size(3))+

lemma demo_read_reachable: "serving_reachable demo_calls demo_read"
  unfolding demo_read_def
  by (rule served_step[OF demo_admitted_reachable], rule line_read) (use one_client demo_session_facts(3) in \<open>cases "sg_clients demo_admitted"; simp\<close>)+

lemma demo_answered_reachable: "serving_reachable demo_calls demo_answered"
  unfolding demo_answered_def
  by (rule served_step[OF demo_read_reachable], rule answered) (use one_client demo_session_facts(2) in \<open>cases "sg_clients demo_read"; auto\<close>)+

definition demo_done :: "source_config mihomo_core host serving" where
  "demo_done = write_next 0 True (write_next 0 True demo_answered)"

lemma demo_done_facts:
  "map cl_flight (sg_clients demo_done) = [[]]" "map sn_out (sessions demo_done) = [[]]" "map sn_closed (sessions demo_done) = [False]"
  "map (map fst \<circ> cl_replies) (sg_clients demo_done) = [[1]]"
  "map (\<lambda>ss. (sn_closed ss, length (sn_out ss))) (sessions demo_answered) = [(False, 2)]"
  "map (\<lambda>ss. (sn_closed ss, length (sn_out ss))) (sessions (write_next 0 True demo_answered)) = [(False, 1)]"
  "length (sg_clients (write_next 0 True demo_answered)) = 1"
  by code_simp+

lemma one_map: "map f xs = [y] \<Longrightarrow> f (xs ! 0) = y \<and> length xs = 1"
  by (cases xs) auto

lemma demo_env_live: "host_env (mihomo_ops (le_engine demo_live)) demo_params = demo_env"
  by (simp add: demo_env_def demo_live_def)

lemma demo_done_stuck: "\<nexists>sg'. own_step demo_calls 0 demo_done sg'"
  using demo_done_facts(1-3)[THEN one_map] by (auto simp: may_write_def elim: own_stepE)

lemma demo_done_steps: "(own_step demo_calls 0)\<^sup>*\<^sup>* demo_read demo_done"
proof -
  have a: "own_step demo_calls 0 demo_read demo_answered"
    unfolding demo_answered_def by (rule own_answer) (use one_client demo_session_facts(2)[THEN one_map] in auto)
  have b: "own_step demo_calls 0 demo_answered (write_next 0 True demo_answered)"
    by (rule own_write) (use one_client demo_done_facts(5)[THEN one_map] in \<open>auto simp: may_write_def\<close>)
  have w: "may_write 0 (write_next 0 True demo_answered)"
    using demo_done_facts(6)[THEN one_map] unfolding may_write_def by (metis list.size(3) prod.inject zero_neq_one)
  have "own_step demo_calls 0 (write_next 0 True demo_answered) demo_done"
    unfolding demo_done_def by (rule own_write[OF _ w]) (simp only: demo_done_facts(7) less_one)
  then show ?thesis using a b by (meson converse_rtranclp_into_rtranclp rtranclp.rtrancl_refl)
qed

lemma calls_env: "ca_env (host_calls C L P T K0) = host_env C P"
  by (simp add: host_calls_def)

lemma demo_live_boot:
  "New (host_env (mihomo_ops (le_engine demo_live)) demo_params) False (Inr DefaultSettings) (Inr demo_subs) demo_host = (Inr demo_server, demo_host)"
  using demo_boot by (simp add: demo_calls_env demo_env_live)

lemma demo_host_stopped: "\<not> mc_running (ho_core demo_host)"
  by (simp add: demo_host_def idle_core_def)

lemma demo_open_steps:
  "(serve_step demo_calls)\<^sup>*\<^sup>* demo_open sg \<Longrightarrow> (serve_step (mihomo_calls demo_live demo_params (NoAnswer []) demo_base))\<^sup>*\<^sup>*
     \<lparr>sg_server = demo_server, sg_world = demo_host, sg_clients = [], sg_phase = Serving\<rparr> sg"
  by (simp add: demo_calls_def demo_open_def)

subsection \<open>Claims\<close>

text \<open>C3: Every request a client sends is answered exactly once. In every state the daemon comes to, however the goroutines of its
  sessions, the ticks and the refreshes interleave, the requests read from a client are those answered together with those still in
  flight; at most eight are in flight and at most 256 messages queued; and as long as its session is open, every reply made is
  among the messages written to it or queued for it.
\<close>

theorem session_answers:
  assumes "serving_reachable K sg" "i < length (sg_clients sg)"
  shows "let c = sg_clients sg ! i; ss = sessions sg ! i in
      mset (cl_asked c) = mset (map fst (cl_replies c)) + mset (map cr_id (cl_flight c))
      \<and> length (cl_flight c) \<le> 8 \<and> length (sn_out ss) \<le> 256
      \<and> (\<not> sn_closed ss \<longrightarrow> mset (map (\<lambda>(n, r). reply_line K n r) (cl_replies c)) \<subseteq># mset (cl_written c @ sn_out ss))"
  using serving_ok_client[OF reachable_serving_ok[OF assms(1)] assms(2)]
  by (simp add: Let_def client_ok_def reply_lines_def maxInFlight_def sendQueue_def)

lemma session_answers_witness:
  "serving_reachable demo_calls demo_answered \<and> length (sg_clients demo_answered) = 1 \<and> length (cl_flight (sg_clients demo_answered ! 0)) \<le> 8"
  using session_answers[OF demo_answered_reachable, of 0] demo_answered_reachable by (simp add: one_client Let_def)






text \<open>A daemon that was told to end can always come to its end: from every state in which it is closing, whatever its clients have
  queued or in flight, there is a way on to the state in which all have left, and the engine is stopped there.
\<close>

theorem daemon_ends:
  assumes "New (host_env (mihomo_ops (le_engine L)) P) owned store_settings store_subs w0 = (Inr s, w)" "\<not> mc_running (ho_core w0)"
    and "(serve_step (mihomo_calls L P T K0))\<^sup>*\<^sup>* \<lparr>sg_server = s, sg_world = w, sg_clients = [], sg_phase = Serving\<rparr> sg"
    and "sg_phase sg = Closing"
  shows "\<exists>sg'. (serve_step (mihomo_calls L P T K0))\<^sup>*\<^sup>* sg sg' \<and> sg_phase sg' = Halted \<and> mihomo_runs (ho_core (sg_world sg')) = None"
proof (rule mihomo_served.closes_stopped[OF _ _ assms(4)])
  have "serving_reachable (mihomo_calls L P T K0) sg"
    using assms(3) served[of "mihomo_calls L P T K0", unfolded calls_env, OF assms(1)]
    by (induction rule: rtranclp_induct) (auto intro: served_step)
  then show "serving_ok (mihomo_calls L P T K0) sg" by (rule reachable_serving_ok)
  show "mihomo_served.served_ok sg"
    using mihomo_served.served_from_start[OF _ _ assms(3), unfolded calls_env, OF assms(1)] assms(2) by (simp add: runs_None_iff)
qed

lemma daemon_ends_witness:
  "\<exists>sg'. (serve_step demo_calls)\<^sup>*\<^sup>* (close_all demo_admitted) sg' \<and> sg_phase sg' = Halted \<and> mihomo_runs (ho_core (sg_world sg')) = None"
proof -
  have "(serve_step demo_calls)\<^sup>*\<^sup>* demo_open (close_all demo_admitted)"
    by (rule rtranclp.rtrancl_into_rtrancl[OF demo_admitted_steps], rule closing) (simp add: demo_session_facts)
  from daemon_ends[OF demo_live_boot demo_host_stopped demo_open_steps[OF this]] show ?thesis
    by (simp add: demo_calls_def close_all_def)
qed

text \<open>C36: Messages survive the line protocol. A sequence of messages that can each be encoded as one line is split by the reader into
  exactly these messages, in order, each decoded to the value that was sent; and a message is refused for its size exactly when the
  peer's reader would have failed at it. It relies on the JSON encoder writing no line feed, not ending in a carriage return and being
  read back by the decoder.
\<close>

theorem lines_roundtrip:
  assumes "\<And>v b. marshal v = Some b \<Longrightarrow> sendable b \<and> dec b = Inr (v, [])" "list_all (\<lambda>v. \<not> isl (Line marshal v)) vs" "marshal v = Some b"
  shows "map (Decode dec) (NewScanner (concat (map (\<lambda>v. projr (Line marshal v)) vs))) = map Inr vs
    \<and> (Line marshal v = Inl TooLarge) = (NewScanner (b @ [CHR 0x0A]) = [])"
proof
  show "map (Decode dec) (NewScanner (concat (map (\<lambda>v. projr (Line marshal v)) vs))) = map Inr vs" using assms(2)
  proof (induction vs)
    case (Cons v vs)
    then obtain l where l: "Line marshal v = Inr l" by (cases "Line marshal v") auto
    obtain b where b: "marshal v = Some b"
      "NewScanner (l @ concat (map (\<lambda>v. projr (Line marshal v)) vs)) = b # NewScanner (concat (map (\<lambda>v. projr (Line marshal v)) vs))"
      using NewScanner_Line[OF l] assms(1) by blast
    then have "Decode dec b = Inr v" using assms(1) by (simp add: Decode_def)
    then show ?case using b l Cons by simp
  qed (simp add: NewScanner_def scan_lines.simps)
  show "(Line marshal v = Inl TooLarge) = (NewScanner (b @ [CHR 0x0A]) = [])"
    using assms(1)[OF assms(3)] assms(3)
    by (simp add: Line_def NewScanner_def scan_lines.simps[of _ "b @ [CHR 0x0A]"] cut_at_first sendable_def)
qed

definition demo_marshal :: "string \<Rightarrow> string option" where
  "demo_marshal v = (if sendable v then Some v else None)"

lemma lines_roundtrip_witness:
  "map (Decode (\<lambda>b. Inr (b, []))) (NewScanner (concat (map (\<lambda>v. projr (Line demo_marshal v)) [''{}'', ''[1]'']))) = map Inr [''{}'', ''[1]'']
     \<and> demo_marshal ''{}'' = Some ''{}''"
proof -
  have m: "demo_marshal v = Some b \<Longrightarrow> sendable b \<and> (Inr (b, []) :: (msg, string \<times> string) res) = Inr (v, [])" for v b
    by (simp add: demo_marshal_def split: if_splits)
  have l: "list_all (\<lambda>v. \<not> isl (Line demo_marshal v)) [''{}'', ''[1]'']" by code_simp
  have e: "demo_marshal ''{}'' = Some ''{}''" by code_simp
  show ?thesis using lines_roundtrip[of demo_marshal "\<lambda>b. Inr (b, [])", OF m l e] e by simp
qed


definition demo_tracker :: tracker_info where
  "demo_tracker = \<lparr>ti_id = ''c1'', ti_network = TCP, ti_type = ''TUN'', ti_inner = False, ti_host = ''example.org'', ti_process = [],
     ti_src = Some (no_zone (A4 0x0A000001)), ti_src_port = 4000, ti_dst = None, ti_dst_port = 443, ti_chain = [''Tokyo''],
     ti_rule = ''Match'', ti_payload = [], ti_upload = 1, ti_download = 2, ti_start = 1700000000000000000\<rparr>"

definition demo_listing :: "(core_err, connections) res \<times> source_config mihomo_core" where
  "demo_listing = Connections (demo_live\<lparr>le_table := (\<lambda>_. [demo_tracker]), le_find := (\<lambda>_ _ _ _. Some ''/usr/bin/curl'')\<rparr>)
     ((idle_core RawStopped)\<lparr>mc_running := True\<rparr>)"


end
