(* ===== verification/Command_Line.thy ===== *)
theory Command_Line
  imports Wire
begin

text \<open>
  The owner's command line: \<^verbatim>\<open>internal/cli/cli.go\<close> with its exit codes, requests and \<^verbatim>\<open>edit\<close>, the transaction every change of a
  setting goes through, and \<^verbatim>\<open>internal/settings\<close>, the files it keeps the settings in. The daemon at the other end is a state \<open>'d\<close>
  with the calls of \<open>daemon_link\<close>; \<^verbatim>\<open>ffcli\<close>, \<^verbatim>\<open>encoding/json\<close> and the file system's failures are parameters.
\<close>

subsection \<open>Errors and exit codes\<close>

text \<open>The errors \<^verbatim>\<open>exitCode\<close> tells apart; \<open>PlainError\<close> is any other.\<close>

datatype cli_error = HelpWanted | UsageError msg | ExitError nat msg | VersionError msg | CallError perr | PlainError msg

definition ExitOK :: nat where "ExitOK = 0"
definition ExitFailure :: nat where "ExitFailure = 1"
definition ExitUsage :: nat where "ExitUsage = 2"
definition ExitUnreachable :: nat where "ExitUnreachable = 10"
definition ExitState :: nat where "ExitState = 11"
definition ExitNotFound :: nat where "ExitNotFound = 12"
definition ExitForbidden :: nat where "ExitForbidden = 13"
definition ExitVersion :: nat where "ExitVersion = 14"
definition ExitUnsupported :: nat where "ExitUnsupported = 15"
definition ExitRejected :: nat where "ExitRejected = 20"
definition ExitFetch :: nat where "ExitFetch = 21"

lemmas exit_defs = ExitOK_def ExitFailure_def ExitUsage_def ExitUnreachable_def ExitState_def ExitNotFound_def ExitForbidden_def
  ExitVersion_def ExitUnsupported_def ExitRejected_def ExitFetch_def

fun code_exit :: "code \<Rightarrow> nat" where
  "code_exit CodeBadRequest = ExitUsage"
| "code_exit CodeInvalid = ExitUsage"
| "code_exit CodeUnknownOp = ExitUsage"
| "code_exit CodeNotRunning = ExitState"
| "code_exit CodeConflict = ExitState"
| "code_exit CodeNotFound = ExitNotFound"
| "code_exit CodeForbidden = ExitForbidden"
| "code_exit CodeUnsupported = ExitUnsupported"
| "code_exit CodeRejected = ExitRejected"
| "code_exit CodeFetch = ExitFetch"
| "code_exit _ = ExitFailure"

definition exitCode :: "cli_error option \<Rightarrow> nat" where
  "exitCode err =
     (case err of
        None \<Rightarrow> ExitOK
      | Some HelpWanted \<Rightarrow> ExitOK
      | Some (UsageError _) \<Rightarrow> ExitUsage
      | Some (ExitError c _) \<Rightarrow> c
      | Some (VersionError _) \<Rightarrow> ExitVersion
      | Some (CallError p) \<Rightarrow> code_exit (pe_code p)
      | Some (PlainError _) \<Rightarrow> ExitFailure)"

subsection \<open>The daemon at the other end\<close>

datatype dial_error = DialRefused perr | DialVersion msg | DialFailed msg

record 'd daemon_link =
  dl_dial :: "'d \<Rightarrow> dial_error option \<times> 'd"
  dl_groups :: "'d \<Rightarrow> (cli_error, group_item list) res \<times> 'd"
  dl_apply :: "apply_args \<Rightarrow> 'd \<Rightarrow> (cli_error, string) res \<times> 'd"
  dl_show :: "string \<Rightarrow> 'd \<Rightarrow> (cli_error, string) res \<times> 'd"

definition dial :: "'d daemon_link \<Rightarrow> 'd \<Rightarrow> cli_error option \<times> 'd" where
  "dial L d =
     (case dl_dial L d of
        (None, d1) \<Rightarrow> (None, d1)
      | (Some (DialRefused p), d1) \<Rightarrow> (Some (CallError p), d1)
      | (Some (DialVersion m), d1) \<Rightarrow> (Some (VersionError m), d1)
      | (Some (DialFailed m), d1) \<Rightarrow> (Some (ExitError ExitUnreachable ((''the daemon is not running or not installed (%w)'', []) # m)), d1))"

definition cli_targets :: "string list" where
  "cli_targets = [''DIRECT'', ''REJECT'', ''REJECT-DROP'']"

text \<open>\<^verbatim>\<open>checkName\<close>: a proxy that is stopped has nothing to check against.\<close>

definition checkName :: "'d daemon_link \<Rightarrow> string \<Rightarrow> bool \<Rightarrow> 'd \<Rightarrow> cli_error option \<times> 'd" where
  "checkName L name groupOnly d =
     (if \<not> groupOnly \<and> name \<in> set cli_targets then (None, d)
      else case dl_groups L d of
             (Inl (CallError p), d1) \<Rightarrow> (if pe_code p = CodeNotRunning then None else Some (CallError p), d1)
           | (Inl err, d1) \<Rightarrow> (Some err, d1)
           | (Inr gs, d1) \<Rightarrow>
               if list_ex (\<lambda>g. gi_name g = name \<or> \<not> groupOnly \<and> list_ex (\<lambda>p. pi_name p = name) (gi_members g)) gs then (None, d1)
               else if groupOnly then (Some (ExitError ExitNotFound [(''no group %q'', [name])]), d1)
               else (Some (ExitError ExitNotFound [(''the active subscription has no group or proxy %q'', [name])]), d1))"

subsection \<open>The settings files\<close>

text \<open>The files by their path and the links of the directory; a link points to a path, or to nothing that can be reached.\<close>

record settings_file =
  sf_data :: string
  sf_mode :: nat

record config_dir =
  cd_mode :: "nat option"
  cd_file :: "string \<Rightarrow> settings_file option"
  cd_link :: "string \<Rightarrow> string option option"

text \<open>What may fail on the way, by the name of the file, and the JSON of the two files; the decoders start from \<^verbatim>\<open>Default\<close>.\<close>

record files_env =
  fe_locate :: "msg option"
  fe_private :: "msg option"
  fe_lock :: "msg option"
  fe_read :: "string \<Rightarrow> msg option"
  fe_stat :: "string \<Rightarrow> msg option"
  fe_chmod :: "string \<Rightarrow> msg option"
  fe_replace :: "string \<Rightarrow> msg option"
  fe_enc_settings :: "settings \<Rightarrow> string"
  fe_enc_rules :: "rule_entry list \<Rightarrow> string"
  fe_dec_settings :: "settings decoder"
  fe_dec_rules :: "rule_entry list decoder"

definition settingsFile :: string where "settingsFile = ''settings.json''"
definition rulesFile :: string where "rulesFile = ''rules.json''"

definition settings_Default :: apply_args where
  "settings_Default = \<lparr>aa_settings = default_settings, aa_rules = []\<rparr>"

definition opened :: "string \<Rightarrow> config_dir \<Rightarrow> settings_file option" where
  "opened name D = (case cd_link D name of None \<Rightarrow> cd_file D name | Some None \<Rightarrow> None | Some (Some t) \<Rightarrow> cd_file D t)"

definition settings_read :: "files_env \<Rightarrow> string \<Rightarrow> 'v decoder \<Rightarrow> 'v \<Rightarrow> config_dir \<Rightarrow> (msg, 'v) res" where
  "settings_read F name dec v D =
     (case opened name D of
        None \<Rightarrow> Inr v
      | Some f \<Rightarrow>
          (case fe_read F name of
             Some err \<Rightarrow> Inl err
           | None \<Rightarrow>
               if length (sf_data f) > MaxLine then Inl [(''%s is over 1 MiB'', [name])]
               else (case Decode dec (sf_data f) of Inl err \<Rightarrow> Inl ((''%s: %w'', [name]) # err) | Inr v \<Rightarrow> Inr v)))"

definition settings_Load :: "files_env \<Rightarrow> config_dir \<Rightarrow> (msg, apply_args) res" where
  "settings_Load F D =
     (case settings_read F settingsFile (fe_dec_settings F) (aa_settings settings_Default) D of
        Inl err \<Rightarrow> Inl err
      | Inr s \<Rightarrow>
          (case settings_read F rulesFile (fe_dec_rules F) (aa_rules settings_Default) D of
             Inl err \<Rightarrow> Inl err
           | Inr rs \<Rightarrow> Inr \<lparr>aa_settings = s, aa_rules = PruneCategories rs\<rparr>))"

definition settings_Encode :: "files_env \<Rightarrow> apply_args \<Rightarrow> (string \<times> string) list" where
  "settings_Encode F v =
     [(settingsFile, fe_enc_settings F (aa_settings v)), (rulesFile, fe_enc_rules F (PruneCategories (aa_rules v)))]"

definition private_mode :: nat where "private_mode = 448"
definition file_mode :: nat where "file_mode = 384"

definition privateDir :: "files_env \<Rightarrow> config_dir \<Rightarrow> msg option \<times> config_dir" where
  "privateDir F D = (case fe_private F of Some err \<Rightarrow> (Some err, D) | None \<Rightarrow> (None, D\<lparr>cd_mode := Some private_mode\<rparr>))"

text \<open>\<^verbatim>\<open>replace\<close> writes a temporary file, which it removes whatever happens, and renames it over the old one.\<close>

definition settings_replace :: "files_env \<Rightarrow> string \<Rightarrow> string \<Rightarrow> string \<Rightarrow> config_dir \<Rightarrow> msg option \<times> config_dir" where
  "settings_replace F name path dat D =
     (case fe_replace F name of
        Some err \<Rightarrow> (Some err, D)
      | None \<Rightarrow> (None, D\<lparr>cd_file := (cd_file D)(path \<mapsto> \<lparr>sf_data = dat, sf_mode = file_mode\<rparr>)\<rparr>))"

definition EvalSymlinks :: "string \<Rightarrow> config_dir \<Rightarrow> string option" where
  "EvalSymlinks name D =
     (case cd_link D name of
        None \<Rightarrow> Some name
      | Some None \<Rightarrow> None
      | Some (Some t) \<Rightarrow> if cd_file D t = None then None else Some t)"

definition save_one :: "files_env \<Rightarrow> string \<Rightarrow> string \<Rightarrow> config_dir \<Rightarrow> msg option \<times> config_dir" where
  "save_one F name dat D =
     (case EvalSymlinks name D of
        None \<Rightarrow> (Some [(''resolve %s: %w'', [name])], D)
      | Some path \<Rightarrow>
          (case fe_stat F name of
             Some err \<Rightarrow> (Some err, D)
           | None \<Rightarrow>
               (case cd_file D path of
                  None \<Rightarrow> apfst (map_option (\<lambda>e. (''save %s: %w'', [name]) # e)) (settings_replace F name path dat D)
                | Some f \<Rightarrow>
                    if sf_mode f \<noteq> file_mode \<and> fe_chmod F name \<noteq> None then (fe_chmod F name, D)
                    else let D1 = D\<lparr>cd_file := (cd_file D)(path \<mapsto> f\<lparr>sf_mode := file_mode\<rparr>)\<rparr>
                         in if sf_data f = dat then (None, D1)
                            else apfst (map_option (\<lambda>e. (''save %s: %w'', [name]) # e)) (settings_replace F name path dat D1))))"

fun save_all :: "files_env \<Rightarrow> (string \<times> string) list \<Rightarrow> config_dir \<Rightarrow> msg option \<times> config_dir" where
  "save_all F [] D = (None, D)"
| "save_all F ((name, dat) # fs) D =
     (case save_one F name dat D of (Some err, D1) \<Rightarrow> (Some err, D1) | (None, D1) \<Rightarrow> save_all F fs D1)"

definition settings_Save :: "files_env \<Rightarrow> apply_args \<Rightarrow> config_dir \<Rightarrow> msg option \<times> config_dir" where
  "settings_Save F v D =
     (case privateDir F D of (Some err, D1) \<Rightarrow> (Some err, D1) | (None, D1) \<Rightarrow> save_all F (settings_Encode F v) D1)"

definition settings_Lock :: "files_env \<Rightarrow> config_dir \<Rightarrow> msg option \<times> config_dir" where
  "settings_Lock F D = (case privateDir F D of (Some err, D1) \<Rightarrow> (Some err, D1) | (None, D1) \<Rightarrow> (fe_lock F, D1))"

subsection \<open>Edits\<close>

text \<open>A change makes one edit of the settings, and may ask the daemon about it. \<open>edit_run\<close> is the command's \<^verbatim>\<open>Exec\<close> once its arguments are
  parsed; its result is what it prints.\<close>

type_synonym 'd change = "apply_args \<Rightarrow> 'd \<Rightarrow> (cli_error, apply_args) res \<times> 'd"

definition plain :: "msg \<Rightarrow> cli_error" where
  "plain m = PlainError m"

definition edit_run ::
  "'d daemon_link \<Rightarrow> files_env \<Rightarrow> string \<Rightarrow> 'd change \<Rightarrow> config_dir \<Rightarrow> 'd \<Rightarrow> (cli_error, string) res \<times> config_dir \<times> 'd" where
  "edit_run L F showing ch D d =
     (case fe_locate F of
        Some err \<Rightarrow> (Inl (plain err), D, d)
      | None \<Rightarrow>
     (case settings_Lock F D of
        (Some err, D1) \<Rightarrow> (Inl (plain err), D1, d)
      | (None, D1) \<Rightarrow>
     (case settings_Load F D1 of
        Inl err \<Rightarrow> (Inl (plain err), D1, d)
      | Inr v \<Rightarrow>
     (case dial L d of
        (Some err, d1) \<Rightarrow> (Inl err, D1, d1)
      | (None, d1) \<Rightarrow>
     (case ch v d1 of
        (Inl err, d2) \<Rightarrow> (Inl err, D1, d2)
      | (Inr v1, d2) \<Rightarrow>
          let v2 = v1\<lparr>aa_rules := PruneCategories (aa_rules v1)\<rparr>
          in (case dl_apply L v2 d2 of
                (Inl err, d3) \<Rightarrow> (Inl err, D1, d3)
              | (Inr status, d3) \<Rightarrow>
          (case settings_Save F v2 D1 of
             (Some err, D2) \<Rightarrow> (Inl (plain ((''the daemon runs the change, but it was not saved: %w'', []) # err)), D2, d3)
           | (None, D2) \<Rightarrow>
               if showing = [] then (Inr status, D2, d3)
               else (case dl_show L showing d3 of (Inl err, d4) \<Rightarrow> (Inl err, D2, d4) | (Inr r, d4) \<Rightarrow> (Inr r, D2, d4)))))))))"

text \<open>\<^verbatim>\<open>edit\<close>: the arguments are checked before anything is read.\<close>

definition edit ::
  "'d daemon_link \<Rightarrow> files_env \<Rightarrow> string \<Rightarrow> (string list \<Rightarrow> (cli_error, 'd change) res) \<Rightarrow> string list \<Rightarrow> config_dir \<Rightarrow> 'd
    \<Rightarrow> (cli_error, string) res \<times> config_dir \<times> 'd" where
  "edit L F showing parse args D d = (case parse args of Inl err \<Rightarrow> (Inl err, D, d) | Inr ch \<Rightarrow> edit_run L F showing ch D d)"

subsection \<open>Settings\<close>

definition to_settings :: "(settings \<Rightarrow> settings) \<Rightarrow> 'd change" where
  "to_settings f v d = (Inr (v\<lparr>aa_settings := f (aa_settings v)\<rparr>), d)"

definition one_value :: "string \<Rightarrow> (string \<Rightarrow> (msg, 'd change) res) \<Rightarrow> string list \<Rightarrow> (cli_error, 'd change) res" where
  "one_value name parse rest =
     (case rest of
        [v] \<Rightarrow> (case parse v of Inl err \<Rightarrow> Inl (UsageError err) | Inr ch \<Rightarrow> Inr ch)
      | _ \<Rightarrow> Inl (UsageError [(''set %s takes one value'', [name])]))"

definition set_toggle :: "string \<Rightarrow> (bool \<Rightarrow> settings \<Rightarrow> settings) \<Rightarrow> string list \<Rightarrow> (cli_error, 'd change) res" where
  "set_toggle name put = one_value name (\<lambda>v.
     if v \<noteq> ''on'' \<and> v \<noteq> ''off'' then Inl [(''set %s takes on or off'', [name])] else Inr (to_settings (put (v = ''on''))))"

definition set_group :: "'d daemon_link \<Rightarrow> string list \<Rightarrow> (cli_error, 'd change) res" where
  "set_group L = one_value ''group'' (\<lambda>v. Inr (\<lambda>s d.
     if v = [] then to_settings (s_primary_group_update (\<lambda>_. v)) s d
     else case checkName L v True d of
            (Some err, d1) \<Rightarrow> (Inl err, d1) | (None, d1) \<Rightarrow> to_settings (s_primary_group_update (\<lambda>_. v)) s d1))"

definition setCommand :: "'d daemon_link \<Rightarrow> string \<Rightarrow> (string list \<Rightarrow> (cli_error, 'd change) res) option" where
  "setCommand L name = map_of
     [(''mode'', one_value ''mode'' (\<lambda>v. Inr (to_settings (s_mode_update (\<lambda>_. v))))),
      (''group'', set_group L),
      (''dns-destination'', one_value ''dns-destination'' (\<lambda>v. Inr (to_settings (s_dns_destination_update (\<lambda>_. v))))),
      (''tun'', set_toggle ''tun'' (\<lambda>b. s_tun_update (\<lambda>_. b))),
      (''tun-redirect'', set_toggle ''tun-redirect'' (\<lambda>b. s_tun_redirect_update (\<lambda>_. b))),
      (''tailscale'', set_toggle ''tailscale'' (\<lambda>b. s_tailscale_update (\<lambda>_. b))),
      (''tailnet-proxy'', set_toggle ''tailnet-proxy'' (\<lambda>b. s_tailnet_proxy_update (\<lambda>_. b)))] name"

definition applyCommand :: "string list \<Rightarrow> (cli_error, 'd change) res" where
  "applyCommand rest = (if rest \<noteq> [] then Inl (UsageError [(''apply takes no arguments'', [])]) else Inr (\<lambda>v d. (Inr v, d)))"

subsection \<open>Requests\<close>

definition readURL :: "string option \<Rightarrow> (msg, string) res" where
  "readURL stdin =
     (case stdin of
        None \<Rightarrow> Inl [(''sub add reads the URL from stdin'', [])]
      | Some raw \<Rightarrow>
          let url = trim_space (take 8192 raw)
          in if url = [] then Inl [(''sub add reads the URL from stdin, and it was empty'', [])] else Inr url)"

definition conn_close :: "bool \<Rightarrow> string list \<Rightarrow> (cli_error, bool \<times> string list) res" where
  "conn_close everything rest =
     (if everything = (rest \<noteq> []) then Inl (UsageError [(''conn close takes connection ids or --all'', [])])
      else if everything then Inr (True, []) else Inr (False, rest))"

end
