(* ===== verification/Rule_Edit.thy ===== *)
theory Rule_Edit
  imports Command_Line Rule_Props
begin

text \<open>
  \<^verbatim>\<open>internal/cli/rules.go\<close>: the edits of the owner's rules. A rule is named by its position among the rules in document order,
  those of categories and disabled ones included. What the source changes through a pointer into the entries is a place in them
  here, with the list it is in.
\<close>

subsection \<open>Places\<close>

datatype rule_place = Alone nat | Inside nat nat

fun place_index :: "rule_place \<Rightarrow> nat" where
  "place_index (Alone i) = i"
| "place_index (Inside _ j) = j"

text \<open>\<open>i\<close> is the position of the first of the entries, \<open>n\<close> counts the rules before it.\<close>

fun rule_from :: "nat \<Rightarrow> nat \<Rightarrow> rule_entry list \<Rightarrow> nat \<Rightarrow> (rule_place \<times> string) option" where
  "rule_from i n [] index = None"
| "rule_from i n (e # es) index =
     (case re_category e of
        None \<Rightarrow> if Suc n = index then Some (Alone i, []) else rule_from (Suc i) (Suc n) es index
      | Some c \<Rightarrow>
          if n < index \<and> index \<le> n + length (rc_rules c) then Some (Inside i (index - n - 1), rc_id c)
          else rule_from (Suc i) (n + length (rc_rules c)) es index)"

definition ruleAt :: "rule_entry list \<Rightarrow> nat \<Rightarrow> (cli_error, rule_place \<times> string) res" where
  "ruleAt entries index =
     (case rule_from 0 0 entries index of
        None \<Rightarrow> Inl (ExitError ExitNotFound [(''there is no rule %d of yours'', [itoa_nat index])])
      | Some p \<Rightarrow> Inr p)"

fun category_from :: "nat \<Rightarrow> rule_entry list \<Rightarrow> string \<Rightarrow> nat option" where
  "category_from i [] cid = None"
| "category_from i (e # es) cid =
     (case re_category e of
        Some c \<Rightarrow> if rc_id c = cid then Some i else category_from (Suc i) es cid
      | None \<Rightarrow> category_from (Suc i) es cid)"

definition categoryAt :: "rule_entry list \<Rightarrow> string \<Rightarrow> (cli_error, nat) res" where
  "categoryAt entries cid =
     (case category_from 0 entries cid of
        None \<Rightarrow> Inl (ExitError ExitNotFound [(''there is no editable category %q'', [cid])])
      | Some i \<Rightarrow> Inr i)"

definition cat_rules :: "rule_entry \<Rightarrow> rule_entry list" where
  "cat_rules e = (case re_category e of None \<Rightarrow> [] | Some c \<Rightarrow> rc_rules c)"

definition put_cat :: "(rule_category \<Rightarrow> rule_category) \<Rightarrow> rule_entry \<Rightarrow> rule_entry" where
  "put_cat f e = RuleEntry (re_type e) (re_value e) (re_target e) (re_params e) (re_disabled e) (map_option f (re_category e))"

definition put_rules :: "rule_entry list \<Rightarrow> rule_entry \<Rightarrow> rule_entry" where
  "put_rules rs = put_cat (\<lambda>c. RuleCategory (rc_id c) (rc_name c) rs)"

definition put_disabled :: "bool \<Rightarrow> rule_entry \<Rightarrow> rule_entry" where
  "put_disabled b e = RuleEntry (re_type e) (re_value e) (re_target e) (re_params e) b (re_category e)"

definition put_target :: "string \<Rightarrow> rule_entry \<Rightarrow> rule_entry" where
  "put_target t e = RuleEntry (re_type e) (re_value e) t (re_params e) (re_disabled e) (re_category e)"

text \<open>The list a place is in, and the entries with another list there.\<close>

fun list_at :: "rule_entry list \<Rightarrow> rule_place \<Rightarrow> rule_entry list" where
  "list_at es (Alone _) = es"
| "list_at es (Inside i _) = cat_rules (es ! i)"

fun with_list :: "rule_entry list \<Rightarrow> rule_place \<Rightarrow> rule_entry list \<Rightarrow> rule_entry list" where
  "with_list es (Alone _) l = l"
| "with_list es (Inside i _) l = es[i := put_rules l (es ! i)]"

definition rule_at_place :: "rule_entry list \<Rightarrow> rule_place \<Rightarrow> rule_entry" where
  "rule_at_place es p = list_at es p ! place_index p"

text \<open>\<^verbatim>\<open>slices.Delete\<close> of one element and \<^verbatim>\<open>slices.Insert\<close>; the latter panics beyond the end of the list.\<close>

definition delete_at :: "nat \<Rightarrow> 'a list \<Rightarrow> 'a list" where
  "delete_at k xs = take k xs @ drop (Suc k) xs"

definition insert_at :: "nat \<Rightarrow> 'a \<Rightarrow> 'a list \<Rightarrow> 'a list" where
  "insert_at k x xs = take k xs @ x # drop k xs"

subsection \<open>Edits\<close>

definition positive :: "string \<Rightarrow> (msg, nat) res" where
  "positive text =
     (case parse_int text of
        None \<Rightarrow> Inl [(''indices are positive numbers'', [])]
      | Some n \<Rightarrow> if n < 1 then Inl [(''indices are positive numbers'', [])] else Inr (nat n))"

definition delete_rule :: "rule_entry list \<Rightarrow> rule_place \<Rightarrow> rule_entry list" where
  "delete_rule es p = with_list es p (delete_at (place_index p) (list_at es p))"

definition append_rule :: "rule_entry list \<Rightarrow> string \<Rightarrow> rule_entry \<Rightarrow> rule_entry list" where
  "append_rule es category r =
     (if category = [] then es @ [r]
      else case category_from 0 es category of None \<Rightarrow> es | Some at \<Rightarrow> es[at := put_rules (cat_rules (es ! at) @ [r]) (es ! at)])"

definition assignRule :: "rule_entry list \<Rightarrow> rule_entry \<Rightarrow> nat \<Rightarrow> string \<Rightarrow> (cli_error, rule_entry list) res" where
  "assignRule es r index category =
     (case (if category = [] then Inr 0 else categoryAt es category) of
        Inl err \<Rightarrow> Inl err
      | Inr _ \<Rightarrow>
          if index = 0 then Inr (append_rule es category r)
          else case ruleAt es index of
                 Inl err \<Rightarrow> Inl err
               | Inr (p, old) \<Rightarrow>
                   if old = category then Inr (with_list es p ((list_at es p)[place_index p := r]))
                   else Inr (append_rule (delete_rule es p) category r))"

definition toggle_rule :: "bool \<Rightarrow> nat \<Rightarrow> rule_entry list \<Rightarrow> (cli_error, rule_entry list) res" where
  "toggle_rule enabled index es =
     (case ruleAt es index of
        Inl err \<Rightarrow> Inl err
      | Inr (p, _) \<Rightarrow> Inr (with_list es p ((list_at es p)[place_index p := put_disabled (\<not> enabled) (rule_at_place es p)])))"

definition remove_rule :: "nat \<Rightarrow> rule_entry list \<Rightarrow> (cli_error, rule_entry list) res" where
  "remove_rule index es = (case ruleAt es index of Inl err \<Rightarrow> Inl err | Inr (p, _) \<Rightarrow> Inr (delete_rule es p))"

definition move_rule :: "nat \<Rightarrow> nat \<Rightarrow> rule_entry list \<Rightarrow> (cli_error, rule_entry list) res" where
  "move_rule from to es =
     (case ruleAt es from of
        Inl err \<Rightarrow> Inl err
      | Inr (p, category) \<Rightarrow>
          (case ruleAt es to of
             Inl err \<Rightarrow> Inl err
           | Inr (q, other) \<Rightarrow>
               if category \<noteq> other then Inl (PlainError [(''choose a rule in the same category; use update to change category'', [])])
               else Inr (with_list es p (insert_at (place_index q) (rule_at_place es p) (delete_at (place_index p) (list_at es p))))))"

definition moveEntry :: "nat \<Rightarrow> nat \<Rightarrow> rule_entry list \<Rightarrow> (cli_error, rule_entry list) res" where
  "moveEntry from to es =
     (if from > length es \<or> to > length es then Inl (PlainError [(''entry indices are outside your rules'', [])])
      else Inr (insert_at (to - 1) (es ! (from - 1)) (delete_at (from - 1) es)))"

definition on_category :: "(rule_entry \<Rightarrow> rule_entry) \<Rightarrow> string \<Rightarrow> rule_entry list \<Rightarrow> (cli_error, rule_entry list) res" where
  "on_category f cid es = (case categoryAt es cid of Inl err \<Rightarrow> Inl err | Inr at \<Rightarrow> Inr (es[at := f (es ! at)]))"

definition rename_category :: "string \<Rightarrow> string \<Rightarrow> rule_entry list \<Rightarrow> (cli_error, rule_entry list) res" where
  "rename_category cid name = on_category (put_cat (\<lambda>c. RuleCategory (rc_id c) name (rc_rules c))) cid"

definition retarget :: "string \<Rightarrow> rule_entry \<Rightarrow> rule_entry" where
  "retarget t r = (if re_type r \<noteq> ''SUB-RULE'' then put_target t r else r)"

definition target_category :: "'d daemon_link \<Rightarrow> string \<Rightarrow> string \<Rightarrow> rule_entry list \<Rightarrow> 'd \<Rightarrow> (cli_error, rule_entry list) res \<times> 'd" where
  "target_category L cid target es d =
     (case categoryAt es cid of
        Inl err \<Rightarrow> (Inl err, d)
      | Inr at \<Rightarrow>
          (case checkName L target False d of
             (Some err, d1) \<Rightarrow> (Inl err, d1)
           | (None, d1) \<Rightarrow> (Inr (es[at := put_rules (map (retarget target) (cat_rules (es ! at))) (es ! at)]), d1)))"

definition categoryToggle :: "bool \<Rightarrow> string \<Rightarrow> apply_args \<Rightarrow> (cli_error, apply_args) res" where
  "categoryToggle enabled cid v =
     (if cid = ''omihomo'' then Inr (v\<lparr>aa_settings := (aa_settings v)\<lparr>s_omihomo_rules_disabled := \<not> enabled\<rparr>\<rparr>)
      else if cid = ''subscription'' then Inr (v\<lparr>aa_settings := (aa_settings v)\<lparr>s_subscription_rules_disabled := \<not> enabled\<rparr>\<rparr>)
      else case on_category (put_disabled (\<not> enabled)) cid (aa_rules v) of
             Inl err \<Rightarrow> Inl err | Inr es \<Rightarrow> Inr (v\<lparr>aa_rules := es\<rparr>))"

text \<open>The rules of a disabled category stay disabled when it is taken apart.\<close>

definition ungrouped :: "rule_entry \<Rightarrow> rule_entry list" where
  "ungrouped e = (if re_disabled e then map (put_disabled True) (cat_rules e) else cat_rules e)"

definition remove_category :: "string \<Rightarrow> rule_entry list \<Rightarrow> (cli_error, rule_entry list) res" where
  "remove_category cid es =
     (case categoryAt es cid of
        Inl err \<Rightarrow> Inl err
      | Inr at \<Rightarrow> Inr (take at es @ ungrouped (es ! at) @ drop (Suc at) es))"

subsection \<open>Adding and updating\<close>

text \<open>\<^verbatim>\<open>save\<close>. \<open>new_id\<close> is the random identifier of a new category; \<open>upper\<close> and \<open>parse_bool\<close> are \<^verbatim>\<open>strings.ToUpper\<close> and
  \<^verbatim>\<open>strconv.ParseBool\<close>.\<close>

definition parse_bool :: "string \<Rightarrow> bool option" where
  "parse_bool s =
     (if s \<in> set [''1'', ''t'', ''T'', ''true'', ''TRUE'', ''True''] then Some True
      else if s \<in> set [''0'', ''f'', ''F'', ''false'', ''FALSE'', ''False''] then Some False else None)"

definition arg :: "nat \<Rightarrow> string list \<Rightarrow> string" where
  "arg k args = (if k < length args then args ! k else [])"

definition old_rule :: "nat \<Rightarrow> rule_entry list \<Rightarrow> (cli_error, rule_entry \<times> string) res" where
  "old_rule index es = (case ruleAt es index of Inl err \<Rightarrow> Inl err | Inr (p, c) \<Rightarrow> Inr (rule_at_place es p, c))"

definition new_rule :: "(string \<Rightarrow> string) \<Rightarrow> bool \<Rightarrow> string list \<Rightarrow> (msg, rule_entry) res" where
  "new_rule upper disabled args =
     (let make = (\<lambda>b. RuleEntry (upper (trim_space (arg 0 args))) (arg 1 args) (arg 2 args) (arg 3 args) b None)
      in if length args > 5
         then (case parse_bool (arg 5 args) of
                 None \<Rightarrow> Inl [(''enabled must be true or false'', [])] | Some enabled \<Rightarrow> Inr (make (\<not> enabled)))
         else Inr (make disabled))"

text \<open>A target that is not there now is kept where it was the target already.\<close>

definition target_ok :: "'d daemon_link \<Rightarrow> rule_entry \<Rightarrow> rule_entry option \<Rightarrow> 'd \<Rightarrow> cli_error option \<times> 'd" where
  "target_ok L r old d =
     (if re_type r = ''SUB-RULE'' then (None, d)
      else case checkName L (re_target r) False d of
             (None, d1) \<Rightarrow> (None, d1)
           | (Some err, d1) \<Rightarrow> (if \<exists>x \<in> set_option old. re_target x = re_target r then None else Some err, d1))"

definition save_rule ::
  "'d daemon_link \<Rightarrow> (string \<Rightarrow> string) \<Rightarrow> string \<Rightarrow> nat \<Rightarrow> string list \<Rightarrow> rule_entry list \<Rightarrow> 'd \<Rightarrow> (cli_error, rule_entry list) res \<times> 'd" where
  "save_rule L upper new_id index args es d =
     (case (if index = 0 then Inr None else map_sum id Some (old_rule index es)) of
        Inl err \<Rightarrow> (Inl err, d)
      | Inr old \<Rightarrow>
     (case new_rule upper (case old of None \<Rightarrow> False | Some (x, _) \<Rightarrow> re_disabled x) args of
        Inl err \<Rightarrow> (Inl (PlainError err), d)
      | Inr r \<Rightarrow>
     (case target_ok L r (map_option fst old) d of
        (Some err, d1) \<Rightarrow> (Inl err, d1)
      | (None, d1) \<Rightarrow>
          let category = (if length args > 4 then arg 4 args else case old of None \<Rightarrow> [] | Some (_, c) \<Rightarrow> c)
          in if arg 6 args = [] then (assignRule es r index category, d1)
             else if category \<noteq> [] then (Inl (PlainError [(''choose an existing category or a new name, not both'', [])]), d1)
             else (assignRule (es @ [RuleEntry [] [] [] [] False (Some (RuleCategory new_id (arg 6 args) []))]) r index new_id, d1))))"

text \<open>The commands of \<^verbatim>\<open>ruleCommand\<close> with their arguments checked.\<close>

definition indices :: "nat \<Rightarrow> string list \<Rightarrow> (cli_error, nat list) res" where
  "indices k args = (case map_res positive (take k args) of Inl err \<Rightarrow> Inl (UsageError err) | Inr ns \<Rightarrow> Inr ns)"

definition rule_edit :: "nat \<Rightarrow> nat \<Rightarrow> nat \<Rightarrow> (nat list \<Rightarrow> string list \<Rightarrow> 'd change) \<Rightarrow> string list \<Rightarrow> (cli_error, 'd change) res" where
  "rule_edit lo hi k run args =
     (if length args < lo \<or> length args > hi then Inl (UsageError [(''see usage for the required arguments'', [])])
      else case indices k args of Inl err \<Rightarrow> Inl err | Inr ns \<Rightarrow> Inr (run ns args))"

definition to_rules :: "(rule_entry list \<Rightarrow> (cli_error, rule_entry list) res) \<Rightarrow> 'd change" where
  "to_rules f v d = (case f (aa_rules v) of Inl err \<Rightarrow> (Inl err, d) | Inr es \<Rightarrow> (Inr (v\<lparr>aa_rules := es\<rparr>), d))"

definition to_rules_asking :: "(rule_entry list \<Rightarrow> 'd \<Rightarrow> (cli_error, rule_entry list) res \<times> 'd) \<Rightarrow> 'd change" where
  "to_rules_asking f v d = (case f (aa_rules v) d of (Inl err, d1) \<Rightarrow> (Inl err, d1) | (Inr es, d1) \<Rightarrow> (Inr (v\<lparr>aa_rules := es\<rparr>), d1))"

definition ruleCommand ::
  "'d daemon_link \<Rightarrow> (string \<Rightarrow> string) \<Rightarrow> string \<Rightarrow> string \<Rightarrow> (string list \<Rightarrow> (cli_error, 'd change) res) option" where
  "ruleCommand L upper new_id name = map_of
     [(''add'', rule_edit 3 7 0 (\<lambda>_ args. to_rules_asking (save_rule L upper new_id 0 args))),
      (''update'', rule_edit 4 8 1 (\<lambda>ns args. to_rules_asking (save_rule L upper new_id (hd ns) (tl args)))),
      (''enable'', rule_edit 1 1 1 (\<lambda>ns _. to_rules (toggle_rule True (hd ns)))),
      (''disable'', rule_edit 1 1 1 (\<lambda>ns _. to_rules (toggle_rule False (hd ns)))),
      (''move'', rule_edit 2 2 2 (\<lambda>ns _. to_rules (move_rule (ns ! 0) (ns ! 1)))),
      (''entry-move'', rule_edit 2 2 2 (\<lambda>ns _. to_rules (moveEntry (ns ! 0) (ns ! 1)))),
      (''remove'', rule_edit 1 1 1 (\<lambda>ns _. to_rules (remove_rule (hd ns)))),
      (''category rename'', rule_edit 2 2 0 (\<lambda>_ args. to_rules (rename_category (args ! 0) (args ! 1)))),
      (''category enable'', rule_edit 1 1 0 (\<lambda>_ args v d. (categoryToggle True (args ! 0) v, d))),
      (''category disable'', rule_edit 1 1 0 (\<lambda>_ args v d. (categoryToggle False (args ! 0) v, d))),
      (''category target'', rule_edit 2 2 0 (\<lambda>_ args. to_rules_asking (target_category L (args ! 0) (args ! 1)))),
      (''category remove'', rule_edit 1 1 0 (\<lambda>_ args. to_rules (remove_category (args ! 0))))] name"

end
