(* ===== verification/Cli_Props.thy ===== *)
theory Cli_Props
  imports Rule_Edit "HOL-Library.Multiset"
begin

text \<open>
  What the command line promises: an edit of a rule changes that rule and no other, taking a category apart does not change what
  runs, and the settings files hold what the daemon runs.
\<close>

subsection \<open>Rules by position\<close>

lemma entry_rules_simps [simp]:
  "entry_rules [] = []" "entry_rules (xs @ ys) = entry_rules xs @ entry_rules ys"
  "entry_rules (e # es) = (case re_category e of None \<Rightarrow> [e] | Some c \<Rightarrow> rc_rules c) @ entry_rules es"
  by (simp_all add: entry_rules_def)

text \<open>Where a place is: the entries before it, the one it is at or in, and those after.\<close>

definition located :: "nat \<Rightarrow> nat \<Rightarrow> rule_entry list \<Rightarrow> nat \<Rightarrow> rule_place \<Rightarrow> string \<Rightarrow> bool" where
  "located i n es index p cid \<longleftrightarrow> (\<exists>A e B. es = A @ e # B \<and>
     (p = Alone (i + length A) \<and> re_category e = None \<and> cid = [] \<and> index = n + length (entry_rules A) + 1
      \<or> (\<exists>c j. p = Inside (i + length A) j \<and> re_category e = Some c \<and> cid = rc_id c \<and> j < length (rc_rules c)
          \<and> index = n + length (entry_rules A) + j + 1)))"

lemma located_Cons:
  assumes "located (Suc i) (n + length (case re_category e of None \<Rightarrow> [e] | Some c \<Rightarrow> rc_rules c)) es index p cid"
  shows "located i n (e # es) index p cid"
proof -
  obtain A x B where s: "es = A @ x # B" and
    c: "p = Alone (Suc i + length A) \<and> re_category x = None \<and> cid = []
        \<and> index = n + length (case re_category e of None \<Rightarrow> [e] | Some c \<Rightarrow> rc_rules c) + length (entry_rules A) + 1
      \<or> (\<exists>c j. p = Inside (Suc i + length A) j \<and> re_category x = Some c \<and> cid = rc_id c \<and> j < length (rc_rules c)
        \<and> index = n + length (case re_category e of None \<Rightarrow> [e] | Some c \<Rightarrow> rc_rules c) + length (entry_rules A) + j + 1)"
    using assms unfolding located_def by blast
  show ?thesis unfolding located_def
    by (rule exI[of _ "e # A"], rule exI[of _ x], rule exI[of _ B]) (use s c in auto)
qed

lemma rule_from_located: "rule_from i n es index = Some (p, cid) \<Longrightarrow> located i n es index p cid"
proof (induction es arbitrary: i n)
  case (Cons e es)
  show ?case
  proof (cases "re_category e")
    case None
    show ?thesis
    proof (cases "Suc n = index")
      case True
      with Cons.prems None have "p = Alone i" "cid = []" by auto
      then show ?thesis using True None unfolding located_def by (intro exI[of _ "[]"]) auto
    next
      case False
      then show ?thesis using Cons None by (intro located_Cons) auto
    qed
  next
    case (Some c)
    show ?thesis
    proof (cases "n < index \<and> index \<le> n + length (rc_rules c)")
      case True
      with Cons.prems Some have "p = Inside i (index - n - 1)" "cid = rc_id c" by auto
      then show ?thesis using True Some unfolding located_def
        by (intro exI[of _ "[]"] exI[of _ e] exI[of _ es] conjI disjI2 exI[of _ c] exI[of _ "index - n - 1"]) auto
    next
      case False
      then show ?thesis using Cons Some by (intro located_Cons) (auto split: if_splits)
    qed
  qed
qed simp

lemma rule_from_None: "n < index \<Longrightarrow> rule_from i n es index = None \<longleftrightarrow> n + length (entry_rules es) < index"
  by (induction es arbitrary: i n) (auto split: option.splits)

lemma rule_from_zero: "rule_from i n es 0 = None"
  by (induction es arbitrary: i n) (auto split: option.splits)

lemma ruleAt_missing: "isl (ruleAt es index) \<longleftrightarrow> index = 0 \<or> length (entry_rules es) < index"
  using rule_from_None[of 0 index 0 es] rule_from_zero[of 0 0 es]
  by (cases "index = 0") (auto simp: ruleAt_def split: option.splits)

lemma ruleAt_located: "ruleAt es index = Inr (p, cid) \<Longrightarrow> located 0 0 es index p cid"
  by (auto simp: ruleAt_def dest: rule_from_located split: option.splits)

lemma delete_at_append [simp]:
  "delete_at (length A) (A @ x # B) = A @ B" "j < length xs \<Longrightarrow> delete_at (length A + j) (A @ xs @ B) = A @ delete_at j xs @ B"
  by (simp_all add: delete_at_def)

lemma cat_rules_Some [simp]: "re_category e = Some c \<Longrightarrow> cat_rules e = rc_rules c"
  by (simp add: cat_rules_def)

lemma put_rules_cat [simp]: "re_category (put_rules l e) = map_option (\<lambda>c. RuleCategory (rc_id c) (rc_name c) l) (re_category e)"
  by (simp add: put_rules_def put_cat_def)

text \<open>What a place stands for among the rules, and what another rule or none there makes of them.\<close>

lemma ruleAt_place:
  assumes "ruleAt es index = Inr (p, cid)"
  shows "index - 1 < length (entry_rules es)" "rule_at_place es p = entry_rules es ! (index - 1)"
    "entry_rules (delete_rule es p) = delete_at (index - 1) (entry_rules es)"
    "re_category r = None \<Longrightarrow> entry_rules (with_list es p ((list_at es p)[place_index p := r])) = (entry_rules es)[index - 1 := r]"
proof -
  obtain A e B where s: "es = A @ e # B" and
    c: "p = Alone (length A) \<and> re_category e = None \<and> cid = [] \<and> index = length (entry_rules A) + 1
      \<or> (\<exists>c j. p = Inside (length A) j \<and> re_category e = Some c \<and> cid = rc_id c \<and> j < length (rc_rules c)
          \<and> index = length (entry_rules A) + j + 1)"
    using ruleAt_located[OF assms] unfolding located_def by auto
  from c show "index - 1 < length (entry_rules es)" "rule_at_place es p = entry_rules es ! (index - 1)"
    "entry_rules (delete_rule es p) = delete_at (index - 1) (entry_rules es)"
    "re_category r = None \<Longrightarrow> entry_rules (with_list es p ((list_at es p)[place_index p := r])) = (entry_rules es)[index - 1 := r]"
    by (auto simp: s rule_at_place_def delete_rule_def nth_append list_update_append)
qed

text \<open>Identifiers of categories as the daemon accepts them: present, and each used once.\<close>

definition ids_ok :: "rule_entry list \<Rightarrow> bool" where
  "ids_ok es \<longleftrightarrow> distinct (map rc_id (List.map_filter re_category es)) \<and> [] \<notin> set (map rc_id (List.map_filter re_category es))"

lemma map_filter_split [simp]:
  "List.map_filter f (xs @ ys) = List.map_filter f xs @ List.map_filter f ys"
  "List.map_filter f (x # xs) = (case f x of None \<Rightarrow> [] | Some y \<Rightarrow> [y]) @ List.map_filter f xs"
  by (simp_all add: map_filter_def split: option.split)

lemma ids_ok_unique:
  assumes "ids_ok es" "i < length es" "j < length es" "re_category (es ! i) = Some c" "re_category (es ! j) = Some d" "rc_id c = rc_id d"
  shows "i = j"
proof (rule ccontr)
  assume "i \<noteq> j"
  have gen: False if "a < b" "b < length es" "re_category (es ! a) = Some x" "re_category (es ! b) = Some y" "rc_id x = rc_id y" for a b x y
  proof -
    have x: "x \<in> set (List.map_filter re_category (take b es))"
      using that(1-3) by (force simp: map_filter_def in_set_conv_nth)
    have "es = take b es @ es ! b # drop (Suc b) es" using that(2) by (simp add: id_take_nth_drop)
    then have "distinct (map rc_id (List.map_filter re_category (take b es @ es ! b # drop (Suc b) es)))"
      using assms(1) unfolding ids_ok_def by metis
    then have "rc_id y \<notin> rc_id ` set (List.map_filter re_category (take b es))" using that(4) by auto
    with x that(5) show False by (metis image_eqI)
  qed
  show False using gen[of i j c d] gen[of j i d c] \<open>i \<noteq> j\<close> assms by (metis linorder_neqE_nat)
qed

lemma insert_at_append [simp]: "insert_at (length A + j) x (A @ B) = A @ insert_at j x B" "insert_at 0 x xs = x # xs"
  by (simp_all add: insert_at_def)

text \<open>Moving within one list.\<close>

lemma move_alone:
  assumes "ruleAt es from = Inr (Alone a, c)" "ruleAt es to = Inr (Alone b, c')"
  shows "entry_rules (insert_at b (es ! a) (delete_at a es)) = insert_at (to - 1) (entry_rules es ! (from - 1)) (delete_at (from - 1) (entry_rules es))"
proof -
  obtain A e B where s: "es = A @ e # B" "a = length A" "re_category e = None" "from = length (entry_rules A) + 1"
    using ruleAt_located[OF assms(1)] unfolding located_def by auto
  obtain C f D where t: "es = C @ f # D" "b = length C" "re_category f = None" "to = length (entry_rules C) + 1"
    using ruleAt_located[OF assms(2)] unfolding located_def by auto
  have ea: "es ! a = e" "delete_at a es = A @ B" "entry_rules es ! (from - 1) = e"
    "delete_at (from - 1) (entry_rules es) = entry_rules A @ entry_rules B"
    using s by (simp_all add: nth_append delete_at_def)
  have ins: "entry_rules (insert_at (length X) e (X @ Y)) = insert_at (length (entry_rules X)) e (entry_rules X @ entry_rules Y)" for X Y
    using s(3) by (simp add: insert_at_def)
  show ?thesis
  proof (cases "b \<le> a")
    case True
    then have "A = C @ drop b A" using s t by (metis append_eq_append_conv_if append_take_drop_id)
    then obtain X where X: "A = C @ X" by blast
    show ?thesis unfolding ea using ins[of C "X @ B"] X t(2,4) by simp
  next
    case False
    from s(1) t(1) have "A @ e # B = C @ f # D" by simp
    then obtain us where "A = C @ us \<and> us @ e # B = f # D \<or> A @ us = C \<and> e # B = us @ f # D"
      by (auto simp: append_eq_append_conv2)
    with False s(2) t(2) obtain Y where Y: "C = A @ e # Y" and B: "B = Y @ f # D" by (cases us) auto
    have "insert_at b e (A @ B) = A @ Y @ f # e # D" using B Y t(2) by (simp add: insert_at_def)
    moreover have "insert_at (to - 1) e (entry_rules A @ entry_rules B) = entry_rules A @ entry_rules Y @ f # e # entry_rules D"
      using B Y t(3,4) s(3) by (simp add: insert_at_def)
    ultimately show ?thesis unfolding ea using s(3) t(3) by simp
  qed
qed

lemma move_inside:
  assumes "ruleAt es from = Inr (Inside i j, c)" "ruleAt es to = Inr (Inside i k, c')"
  shows "entry_rules (with_list es (Inside i j) (insert_at k (list_at es (Inside i j) ! j) (delete_at j (list_at es (Inside i j)))))
    = insert_at (to - 1) (entry_rules es ! (from - 1)) (delete_at (from - 1) (entry_rules es))"
proof -
  obtain A e B x where s: "es = A @ e # B" "i = length A" "re_category e = Some x" "j < length (rc_rules x)" "from = length (entry_rules A) + j + 1"
    using ruleAt_located[OF assms(1)] unfolding located_def by auto
  obtain C f D y where t: "es = C @ f # D" "i = length C" "re_category f = Some y" "k < length (rc_rules y)" "to = length (entry_rules C) + k + 1"
    using ruleAt_located[OF assms(2)] unfolding located_def by auto
  have "C = A" "f = e" "y = x" using s t by auto
  have k: "k \<le> length (delete_at j (rc_rules x))" using s(4) t(4) \<open>y = x\<close> by (simp add: delete_at_def)
  then have "insert_at k z (delete_at j (rc_rules x) @ R) = insert_at k z (delete_at j (rc_rules x)) @ R" for z R
    by (simp add: insert_at_def)
  then show ?thesis using s t \<open>C = A\<close> \<open>f = e\<close> \<open>y = x\<close> by (simp add: nth_append)
qed

lemma move_rule_moves:
  assumes "ids_ok es" "move_rule from to es = Inr es'"
  shows "entry_rules es' = insert_at (to - 1) (entry_rules es ! (from - 1)) (delete_at (from - 1) (entry_rules es))"
proof -
  obtain p c q where p: "ruleAt es from = Inr (p, c)" and q: "ruleAt es to = Inr (q, c)" and
    es': "es' = with_list es p (insert_at (place_index q) (rule_at_place es p) (delete_at (place_index p) (list_at es p)))"
    using assms(2) by (auto simp: move_rule_def split: sum.splits if_splits)
  have cat: "\<exists>x. re_category (es ! i) = Some x \<and> rc_id x = cid \<and> i < length es" if "ruleAt es n = Inr (Inside i j, cid)" for i j n cid
    using ruleAt_located[OF that] unfolding located_def by auto
  have alone: "cid = []" if "ruleAt es n = Inr (Alone i, cid)" for i n cid
    using ruleAt_located[OF that] unfolding located_def by auto
  have named: "rc_id x \<noteq> []" if "re_category (es ! i) = Some x" "i < length es" for i x
    using assms(1) that unfolding ids_ok_def by (auto simp: map_filter_def image_iff) (metis nth_mem option.sel option.simps(3))
  show ?thesis
  proof (cases p)
    case (Alone a)
    then have "\<not> (\<exists>i j. q = Inside i j)" using alone[of "from" a c] p q cat named by metis
    then obtain b where "q = Alone b" by (cases q) auto
    then show ?thesis using move_alone[of es "from" a c to b c] p q Alone es' by (simp add: rule_at_place_def)
  next
    case (Inside i j)
    then obtain x where x: "re_category (es ! i) = Some x" "rc_id x = c" "i < length es" using cat p by blast
    then have "\<not> (\<exists>b. q = Alone b)" using alone named q by metis
    then obtain i' k where q': "q = Inside i' k" by (cases q) auto
    then obtain y where y: "re_category (es ! i') = Some y" "rc_id y = c" "i' < length es" using cat q by blast
    have "i' = i" using ids_ok_unique[OF assms(1) y(3) x(3) y(1) x(1)] x y by simp
    then show ?thesis using move_inside[of es "from" i j c to k c] p q Inside q' es' by (simp add: rule_at_place_def)
  qed
qed

subsection \<open>Adding and updating\<close>

definition cat_ids :: "rule_entry list \<Rightarrow> string list" where
  "cat_ids es = map rc_id (List.map_filter re_category es)"

lemma cat_ids_simps [simp]:
  "cat_ids (xs @ ys) = cat_ids xs @ cat_ids ys" "cat_ids (e # es) = (case re_category e of None \<Rightarrow> [] | Some c \<Rightarrow> [rc_id c]) @ cat_ids es"
  "cat_ids [] = []"
  by (simp_all add: cat_ids_def map_filter_def split: option.split)

lemma category_from_at:
  "category_from i es cid = Some k \<Longrightarrow> \<exists>A e B c. es = A @ e # B \<and> k = i + length A \<and> re_category e = Some c \<and> rc_id c = cid"
proof (induction es arbitrary: i)
  case (Cons e es)
  have step: "\<exists>A x B c. e # es = A @ x # B \<and> k = i + length A \<and> re_category x = Some c \<and> rc_id c = cid"
    if "category_from (Suc i) es cid = Some k"
    using Cons.IH[OF that] by (metis append_Cons add_Suc_right add_Suc length_Cons)
  show ?case
  proof (cases "re_category e")
    case None
    with Cons.prems show ?thesis using step by simp
  next
    case (Some c)
    show ?thesis
    proof (cases "rc_id c = cid")
      case True
      with Cons.prems Some show ?thesis by (intro exI[of _ "[]"]) auto
    next
      case False
      with Cons.prems Some show ?thesis using step by simp
    qed
  qed
qed simp

lemma category_from_None: "category_from i es cid = None \<longleftrightarrow> cid \<notin> set (cat_ids es)"
  by (induction es arbitrary: i) (auto split: option.splits)

lemma append_rule_mset:
  assumes "cid = [] \<or> cid \<in> set (cat_ids es)" "re_category r = None"
  shows "mset (entry_rules (append_rule es cid r)) = add_mset r (mset (entry_rules es))"
proof (cases "cid = []")
  case True
  then show ?thesis using assms(2) by (simp add: append_rule_def)
next
  case False
  then obtain at where at: "category_from 0 es cid = Some at" using assms(1) category_from_None[of 0 es cid] by blast
  obtain A e B c where "es = A @ e # B" "at = length A" "re_category e = Some c" using category_from_at[OF at] by auto
  with at False show ?thesis by (simp add: append_rule_def)
qed

lemma delete_rule_cats: "ruleAt es index = Inr (p, cid) \<Longrightarrow> cat_ids (delete_rule es p) = cat_ids es"
  using ruleAt_located[of es index p cid] by (auto simp: located_def delete_rule_def)

lemma mset_delete_at: "k < length xs \<Longrightarrow> mset xs = add_mset (xs ! k) (mset (delete_at k xs))"
  unfolding delete_at_def by (subst id_take_nth_drop[of k xs]) simp_all

lemma assignRule_replaces:
  assumes "assignRule es r index cid = Inr es'" "re_category r = None"
  shows "mset (entry_rules es') = (if index = 0 then add_mset r (mset (entry_rules es))
      else add_mset r (mset (entry_rules es) - {#entry_rules es ! (index - 1)#}))"
proof -
  have c: "cid = [] \<or> cid \<in> set (cat_ids es)"
    using assms(1) category_from_None[of 0 es cid] by (auto simp: assignRule_def categoryAt_def split: if_splits option.splits sum.splits)
  show ?thesis
  proof (cases "index = 0")
    case True
    then show ?thesis using assms append_rule_mset[OF c assms(2)] by (auto simp: assignRule_def split: sum.splits)
  next
    case False
    then obtain p old where p: "ruleAt es index = Inr (p, old)"
      using assms(1) by (auto simp: assignRule_def split: sum.splits)
    note at = ruleAt_place[OF p]
    have rest: "mset (entry_rules es) - {#entry_rules es ! (index - 1)#} = mset (delete_at (index - 1) (entry_rules es))"
      using mset_delete_at[OF at(1)] by simp
    show ?thesis
    proof (cases "old = cid")
      case True
      then have "es' = with_list es p ((list_at es p)[place_index p := r])"
        using assms(1) False p by (auto simp: assignRule_def split: sum.splits)
      then show ?thesis using at(1) at(4)[OF assms(2)] False by (simp add: mset_update)
    next
      case ne: False
      then have "es' = append_rule (delete_rule es p) cid r" using assms(1) False p by (auto simp: assignRule_def split: sum.splits)
      then show ?thesis using append_rule_mset[of cid "delete_rule es p" r] c assms(2) False at(3) rest delete_rule_cats[OF p] by simp
    qed
  qed
qed

subsection \<open>What runs\<close>

definition core_of :: "core_profile \<Rightarrow> bool \<Rightarrow> rule_entry \<Rightarrow> core_rule list" where
  "core_of p off r = (if off \<or> re_disabled r \<or> \<not> ruleActive p r then [] else [rule_of r])"

lemma add_compiled_core: "fst (add_compiled p r c off st) = fst st @ core_of p off r"
  by (simp add: add_compiled_def core_of_def rule_of_def Let_def)

lemma fold_compiled_core: "fst (fold (\<lambda>r. add_compiled p r c off) rs st) = fst st @ concat (map (core_of p off) rs)"
  by (induction rs arbitrary: st) (simp_all add: add_compiled_core)

definition entry_core :: "core_profile \<Rightarrow> rule_entry \<Rightarrow> core_rule list" where
  "entry_core p e = (case re_category e of None \<Rightarrow> core_of p False e | Some c \<Rightarrow> concat (map (core_of p (re_disabled e)) (rc_rules c)))"

lemma compileRules_core: "fst (compileRules es p) = concat (map (entry_core p) es)"
proof -
  have one: "fst (compile_entry p e st) = fst st @ entry_core p e" for e st
    by (simp add: compile_entry_def entry_core_def add_compiled_core fold_compiled_core split: option.split)
  have "fst (fold (compile_entry p) es st) = fst st @ concat (map (entry_core p) es)" for st
    by (induction es arbitrary: st) (simp_all add: one)
  then show ?thesis by (simp add: compileRules_def)
qed

lemma prune_core: "fst (compileRules (PruneCategories es) p) = fst (compileRules es p)"
  unfolding compileRules_core PruneCategories_def
  by (induction es) (auto simp: entry_core_def split: option.splits)

lemma prune_rules: "entry_rules (PruneCategories es) = entry_rules es"
  unfolding PruneCategories_def by (induction es) (auto split: option.splits)

definition flat_cats :: "rule_entry list \<Rightarrow> bool" where
  "flat_cats es \<longleftrightarrow> list_all (\<lambda>e. list_all (\<lambda>r. re_category r = None) (cat_rules e)) es"

lemma put_disabled_sel [simp]:
  "re_category (put_disabled b r) = re_category r" "re_disabled (put_disabled b r) = b" "re_type (put_disabled b r) = re_type r"
  "re_value (put_disabled b r) = re_value r" "re_target (put_disabled b r) = re_target r" "re_params (put_disabled b r) = re_params r"
  by (simp_all add: put_disabled_def)

lemma ungrouped_core:
  assumes "re_category e = Some c" "list_all (\<lambda>r. re_category r = None) (cat_rules e)"
  shows "concat (map (entry_core p) (ungrouped e)) = entry_core p e"
proof -
  have "map (entry_core p) (ungrouped e) = map (core_of p (re_disabled e)) (rc_rules c)"
    using assms by (auto simp: ungrouped_def entry_core_def core_of_def list_all_iff)
  then show ?thesis using assms(1) by (simp add: entry_core_def)
qed

lemma remove_category_core:
  assumes "remove_category cid es = Inr es'" "flat_cats es"
  shows "fst (compileRules es' p) = fst (compileRules es p)"
proof -
  obtain at where at: "category_from 0 es cid = Some at" and es': "es' = take at es @ ungrouped (es ! at) @ drop (Suc at) es"
    using assms(1) by (auto simp: remove_category_def categoryAt_def split: option.splits)
  obtain A e B c where s: "es = A @ e # B" "at = length A" "re_category e = Some c" using category_from_at[OF at] by auto
  then show ?thesis using ungrouped_core[OF s(3)] assms(2) by (simp add: es' compileRules_core flat_cats_def)
qed

subsection \<open>The settings files\<close>

text \<open>The path a name stands for; the two files are kept apart.\<close>

definition target_path :: "string \<Rightarrow> config_dir \<Rightarrow> string option" where
  "target_path name D = (case cd_link D name of None \<Rightarrow> Some name | Some t \<Rightarrow> t)"

definition targets_apart :: "config_dir \<Rightarrow> bool" where
  "targets_apart D \<longleftrightarrow> target_path settingsFile D \<noteq> target_path rulesFile D"

definition file_data :: "string \<Rightarrow> config_dir \<Rightarrow> string option" where
  "file_data name D = map_option sf_data (opened name D)"

lemma opened_target: "opened name D = (case target_path name D of None \<Rightarrow> None | Some t \<Rightarrow> cd_file D t)"
  by (simp add: opened_def target_path_def split: option.split)

lemma target_path_links: "cd_link D' = cd_link D \<Longrightarrow> target_path name D' = target_path name D"
  by (simp add: target_path_def)

lemma EvalSymlinks_target: "EvalSymlinks name D = Some path \<Longrightarrow> target_path name D = Some path"
  by (auto simp: EvalSymlinks_def target_path_def split: option.splits if_splits)

lemma save_one_effect:
  assumes "save_one F name dat D = (r, D')"
  shows "cd_link D' = cd_link D" "r = None \<Longrightarrow> file_data name D' = Some dat"
    "file_data name D' = file_data name D \<or> file_data name D' = Some dat"
    "target_path other D \<noteq> target_path name D \<Longrightarrow> opened other D' = opened other D"
proof -
  have links: "cd_link D' = cd_link D" using assms
    by (auto simp: save_one_def settings_replace_def Let_def split: option.splits if_splits)
  show "cd_link D' = cd_link D" by (rule links)
  show "r = None \<Longrightarrow> file_data name D' = Some dat"
    "file_data name D' = file_data name D \<or> file_data name D' = Some dat"
    "target_path other D \<noteq> target_path name D \<Longrightarrow> opened other D' = opened other D"
    using assms EvalSymlinks_target[of name D]
    unfolding file_data_def opened_target target_path_links[OF links]
    by (auto simp: save_one_def settings_replace_def Let_def split: option.splits if_splits)
qed

definition encoded :: "files_env \<Rightarrow> apply_args \<Rightarrow> string \<Rightarrow> string" where
  "encoded F v name = (if name = settingsFile then fe_enc_settings F (aa_settings v) else fe_enc_rules F (PruneCategories (aa_rules v)))"

lemma names_apart [simp]: "rulesFile \<noteq> settingsFile" "settingsFile \<noteq> rulesFile"
  by (simp_all add: rulesFile_def settingsFile_def)

lemma settings_Save_effect:
  assumes "settings_Save F v D = (r, D')" "targets_apart D" "name \<in> {settingsFile, rulesFile}"
  shows "r = None \<Longrightarrow> file_data name D' = Some (encoded F v name)"
    "file_data name D' = file_data name D \<or> file_data name D' = Some (encoded F v name)"
proof -
  obtain r1 D1 where pd: "privateDir F D = (r1, D1)" by fastforce
  have same: "target_path n D1 = target_path n D" "file_data n D1 = file_data n D" for n
    using pd by (auto simp: privateDir_def target_path_def file_data_def opened_def split: option.splits)
  show "r = None \<Longrightarrow> file_data name D' = Some (encoded F v name)"
    and "file_data name D' = file_data name D \<or> file_data name D' = Some (encoded F v name)"
  proof -
    obtain r2 D2 where s: "save_one F settingsFile (fe_enc_settings F (aa_settings v)) D1 = (r2, D2)" by fastforce
    obtain r3 D3 where t: "save_one F rulesFile (fe_enc_rules F (PruneCategories (aa_rules v))) D2 = (r3, D3)" by fastforce
    note es = save_one_effect[OF s]
    note et = save_one_effect[OF t]
    have ap: "target_path rulesFile D1 \<noteq> target_path settingsFile D1" "target_path settingsFile D2 \<noteq> target_path rulesFile D2"
      using assms(2) by (simp_all add: targets_apart_def same target_path_links[OF es(1)])
    have other: "file_data rulesFile D2 = file_data rulesFile D1" "file_data settingsFile D3 = file_data settingsFile D2"
      using es(4)[OF ap(1)] et(4)[OF ap(2)] by (simp_all add: file_data_def)
    have cases: "r1 \<noteq> None \<and> D' = D1 \<and> r = r1 \<or> r1 = None \<and> r2 \<noteq> None \<and> D' = D2 \<and> r = r2 \<or> r1 = None \<and> r2 = None \<and> D' = D3 \<and> r = r3"
      using assms(1) pd s t by (auto simp: settings_Save_def settings_Encode_def split: option.splits)
    show "r = None \<Longrightarrow> file_data name D' = Some (encoded F v name)"
      using cases es(2) et(2) other assms(3) by (auto simp: encoded_def)
    show "file_data name D' = file_data name D \<or> file_data name D' = Some (encoded F v name)"
      using cases es(3) et(3) other assms(3) by (auto simp: encoded_def same)
  qed
qed

text \<open>What the files must read as.\<close>

definition readable :: "files_env \<Rightarrow> apply_args \<Rightarrow> bool" where
  "readable F v \<longleftrightarrow> Decode (fe_dec_settings F) (fe_enc_settings F (aa_settings v)) = Inr (aa_settings v)
     \<and> Decode (fe_dec_rules F) (fe_enc_rules F (PruneCategories (aa_rules v))) = Inr (PruneCategories (aa_rules v))"

definition fits_line :: "files_env \<Rightarrow> apply_args \<Rightarrow> bool" where
  "fits_line F v \<longleftrightarrow> (\<forall>name \<in> {settingsFile, rulesFile}. length (encoded F v name) \<le> MaxLine)"

lemma settings_Load_saved:
  assumes "\<And>name. name \<in> {settingsFile, rulesFile} \<Longrightarrow> file_data name D = Some (encoded F v name)" "readable F v" "\<And>name. fe_read F name = None"
  shows "settings_Load F D = Inr (v\<lparr>aa_rules := PruneCategories (aa_rules v)\<rparr>) \<longleftrightarrow> fits_line F v" "isl (settings_Load F D) \<longleftrightarrow> \<not> fits_line F v"
proof -
  obtain f g where f: "opened settingsFile D = Some f" "sf_data f = fe_enc_settings F (aa_settings v)"
    and g: "opened rulesFile D = Some g" "sf_data g = fe_enc_rules F (PruneCategories (aa_rules v))"
    using assms(1)[of settingsFile] assms(1)[of rulesFile] by (auto simp: file_data_def encoded_def)
  show "settings_Load F D = Inr (v\<lparr>aa_rules := PruneCategories (aa_rules v)\<rparr>) \<longleftrightarrow> fits_line F v" "isl (settings_Load F D) \<longleftrightarrow> \<not> fits_line F v"
    using f g assms(2,3)
    by (auto simp: settings_Load_def settings_read_def readable_def fits_line_def encoded_def)
qed

subsection \<open>The transaction\<close>

definition accepted :: "'d daemon_link \<Rightarrow> apply_args \<Rightarrow> bool" where
  "accepted L v \<longleftrightarrow> (\<exists>d1 status d2. dl_apply L v d1 = (Inr status, d2))"

lemma settings_Lock_keeps:
  "settings_Lock F D = (r, D') \<Longrightarrow> file_data name D' = file_data name D \<and> target_path name D' = target_path name D"
  by (auto simp: settings_Lock_def privateDir_def file_data_def opened_def target_path_def split: option.splits)

lemma edit_run_cases:
  assumes "edit_run L F showing ch D d = (r, D', d')"
  obtains (untouched) "isl r" "\<And>name. file_data name D' = file_data name D"
    | (saved) D1 v r1 where "settings_Lock F D = (None, D1)" "accepted L v" "PruneCategories (aa_rules v) = aa_rules v"
        "settings_Save F v D1 = (r1, D')" "r1 \<noteq> None \<Longrightarrow> isl r"
proof (cases "fe_locate F")
  case (Some err)
  with assms show thesis by (intro untouched) (auto simp: edit_run_def)
next
  case None
  obtain l D1 where lock: "settings_Lock F D = (l, D1)" by fastforce
  note keep = settings_Lock_keeps[OF lock]
  show thesis
  proof (cases "\<exists>v d1 v1 d2 status d3. l = None \<and> settings_Load F D1 = Inr v \<and> dial L d = (None, d1) \<and> ch v d1 = (Inr v1, d2)
      \<and> dl_apply L (v1\<lparr>aa_rules := PruneCategories (aa_rules v1)\<rparr>) d2 = (Inr status, d3)")
    case True
    then obtain v d1 v1 d2 status d3 where h: "l = None" "settings_Load F D1 = Inr v" "dial L d = (None, d1)" "ch v d1 = (Inr v1, d2)"
      "dl_apply L (v1\<lparr>aa_rules := PruneCategories (aa_rules v1)\<rparr>) d2 = (Inr status, d3)" by blast
    define v2 where "v2 = v1\<lparr>aa_rules := PruneCategories (aa_rules v1)\<rparr>"
    obtain r1 D2 where sv: "settings_Save F v2 D1 = (r1, D2)" by fastforce
    have "D' = D2" "r1 \<noteq> None \<Longrightarrow> isl r"
      using assms None lock h sv by (auto simp: edit_run_def v2_def[symmetric] Let_def split: option.splits sum.splits prod.splits if_splits)
    moreover have "accepted L v2" using h(5) by (auto simp: accepted_def v2_def)
    ultimately show thesis using saved[of D1 v2 r1] lock h(1) sv by (simp add: v2_def)
  next
    case False
    then have "isl r \<and> D' = D1"
      using assms None lock by (auto simp: edit_run_def Let_def split: option.splits sum.splits prod.splits if_splits)
    then show thesis using keep untouched by simp
  qed
qed

subsection \<open>Claims\<close>


definition demo_rule :: "string \<Rightarrow> rule_entry" where
  "demo_rule v = RuleEntry ''DOMAIN'' v ''DIRECT'' [] False None"

definition demo_entries :: "rule_entry list" where
  "demo_entries = [demo_rule ''a'', RuleEntry [] [] [] [] True (Some (RuleCategory ''work'' ''Work'' [demo_rule ''b'', demo_rule ''c''])), demo_rule ''d'']"


text \<open>C29: Housekeeping of categories never changes what runs. Taking a category apart, which keeps the rules of a disabled one disabled,
  and dropping categories that have become empty both leave the configuration of the core as it is.\<close>

theorem ungroup_runs_same:
  assumes "remove_category cid (st_rules ss) = Inr es" "flat_cats (st_rules ss)"
  shows "runConfig (ss\<lparr>st_rules := PruneCategories es\<rparr>) p = runConfig ss p"
  using remove_category_core[OF assms] by (simp add: runConfig_def Let_def prune_core)

lemma ungroup_runs_same_witness:
  "map re_disabled (projr (remove_category ''work'' demo_entries)) = [False, True, True, False]
   \<and> runConfig (DefaultSettings\<lparr>st_rules := PruneCategories (projr (remove_category ''work'' demo_entries))\<rparr>) empty_profile
     = runConfig (DefaultSettings\<lparr>st_rules := demo_entries\<rparr>) empty_profile"
proof -
  have d: "map re_disabled (projr (remove_category ''work'' demo_entries)) = [False, True, True, False]" by code_simp
  have "\<not> isl (remove_category ''work'' demo_entries)" by code_simp
  then have "remove_category ''work'' demo_entries = Inr (projr (remove_category ''work'' demo_entries))" by simp
  moreover have "flat_cats demo_entries" by (simp add: flat_cats_def demo_entries_def demo_rule_def cat_rules_def)
  ultimately show ?thesis
    using ungroup_runs_same[of "''work''" "DefaultSettings\<lparr>st_rules := demo_entries\<rparr>" "projr (remove_category ''work'' demo_entries)" empty_profile] d by simp
qed

text \<open>C18: The settings files follow the daemon. A change that succeeds has been accepted by the daemon and both files hold it, so that the
  next command reads back exactly what runs, provided each file fits the one message limit of 1 MiB, and cannot read it otherwise; after a
  change that fails, each file holds what it held or what the daemon has accepted. It relies on the JSON of the settings being read back.\<close>

theorem edit_saves_what_runs:
  assumes "edit_run L F showing ch D d = (r, D', d')" "targets_apart D" "\<And>v. accepted L v \<Longrightarrow> readable F v" "\<And>name. fe_read F name = None"
  shows "if isl r then \<forall>name \<in> {settingsFile, rulesFile}. file_data name D' = file_data name D
        \<or> (\<exists>v. accepted L v \<and> file_data name D' = Some (encoded F v name))
    else \<exists>v. accepted L v \<and> (\<forall>name \<in> {settingsFile, rulesFile}. file_data name D' = Some (encoded F v name))
      \<and> (if fits_line F v then settings_Load F D' = Inr v else isl (settings_Load F D'))"
  using assms(1)
proof (cases rule: edit_run_cases)
  case untouched
  then show ?thesis by simp
next
  case (saved D1 v r1)
  note lock = settings_Lock_keeps[OF saved(1)]
  have ap: "targets_apart D1" using assms(2) lock by (simp add: targets_apart_def)
  note eff = settings_Save_effect[OF saved(4) ap]
  show ?thesis
  proof (cases "r1 = None")
    case True
    then have holds: "\<And>name. name \<in> {settingsFile, rulesFile} \<Longrightarrow> file_data name D' = Some (encoded F v name)" using eff(1) by blast
    have "v\<lparr>aa_rules := PruneCategories (aa_rules v)\<rparr> = v" using saved(3) by simp
    then have "if fits_line F v then settings_Load F D' = Inr v else isl (settings_Load F D')"
      using settings_Load_saved[OF holds assms(3)[OF saved(2)] assms(4)] by simp
    then show ?thesis using holds saved(2) by auto
  next
    case False
    then show ?thesis using eff(2) lock saved(2,5) by auto
  qed
qed

definition demo_link :: "unit daemon_link" where
  "demo_link = \<lparr>dl_dial = (\<lambda>d. (None, d)), dl_groups = (\<lambda>d. (Inr [], d)),
     dl_apply = (\<lambda>v d. (if v = settings_Default then Inr ''{}'' else Inl (CallError (fail CodeInvalid ''no'' [])), d)), dl_show = (\<lambda>_ d. (Inr [], d))\<rparr>"

definition demo_files :: files_env where
  "demo_files = \<lparr>fe_locate = None, fe_private = None, fe_lock = None, fe_read = (\<lambda>_. None), fe_stat = (\<lambda>_. None), fe_chmod = (\<lambda>_. None),
     fe_replace = (\<lambda>_. None), fe_enc_settings = (\<lambda>_. ''{}''), fe_enc_rules = (\<lambda>_. ''[]''),
     fe_dec_settings = (\<lambda>_. Inr (default_settings, [])), fe_dec_rules = (\<lambda>_. Inr ([], []))\<rparr>"

definition demo_dir :: config_dir where
  "demo_dir = \<lparr>cd_mode = None, cd_file = (\<lambda>_. None), cd_link = (\<lambda>_. None)\<rparr>"

definition demo_edit :: "(cli_error, string) res \<times> config_dir \<times> unit" where
  "demo_edit = edit_run demo_link demo_files [] (\<lambda>v d. (Inr v, d)) demo_dir ()"

lemma edit_saves_what_runs_witness:
  "fst demo_edit = Inr ''{}'' \<and> settings_Load demo_files (fst (snd demo_edit)) = Inr settings_Default"
proof -
  have r: "fst demo_edit = Inr ''{}''"
    by (simp add: demo_edit_def edit_run_def demo_files_def demo_link_def demo_dir_def settings_Lock_def privateDir_def settings_Load_def
        settings_read_def opened_def dial_def settings_Default_def PruneCategories_def settings_Save_def settings_Encode_def save_one_def
        EvalSymlinks_def settings_replace_def Let_def)
  have acc: "accepted demo_link v \<Longrightarrow> v = settings_Default" for v by (auto simp: accepted_def demo_link_def split: if_splits)
  have rd: "accepted demo_link v \<Longrightarrow> readable demo_files v" for v
    using acc[of v] by (auto simp: readable_def demo_files_def Decode_def settings_Default_def PruneCategories_def)
  have run: "edit_run demo_link demo_files [] (\<lambda>v d. (Inr v, d)) demo_dir () = (fst demo_edit, fst (snd demo_edit), snd (snd demo_edit))"
    unfolding demo_edit_def by (simp only: prod.collapse)
  have ap: "targets_apart demo_dir" by (simp add: targets_apart_def target_path_def demo_dir_def)
  have fit: "fits_line demo_files v" for v by (simp add: fits_line_def encoded_def demo_files_def MaxLine_def)
  obtain v where "accepted demo_link v" "settings_Load demo_files (fst (snd demo_edit)) = Inr v"
    using edit_saves_what_runs[OF run ap rd] r fit by (auto simp: demo_files_def)
  then show ?thesis using r acc by simp
qed

end
