(* ===== verification/Ownership.thy ===== *)
theory Ownership
  imports Sessions
begin

text \<open>
  Who may use the daemon: the record of the owner (\<^verbatim>\<open>internal/owner\<close>), \<^verbatim>\<open>claim\<close>, which writes it and the owner's drop-in of the
  socket unit (\<^verbatim>\<open>internal/cli/claim.go\<close>), and \<^verbatim>\<open>listen\<close> of \<^verbatim>\<open>internal/cli/daemon.go\<close> with the sockets systemd passes
  (\<^verbatim>\<open>internal/systemd\<close>). \<^verbatim>\<open>admission\<close> of \<open>Sessions\<close> reads the record for every connection.
\<close>

subsection \<open>The owner record\<close>

datatype node_kind = Regular | Directory | Socket | SymLink | OtherNode

record fs_node =
  nd_kind :: node_kind
  nd_uid :: nat
  nd_mode :: nat
  nd_data :: string

text \<open>What a path holds; \<open>Closed\<close> is an error of the file system.\<close>

datatype path_entry = Nothing | Closed msg | Node fs_node

definition writable_by_others :: "nat \<Rightarrow> bool" where
  "writable_by_others mode \<longleftrightarrow> mode div 16 mod 2 = 1 \<or> mode div 2 mod 2 = 1"

definition trusted :: "nat \<Rightarrow> fs_node \<Rightarrow> msg option" where
  "trusted euid f =
     (if nd_kind f \<noteq> Regular then Some [(''not a regular file'', [])]
      else if nd_uid f \<noteq> euid then Some [(''owned by uid %d, not by the daemon's uid %d'', [])]
      else if writable_by_others (nd_mode f) then Some [(''writable by group or others'', [])] else None)"

text \<open>The file is opened without following a link.\<close>

definition owner_Load :: "nat \<Rightarrow> path_entry \<Rightarrow> (owner_error, nat) res" where
  "owner_Load euid p =
     (case p of
        Nothing \<Rightarrow> Inl Unclaimed
      | Closed err \<Rightarrow> Inl (Unusable ((''read owner: %w'', []) # err))
      | Node f \<Rightarrow>
          if nd_kind f = SymLink then Inl (Unusable [(''read owner: %w'', [])])
          else case trusted euid f of
                 Some err \<Rightarrow> Inl (Unusable ((''owner file %s: %w'', []) # err))
               | None \<Rightarrow>
                   (case parse_uint 31 (trim_space (take 32 (nd_data f))) of
                      None \<Rightarrow> Inl (Unusable [(''owner file %s does not hold a uid'', [])])
                    | Some uid \<Rightarrow> Inr uid))"

text \<open>\<open>fault\<close> is an error of one of the steps; the temporary file is removed then.\<close>

definition owner_mode :: nat where "owner_mode = 384"

definition owner_Store :: "nat \<Rightarrow> msg option \<Rightarrow> int \<Rightarrow> path_entry \<Rightarrow> msg option \<times> path_entry" where
  "owner_Store euid fault uid p =
     (if uid < 0 then (Some [(''invalid uid %d'', [])], p)
      else case fault of
             Some err \<Rightarrow> (Some ((''store owner: %w'', []) # err), p)
           | None \<Rightarrow> (None, Node \<lparr>nd_kind = Regular, nd_uid = euid, nd_mode = owner_mode, nd_data = itoa uid @ [CHR 0x0A]\<rparr>))"

subsection \<open>The claim\<close>

record 'w claim_env =
  cm_euid :: nat
  cm_sudo_uid :: string
  cm_pkexec_uid :: string
  cm_mkdir :: "msg option"
  cm_store :: "msg option"
  cm_dropin_read :: "msg option"
  cm_dropin_write :: "msg option"
  cm_systemctl :: "string list \<Rightarrow> 'w \<Rightarrow> msg option \<times> 'w"

record 'w claimed =
  ct_owner :: path_entry
  ct_dropin :: "string option"
  ct_world :: 'w

definition serviceUnit :: string where "serviceUnit = ''omihomo.service''"
definition socketUnit :: string where "socketUnit = ''omihomo.socket''"

definition invokingUID :: "string \<Rightarrow> string \<Rightarrow> (msg, nat) res" where
  "invokingUID sudo pkexec =
     (let raw = (if sudo = [] then pkexec else sudo)
      in if raw = [] then Inl [(''claim records the account that ran sudo or pkexec, and found none: run sudo omihomo claim'', [])]
         else case parse_uint 31 raw of
                None \<Rightarrow> Inl [(''the invoking account's uid %q is not a number'', [raw])]
              | Some uid \<Rightarrow> if uid = 0 then Inl [(''root cannot own omihomo: run sudo omihomo claim from the account that should'', [])] else Inr uid)"

definition dropin_text :: "nat \<Rightarrow> string" where
  "dropin_text uid = ''# Written by omihomo claim: the socket belongs to the account that owns omihomo.'' @ [CHR 0x0A] @ ''[Socket]'' @ [CHR 0x0A]
     @ ''SocketUser='' @ itoa_nat uid @ [CHR 0x0A]"

definition writeDropIn :: "'w claim_env \<Rightarrow> nat \<Rightarrow> string option \<Rightarrow> (msg, bool) res \<times> string option" where
  "writeDropIn C uid have =
     (case cm_dropin_read C of
        Some err \<Rightarrow> (Inl ((''read %s: %w'', []) # err), have)
      | None \<Rightarrow>
          if have = Some (dropin_text uid) then (Inr False, have)
          else case cm_dropin_write C of
                 Some err \<Rightarrow> (Inl ((''write the socket's owner: %w'', []) # err), have)
               | None \<Rightarrow> (Inr True, Some (dropin_text uid)))"

fun in_order :: "(string list \<Rightarrow> 'w \<Rightarrow> msg option \<times> 'w) \<Rightarrow> string list list \<Rightarrow> 'w \<Rightarrow> msg option \<times> 'w" where
  "in_order run [] w = (None, w)"
| "in_order run (c # cs) w = (case run c w of (Some err, w1) \<Rightarrow> (Some err, w1) | (None, w1) \<Rightarrow> in_order run cs w1)"

definition claim :: "'w claim_env \<Rightarrow> 'w claimed \<Rightarrow> msg option \<times> 'w claimed" where
  "claim C st =
     (if cm_euid C \<noteq> 0 then (Some [(''claim needs root: run sudo omihomo claim from the account that should own omihomo'', [])], st)
      else case invokingUID (cm_sudo_uid C) (cm_pkexec_uid C) of
             Inl err \<Rightarrow> (Some err, st)
           | Inr uid \<Rightarrow>
     (case cm_mkdir C of
        Some err \<Rightarrow> (Some ((''create the state directory: %w'', []) # err), st)
      | None \<Rightarrow>
     (case owner_Store (cm_euid C) (cm_store C) (int uid) (ct_owner st) of
        (Some err, _) \<Rightarrow> (Some err, st)
      | (None, p) \<Rightarrow>
     (case writeDropIn C uid (ct_dropin st) of
        (Inl err, _) \<Rightarrow> (Some err, st\<lparr>ct_owner := p\<rparr>)
      | (Inr _, unit_file) \<Rightarrow>
     (case in_order (cm_systemctl C) [[''daemon-reload''], [''stop'', serviceUnit, socketUnit], [''start'', socketUnit, serviceUnit]] (ct_world st) of
        (r, w) \<Rightarrow> (r, \<lparr>ct_owner = p, ct_dropin = unit_file, ct_world = w\<rparr>))))))"

subsection \<open>Listening\<close>

text \<open>systemd's sockets: how many there are, from the environment.\<close>

definition activated :: "string \<Rightarrow> string \<Rightarrow> int \<Rightarrow> (msg, nat) res" where
  "activated pid fds self =
     (if pid = [] \<or> fds = [] then Inr 0
      else case parse_int pid of
             None \<Rightarrow> Inr 0
           | Some p \<Rightarrow>
               if p \<noteq> self then Inr 0
               else case parse_int fds of
                      None \<Rightarrow> Inl [(''invalid LISTEN_FDS %q'', [fds])]
                    | Some n \<Rightarrow> if n < 0 then Inl [(''invalid LISTEN_FDS %q'', [fds])] else Inr (nat n))"

text \<open>The paths \<^verbatim>\<open>listen\<close> looks at: the directory, the socket, whether someone answers there, and what binding and handing over may fail with.\<close>

record listen_env =
  ln_euid :: nat
  ln_dir :: path_entry
  ln_answers :: bool
  ln_remove :: "msg option"
  ln_bind :: "msg option"
  ln_chown :: "msg option"
  ln_owner :: path_entry

definition private_directory :: "nat \<Rightarrow> fs_node \<Rightarrow> bool" where
  "private_directory euid f \<longleftrightarrow> nd_kind f = Directory \<and> nd_uid f = euid \<and> \<not> writable_by_others (nd_mode f)"

definition bound_socket :: "nat \<Rightarrow> fs_node" where
  "bound_socket uid = \<lparr>nd_kind = Socket, nd_uid = uid, nd_mode = 384, nd_data = []\<rparr>"

definition bind_owned :: "listen_env \<Rightarrow> msg option \<times> path_entry" where
  "bind_owned N =
     (case ln_bind N of
        Some err \<Rightarrow> (Some err, Nothing)
      | None \<Rightarrow>
          if ln_euid N \<noteq> 0 then (None, Node (bound_socket (ln_euid N)))
          else case owner_Load (ln_euid N) (ln_owner N) of
                 Inl _ \<Rightarrow> (Some [(''hand the socket to the owner: %w'', [])], Nothing)
               | Inr uid \<Rightarrow>
                   (case ln_chown N of
                      Some err \<Rightarrow> (Some ((''hand the socket to the owner: %w'', []) # err), Nothing)
                    | None \<Rightarrow> (None, Node (bound_socket uid))))"

text \<open>A socket nobody answers at is stale and removed; closing a listener removes its socket.\<close>

definition listen :: "listen_env \<Rightarrow> path_entry \<Rightarrow> msg option \<times> path_entry" where
  "listen N p =
     (case ln_dir N of
        Nothing \<Rightarrow> (Some [(''inspect the socket directory: %w'', [])], p)
      | Closed err \<Rightarrow> (Some ((''inspect the socket directory: %w'', []) # err), p)
      | Node d \<Rightarrow>
          if \<not> private_directory (ln_euid N) d
          then (Some [(''%s must be a directory owned by uid %d and writable by nobody else'', [])], p)
          else case p of
                 Nothing \<Rightarrow> bind_owned N
               | Closed err \<Rightarrow> (Some ((''inspect the socket path: %w'', []) # err), p)
               | Node f \<Rightarrow>
                   if nd_kind f \<noteq> Socket then (Some [(''%s exists and is not a socket'', [])], p)
                   else if ln_answers N then (Some [(''another daemon is serving %s'', [])], p)
                   else case ln_remove N of
                          Some err \<Rightarrow> (Some ((''remove the stale socket: %w'', []) # err), p)
                        | None \<Rightarrow> bind_owned N)"

subsection \<open>Only the owner\<close>

lemma newline_trimmed: "leading (map rev spaces) (CHR 0x0A # s) = Some [CHR 0x0A]"
  by (simp add: leading_def spaces_def has_prefix_def)

lemma digit_not_leading: "is_digit c \<Longrightarrow> leading spaces (c # s) = None"
proof -
  assume "is_digit c"
  moreover have "list_all (\<lambda>e. e = [] \<or> \<not> is_digit (hd e)) spaces" by code_simp
  ultimately have "\<forall>e \<in> set spaces. e = [] \<or> hd e \<noteq> c" by (auto simp: list_all_iff)
  then show ?thesis by (auto simp: leading_def find_None_iff has_prefix_append) (metis hd_append2 list.sel(1))
qed

lemma digit_not_trailing: "is_digit c \<Longrightarrow> leading (map rev spaces) (c # s) = None"
proof -
  assume "is_digit c"
  moreover have "list_all (\<lambda>e. e = [] \<or> \<not> is_digit (last e)) spaces" by code_simp
  ultimately have "\<forall>e \<in> set spaces. e = [] \<or> last e \<noteq> c" by (auto simp: list_all_iff)
  then show ?thesis by (auto simp: leading_def find_None_iff has_prefix_append) (metis hd_rev list.sel(1) append_Cons rev_is_Nil_conv hd_append2)
qed

lemma trim_digits_line:
  assumes "t \<noteq> []" "list_all is_digit t"
  shows "trim_space (t @ [CHR 0x0A]) = t"
proof -
  obtain c u where c: "t = c # u" "is_digit c" using assms by (cases t) auto
  have l: "trim_left (t @ [CHR 0x0A]) = t @ [CHR 0x0A]"
    using digit_not_leading[OF c(2)] by (simp add: trim_left_def c(1) strip_left_id)
  obtain v d where d: "t = v @ [d]" "is_digit d" using assms by (cases t rule: rev_cases) auto
  have "strip_left (map rev spaces) (CHR 0x0A # rev t) = rev t"
    using newline_trimmed digit_not_trailing[OF d(2)] by (simp add: strip_left.simps d(1))
  then show ?thesis by (simp add: trim_space_def l trim_right_def)
qed

lemma itoa_length: "n < 10 ^ Suc k \<Longrightarrow> length (itoa_nat n) \<le> Suc k"
proof (induction k arbitrary: n)
  case 0
  then show ?case by (simp add: itoa_nat.simps[of n])
next
  case (Suc k)
  show ?case
  proof (cases "n < 10")
    case False
    have "n div 10 < 10 ^ Suc k" using Suc.prems by (simp add: less_mult_imp_div_less)
    then show ?thesis using Suc.IH[of "n div 10"] False by (simp add: itoa_nat.simps[of n])
  qed (simp add: itoa_nat.simps[of n])
qed

lemma owner_Store_Load:
  assumes "owner_Store euid fault (int uid) p = (None, p')" "uid < 2 ^ 31"
  shows "owner_Load euid p' = Inr uid"
proof -
  have len: "length (itoa_nat uid) \<le> 10" using itoa_length[of uid 9] assms(2) by simp
  have "trim_space (take 32 (itoa_nat uid @ [CHR 0x0A])) = itoa_nat uid"
    using len itoa_nat_digits[of uid] trim_digits_line[of "itoa_nat uid"] by simp
  then show ?thesis
    using assms parse_uint_itoa[of uid 31]
    by (auto simp: owner_Store_def owner_Load_def trusted_def writable_by_others_def owner_mode_def itoa_def split: option.splits)
qed

lemma invokingUID_bounds: "invokingUID sudo pkexec = Inr uid \<Longrightarrow> 0 < uid \<and> uid < 2 ^ 31"
  by (auto simp: invokingUID_def Let_def dest: parse_uint_bound split: if_splits option.splits)

lemma writeDropIn_written: "writeDropIn C uid have = (Inr b, drop') \<Longrightarrow> drop' = Some (dropin_text uid)"
  by (auto simp: writeDropIn_def split: option.splits if_splits)

lemma claim_cases:
  assumes "claim C st = (r, st')"
  obtains (unchanged) "ct_owner st' = ct_owner st" "r \<noteq> None"
    | (recorded) uid where "invokingUID (cm_sudo_uid C) (cm_pkexec_uid C) = Inr uid" "owner_Load 0 (ct_owner st') = Inr uid"
        "r = None \<Longrightarrow> ct_dropin st' = Some (dropin_text uid)"
proof (cases "cm_euid C = 0 \<and> cm_mkdir C = None \<and> \<not> isl (invokingUID (cm_sudo_uid C) (cm_pkexec_uid C)) \<and> cm_store C = None")
  case False
  then have "ct_owner st' = ct_owner st \<and> r \<noteq> None"
    using assms by (auto simp: claim_def owner_Store_def split: if_splits sum.splits option.splits)
  then show thesis using unchanged by blast
next
  case True
  then obtain uid where uid: "invokingUID (cm_sudo_uid C) (cm_pkexec_uid C) = Inr uid" by (auto simp: isl_def) (metis sum.exhaust_sel isl_def)
  obtain p where p: "owner_Store 0 None (int uid) (ct_owner st) = (None, p)" by (simp add: owner_Store_def)
  have "owner_Load 0 p = Inr uid" using owner_Store_Load[OF p] invokingUID_bounds[OF uid] by blast
  moreover have "ct_owner st' = p" "r = None \<Longrightarrow> ct_dropin st' = Some (dropin_text uid)"
    using assms True uid p writeDropIn_written[of C uid "ct_dropin st"]
    by (auto simp: claim_def split: sum.splits prod.splits)
  ultimately show thesis using recorded[OF uid] by simp
qed

lemma admission_refuses: "isl (admission peer (Inr uid)) \<longleftrightarrow> peer \<noteq> Some uid"
  by (auto simp: admission_def split: option.split)

lemma listen_owner:
  assumes "listen N p = (None, Node s)" "ln_euid N = 0" "owner_Load 0 (ln_owner N) = Inr uid"
  shows "s = bound_socket uid"
  using assms by (auto simp: listen_def bind_owned_def split: path_entry.splits if_splits option.splits)

text \<open>C20: The account that claims the install, and no other, gets the daemon. The uid a successful claim took from sudo is never root's and
  is the one the owner record then reads as; the daemon admits a connection exactly when its peer is that account; the socket unit's
  drop-in and a socket the daemon binds itself are that account's. A claim that fails leaves the owner as it was or has recorded the
  claiming account.\<close>

theorem claim_serves_owner:
  assumes "claim C st = (r, st')"
  shows "if r = None then \<exists>uid. invokingUID (cm_sudo_uid C) (cm_pkexec_uid C) = Inr uid \<and> 0 < uid \<and> owner_Load 0 (ct_owner st') = Inr uid
      \<and> ct_dropin st' = Some (dropin_text uid)
      \<and> (\<forall>peer. isl (admission peer (owner_Load 0 (ct_owner st'))) \<longleftrightarrow> peer \<noteq> Some uid)
      \<and> (\<forall>N p s. ln_euid N = 0 \<and> ln_owner N = ct_owner st' \<and> listen N p = (None, Node s) \<longrightarrow> nd_uid s = uid)
    else ct_owner st' = ct_owner st \<or> (\<exists>uid. invokingUID (cm_sudo_uid C) (cm_pkexec_uid C) = Inr uid \<and> owner_Load 0 (ct_owner st') = Inr uid)"
  using assms
proof (cases rule: claim_cases)
  case unchanged
  then show ?thesis by auto
next
  case (recorded uid)
  have "isl (admission peer (owner_Load 0 (ct_owner st'))) \<longleftrightarrow> peer \<noteq> Some uid" for peer
    using recorded(2) by (simp add: admission_refuses)
  moreover have "nd_uid s = uid" if "ln_euid N = 0 \<and> ln_owner N = ct_owner st' \<and> listen N p = (None, Node s)" for N p s
    using listen_owner[of N p s uid] that recorded(2) by (simp add: bound_socket_def)
  ultimately show ?thesis using recorded invokingUID_bounds[OF recorded(1)] by auto
qed

definition demo_claim_env :: "unit claim_env" where
  "demo_claim_env = \<lparr>cm_euid = 0, cm_sudo_uid = ''1000'', cm_pkexec_uid = [], cm_mkdir = None, cm_store = None, cm_dropin_read = None,
     cm_dropin_write = None, cm_systemctl = (\<lambda>_ w. (None, w))\<rparr>"

definition demo_claimed :: "msg option \<times> unit claimed" where
  "demo_claimed = claim demo_claim_env \<lparr>ct_owner = Nothing, ct_dropin = None, ct_world = ()\<rparr>"

lemma claim_serves_owner_witness:
  "fst demo_claimed = None \<and> (\<exists>uid. owner_Load 0 (ct_owner (snd demo_claimed)) = Inr uid
    \<and> isl (admission (Some 0) (owner_Load 0 (ct_owner (snd demo_claimed)))))"
proof -
  have r: "fst demo_claimed = None" by code_simp
  have c: "claim demo_claim_env \<lparr>ct_owner = Nothing, ct_dropin = None, ct_world = ()\<rparr> = (fst demo_claimed, snd demo_claimed)"
    unfolding demo_claimed_def by (simp only: prod.collapse)
  show ?thesis using claim_serves_owner[OF c] r by auto
qed

end
