(* ===== verification/Cutover.thy ===== *)
theory Cutover
  imports Ownership Migration Command_Line
begin

text \<open>
  \<^verbatim>\<open>internal/cli/cutover.go\<close>: a claim over an old installation. It stops the old services, puts the import of \<open>Migration\<close> in place,
  moves what the old installation left aside, claims, and checks that the new daemon answers; when a step fails, it puts
  everything back. The undo functions of the source are the values of \<open>undo_step\<close>. \<open>cu_faults\<close> says which of the next system calls fail;
  errors of the looks \<^verbatim>\<open>run\<close> takes at files before the first change, which end it with nothing changed, are left out.
\<close>

subsection \<open>The machine\<close>

datatype root_dir = SysRoot | HomeRoot | ConfigRoot

record file_entry =
  fl_kind :: node_kind
  fl_mode :: nat
  fl_data :: string
  fl_attrs :: "string \<Rightarrow> string option"

datatype undo_step = UndoRename root_dir string string | UndoRemove root_dir string | UndoDropIn | UndoStrip nat "(string \<times> string) list"

record 'w cutover_state =
  cu_files :: "root_dir \<Rightarrow> string \<Rightarrow> file_entry option"
  cu_undo :: "undo_step list"
  cu_discard :: "(root_dir \<times> string) list"
  cu_tailscale :: bool
  cu_import :: "import_state option"
  cu_dirs :: dirs
  cu_world :: 'w
  cu_faults :: "bool list"

text \<open>\<open>'w daemon_side\<close> is what the claim and the calls of the daemon see of the machine: the world, the files and the state directory.\<close>

type_synonym 'w daemon_side = "'w \<times> (root_dir \<Rightarrow> string \<Rightarrow> file_entry option) \<times> listing"

record 'w cutover_env =
  cx_config :: bool
  cx_uid :: nat
  cx_keep_owner :: bool
  cx_owner :: path_entry
  cx_state :: string
  cx_stamp :: "nat \<Rightarrow> string"
  cx_systemctl :: "string list \<Rightarrow> 'w \<Rightarrow> msg option \<times> 'w"
  cx_userctl :: "string list \<Rightarrow> 'w \<Rightarrow> msg option \<times> 'w"
  cx_active :: "string \<Rightarrow> 'w \<Rightarrow> (msg, bool) res"
  cx_prepare :: "bool \<Rightarrow> (msg, (import_state \<times> apply_args) option) res"
  cx_commit_backup :: string
  cx_commit_fails :: "nat \<Rightarrow> bool"
  cx_rollback_fails :: "nat \<Rightarrow> bool"
  cx_files :: files_env
  cx_claim :: "'w daemon_side \<Rightarrow> msg option \<times> 'w daemon_side"
  cx_apply :: "'w daemon_side \<Rightarrow> msg option \<times> 'w daemon_side"
  cx_check :: "bool \<Rightarrow> 'w daemon_side \<Rightarrow> msg option \<times> 'w daemon_side"

type_synonym 'w cut_step = "'w cutover_state \<Rightarrow> msg option \<times> 'w cutover_state"

definition cut_failed :: msg where "cut_failed = [(''%w'', [])]"

definition attempt :: "'w cut_step \<Rightarrow> 'w cut_step" where
  "attempt act st = (case cu_faults st of
     [] \<Rightarrow> act st
   | f # fs \<Rightarrow> if f then (Some cut_failed, st\<lparr>cu_faults := fs\<rparr>) else act (st\<lparr>cu_faults := fs\<rparr>))"

text \<open>Steps in order, up to the first that fails; and steps that are all taken, whatever fails.\<close>

fun cut_steps :: "'w cut_step list \<Rightarrow> 'w cut_step" where
  "cut_steps [] st = (None, st)"
| "cut_steps (a # as) st = (case a st of (Some err, st1) \<Rightarrow> (Some err, st1) | (None, st1) \<Rightarrow> cut_steps as st1)"

fun all_steps :: "'w cut_step list \<Rightarrow> 'w cutover_state \<Rightarrow> bool \<times> 'w cutover_state" where
  "all_steps [] st = (True, st)"
| "all_steps (a # as) st = (case a st of (r, st1) \<Rightarrow> apfst ((\<and>) (r = None)) (all_steps as st1))"

definition put_file :: "root_dir \<Rightarrow> string \<Rightarrow> file_entry option \<Rightarrow> 'w cutover_state \<Rightarrow> 'w cutover_state" where
  "put_file r n e st = st\<lparr>cu_files := (cu_files st)(r := (cu_files st r)(n := e))\<rparr>"

definition push_undo :: "undo_step \<Rightarrow> 'w cutover_state \<Rightarrow> 'w cutover_state" where
  "push_undo u st = st\<lparr>cu_undo := u # cu_undo st\<rparr>"

definition systemctl :: "'w cutover_env \<Rightarrow> string list \<Rightarrow> 'w cut_step" where
  "systemctl E args st = (case cx_systemctl E args (cu_world st) of (r, w) \<Rightarrow> (r, st\<lparr>cu_world := w\<rparr>))"

definition userctl :: "'w cutover_env \<Rightarrow> string list \<Rightarrow> 'w cut_step" where
  "userctl E args st = (case cx_userctl E args (cu_world st) of (r, w) \<Rightarrow> (r, st\<lparr>cu_world := w\<rparr>))"

definition tailscaleDropIn :: string where
  "tailscaleDropIn = ''etc/systemd/system/tailscaled.service.d/omihomo.conf''"

text \<open>Of the files they write the owner's drop-in of the socket (\<^verbatim>\<open>claim\<close>), the owner's settings files (\<^verbatim>\<open>apply\<close>) and the Tailscale
  drop-in (the daemon, once it runs). A settings file that is a link is written where it points, which is not a file of the model.\<close>

definition ownerDropIn :: string where
  "ownerDropIn = ''etc/systemd/system/omihomo.socket.d/owner.conf''"

definition config_name :: "string \<Rightarrow> string" where
  "config_name n = ''omihomo/'' @ n"

definition kept_files :: "(root_dir \<times> string) list" where
  "kept_files = [(SysRoot, ownerDropIn), (ConfigRoot, ''omihomo''), (ConfigRoot, config_name settingsFile), (ConfigRoot, config_name rulesFile)]"

definition daemon_call :: "'w cutover_env \<Rightarrow> ('w daemon_side \<Rightarrow> msg option \<times> 'w daemon_side) \<Rightarrow> 'w cut_step" where
  "daemon_call E f st =
     (case f (cu_world st, cu_files st, cu_dirs st (cx_state E)) of
        (r, w, F, l) \<Rightarrow> (r, st\<lparr>cu_world := w, cu_dirs := (cu_dirs st)(cx_state E := l),
           cu_files := (\<lambda>d n. if (d, n) \<in> set ((SysRoot, tailscaleDropIn) # kept_files) then F d n else cu_files st d n)\<rparr>))"

subsection \<open>Moving aside\<close>

text \<open>\<open>cx_stamp\<close> is the time of the \<open>k\<close>-th change.\<close>

definition backup_name :: "'w cutover_env \<Rightarrow> nat \<Rightarrow> string \<Rightarrow> string" where
  "backup_name E k name = name @ ''.cutover-'' @ cx_stamp E k"

definition move :: "'w cutover_env \<Rightarrow> root_dir \<Rightarrow> string \<Rightarrow> 'w cut_step" where
  "move E r name = attempt (\<lambda>st.
     if cu_files st r name = None then (None, st)
     else attempt (\<lambda>st.
       let b = backup_name E (length (cu_undo st)) name
       in (None, push_undo (UndoRename r b name)
                   (put_file r name None (put_file r b (cu_files st r name) st))\<lparr>cu_discard := cu_discard st @ [(r, b)]\<rparr>)) st)"

subsection \<open>The settings files\<close>

definition dirMode :: nat where "dirMode = 448"

definition new_entry :: "node_kind \<Rightarrow> nat \<Rightarrow> file_entry" where
  "new_entry k mode = \<lparr>fl_kind = k, fl_mode = mode, fl_data = [], fl_attrs = (\<lambda>_. None)\<rparr>"

definition created :: "string \<Rightarrow> file_entry \<Rightarrow> 'w cut_step" where
  "created n e = attempt (\<lambda>st.
     if cu_files st ConfigRoot n \<noteq> None then (Some cut_failed, st)
     else (None, push_undo (UndoRemove ConfigRoot n) (put_file ConfigRoot n (Some e) st)))"

text \<open>What follows creating: handing to the owner, writing, closing.\<close>

definition touched :: "'w cut_step" where
  "touched = attempt (\<lambda>st. (None, st))"

definition written_to :: "string \<Rightarrow> string \<Rightarrow> 'w cut_step" where
  "written_to n dat = attempt (\<lambda>st. (None, put_file ConfigRoot n (map_option (\<lambda>e. e\<lparr>fl_data := dat\<rparr>) (cu_files st ConfigRoot n)) st))"

definition make_config_dir :: "'w cut_step" where
  "make_config_dir st =
     (if cu_files st ConfigRoot ''omihomo'' \<noteq> None then touched st
      else cut_steps [created ''omihomo'' (new_entry Directory dirMode), touched] st)"

definition write_config_file :: "string \<times> string \<Rightarrow> 'w cut_step" where
  "write_config_file f = cut_steps [created (config_name (fst f)) (new_entry Regular file_mode), touched,
     written_to (config_name (fst f)) (snd f), touched]"

definition writeSettings :: "'w cutover_env \<Rightarrow> apply_args \<Rightarrow> 'w cut_step" where
  "writeSettings E v = attempt (\<lambda>st.
     if map_option fl_kind (cu_files st ConfigRoot ''omihomo'') = Some SymLink then (None, st)
     else let files = settings_Encode (cx_files E) v
          in if list_ex (\<lambda>f. cu_files st ConfigRoot (config_name (fst f)) \<noteq> None) files then (None, st)
             else cut_steps (make_config_dir # map write_config_file files) st)"

subsection \<open>Privileges\<close>

definition mihomoBinary :: string where "mihomoBinary = ''usr/bin/mihomo''"

definition privilegeAttrs :: "string list" where
  "privilegeAttrs = [''security.capability'', ''system.posix_acl_access'']"

definition change_entry :: "root_dir \<Rightarrow> string \<Rightarrow> (file_entry \<Rightarrow> file_entry) \<Rightarrow> 'w cut_step" where
  "change_entry r n f = attempt (\<lambda>st. (None, put_file r n (map_option f (cu_files st r n)) st))"

definition captured :: "file_entry \<Rightarrow> (string \<times> string) list" where
  "captured e = List.map_filter (\<lambda>n. map_option (Pair n) (fl_attrs e n)) privilegeAttrs"

definition drop_attr :: "string \<Rightarrow> file_entry \<Rightarrow> file_entry" where
  "drop_attr n e = e\<lparr>fl_attrs := (fl_attrs e)(n := None)\<rparr>"

definition stripPrivileges :: "'w cut_step" where
  "stripPrivileges = attempt (\<lambda>st.
     case cu_files st SysRoot mihomoBinary of
       None \<Rightarrow> (None, st)
     | Some e \<Rightarrow>
         if fl_kind e \<noteq> Regular then (Some [(''old mihomo is not a regular file'', [])], st)
         else attempt (\<lambda>st. cut_steps
                ([\<lambda>st. (None, push_undo (UndoStrip (fl_mode e) (captured e)) st),
                  change_entry SysRoot mihomoBinary (fl_mode_update (\<lambda>_. 448))]
                 @ map (\<lambda>a. change_entry SysRoot mihomoBinary (drop_attr (fst a))) (captured e)
                 @ [change_entry SysRoot mihomoBinary (fl_mode_update (\<lambda>_. 493))]) st) st)"

definition launcher :: string where "launcher = ''.local/bin/omihomo''"

definition oldLauncher :: "(root_dir \<Rightarrow> string \<Rightarrow> file_entry option) \<Rightarrow> (msg, bool) res" where
  "oldLauncher files =
     (case files HomeRoot launcher of
        None \<Rightarrow> Inr False
      | Some e \<Rightarrow>
          if fl_kind e = SymLink then Inr True
          else if fl_kind e = Regular \<and> length (fl_data e) \<le> 4096 \<and> contains_str (fl_data e) ''exec \"$OMIHOMO_ROOT/bin/omihomo\" \"$@\"''
          then Inr True
          else Inl [(''the user omihomo launcher is unrecognized and shadows the packaged CLI; move it aside before claiming'', [])])"

subsection \<open>Undoing\<close>

definition undo_one :: "undo_step \<Rightarrow> 'w cut_step" where
  "undo_one u = attempt (\<lambda>st. case u of
     UndoRename r b n \<Rightarrow>
       if cu_files st r b = None then (Some cut_failed, st) else (None, put_file r b None (put_file r n (cu_files st r b) st))
   | UndoRemove r n \<Rightarrow> if cu_files st r n = None then (Some cut_failed, st) else (None, put_file r n None st)
   | UndoDropIn \<Rightarrow> (None, put_file SysRoot tailscaleDropIn None st)
   | UndoStrip mode attrs \<Rightarrow>
       if cu_files st SysRoot mihomoBinary = None then (Some cut_failed, st)
       else cut_steps (change_entry SysRoot mihomoBinary (fl_mode_update (\<lambda>_. mode))
              # map (\<lambda>a. change_entry SysRoot mihomoBinary (\<lambda>e. e\<lparr>fl_attrs := (fl_attrs e)(fst a \<mapsto> snd a)\<rparr>)) attrs) st)"

definition import_Rollback :: "'w cutover_env \<Rightarrow> 'w cut_step" where
  "import_Rollback E st =
     (case cu_import st of
        None \<Rightarrow> (None, st)
      | Some m \<Rightarrow>
          (case Rollback (cx_rollback_fails E) m (cu_dirs st) of
             (ok, m1, fs) \<Rightarrow> (if ok then None else Some cut_failed, st\<lparr>cu_import := Some m1, cu_dirs := fs\<rparr>)))"

definition recover :: "'w cutover_env \<Rightarrow> string list \<Rightarrow> string list \<Rightarrow> 'w cutover_state \<Rightarrow> bool \<times> 'w cutover_state" where
  "recover E units active st =
     all_steps ([systemctl E [''stop'', serviceUnit, socketUnit]] @ map undo_one (cu_undo st) @ [import_Rollback E]
       @ (if units \<noteq> [] then [userctl E [''daemon-reload'']] else [])
       @ (if cu_tailscale st then [systemctl E [''daemon-reload''], systemctl E [''try-restart'', ''tailscaled.service'']] else [])
       @ (if active \<noteq> [] then [userctl E (''start'' # active)] else [])) st"

subsection \<open>The cutover\<close>

definition oldUnits :: "string list" where
  "oldUnits = [''omihomo-subscription-update.timer'', ''omihomo-subscription-update.service'',
     ''omihomo-subscription-startup.service'', ''omihomo.service'']"

definition hooks :: "string list" where
  "hooks = [''usr/share/libalpm/hooks/omihomo-permissions.hook'', ''usr/share/libalpm/hooks/omihomo-capabilities.hook'']"

definition unit_path :: "string \<Rightarrow> string" where
  "unit_path u = ''systemd/user/'' @ u"

definition unit_paths :: "string \<Rightarrow> string list" where
  "unit_paths u = [unit_path u, unit_path (''default.target.wants/'' @ u), unit_path (''timers.target.wants/'' @ u)]"

text \<open>\<open>units\<close> are the old units that are there, with whether each is active.\<close>

fun inspect_units :: "'w cutover_env \<Rightarrow> 'w cutover_state \<Rightarrow> string list \<Rightarrow> (msg, (string \<times> bool) list) res" where
  "inspect_units E st [] = Inr []"
| "inspect_units E st (u # us) =
     (if cu_files st ConfigRoot (unit_path u) = None then inspect_units E st us
      else case cx_active E u (cu_world st) of
             Inl err \<Rightarrow> Inl ((''inspect old user service: %w'', []) # err)
           | Inr on \<Rightarrow> map_sum id (\<lambda>r. (u, on) # r) (inspect_units E st us))"

definition import_Commit :: "'w cutover_env \<Rightarrow> 'w cut_step" where
  "import_Commit E st =
     (case cu_import st of
        None \<Rightarrow> (None, st)
      | Some m \<Rightarrow>
          (case Commit (cx_commit_fails E) (cx_commit_backup E) m (cu_dirs st) of
             (ok, m1, fs) \<Rightarrow> (if ok then None else Some cut_failed, st\<lparr>cu_import := Some m1, cu_dirs := fs\<rparr>)))"

definition tailscale_aside :: "'w cutover_env \<Rightarrow> 'w cut_step" where
  "tailscale_aside E = attempt (\<lambda>st.
     if cu_files st SysRoot tailscaleDropIn \<noteq> None then move E SysRoot tailscaleDropIn (st\<lparr>cu_tailscale := True\<rparr>)
     else (None, push_undo UndoDropIn st))"

definition change_steps :: "'w cutover_env \<Rightarrow> string list \<Rightarrow> apply_args option \<Rightarrow> bool \<Rightarrow> 'w cut_step list" where
  "change_steps E units staged remove_launcher =
     (if units \<noteq> [] then [userctl E (''stop'' # units)] else [])
     @ (case staged of None \<Rightarrow> [] | Some v \<Rightarrow> import_Commit E # (if cx_config E then [writeSettings E v] else []))
     @ map (move E ConfigRoot) (concat (map unit_paths units))
     @ (if units \<noteq> [] then [userctl E [''daemon-reload'']] else [])
     @ map (move E SysRoot) hooks
     @ [stripPrivileges]
     @ (if remove_launcher then [move E HomeRoot launcher] else [])
     @ [tailscale_aside E]"

definition claim_steps :: "'w cutover_env \<Rightarrow> bool \<Rightarrow> bool \<Rightarrow> 'w cut_step list" where
  "claim_steps E imported was_running =
     daemon_call E (cx_claim E) # (if imported \<and> cx_config E then [daemon_call E (cx_apply E)] else []) @ [daemon_call E (cx_check E was_running)]"

text \<open>How it ends: done, done but with backups left behind, or not done.\<close>

datatype cut_result = CutDone | CutLeftover | CutFailed msg

definition discard_one :: "root_dir \<times> string \<Rightarrow> 'w cut_step" where
  "discard_one b = attempt (\<lambda>st. (None, put_file (fst b) (snd b) None st))"

definition finish_import :: "'w cutover_state \<Rightarrow> 'w cutover_state" where
  "finish_import st =
     (case cu_import st of
        None \<Rightarrow> st
      | Some m \<Rightarrow> (case Finish m (cu_dirs st) of (m1, fs) \<Rightarrow> st\<lparr>cu_import := Some m1, cu_dirs := fs\<rparr>))"

definition settle :: "'w cutover_state \<Rightarrow> cut_result \<times> 'w cutover_state" where
  "settle st = (case all_steps (map discard_one (cu_discard st)) (finish_import st) of (ok, st1) \<Rightarrow> (if ok then CutDone else CutLeftover, st1))"

text \<open>The changes, with the recovery when one of them fails; \<open>later\<close> are the faults during the recovery.\<close>

definition replace_install ::
  "'w cutover_env \<Rightarrow> string list \<Rightarrow> string list \<Rightarrow> apply_args option \<Rightarrow> bool \<Rightarrow> bool \<Rightarrow> bool list \<Rightarrow> 'w cutover_state \<Rightarrow> cut_result \<times> 'w cutover_state" where
  "replace_install E units active staged was_running remove_launcher later st =
     (case systemctl E [''stop'', serviceUnit, socketUnit] st of
        (Some err, st1) \<Rightarrow> (CutFailed err, st1)
      | (None, st1) \<Rightarrow>
          (case cut_steps (change_steps E units staged remove_launcher @ claim_steps E (staged \<noteq> None) was_running) st1 of
             (Some err, st2) \<Rightarrow> (CutFailed err, snd (recover E units active (st2\<lparr>cu_faults := later\<rparr>)))
           | (None, st2) \<Rightarrow> settle st2))"

definition wrong_owner :: "'w cutover_env \<Rightarrow> msg option" where
  "wrong_owner E =
     (if \<not> cx_keep_owner E then None
      else case owner_Load 0 (cx_owner E) of
             Inl Unclaimed \<Rightarrow> None
           | Inl (Unusable err) \<Rightarrow> Some err
           | Inr uid \<Rightarrow> if uid \<noteq> cx_uid E
               then Some [(''another account owns this installation; run claim without --keep-owner to transfer ownership explicitly'', [])] else None)"

definition plain_claim :: "'w cutover_env \<Rightarrow> bool \<Rightarrow> 'w cutover_state \<Rightarrow> cut_result \<times> 'w cutover_state" where
  "plain_claim E remove_launcher st =
     (case cut_steps (daemon_call E (cx_claim E) # (if remove_launcher then [attempt (\<lambda>st. (None, put_file HomeRoot launcher None st))] else [])) st of
        (None, st1) \<Rightarrow> (CutDone, st1) | (Some err, st1) \<Rightarrow> (CutFailed err, st1))"

definition cutover_run :: "'w cutover_env \<Rightarrow> bool list \<Rightarrow> 'w cutover_state \<Rightarrow> cut_result \<times> 'w cutover_state" where
  "cutover_run E later st =
     (case wrong_owner E of
        Some err \<Rightarrow> (CutFailed err, st)
      | None \<Rightarrow>
     (case (if cx_config E then inspect_units E st oldUnits else Inr []) of
        Inl err \<Rightarrow> (CutFailed err, st)
      | Inr found \<Rightarrow>
          let units = map fst found; active = map fst (filter snd found); was_running = serviceUnit \<in> set active
          in (case oldLauncher (cu_files st) of
                Inl err \<Rightarrow> (CutFailed err, st)
              | Inr remove_launcher \<Rightarrow>
          (case cx_prepare E was_running of
             Inl err \<Rightarrow> (CutFailed ((''prepare migration (old install unchanged): %w'', []) # err), st)
           | Inr staged \<Rightarrow>
               if staged = None \<and> units = [] \<and> list_all (\<lambda>h. cu_files st SysRoot h = None) hooks
               then plain_claim E remove_launcher st
               else replace_install E units active (map_option snd staged) was_running remove_launcher later
                      (st\<lparr>cu_import := map_option fst staged\<rparr>)))))"

end
