(* ===== verification/Cutover_Props.thy ===== *)
theory Cutover_Props
  imports Cutover Migration_Props
begin

text \<open>
  A cutover that fails puts everything back. What the undo functions collected so far would restore is an invariant of every step:
  undone from the latest on, they lead from the files as they are now to the files as they were.
\<close>

subsection \<open>What undoing restores\<close>

type_synonym file_map = "root_dir \<Rightarrow> string \<Rightarrow> file_entry option"

definition put_at :: "root_dir \<Rightarrow> string \<Rightarrow> file_entry option \<Rightarrow> file_map \<Rightarrow> file_map" where
  "put_at r n e F = F(r := (F r)(n := e))"

lemma put_file_files [simp]:
  "cu_files (put_file r n e st) = put_at r n e (cu_files st)" "cu_undo (put_file r n e st) = cu_undo st"
  "cu_import (put_file r n e st) = cu_import st" "cu_dirs (put_file r n e st) = cu_dirs st" "cu_faults (put_file r n e st) = cu_faults st"
  "cu_world (put_file r n e st) = cu_world st" "cu_tailscale (put_file r n e st) = cu_tailscale st"
  "cu_discard (put_file r n e st) = cu_discard st"
  by (simp_all add: put_file_def put_at_def)

lemma push_undo_sel [simp]:
  "cu_files (push_undo u st) = cu_files st" "cu_undo (push_undo u st) = u # cu_undo st"
  "cu_import (push_undo u st) = cu_import st" "cu_dirs (push_undo u st) = cu_dirs st" "cu_faults (push_undo u st) = cu_faults st"
  "cu_world (push_undo u st) = cu_world st" "cu_tailscale (push_undo u st) = cu_tailscale st"
  by (simp_all add: push_undo_def)

lemma put_at_get [simp]: "put_at r n e F r' n' = (if r' = r \<and> n' = n then e else F r' n')"
  by (simp add: put_at_def)

lemma file_map_ext: "(\<And>r n. F r n = G r n) \<Longrightarrow> F = (G :: file_map)"
  by (simp add: fun_eq_iff)

definition restored :: "nat \<Rightarrow> (string \<times> string) list \<Rightarrow> file_entry \<Rightarrow> file_entry" where
  "restored mode attrs e = fold (\<lambda>a e. e\<lparr>fl_attrs := (fl_attrs e)(fst a \<mapsto> snd a)\<rparr>) attrs (e\<lparr>fl_mode := mode\<rparr>)"

fun undo_files :: "undo_step \<Rightarrow> file_map \<Rightarrow> file_map" where
  "undo_files (UndoRename r b n) F = put_at r b None (put_at r n (F r b) F)"
| "undo_files (UndoRemove r n) F = put_at r n None F"
| "undo_files UndoDropIn F = put_at SysRoot tailscaleDropIn None F"
| "undo_files (UndoStrip mode attrs) F = put_at SysRoot mihomoBinary (map_option (restored mode attrs) (F SysRoot mihomoBinary)) F"

text \<open>What has to be there for it; the other undo functions leave the files as they are when what they remove or change is gone.\<close>

fun undo_able :: "undo_step \<Rightarrow> file_map \<Rightarrow> bool" where
  "undo_able (UndoRename r b n) F = (F r b \<noteq> None)"
| "undo_able _ F = True"

text \<open>\<open>X\<close>: the files the daemon and the claim write, which the recovery does not put back.\<close>

definition agree :: "(root_dir \<times> string) set \<Rightarrow> file_map \<Rightarrow> file_map \<Rightarrow> bool" where
  "agree X F G \<longleftrightarrow> (\<forall>r n. (r, n) \<notin> X \<longrightarrow> F r n = G r n)"

fun undo_leads :: "(root_dir \<times> string) set \<Rightarrow> undo_step list \<Rightarrow> file_map \<Rightarrow> file_map \<Rightarrow> bool" where
  "undo_leads X [] F F0 \<longleftrightarrow> agree X F F0"
| "undo_leads X (u # us) F F0 \<longleftrightarrow> undo_able u F \<and> undo_leads X us (undo_files u F) F0"

fun undo_clean :: "(root_dir \<times> string) set \<Rightarrow> undo_step \<Rightarrow> bool" where
  "undo_clean X (UndoRename r b n) \<longleftrightarrow> (r, b) \<notin> X \<and> (r, n) \<notin> X"
| "undo_clean X (UndoStrip mode attrs) \<longleftrightarrow> (SysRoot, mihomoBinary) \<notin> X"
| "undo_clean X _ \<longleftrightarrow> True"

lemma undo_agree:
  "agree X F G \<Longrightarrow> undo_clean X u \<Longrightarrow> undo_able u F = undo_able u G \<and> agree X (undo_files u F) (undo_files u G)"
  by (cases u) (auto simp: agree_def)

lemma undo_leads_agree: "undo_leads X us F F0 \<Longrightarrow> agree X F G \<Longrightarrow> list_all (undo_clean X) us \<Longrightarrow> undo_leads X us G F0"
proof (induction us arbitrary: F G)
  case Nil
  then show ?case by (auto simp: agree_def)
next
  case (Cons u us)
  then show ?case using undo_agree[of X F G u] by auto
qed

text \<open>Backups are named by the time of the change, which differs from change to change.\<close>

definition fresh_backups :: "'w cutover_env \<Rightarrow> file_map \<Rightarrow> bool" where
  "fresh_backups E F0 \<longleftrightarrow> (\<forall>r k n. F0 r (backup_name E k n) = None)
     \<and> (\<forall>j k m n. backup_name E j m = backup_name E k n \<longrightarrow> j = k)"

definition files_ok :: "'w cutover_env \<Rightarrow> (root_dir \<times> string) set \<Rightarrow> file_map \<Rightarrow> 'w cutover_state \<Rightarrow> bool" where
  "files_ok E X F0 st \<longleftrightarrow> undo_leads X (cu_undo st) (cu_files st) F0 \<and> list_all (undo_clean X) (cu_undo st)
     \<and> (\<forall>r n k. length (cu_undo st) \<le> k \<longrightarrow> cu_files st r (backup_name E k n) = None)"

text \<open>The state directory: as it was until the import is in place, and then in the backup of the import.\<close>

definition dirs_ok :: "'w cutover_env \<Rightarrow> listing \<Rightarrow> 'w cutover_state \<Rightarrow> bool" where
  "dirs_ok E L0 st \<longleftrightarrow> (\<forall>m. cu_import st = Some m \<longrightarrow> ip_target m = cx_state E
     \<and> (if \<not> ip_installed m then cu_dirs st (cx_state E) = L0
        else cu_dirs st (cx_state E) \<noteq> NoDir \<and> ip_dir m \<noteq> cx_state E
          \<and> (if ip_backup m = [] then L0 = NoDir
             else cu_dirs st (ip_backup m) = L0 \<and> L0 \<noteq> NoDir \<and> ip_backup m \<noteq> cx_state E \<and> ip_backup m \<noteq> ip_dir m)))"

definition safe :: "'w cutover_env \<Rightarrow> (root_dir \<times> string) set \<Rightarrow> file_map \<Rightarrow> listing \<Rightarrow> 'w cutover_state \<Rightarrow> bool" where
  "safe E X F0 L0 st \<longleftrightarrow> files_ok E X F0 st \<and> dirs_ok E L0 st"

lemma dirs_ok_cong: "cu_import st' = cu_import st \<Longrightarrow> cu_dirs st' = cu_dirs st \<Longrightarrow> dirs_ok E L0 st' = dirs_ok E L0 st"
  by (simp add: dirs_ok_def)

lemma files_ok_cong: "cu_files st' = cu_files st \<Longrightarrow> cu_undo st' = cu_undo st \<Longrightarrow> files_ok E X F0 st' = files_ok E X F0 st"
  by (simp add: files_ok_def)

lemma safe_updates [simp]:
  "safe E X F0 L0 (st\<lparr>cu_faults := fs\<rparr>) = safe E X F0 L0 st" "safe E X F0 L0 (st\<lparr>cu_world := w\<rparr>) = safe E X F0 L0 st"
  "safe E X F0 L0 (st\<lparr>cu_discard := ds\<rparr>) = safe E X F0 L0 st" "safe E X F0 L0 (st\<lparr>cu_tailscale := t\<rparr>) = safe E X F0 L0 st"
  by (simp_all add: safe_def files_ok_def dirs_ok_def)

subsection \<open>Steps\<close>

text \<open>From states in \<open>P\<close> a step stays safe, and where it succeeds it leads to \<open>Q\<close>.\<close>

definition triple ::
  "('w cutover_state \<Rightarrow> bool) \<Rightarrow> ('w cutover_state \<Rightarrow> bool) \<Rightarrow> 'w cut_step \<Rightarrow> ('w cutover_state \<Rightarrow> bool) \<Rightarrow> bool" where
  "triple S P a Q \<longleftrightarrow> (\<forall>st. P st \<longrightarrow> S (snd (a st)) \<and> (fst (a st) = None \<longrightarrow> Q (snd (a st))))"

lemma tripleI: "(\<And>st. P st \<Longrightarrow> S (snd (a st))) \<Longrightarrow> (\<And>st. P st \<Longrightarrow> fst (a st) = None \<Longrightarrow> Q (snd (a st))) \<Longrightarrow> triple S P a Q"
  by (simp add: triple_def)

lemma triple_Nil: "(\<And>st. P st \<Longrightarrow> S st \<and> Q st) \<Longrightarrow> triple S P (cut_steps []) Q"
  by (simp add: triple_def)

lemma triple_Cons:
  assumes "triple S P a R" "triple S R (cut_steps as) Q"
  shows "triple S P (cut_steps (a # as)) Q"
  using assms by (auto simp: triple_def split: prod.splits option.splits)

lemma cut_steps_append: "cut_steps (as @ bs) st = (case cut_steps as st of (Some err, st1) \<Rightarrow> (Some err, st1) | (None, st1) \<Rightarrow> cut_steps bs st1)"
  by (induction as arbitrary: st) (auto split: prod.splits option.splits)

lemma triple_append:
  assumes "triple S P (cut_steps as) R" "triple S R (cut_steps bs) Q"
  shows "triple S P (cut_steps (as @ bs)) Q"
  using assms by (auto simp: triple_def cut_steps_append split: prod.splits option.splits)

lemma triple_all: "(\<And>a. a \<in> set as \<Longrightarrow> triple S P a P) \<Longrightarrow> (\<And>st. P st \<Longrightarrow> S st) \<Longrightarrow> triple S P (cut_steps as) P"
proof (induction as)
  case Nil
  then show ?case by (simp add: triple_def)
next
  case (Cons a as)
  then show ?case by (intro triple_Cons[of S P a P]) auto
qed

lemma triple_attempt:
  assumes "triple S P a Q" "\<And>st. P st \<Longrightarrow> S st" "\<And>st fs. P st \<Longrightarrow> P (st\<lparr>cu_faults := fs\<rparr>)" "\<And>st fs. S st \<Longrightarrow> S (st\<lparr>cu_faults := fs\<rparr>)"
  shows "triple S P (attempt a) Q"
  using assms by (auto simp: triple_def attempt_def split: list.split)

lemma triple_weaken: "triple S P a Q \<Longrightarrow> (\<And>st. P' st \<Longrightarrow> P st) \<Longrightarrow> (\<And>st. Q st \<Longrightarrow> Q' st) \<Longrightarrow> triple S P' a Q'"
  by (simp add: triple_def)

text \<open>\<open>I\<close> says how far the import is.\<close>

definition at_point :: "'w cutover_env \<Rightarrow> (root_dir \<times> string) set \<Rightarrow> file_map \<Rightarrow> listing \<Rightarrow> (import_state option \<Rightarrow> bool) \<Rightarrow> 'w cutover_state \<Rightarrow> bool" where
  "at_point E X F0 L0 I st \<longleftrightarrow> safe E X F0 L0 st \<and> I (cu_import st)"

lemma at_point_safe: "at_point E X F0 L0 I st \<Longrightarrow> safe E X F0 L0 st"
  by (simp add: at_point_def)

lemma at_point_updates [simp]:
  "at_point E X F0 L0 I (st\<lparr>cu_faults := fs\<rparr>) = at_point E X F0 L0 I st" "at_point E X F0 L0 I (st\<lparr>cu_world := w\<rparr>) = at_point E X F0 L0 I st"
  "at_point E X F0 L0 I (st\<lparr>cu_tailscale := t\<rparr>) = at_point E X F0 L0 I st"
  by (simp_all add: at_point_def)

definition on_top :: "(undo_step \<Rightarrow> bool) \<Rightarrow> 'w cutover_state \<Rightarrow> bool" where
  "on_top T st \<longleftrightarrow> (\<exists>u us. cu_undo st = u # us \<and> T u)"

lemma on_top_updates [simp]:
  "on_top T (st\<lparr>cu_faults := fs\<rparr>) = on_top T st" "on_top T (put_file r n e st) = on_top T st" "on_top T (push_undo u st) = T u"
  by (simp_all add: on_top_def)

text \<open>A change that the last undo function makes good is safe.\<close>

lemma at_point_covered:
  assumes "at_point E X F0 L0 I st" "cu_undo st = u # us" "undo_able u (put_at r n e (cu_files st)) = undo_able u (cu_files st)"
    "undo_files u (put_at r n e (cu_files st)) = undo_files u (cu_files st)" "CHR ''-'' \<notin> set n"
  shows "at_point E X F0 L0 I (put_file r n e st)"
proof -
  have "n \<noteq> backup_name E k m" for k m using assms(5) by (auto simp: backup_name_def)
  then show ?thesis using assms by (auto simp: at_point_def safe_def files_ok_def dirs_ok_def)
qed

lemma ctl_triple:
  "triple (safe E X F0 L0) (at_point E X F0 L0 I) (systemctl E args) (at_point E X F0 L0 I)"
  "triple (safe E X F0 L0) (at_point E X F0 L0 I) (userctl E args) (at_point E X F0 L0 I)"
  by (auto simp: triple_def systemctl_def userctl_def at_point_def split: prod.splits)

lemma attempt_point:
  assumes "triple (safe E X F0 L0) (\<lambda>st. at_point E X F0 L0 I st \<and> on st) a Q" "\<And>st fs. on (st\<lparr>cu_faults := fs\<rparr>) = on st"
  shows "triple (safe E X F0 L0) (\<lambda>st. at_point E X F0 L0 I st \<and> on st) (attempt a) Q"
  by (rule triple_attempt[OF assms(1)]) (auto simp: assms(2) at_point_def)

lemma attempt_point0:
  "triple (safe E X F0 L0) (at_point E X F0 L0 I) a Q \<Longrightarrow> triple (safe E X F0 L0) (at_point E X F0 L0 I) (attempt a) Q"
  using attempt_point[of E X F0 L0 I "\<lambda>_. True"] by simp

lemma files_ok_length: "files_ok E X F0 st \<Longrightarrow> length (cu_undo st) \<le> k \<Longrightarrow> cu_files st r (backup_name E k n) = None"
  by (simp add: files_ok_def)

definition loose :: "(root_dir \<times> string) set \<Rightarrow> bool" where
  "loose X \<longleftrightarrow> X \<subseteq> set kept_files"

lemma loose_names:
  "loose X \<Longrightarrow> (SysRoot, tailscaleDropIn) \<notin> X" "loose X \<Longrightarrow> (SysRoot, mihomoBinary) \<notin> X"
  "loose X \<Longrightarrow> (HomeRoot, launcher) \<notin> X" "loose X \<Longrightarrow> h \<in> set hooks \<Longrightarrow> (SysRoot, h) \<notin> X"
  "loose X \<Longrightarrow> (ConfigRoot, unit_path u) \<notin> X" "loose X \<Longrightarrow> (r, n) \<in> X \<Longrightarrow> CHR ''-'' \<notin> set n"
  by (auto simp: loose_def kept_files_def ownerDropIn_def config_name_def settingsFile_def rulesFile_def tailscaleDropIn_def mihomoBinary_def
      launcher_def hooks_def unit_path_def)

lemma backup_not_loose: "loose X \<Longrightarrow> (r, backup_name E k n) \<notin> X"
  using loose_names(6)[of X r "backup_name E k n"] by (auto simp: backup_name_def)

lemma move_safe:
  assumes "at_point E X F0 L0 I st" "fresh_backups E F0" "cu_files st r n \<noteq> None" "loose X" "(r, n) \<notin> X"
  defines "b \<equiv> backup_name E (length (cu_undo st)) n"
  shows "at_point E X F0 L0 I (push_undo (UndoRename r b n) (put_file r n None (put_file r b (cu_files st r n) st))\<lparr>cu_discard := ds\<rparr>)"
proof -
  let ?F = "cu_files st"
  have ok: "files_ok E X F0 st" using assms(1) by (simp add: at_point_def safe_def)
  have b: "?F r b = None" unfolding b_def by (rule files_ok_length[OF ok]) simp
  then have "b \<noteq> n" using assms(3) by auto
  then have "put_at r b None (put_at r n (?F r n) (put_at r n None (put_at r b (?F r n) ?F))) = ?F"
    using b by (intro file_map_ext) auto
  moreover have "put_at r n None (put_at r b (?F r n) ?F) r' (backup_name E k m) = None" if "Suc (length (cu_undo st)) \<le> k" for r' k m
  proof -
    have "backup_name E k m \<noteq> b" using assms(2) that unfolding fresh_backups_def b_def by (metis not_less_eq_eq order_refl)
    then show ?thesis using files_ok_length[OF ok, of k] that by simp
  qed
  moreover have "undo_clean X (UndoRename r b n)" using backup_not_loose[OF assms(4)] assms(5) by (simp add: b_def)
  ultimately show ?thesis using assms(1,3) \<open>b \<noteq> n\<close> by (simp add: at_point_def safe_def files_ok_def dirs_ok_def)
qed

lemma move_triple:
  assumes "fresh_backups E F0" "loose X" "(r, n) \<notin> X"
  shows "triple (safe E X F0 L0) (at_point E X F0 L0 I) (move E r n) (\<lambda>st. at_point E X F0 L0 I st)"
  unfolding move_def
proof (rule attempt_point0, rule tripleI)
  fix st :: "'a cutover_state" assume p: "at_point E X F0 L0 I st"
  let ?act = "\<lambda>st. let b = backup_name E (length (cu_undo st)) n
       in (None, push_undo (UndoRename r b n)
                   (put_file r n None (put_file r b (cu_files st r n) st))\<lparr>cu_discard := cu_discard st @ [(r, b)]\<rparr>)"
  have "triple (safe E X F0 L0) (\<lambda>st. at_point E X F0 L0 I st \<and> cu_files st r n \<noteq> None) (attempt ?act) (at_point E X F0 L0 I)"
  proof (rule attempt_point)
    have m: "at_point E X F0 L0 I (snd (?act st))" if p: "at_point E X F0 L0 I st" and f: "cu_files st r n \<noteq> None" for st :: "'a cutover_state"
      using move_safe[OF p assms(1) f assms(2,3), of "cu_discard st @ [(r, backup_name E (length (cu_undo st)) n)]"] by (simp add: Let_def)
    show "triple (safe E X F0 L0) (\<lambda>st. at_point E X F0 L0 I st \<and> cu_files st r n \<noteq> None) ?act (at_point E X F0 L0 I)"
      unfolding triple_def using m at_point_safe[OF m] by blast
  qed simp
  then show "safe E X F0 L0 (snd (if cu_files st r n = None then (None, st) else attempt ?act st))"
    and "fst (if cu_files st r n = None then (None, st) else attempt ?act st) = None \<Longrightarrow>
      at_point E X F0 L0 I (snd (if cu_files st r n = None then (None, st) else attempt ?act st))"
    using p by (auto simp: triple_def at_point_def)
qed

subsection \<open>Settings files and privileges\<close>

definition made :: "string \<Rightarrow> 'w cutover_state \<Rightarrow> bool" where
  "made n = on_top (\<lambda>u. u = UndoRemove ConfigRoot n)"

lemma created_triple:
  assumes "CHR ''-'' \<notin> set n"
  shows "triple (safe E X F0 L0) (at_point E X F0 L0 I) (created n e) (\<lambda>st. at_point E X F0 L0 I st \<and> made n st)"
  unfolding created_def
proof (rule attempt_point0, rule tripleI)
  have fresh: "backup_name E k m \<noteq> n" for k m using assms by (auto simp: backup_name_def)
  have s: "at_point E X F0 L0 I (push_undo (UndoRemove ConfigRoot n) (put_file ConfigRoot n (Some e) st))"
    if "at_point E X F0 L0 I st" "cu_files st ConfigRoot n = None" for st :: "'a cutover_state"
  proof -
    have "put_at ConfigRoot n None (put_at ConfigRoot n (Some e) (cu_files st)) = cu_files st"
      using that(2) by (intro file_map_ext) auto
    then show ?thesis using that(1) fresh by (auto simp: at_point_def safe_def files_ok_def dirs_ok_def)
  qed
  fix st :: "'a cutover_state" assume p: "at_point E X F0 L0 I st"
  show "safe E X F0 L0 (snd (if cu_files st ConfigRoot n \<noteq> None then (Some cut_failed, st)
       else (None, push_undo (UndoRemove ConfigRoot n) (put_file ConfigRoot n (Some e) st))))"
    using s[OF p] p by (auto intro: at_point_safe)
  show "fst (if cu_files st ConfigRoot n \<noteq> None then (Some cut_failed, st)
       else (None, push_undo (UndoRemove ConfigRoot n) (put_file ConfigRoot n (Some e) st))) = None \<Longrightarrow>
    at_point E X F0 L0 I (snd (if cu_files st ConfigRoot n \<noteq> None then (Some cut_failed, st)
       else (None, push_undo (UndoRemove ConfigRoot n) (put_file ConfigRoot n (Some e) st))))
    \<and> made n (snd (if cu_files st ConfigRoot n \<noteq> None then (Some cut_failed, st)
       else (None, push_undo (UndoRemove ConfigRoot n) (put_file ConfigRoot n (Some e) st))))"
    using s[OF p] by (auto simp: made_def split: if_splits)
qed

lemma touched_triple:
  assumes "\<And>st fs. on (st\<lparr>cu_faults := fs\<rparr>) = on st"
  shows "triple (safe E X F0 L0) (\<lambda>st. at_point E X F0 L0 I st \<and> on st) touched (\<lambda>st. at_point E X F0 L0 I st \<and> on st)"
  unfolding touched_def by (rule attempt_point) (auto simp: triple_def assms at_point_def)

lemma made_updates: "made n (st\<lparr>cu_faults := fs\<rparr>) = made n st"
  by (simp add: made_def)

lemma written_triple:
  assumes "CHR ''-'' \<notin> set n"
  shows "triple (safe E X F0 L0) (\<lambda>st. at_point E X F0 L0 I st \<and> made n st) (written_to n dat) (\<lambda>st. at_point E X F0 L0 I st \<and> made n st)"
  unfolding written_to_def
proof (rule attempt_point)
  have "at_point E X F0 L0 I (put_file ConfigRoot n (map_option (fl_data_update (\<lambda>_. dat)) (cu_files st ConfigRoot n)) st)"
    if p: "at_point E X F0 L0 I st" and m: "made n st" for st :: "'a cutover_state"
  proof -
    obtain us where u: "cu_undo st = UndoRemove ConfigRoot n # us" using m by (auto simp: made_def on_top_def)
    show ?thesis by (rule at_point_covered[OF p u _ _ assms]) (auto intro!: file_map_ext)
  qed
  then show "triple (safe E X F0 L0) (\<lambda>st. at_point E X F0 L0 I st \<and> made n st)
     (\<lambda>st. (None, put_file ConfigRoot n (map_option (fl_data_update (\<lambda>_. dat)) (cu_files st ConfigRoot n)) st))
     (\<lambda>st. at_point E X F0 L0 I st \<and> made n st)"
    by (auto simp: triple_def made_def intro: at_point_safe)
qed (simp add: made_updates)

lemma triple_post: "triple S P a Q \<Longrightarrow> (\<And>st. Q st \<Longrightarrow> Q' st) \<Longrightarrow> triple S P a Q'"
  by (simp add: triple_def)

lemma triple_safe: "(\<And>st. P st \<Longrightarrow> S st) \<Longrightarrow> triple S P (cut_steps []) P"
  by (simp add: triple_def)

lemma write_config_file_triple:
  assumes "CHR ''-'' \<notin> set (fst f)"
  shows "triple (safe E X F0 L0) (at_point E X F0 L0 I) (write_config_file f) (at_point E X F0 L0 I)"
proof -
  have n: "CHR ''-'' \<notin> set (config_name (fst f))" using assms by (simp add: config_name_def)
  let ?Q = "\<lambda>st. at_point E X F0 L0 I st \<and> made (config_name (fst f)) st"
  have t: "triple (safe E X F0 L0) ?Q touched ?Q" by (rule touched_triple) (simp add: made_updates)
  have "triple (safe E X F0 L0) (at_point E X F0 L0 I) (write_config_file f) ?Q"
    unfolding write_config_file_def
    by (intro triple_Cons[OF created_triple[OF n]] triple_Cons[OF t] triple_Cons[OF written_triple[OF n]] triple_safe)
      (auto intro: at_point_safe)
  then show ?thesis by (rule triple_post) simp
qed

lemma make_config_dir_triple: "triple (safe E X F0 L0) (at_point E X F0 L0 I) make_config_dir (at_point E X F0 L0 I)"
proof -
  have n: "CHR ''-'' \<notin> set ''omihomo''" by simp
  let ?Q = "\<lambda>st. at_point E X F0 L0 I st \<and> made ''omihomo'' st"
  have t: "triple (safe E X F0 L0) ?Q touched ?Q" by (rule touched_triple) (simp add: made_updates)
  have a: "triple (safe E X F0 L0) (at_point E X F0 L0 I) (cut_steps [created ''omihomo'' (new_entry Directory dirMode), touched]) ?Q"
    by (intro triple_Cons[OF created_triple[OF n]] triple_Cons[OF t] triple_safe) (auto intro: at_point_safe)
  have b: "triple (safe E X F0 L0) (at_point E X F0 L0 I) touched (at_point E X F0 L0 I)"
    using touched_triple[of "\<lambda>_. True"] by simp
  show ?thesis using a b unfolding triple_def make_config_dir_def by auto
qed

lemma writeSettings_triple: "triple (safe E X F0 L0) (at_point E X F0 L0 I) (writeSettings E v) (at_point E X F0 L0 I)"
  unfolding writeSettings_def
proof (rule attempt_point0)
  have "CHR ''-'' \<notin> set (fst f)" if "f \<in> set (settings_Encode (cx_files E) v)" for f
    using that by (auto simp: settings_Encode_def settingsFile_def rulesFile_def)
  then have w: "triple (safe E X F0 L0) (at_point E X F0 L0 I) (cut_steps (make_config_dir # map write_config_file (settings_Encode (cx_files E) v)))
      (at_point E X F0 L0 I)"
    by (intro triple_Cons[OF make_config_dir_triple] triple_all) (auto intro: write_config_file_triple at_point_safe)
  show "triple (safe E X F0 L0) (at_point E X F0 L0 I) (\<lambda>st.
     if map_option fl_kind (cu_files st ConfigRoot ''omihomo'') = Some SymLink then (None, st)
     else let files = settings_Encode (cx_files E) v
          in if list_ex (\<lambda>f. cu_files st ConfigRoot (config_name (fst f)) \<noteq> None) files then (None, st)
             else cut_steps (make_config_dir # map write_config_file files) st) (at_point E X F0 L0 I)"
    using w unfolding triple_def Let_def by (auto intro: at_point_safe)
qed

lemma restored_attrs:
  "fold (\<lambda>a e. e\<lparr>fl_attrs := (fl_attrs e)(fst a \<mapsto> snd a)\<rparr>) attrs e = e\<lparr>fl_attrs := fl_attrs e ++ map_of (rev attrs)\<rparr>"
  by (induction attrs arbitrary: e) (simp_all add: map_add_upds fun_eq_iff map_add_def split: option.split)

lemma restored_sel: "restored mode attrs e = e\<lparr>fl_mode := mode, fl_attrs := fl_attrs e ++ map_of (rev attrs)\<rparr>"
  unfolding restored_def restored_attrs by (cases e) simp

lemma restored_changes:
  "restored mode attrs (fl_mode_update f e) = restored mode attrs e"
  "n \<in> fst ` set attrs \<Longrightarrow> restored mode attrs (drop_attr n e) = restored mode attrs e"
proof -
  show "restored mode attrs (fl_mode_update f e) = restored mode attrs e" by (simp add: restored_sel)
  assume "n \<in> fst ` set attrs"
  then have "map_of (rev attrs) n \<noteq> None" by (simp add: map_of_eq_None_iff)
  then have "(fl_attrs e)(n := None) ++ map_of (rev attrs) = fl_attrs e ++ map_of (rev attrs)"
    by (auto simp: fun_eq_iff map_add_def split: option.split)
  then show "restored mode attrs (drop_attr n e) = restored mode attrs e" by (simp add: restored_sel drop_attr_def)
qed

lemma restored_captured: "restored (fl_mode e) (captured e) e = e"
proof -
  have "distinct (map fst (captured e))"
    by (cases "fl_attrs e ''security.capability''"; cases "fl_attrs e ''system.posix_acl_access''")
      (simp_all add: captured_def List.map_filter_def privilegeAttrs_def)
  then have "map_of (rev (captured e)) = map_of (captured e)"
    by (intro map_of_inject_set[THEN iffD2]) (simp_all add: rev_map[symmetric])
  moreover have "map_of (captured e) n = Some d \<Longrightarrow> fl_attrs e n = Some d" for n d
    by (auto simp: captured_def map_filter_def privilegeAttrs_def split: if_splits)
  ultimately have "fl_attrs e ++ map_of (rev (captured e)) = fl_attrs e"
    by (auto simp: fun_eq_iff map_add_def split: option.split)
  then show ?thesis by (simp add: restored_sel)
qed

definition stripping :: "nat \<Rightarrow> (string \<times> string) list \<Rightarrow> 'w cutover_state \<Rightarrow> bool" where
  "stripping mode attrs = on_top (\<lambda>u. u = UndoStrip mode attrs)"

lemma change_entry_triple:
  assumes "\<And>e. restored mode attrs (f e) = restored mode attrs e"
  shows "triple (safe E X F0 L0) (\<lambda>st. at_point E X F0 L0 I st \<and> stripping mode attrs st) (change_entry SysRoot mihomoBinary f)
    (\<lambda>st. at_point E X F0 L0 I st \<and> stripping mode attrs st)"
  unfolding change_entry_def
proof (rule attempt_point)
  have m: "CHR ''-'' \<notin> set mihomoBinary" by (simp add: mihomoBinary_def)
  have "at_point E X F0 L0 I (put_file SysRoot mihomoBinary (map_option f (cu_files st SysRoot mihomoBinary)) st)"
    if p: "at_point E X F0 L0 I st" and s: "stripping mode attrs st" for st :: "'a cutover_state"
  proof -
    obtain us where u: "cu_undo st = UndoStrip mode attrs # us" using s by (auto simp: stripping_def on_top_def)
    show ?thesis by (rule at_point_covered[OF p u _ _ m]) (auto intro!: file_map_ext simp: assms option.map_comp o_def)
  qed
  then show "triple (safe E X F0 L0) (\<lambda>st. at_point E X F0 L0 I st \<and> stripping mode attrs st)
     (\<lambda>st. (None, put_file SysRoot mihomoBinary (map_option f (cu_files st SysRoot mihomoBinary)) st))
     (\<lambda>st. at_point E X F0 L0 I st \<and> stripping mode attrs st)"
    by (auto simp: triple_def stripping_def intro: at_point_safe)
qed (simp add: stripping_def)

lemma stripPrivileges_triple:
  assumes "loose X"
  shows "triple (safe E X F0 L0) (at_point E X F0 L0 I) stripPrivileges (at_point E X F0 L0 I)"
  unfolding stripPrivileges_def
proof (rule attempt_point0)
  let ?steps = "\<lambda>e. [\<lambda>st. (None, push_undo (UndoStrip (fl_mode e) (captured e)) st), change_entry SysRoot mihomoBinary (fl_mode_update (\<lambda>_. 448))]
     @ map (\<lambda>a. change_entry SysRoot mihomoBinary (drop_attr (fst a))) (captured e)
     @ [change_entry SysRoot mihomoBinary (fl_mode_update (\<lambda>_. 493))]"
  have run: "triple (safe E X F0 L0) (\<lambda>st. at_point E X F0 L0 I st \<and> cu_files st SysRoot mihomoBinary = Some e) (attempt (cut_steps (?steps e)))
      (at_point E X F0 L0 I)" for e
  proof -
    let ?Q = "\<lambda>st. at_point E X F0 L0 I st \<and> stripping (fl_mode e) (captured e) st"
    have push: "triple (safe E X F0 L0) (\<lambda>st. at_point E X F0 L0 I st \<and> cu_files st SysRoot mihomoBinary = Some e)
        (\<lambda>st. (None, push_undo (UndoStrip (fl_mode e) (captured e)) st)) ?Q"
    proof (rule tripleI)
      fix st :: "'a cutover_state" assume st: "at_point E X F0 L0 I st \<and> cu_files st SysRoot mihomoBinary = Some e"
      have "put_at SysRoot mihomoBinary (Some e) (cu_files st) = cu_files st" using st by (intro file_map_ext) auto
      then have "at_point E X F0 L0 I (push_undo (UndoStrip (fl_mode e) (captured e)) st)"
        using st loose_names(2)[OF assms] by (auto simp: at_point_def safe_def files_ok_def dirs_ok_def restored_captured)
      then show "safe E X F0 L0 (snd (None, push_undo (UndoStrip (fl_mode e) (captured e)) st))"
        and "?Q (snd (None, push_undo (UndoStrip (fl_mode e) (captured e)) st))"
        by (auto simp: stripping_def intro: at_point_safe)
    qed
    have mode: "triple (safe E X F0 L0) ?Q (change_entry SysRoot mihomoBinary (fl_mode_update g)) ?Q" for g
      by (rule change_entry_triple) (rule restored_changes(1))
    have attrs: "triple (safe E X F0 L0) ?Q (cut_steps (map (\<lambda>a. change_entry SysRoot mihomoBinary (drop_attr (fst a))) (captured e))) ?Q"
      by (rule triple_all) (auto intro!: change_entry_triple restored_changes(2) intro: at_point_safe)
    have "triple (safe E X F0 L0) (\<lambda>st. at_point E X F0 L0 I st \<and> cu_files st SysRoot mihomoBinary = Some e) (cut_steps (?steps e)) ?Q"
      unfolding append_Cons append_Nil
      by (intro triple_Cons[OF push] triple_Cons[OF mode] triple_append[OF attrs] triple_safe) (auto intro: at_point_safe)
    then show ?thesis by (intro attempt_point) (auto elim: triple_post)
  qed
  show "triple (safe E X F0 L0) (at_point E X F0 L0 I) (\<lambda>st. case cu_files st SysRoot mihomoBinary of
       None \<Rightarrow> (None, st)
     | Some e \<Rightarrow> if fl_kind e \<noteq> Regular then (Some [(''old mihomo is not a regular file'', [])], st)
         else attempt (\<lambda>st. cut_steps (?steps e) st) st) (at_point E X F0 L0 I)"
  proof (rule tripleI)
    fix st :: "'a cutover_state" assume st: "at_point E X F0 L0 I st"
    let ?r = "case cu_files st SysRoot mihomoBinary of
       None \<Rightarrow> (None, st)
     | Some e \<Rightarrow> if fl_kind e \<noteq> Regular then (Some [(''old mihomo is not a regular file'', [])], st) else attempt (\<lambda>st. cut_steps (?steps e) st) st"
    have "safe E X F0 L0 (snd ?r) \<and> (fst ?r = None \<longrightarrow> at_point E X F0 L0 I (snd ?r))"
    proof (cases "cu_files st SysRoot mihomoBinary")
      case None
      then show ?thesis using st by (simp add: at_point_safe)
    next
      case (Some e)
      then show ?thesis using st run[of e] by (auto simp: triple_def intro: at_point_safe)
    qed
    then show "safe E X F0 L0 (snd ?r)" and "fst ?r = None \<Longrightarrow> at_point E X F0 L0 I (snd ?r)" by auto
  qed
qed

subsection \<open>The import, the drop-in and the daemon\<close>

definition installed :: "import_state option \<Rightarrow> bool" where
  "installed i \<longleftrightarrow> (\<forall>m. i = Some m \<longrightarrow> ip_installed m)"

text \<open>An import as \<^verbatim>\<open>Prepare\<close> stages it: beside the state directory it replaces.\<close>

definition import_fits :: "'w cutover_env \<Rightarrow> dirs \<Rightarrow> import_state \<Rightarrow> bool" where
  "import_fits E D m \<longleftrightarrow> fresh_import m (cx_commit_backup E) D \<and> ip_target m = cx_state E"

definition at_start :: "'w cutover_env \<Rightarrow> file_map \<Rightarrow> dirs \<Rightarrow> 'w cutover_state \<Rightarrow> bool" where
  "at_start E F0 D st \<longleftrightarrow> cu_files st = F0 \<and> cu_undo st = [] \<and> cu_dirs st = D \<and> (\<forall>m. cu_import st = Some m \<longrightarrow> import_fits E D m)"

lemma at_start_safe: "at_start E F0 D st \<Longrightarrow> fresh_backups E F0 \<Longrightarrow> safe E X F0 (D (cx_state E)) st"
  by (auto simp: agree_def at_start_def safe_def files_ok_def dirs_ok_def fresh_backups_def import_fits_def fresh_import_def)

lemma at_start_point: "at_start E F0 D st \<Longrightarrow> fresh_backups E F0 \<Longrightarrow> cu_import st = None \<Longrightarrow> at_point E X F0 (D (cx_state E)) installed st"
  by (simp add: at_point_def at_start_safe installed_def)

lemma Commit_target: "Commit fails backup m fs = (ok, m1, fs1) \<Longrightarrow> ip_target m1 = ip_target m \<and> ip_dir m1 = ip_dir m"
  by (auto simp: Commit_def install_dir_def Let_def split: if_splits rename_result.splits)

lemma import_Commit_triple:
  assumes "fresh_backups E F0" "\<not> cx_commit_fails E 5"
  shows "triple (safe E X F0 (D (cx_state E))) (at_start E F0 D) (import_Commit E) (at_point E X F0 (D (cx_state E)) installed)"
proof -
  let ?L = "D (cx_state E)"
  have "safe E X F0 ?L (snd (import_Commit E st)) \<and> (fst (import_Commit E st) = None \<longrightarrow> at_point E X F0 ?L installed (snd (import_Commit E st)))"
    if st: "at_start E F0 D st" for st :: "'a cutover_state"
  proof (cases "cu_import st")
    case None
    then show ?thesis using at_start_safe[OF st assms(1)] at_start_point[OF st assms(1)] by (simp add: import_Commit_def)
  next
    case (Some m)
    obtain ok m1 fs1 where c: "Commit (cx_commit_fails E) (cx_commit_backup E) m D = (ok, m1, fs1)" by (metis prod_cases3)
    have f: "fresh_import m (cx_commit_backup E) D" "ip_target m = cx_state E" using st Some by (auto simp: at_start_def import_fits_def)
    have e: "import_Commit E st = (if ok then None else Some cut_failed, st\<lparr>cu_import := Some m1, cu_dirs := fs1\<rparr>)"
      using st Some c by (simp add: import_Commit_def at_start_def)
    have files: "files_ok E X F0 (st\<lparr>cu_import := Some m1, cu_dirs := fs1\<rparr>)"
      using at_start_safe[OF st assms(1)] by (simp add: safe_def files_ok_def)
    have "dirs_ok E ?L (st\<lparr>cu_import := Some m1, cu_dirs := fs1\<rparr>) \<and> (ok \<longrightarrow> ip_installed m1)"
      using Commit_cases[OF c f(1)] Commit_target[OF c] f assms(2) by (auto simp: dirs_ok_def fresh_import_def split: if_splits)
    then show ?thesis using files by (auto simp: e at_point_def safe_def installed_def)
  qed
  then show ?thesis by (simp add: triple_def)
qed

definition aside :: "'w cutover_state \<Rightarrow> bool" where
  "aside = on_top (\<lambda>u. u = UndoDropIn \<or> (\<exists>b. u = UndoRename SysRoot b tailscaleDropIn \<and> b \<noteq> tailscaleDropIn))"

lemma move_top:
  "fst (move E r n st) = None \<Longrightarrow> cu_files st r n \<noteq> None \<Longrightarrow> on_top (\<lambda>u. \<exists>b. u = UndoRename r b n \<and> b \<noteq> n) (snd (move E r n st))"
  by (auto simp: move_def attempt_def Let_def backup_name_def on_top_def split: list.splits if_splits)

lemma tailscale_aside_triple:
  assumes "fresh_backups E F0" "loose X"
  shows "triple (safe E X F0 L0) (at_point E X F0 L0 I) (tailscale_aside E) (\<lambda>st. at_point E X F0 L0 I st \<and> aside st)"
  unfolding tailscale_aside_def
proof (rule attempt_point0, rule tripleI)
  fix st :: "'a cutover_state" assume st: "at_point E X F0 L0 I st"
  let ?m = "move E SysRoot tailscaleDropIn (st\<lparr>cu_tailscale := True\<rparr>)" and ?p = "push_undo UndoDropIn st"
  have m: "safe E X F0 L0 (snd ?m)" "fst ?m = None \<Longrightarrow> at_point E X F0 L0 I (snd ?m)"
    using move_triple[OF assms loose_names(1)[OF assms(2)], of L0 I] st by (auto simp: triple_def)
  have top: "aside (snd ?m)" if "fst ?m = None" "cu_files st SysRoot tailscaleDropIn \<noteq> None"
    using move_top[OF that(1)] that(2) by (auto simp: aside_def on_top_def)
  have p: "at_point E X F0 L0 I ?p" if "cu_files st SysRoot tailscaleDropIn = None"
  proof -
    have "put_at SysRoot tailscaleDropIn None (cu_files st) = cu_files st" using that by (intro file_map_ext) auto
    then show ?thesis using st by (auto simp: at_point_def safe_def files_ok_def dirs_ok_def)
  qed
  show "safe E X F0 L0 (snd (if cu_files st SysRoot tailscaleDropIn \<noteq> None then ?m else (None, ?p)))"
    using m p by (auto intro: at_point_safe)
  show "fst (if cu_files st SysRoot tailscaleDropIn \<noteq> None then ?m else (None, ?p)) = None \<Longrightarrow>
    at_point E X F0 L0 I (snd (if cu_files st SysRoot tailscaleDropIn \<noteq> None then ?m else (None, ?p)))
    \<and> aside (snd (if cu_files st SysRoot tailscaleDropIn \<noteq> None then ?m else (None, ?p)))"
    using m p top by (auto simp: aside_def)
qed

text \<open>The daemon does not remove its state directory, and of \<open>kept_files\<close> a call changes those in \<open>X\<close>.\<close>

definition keeps_dir :: "(root_dir \<times> string) set \<Rightarrow> ('w daemon_side \<Rightarrow> msg option \<times> 'w daemon_side) \<Rightarrow> bool" where
  "keeps_dir X f \<longleftrightarrow> (\<forall>w F l. (l \<noteq> NoDir \<longrightarrow> snd (snd (snd (f (w, F, l)))) \<noteq> NoDir)
     \<and> (\<forall>(r, n)\<in>set kept_files - X. fst (snd (snd (f (w, F, l)))) r n = F r n))"

lemma keeps_dirD:
  "keeps_dir X f \<Longrightarrow> f (w, F, l) = (r, w', F', l') \<Longrightarrow> (l \<noteq> NoDir \<longrightarrow> l' \<noteq> NoDir) \<and> (\<forall>(r, n)\<in>set kept_files - X. F' r n = F r n)"
  unfolding keeps_dir_def by (drule spec[of _ w], drule spec[of _ F], drule spec[of _ l]) simp

lemma dropin_covered:
  assumes "u = UndoDropIn \<or> (\<exists>b. u = UndoRename SysRoot b tailscaleDropIn \<and> b \<noteq> tailscaleDropIn)"
  shows "undo_able u (put_at SysRoot tailscaleDropIn e F) = undo_able u F" "undo_files u (put_at SysRoot tailscaleDropIn e F) = undo_files u F"
  using assms by (auto intro!: file_map_ext)

lemma dir_change_safe:
  assumes "at_point E X F0 L0 installed st" "l \<noteq> NoDir \<or> cu_dirs st (cx_state E) = NoDir"
  shows "at_point E X F0 L0 installed (st\<lparr>cu_world := w, cu_dirs := (cu_dirs st)(cx_state E := l)\<rparr>)"
  using assms by (cases "cu_import st") (auto simp: at_point_def safe_def files_ok_def dirs_ok_def installed_def)

lemma loose_change_safe:
  assumes "at_point E X F0 L0 I st" "agree X (cu_files st) F" "loose X"
  shows "at_point E X F0 L0 I (st\<lparr>cu_files := F\<rparr>)"
proof -
  have "files_ok E X F0 st" using assms(1) by (simp add: at_point_def safe_def)
  moreover have "F r (backup_name E k n) = cu_files st r (backup_name E k n)" for r k n
    using assms(2) backup_not_loose[OF assms(3)] by (metis agree_def)
  ultimately have "files_ok E X F0 (st\<lparr>cu_files := F\<rparr>)"
    using undo_leads_agree[OF _ assms(2)] by (simp add: files_ok_def)
  then show ?thesis using assms(1) by (simp add: at_point_def safe_def dirs_ok_def)
qed

lemma daemon_call_triple:
  assumes "keeps_dir X f" "loose X"
  shows "triple (safe E X F0 L0) (\<lambda>st. at_point E X F0 L0 installed st \<and> aside st) (daemon_call E f)
    (\<lambda>st. at_point E X F0 L0 installed st \<and> aside st)"
proof -
  have "at_point E X F0 L0 installed (snd (daemon_call E f st)) \<and> aside (snd (daemon_call E f st))"
    if st: "at_point E X F0 L0 installed st" "aside st" for st :: "'a cutover_state"
  proof -
    obtain r w F l where c: "f (cu_world st, cu_files st, cu_dirs st (cx_state E)) = (r, w, F, l)" by (metis prod_cases4)
    let ?s = "st\<lparr>cu_world := w, cu_dirs := (cu_dirs st)(cx_state E := l)\<rparr>"
    let ?p = "put_file SysRoot tailscaleDropIn (F SysRoot tailscaleDropIn) ?s"
    let ?F = "\<lambda>d n. if (d, n) \<in> set ((SysRoot, tailscaleDropIn) # kept_files) then F d n else cu_files st d n"
    have k: "l \<noteq> NoDir \<or> cu_dirs st (cx_state E) = NoDir" "\<forall>(r, n)\<in>set kept_files - X. F r n = cu_files st r n"
      using keeps_dirD[OF assms(1) c] by auto
    have s: "at_point E X F0 L0 installed ?s" using st(1) k(1) by (rule dir_change_safe)
    obtain u us where u: "cu_undo ?s = u # us" "u = UndoDropIn \<or> (\<exists>b. u = UndoRename SysRoot b tailscaleDropIn \<and> b \<noteq> tailscaleDropIn)"
      using st(2) by (auto simp: aside_def on_top_def)
    have p: "at_point E X F0 L0 installed ?p"
      by (rule at_point_covered[OF s u(1) dropin_covered[OF u(2)]]) (simp add: tailscaleDropIn_def)
    have "F d n = cu_files st d n" if "(d, n) \<in> set kept_files" "(d, n) \<notin> X" for d n using k(2) that by fastforce
    then have "agree X (cu_files ?p) ?F" by (auto simp: agree_def)
    then have "at_point E X F0 L0 installed (?p\<lparr>cu_files := ?F\<rparr>)" using p assms(2) by (intro loose_change_safe)
    moreover have "snd (daemon_call E f st) = ?p\<lparr>cu_files := ?F\<rparr>" by (simp add: daemon_call_def c put_file_def)
    moreover have "aside (?p\<lparr>cu_files := ?F\<rparr>)" using u by (auto simp: aside_def on_top_def)
    ultimately show ?thesis by simp
  qed
  then show ?thesis by (auto simp: triple_def intro: at_point_safe)
qed

subsection \<open>All the changes\<close>

definition cut_starts :: "'w cutover_env \<Rightarrow> file_map \<Rightarrow> dirs \<Rightarrow> apply_args option \<Rightarrow> 'w cutover_state \<Rightarrow> bool" where
  "cut_starts E F0 D staged st \<longleftrightarrow> at_start E F0 D st \<and> (staged = None \<longrightarrow> cu_import st = None)"

lemma userctl_start:
  assumes "fresh_backups E F0"
  shows "triple (safe E X F0 (D (cx_state E))) (cut_starts E F0 D staged) (userctl E args) (cut_starts E F0 D staged)"
proof -
  have "cut_starts E F0 D staged (st\<lparr>cu_world := w\<rparr>) = cut_starts E F0 D staged st" for st :: "'a cutover_state" and w
    by (simp add: cut_starts_def at_start_def)
  moreover have "cut_starts E F0 D staged st \<Longrightarrow> safe E X F0 (D (cx_state E)) st" for st :: "'a cutover_state"
    using at_start_safe assms by (auto simp: cut_starts_def)
  ultimately show ?thesis by (auto simp: triple_def userctl_def split: prod.splits)
qed

lemma triple_if:
  assumes "b \<Longrightarrow> triple S P a P" "\<And>st. P st \<Longrightarrow> S st"
  shows "triple S P (cut_steps (if b then [a] else [])) P"
  using assms by (auto intro!: triple_Cons triple_safe)

lemma staged_triple:
  assumes "fresh_backups E F0" "\<not> cx_commit_fails E 5" "loose X"
  shows "triple (safe E X F0 (D (cx_state E))) (cut_starts E F0 D staged)
     (cut_steps (case staged of None \<Rightarrow> [] | Some v \<Rightarrow> import_Commit E # (if cx_config E then [writeSettings E v] else [])))
     (at_point E X F0 (D (cx_state E)) installed)"
proof (cases staged)
  case None
  then show ?thesis using at_start_safe[OF _ assms(1)] at_start_point[OF _ assms(1)] by (auto simp: triple_def cut_starts_def)
next
  case (Some v)
  have "triple (safe E X F0 (D (cx_state E))) (at_start E F0 D) (cut_steps (import_Commit E # (if cx_config E then [writeSettings E v] else [])))
     (at_point E X F0 (D (cx_state E)) installed)"
    by (intro triple_Cons[OF import_Commit_triple[OF assms(1,2)]] triple_if writeSettings_triple) (rule at_point_safe)
  then show ?thesis unfolding Some option.case by (rule triple_weaken) (auto simp: cut_starts_def)
qed

lemma change_steps_triple:
  assumes "fresh_backups E F0" "\<not> cx_commit_fails E 5" "loose X"
  shows "triple (safe E X F0 (D (cx_state E))) (cut_starts E F0 D staged) (cut_steps (change_steps E units staged rm))
    (\<lambda>st. at_point E X F0 (D (cx_state E)) installed st \<and> aside st)"
proof -
  let ?S = "safe E X F0 (D (cx_state E))"
  let ?P = "at_point E X F0 (D (cx_state E)) installed"
  have s: "cut_starts E F0 D staged st \<Longrightarrow> ?S st" for st using at_start_safe[OF _ assms(1)] by (auto simp: cut_starts_def)
  have moves: "triple ?S ?P (cut_steps (map (move E r) names)) ?P" if "\<And>n. n \<in> set names \<Longrightarrow> (r, n) \<notin> X" for r names
    by (rule triple_all) (auto intro!: move_triple[OF assms(1,3) that] at_point_safe)
  have old: "triple ?S ?P (cut_steps (map (move E ConfigRoot) (concat (map unit_paths units)))) ?P" "triple ?S ?P (cut_steps (map (move E SysRoot) hooks)) ?P"
    by (rule moves; use loose_names(4,5)[OF assms(3)] in \<open>auto simp: unit_paths_def\<close>)+
  have units: "triple ?S (cut_starts E F0 D staged) (cut_steps (if b then [userctl E args] else [])) (cut_starts E F0 D staged)" for b args
    by (intro triple_if userctl_start assms(1) s)
  have one: "triple ?S ?P (cut_steps (if b then [a] else [])) ?P" if "triple ?S ?P a ?P" for b a
    using that by (intro triple_if) (auto intro: at_point_safe)
  have strip: "triple ?S ?P (cut_steps [stripPrivileges]) ?P"
    by (intro triple_Cons[OF stripPrivileges_triple[OF assms(3)]] triple_safe) (rule at_point_safe)
  have last: "triple ?S ?P (cut_steps [tailscale_aside E]) (\<lambda>st. ?P st \<and> aside st)"
    by (intro triple_Cons[OF tailscale_aside_triple[OF assms(1,3)]] triple_safe) (auto intro: at_point_safe)
  show ?thesis unfolding change_steps_def
    by (rule triple_append[OF units triple_append[OF staged_triple[OF assms, of D staged] triple_append[OF old(1) triple_append[OF one[OF ctl_triple(2)]
        triple_append[OF old(2) triple_append[OF strip triple_append[OF one[OF move_triple[OF assms(1,3) loose_names(3)[OF assms(3)]]] last]]]]]]])
qed

lemma claim_steps_triple:
  assumes "keeps_dir X (cx_claim E)" "keeps_dir X (cx_apply E)" "keeps_dir X (cx_check E was)" "loose X"
  shows "triple (safe E X F0 L0) (\<lambda>st. at_point E X F0 L0 installed st \<and> aside st) (cut_steps (claim_steps E imported was))
    (\<lambda>st. at_point E X F0 L0 installed st \<and> aside st)"
proof -
  let ?Q = "\<lambda>st. at_point E X F0 L0 installed st \<and> aside st"
  have apply_one: "triple (safe E X F0 L0) ?Q (cut_steps (if b then [daemon_call E (cx_apply E)] else [])) ?Q" for b
    by (intro triple_if daemon_call_triple assms(2,4)) (auto intro: at_point_safe)
  have check: "triple (safe E X F0 L0) ?Q (cut_steps [daemon_call E (cx_check E was)]) ?Q"
    by (intro triple_Cons[OF daemon_call_triple[OF assms(3,4)]] triple_safe) (auto intro: at_point_safe)
  show ?thesis unfolding claim_steps_def
    by (rule triple_Cons[OF daemon_call_triple[OF assms(1,4)] triple_append[OF apply_one check]])
qed

lemma changes_safe:
  assumes "fresh_backups E F0" "\<not> cx_commit_fails E 5" "keeps_dir X (cx_claim E)" "keeps_dir X (cx_apply E)" "keeps_dir X (cx_check E was)" "loose X"
    "cut_starts E F0 D staged st" "cut_steps (change_steps E units staged rm @ claim_steps E imported was) st = (r, st1)"
  shows "safe E X F0 (D (cx_state E)) st1"
  using triple_append[OF change_steps_triple[OF assms(1,2,6)] claim_steps_triple[OF assms(3-6)], of D staged units rm imported] assms(7,8)
  unfolding triple_def by (metis snd_conv)

subsection \<open>Recovery\<close>

definition quiet :: "'w cutover_state \<Rightarrow> bool" where
  "quiet st \<longleftrightarrow> True \<notin> set (cu_faults st)"

lemma quiet_cut_sel [simp]: "quiet (put_file r n e st) = quiet st" "quiet (st\<lparr>cu_world := w\<rparr>) = quiet st"
  "quiet (st\<lparr>cu_import := i, cu_dirs := ds\<rparr>) = quiet st"
  by (simp_all add: quiet_def)

text \<open>\<open>rest\<close>: all but the files.\<close>

definition same_rest :: "'w cutover_state \<Rightarrow> 'w cutover_state \<Rightarrow> bool" where
  "same_rest st st' \<longleftrightarrow> cu_undo st' = cu_undo st \<and> cu_import st' = cu_import st \<and> cu_dirs st' = cu_dirs st \<and> (quiet st \<longrightarrow> quiet st')"

definition does :: "(file_map \<Rightarrow> file_map) \<Rightarrow> 'w cut_step \<Rightarrow> (file_map \<Rightarrow> bool) \<Rightarrow> bool" where
  "does g a P \<longleftrightarrow> (\<forall>st. quiet st \<and> P (cu_files st) \<longrightarrow>
     fst (a st) = None \<and> cu_files (snd (a st)) = g (cu_files st) \<and> same_rest st (snd (a st)))"

lemma doesD: "does g a P \<Longrightarrow> quiet st \<Longrightarrow> P (cu_files st) \<Longrightarrow>
    fst (a st) = None \<and> cu_files (snd (a st)) = g (cu_files st) \<and> same_rest st (snd (a st))"
  unfolding does_def by blast

lemma same_rest_simps [simp]: "same_rest (st\<lparr>cu_faults := fs\<rparr>) st' \<Longrightarrow> True \<notin> set fs \<Longrightarrow> same_rest st st'"
  "same_rest st st" "same_rest st (put_file r n e st)"
  by (auto simp: same_rest_def quiet_def)

lemma does_attempt: "does g a P \<Longrightarrow> does g (attempt a) P"
  unfolding does_def
proof (intro allI impI, elim conjE)
  fix st :: "'a cutover_state"
  assume a: "\<forall>st. quiet st \<and> P (cu_files st) \<longrightarrow> fst (a st) = None \<and> cu_files (snd (a st)) = g (cu_files st) \<and> same_rest st (snd (a st))"
    and q: "quiet st" "P (cu_files st)"
  show "fst (attempt a st) = None \<and> cu_files (snd (attempt a st)) = g (cu_files st) \<and> same_rest st (snd (attempt a st))"
  proof (cases "cu_faults st")
    case Nil
    then show ?thesis using a q by (simp add: attempt_def)
  next
    case (Cons f fs)
    then have n: "\<not> f" "True \<notin> set fs" using q(1) by (auto simp: quiet_def)
    then show ?thesis using a[rule_format, of "st\<lparr>cu_faults := fs\<rparr>"] q(2) Cons by (auto simp: attempt_def quiet_def)
  qed
qed

lemma does_Nil: "does (\<lambda>F. F) (cut_steps []) P"
  by (simp add: does_def)

lemma same_rest_trans: "same_rest a b \<Longrightarrow> same_rest b c \<Longrightarrow> same_rest a c"
  by (auto simp: same_rest_def)

lemma does_Cons:
  assumes "does g a P" "does h (cut_steps as) Q" "\<And>F. P F \<Longrightarrow> Q (g F)"
  shows "does (\<lambda>F. h (g F)) (cut_steps (a # as)) P"
  unfolding does_def
proof (intro allI impI, elim conjE)
  fix st :: "'a cutover_state" assume q: "quiet st" "P (cu_files st)"
  obtain r st1 where a: "a st = (r, st1)" by (cases "a st")
  have 1: "r = None" "cu_files st1 = g (cu_files st)" "same_rest st st1" using doesD[OF assms(1) q] a by auto
  have "quiet st1" "Q (cu_files st1)" using 1 q assms(3) by (auto simp: same_rest_def)
  from doesD[OF assms(2) this] 1 a
  show "fst (cut_steps (a # as) st) = None \<and> cu_files (snd (cut_steps (a # as) st)) = h (g (cu_files st))
      \<and> same_rest st (snd (cut_steps (a # as) st))" by (auto intro: same_rest_trans)
qed

lemma does_change: "does (\<lambda>F. put_at r n (map_option f (F r n)) F) (change_entry r n f) P"
  unfolding change_entry_def by (rule does_attempt) (simp add: does_def)

lemma put_at_twice [simp]: "put_at r n e (put_at r n e' F) = put_at r n e F"
  by (intro file_map_ext) auto

lemma does_attrs:
  "does (\<lambda>F. put_at SysRoot mihomoBinary (map_option (\<lambda>x. fold (\<lambda>a e. e\<lparr>fl_attrs := (fl_attrs e)(fst a \<mapsto> snd a)\<rparr>) attrs x) (F SysRoot mihomoBinary)) F)
     (cut_steps (map (\<lambda>a. change_entry SysRoot mihomoBinary (\<lambda>e. e\<lparr>fl_attrs := (fl_attrs e)(fst a \<mapsto> snd a)\<rparr>)) attrs)) (\<lambda>_. True)"
proof (induction attrs)
  case Nil
  have "put_at SysRoot mihomoBinary (F SysRoot mihomoBinary) F = F" for F by (intro file_map_ext) auto
  then show ?case by (simp add: does_def option.map_ident)
next
  case (Cons a attrs)
  let ?f = "\<lambda>a e. e\<lparr>fl_attrs := (fl_attrs e)(fst a \<mapsto> snd a)\<rparr>"
  let ?M = "\<lambda>F. put_at SysRoot mihomoBinary (map_option (?f a) (F SysRoot mihomoBinary)) F"
  have e: "(\<lambda>F. put_at SysRoot mihomoBinary (map_option (\<lambda>x. fold ?f (a # attrs) x) (F SysRoot mihomoBinary)) F)
    = (\<lambda>F. put_at SysRoot mihomoBinary (map_option (\<lambda>x. fold ?f attrs x) (?M F SysRoot mihomoBinary)) (?M F))"
    by (simp add: option.map_comp o_def)
  show ?case unfolding e list.map by (rule does_Cons[OF does_change Cons]) simp
qed

text \<open>An undo function that finds nothing to remove or to change back fails and changes nothing.\<close>

definition works :: "(file_map \<Rightarrow> file_map) \<Rightarrow> 'w cut_step \<Rightarrow> (file_map \<Rightarrow> bool) \<Rightarrow> bool" where
  "works g a P \<longleftrightarrow> (\<forall>st. quiet st \<and> P (cu_files st) \<longrightarrow> cu_files (snd (a st)) = g (cu_files st) \<and> same_rest st (snd (a st)))"

lemma works_attempt: "works g a P \<Longrightarrow> works g (attempt a) P"
  unfolding works_def
proof (intro allI impI, elim conjE)
  fix st :: "'a cutover_state"
  assume a: "\<forall>st. quiet st \<and> P (cu_files st) \<longrightarrow> cu_files (snd (a st)) = g (cu_files st) \<and> same_rest st (snd (a st))"
    and q: "quiet st" "P (cu_files st)"
  show "cu_files (snd (attempt a st)) = g (cu_files st) \<and> same_rest st (snd (attempt a st))"
  proof (cases "cu_faults st")
    case Nil
    then show ?thesis using a q by (simp add: attempt_def)
  next
    case (Cons f fs)
    then have n: "\<not> f" "True \<notin> set fs" using q(1) by (auto simp: quiet_def)
    then show ?thesis using a[rule_format, of "st\<lparr>cu_faults := fs\<rparr>"] q(2) Cons by (auto simp: attempt_def quiet_def)
  qed
qed

lemma put_at_same: "F r n = e \<Longrightarrow> put_at r n e F = F"
  by (intro file_map_ext) auto

lemma works_undo: "works (undo_files u) (undo_one u) (undo_able u)"
  unfolding undo_one_def
proof (rule works_attempt)
  have strip: "does (undo_files (UndoStrip mode attrs)) (cut_steps (change_entry SysRoot mihomoBinary (fl_mode_update (\<lambda>_. mode))
     # map (\<lambda>a. change_entry SysRoot mihomoBinary (\<lambda>e. e\<lparr>fl_attrs := (fl_attrs e)(fst a \<mapsto> snd a)\<rparr>)) attrs)) (\<lambda>_. True)" for mode attrs
  proof -
    let ?M = "\<lambda>F. put_at SysRoot mihomoBinary (map_option (fl_mode_update (\<lambda>_. mode)) (F SysRoot mihomoBinary)) F"
    have e: "undo_files (UndoStrip mode attrs) = (\<lambda>F. put_at SysRoot mihomoBinary (map_option (\<lambda>x.
        fold (\<lambda>a e. e\<lparr>fl_attrs := (fl_attrs e)(fst a \<mapsto> snd a)\<rparr>) attrs x) (?M F SysRoot mihomoBinary)) (?M F))"
      by (simp add: fun_eq_iff option.map_comp o_def restored_def[abs_def])
    show ?thesis unfolding e by (rule does_Cons[OF does_change does_attrs]) simp
  qed
  show "works (undo_files u) (\<lambda>st. case u of
     UndoRename r b n \<Rightarrow>
       if cu_files st r b = None then (Some cut_failed, st) else (None, put_file r b None (put_file r n (cu_files st r b) st))
   | UndoRemove r n \<Rightarrow> if cu_files st r n = None then (Some cut_failed, st) else (None, put_file r n None st)
   | UndoDropIn \<Rightarrow> (None, put_file SysRoot tailscaleDropIn None st)
   | UndoStrip mode attrs \<Rightarrow>
       if cu_files st SysRoot mihomoBinary = None then (Some cut_failed, st)
       else cut_steps (change_entry SysRoot mihomoBinary (fl_mode_update (\<lambda>_. mode))
              # map (\<lambda>a. change_entry SysRoot mihomoBinary (\<lambda>e. e\<lparr>fl_attrs := (fl_attrs e)(fst a \<mapsto> snd a)\<rparr>)) attrs) st) (undo_able u)"
  proof (cases u)
    case (UndoStrip mode attrs)
    show ?thesis unfolding UndoStrip works_def using doesD[OF strip] by (auto simp: put_at_same)
  qed (auto simp: works_def same_rest_def put_at_same)
qed

lemma all_steps_append: "all_steps (as @ bs) st = apfst ((\<and>) (fst (all_steps as st))) (all_steps bs (snd (all_steps as st)))"
  by (induction as arbitrary: st) (auto simp: apfst_def map_prod_def split: prod.splits)

lemma undone_all:
  "undo_leads X us (cu_files st) F0 \<Longrightarrow> quiet st \<Longrightarrow> agree X (cu_files (snd (all_steps (map undo_one us) st))) F0
     \<and> same_rest st (snd (all_steps (map undo_one us) st))"
proof (induction us arbitrary: st)
  case Nil
  then show ?case by (simp add: same_rest_def)
next
  case (Cons u us)
  obtain r st1 where a: "undo_one u st = (r, st1)" by (cases "undo_one u st")
  have 1: "cu_files st1 = undo_files u (cu_files st)" "same_rest st st1"
    using works_undo[of u, unfolded works_def, rule_format, of st] Cons.prems a by auto
  have "undo_leads X us (cu_files st1) F0" "quiet st1" using 1 Cons.prems by (auto simp: same_rest_def)
  from Cons.IH[OF this] 1 a show ?case by (auto intro: same_rest_trans split: prod.splits)
qed

lemma ctl_same [simp]:
  "cu_files (snd (systemctl E args st)) = cu_files st" "cu_files (snd (userctl E args st)) = cu_files st"
  "cu_dirs (snd (systemctl E args st)) = cu_dirs st" "cu_dirs (snd (userctl E args st)) = cu_dirs st"
  "cu_undo (snd (systemctl E args st)) = cu_undo st" "cu_import (snd (systemctl E args st)) = cu_import st"
  "cu_import (snd (userctl E args st)) = cu_import st" "quiet (snd (systemctl E args st)) = quiet st"
  by (simp_all add: systemctl_def userctl_def split: prod.splits)

lemma rolled_back:
  assumes "dirs_ok E L0 st" "\<not> cx_rollback_fails E 1" "\<not> cx_rollback_fails E 2"
  shows "cu_files (snd (import_Rollback E st)) = cu_files st"
    "cu_import (snd (import_Rollback E st)) = None \<longleftrightarrow> cu_import st = None"
    "cu_import st \<noteq> None \<Longrightarrow> cu_dirs (snd (import_Rollback E st)) (cx_state E) = L0"
proof -
  show "cu_files (snd (import_Rollback E st)) = cu_files st" "cu_import (snd (import_Rollback E st)) = None \<longleftrightarrow> cu_import st = None"
    by (auto simp: import_Rollback_def split: option.splits prod.splits)
  assume "cu_import st \<noteq> None"
  then obtain m where m: "cu_import st = Some m" by auto
  then have d: "ip_target m = cx_state E" "\<not> ip_installed m \<Longrightarrow> cu_dirs st (cx_state E) = L0"
    "ip_installed m \<Longrightarrow> cu_dirs st (cx_state E) \<noteq> NoDir \<and> ip_dir m \<noteq> cx_state E \<and> (if ip_backup m = [] then L0 = NoDir
             else cu_dirs st (ip_backup m) = L0 \<and> L0 \<noteq> NoDir \<and> ip_backup m \<noteq> cx_state E \<and> ip_backup m \<noteq> ip_dir m)"
    using assms(1) by (auto simp: dirs_ok_def)
  show "cu_dirs (snd (import_Rollback E st)) (cx_state E) = L0"
  proof (cases "ip_installed m")
    case False
    then show ?thesis using d m by (simp add: import_Rollback_def Rollback_def)
  next
    case True
    then show ?thesis using d m assms(2,3) by (auto simp: import_Rollback_def Rollback_def rename_dir_def Let_def split: if_splits)
  qed
qed

lemma all_steps_ctl:
  assumes "\<And>a. a \<in> set as \<Longrightarrow> \<exists>args. a = systemctl E args \<or> a = userctl E args"
  shows "cu_files (snd (all_steps as st)) = cu_files st \<and> cu_dirs (snd (all_steps as st)) = cu_dirs st
     \<and> cu_import (snd (all_steps as st)) = cu_import st"
  using assms
proof (induction as arbitrary: st)
  case (Cons a as)
  then obtain args where a: "a = systemctl E args \<or> a = userctl E args" by fastforce
  have "cu_files (snd (a st)) = cu_files st" "cu_dirs (snd (a st)) = cu_dirs st" "cu_import (snd (a st)) = cu_import st" using a by auto
  moreover have "snd (all_steps (a # as) st) = snd (all_steps as (snd (a st)))" by (simp split: prod.splits)
  ultimately show ?case using Cons.IH[of "snd (a st)"] Cons.prems by auto
qed simp

lemma recovered:
  assumes "safe E X F0 L0 st" "quiet st" "\<not> cx_rollback_fails E 1" "\<not> cx_rollback_fails E 2"
  shows "agree X (cu_files (snd (recover E units active st))) F0"
    "cu_import (snd (recover E units active st)) = None \<longleftrightarrow> cu_import st = None"
    "cu_import st \<noteq> None \<Longrightarrow> cu_dirs (snd (recover E units active st)) (cx_state E) = L0"
proof -
  define st1 where "st1 = snd (systemctl E [''stop'', serviceUnit, socketUnit] st)"
  define st2 where "st2 = snd (all_steps (map undo_one (cu_undo st)) st1)"
  define st3 where "st3 = snd (import_Rollback E st2)"
  define as where "as = (if units \<noteq> [] then [userctl E [''daemon-reload'']] else [])
       @ (if cu_tailscale st then [systemctl E [''daemon-reload''], systemctl E [''try-restart'', ''tailscaled.service'']] else [])
       @ (if active \<noteq> [] then [userctl E (''start'' # active)] else [])"
  have "recover E units active st = all_steps ([systemctl E [''stop'', serviceUnit, socketUnit]] @ map undo_one (cu_undo st) @ [import_Rollback E] @ as) st"
    by (simp add: recover_def as_def)
  then have r: "snd (recover E units active st) = snd (all_steps as st3)"
    by (simp only: all_steps_append snd_apfst) (simp add: st1_def st2_def st3_def split: prod.splits)
  have ctl: "\<exists>args. a = systemctl E args \<or> a = userctl E args" if "a \<in> set as" for a
    using that by (auto simp: as_def split: if_splits)
  have u: "undo_leads X (cu_undo st) (cu_files st1) F0" "quiet st1" "dirs_ok E L0 st1" "cu_import st1 = cu_import st"
    using assms(1,2) by (auto simp: safe_def files_ok_def st1_def dirs_ok_def)
  have 2: "agree X (cu_files st2) F0" "cu_import st2 = cu_import st" "dirs_ok E L0 st2"
    using undone_all[OF u(1,2)] u(3,4) by (auto simp: st2_def same_rest_def dirs_ok_def)
  show "agree X (cu_files (snd (recover E units active st))) F0"
    "cu_import (snd (recover E units active st)) = None \<longleftrightarrow> cu_import st = None"
    "cu_import st \<noteq> None \<Longrightarrow> cu_dirs (snd (recover E units active st)) (cx_state E) = L0"
    unfolding r using all_steps_ctl[of as E st3, OF ctl] rolled_back[OF 2(3) assms(3,4)] 2 by (auto simp: st3_def)
qed

subsection \<open>The claim\<close>

text \<open>What the library promises: names that differ, a daemon that keeps its directory, and a recovery whose own steps work.\<close>

definition recovery_works :: "'w cutover_env \<Rightarrow> bool list \<Rightarrow> bool" where
  "recovery_works E later \<longleftrightarrow> True \<notin> set later \<and> \<not> cx_commit_fails E 5 \<and> \<not> cx_rollback_fails E 1 \<and> \<not> cx_rollback_fails E 2"

definition cut_world :: "'w cutover_env \<Rightarrow> (root_dir \<times> string) set \<Rightarrow> 'w cutover_state \<Rightarrow> bool" where
  "cut_world E X st \<longleftrightarrow> cu_undo st = [] \<and> cu_import st = None \<and> fresh_backups E (cu_files st)
     \<and> (\<forall>r m v. cx_prepare E r = Inr (Some (m, v)) \<longrightarrow> import_fits E (cu_dirs st) m)
     \<and> loose X \<and> keeps_dir X (cx_claim E) \<and> keeps_dir X (cx_apply E) \<and> (\<forall>was. keeps_dir X (cx_check E was))"

definition old_there :: "'w cutover_env \<Rightarrow> 'w cutover_state \<Rightarrow> bool" where
  "old_there E st \<longleftrightarrow> cx_config E \<and> (\<exists>u\<in>set oldUnits. cu_files st ConfigRoot (unit_path u) \<noteq> None)
     \<or> (\<exists>h\<in>set hooks. cu_files st SysRoot h \<noteq> None)"

lemma map_sum_Inr: "map_sum id f x = Inr y \<longleftrightarrow> (\<exists>z. x = Inr z \<and> y = f z)"
  by (cases x) auto

lemma inspected: "inspect_units E st us = Inr found \<Longrightarrow> map fst found = filter (\<lambda>u. cu_files st ConfigRoot (unit_path u) \<noteq> None) us"
  by (induction us arbitrary: found) (auto simp: map_sum_Inr split: if_splits sum.splits)

lemma replaced:
  assumes "replace_install E units active staged was rm later st = (CutFailed err, st')"
    "cut_starts E (cu_files st) (cu_dirs st) staged st" "fresh_backups E (cu_files st)" "recovery_works E later"
    "keeps_dir X (cx_claim E)" "keeps_dir X (cx_apply E)" "keeps_dir X (cx_check E was)" "loose X"
  shows "agree X (cu_files st') (cu_files st)" "cu_import st' \<noteq> None \<Longrightarrow> cu_dirs st' (cx_state E) = cu_dirs st (cx_state E)"
proof -
  let ?stop = "systemctl E [''stop'', serviceUnit, socketUnit] st"
  have "agree X (cu_files st') (cu_files st) \<and> (cu_import st' \<noteq> None \<longrightarrow> cu_dirs st' (cx_state E) = cu_dirs st (cx_state E))"
  proof (cases "fst ?stop")
    case (Some e)
    then have "st' = snd ?stop" using assms(1) by (cases ?stop) (simp add: replace_install_def)
    then show ?thesis by (simp add: agree_def)
  next
    case None
    define st1 where "st1 = snd ?stop"
    have s: "cut_starts E (cu_files st) (cu_dirs st) staged st1"
      using assms(2) by (simp add: st1_def cut_starts_def at_start_def)
    obtain r st2 where c: "cut_steps (change_steps E units staged rm @ claim_steps E (staged \<noteq> None) was) st1 = (r, st2)" by fastforce
    have "?stop = (None, st1)" using None by (simp add: st1_def prod_eq_iff)
    then have "st' = snd (recover E units active (st2\<lparr>cu_faults := later\<rparr>))"
      using assms(1) c by (cases r) (auto simp: replace_install_def settle_def split: prod.splits if_splits)
    moreover have safe: "safe E X (cu_files st) (cu_dirs st (cx_state E)) (st2\<lparr>cu_faults := later\<rparr>)"
      using changes_safe[OF assms(3) _ assms(5-8) s c] assms(4) by (simp add: recovery_works_def)
    moreover have "quiet (st2\<lparr>cu_faults := later\<rparr>)" using assms(4) by (simp add: quiet_def recovery_works_def)
    ultimately show ?thesis using recovered[OF safe, of units active] assms(4) by (auto simp: recovery_works_def)
  qed
  then show "agree X (cu_files st') (cu_files st)" "cu_import st' \<noteq> None \<Longrightarrow> cu_dirs st' (cx_state E) = cu_dirs st (cx_state E)" by auto
qed

lemma plain_files:
  assumes "plain_claim E rm st = (CutFailed err, st')"
  shows "cu_import st' = cu_import st" "keeps_dir X (cx_claim E) \<Longrightarrow> agree (insert (SysRoot, tailscaleDropIn) X) (cu_files st') (cu_files st)"
proof -
  have "st' = snd (daemon_call E (cx_claim E) st) \<or> (\<exists>fs. st' = snd (daemon_call E (cx_claim E) st)\<lparr>cu_faults := fs\<rparr>)"
    using assms by (auto simp: plain_claim_def attempt_def split: prod.splits option.splits if_splits list.splits)
  then have "cu_files st' = cu_files (snd (daemon_call E (cx_claim E) st)) \<and> cu_import st' = cu_import (snd (daemon_call E (cx_claim E) st))" by auto
  moreover obtain r w F l where c: "cx_claim E (cu_world st, cu_files st, cu_dirs st (cx_state E)) = (r, w, F, l)" by (metis prod_cases4)
  ultimately have e: "cu_import st' = cu_import st"
    "cu_files st' = (\<lambda>d n. if (d, n) \<in> set ((SysRoot, tailscaleDropIn) # kept_files) then F d n else cu_files st d n)"
    by (auto simp: daemon_call_def)
  show "cu_import st' = cu_import st" by (rule e(1))
  assume "keeps_dir X (cx_claim E)"
  then have "\<forall>(r, n)\<in>set kept_files - X. F r n = cu_files st r n"
    using keeps_dirD[of X "cx_claim E", OF _ c] by blast
  then show "agree (insert (SysRoot, tailscaleDropIn) X) (cu_files st') (cu_files st)" by (auto simp: e(2) agree_def)
qed


subsection \<open>A cutover that fails\<close>

text \<open>An old user service is there, an import is staged, and the claim fails when it has written the socket's drop-in.\<close>

definition cut_import :: import_state where
  "cut_import = \<lparr>ip_dir = ''new'', ip_target = ''state'', ip_backup = [], ip_installed = False\<rparr>"

definition cut_files :: files_env where
  "cut_files = \<lparr>fe_locate = None, fe_private = None, fe_lock = None, fe_read = (\<lambda>_. None), fe_stat = (\<lambda>_. None), fe_chmod = (\<lambda>_. None),
     fe_replace = (\<lambda>_. None), fe_enc_settings = (\<lambda>_. ''{}''), fe_enc_rules = (\<lambda>_. ''[]''),
     fe_dec_settings = (\<lambda>_. Inr (default_settings, [])), fe_dec_rules = (\<lambda>_. Inr ([], []))\<rparr>"

definition cut_env :: "unit cutover_env" where
  "cut_env = \<lparr>cx_config = True, cx_uid = 1000, cx_keep_owner = False, cx_owner = Nothing, cx_state = ''state'',
     cx_stamp = (\<lambda>k. replicate k CHR ''x''), cx_systemctl = (\<lambda>_ w. (None, w)), cx_userctl = (\<lambda>_ w. (None, w)),
     cx_active = (\<lambda>_ _. Inr True), cx_prepare = (\<lambda>_. Inr (Some (cut_import, settings_Default))), cx_commit_backup = ''backup'',
     cx_commit_fails = (\<lambda>_. False), cx_rollback_fails = (\<lambda>_. False), cx_files = cut_files,
     cx_claim = (\<lambda>(w, F, l). (Some cut_failed, w, F(SysRoot := (F SysRoot)(ownerDropIn \<mapsto> new_entry Regular 420)), l)),
     cx_apply = (\<lambda>s. (None, s)), cx_check = (\<lambda>_ s. (None, s))\<rparr>"

definition cut_start :: "unit cutover_state" where
  "cut_start = \<lparr>cu_files = (\<lambda>r n. if r = ConfigRoot \<and> n = unit_path ''omihomo.service'' then Some (new_entry Regular 420) else None),
     cu_undo = [], cu_discard = [], cu_tailscale = False, cu_import = None,
     cu_dirs = (\<lambda>n. if n = ''new'' then Listing [] else NoDir), cu_world = (), cu_faults = []\<rparr>"

lemma cut_env_sel [simp]:
  "cx_config cut_env = True" "cx_keep_owner cut_env = False" "cx_state cut_env = ''state''" "cx_systemctl cut_env = (\<lambda>_ w. (None, w))"
  "cx_userctl cut_env = (\<lambda>_ w. (None, w))" "cx_active cut_env = (\<lambda>_ _. Inr True)" "cx_prepare cut_env = (\<lambda>_. Inr (Some (cut_import, settings_Default)))"
  "cx_commit_backup cut_env = ''backup''" "cx_commit_fails cut_env = (\<lambda>_. False)" "cx_rollback_fails cut_env = (\<lambda>_. False)"
  "cx_claim cut_env = (\<lambda>(w, F, l). (Some cut_failed, w, F(SysRoot := (F SysRoot)(ownerDropIn \<mapsto> new_entry Regular 420)), l))"
  "cx_apply cut_env = (\<lambda>s. (None, s))" "cx_check cut_env = (\<lambda>_ s. (None, s))" "cx_stamp cut_env k = replicate k CHR ''x''"
  by (simp_all add: cut_env_def)

lemma cut_stamps: "m @ ''.cutover-'' @ replicate j CHR ''x'' = n @ ''.cutover-'' @ replicate k CHR ''x'' \<Longrightarrow> j = k"
proof -
  assume a: "m @ ''.cutover-'' @ replicate j CHR ''x'' = n @ ''.cutover-'' @ replicate k CHR ''x''"
  have t: "length (takeWhile ((=) CHR ''x'') (rev (a @ ''.cutover-'' @ replicate i CHR ''x''))) = i" for a i
    by (simp add: takeWhile_append)
  from sym[OF t[of m j, unfolded a]] t[of n k] show ?thesis by (rule trans)
qed

lemma cut_world_holds: "cut_world cut_env {(SysRoot, ownerDropIn)} cut_start"
proof -
  have "CHR ''-'' \<notin> set (unit_path ''omihomo.service'')" by (simp add: unit_path_def)
  moreover have "CHR ''-'' \<in> set (backup_name cut_env k n)" for k n by (simp add: backup_name_def)
  ultimately have "backup_name cut_env k n \<noteq> unit_path ''omihomo.service''" for k n by metis
  moreover have "j = k" if "backup_name cut_env j m = backup_name cut_env k n" for j k m n
    by (rule cut_stamps) (use that in \<open>simp only: backup_name_def cut_env_sel\<close>)
  ultimately have "fresh_backups cut_env (cu_files cut_start)"
    unfolding fresh_backups_def by (simp add: cut_start_def)
  then show ?thesis
    by (auto simp: cut_world_def cut_start_def import_fits_def fresh_import_def cut_import_def keeps_dir_def loose_def kept_files_def)
qed

lemmas cut_step_defs = change_steps_def unit_paths_def systemctl_def userctl_def import_Commit_def cut_import_def Commit_def
  install_dir_def rename_dir_def emptyState_def attempt_def writeSettings_def settings_Encode_def cut_files_def cut_env_def settingsFile_def
  rulesFile_def config_name_def make_config_dir_def write_config_file_def created_def touched_def written_to_def put_file_def push_undo_def
  move_def backup_name_def hooks_def stripPrivileges_def mihomoBinary_def launcher_def tailscale_aside_def tailscaleDropIn_def new_entry_def

lemma cut_changes:
  "fst (cut_steps (change_steps cut_env [''omihomo.service''] (Some settings_Default) False) (cut_start\<lparr>cu_import := Some cut_import\<rparr>)) = None"
  by (simp add: cut_start_def unit_path_def cut_step_defs Let_def)

lemma cut_claims: "fst (cut_steps (claim_steps cut_env imported was) st) = Some cut_failed"
  by (simp add: claim_steps_def daemon_call_def)

lemma cut_fails: "fst (cutover_run cut_env [] cut_start) = CutFailed cut_failed"
proof -
  let ?st = "cut_start\<lparr>cu_import := Some cut_import\<rparr>"
  obtain st1 where c: "cut_steps (change_steps cut_env [''omihomo.service''] (Some settings_Default) False) ?st = (None, st1)"
    using cut_changes by (metis prod.collapse)
  obtain st2 where d: "cut_steps (claim_steps cut_env True True) st1 = (Some cut_failed, st2)"
    using cut_claims by (metis prod.collapse)
  have all: "cut_steps (change_steps cut_env [''omihomo.service''] (Some settings_Default) False @ claim_steps cut_env True True) ?st = (Some cut_failed, st2)"
    by (simp add: cut_steps_append c d)
  have stop: "systemctl cut_env args ?st = (None, ?st)" for args by (simp add: systemctl_def)
  have "inspect_units cut_env cut_start oldUnits = Inr [(''omihomo.service'', True)]"
    by (simp add: cut_start_def oldUnits_def unit_path_def)
  moreover have "oldLauncher (cu_files cut_start) = Inr False" by (simp add: oldLauncher_def cut_start_def)
  ultimately have "cutover_run cut_env [] cut_start
      = replace_install cut_env [''omihomo.service''] [''omihomo.service''] (Some settings_Default) True False [] ?st"
    by (simp add: cutover_run_def wrong_owner_def serviceUnit_def)
  then show ?thesis by (simp add: replace_install_def stop all)
qed


end
