(* ===== verification/Requests.thy ===== *)
theory Requests
  imports Command_Line Sessions
begin

text \<open>
  The commands of \<^verbatim>\<open>internal/cli/cli.go\<close> that make one call: what each asks the daemon for, the call, and what is printed. The daemon's
  side of the call is \<open>handle\<close> of \<open>Dispatch\<close>; that the arguments it decodes are those that were encoded is a hypothesis on \<^verbatim>\<open>encoding/json\<close>.
\<close>

subsection \<open>What a command asks for\<close>

datatype call_args = NoArgs | DecisionArgs string bool | StreamsArgs "string list" | SelectArgs string string | DelayArgs string "string list"
  | CloseArgs bool "string list" | URLArgs string | NameArgs string

type_synonym op_args = "string \<times> call_args"

definition nargs :: "string \<Rightarrow> nat \<Rightarrow> string \<Rightarrow> (string list \<Rightarrow> call_args) \<Rightarrow> string list \<Rightarrow> (cli_error, op_args) res" where
  "nargs name n op args rest =
     (if length rest \<noteq> n then Inl (UsageError [(''%s takes %d arguments, got %d'', [name, itoa_nat n, itoa_nat (length rest)])])
      else Inr (op, args rest))"

definition sub_add :: "string option \<Rightarrow> string list \<Rightarrow> (cli_error, op_args) res" where
  "sub_add stdin rest =
     (if rest \<noteq> [] then Inl (UsageError [(''sub add reads the URL from stdin, so it never shows in a process list'', [])])
      else case readURL stdin of Inl err \<Rightarrow> Inl (UsageError err) | Inr url \<Rightarrow> Inr (OpSubscriptionAdd, URLArgs url))"

definition group_test :: "string list \<Rightarrow> (cli_error, op_args) res" where
  "group_test rest =
     (case rest of [] \<Rightarrow> Inl (UsageError [(''group test needs a group'', [])]) | g # ps \<Rightarrow> Inr (OpDelayTest, DelayArgs g ps))"

definition close_request :: "bool \<Rightarrow> string list \<Rightarrow> (cli_error, op_args) res" where
  "close_request everything rest =
     (case conn_close everything rest of Inl err \<Rightarrow> Inl err | Inr (b, ids) \<Rightarrow> Inr (OpCloseConnections, CloseArgs b ids))"

definition none :: "string list \<Rightarrow> call_args" where "none rest = NoArgs"
definition by_name :: "string list \<Rightarrow> call_args" where "by_name rest = NameArgs (rest ! 0)"
definition decision :: "bool \<Rightarrow> string list \<Rightarrow> call_args" where "decision allow rest = DecisionArgs (rest ! 0) allow"

text \<open>\<^verbatim>\<open>--all\<close> of \<^verbatim>\<open>conn close\<close> and what is on stdin are arguments too.\<close>

definition subCommand :: "string option \<Rightarrow> (string \<times> (string list \<Rightarrow> (cli_error, op_args) res)) list" where
  "subCommand stdin =
     [(''sub list'', nargs ''list'' 0 OpSubscriptions none),
      (''sub add'', sub_add stdin),
      (''sub update'', nargs ''update'' 1 OpSubscriptionUpdate by_name),
      (''sub activate'', nargs ''activate'' 1 OpSubscriptionUse by_name),
      (''sub remove'', nargs ''remove'' 1 OpSubscriptionRemove by_name)]"

definition groupCommand :: "(string \<times> (string list \<Rightarrow> (cli_error, op_args) res)) list" where
  "groupCommand =
     [(''group list'', nargs ''list'' 0 OpGroups none),
      (''group select'', nargs ''select'' 2 OpSelect (\<lambda>rest. SelectArgs (rest ! 0) (rest ! 1))),
      (''group test'', group_test)]"

definition connCommand :: "bool \<Rightarrow> (string \<times> (string list \<Rightarrow> (cli_error, op_args) res)) list" where
  "connCommand everything =
     [(''conn list'', nargs ''list'' 0 OpConnections none),
      (''conn close'', close_request everything)]"

definition downloadCommand :: "(string \<times> (string list \<Rightarrow> (cli_error, op_args) res)) list" where
  "downloadCommand =
     [(''download list'', nargs ''list'' 0 OpDownloads none),
      (''download allow'', nargs ''allow'' 1 OpDownloadDecision (decision True)),
      (''download deny'', nargs ''deny'' 1 OpDownloadDecision (decision False))]"

definition rootCommand :: "(string \<times> (string list \<Rightarrow> (cli_error, op_args) res)) list" where
  "rootCommand =
     [(''status'', nargs ''status'' 0 OpStatus none),
      (''start'', nargs ''start'' 0 OpStart none),
      (''stop'', nargs ''stop'' 0 OpStop none),
      (''egress'', nargs ''egress'' 0 OpEgress none),
      (''rule list'', nargs ''list'' 0 OpRules none)]"

definition cli_request :: "bool \<Rightarrow> string option \<Rightarrow> string \<Rightarrow> string list \<Rightarrow> (cli_error, op_args) res option" where
  "cli_request everything stdin name rest =
     map_option (\<lambda>req. req rest) (map_of (rootCommand @ subCommand stdin @ downloadCommand @ groupCommand @ connCommand everything) name)"

text \<open>\<^verbatim>\<open>watch\<close>: all streams where none is named.\<close>

definition allStreams :: "string list" where
  "allStreams = [StreamStatus, StreamGroups, StreamRules, StreamSubscriptions, StreamDownloads, StreamTraffic, StreamConnections]"

definition watch_request :: "string list \<Rightarrow> op_args" where
  "watch_request streams = (OpSubscribe, StreamsArgs (if streams = [] then allStreams else streams))"

subsection \<open>The call\<close>

definition call_run ::
  "'d daemon_link \<Rightarrow> (string \<Rightarrow> call_args \<Rightarrow> 'd \<Rightarrow> (cli_error, string) res \<times> 'd) \<Rightarrow> (cli_error, op_args) res \<Rightarrow> 'd \<Rightarrow> (cli_error, string) res \<times> 'd" where
  "call_run L call req d =
     (case req of
        Inl err \<Rightarrow> (Inl err, d)
      | Inr (op, args) \<Rightarrow> (case dial L d of (Some err, d1) \<Rightarrow> (Inl err, d1) | (None, d1) \<Rightarrow> call op args d1))"

text \<open>\<^verbatim>\<open>print\<close>: \<open>json\<close> is \<^verbatim>\<open>json.Indent\<close> or \<^verbatim>\<open>json.Compact\<close>. An empty result prints nothing.\<close>

definition print_result :: "(string \<Rightarrow> (msg, string) res) \<Rightarrow> string \<Rightarrow> (msg, string) res" where
  "print_result json result =
     (if result = [] \<or> result = ''{}'' then Inr []
      else case json result of Inl err \<Rightarrow> Inl ((''malformed result: %w'', []) # err) | Inr b \<Rightarrow> Inr (b @ [CHR 0x0A]))"

subsection \<open>What the daemon does for it\<close>

text \<open>The daemon's decoders read back what the client encoded; a request without arguments carries none.\<close>

definition codec_agrees :: "call_codec \<Rightarrow> (call_args \<Rightarrow> string) \<Rightarrow> bool" where
  "codec_agrees D enc \<longleftrightarrow> enc NoArgs = [] \<and> decode_args (dc_none D) [] = Inr ()
     \<and> (\<forall>i b. decode_args (dc_decision D) (enc (DecisionArgs i b)) = Inr (i, b))
     \<and> (\<forall>l. decode_args (dc_streams D) (enc (StreamsArgs l)) = Inr l)
     \<and> (\<forall>g p. decode_args (dc_select D) (enc (SelectArgs g p)) = Inr (g, p))
     \<and> (\<forall>g ps. decode_args (dc_delay D) (enc (DelayArgs g ps)) = Inr (g, ps))
     \<and> (\<forall>b ids. decode_args (dc_close D) (enc (CloseArgs b ids)) = Inr (b, ids))
     \<and> (\<forall>u. decode_args (dc_url D) (enc (URLArgs u)) = Inr u)
     \<and> (\<forall>n. decode_args (dc_name D) (enc (NameArgs n)) = Inr n)"

text \<open>What the help of each command says it does.\<close>

definition promised ::
  "'w call_env \<Rightarrow> nat \<Rightarrow> bool \<Rightarrow> string option \<Rightarrow> string \<Rightarrow> string list \<Rightarrow> server \<Rightarrow> 'w \<Rightarrow> (perr, answer) res \<times> server \<times> 'w" where
  "promised K i everything stdin name rest s w =
     (let E = ca_env K
      in if name = ''status'' then (Inr (AReply (RStatus (status_of E s w))), s, w)
         else if name = ''start'' then replying (start E s w)
         else if name = ''stop'' then replying (stop E s w)
         else if name = ''egress'' then egress K s w
         else if name = ''rule list'' then (Inr (ARules (rule_listing (sv_settings s) (sv_profile s))), s, w)
         else if name = ''sub list'' then (Inr (ASubscriptions (subscriptionList s)), s, w)
         else if name = ''sub add'' then replying (addSubscription E (trim_space (take 8192 (the stdin))) s w)
         else if name = ''sub update'' then replying (updateSubscription E (hd rest) s w)
         else if name = ''sub activate'' then replying (activateSubscription E (hd rest) s w)
         else if name = ''sub remove'' then replying (removeSubscription E (hd rest) s w)
         else if name = ''download list'' then (Inr (ADownloads (downloadList s)), s, w)
         else if name = ''download allow'' then decide K (hd rest, True) s w
         else if name = ''download deny'' then decide K (hd rest, False) s w
         else if name = ''group list'' then (case e_groups E w of Inl err \<Rightarrow> (Inl (coreError err), s, w) | Inr gs \<Rightarrow> (Inr (AGroups gs), s, w))
         else if name = ''group select'' then replying (selectProxy E (hd rest) (hd (tl rest)) s w)
         else if name = ''group test'' then testDelay K (hd rest) (tl rest) s w
         else if name = ''conn list'' then listConnections K s w
         else closeConnections K everything rest s w)"

lemma promised_names:
  "promised K i everything stdin ''status'' rest s w = (Inr (AReply (RStatus (status_of (ca_env K) s w))), s, w)"
  "promised K i everything stdin ''start'' rest s w = replying (start (ca_env K) s w)"
  "promised K i everything stdin ''stop'' rest s w = replying (stop (ca_env K) s w)"
  "promised K i everything stdin ''egress'' rest s w = egress K s w"
  "promised K i everything stdin ''rule list'' rest s w = (Inr (ARules (rule_listing (sv_settings s) (sv_profile s))), s, w)"
  "promised K i everything stdin ''sub list'' rest s w = (Inr (ASubscriptions (subscriptionList s)), s, w)"
  "promised K i everything stdin ''sub add'' rest s w = replying (addSubscription (ca_env K) (trim_space (take 8192 (the stdin))) s w)"
  "promised K i everything stdin ''sub update'' rest s w = replying (updateSubscription (ca_env K) (hd rest) s w)"
  "promised K i everything stdin ''sub activate'' rest s w = replying (activateSubscription (ca_env K) (hd rest) s w)"
  "promised K i everything stdin ''sub remove'' rest s w = replying (removeSubscription (ca_env K) (hd rest) s w)"
  "promised K i everything stdin ''download list'' rest s w = (Inr (ADownloads (downloadList s)), s, w)"
  "promised K i everything stdin ''download allow'' rest s w = decide K (hd rest, True) s w"
  "promised K i everything stdin ''download deny'' rest s w = decide K (hd rest, False) s w"
  "promised K i everything stdin ''group list'' rest s w = (case e_groups (ca_env K) w of Inl err \<Rightarrow> (Inl (coreError err), s, w) | Inr gs \<Rightarrow> (Inr (AGroups gs), s, w))"
  "promised K i everything stdin ''group select'' rest s w = replying (selectProxy (ca_env K) (hd rest) (hd (tl rest)) s w)"
  "promised K i everything stdin ''group test'' rest s w = testDelay K (hd rest) (tl rest) s w"
  "promised K i everything stdin ''conn list'' rest s w = listConnections K s w"
  "promised K i everything stdin ''conn close'' rest s w = closeConnections K everything rest s w"
  by (simp_all add: promised_def Let_def)

lemma nargs_Inr: "nargs name n op f rest = Inr x \<longleftrightarrow> length rest = n \<and> x = (op, f rest)"
  by (auto simp: nargs_def)

lemma sub_add_Inr: "sub_add stdin rest = Inr x \<longleftrightarrow> rest = [] \<and> (\<exists>url. readURL stdin = Inr url \<and> x = (OpSubscriptionAdd, URLArgs url))"
  by (auto simp: sub_add_def split: sum.splits)

lemma readURL_Inr: "readURL stdin = Inr url \<Longrightarrow> url = trim_space (take 8192 (the stdin)) \<and> stdin \<noteq> None \<and> url \<noteq> []"
  by (auto simp: readURL_def Let_def split: option.splits if_splits)

lemma group_test_Inr: "group_test rest = Inr x \<longleftrightarrow> rest \<noteq> [] \<and> x = (OpDelayTest, DelayArgs (hd rest) (tl rest))"
  by (cases rest) (auto simp: group_test_def)

lemma close_request_Inr: "close_request everything rest = Inr x \<longleftrightarrow> everything \<noteq> (rest \<noteq> []) \<and> x = (OpCloseConnections, CloseArgs everything rest)"
  by (auto simp: close_request_def conn_close_def)

lemmas request_facts = nargs_Inr sub_add_Inr group_test_Inr close_request_Inr

lemmas command_lists = rootCommand_def subCommand_def groupCommand_def connCommand_def downloadCommand_def

text \<open>What \<open>handle\<close> does for each operation.\<close>

lemma handle_ops:
  "handle K i OpDownloads raw s w = with_args (dc_none (ca_codec K)) raw s w (\<lambda>_. (Inr (ADownloads (downloadList s)), s, w))"
  "handle K i OpDownloadDecision raw s w = with_args (dc_decision (ca_codec K)) raw s w (\<lambda>a. decide K a s w)"
  "handle K i OpStatus raw s w = with_args (dc_none (ca_codec K)) raw s w (\<lambda>_. (Inr (AReply (RStatus (status_of (ca_env K) s w))), s, w))"
  "handle K i OpStart raw s w = with_args (dc_none (ca_codec K)) raw s w (\<lambda>_. replying (start (ca_env K) s w))"
  "handle K i OpStop raw s w = with_args (dc_none (ca_codec K)) raw s w (\<lambda>_. replying (stop (ca_env K) s w))"
  "handle K i OpGroups raw s w = with_args (dc_none (ca_codec K)) raw s w (\<lambda>_. case e_groups (ca_env K) w of
     Inl err \<Rightarrow> (Inl (coreError err), s, w) | Inr gs \<Rightarrow> (Inr (AGroups gs), s, w))"
  "handle K i OpSelect raw s w = with_args (dc_select (ca_codec K)) raw s w (\<lambda>a. replying (selectProxy (ca_env K) (fst a) (snd a) s w))"
  "handle K i OpDelayTest raw s w = with_args (dc_delay (ca_codec K)) raw s w (\<lambda>a. testDelay K (fst a) (snd a) s w)"
  "handle K i OpRules raw s w = with_args (dc_none (ca_codec K)) raw s w
     (\<lambda>_. (Inr (ARules (rule_listing (sv_settings s) (sv_profile s))), s, w))"
  "handle K i OpConnections raw s w = with_args (dc_none (ca_codec K)) raw s w (\<lambda>_. listConnections K s w)"
  "handle K i OpCloseConnections raw s w = with_args (dc_close (ca_codec K)) raw s w (\<lambda>a. closeConnections K (fst a) (snd a) s w)"
  "handle K i OpEgress raw s w = with_args (dc_none (ca_codec K)) raw s w (\<lambda>_. egress K s w)"
  "handle K i OpSubscriptions raw s w = with_args (dc_none (ca_codec K)) raw s w (\<lambda>_. (Inr (ASubscriptions (subscriptionList s)), s, w))"
  "handle K i OpSubscriptionAdd raw s w = with_args (dc_url (ca_codec K)) raw s w (\<lambda>url. replying (addSubscription (ca_env K) url s w))"
  "handle K i OpSubscriptionUpdate raw s w = with_args (dc_name (ca_codec K)) raw s w (\<lambda>n. replying (updateSubscription (ca_env K) n s w))"
  "handle K i OpSubscriptionUse raw s w = with_args (dc_name (ca_codec K)) raw s w (\<lambda>n. replying (activateSubscription (ca_env K) n s w))"
  "handle K i OpSubscriptionRemove raw s w = with_args (dc_name (ca_codec K)) raw s w (\<lambda>n. replying (removeSubscription (ca_env K) n s w))"
  by (simp_all add: handle_def op_defs Let_def)

text \<open>C21: a command does what its help says. Every command line that is not refused as misused asks the daemon for an operation it
  knows, and the daemon's answer and its state after the call are those of that operation on the arguments given: the name
  of the subscription, the URL on stdin without the space around it, the group and the proxies, the connections or all of
  them, the download and whether it may go out.\<close>

theorem commands_perform:
  assumes "cli_request everything stdin name rest = Some (Inr (op, a))" "codec_agrees (ca_codec K) enc"
  shows "handle K i op (enc a) s w = promised K i everything stdin name rest s w"
proof -
  have c: "enc NoArgs = []" "decode_args (dc_none (ca_codec K)) [] = Inr ()"
     "\<And>i b. decode_args (dc_decision (ca_codec K)) (enc (DecisionArgs i b)) = Inr (i, b)"
     "\<And>g p. decode_args (dc_select (ca_codec K)) (enc (SelectArgs g p)) = Inr (g, p)"
     "\<And>g ps. decode_args (dc_delay (ca_codec K)) (enc (DelayArgs g ps)) = Inr (g, ps)"
     "\<And>b ids. decode_args (dc_close (ca_codec K)) (enc (CloseArgs b ids)) = Inr (b, ids)"
     "\<And>u. decode_args (dc_url (ca_codec K)) (enc (URLArgs u)) = Inr u"
     "\<And>n. decode_args (dc_name (ca_codec K)) (enc (NameArgs n)) = Inr n"
    using assms(2) by (simp_all add: codec_agrees_def)
  obtain req where m: "(name, req) \<in> set (rootCommand @ subCommand stdin @ downloadCommand @ groupCommand @ connCommand everything)"
      and r: "req rest = Inr (op, a)"
    using assms(1) by (auto simp: cli_request_def dest!: map_of_SomeD)
  have args: "length rest = Suc 0 \<Longrightarrow> rest ! 0 = hd rest" "length rest = 2 \<Longrightarrow> rest ! 0 = hd rest \<and> rest ! Suc 0 = hd (tl rest)"
    by (cases rest; simp) (cases rest; cases "tl rest"; simp)
  from m consider "(name, req) \<in> set rootCommand" | "(name, req) \<in> set (subCommand stdin)" | "(name, req) \<in> set downloadCommand"
    | "(name, req) \<in> set groupCommand" | "(name, req) \<in> set (connCommand everything)" by auto
  then show ?thesis
  proof cases
    case 1
    then show ?thesis using r
      by (auto simp: rootCommand_def nargs_Inr handle_ops promised_names with_args_def c none_def)
  next
    case 2
    show ?thesis
    proof (cases "name = ''sub add''")
      case True
      then have "req = sub_add stdin" using 2 by (simp add: subCommand_def)
      then obtain url where u: "readURL stdin = Inr url" "op = OpSubscriptionAdd" "a = URLArgs url" using r by (auto simp: sub_add_Inr)
      then show ?thesis using True readURL_Inr[OF u(1)] by (simp add: handle_ops promised_names with_args_def c Let_def)
    next
      case False
      then show ?thesis using 2 r args
        by (auto simp: subCommand_def nargs_Inr handle_ops promised_names with_args_def c none_def by_name_def)
    qed
  next
    case 3
    then show ?thesis using r args
      by (auto simp: downloadCommand_def request_facts handle_ops promised_names with_args_def c none_def decision_def)
  next
    case 4
    then show ?thesis using r args
      by (auto simp: groupCommand_def request_facts handle_ops promised_names with_args_def c none_def)
  next
    case 5
    then show ?thesis using r
      by (auto simp: connCommand_def request_facts handle_ops promised_names with_args_def c none_def)
  qed
qed


subsection \<open>A codec that agrees\<close>

text \<open>Strings and lists of them with marked elements.\<close>

definition enc_str :: "string \<Rightarrow> string" where
  "enc_str t = concat (map (\<lambda>c. [CHR ''c'', c]) t) @ ''e''"

fun dec_str :: "string \<Rightarrow> string \<times> string" where
  "dec_str (m # c # r) = (if m = CHR ''c'' then apfst ((#) c) (dec_str r) else ([], c # r))"
| "dec_str r = ([], [])"

lemma dec_enc_str: "dec_str (enc_str t @ r) = (t, r)"
proof (induction t)
  case Nil
  then show ?case by (cases r) (auto simp: enc_str_def)
qed (simp add: enc_str_def)

definition enc_list :: "string list \<Rightarrow> string" where
  "enc_list l = concat (map (\<lambda>t. CHR ''l'' # enc_str t) l) @ ''z''"

fun dec_list :: "nat \<Rightarrow> string \<Rightarrow> string list" where
  "dec_list (Suc n) (m # r) = (if m = CHR ''l'' then (case dec_str r of (t, r1) \<Rightarrow> t # dec_list n r1) else [])"
| "dec_list _ _ = []"

lemma dec_enc_list: "length (enc_list l) \<le> n \<Longrightarrow> dec_list n (enc_list l) = l"
proof (induction l arbitrary: n)
  case Nil
  then show ?case by (cases n) (simp_all add: enc_list_def)
next
  case (Cons t l)
  have e: "enc_list (t # l) = CHR ''l'' # enc_str t @ enc_list l" by (simp add: enc_list_def)
  with Cons.prems obtain k where k: "n = Suc k" by (cases n) auto
  with Cons.prems e have "length (enc_list l) \<le> k" by simp
  with Cons.IH show ?case by (simp add: k e dec_enc_str)
qed

definition dec_all :: "string \<Rightarrow> string list" where "dec_all r = dec_list (length r) r"

lemma dec_all_enc: "dec_all (enc_list l) = l"
  by (simp add: dec_all_def dec_enc_list)

fun plain_args :: "call_args \<Rightarrow> string" where
  "plain_args NoArgs = []"
| "plain_args (DecisionArgs i b) = enc_list [i, if b then ''t'' else []]"
| "plain_args (StreamsArgs l) = enc_list l"
| "plain_args (SelectArgs g p) = enc_list [g, p]"
| "plain_args (DelayArgs g ps) = enc_list (g # ps)"
| "plain_args (CloseArgs b ids) = enc_list ((if b then ''t'' else []) # ids)"
| "plain_args (URLArgs u) = enc_list [u]"
| "plain_args (NameArgs n) = enc_list [n]"

definition of_list :: "(string list \<Rightarrow> 'v) \<Rightarrow> 'v decoder" where
  "of_list f r = Inr (f (dec_all r), [])"

definition plain_codec :: call_codec where
  "plain_codec = \<lparr>dc_request = (\<lambda>_. Inl []), dc_id = (\<lambda>_. None), dc_none = (\<lambda>_. Inr ((), [])),
     dc_decision = of_list (\<lambda>l. (l ! 0, l ! 1 \<noteq> [])), dc_streams = of_list id, dc_apply = (\<lambda>_. Inl []),
     dc_select = of_list (\<lambda>l. (l ! 0, l ! 1)), dc_delay = of_list (\<lambda>l. (hd l, tl l)), dc_close = of_list (\<lambda>l. (hd l \<noteq> [], tl l)),
     dc_url = of_list hd, dc_name = of_list hd\<rparr>"

lemma enc_list_marked: "enc_list l \<noteq> []" "enc_list l \<noteq> ''null''"
  by (cases l; simp add: enc_list_def)+

lemma decode_of_list: "decode_args (of_list f) (enc_list l) = Inr (f l)"
  using enc_list_marked[of l] by (simp add: decode_args_def Decode_def of_list_def dec_all_enc)

lemma plain_codec_agrees: "codec_agrees plain_codec plain_args"
  by (simp add: codec_agrees_def plain_codec_def decode_of_list) (simp add: decode_args_def Decode_def)

lemma commands_perform_witness:
  "cli_request False None ''group select'' [''work'', ''tokyo''] = Some (Inr (OpSelect, SelectArgs ''work'' ''tokyo''))
   \<and> (\<forall>K s w. handle (K\<lparr>ca_codec := plain_codec\<rparr>) 0 OpSelect (plain_args (SelectArgs ''work'' ''tokyo'')) s w
     = replying (selectProxy (ca_env K) ''work'' ''tokyo'' s w))"
proof -
  have r: "cli_request False None ''group select'' [''work'', ''tokyo''] = Some (Inr (OpSelect, SelectArgs ''work'' ''tokyo''))"
    by (simp add: cli_request_def command_lists nargs_def)
  have "handle (K\<lparr>ca_codec := plain_codec\<rparr>) 0 OpSelect (plain_args (SelectArgs ''work'' ''tokyo'')) s w
     = replying (selectProxy (ca_env K) ''work'' ''tokyo'' s w)" for K :: "'a call_env" and s w
    using commands_perform[OF r, of "K\<lparr>ca_codec := plain_codec\<rparr>" plain_args 0 s w] plain_codec_agrees by (simp add: promised_names)
  with r show ?thesis by blast
qed

end
