(* ===== verification/Client.thy ===== *)
theory Client
  imports Requests "HOL-Library.Sublist"
begin

text \<open>
  The owner's end of the connection: \<^verbatim>\<open>internal/client\<close>. \<^verbatim>\<open>Dial\<close> reads the greeting; then a goroutine reads what the daemon
  sends, and any number of \<^verbatim>\<open>Call\<close>s wait for their replies. Each step of \<open>client_step\<close> is what one of them does between two
  accesses of shared state. Identifiers count from one and are natural numbers: \<open>2 ^ 64\<close> calls are not made on one connection.
\<close>

subsection \<open>The greeting\<close>

record envelope =
  en_type :: string
  en_protocol :: nat
  en_version :: string
  en_id :: nat
  en_result :: string
  en_error :: "perr option"
  en_stream :: string
  en_data :: string

definition TypeHello :: string where "TypeHello = ''hello''"
definition TypeRefused :: string where "TypeRefused = ''refused''"
definition TypeReply :: string where "TypeReply = ''reply''"
definition TypeEvent :: string where "TypeEvent = ''event''"

lemmas type_defs = TypeHello_def TypeRefused_def TypeReply_def TypeEvent_def

definition ErrClosed :: msg where "ErrClosed = [(''the connection to the daemon closed'', [])]"

definition VersionMismatch :: "nat \<Rightarrow> msg" where
  "VersionMismatch daemon = [(''the daemon speaks protocol %d and this client %d; update the core'', [itoa_nat daemon, itoa_nat protocolVersion])]"

text \<open>\<^verbatim>\<open>read\<close>: the next line, if there is one, decoded.\<close>

definition read_message :: "(string \<Rightarrow> (msg, envelope) res) \<Rightarrow> (msg option, string) res \<Rightarrow> (msg, envelope) res" where
  "read_message dec line =
     (case line of
        Inl None \<Rightarrow> Inl ErrClosed
      | Inl (Some err) \<Rightarrow> Inl err
      | Inr l \<Rightarrow> (case dec l of Inl err \<Rightarrow> Inl ((''malformed message from the daemon: %w'', []) # err) | Inr env \<Rightarrow> Inr env))"

definition Dial :: "string \<Rightarrow> msg option \<Rightarrow> msg option \<Rightarrow> (msg, envelope) res \<Rightarrow> (dial_error, nat \<times> string) res" where
  "Dial path connect cancelled greeting =
     (case connect of
        Some err \<Rightarrow> Inl (DialFailed ((''connect to %s: %w'', [path]) # err))
      | None \<Rightarrow>
     (case cancelled of
        Some err \<Rightarrow> Inl (DialFailed ((''read the daemon's greeting: %w'', []) # err))
      | None \<Rightarrow>
     (case greeting of
        Inl err \<Rightarrow> Inl (DialFailed ((''read the daemon's greeting: %w'', []) # err))
      | Inr env \<Rightarrow>
          if en_type env = TypeRefused
          then Inl (DialRefused (case en_error env of None \<Rightarrow> fail CodeForbidden ''the daemon refused this client'' [] | Some e \<Rightarrow> e))
          else if en_type env \<noteq> TypeHello then Inl (DialFailed [(''unexpected greeting %q'', [en_type env])])
          else if en_protocol env \<noteq> protocolVersion then Inl (DialVersion (VersionMismatch (en_protocol env)))
          else Inr (en_protocol env, en_version env))))"

subsection \<open>Calls and events\<close>

datatype outcome = Got envelope | Lost msg

datatype call_phase = Registered | Sent | Ended outcome

text \<open>\<open>cc_slot\<close>: what lies in the channels of the calls. \<open>cc_read\<close>, \<open>cc_wrote\<close> and \<open>cc_seen\<close> are what was read from the daemon, whose
  requests were written to it and which events the reader has taken.\<close>

record client_conn =
  cc_next :: nat
  cc_pending :: "nat set"
  cc_slot :: "nat \<Rightarrow> envelope option"
  cc_calls :: "nat \<Rightarrow> call_phase option"
  cc_events :: "envelope list"
  cc_reading :: bool
  cc_closed :: bool
  cc_read :: "envelope list"
  cc_wrote :: "nat list"
  cc_seen :: "envelope list"

definition connected :: client_conn where
  "connected = \<lparr>cc_next = 0, cc_pending = {}, cc_slot = (\<lambda>_. None), cc_calls = (\<lambda>_. None), cc_events = [], cc_reading = True,
     cc_closed = False, cc_read = [], cc_wrote = [], cc_seen = []\<rparr>"

definition eventQueue :: nat where "eventQueue = 256"

definition Close :: "client_conn \<Rightarrow> client_conn" where
  "Close c = c\<lparr>cc_closed := True\<rparr>"

text \<open>One turn of \<^verbatim>\<open>readLoop\<close>.\<close>

definition readLoop :: "(msg, envelope) res \<Rightarrow> client_conn \<Rightarrow> client_conn" where
  "readLoop r c =
     (case r of
        Inl _ \<Rightarrow> Close (c\<lparr>cc_reading := False\<rparr>)
      | Inr env \<Rightarrow>
          let c1 = c\<lparr>cc_read := cc_read c @ [env]\<rparr>
          in if en_type env = TypeReply
             then (if en_id env \<in> cc_pending c1
                   then c1\<lparr>cc_slot := (cc_slot c1)(en_id env \<mapsto> env), cc_pending := cc_pending c1 - {en_id env}\<rparr> else c1)
             else if en_type env = TypeEvent
             then (if length (cc_events c1) < eventQueue then c1\<lparr>cc_events := cc_events c1 @ [env]\<rparr>
                   else Close (c1\<lparr>cc_reading := False\<rparr>))
             else c1)"

definition register :: "client_conn \<Rightarrow> client_conn" where
  "register c = c\<lparr>cc_next := Suc (cc_next c), cc_pending := insert (Suc (cc_next c)) (cc_pending c),
     cc_calls := (cc_calls c)(Suc (cc_next c) \<mapsto> Registered)\<rparr>"

definition end_call :: "nat \<Rightarrow> outcome \<Rightarrow> client_conn \<Rightarrow> client_conn" where
  "end_call i out c = c\<lparr>cc_calls := (cc_calls c)(i \<mapsto> Ended out), cc_pending := cc_pending c - {i}\<rparr>"

text \<open>A request that does not encode, or a call cancelled before its request is written, writes nothing.\<close>

datatype send_result = Wrote | NotEncoded msg | Cancelled msg | NotWritten msg

definition send_request :: "string \<Rightarrow> nat \<Rightarrow> send_result \<Rightarrow> client_conn \<Rightarrow> client_conn" where
  "send_request op i r c =
     (case r of
        Wrote \<Rightarrow> c\<lparr>cc_calls := (cc_calls c)(i \<mapsto> Sent), cc_wrote := cc_wrote c @ [i]\<rparr>
      | NotEncoded err \<Rightarrow> end_call i (Lost ((''encode %s request: %w'', [op]) # err)) c
      | Cancelled err \<Rightarrow> end_call i (Lost ((''%s: %w'', [op]) # err)) c
      | NotWritten err \<Rightarrow> end_call i (Lost ((''send %s request: %w'', [op]) # err)) c)"

text \<open>What ends the wait: the reply, the caller, or the end of the connection, if the reply did not come just before it.\<close>

inductive client_step :: "client_conn \<Rightarrow> client_conn \<Rightarrow> bool" where
  step_register: "client_step c (register c)"
| step_send: "cc_calls c i = Some Registered \<Longrightarrow> client_step c (send_request op i r c)"
| step_reply: "cc_calls c i = Some Sent \<Longrightarrow> cc_slot c i = Some env \<Longrightarrow> client_step c (end_call i (Got env) c)"
| step_cancel: "cc_calls c i = Some Sent \<Longrightarrow> client_step c (end_call i (Lost ((''%s: %w'', [op]) # err)) c)"
| step_closed: "cc_calls c i = Some Sent \<Longrightarrow> cc_closed c \<Longrightarrow> cc_slot c i = None \<Longrightarrow>
    client_step c (end_call i (Lost ((''%s: %w'', [op]) # ErrClosed)) c)"
| step_read: "cc_reading c \<Longrightarrow> client_step c (readLoop r c)"
| step_event: "cc_events c = e # es \<Longrightarrow> client_step c (c\<lparr>cc_events := es, cc_seen := cc_seen c @ [e]\<rparr>)"
| step_close: "client_step c (Close c)"

inductive_cases client_stepE: "client_step c c'"

text \<open>The end of \<^verbatim>\<open>Call\<close>: the daemon's error or the result, decoded.\<close>

definition call_result :: "string \<Rightarrow> (string \<Rightarrow> (msg, 'v) res) \<Rightarrow> outcome \<Rightarrow> (cli_error, 'v) res" where
  "call_result op dec out =
     (case out of
        Lost err \<Rightarrow> Inl (PlainError err)
      | Got env \<Rightarrow>
          (case en_error env of
             Some e \<Rightarrow> Inl (CallError e)
           | None \<Rightarrow> (case dec (en_result env) of Inl err \<Rightarrow> Inl (PlainError ((''decode %s result: %w'', [op]) # err)) | Inr v \<Rightarrow> Inr v)))"

subsection \<open>Every reply to its call\<close>

definition waiting :: "call_phase option \<Rightarrow> bool" where
  "waiting p \<longleftrightarrow> p = Some Registered \<or> p = Some Sent"

definition is_event :: "envelope \<Rightarrow> bool" where
  "is_event env \<longleftrightarrow> en_type env = TypeEvent"

fun phase_ok :: "call_phase option \<Rightarrow> bool \<Rightarrow> bool \<Rightarrow> envelope option \<Rightarrow> bool \<Rightarrow> bool" where
  "phase_ok None known pend slot wrote \<longleftrightarrow> \<not> known \<and> \<not> pend \<and> slot = None \<and> \<not> wrote"
| "phase_ok (Some Registered) known pend slot wrote \<longleftrightarrow> known \<and> \<not> wrote"
| "phase_ok (Some Sent) known pend slot wrote \<longleftrightarrow> known \<and> wrote"
| "phase_ok (Some (Ended (Got env))) known pend slot wrote \<longleftrightarrow> known \<and> \<not> pend \<and> slot = Some env \<and> wrote"
| "phase_ok (Some (Ended (Lost _))) known pend slot wrote \<longleftrightarrow> known \<and> \<not> pend"

fun slot_ok :: "nat \<Rightarrow> envelope option \<Rightarrow> bool \<Rightarrow> envelope list \<Rightarrow> bool" where
  "slot_ok i None pend rd \<longleftrightarrow> True"
| "slot_ok i (Some env) pend rd \<longleftrightarrow> en_type env = TypeReply \<and> en_id env = i \<and> env \<in> set rd \<and> \<not> pend"

definition call_ok :: "client_conn \<Rightarrow> nat \<Rightarrow> bool" where
  "call_ok c i \<longleftrightarrow> phase_ok (cc_calls c i) (0 < i \<and> i \<le> cc_next c) (i \<in> cc_pending c) (cc_slot c i) (i \<in> set (cc_wrote c))
     \<and> slot_ok i (cc_slot c i) (i \<in> cc_pending c) (cc_read c)"

definition calls_ok :: "client_conn \<Rightarrow> bool" where
  "calls_ok c \<longleftrightarrow> (\<forall>i. call_ok c i) \<and> distinct (cc_wrote c)"

definition events_ok :: "client_conn \<Rightarrow> bool" where
  "events_ok c \<longleftrightarrow> length (cc_events c) \<le> eventQueue
     \<and> (if cc_reading c then cc_seen c @ cc_events c = filter is_event (cc_read c)
        else cc_closed c \<and> prefix (cc_seen c @ cc_events c) (filter is_event (cc_read c)))"

lemma connected_ok: "calls_ok connected" "events_ok connected"
  by (auto simp: calls_ok_def call_ok_def events_ok_def connected_def)

lemma slot_ok_more: "slot_ok i sl pend rd \<Longrightarrow> slot_ok i sl pend (rd @ rd1)"
  by (cases sl) auto

lemma slot_ok_done: "slot_ok i sl pend rd \<Longrightarrow> slot_ok i sl False rd"
  by (cases sl) auto

text \<open>A step changes what is held of one call; of the others it keeps it.\<close>

lemma call_ok_same:
  assumes "call_ok c j" "cc_calls c' j = cc_calls c j" "cc_slot c' j = cc_slot c j" "(j \<in> cc_pending c') = (j \<in> cc_pending c)"
    "(j \<in> set (cc_wrote c')) = (j \<in> set (cc_wrote c))" "cc_read c' = cc_read c @ rd1" "(j \<le> cc_next c') = (j \<le> cc_next c)"
  shows "call_ok c' j"
  using assms(1) slot_ok_more unfolding call_ok_def assms(2-7) by blast

lemma calls_ok_register: assumes "calls_ok c" shows "calls_ok (register c)"
proof -
  have "call_ok (register c) j" for j
  proof (cases "j = Suc (cc_next c)")
    case True
    have "call_ok c j" using assms by (simp add: calls_ok_def)
    then have "cc_calls c j = None" using True by (cases "cc_calls c j" rule: option.exhaust[case_names None Some])
        (simp, metis True call_ok_def call_phase.exhaust not_less_eq_eq outcome.exhaust phase_ok.simps(2-5) order_refl)
    with \<open>call_ok c j\<close> True show ?thesis by (simp add: call_ok_def register_def)
  next
    case False
    then show ?thesis using assms
      by - (rule call_ok_same[of c _ _ "[]"], simp_all add: calls_ok_def register_def, arith)
  qed
  then show ?thesis using assms by (simp add: calls_ok_def register_def)
qed

lemma calls_ok_end:
  assumes "calls_ok c" "waiting (cc_calls c i)" "case out of Lost _ \<Rightarrow> True | Got env \<Rightarrow> cc_calls c i = Some Sent \<and> cc_slot c i = Some env"
  shows "calls_ok (end_call i out c)"
proof -
  have "call_ok (end_call i out c) j" for j
  proof (cases "j = i")
    case True
    have "call_ok c i" using assms by (simp add: calls_ok_def)
    then show ?thesis using True assms(2,3) slot_ok_done
      by (cases out) (auto simp: call_ok_def end_call_def waiting_def)
  next
    case False
    then show ?thesis using assms by - (rule call_ok_same[of c _ _ "[]"], simp_all add: calls_ok_def end_call_def)
  qed
  then show ?thesis using assms by (simp add: calls_ok_def end_call_def)
qed

lemma calls_ok_send:
  assumes "calls_ok c" "cc_calls c i = Some Registered"
  shows "calls_ok (send_request op i r c)"
proof (cases r)
  case Wrote
  have i: "call_ok c i" using assms by (simp add: calls_ok_def)
  have "call_ok (send_request op i r c) j" for j
  proof (cases "j = i")
    case True
    with i assms(2) show ?thesis by (simp add: Wrote call_ok_def send_request_def)
  next
    case False
    then show ?thesis using assms by - (rule call_ok_same[of c _ _ "[]"], simp_all add: calls_ok_def send_request_def Wrote)
  qed
  moreover have "i \<notin> set (cc_wrote c)" using i assms(2) by (simp add: call_ok_def)
  ultimately show ?thesis using assms(1) by (simp add: calls_ok_def send_request_def Wrote)
qed (use assms in \<open>simp_all add: send_request_def waiting_def calls_ok_end\<close>)

lemma readLoop_keeps:
  "cc_wrote (readLoop r c) = cc_wrote c" "cc_calls (readLoop r c) = cc_calls c" "cc_next (readLoop r c) = cc_next c"
  "cc_read (readLoop r c) = cc_read c @ (case r of Inl _ \<Rightarrow> [] | Inr env \<Rightarrow> [env])"
  "\<not> (\<exists>env. r = Inr env \<and> en_type env = TypeReply \<and> en_id env = j \<and> j \<in> cc_pending c) \<Longrightarrow>
    cc_slot (readLoop r c) j = cc_slot c j \<and> (j \<in> cc_pending (readLoop r c) \<longleftrightarrow> j \<in> cc_pending c)"
  by (cases r; simp add: readLoop_def Close_def Let_def; fail)+ (cases r; auto simp: readLoop_def Close_def Let_def)

lemma pending_phase: "call_ok c j \<Longrightarrow> j \<in> cc_pending c \<Longrightarrow> waiting (cc_calls c j)"
  unfolding call_ok_def waiting_def
  by (cases "(cc_calls c j, 0 < j \<and> j \<le> cc_next c, True, cc_slot c j, j \<in> set (cc_wrote c))" rule: phase_ok.cases) auto

lemma calls_ok_read:
  assumes "calls_ok c"
  shows "calls_ok (readLoop r c)"
proof -
  have "call_ok (readLoop r c) j" for j
  proof (cases "\<exists>env. r = Inr env \<and> en_type env = TypeReply \<and> en_id env = j \<and> j \<in> cc_pending c")
    case True
    then obtain env where e: "r = Inr env" "en_type env = TypeReply" "en_id env = j" "j \<in> cc_pending c" by blast
    have ok: "call_ok c j" using assms by (simp add: calls_ok_def)
    have "cc_slot (readLoop r c) j = Some env" "j \<notin> cc_pending (readLoop r c)" using e by (simp_all add: readLoop_def Let_def)
    with ok e pending_phase[OF ok e(4)] show ?thesis by (auto simp: call_ok_def waiting_def readLoop_keeps)
  next
    case False
    from readLoop_keeps(5)[OF this] show ?thesis using assms
      by - (rule call_ok_same[of c], simp_all add: calls_ok_def readLoop_keeps(1-4))
  qed
  then show ?thesis using assms by (simp add: calls_ok_def readLoop_keeps)
qed

lemma calls_ok_cong:
  "calls_ok (c\<lparr>cc_events := es, cc_seen := ss\<rparr>) = calls_ok c" "calls_ok (Close c) = calls_ok c"
  by (simp_all add: calls_ok_def call_ok_def Close_def)

lemma calls_ok_step: "client_step c c' \<Longrightarrow> calls_ok c \<Longrightarrow> calls_ok c'"
  by (elim client_stepE) (simp_all add: calls_ok_cong waiting_def calls_ok_register calls_ok_send calls_ok_read calls_ok_end)

lemma events_ok_unchanged:
  "events_ok (register c) = events_ok c" "events_ok (end_call i out c) = events_ok c" "events_ok (send_request op i r c) = events_ok c"
  by (auto simp: events_ok_def register_def end_call_def send_request_def split: send_result.split)

lemma events_ok_read: "events_ok c \<Longrightarrow> cc_reading c \<Longrightarrow> events_ok (readLoop r c)"
  by (auto simp: readLoop_def Close_def Let_def events_ok_def is_event_def type_defs split: sum.split)

lemma events_ok_step: "client_step c c' \<Longrightarrow> events_ok c \<Longrightarrow> events_ok c'"
  by (elim client_stepE) (auto simp: events_ok_unchanged intro: events_ok_read, auto simp: events_ok_def Close_def)

lemma client_reachable_ok: "client_step\<^sup>*\<^sup>* connected c \<Longrightarrow> calls_ok c \<and> events_ok c"
  by (induction rule: rtranclp_induct) (auto simp: connected_ok intro: calls_ok_step events_ok_step)

text \<open>C22: every call gets its own answer. In every state a connection reaches, whatever the daemon sends, a call that ended with an answer
  ended with a reply that was read from the daemon and carries that call's identifier, and its request was written exactly once; the
  events come to the reader in the order they were sent and with none left out, at most 256 of them waiting, and if the reader
  falls further behind the connection ends; and on a connection that has ended no call waits on: the reply that came in time, or
  the end of the connection, ends it.\<close>

theorem client_calls_matched:
  assumes "client_step\<^sup>*\<^sup>* connected c"
  shows "(\<forall>i env. cc_calls c i = Some (Ended (Got env)) \<longrightarrow> en_type env = TypeReply \<and> en_id env = i \<and> env \<in> set (cc_read c)
        \<and> count_list (cc_wrote c) i = 1)
    \<and> length (cc_events c) \<le> 256 \<and> prefix (cc_seen c @ cc_events c) (filter is_event (cc_read c))
    \<and> (\<not> cc_closed c \<longrightarrow> cc_seen c @ cc_events c = filter is_event (cc_read c))
    \<and> (cc_closed c \<longrightarrow> (\<forall>i. cc_calls c i = Some Sent \<longrightarrow> (\<exists>out. client_step c (end_call i out c)
          \<and> (case cc_slot c i of Some env \<Rightarrow> out = Got env | None \<Rightarrow> \<exists>m. out = Lost m))))"
proof -
  have ok: "calls_ok c" "events_ok c" using client_reachable_ok[OF assms] by auto
  have once: "count_list (cc_wrote c) i = 1" if "i \<in> set (cc_wrote c)" for i
    using ok(1) that by (auto simp: calls_ok_def count_list_0_iff dest!: split_list)
  have got: "en_type env = TypeReply \<and> en_id env = i \<and> env \<in> set (cc_read c) \<and> count_list (cc_wrote c) i = 1"
    if "cc_calls c i = Some (Ended (Got env))" for i env
  proof -
    have "call_ok c i" using ok(1) by (simp add: calls_ok_def)
    then show ?thesis using that once[of i] by (auto simp: call_ok_def)
  qed
  have ends: "\<exists>out. client_step c (end_call i out c) \<and> (case cc_slot c i of Some env \<Rightarrow> out = Got env | None \<Rightarrow> \<exists>m. out = Lost m)"
    if "cc_closed c" "cc_calls c i = Some Sent" for i
    using that by (cases "cc_slot c i") (auto intro: client_step.intros)
  show ?thesis using got ends ok(2) by (auto simp: events_ok_def eventQueue_def split: if_splits)
qed


subsection \<open>A call\<close>

definition demo_reply :: envelope where
  "demo_reply = \<lparr>en_type = TypeReply, en_protocol = 0, en_version = [], en_id = 1, en_result = ''{}'', en_error = None, en_stream = [], en_data = []\<rparr>"

definition demo_call :: client_conn where
  "demo_call = end_call 1 (Got demo_reply) (readLoop (Inr demo_reply) (send_request ''start'' 1 Wrote (register connected)))"

lemma demo_call_reached: "client_step\<^sup>*\<^sup>* connected demo_call"
proof -
  let ?a = "register connected" let ?b = "send_request ''start'' 1 Wrote ?a" let ?c = "readLoop (Inr demo_reply) ?b"
  have 1: "client_step connected ?a" by (rule step_register)
  have 2: "client_step ?a ?b" by (rule step_send) (simp add: register_def connected_def)
  have 3: "client_step ?b ?c" by (rule step_read) (simp add: register_def connected_def send_request_def)
  have 4: "client_step ?c demo_call"
  proof -
    have c: "?c = \<lparr>cc_next = 1, cc_pending = {}, cc_slot = (\<lambda>_. None)(1 \<mapsto> demo_reply), cc_calls = (\<lambda>_. None)(1 \<mapsto> Sent), cc_events = [],
        cc_reading = True, cc_closed = False, cc_read = [demo_reply], cc_wrote = [1], cc_seen = []\<rparr>"
      by (simp add: readLoop_def Let_def demo_reply_def register_def connected_def send_request_def)
    show ?thesis unfolding demo_call_def by (rule step_reply) (unfold c, simp_all)
  qed
  note step = rtranclp.rtrancl_into_rtrancl[of client_step]
  show ?thesis by (rule step[OF _ 4], rule step[OF _ 3], rule step[OF _ 2], rule step[OF _ 1], rule rtranclp.rtrancl_refl)
qed

lemma client_calls_matched_witness:
  "cc_calls demo_call 1 = Some (Ended (Got demo_reply)) \<and> en_id demo_reply = 1 \<and> count_list (cc_wrote demo_call) 1 = 1"
proof -
  have "cc_calls demo_call 1 = Some (Ended (Got demo_reply))" by (simp add: demo_call_def end_call_def)
  with client_calls_matched[OF demo_call_reached] show ?thesis by blast
qed

end
