(* ===== verification/Tailscale.thy ===== *)
theory Tailscale
  imports Ownership
begin

text \<open>
  \<^verbatim>\<open>internal/tailscale\<close>: the drop-in that gives tailscaled the proxy. The file, what \<^verbatim>\<open>systemctl\<close> does to the world and the faults
  of the file system are the state and the parameters; the directory is checked as the one of the socket is (\<open>private_directory\<close>).
\<close>

definition newline :: string where "newline = [CHR 0x0A]"

definition ts_content :: string where
  "ts_content = ''[Service]'' @ newline @ ''Environment=HTTP_PROXY=http://127.0.0.1:7899'' @ newline
     @ ''Environment=HTTPS_PROXY=http://127.0.0.1:7899'' @ newline
     @ ''Environment=NO_PROXY=localhost,127.0.0.1,::1,100.64.0.0/10,fd7a:115c:a1e0::/48'' @ newline"

definition maxDropIn :: nat where "maxDropIn = 65536"

text \<open>\<open>sy_change\<close> is an error of writing or removing the file, \<open>sy_restore\<close> one of putting the old one back.\<close>

record 'w sync_env =
  sy_euid :: nat
  sy_dir :: path_entry
  sy_open :: "msg option"
  sy_change :: "msg option"
  sy_restore :: "msg option"
  sy_run :: "string list \<Rightarrow> 'w \<Rightarrow> msg option \<times> 'w"

text \<open>\<^verbatim>\<open>read\<close>: \<open>Inl None\<close> is \<^verbatim>\<open>fs.ErrNotExist\<close>; a link is not followed.\<close>

definition ts_read :: "path_entry \<Rightarrow> (msg option, string) res" where
  "ts_read p =
     (case p of
        Nothing \<Rightarrow> Inl None
      | Closed err \<Rightarrow> Inl (Some err)
      | Node f \<Rightarrow>
          if nd_kind f \<noteq> Regular \<or> length (nd_data f) > maxDropIn
          then Inl (Some [(''Tailscale drop-in must be a regular file under 64 KiB'', [])]) else Inr (nd_data f))"

text \<open>\<^verbatim>\<open>write\<close> renames a file of its own over the old one.\<close>

definition ts_write :: "nat \<Rightarrow> msg option \<Rightarrow> string \<Rightarrow> path_entry \<Rightarrow> msg option \<times> path_entry" where
  "ts_write euid fault dat p =
     (case fault of
        Some err \<Rightarrow> (Some err, p)
      | None \<Rightarrow> (None, Node \<lparr>nd_kind = Regular, nd_uid = euid, nd_mode = 384, nd_data = dat\<rparr>))"

definition ts_remove :: "msg option \<Rightarrow> path_entry \<Rightarrow> msg option \<times> path_entry" where
  "ts_remove fault p = (case fault of Some err \<Rightarrow> (Some err, p) | None \<Rightarrow> (None, Nothing))"

definition ts_reload :: "string list list" where
  "ts_reload = [[''daemon-reload''], [''try-restart'', ''tailscaled.service'']]"

text \<open>The old file back, and tailscaled told of it, whatever fails in between.\<close>

definition ts_undo :: "'w sync_env \<Rightarrow> string option \<Rightarrow> path_entry \<times> 'w \<Rightarrow> path_entry \<times> 'w" where
  "ts_undo Y previous st =
     (case st of (p, w) \<Rightarrow>
        (snd (case previous of None \<Rightarrow> ts_remove (sy_restore Y) p | Some dat \<Rightarrow> ts_write (sy_euid Y) (sy_restore Y) dat p),
         fold (\<lambda>c w. snd (sy_run Y c w)) ts_reload w))"

definition ts_change :: "'w sync_env \<Rightarrow> bool \<Rightarrow> string option \<Rightarrow> path_entry \<times> 'w \<Rightarrow> msg option \<times> path_entry \<times> 'w" where
  "ts_change Y enabled previous st =
     (case st of (p, w) \<Rightarrow>
        (case (if enabled then ts_write (sy_euid Y) (sy_change Y) ts_content p else ts_remove (sy_change Y) p) of
           (Some err, p1) \<Rightarrow> (Some err, p1, w)
         | (None, p1) \<Rightarrow>
             (case in_order (sy_run Y) ts_reload w of
                (None, w1) \<Rightarrow> (None, p1, w1)
              | (Some err, w1) \<Rightarrow> (Some err, ts_undo Y previous (p1, w1)))))"

definition syncDropIn :: "'w sync_env \<Rightarrow> bool \<Rightarrow> path_entry \<times> 'w \<Rightarrow> msg option \<times> path_entry \<times> 'w" where
  "syncDropIn Y enabled st =
     (case sy_dir Y of
        Nothing \<Rightarrow> if \<not> enabled then (None, st)
          else (Some [(''Tailscale integration directory is unavailable; reinstall the daemon package: %w'', [])], st)
      | Closed err \<Rightarrow> (Some ((''Tailscale integration directory is unavailable; reinstall the daemon package: %w'', []) # err), st)
      | Node d \<Rightarrow>
          if \<not> private_directory (sy_euid Y) d then (Some [(''Tailscale integration directory is untrusted'', [])], st)
          else case sy_open Y of
                 Some err \<Rightarrow> (Some err, st)
               | None \<Rightarrow>
                   (case ts_read (fst st) of
                      Inl (Some err) \<Rightarrow> (Some err, st)
                    | Inl None \<Rightarrow> if enabled then ts_change Y enabled None st else (None, st)
                    | Inr previous \<Rightarrow> if enabled \<and> previous = ts_content then (None, st) else ts_change Y enabled (Some previous) st))"

subsection \<open>All or nothing\<close>

text \<open>What the drop-in says: nothing where it is not there or cannot be read.\<close>

definition says :: "path_entry \<Rightarrow> string option" where
  "says p = (case ts_read p of Inr dat \<Rightarrow> Some dat | Inl _ \<Rightarrow> None)"

lemma says_write: "ts_write euid None dat p = (None, p1) \<Longrightarrow> length dat \<le> maxDropIn \<Longrightarrow> says p1 = Some dat"
  by (auto simp: ts_write_def says_def ts_read_def)

lemma content_short: "length ts_content \<le> maxDropIn"
  by (simp add: ts_content_def newline_def maxDropIn_def)

lemma ts_change_result:
  assumes "ts_change Y enabled previous (p, w) = (r, p', w')" "says p = previous" "\<And>dat. previous = Some dat \<Longrightarrow> length dat \<le> maxDropIn"
  shows "if r = None then says p' = (if enabled then Some ts_content else None) \<and> in_order (sy_run Y) ts_reload w = (None, w')
    else sy_restore Y = None \<longrightarrow> says p' = says p"
  using assms content_short
  by (auto simp: ts_change_def ts_undo_def ts_write_def ts_remove_def says_def ts_read_def split: option.splits prod.splits if_splits)

text \<open>C23: Turning the proxy for tailscaled on or off happens whole or not at all. When it succeeds the drop-in says exactly what it
  should, or is gone, and tailscaled was told of a change, and only of a change; when it fails the drop-in says what it said
  before, unless putting it back fails too. A directory that others can write, or a drop-in that is a link or no plain file,
  is never touched.\<close>

theorem sync_whole:
  assumes "syncDropIn Y enabled (p, w) = (r, p', w')"
  shows "(if r = None
      then (sy_dir Y \<noteq> Nothing \<longrightarrow> says p' = (if enabled then Some ts_content else None))
        \<and> (if says p' = says p then w' = w else in_order (sy_run Y) ts_reload w = (None, w'))
      else sy_restore Y = None \<longrightarrow> says p' = says p)
    \<and> ((\<forall>d. sy_dir Y = Node d \<longrightarrow> \<not> private_directory (sy_euid Y) d) \<or> (\<exists>err. ts_read p = Inl (Some err)) \<longrightarrow> p' = p \<and> w' = w)"
proof -
  consider (same) "p' = p" "w' = w" "r = None \<Longrightarrow> sy_dir Y \<noteq> Nothing \<Longrightarrow> says p = (if enabled then Some ts_content else None)"
    | (changed) d previous where "sy_dir Y = Node d" "private_directory (sy_euid Y) d" "\<not> (\<exists>err. ts_read p = Inl (Some err))"
        "ts_change Y enabled previous (p, w) = (r, p', w')" "says p = previous" "previous \<noteq> (if enabled then Some ts_content else None)"
    using assms
  proof (cases "sy_open Y")
    case None
    with assms changed same show thesis
      by (auto simp: syncDropIn_def says_def split: path_entry.splits if_splits option.splits sum.splits)
  next
    case (Some err)
    with assms same show thesis by (cases r) (auto simp: syncDropIn_def split: path_entry.splits if_splits)
  qed
  then show ?thesis
  proof cases
    case same
    then show ?thesis by auto
  next
    case changed
    have "length dat \<le> maxDropIn" if "previous = Some dat" for dat
      using changed(5) that by (auto simp: says_def ts_read_def split: path_entry.splits if_splits sum.splits)
    from ts_change_result[OF changed(4,5) this] changed show ?thesis by auto
  qed
qed

definition ts_demo :: "unit sync_env" where
  "ts_demo = \<lparr>sy_euid = 0, sy_dir = Node \<lparr>nd_kind = Directory, nd_uid = 0, nd_mode = 493, nd_data = []\<rparr>, sy_open = None, sy_change = None,
     sy_restore = None, sy_run = (\<lambda>c w. (if c = [''daemon-reload''] then None else Some [(''systemctl %s failed'', c)], w))\<rparr>"

text \<open>tailscaled does not restart: the drop-in is gone again.\<close>

lemma sync_whole_witness:
  "fst (syncDropIn ts_demo True (Nothing, ())) \<noteq> None \<and> says (fst (snd (syncDropIn ts_demo True (Nothing, ())))) = None"
proof -
  have f: "fst (syncDropIn ts_demo True (Nothing, ())) \<noteq> None" by code_simp
  have "syncDropIn ts_demo True (Nothing, ()) = (fst (syncDropIn ts_demo True (Nothing, ())), fst (snd (syncDropIn ts_demo True (Nothing, ()))), ())"
    by (simp add: prod_eq_iff)
  from sync_whole[OF this] f show ?thesis by (simp only: if_False simp_thms) (simp add: ts_demo_def says_def ts_read_def)
qed

end
