(* ===== verification/Geodata.thy ===== *)
theory Geodata
  imports Ops Mihomo_Core
begin

text \<open>
  Which geodata the rules of a profile need, and whether a file is usable for them (\<^verbatim>\<open>internal/core/mihomo/remote.go\<close>). The two
  regular expressions are written out as scanners. mihomo's paths and addresses, the protocol buffers of a site list, its
  matcher and the check of a MaxMind database are parameters, and so is \<^verbatim>\<open>strings.EqualFold\<close>.
\<close>

record geo_env =
  gx_mmdb :: geodata_file
  gx_site :: geodata_file
  gx_asn :: geodata_file
  gx_list :: "string \<Rightarrow> (string \<times> string list) list option"
  gx_loads :: "string list \<Rightarrow> bool"
  gx_verify :: "string option \<Rightarrow> bool"
  gx_fold :: "string \<Rightarrow> string \<Rightarrow> bool"

subsection \<open>The scanners\<close>

text \<open>White space of a regular expression; a letter whatever its case, with the long s that folds to it.\<close>

definition re_space :: "char \<Rightarrow> bool" where
  "re_space c \<longleftrightarrow> c \<in> {CHR 0x09, CHR 0x0A, CHR 0x0C, CHR 0x0D, CHR '' ''}"

definition strip_letter :: "char \<Rightarrow> string \<Rightarrow> string option" where
  "strip_letter p s =
     (case s of
        [] \<Rightarrow> None
      | c # r \<Rightarrow> if upper_char c = p then Some r else if p = CHR ''S'' \<and> has_prefix s [CHR 0xC5, CHR 0xBF] then Some (drop 2 s) else None)"

fun strip_word :: "string \<Rightarrow> string \<Rightarrow> string option" where
  "strip_word [] s = Some s"
| "strip_word (p # ps) s = (case strip_letter p s of None \<Rightarrow> None | Some r \<Rightarrow> strip_word ps r)"

text \<open>\<open>word\<close>, spaces and a comma.\<close>

definition word_comma :: "string \<Rightarrow> string \<Rightarrow> string option" where
  "word_comma word s =
     (case strip_word word s of
        None \<Rightarrow> None
      | Some r \<Rightarrow> (case dropWhile re_space r of c # t \<Rightarrow> if c = CHR '','' then Some t else None | [] \<Rightarrow> None))"

text \<open>What precedes it: the start of the line, a parenthesis or a comma, and spaces.\<close>

definition after_start :: "(string \<Rightarrow> 'a option) \<Rightarrow> bool \<Rightarrow> string \<Rightarrow> 'a option" where
  "after_start f bol s =
     (case (if bol then f (dropWhile re_space s) else None) of
        Some x \<Rightarrow> Some x
      | None \<Rightarrow> (case s of c # r \<Rightarrow> if c = CHR ''('' \<or> c = CHR '','' then f (dropWhile re_space r) else None | [] \<Rightarrow> None))"

definition geo_words :: "string list" where
  "geo_words = [''SRC-GEOIP'', ''GEOIP'', ''GEOSITE'', ''SRC-IP-ASN'', ''IP-ASN'']"

fun first_word :: "string list \<Rightarrow> string \<Rightarrow> (string \<times> string) option" where
  "first_word [] s = None"
| "first_word (w # ws) s = (case word_comma w s of Some r \<Rightarrow> Some (w, r) | None \<Rightarrow> first_word ws s)"

text \<open>The category: the longest run without commas and parentheses; where only spaces follow the comma, the last of them.\<close>

definition site_word :: "string \<Rightarrow> (string \<times> string) option" where
  "site_word s =
     (case word_comma ''GEOSITE'' s of
        None \<Rightarrow> None
      | Some t \<Rightarrow>
          let u = dropWhile re_space t; g = takeWhile (\<lambda>c. c \<notin> {CHR '','', CHR ''('', CHR '')''}) u
          in if g \<noteq> [] then Some (g, drop (length g) u) else if u \<noteq> t then Some ([last (takeWhile re_space t)], u) else None)"

lemma strip_letter_shorter: "strip_letter p s = Some r \<Longrightarrow> length r < length s"
  by (auto simp: strip_letter_def split: list.splits if_splits)

lemma strip_word_shorter: "strip_word w s = Some r \<Longrightarrow> length r \<le> length s"
  by (induction w s rule: strip_word.induct) (auto split: option.splits dest: strip_letter_shorter)

lemma word_comma_shorter:
  assumes "word_comma w s = Some t"
  shows "length t < length s"
proof -
  obtain r c where r: "strip_word w s = Some r" "dropWhile re_space r = c # t"
    using assms by (auto simp: word_comma_def split: option.splits list.splits if_splits)
  have "length (dropWhile re_space r) \<le> length r" by (rule length_dropWhile_le)
  then show ?thesis using r strip_word_shorter[OF r(1)] by simp
qed

lemma after_start_shorter:
  assumes "after_start f bol s = Some (x, t)" "\<And>s x t. f s = Some (x, t) \<Longrightarrow> length t < length s"
  shows "length t < length s"
  using assms(1) assms(2)[of "dropWhile re_space s" x t] assms(2)[of "dropWhile re_space (tl s)" x t]
    length_dropWhile_le[of re_space s] length_dropWhile_le[of re_space "tl s"]
  by (fastforce simp: after_start_def split: option.splits list.splits if_splits)

lemma first_word_shorter: "first_word ws s = Some (x, t) \<Longrightarrow> length t < length s"
  by (induction ws) (auto split: option.splits dest: word_comma_shorter)

lemma site_word_shorter: "site_word s = Some (x, t) \<Longrightarrow> length t < length s"
proof -
  assume a: "site_word s = Some (x, t)"
  then obtain t0 where w: "word_comma ''GEOSITE'' s = Some t0" by (auto simp: site_word_def split: option.splits)
  have "length t \<le> length (dropWhile re_space t0)" using a w by (auto simp: site_word_def Let_def split: if_splits)
  then show ?thesis using word_comma_shorter[OF w] length_dropWhile_le[of re_space t0] by simp
qed

text \<open>\<^verbatim>\<open>FindAllStringSubmatch\<close>: from left to right, without overlap.\<close>

function find_words :: "bool \<Rightarrow> string \<Rightarrow> string list" where
  "find_words bol s =
     (case after_start (first_word geo_words) bol s of
        Some (w, t) \<Rightarrow> w # find_words False t
      | None \<Rightarrow> (case s of [] \<Rightarrow> [] | c # r \<Rightarrow> find_words False r))"
  by pat_completeness auto
termination
  by (relation "measure (\<lambda>(_, s). length s)") (auto intro: after_start_shorter[OF _ first_word_shorter])

function find_sites :: "bool \<Rightarrow> string \<Rightarrow> string list" where
  "find_sites bol s =
     (case after_start site_word bol s of
        Some (g, t) \<Rightarrow> g # find_sites False t
      | None \<Rightarrow> (case s of [] \<Rightarrow> [] | c # r \<Rightarrow> find_sites False r))"
  by pat_completeness auto
termination
  by (relation "measure (\<lambda>(_, s). length s)") (auto intro: after_start_shorter[OF _ site_word_shorter])

declare find_words.simps [simp del] find_sites.simps [simp del]

subsection \<open>What a profile needs\<close>

definition geodataRules :: "core_profile \<Rightarrow> core_rule list" where
  "geodataRules p = p_rules p @ concat (map snd (p_sub_rules p))"

text \<open>The lines both scans read.\<close>

definition scanned_lines :: "core_profile \<Rightarrow> string list" where
  "scanned_lines p = map (\<lambda>r. r_type r @ '','' @ r_value r) (geodataRules p)
     @ concat (map rs_payload (filter (\<lambda>rs. rs_behavior rs = ''classical'') (p_rule_sets p)))"

definition core_Geodata :: "geo_env \<Rightarrow> core_profile \<Rightarrow> geodata_file list" where
  "core_Geodata G p =
     (let need = set (concat (map (find_words True) (scanned_lines p)))
      in (if ''GEOIP'' \<in> need \<or> ''SRC-GEOIP'' \<in> need then [gx_mmdb G] else [])
         @ (if ''GEOSITE'' \<in> need then [gx_site G] else [])
         @ (if ''IP-ASN'' \<in> need \<or> ''SRC-IP-ASN'' \<in> need then [gx_asn G] else []))"

definition site_name :: "string \<Rightarrow> string" where
  "site_name m = (let t = trim_space m; n = (if has_prefix t ''!'' then drop 1 t else t) in fst (cut_at (CHR ''@'') n))"

definition add_site :: "geo_env \<Rightarrow> string \<Rightarrow> string list \<Rightarrow> string list" where
  "add_site G m out = (let name = site_name m in if name \<noteq> [] \<and> \<not> list_ex (\<lambda>s. gx_fold G s name) out then out @ [name] else out)"

definition siteCategories :: "geo_env \<Rightarrow> core_profile \<Rightarrow> string list" where
  "siteCategories G p = fold (add_site G) (concat (map (find_sites True) (scanned_lines p))) []"

subsection \<open>Checking and installing a file\<close>

fun check_sites :: "geo_env \<Rightarrow> (string \<times> string list) list \<Rightarrow> string list \<Rightarrow> msg option" where
  "check_sites G es [] = None"
| "check_sites G es (n # ns) =
     (case find (\<lambda>e. gx_fold G (fst e) n \<and> snd e \<noteq> []) es of
        None \<Rightarrow> Some [(''the site list has no category %q'', [n])]
      | Some e \<Rightarrow> if \<not> gx_loads G (snd e) then Some [(''the site list's category %q does not load'', [n])] else check_sites G es ns)"

text \<open>\<open>dat\<close> is what the file holds, if it can be read.\<close>

definition checkGeodata :: "geo_env \<Rightarrow> geodata_file \<Rightarrow> string option \<Rightarrow> core_profile \<Rightarrow> msg option" where
  "checkGeodata G f dat p =
     (if gx_fold G (base_name (gd_path f)) ''GeoSite.dat''
      then case dat of
             None \<Rightarrow> Some [(''%w'', [])]
           | Some b \<Rightarrow>
               (case gx_list G b of
                  None \<Rightarrow> Some [(''not a site list'', [])]
                | Some es \<Rightarrow>
                    if sum_list (map (length \<circ> snd) es) = 0 then Some [(''the site list is empty'', [])]
                    else check_sites G es (''CN'' # siteCategories G p))
      else if gx_verify G dat then None else Some [(''not a MaxMind database'', [])])"

text \<open>\<open>clear\<close> is \<^verbatim>\<open>geodata.ClearGeoSiteCache\<close>, \<open>rename\<close> an error of \<^verbatim>\<open>os.Rename\<close>.\<close>

definition InstallGeodata ::
  "geo_env \<Rightarrow> ('e \<Rightarrow> 'e) \<Rightarrow> msg option \<Rightarrow> geodata_file \<Rightarrow> string \<Rightarrow> core_profile \<Rightarrow> (string \<Rightarrow> string option) \<Rightarrow> 'e mihomo_core
    \<Rightarrow> msg option \<times> (string \<Rightarrow> string option) \<times> 'e mihomo_core" where
  "InstallGeodata G clear rename f path p disk c =
     (case checkGeodata G f (disk path) p of
        Some err \<Rightarrow> (Some err, disk, c)
      | None \<Rightarrow>
          (case rename of
             Some err \<Rightarrow> (Some err, disk, c)
           | None \<Rightarrow>
               let base = base_name (gd_path f);
                   c1 = (if base = base_name (gd_path (gx_site G)) then c\<lparr>mc_engine := clear (mc_engine c)\<rparr>
                         else if base = base_name (gd_path (gx_mmdb G)) then c\<lparr>mc_reloadIP := True\<rparr>
                         else if base = base_name (gd_path (gx_asn G)) then c\<lparr>mc_reloadASN := True\<rparr> else c)
               in (None, disk(gd_path f := disk path, path := None), c1)))"

subsection \<open>Taking over an old core's files\<close>

definition maxGeodata :: nat where "maxGeodata = 67108864"

definition legacyGeodata :: "(string \<times> string list) list" where
  "legacyGeodata = [(''geoip.metadb'', [''Country.mmdb'', ''geoip.metadb'']), (''GeoSite.dat'', [''GeoSite.dat'']), (''ASN.mmdb'', [''ASN.mmdb''])]"

text \<open>A file of the old core with its age, where it is a plain one that can be read; \<open>fails\<close> are the errors of staging and renaming.\<close>

type_synonym aged_file = "string \<times> int"

definition importGeodata ::
  "geo_env \<Rightarrow> (string \<Rightarrow> bool \<Rightarrow> msg option) \<Rightarrow> (string \<Rightarrow> aged_file option) \<Rightarrow> string \<Rightarrow> string \<Rightarrow> core_profile
    \<Rightarrow> (string \<Rightarrow> aged_file option) \<Rightarrow> (msg, bool) res \<times> (string \<Rightarrow> aged_file option)" where
  "importGeodata G fails legacy frm dst p home =
     (case legacy frm of
        None \<Rightarrow> (Inr False, home)
      | Some (dat, age) \<Rightarrow>
          if length dat > maxGeodata then (Inr False, home)
          else case fails dst False of
                 Some err \<Rightarrow> (Inl err, home)
               | None \<Rightarrow>
                   if checkGeodata G \<lparr>gd_path = dst, gd_url = []\<rparr> (Some dat) p \<noteq> None then (Inr False, home)
                   else (case fails dst True of Some err \<Rightarrow> (Inl err, home) | None \<Rightarrow> (Inr True, home(dst \<mapsto> (dat, age)))))"

fun import_first ::
  "geo_env \<Rightarrow> (string \<Rightarrow> bool \<Rightarrow> msg option) \<Rightarrow> (string \<Rightarrow> aged_file option) \<Rightarrow> string list \<Rightarrow> string \<Rightarrow> core_profile
    \<Rightarrow> (string \<Rightarrow> aged_file option) \<Rightarrow> msg option \<times> (string \<Rightarrow> aged_file option)" where
  "import_first G fails legacy [] dst p home = (None, home)"
| "import_first G fails legacy (frm # froms) dst p home =
     (case importGeodata G fails legacy frm dst p home of
        (Inl err, home1) \<Rightarrow> (Some err, home1)
      | (Inr True, home1) \<Rightarrow> (None, home1)
      | (Inr False, home1) \<Rightarrow> import_first G fails legacy froms dst p home1)"

fun import_all ::
  "geo_env \<Rightarrow> (string \<Rightarrow> bool \<Rightarrow> msg option) \<Rightarrow> (string \<Rightarrow> aged_file option) \<Rightarrow> (string \<times> string list) list \<Rightarrow> core_profile
    \<Rightarrow> (string \<Rightarrow> aged_file option) \<Rightarrow> msg option \<times> (string \<Rightarrow> aged_file option)" where
  "import_all G fails legacy [] p home = (None, home)"
| "import_all G fails legacy ((name, froms) # files) p home =
     (case import_first G fails legacy froms name p home of
        (Some err, home1) \<Rightarrow> (Some err, home1) | (None, home1) \<Rightarrow> import_all G fails legacy files p home1)"

definition ImportGeodata ::
  "geo_env \<Rightarrow> (string \<Rightarrow> bool \<Rightarrow> msg option) \<Rightarrow> (string \<Rightarrow> aged_file option) \<Rightarrow> core_profile
    \<Rightarrow> (string \<Rightarrow> aged_file option) \<Rightarrow> msg option \<times> (string \<Rightarrow> aged_file option)" where
  "ImportGeodata G fails legacy p home = import_all G fails legacy legacyGeodata p home"


subsection \<open>The rules get what they need\<close>

lemma not_space_letter: "re_space c \<Longrightarrow> upper_char c = c \<and> c \<noteq> CHR ''G'' \<and> c \<noteq> CHR ''S'' \<and> c \<noteq> CHR ''I''"
  by (auto simp: re_space_def upper_char_def)

lemma strip_word_same: "map upper_char t = w \<Longrightarrow> strip_word w (t @ r) = Some r"
  by (induction t arbitrary: w) (auto simp: strip_letter_def)

text \<open>A rule's line starts with its type: the type is the first word found, in any case.\<close>

lemma word_comma_same:
  assumes "map upper_char t = w"
  shows "word_comma w (t @ CHR '','' # v) = Some v"
proof -
  have "\<not> re_space CHR '',''" by (simp add: re_space_def)
  then show ?thesis using strip_word_same[OF assms, of "CHR '','' # v"] by (simp add: word_comma_def)
qed

lemma type_unspaced: "map upper_char t = w \<Longrightarrow> w \<noteq> [] \<Longrightarrow> hd w \<in> {CHR ''G'', CHR ''S'', CHR ''I''} \<Longrightarrow> dropWhile re_space (t @ r) = t @ r"
  using not_space_letter by (cases t) auto

lemma strip_letter_char: "upper_char c \<noteq> CHR 0xC5 \<Longrightarrow> strip_letter p (c # r) = (if upper_char c = p then Some r else None)"
proof -
  assume a: "upper_char c \<noteq> CHR 0xC5"
  have "upper_char (CHR 0xC5) = CHR 0xC5" by (simp add: upper_char_def)
  with a have "c \<noteq> CHR 0xC5" by metis
  then show ?thesis by (simp add: strip_letter_def has_prefix_def)
qed

lemma word_found:
  assumes "map upper_char t = w" "w \<in> set geo_words"
  shows "w \<in> set (find_words True (t @ CHR '','' # v))"
proof -
  have sp: "\<not> re_space CHR '',''" "dropWhile re_space (t @ CHR '','' # v) = t @ CHR '','' # v"
    using type_unspaced[OF assms(1)] assms(2) by (auto simp: re_space_def geo_words_def)
  have "first_word geo_words (t @ CHR '','' # v) = Some (w, v)"
    using assms(2)[unfolded geo_words_def] assms(1)
    by (auto simp: geo_words_def word_comma_def strip_letter_char map_eq_Cons_conv sp(1))
  then have "after_start (first_word geo_words) True (t @ CHR '','' # v) = Some (w, v)" by (simp add: after_start_def sp)
  then show ?thesis by (subst find_words.simps) simp
qed

definition plain_category :: "string \<Rightarrow> bool" where
  "plain_category v \<longleftrightarrow> v \<noteq> [] \<and> trim_space v = v \<and> \<not> re_space (hd v) \<and> hd v \<noteq> CHR ''!'' \<and> set v \<inter> {CHR '','', CHR ''('', CHR '')'', CHR ''@''} = {}"

lemma site_found:
  assumes "map upper_char t = ''GEOSITE''" "plain_category v"
  shows "find_sites True (t @ CHR '','' # v) = v # find_sites False []"
proof -
  have "dropWhile re_space (t @ CHR '','' # v) = t @ CHR '','' # v" by (rule type_unspaced[OF assms(1)]) simp_all
  moreover have "dropWhile re_space v = v" using assms(2) by (cases v) (auto simp: plain_category_def)
  moreover have tw: "takeWhile (\<lambda>c. c \<noteq> CHR '','' \<and> c \<noteq> CHR ''('' \<and> c \<noteq> CHR '')'') v = v"
    using assms(2) by (intro takeWhile_eq_all_conv[THEN iffD2]) (auto simp: plain_category_def)
  ultimately have "after_start site_word True (t @ CHR '','' # v) = Some (v, [])"
    using assms word_comma_same[OF assms(1), of v] by (simp add: after_start_def site_word_def plain_category_def Let_def tw del: takeWhile_eq_all_conv)
  then show ?thesis by (subst find_sites.simps) simp
qed

lemma site_name_plain: "plain_category v \<Longrightarrow> site_name v = v"
proof -
  assume p: "plain_category v"
  then have "takeWhile (\<lambda>x. x \<noteq> CHR ''@'') v = v" by (auto simp: plain_category_def takeWhile_eq_all_conv)
  then have "fst (cut_at (CHR ''@'') v) = v" by (simp add: cut_at_def Let_def split: if_splits)
  with p show ?thesis by (cases v) (auto simp: plain_category_def site_name_def Let_def has_prefix_def)
qed

text \<open>\<^verbatim>\<open>strings.EqualFold\<close> is an equivalence.\<close>

definition fold_equiv :: "geo_env \<Rightarrow> bool" where
  "fold_equiv G \<longleftrightarrow> (\<forall>a. gx_fold G a a) \<and> (\<forall>a b. gx_fold G a b \<longrightarrow> gx_fold G b a)
     \<and> (\<forall>a b c. gx_fold G a b \<longrightarrow> gx_fold G b c \<longrightarrow> gx_fold G a c)"

lemma fold_refl: "fold_equiv G \<Longrightarrow> gx_fold G a a"
  and fold_trans: "fold_equiv G \<Longrightarrow> gx_fold G a b \<Longrightarrow> gx_fold G b c \<Longrightarrow> gx_fold G a c"
  unfolding fold_equiv_def by blast+

lemma add_site_keeps: "set out \<subseteq> set (fold (add_site G) gs out)"
proof (induction gs arbitrary: out)
  case (Cons m gs)
  have "set out \<subseteq> set (add_site G m out)" by (auto simp: add_site_def Let_def)
  then show ?case using Cons.IH[of "add_site G m out"] by auto
qed simp

lemma sites_added:
  assumes "fold_equiv G" "m \<in> set gs" "site_name m \<noteq> []"
  shows "\<exists>n \<in> set (fold (add_site G) gs out). gx_fold G n (site_name m)"
  using assms(2)
proof (induction gs arbitrary: out)
  case (Cons x gs)
  show ?case
  proof (cases "x = m")
    case True
    have "\<exists>n \<in> set (add_site G m out). gx_fold G n (site_name m)"
      using assms(3) fold_refl[OF assms(1)] by (auto simp: add_site_def Let_def list_ex_iff)
    then show ?thesis using add_site_keeps[of "add_site G m out" G gs] True by auto
  next
    case False
    with Cons show ?thesis by simp
  qed
qed simp

lemma sites_checked:
  "check_sites G es ns = None \<Longrightarrow> n \<in> set ns \<Longrightarrow> \<exists>e \<in> set es. gx_fold G (fst e) n \<and> snd e \<noteq> [] \<and> gx_loads G (snd e)"
  by (induction ns) (auto simp: find_Some_iff split: option.splits if_splits)

lemma line_scanned: "r \<in> set (geodataRules p) \<Longrightarrow> r_type r @ CHR '','' # r_value r \<in> set (scanned_lines p)"
  by (auto simp: scanned_lines_def)

lemma imported_one:
  "importGeodata G fails legacy frm dst p home = (r, home') \<Longrightarrow> home' n = home n
     \<or> n = dst \<and> (\<exists>dat age. home' n = Some (dat, age) \<and> checkGeodata G \<lparr>gd_path = n, gd_url = []\<rparr> (Some dat) p = None \<and> legacy frm = Some (dat, age))"
  by (auto simp: importGeodata_def split: option.splits prod.splits if_splits)

lemma imported_first:
  "import_first G fails legacy froms dst p home = (r, home') \<Longrightarrow> home' n = home n
     \<or> (\<exists>dat age. home' n = Some (dat, age) \<and> checkGeodata G \<lparr>gd_path = n, gd_url = []\<rparr> (Some dat) p = None \<and> (\<exists>f. legacy f = Some (dat, age)))"
proof (induction froms arbitrary: home)
  case (Cons frm froms)
  obtain x home1 where i: "importGeodata G fails legacy frm dst p home = (x, home1)" by fastforce
  show ?case using imported_one[OF i, of n] Cons.IH[of home1] Cons.prems i by (auto split: sum.splits bool.splits)
qed simp

lemma imported_all:
  "import_all G fails legacy files p home = (r, home') \<Longrightarrow> home' n = home n
     \<or> (\<exists>dat age. home' n = Some (dat, age) \<and> checkGeodata G \<lparr>gd_path = n, gd_url = []\<rparr> (Some dat) p = None \<and> (\<exists>f. legacy f = Some (dat, age)))"
proof (induction files arbitrary: home)
  case (Cons f files)
  obtain name froms where f: "f = (name, froms)" by (cases f)
  obtain x home1 where i: "import_first G fails legacy froms name p home = (x, home1)" by fastforce
  show ?case using imported_first[OF i, of n] Cons.IH[of home1] Cons.prems i f by (auto split: option.splits)
qed simp


definition geo_demo :: geo_env where
  "geo_demo = \<lparr>gx_mmdb = \<lparr>gd_path = ''geoip.metadb'', gd_url = []\<rparr>, gx_site = \<lparr>gd_path = ''GeoSite.dat'', gd_url = []\<rparr>,
     gx_asn = \<lparr>gd_path = ''ASN.mmdb'', gd_url = []\<rparr>, gx_list = (\<lambda>_. Some [(''CN'', [''a.cn'']), (''ads'', [''b.com''])]), gx_loads = (\<lambda>_. True),
     gx_verify = (\<lambda>_. True), gx_fold = (\<lambda>a b. map upper_char a = map upper_char b)\<rparr>"

definition geo_rule :: core_rule where
  "geo_rule = \<lparr>r_type = ''geosite'', r_value = ''Ads'', r_target = ''REJECT'', r_params = [], r_source = []\<rparr>"


end
