(* ===== verification/Log_Tap.thy ===== *)
theory Log_Tap
  imports Prelude
begin

text \<open>
  \<^verbatim>\<open>internal/core/mihomo/logs.go\<close>: the errors mihomo logs while a configuration is applied. The engine logs events in an order; a
  goroutine takes them one by one, in that order; and \<^verbatim>\<open>watch\<close>, and the function it returns, run beside the two. Each step of
  \<open>tap_step\<close> is what one of them does between two accesses of shared state. Marks are natural numbers; that they stay
  below \<open>2 ^ 64\<close> is a hypothesis.
\<close>

subsection \<open>Events\<close>

record log_event =
  ev_debug :: bool
  ev_error :: bool
  ev_payload :: string

definition markPrefix :: string where "markPrefix = ''omihomo: log mark ''"

definition mark_event :: "nat \<Rightarrow> log_event" where
  "mark_event n = \<lparr>ev_debug = True, ev_error = False, ev_payload = markPrefix @ itoa_nat n\<rparr>"

text \<open>The first test of the loop of \<^verbatim>\<open>startLogTap\<close>.\<close>

definition marked :: "log_event \<Rightarrow> bool" where
  "marked e \<longleftrightarrow> has_prefix (ev_payload e) markPrefix \<and> ev_debug e"

subsection \<open>The tap\<close>

text \<open>Where the caller is: outside, applying a configuration, about to log its mark, or waiting for it to arrive. What the caller does not
  know is kept beside: how many events had been taken and how many logged when it began, and how many before its mark.\<close>

datatype watch_phase = Outside | Applying nat nat | Marking nat nat nat | Waiting nat nat nat nat bool

text \<open>\<open>lt_log\<close> is all that was logged and \<open>lt_taken\<close> how much of it the goroutine has taken. \<open>lt_done\<close> is what the calls returned: whether
  the mark was given up, how much was logged before the call and before its mark, and the errors.\<close>

record log_tap =
  lt_watching :: "string list option"
  lt_marks :: nat
  lt_seen :: nat
  lt_log :: "log_event list"
  lt_taken :: nat
  lt_phase :: watch_phase
  lt_done :: "(bool \<times> nat \<times> nat \<times> string list) list"

definition startLogTap :: log_tap where
  "startLogTap = \<lparr>lt_watching = None, lt_marks = 0, lt_seen = 0, lt_log = [], lt_taken = 0, lt_phase = Outside, lt_done = []\<rparr>"

text \<open>One turn of the goroutine's loop.\<close>

definition take_event :: "log_event \<Rightarrow> log_tap \<Rightarrow> log_tap" where
  "take_event e t =
     (if marked e
      then (case parse_uint 64 (drop (length markPrefix) (ev_payload e)) of
              Some n \<Rightarrow> if n > lt_seen t then t\<lparr>lt_seen := n\<rparr> else t
            | None \<Rightarrow> t)
      else case lt_watching t of
             Some errs \<Rightarrow> if ev_error e then t\<lparr>lt_watching := Some (errs @ [ev_payload e])\<rparr> else t
           | None \<Rightarrow> t)"

definition log_line :: "log_event \<Rightarrow> log_tap \<Rightarrow> log_tap" where
  "log_line e t = t\<lparr>lt_log := lt_log t @ [e]\<rparr>"

text \<open>\<^verbatim>\<open>watch\<close>; then, in the function it returns: the next mark, logging it, the timer, and the end of the wait.\<close>

definition watch :: "log_tap \<Rightarrow> log_tap" where
  "watch t = t\<lparr>lt_watching := Some [], lt_phase := Applying (lt_taken t) (length (lt_log t))\<rparr>"

definition next_mark :: "nat \<Rightarrow> nat \<Rightarrow> log_tap \<Rightarrow> log_tap" where
  "next_mark f b t = t\<lparr>lt_marks := Suc (lt_marks t), lt_phase := Marking f b (Suc (lt_marks t))\<rparr>"

definition log_mark :: "nat \<Rightarrow> nat \<Rightarrow> nat \<Rightarrow> log_tap \<Rightarrow> log_tap" where
  "log_mark f b m t = (log_line (mark_event m) t)\<lparr>lt_phase := Waiting f b m (length (lt_log t)) False\<rparr>"

definition stop_watch :: "nat \<Rightarrow> nat \<Rightarrow> nat \<Rightarrow> log_tap \<Rightarrow> log_tap" where
  "stop_watch b m p t =
     t\<lparr>lt_watching := None, lt_phase := Outside,
       lt_done := lt_done t @ [(lt_seen t < m, b, p, (case lt_watching t of Some errs \<Rightarrow> errs | None \<Rightarrow> []))]\<rparr>"

text \<open>mihomo logs no debug event that begins like a mark.\<close>

inductive tap_step :: "log_tap \<Rightarrow> log_tap \<Rightarrow> bool" where
  tap_logs: "\<not> marked e \<Longrightarrow> tap_step t (log_line e t)"
| tap_takes: "lt_taken t < length (lt_log t) \<Longrightarrow> tap_step t ((take_event (lt_log t ! lt_taken t) t)\<lparr>lt_taken := Suc (lt_taken t)\<rparr>)"
| tap_watch: "lt_phase t = Outside \<Longrightarrow> tap_step t (watch t)"
| tap_stop: "lt_phase t = Applying f b \<Longrightarrow> tap_step t (next_mark f b t)"
| tap_mark: "lt_phase t = Marking f b m \<Longrightarrow> tap_step t (log_mark f b m t)"
| tap_timer: "lt_phase t = Waiting f b m p late \<Longrightarrow> tap_step t (t\<lparr>lt_phase := Waiting f b m p True\<rparr>)"
| tap_stopped: "lt_phase t = Waiting f b m p late \<Longrightarrow> m \<le> lt_seen t \<or> late \<Longrightarrow> tap_step t (stop_watch b m p t)"

inductive_cases tap_stepE: "tap_step t t'"

subsection \<open>What the calls return\<close>

definition errors_in :: "log_event list \<Rightarrow> string list" where
  "errors_in es = map ev_payload (filter (\<lambda>e. \<not> marked e \<and> ev_error e) es)"

definition marks_in :: "log_event list \<Rightarrow> nat" where
  "marks_in es = length (filter marked es)"

lemma errors_in_simps [simp]:
  "errors_in [] = []" "errors_in (es @ fs) = errors_in es @ errors_in fs"
  "errors_in [e] = (if \<not> marked e \<and> ev_error e then [ev_payload e] else [])"
  by (simp_all add: errors_in_def)

lemma marks_in_simps [simp]:
  "marks_in [] = 0" "marks_in (es @ fs) = marks_in es + marks_in fs" "marks_in [e] = (if marked e then 1 else 0)"
  by (simp_all add: marks_in_def)

lemma mark_event_sel [simp]: "marked (mark_event n)" "\<not> ev_error (mark_event n)"
  by (simp_all add: marked_def mark_event_def has_prefix_append)

text \<open>Marks are numbered in the order they are logged.\<close>

definition marks_numbered :: "log_event list \<Rightarrow> bool" where
  "marks_numbered es \<longleftrightarrow> (\<forall>i < length es. marked (es ! i) \<longrightarrow> es ! i = mark_event (Suc (marks_in (take i es))))"

lemma marks_numbered_snoc:
  "marks_numbered (es @ [e]) \<longleftrightarrow> marks_numbered es \<and> (marked e \<longrightarrow> e = mark_event (Suc (marks_in es)))"
  by (auto simp: marks_numbered_def nth_append less_Suc_eq)

lemma marks_in_take_mono: "i \<le> j \<Longrightarrow> marks_in (take i es) \<le> marks_in (take j es)"
  by (metis le_add1 le_add_diff_inverse marks_in_simps(2) take_add)

text \<open>What was taken from \<open>f\<close> on.\<close>

definition taken_since :: "nat \<Rightarrow> log_tap \<Rightarrow> log_event list" where
  "taken_since f t = drop f (take (lt_taken t) (lt_log t))"

lemma taken_since_step:
  "f \<le> lt_taken t \<Longrightarrow> lt_taken t < length (lt_log t) \<Longrightarrow>
     drop f (take (Suc (lt_taken t)) (lt_log t)) = taken_since f t @ [lt_log t ! lt_taken t]"
  by (simp add: taken_since_def take_Suc_conv_app_nth)

lemma taken_since_log:
  "lt_taken t \<le> length (lt_log t) \<Longrightarrow> drop f (take (lt_taken t) (lt_log t @ [e])) = taken_since f t"
  by (simp add: taken_since_def)

text \<open>What is collected is what was taken since the call began.\<close>

fun collecting :: "watch_phase \<Rightarrow> log_tap \<Rightarrow> bool" where
  "collecting Outside t \<longleftrightarrow> lt_watching t = None \<and> lt_marks t = marks_in (lt_log t)"
| "collecting (Applying f b) t \<longleftrightarrow> f \<le> b \<and> b \<le> length (lt_log t) \<and> f \<le> lt_taken t \<and> lt_watching t = Some (errors_in (taken_since f t))
     \<and> lt_marks t = marks_in (lt_log t)"
| "collecting (Marking f b m) t \<longleftrightarrow> f \<le> b \<and> b \<le> length (lt_log t) \<and> f \<le> lt_taken t \<and> lt_watching t = Some (errors_in (taken_since f t))
     \<and> lt_marks t = Suc (marks_in (lt_log t)) \<and> m = lt_marks t"
| "collecting (Waiting f b m p late) t \<longleftrightarrow> f \<le> b \<and> b \<le> p \<and> p < length (lt_log t) \<and> f \<le> lt_taken t
     \<and> lt_watching t = Some (errors_in (taken_since f t)) \<and> lt_marks t = marks_in (lt_log t) \<and> m = lt_marks t \<and> m = Suc (marks_in (take p (lt_log t)))"

text \<open>What a call returned: all errors in a stretch of the log that begins at the latest where the call began, and ends after its mark unless
  that was given up.\<close>

definition returned_ok :: "log_event list \<Rightarrow> bool \<times> nat \<times> nat \<times> string list \<Rightarrow> bool" where
  "returned_ok log r = (case r of (late, b, p, errs) \<Rightarrow>
     b \<le> p \<and> p \<le> length log \<and> (\<exists>f n. f \<le> b \<and> f \<le> n \<and> n \<le> length log \<and> errs = errors_in (drop f (take n log)) \<and> (\<not> late \<longrightarrow> p < n)))"

definition tap_ok :: "log_tap \<Rightarrow> bool" where
  "tap_ok t \<longleftrightarrow> lt_taken t \<le> length (lt_log t) \<and> marks_numbered (lt_log t) \<and> lt_seen t = marks_in (take (lt_taken t) (lt_log t))
     \<and> collecting (lt_phase t) t \<and> (\<forall>r \<in> set (lt_done t). returned_ok (lt_log t) r)"

lemma returned_ok_log: "returned_ok es r \<Longrightarrow> returned_ok (es @ [e]) r"
proof -
  assume a: "returned_ok es r"
  obtain late b p errs where r: "r = (late, b, p, errs)" by (cases r)
  then obtain f n where "f \<le> b" "f \<le> n" "n \<le> length es" "errs = errors_in (drop f (take n es))" "\<not> late \<longrightarrow> p < n" "b \<le> p" "p \<le> length es"
    using a by (auto simp: returned_ok_def)
  then show ?thesis unfolding r returned_ok_def prod.case by (intro conjI exI[of _ f] exI[of _ n]) auto
qed

lemma collecting_log:
  assumes "collecting ph t" "\<not> marked e" "lt_taken t \<le> length (lt_log t)"
  shows "collecting ph (log_line e t)"
  using assms by (cases ph) (auto simp: log_line_def taken_since_def drop_append simp del: diff_diff_cancel split: if_splits)

lemma collecting_marks: "collecting ph t \<Longrightarrow> marks_in (lt_log t) \<le> lt_marks t"
  by (cases ph) auto

lemma take_event_eq:
  assumes ok: "tap_ok t" and n: "lt_taken t < length (lt_log t)" and m: "lt_marks t < 2 ^ 64"
  shows "take_event (lt_log t ! lt_taken t) t
     = t\<lparr>lt_seen := marks_in (take (Suc (lt_taken t)) (lt_log t)),
         lt_watching := map_option (\<lambda>errs. errs @ errors_in [lt_log t ! lt_taken t]) (lt_watching t)\<rparr>"
proof -
  let ?e = "lt_log t ! lt_taken t"
  have seen: "marks_in (take (Suc (lt_taken t)) (lt_log t)) = lt_seen t + marks_in [?e]"
    using ok n by (simp add: tap_ok_def take_Suc_conv_app_nth del: marks_in_simps(3))
  show ?thesis
  proof (cases "marked ?e")
    case True
    have "?e = mark_event (Suc (lt_seen t))" using ok n True by (simp add: tap_ok_def marks_numbered_def)
    moreover have "Suc (lt_seen t) \<le> marks_in (lt_log t)"
      using marks_in_take_mono[of "Suc (lt_taken t)" "length (lt_log t)" "lt_log t"] n seen True by simp
    then have "Suc (lt_seen t) < 2 ^ 64" using collecting_marks[of "lt_phase t" t] ok m by (simp add: tap_ok_def)
    ultimately have "parse_uint 64 (drop (length markPrefix) (ev_payload ?e)) = Some (Suc (lt_seen t))"
      by (simp add: mark_event_def parse_uint_itoa del: power_numeral)
    then show ?thesis using True seen by (cases "lt_watching t") (simp_all add: take_event_def)
  next
    case False
    then show ?thesis using seen by (cases "lt_watching t") (simp_all add: take_event_def)
  qed
qed

lemma collecting_take:
  assumes "collecting ph t" "lt_taken t < length (lt_log t)"
  shows "collecting ph (t\<lparr>lt_seen := s, lt_watching := map_option (\<lambda>errs. errs @ errors_in [lt_log t ! lt_taken t]) (lt_watching t),
     lt_taken := Suc (lt_taken t)\<rparr>)"
  using assms taken_since_step[OF _ assms(2)] by (cases ph) (auto simp: taken_since_def simp del: errors_in_simps(3))

lemma collecting_seen [simp]: "collecting ph (t\<lparr>lt_phase := q\<rparr>) = collecting ph t" "collecting ph (t\<lparr>lt_done := d\<rparr>) = collecting ph t"
  by (cases ph; simp add: taken_since_def)+

lemma stop_returned:
  assumes "collecting (Waiting f b m p late) t" "tap_ok t"
  shows "returned_ok (lt_log t) (lt_seen t < m, b, p, case lt_watching t of Some errs \<Rightarrow> errs | None \<Rightarrow> [])"
proof -
  have "p < lt_taken t" if "\<not> lt_seen t < m"
  proof (rule ccontr)
    assume "\<not> p < lt_taken t"
    then have "lt_seen t \<le> marks_in (take p (lt_log t))" using assms(2) marks_in_take_mono[of "lt_taken t" p "lt_log t"] by (simp add: tap_ok_def)
    then show False using that assms(1) by simp
  qed
  then show ?thesis unfolding returned_ok_def prod.case
    by (intro conjI exI[of _ f] exI[of _ "lt_taken t"]) (use assms in \<open>auto simp: tap_ok_def taken_since_def\<close>)
qed

lemma tap_ok_step:
  assumes "tap_step t t'" "tap_ok t" "lt_marks t' < 2 ^ 64"
  shows "tap_ok t'"
  using assms
proof (cases rule: tap_step.cases)
  case (tap_logs e)
  have "collecting (lt_phase t) (log_line e t)" using collecting_log tap_logs(2) assms(2) by (simp add: tap_ok_def)
  then show ?thesis using assms(2) tap_logs by (auto simp: tap_ok_def log_line_def marks_numbered_snoc returned_ok_log)
next
  case tap_takes
  have m: "lt_marks t < 2 ^ 64" using assms(3) tap_takes by (auto simp: take_event_def split: option.splits if_splits)
  show ?thesis using assms(2) tap_takes collecting_take[of "lt_phase t" t] unfolding take_event_eq[OF assms(2) tap_takes(2) m] tap_takes(1)
    by (simp add: tap_ok_def)
next
  case tap_watch
  then show ?thesis using assms(2) by (auto simp: tap_ok_def watch_def taken_since_def)
next
  case (tap_stop f b)
  then show ?thesis using assms(2) by (auto simp: tap_ok_def next_mark_def taken_since_def)
next
  case (tap_mark f b m)
  have "taken_since f (log_line (mark_event m) t) = taken_since f t"
    using taken_since_log[of t f "mark_event m"] assms(2) by (simp add: tap_ok_def log_line_def taken_since_def)
  then have "collecting (lt_phase t') t'" using assms(2) tap_mark by (auto simp: tap_ok_def log_mark_def log_line_def taken_since_def)
  then show ?thesis using assms(2) tap_mark
    by (auto simp: tap_ok_def log_mark_def log_line_def marks_numbered_snoc returned_ok_log)
next
  case (tap_timer f b m p late)
  then show ?thesis using assms(2) by (auto simp: tap_ok_def taken_since_def)
next
  case (tap_stopped f b m p late)
  then show ?thesis using assms(2) stop_returned[of f b m p late t] by (auto simp: tap_ok_def stop_watch_def)
qed

lemma tap_marks_mono: "tap_step t t' \<Longrightarrow> lt_marks t \<le> lt_marks t'"
  by (erule tap_stepE) (auto simp: log_line_def take_event_def watch_def next_mark_def log_mark_def stop_watch_def split: option.splits)

lemma tap_reachable_ok: "tap_step\<^sup>*\<^sup>* startLogTap t \<Longrightarrow> lt_marks t < 2 ^ 64 \<Longrightarrow> tap_ok t"
proof (induction rule: rtranclp_induct)
  case base
  show ?case by (simp add: tap_ok_def startLogTap_def marks_numbered_def)
next
  case (step t t')
  then show ?case using tap_ok_step tap_marks_mono by (meson le_less_trans)
qed

text \<open>C25: no error that mihomo logs while a configuration is applied is missed. In every state the tap reaches, what a call to \<^verbatim>\<open>watch\<close> and
  its \<^verbatim>\<open>stop\<close> returned are exactly the errors, in order, of one stretch of mihomo's log, which begins no later than where the log was at the call
  and ends after the mark unless the wait for the mark was given up; and whoever waits is let go when all of the log was taken.\<close>

theorem watch_misses_nothing:
  assumes "tap_step\<^sup>*\<^sup>* startLogTap t" "lt_marks t < 2 ^ 64"
  shows "(\<forall>(late, b, p, errs) \<in> set (lt_done t). b \<le> p \<and> p \<le> length (lt_log t)
      \<and> (\<exists>f n. f \<le> b \<and> f \<le> n \<and> n \<le> length (lt_log t) \<and> errs = errors_in (drop f (take n (lt_log t))) \<and> (\<not> late \<longrightarrow> p < n)))
    \<and> (\<forall>f b m p late. lt_phase t = Waiting f b m p late \<and> lt_taken t = length (lt_log t) \<longrightarrow> tap_step t (stop_watch b m p t))"
proof -
  have ok: "tap_ok t" using tap_reachable_ok assms by blast
  have "m \<le> lt_seen t" if "lt_phase t = Waiting f b m p late" "lt_taken t = length (lt_log t)" for f b m p late
    using ok that by (simp add: tap_ok_def)
  then show ?thesis using ok by (auto simp: tap_ok_def returned_ok_def intro: tap_stopped)
qed

text \<open>An apply that goes wrong: its error is returned, and one that was logged before is not.\<close>

definition taken_next :: "log_tap \<Rightarrow> log_tap" where
  "taken_next t = (take_event (lt_log t ! lt_taken t) t)\<lparr>lt_taken := Suc (lt_taken t)\<rparr>"

definition bad_line :: "string \<Rightarrow> log_event" where
  "bad_line p = \<lparr>ev_debug = False, ev_error = True, ev_payload = p\<rparr>"

definition tap_waits :: log_tap where
  "tap_waits = log_mark 1 1 1 (next_mark 1 1 (log_line (bad_line ''tun'') (watch (taken_next (log_line (bad_line ''old'') startLogTap)))))"

definition tap_demo :: log_tap where "tap_demo = stop_watch 1 1 2 (taken_next (taken_next tap_waits))"

lemma tap_demo_reached: "tap_step\<^sup>*\<^sup>* startLogTap tap_demo"
proof -
  have g: "tap_step t (taken_next t)" if "lt_taken t < length (lt_log t)" for t
    unfolding taken_next_def using that by (rule tap_takes)
  have l: "tap_step t (log_line (bad_line p) t)" for p t by (rule tap_logs) (simp add: marked_def bad_line_def)
  let ?t1 = "taken_next (log_line (bad_line ''old'') startLogTap)"
  let ?t2 = "log_line (bad_line ''tun'') (watch ?t1)"
  have "tap_step startLogTap (log_line (bad_line ''old'') startLogTap)" by (rule l)
  moreover have "tap_step (log_line (bad_line ''old'') startLogTap) ?t1" by (rule g) code_simp
  moreover have "tap_step ?t1 (watch ?t1)" by (rule tap_watch) code_simp
  moreover have "tap_step (watch ?t1) ?t2" by (rule l)
  moreover have "tap_step ?t2 (next_mark 1 1 ?t2)" by (rule tap_stop) code_simp
  moreover have "tap_step (next_mark 1 1 ?t2) tap_waits" unfolding tap_waits_def by (rule tap_mark) code_simp
  moreover have "tap_step tap_waits (taken_next tap_waits)" by (rule g) code_simp
  moreover have "tap_step (taken_next tap_waits) (taken_next (taken_next tap_waits))" by (rule g) code_simp
  moreover have "tap_step (taken_next (taken_next tap_waits)) tap_demo" unfolding tap_demo_def
    by (rule tap_stopped[where f = 1 and late = False]) code_simp+
  ultimately show ?thesis by (meson converse_rtranclp_into_rtranclp rtranclp.rtrancl_refl)
qed

lemma watch_misses_nothing_witness:
  "(False, 1, 2, [''tun'']) \<in> set (lt_done tap_demo)
    \<and> (\<exists>f n. f \<le> 1 \<and> f \<le> n \<and> n \<le> 3 \<and> [''tun''] = errors_in (drop f (take n (lt_log tap_demo))) \<and> 2 < n)"
proof -
  have d: "(False, 1, 2, [''tun'']) \<in> set (lt_done tap_demo)" "lt_marks tap_demo < 2 ^ 64" "length (lt_log tap_demo) = 3" by code_simp+
  from watch_misses_nothing[OF tap_demo_reached d(2), THEN conjunct1, THEN bspec, OF d(1)] d show ?thesis by simp
qed

end
