(* ===== verification/Startup.thy ===== *)
theory Startup
  imports Ownership Demo
begin

text \<open>
  The daemon's start: \<^verbatim>\<open>daemonCommand\<close> and \<^verbatim>\<open>serve\<close> of \<^verbatim>\<open>internal/cli/daemon.go\<close>, the options of \<^verbatim>\<open>internal/daemon/daemon.go\<close>, the private
  directories of \<^verbatim>\<open>internal/state\<close> and \<^verbatim>\<open>internal/core/mihomo\<close>, and the sockets and notifications of \<^verbatim>\<open>internal/systemd\<close>. Paths are written
  as \<^verbatim>\<open>filepath.Clean\<close> leaves them; descriptors, the store's contents and what fails are parameters.
\<close>

subsection \<open>Options\<close>

text \<open>Functions and pointers are of type \<open>'f\<close>, nil is \<open>None\<close>; durations are nanoseconds.\<close>

record 'f daemon_config =
  df_ownerFile :: string
  df_version :: string
  df_log :: 'f
  df_tick :: int
  df_egressURL :: string
  df_tailscalePresent :: 'f
  df_tailscaleSync :: "'f option"
  df_maxClients :: int
  df_groupsEvery :: int
  df_stateDir :: string
  df_transport :: "'f option"
  df_refreshEvery :: int
  df_now :: 'f
  df_downloadLimit :: int

datatype 'f config_opt = WithOwnerFile string | WithVersion string | WithLogger "'f option" | WithTick int | WithEgressURL string
  | WithTailscaleProbe "'f option" | WithTailscaleSync "'f option" | WithStateDir string | WithTransport "'f option" | WithRefreshCheck int
  | WithDownloadLimit int | WithClock "'f option" | WithGroupsRefresh int | WithMaxClients int

definition set_field :: "'v \<Rightarrow> 'v \<Rightarrow> bool \<Rightarrow> 'v" where
  "set_field field v ok = (if ok then v else field)"

definition set_function :: "'f \<Rightarrow> 'f option \<Rightarrow> 'f" where
  "set_function field v = (case v of Some f \<Rightarrow> f | None \<Rightarrow> field)"

fun apply_opt :: "'f config_opt \<Rightarrow> 'f daemon_config \<Rightarrow> 'f daemon_config" where
  "apply_opt (WithOwnerFile path) c = c\<lparr>df_ownerFile := set_field (df_ownerFile c) path (path \<noteq> [])\<rparr>"
| "apply_opt (WithVersion v) c = c\<lparr>df_version := set_field (df_version c) v (v \<noteq> [])\<rparr>"
| "apply_opt (WithLogger l) c = c\<lparr>df_log := set_function (df_log c) l\<rparr>"
| "apply_opt (WithTick d) c = c\<lparr>df_tick := set_field (df_tick c) d (d > 0)\<rparr>"
| "apply_opt (WithEgressURL url) c = c\<lparr>df_egressURL := set_field (df_egressURL c) url (url \<noteq> [])\<rparr>"
| "apply_opt (WithTailscaleProbe present) c = c\<lparr>df_tailscalePresent := set_function (df_tailscalePresent c) present\<rparr>"
| "apply_opt (WithTailscaleSync f) c = c\<lparr>df_tailscaleSync := f\<rparr>"
| "apply_opt (WithStateDir dir) c = c\<lparr>df_stateDir := set_field (df_stateDir c) dir (dir \<noteq> [])\<rparr>"
| "apply_opt (WithTransport t) c = c\<lparr>df_transport := set_field (df_transport c) t (t \<noteq> None)\<rparr>"
| "apply_opt (WithRefreshCheck d) c = c\<lparr>df_refreshEvery := set_field (df_refreshEvery c) d (d > 0)\<rparr>"
| "apply_opt (WithDownloadLimit n) c = c\<lparr>df_downloadLimit := set_field (df_downloadLimit c) n (n > 0)\<rparr>"
| "apply_opt (WithClock now) c = c\<lparr>df_now := set_function (df_now c) now\<rparr>"
| "apply_opt (WithGroupsRefresh d) c = c\<lparr>df_groupsEvery := set_field (df_groupsEvery c) d (d > 0)\<rparr>"
| "apply_opt (WithMaxClients n) c = c\<lparr>df_maxClients := set_field (df_maxClients c) n (n > 0)\<rparr>"

definition owner_DefaultPath :: string where "owner_DefaultPath = ''/var/lib/omihomo/owner''"
definition state_DefaultDir :: string where "state_DefaultDir = ''/var/lib/omihomo''"

text \<open>\<open>log\<close>, \<open>present\<close> and \<open>now\<close> are the default logger, the search for tailscaled and \<^verbatim>\<open>time.Now\<close>.\<close>

definition default_config :: "'f \<Rightarrow> 'f \<Rightarrow> 'f \<Rightarrow> 'f daemon_config" where
  "default_config log present now =
     \<lparr>df_ownerFile = owner_DefaultPath, df_version = ''dev'', df_log = log, df_tick = 10 ^ 9, df_egressURL = ''https://cloudflare.com/cdn-cgi/trace'',
      df_tailscalePresent = present, df_tailscaleSync = None, df_maxClients = 16, df_groupsEvery = 5 * 10 ^ 9, df_stateDir = state_DefaultDir,
      df_transport = None, df_refreshEvery = 60 * 10 ^ 9, df_now = now, df_downloadLimit = int MaxBytes\<rparr>"

subsection \<open>Private directories\<close>

text \<open>What the paths hold. A link to a directory is enough for \<^verbatim>\<open>MkdirAll\<close>; whether a link is one is left to \<open>fault\<close>.\<close>

type_synonym tree = "string \<Rightarrow> path_entry"

definition new_directory :: "nat \<Rightarrow> fs_node" where
  "new_directory euid = \<lparr>nd_kind = Directory, nd_uid = euid, nd_mode = 448, nd_data = []\<rparr>"

definition MkdirAll :: "nat \<Rightarrow> msg option \<Rightarrow> string \<Rightarrow> tree \<Rightarrow> msg option \<times> tree" where
  "MkdirAll euid fault dir T =
     (case T dir of
        Nothing \<Rightarrow> (case fault of Some err \<Rightarrow> (Some err, T) | None \<Rightarrow> (None, T(dir := Node (new_directory euid))))
      | Closed err \<Rightarrow> (Some err, T)
      | Node f \<Rightarrow>
          if nd_kind f = Directory then (None, T) else if nd_kind f = SymLink then (fault, T) else (Some [(''not a directory'', [])], T))"

definition closed_to_others :: "nat \<Rightarrow> bool" where
  "closed_to_others mode \<longleftrightarrow> mode mod 64 = 0"

text \<open>\<^verbatim>\<open>privateDir\<close> of the state directory makes it private, that of the core's home refuses it.\<close>

record dir_faults =
  di_euid :: nat
  di_mkdir :: "string \<Rightarrow> msg option"
  di_chmod :: "string \<Rightarrow> msg option"

definition state_privateDir :: "dir_faults \<Rightarrow> string \<Rightarrow> tree \<Rightarrow> msg option \<times> tree" where
  "state_privateDir D dir T =
     (case MkdirAll (di_euid D) (di_mkdir D dir) dir T of
        (Some err, T1) \<Rightarrow> (Some ((''create %s: %w'', [dir]) # err), T1)
      | (None, T1) \<Rightarrow>
          (case T1 dir of
             Nothing \<Rightarrow> (Some [(''inspect %s: %w'', [dir])], T1)
           | Closed err \<Rightarrow> (Some ((''inspect %s: %w'', [dir]) # err), T1)
           | Node f \<Rightarrow>
               if nd_kind f \<noteq> Directory \<or> nd_uid f \<noteq> di_euid D
               then (Some [(''%s must be a directory owned by uid %d'', [dir, itoa_nat (di_euid D)])], T1)
               else if closed_to_others (nd_mode f) then (None, T1)
               else case di_chmod D dir of
                      Some err \<Rightarrow> (Some ((''make %s private: %w'', [dir]) # err), T1)
                    | None \<Rightarrow> (None, T1(dir := Node (f\<lparr>nd_mode := 448\<rparr>)))))"

definition is_abs :: "string \<Rightarrow> bool" where
  "is_abs path \<longleftrightarrow> has_prefix path ''/''"

definition snapshots_of :: "string \<Rightarrow> string" where
  "snapshots_of dir = dir @ ''/'' @ snapshotDir"

definition state_Open :: "dir_faults \<Rightarrow> string \<Rightarrow> tree \<Rightarrow> msg option \<times> tree" where
  "state_Open D dir T =
     (if \<not> is_abs dir then (Some [(''the state directory %q is not absolute'', [dir])], T)
      else case state_privateDir D dir T of
             (Some err, T1) \<Rightarrow> (Some err, T1)
           | (None, T1) \<Rightarrow> state_privateDir D (snapshots_of dir) T1)"

definition home_privateDir :: "dir_faults \<Rightarrow> string \<Rightarrow> tree \<Rightarrow> msg option \<times> tree" where
  "home_privateDir D dir T =
     (case MkdirAll (di_euid D) (di_mkdir D dir) dir T of
        (Some err, T1) \<Rightarrow> (Some ((''create the core's home: %w'', []) # err), T1)
      | (None, T1) \<Rightarrow>
          (case T1 dir of
             Nothing \<Rightarrow> (Some [(''inspect the core's home: %w'', [])], T1)
           | Closed err \<Rightarrow> (Some ((''inspect the core's home: %w'', []) # err), T1)
           | Node f \<Rightarrow>
               if \<not> private_directory (di_euid D) f
               then (Some [(''%s must be a directory owned by uid %d and writable by nobody else'', [dir, itoa_nat (di_euid D)])], T1)
               else (None, T1)))"

text \<open>\<open>hosted\<close> is the process's flag.\<close>

definition mihomo_New :: "dir_faults \<Rightarrow> string \<Rightarrow> bool \<Rightarrow> tree \<Rightarrow> msg option \<times> bool \<times> tree" where
  "mihomo_New D home hosted T =
     (if \<not> is_abs home then (Some [(''the core's home %q is not absolute'', [home])], hosted, T)
      else case home_privateDir D home T of
             (Some err, T1) \<Rightarrow> (Some err, hosted, T1)
           | (None, T1) \<Rightarrow>
               if hosted then (Some [(''mihomo is already hosted in this process'', [])], hosted, T1) else (None, True, T1))"

subsection \<open>systemd\<close>

text \<open>The sockets from descriptor 3 on, each adopted or refused; a refusal closes those before it.\<close>

definition listenFdsStart :: nat where "listenFdsStart = 3"

fun adopt_all :: "(nat \<Rightarrow> (msg, 'l) res) \<Rightarrow> nat list \<Rightarrow> 'l list \<Rightarrow> (msg, 'l list) res \<times> 'l list" where
  "adopt_all adopt [] out = (Inr out, [])"
| "adopt_all adopt (fd # fds) out =
     (case adopt fd of Inl err \<Rightarrow> (Inl ((''fd %d: %w'', [itoa_nat fd]) # err), out) | Inr l \<Rightarrow> adopt_all adopt fds (out @ [l]))"

text \<open>With the listeners closed again beside the result.\<close>

definition Listeners :: "string \<Rightarrow> string \<Rightarrow> int \<Rightarrow> (nat \<Rightarrow> (msg, 'l) res) \<Rightarrow> (msg, 'l list) res \<times> 'l list" where
  "Listeners pid fds self adopt =
     (case activated pid fds self of
        Inl err \<Rightarrow> (Inl err, [])
      | Inr n \<Rightarrow> if n = 0 then (Inr [], []) else adopt_all adopt [listenFdsStart..<listenFdsStart + n] [])"

text \<open>Where a notification goes: an address that begins with an at sign is an abstract one.\<close>

definition notify_addr :: "string \<Rightarrow> string option" where
  "notify_addr addr = (case addr of [] \<Rightarrow> None | c # r \<Rightarrow> Some (if c = CHR ''@'' then CHR 0x00 # r else c # r))"

definition Notify :: "(string \<Rightarrow> msg option) \<Rightarrow> (string \<Rightarrow> msg option) \<Rightarrow> string \<Rightarrow> string \<Rightarrow> msg option" where
  "Notify connect transmit addr st =
     (case notify_addr addr of
        None \<Rightarrow> None
      | Some name \<Rightarrow>
          (case connect name of
             Some err \<Rightarrow> Some ((''connect to %s: %w'', [addr]) # err)
           | None \<Rightarrow> (case transmit st of Some err \<Rightarrow> Some ((''send %s: %w'', [st]) # err) | None \<Rightarrow> None)))"

subsection \<open>From the command to serving\<close>

text \<open>The flags of \<^verbatim>\<open>daemon\<close>, with their defaults.\<close>

record daemon_flags =
  fl_socket :: string
  fl_ownerFile :: string
  fl_core :: string
  fl_home :: string
  fl_state :: string

definition default_flags :: daemon_flags where
  "default_flags = \<lparr>fl_socket = ''/run/omihomo/omihomo.sock'', fl_ownerFile = owner_DefaultPath, fl_core = ''mihomo'',
     fl_home = ''/var/lib/omihomo/core'', fl_state = state_DefaultDir\<rparr>"

text \<open>The process: its environment, the sockets it is given, binding one of its own, its default functions, and what the store reads as.\<close>

record ('l, 'f, 'w) start_env =
  bt_dirs :: dir_faults
  bt_pid :: string
  bt_fds :: string
  bt_self :: int
  bt_adopt :: "nat \<Rightarrow> (msg, 'l) res"
  bt_listen :: listen_env
  bt_bound :: 'l
  bt_version :: string
  bt_log :: 'f
  bt_present :: 'f
  bt_sync :: 'f
  bt_now :: 'f
  bt_settings :: "tree \<Rightarrow> string \<Rightarrow> (msg, state_settings) res"
  bt_subs :: "tree \<Rightarrow> string \<Rightarrow> (msg, subscriptions) res"
  bt_daemon :: "'f daemon_config \<Rightarrow> 'w env"

record 'w machine_state =
  bo_tree :: tree
  bo_socket :: path_entry
  bo_hosted :: bool
  bo_world :: 'w

definition serve_opts :: "('l, 'f, 'w) start_env \<Rightarrow> daemon_flags \<Rightarrow> 'f config_opt list" where
  "serve_opts B F = [WithOwnerFile (fl_ownerFile F), WithVersion (bt_version B), WithLogger (Some (bt_log B)),
     WithStateDir (fl_state F), WithTailscaleSync (Some (bt_sync B))]"

text \<open>\<^verbatim>\<open>New\<close>: the options in order over the defaults, the store, and what it remembers.\<close>

definition daemon_New ::
  "('l, 'f, 'w) start_env \<Rightarrow> 'f config_opt list \<Rightarrow> 'w machine_state \<Rightarrow> (msg, 'f daemon_config \<times> server) res \<times> 'w machine_state" where
  "daemon_New B opts b =
     (let cfg = fold apply_opt opts (default_config (bt_log B) (bt_present B) (bt_now B))
      in case state_Open (bt_dirs B) (df_stateDir cfg) (bo_tree b) of
           (Some err, T) \<Rightarrow> (Inl err, b\<lparr>bo_tree := T\<rparr>)
         | (None, T) \<Rightarrow>
             (let owned = (case owner_Load (di_euid (bt_dirs B)) (T (df_ownerFile cfg)) of Inr _ \<Rightarrow> df_tailscaleSync cfg \<noteq> None | Inl _ \<Rightarrow> False)
              in case New (bt_daemon B cfg) owned (bt_settings B T (df_stateDir cfg)) (bt_subs B T (df_stateDir cfg)) (bo_world b) of
                   (Inl err, w) \<Rightarrow> (Inl err, b\<lparr>bo_tree := T, bo_world := w\<rparr>)
                 | (Inr s, w) \<Rightarrow> (Inr (cfg, s), b\<lparr>bo_tree := T, bo_world := w\<rparr>)))"

definition serve_sockets :: "('l, 'f, 'w) start_env \<Rightarrow> 'w machine_state \<Rightarrow> (msg, 'l list) res \<times> 'w machine_state" where
  "serve_sockets B b =
     (case fst (Listeners (bt_pid B) (bt_fds B) (bt_self B) (bt_adopt B)) of
        Inl err \<Rightarrow> (Inl ((''socket activation: %w'', []) # err), b)
      | Inr (l # ls) \<Rightarrow> (Inr (l # ls), b)
      | Inr [] \<Rightarrow>
          (case listen (bt_listen B) (bo_socket b) of
             (Some err, p) \<Rightarrow> (Inl ((''bind %s: %w'', []) # err), b\<lparr>bo_socket := p\<rparr>)
           | (None, p) \<Rightarrow> (Inr [bt_bound B], b\<lparr>bo_socket := p\<rparr>)))"

text \<open>\<^verbatim>\<open>serve\<close> up to \<^verbatim>\<open>Run\<close>; that a notification fails is only logged.\<close>

definition serve_start ::
  "('l, 'f, 'w) start_env \<Rightarrow> daemon_flags \<Rightarrow> 'w machine_state \<Rightarrow> (msg, 'l list \<times> 'f daemon_config \<times> server) res \<times> 'w machine_state" where
  "serve_start B F b =
     (case serve_sockets B b of
        (Inl err, b1) \<Rightarrow> (Inl err, b1)
      | (Inr ls, b1) \<Rightarrow>
          (case daemon_New B (serve_opts B F) b1 of
             (Inl err, b2) \<Rightarrow> (Inl ((''read the state: %w'', []) # err), b2)
           | (Inr (cfg, s), b2) \<Rightarrow> (Inr (ls, cfg, s), b2)))"

datatype start_error = StartUsage msg | StartFailed msg

definition choose_core :: "('l, 'f, 'w) start_env \<Rightarrow> daemon_flags \<Rightarrow> 'w machine_state \<Rightarrow> start_error option \<times> 'w machine_state" where
  "choose_core B F b =
     (if fl_core F = ''fake'' then (None, b)
      else if fl_core F = ''mihomo''
      then (case mihomo_New (bt_dirs B) (fl_home F) (bo_hosted b) (bo_tree b) of
              (Some err, hosted, T) \<Rightarrow> (Some (StartFailed ((''start the core: %w'', []) # err)), b\<lparr>bo_hosted := hosted, bo_tree := T\<rparr>)
            | (None, hosted, T) \<Rightarrow> (None, b\<lparr>bo_hosted := hosted, bo_tree := T\<rparr>))
      else (Some (StartUsage [(''unknown core %q'', [fl_core F])]), b))"

definition daemonCommand ::
  "('l, 'f, 'w) start_env \<Rightarrow> daemon_flags \<Rightarrow> string list \<Rightarrow> 'w machine_state
    \<Rightarrow> (start_error, 'l list \<times> 'f daemon_config \<times> server) res \<times> 'w machine_state" where
  "daemonCommand B F args b =
     (if args \<noteq> [] then (Inl (StartUsage [(''daemon takes no arguments'', [])]), b)
      else case choose_core B F b of
             (Some err, b1) \<Rightarrow> (Inl err, b1)
           | (None, b1) \<Rightarrow>
               (case serve_start B F b1 of
                  (Inl err, b2) \<Rightarrow> (Inl (StartFailed err), b2)
                | (Inr x, b2) \<Rightarrow> (Inr x, b2)))"

subsection \<open>What holds when it serves\<close>

definition private_at :: "nat \<Rightarrow> tree \<Rightarrow> string \<Rightarrow> bool" where
  "private_at euid T dir \<longleftrightarrow> (\<exists>f. T dir = Node f \<and> nd_kind f = Directory \<and> nd_uid f = euid \<and> closed_to_others (nd_mode f))"

definition guarded_at :: "nat \<Rightarrow> tree \<Rightarrow> string \<Rightarrow> bool" where
  "guarded_at euid T dir \<longleftrightarrow> (\<exists>f. T dir = Node f \<and> private_directory euid f)"

lemma closed_not_writable: "closed_to_others m \<Longrightarrow> \<not> writable_by_others m"
proof -
  assume "closed_to_others m"
  then obtain k where "m = 64 * k" by (auto simp: closed_to_others_def elim: dvdE simp flip: dvd_eq_mod_eq_0)
  then show ?thesis by (simp add: writable_by_others_def)
qed

lemma private_guarded: "private_at euid T dir \<Longrightarrow> guarded_at euid T dir"
  by (auto simp: private_at_def guarded_at_def private_directory_def closed_not_writable)

lemma MkdirAll_keeps: "MkdirAll euid fault dir T = (r, T1) \<Longrightarrow> T1 d = T d \<or> d = dir \<and> T dir = Nothing \<and> T1 d = Node (new_directory euid)"
  by (auto simp: MkdirAll_def split: path_entry.splits option.splits if_splits)

lemma new_directory_private [simp]: "closed_to_others (nd_mode (new_directory euid))" "nd_kind (new_directory euid) = Directory"
    "nd_uid (new_directory euid) = euid" "closed_to_others 448"
  by (simp_all add: new_directory_def closed_to_others_def)

lemma state_privateDir_private:
  assumes "state_privateDir D dir T = (None, T1)"
  shows "private_at (di_euid D) T1 dir"
  using assms by (auto simp: state_privateDir_def private_at_def split: prod.splits option.splits path_entry.splits if_splits)

lemma state_privateDir_keeps:
  assumes "state_privateDir D dir T = (r, T1)"
  shows "(private_at e T d \<longrightarrow> private_at e T1 d) \<and> (guarded_at e T d \<longrightarrow> guarded_at e T1 d)"
proof -
  obtain r0 T0 where m: "MkdirAll (di_euid D) (di_mkdir D dir) dir T = (r0, T0)" by fastforce
  have "T1 = T0 \<or> (\<exists>f. T0 dir = Node f \<and> nd_kind f = Directory \<and> T1 = T0(dir := Node (f\<lparr>nd_mode := 448\<rparr>)))"
    using assms m by (auto simp: state_privateDir_def split: option.splits path_entry.splits if_splits)
  moreover have "(private_at e T d \<longrightarrow> private_at e T0 d) \<and> (guarded_at e T d \<longrightarrow> guarded_at e T0 d)"
    using MkdirAll_keeps[OF m, of d] by (auto simp: private_at_def guarded_at_def)
  moreover have "\<not> writable_by_others 448" by (rule closed_not_writable) simp
  ultimately show ?thesis by (auto simp: private_at_def guarded_at_def private_directory_def)
qed

lemma state_Open_private:
  assumes "state_Open D dir T = (None, T1)"
  shows "is_abs dir" "private_at (di_euid D) T1 dir" "private_at (di_euid D) T1 (snapshots_of dir)"
proof -
  obtain T0 where o: "is_abs dir" "state_privateDir D dir T = (None, T0)" "state_privateDir D (snapshots_of dir) T0 = (None, T1)"
    using assms by (auto simp: state_Open_def split: if_splits prod.splits option.splits)
  show "is_abs dir" by (rule o(1))
  show "private_at (di_euid D) T1 dir" using state_privateDir_private[OF o(2)] state_privateDir_keeps[OF o(3)] by blast
  show "private_at (di_euid D) T1 (snapshots_of dir)" by (rule state_privateDir_private[OF o(3)])
qed

lemma state_Open_keeps:
  assumes "state_Open D dir T = (r, T1)" "guarded_at e T d"
  shows "guarded_at e T1 d"
proof -
  obtain r0 T0 where o: "state_privateDir D dir T = (r0, T0)" by fastforce
  show ?thesis using assms o state_privateDir_keeps[OF o, of e d] state_privateDir_keeps[of D "snapshots_of dir" T0 r T1 e d]
    by (auto simp: state_Open_def split: if_splits option.splits)
qed

lemma mihomo_New_guarded:
  "mihomo_New D home hosted T = (None, hosted', T1) \<Longrightarrow> is_abs home \<and> guarded_at (di_euid D) T1 home \<and> \<not> hosted \<and> hosted'"
  by (auto simp: mihomo_New_def home_privateDir_def guarded_at_def split: if_splits prod.splits option.splits path_entry.splits)

text \<open>An option with a zero value keeps what was there.\<close>

definition config_sound :: "'f daemon_config \<Rightarrow> bool" where
  "config_sound c \<longleftrightarrow> df_ownerFile c \<noteq> [] \<and> df_version c \<noteq> [] \<and> df_egressURL c \<noteq> [] \<and> df_stateDir c \<noteq> [] \<and> 0 < df_tick c \<and> 0 < df_maxClients c
     \<and> 0 < df_groupsEvery c \<and> 0 < df_refreshEvery c \<and> 0 < df_downloadLimit c"

lemma apply_opt_sound: "config_sound c \<Longrightarrow> config_sound (apply_opt opt c)"
  by (cases opt) (auto simp: config_sound_def set_field_def)

lemma fold_opts_sound: "config_sound c \<Longrightarrow> config_sound (fold apply_opt opts c)"
  by (induction opts arbitrary: c) (auto simp: apply_opt_sound)

lemma default_config_sound: "config_sound (default_config log present now)"
  by (simp add: config_sound_def default_config_def owner_DefaultPath_def state_DefaultDir_def MaxBytes_def)

lemma adopt_all_result:
  "adopt_all adopt fds out = (r, shut) \<Longrightarrow> (case r of
      Inl _ \<Rightarrow> \<exists>done fd rest ls. fds = done @ fd # rest \<and> map adopt done = map Inr ls \<and> (\<exists>err. adopt fd = Inl err) \<and> shut = out @ ls
    | Inr all \<Rightarrow> shut = [] \<and> (\<exists>ls. map adopt fds = map Inr ls \<and> all = out @ ls))"
proof (induction fds arbitrary: out r shut)
  case (Cons fd fds)
  show ?case
  proof (cases "adopt fd")
    case (Inl err)
    then show ?thesis using Cons.prems by (fastforce intro: exI[of _ "[]"])
  next
    case (Inr l)
    then have "adopt_all adopt fds (out @ [l]) = (r, shut)" using Cons.prems by simp
    from Cons.IH[OF this] Inr show ?thesis
      by (cases r) (force intro: exI[of _ "fd # _"] exI[of _ "l # _"] simp: append_eq_Cons_conv)+
  qed
qed auto

lemma load_active_sel [simp]: "sv_state (load_active E w s) = sv_state s" "sv_settings (load_active E w s) = sv_settings s"
    "sv_restorePending (load_active E w s) = sv_restorePending s"
  by (simp_all add: load_active_def split: option.splits sum.splits)

lemma daemon_New_result:
  assumes "daemon_New B opts b = (Inr (cfg, s), b')"
  shows "cfg = fold apply_opt opts (default_config (bt_log B) (bt_present B) (bt_now B))"
    "state_Open (bt_dirs B) (df_stateDir cfg) (bo_tree b) = (None, bo_tree b')" "bo_socket b' = bo_socket b" "bo_hosted b' = bo_hosted b"
    "sv_state s = StateStopped" "sv_restorePending s = st_running (sv_settings s)"
  using assms by (auto simp: daemon_New_def New_def Let_def split: prod.splits option.splits sum.splits)

lemma serve_sockets_result:
  assumes "serve_sockets B b = (Inr ls, b')"
  shows "ls \<noteq> []" "bo_tree b' = bo_tree b" "bo_hosted b' = bo_hosted b"
    "b' = b \<or> (\<exists>uid. bo_socket b' = Node (bound_socket uid) \<and>
      (if ln_euid (bt_listen B) = 0 then owner_Load 0 (ln_owner (bt_listen B)) = Inr uid else uid = ln_euid (bt_listen B)))"
  using assms by (auto simp: serve_sockets_def listen_def bind_owned_def split: prod.splits option.splits sum.splits list.splits path_entry.splits if_splits)

lemma choose_core_result:
  assumes "choose_core B F b = (None, b')"
  shows "bo_socket b' = bo_socket b" "fl_core F \<noteq> ''fake'' \<Longrightarrow> fl_core F = ''mihomo'' \<and> is_abs (fl_home F)
     \<and> guarded_at (di_euid (bt_dirs B)) (bo_tree b') (fl_home F) \<and> \<not> bo_hosted b \<and> bo_hosted b'"
  using assms by (auto simp: choose_core_def dest!: mihomo_New_guarded split: if_splits prod.splits option.splits)


text \<open>A first start, with one socket from systemd.\<close>

definition boot_env :: "(nat, unit, source_config mihomo_core host) start_env" where
  "boot_env = \<lparr>bt_dirs = \<lparr>di_euid = 0, di_mkdir = (\<lambda>_. None), di_chmod = (\<lambda>_. None)\<rparr>, bt_pid = ''7'', bt_fds = ''1'', bt_self = 7,
     bt_adopt = Inr, bt_listen = \<lparr>ln_euid = 0, ln_dir = Nothing, ln_answers = False, ln_remove = None, ln_bind = None, ln_chown = None, ln_owner = Nothing\<rparr>,
     bt_bound = 0, bt_version = ''1.0.0'', bt_log = (), bt_present = (), bt_sync = (), bt_now = (),
     bt_settings = (\<lambda>_ _. Inr DefaultSettings), bt_subs = (\<lambda>_ _. Inr demo_subs), bt_daemon = (\<lambda>_. demo_env)\<rparr>"

definition boot_state :: "source_config mihomo_core host machine_state" where
  "boot_state = \<lparr>bo_tree = (\<lambda>_. Nothing), bo_socket = Nothing, bo_hosted = False, bo_world = demo_host\<rparr>"

lemma boot_sel [simp]:
  "bt_dirs boot_env = \<lparr>di_euid = 0, di_mkdir = (\<lambda>_. None), di_chmod = (\<lambda>_. None)\<rparr>" "bt_adopt boot_env = Inr"
  "bt_pid boot_env = ''7''" "bt_fds boot_env = ''1''" "bt_self boot_env = 7" "bt_settings boot_env = (\<lambda>_ _. Inr DefaultSettings)"
  "bt_subs boot_env = (\<lambda>_ _. Inr demo_subs)" "bt_daemon boot_env = (\<lambda>_. demo_env)"
  "bo_tree boot_state = (\<lambda>_. Nothing)" "bo_world boot_state = demo_host" "bo_hosted boot_state = False"
  by (simp_all add: boot_env_def boot_state_def)

definition boot_config :: "unit daemon_config" where
  "boot_config = fold apply_opt (serve_opts boot_env default_flags) (default_config () () ())"

lemma boot_config_paths: "df_stateDir boot_config = ''/var/lib/omihomo''" "df_ownerFile boot_config = ''/var/lib/omihomo/owner''"
  by code_simp+

lemma boot_steps:
  "fst (Listeners ''7'' ''1'' 7 (Inr :: nat \<Rightarrow> (msg, nat) res)) = Inr [3]"
  "fst (mihomo_New \<lparr>di_euid = 0, di_mkdir = (\<lambda>_. None), di_chmod = (\<lambda>_. None)\<rparr> ''/var/lib/omihomo/core'' False (\<lambda>_. Nothing)) = None"
  by code_simp+

definition boot_trees :: "tree \<times> tree" where
  "boot_trees = (let D = \<lparr>di_euid = 0, di_mkdir = (\<lambda>_. None), di_chmod = (\<lambda>_. None)\<rparr>; T = snd (snd (mihomo_New D ''/var/lib/omihomo/core'' False (\<lambda>_. Nothing)))
     in (T, snd (state_Open D ''/var/lib/omihomo'' T)))"

lemma boot_opened:
  "fst (state_Open \<lparr>di_euid = 0, di_mkdir = (\<lambda>_. None), di_chmod = (\<lambda>_. None)\<rparr> ''/var/lib/omihomo'' (fst boot_trees)) = None"
  "fst (snd (mihomo_New \<lparr>di_euid = 0, di_mkdir = (\<lambda>_. None), di_chmod = (\<lambda>_. None)\<rparr> ''/var/lib/omihomo/core'' False (\<lambda>_. Nothing))) = True"
  "snd boot_trees ''/var/lib/omihomo/owner'' = Nothing"
  by code_simp+

lemma boot_runs:
  "daemonCommand boot_env default_flags [] boot_state
     = (Inr ([3], boot_config, demo_server), boot_state\<lparr>bo_tree := snd boot_trees, bo_hosted := True\<rparr>)"
proof -
  have m: "mihomo_New \<lparr>di_euid = 0, di_mkdir = (\<lambda>_. None), di_chmod = (\<lambda>_. None)\<rparr> ''/var/lib/omihomo/core'' False (\<lambda>_. Nothing) = (None, True, fst boot_trees)"
    using boot_steps(2) boot_opened(2) by (simp add: boot_trees_def Let_def prod_eq_iff)
  have o: "state_Open \<lparr>di_euid = 0, di_mkdir = (\<lambda>_. None), di_chmod = (\<lambda>_. None)\<rparr> ''/var/lib/omihomo'' (fst boot_trees) = (None, snd boot_trees)"
    using boot_opened(1) by (simp add: boot_trees_def Let_def prod_eq_iff)
  have c: "choose_core boot_env default_flags boot_state = (None, boot_state\<lparr>bo_hosted := True, bo_tree := fst boot_trees\<rparr>)"
    by (simp add: choose_core_def default_flags_def m)
  have k: "serve_sockets boot_env b = (Inr [3], b)" for b by (simp add: serve_sockets_def boot_steps(1))
  have d: "fold apply_opt (serve_opts boot_env default_flags) (default_config (bt_log boot_env) (bt_present boot_env) (bt_now boot_env)) = boot_config"
    by (simp add: boot_config_def)
  have n: "daemon_New boot_env (serve_opts boot_env default_flags) (boot_state\<lparr>bo_hosted := True, bo_tree := fst boot_trees\<rparr>)
      = (Inr (boot_config, demo_server), boot_state\<lparr>bo_tree := snd boot_trees, bo_hosted := True\<rparr>)"
    unfolding daemon_New_def d using demo_new_eq
    by (simp add: boot_config_paths o boot_opened(3) owner_Load_def demo_new_def boot_state_def)
  show ?thesis by (simp add: daemonCommand_def serve_start_def c k n)
qed


end
