(* ===== verification/Selection_Export.thy ===== *)
theory Selection_Export
  imports Startup Migration Requests
begin

text \<open>
  The old core's choices of proxies: \<^verbatim>\<open>internal/cli/selection_export.go\<close> has them read by a helper process that is not root,
  \<^verbatim>\<open>internal/cli/preflight.go\<close> tries a whole import, and \<^verbatim>\<open>internal/core/mihomo/selections.go\<close> writes them where the engine looks. The
  process that is started, accounts, JSON and the database are parameters.
\<close>

subsection \<open>The helper\<close>

record child_command =
  ch_args :: "string list"
  ch_env :: "string list"
  ch_cred :: "(int \<times> int) option"

text \<open>What a process writes, in the pieces it is written in, and whether it exits with success.\<close>

record child_result =
  cr_stdout :: "string list"
  cr_stderr :: "string list"
  cr_ok :: bool

record export_env =
  ex_uid :: int
  ex_gid :: int
  ex_euid :: nat
  ex_sudo :: string
  ex_pkexec :: string
  ex_account :: "nat \<Rightarrow> (msg, string) res"
  ex_executable :: "msg option"
  ex_temp :: "(msg, string) res"
  ex_chown :: "msg option"
  ex_child :: "child_command \<Rightarrow> string \<Rightarrow> child_result"
  ex_decode :: "string \<Rightarrow> string strmap option"

definition exportOwner :: "export_env \<Rightarrow> (msg, int \<times> int) res" where
  "exportOwner X =
     (if ex_euid X \<noteq> 0 then Inr (ex_uid X, ex_gid X)
      else case invokingUID (ex_sudo X) (ex_pkexec X) of
             Inl err \<Rightarrow> Inl err
           | Inr uid \<Rightarrow>
               (case ex_account X uid of
                  Inl err \<Rightarrow> Inl err
                | Inr gid \<Rightarrow> (case parse_int gid of None \<Rightarrow> Inl [(''%q is not a number'', [gid])] | Some n \<Rightarrow> Inr (int uid, n))))"

definition MaxSelectionExport :: nat where "MaxSelectionExport = 2 * 2 ^ 20"

text \<open>\<^verbatim>\<open>exportOutput.Write\<close> for the pieces that come: all that was written, unless one is over what is left.\<close>

fun output_writes :: "nat \<Rightarrow> string list \<Rightarrow> string option" where
  "output_writes left [] = Some []"
| "output_writes left (p # ps) = (if length p > left then None else map_option ((@) p) (output_writes (left - length p) ps))"

text \<open>\<^verbatim>\<open>Run\<close> fails when the process does or when what it writes is refused.\<close>

definition runSelectionExport :: "export_env \<Rightarrow> child_command \<Rightarrow> string \<Rightarrow> (msg, string strmap) res" where
  "runSelectionExport X cmd body =
     (let c = ex_child X cmd body in
      case (output_writes MaxSelectionExport (cr_stdout c), output_writes (16 * 2 ^ 10) (cr_stderr c), cr_ok c) of
        (Some output, Some _, True) \<Rightarrow>
          (case ex_decode X output of
             None \<Rightarrow> Inl [(''old selection cache export is invalid'', [])]
           | Some selected \<Rightarrow>
               (case ValidateSelections selected of
                  None \<Rightarrow> Inr selected
                | Some SelectionLimits \<Rightarrow> Inl [(''old selections exceed import limits'', [])]
                | Some _ \<Rightarrow> Inl [(''old selections contain invalid names'', [])]))
      | _ \<Rightarrow> Inl [(''old selection cache export failed; cache may be corrupt or exceed limits'', [])])"

definition export_command :: "export_env \<Rightarrow> int \<Rightarrow> int \<Rightarrow> string \<Rightarrow> child_command" where
  "export_command X uid gid temp =
     \<lparr>ch_args = [''--internal-export-selections''], ch_env = [''PATH=/usr/bin'', ''GOMEMLIMIT=64MiB'', ''GOMAXPROCS=1'', ''TMPDIR='' @ temp],
      ch_cred = (if ex_euid X = 0 then Some (uid, gid) else None)\<rparr>"

text \<open>With the command that was run, if one was.\<close>

definition selectionExporter :: "export_env \<Rightarrow> int \<Rightarrow> int \<Rightarrow> string \<Rightarrow> (msg, string strmap) res \<times> child_command option" where
  "selectionExporter X uid gid body =
     (case ex_executable X of
        Some err \<Rightarrow> (Inl err, None)
      | None \<Rightarrow>
          (case ex_temp X of
             Inl err \<Rightarrow> (Inl err, None)
           | Inr temp \<Rightarrow>
               if ex_euid X = 0 \<and> (uid \<le> 0 \<or> gid < 0) then (Inl [(''selection export needs a nonroot owner'', [])], None)
               else if ex_euid X = 0 \<and> ex_chown X \<noteq> None then (Inl (the (ex_chown X)), None)
               else let cmd = export_command X uid gid temp in (runSelectionExport X cmd body, Some cmd)))"

text \<open>What the helper does with the program's own code: \<^verbatim>\<open>Run\<close> of \<^verbatim>\<open>cli.go\<close> for its one argument. \<open>pieces\<close> is how the pipe cuts what is written.\<close>

definition helper_run ::
  "(string strmap \<Rightarrow> string) \<Rightarrow> (string \<Rightarrow> (string \<times> string) list option option) \<Rightarrow> (string \<Rightarrow> string list) \<Rightarrow> nat
    \<Rightarrow> child_command \<Rightarrow> string \<Rightarrow> child_result" where
  "helper_run enc open_db pieces euid cmd body =
     (let uid = (case ch_cred cmd of Some (u, _) \<Rightarrow> nat u | None \<Rightarrow> euid)
      in case ExportLegacySelections (uid = 0) open_db body of
           Inr selected \<Rightarrow> \<lparr>cr_stdout = pieces (enc selected @ [CHR 0x0A]), cr_stderr = [], cr_ok = True\<rparr>
         | Inl e \<Rightarrow> \<lparr>cr_stdout = [], cr_stderr = [''error''], cr_ok = False\<rparr>)"

subsection \<open>Preflight\<close>

text \<open>The directory of the old data, from the flag and the environment.\<close>

definition preflight_source :: "string \<Rightarrow> string \<Rightarrow> (msg, string) res \<Rightarrow> (msg, string) res" where
  "preflight_source flag xdg home =
     (if flag \<noteq> [] then Inr flag
      else if is_abs xdg then Inr (xdg @ ''/omihomo'')
      else case home of Inl err \<Rightarrow> Inl err | Inr h \<Rightarrow> Inr (h @ ''/.local/share/omihomo''))"

text \<open>An import into a directory that is thrown away: whether there is something to import.\<close>

definition preflight ::
  "export_env \<Rightarrow> 'w import_env \<Rightarrow> (string \<Rightarrow> (string \<Rightarrow> old_file) option) \<Rightarrow> string list \<Rightarrow> string \<Rightarrow> string \<Rightarrow> (msg, string) res \<Rightarrow> (msg, string) res
    \<Rightarrow> bool \<Rightarrow> bool \<Rightarrow> 'w \<Rightarrow> (msg, bool) res \<times> 'w" where
  "preflight X M data args flag xdg home temp locked staged w =
     (if args \<noteq> [] then (Inl [(''preflight takes no arguments'', [])], w)
      else case preflight_source flag xdg home of
             Inl err \<Rightarrow> (Inl err, w)
           | Inr source \<Rightarrow>
     (case temp of
        Inl err \<Rightarrow> (Inl err, w)
      | Inr _ \<Rightarrow>
     (case exportOwner X of
        Inl err \<Rightarrow> (Inl err, w)
      | Inr (uid, gid) \<Rightarrow>
          (let M1 = M\<lparr>im_export := Some (\<lambda>body. case fst (selectionExporter X uid gid body) of Inr sel \<Rightarrow> Some sel | Inl _ \<Rightarrow> None)\<rparr>
           in case Prepare M1 (data source) NoDir False locked staged False w of
                (Inl _, w1) \<Rightarrow> (Inl [(''migration preflight (old install unchanged): %w'', [])], w1)
              | (Inr r, w1) \<Rightarrow> (Inr (r \<noteq> None), w1)))))"

subsection \<open>The engine's cache\<close>

text \<open>What is at the cache's path: bytes of some other file, or a database with the bucket of selections.\<close>

datatype cache_file = OtherBytes string | Selected "string strmap"

record cache_faults =
  cf_create :: "msg option"
  cf_close :: "msg option"
  cf_open :: "msg option"
  cf_update :: "msg option"
  cf_remove :: bool

definition ImportSelections ::
  "dir_faults \<Rightarrow> cache_faults \<Rightarrow> string \<Rightarrow> core_profile \<Rightarrow> string strmap \<Rightarrow> tree \<times> cache_file option \<Rightarrow> msg option \<times> tree \<times> cache_file option" where
  "ImportSelections D C home p selections st =
     (if selections = [] then (None, st)
      else if length selections > 4096 \<or> length (FilterSelections p selections) \<noteq> length selections
      then (Some [(''invalid imported selections'', [])], st)
      else case st of (T, cache) \<Rightarrow>
     (case home_privateDir D home T of
        (Some err, T1) \<Rightarrow> (Some err, T1, cache)
      | (None, T1) \<Rightarrow>
          if cache \<noteq> None then (Some [(''file exists'', [])], T1, cache)
          else case cf_create C of
                 Some err \<Rightarrow> (Some err, T1, None)
               | None \<Rightarrow>
          (case cf_close C of
             Some err \<Rightarrow> (Some err, T1, Some (OtherBytes []))
           | None \<Rightarrow>
          (let gone = (if cf_remove C then None else Some (OtherBytes []))
           in case cf_open C of
                Some err \<Rightarrow> (Some err, T1, gone)
              | None \<Rightarrow> (case cf_update C of Some err \<Rightarrow> (Some err, T1, gone) | None \<Rightarrow> (None, T1, Some (Selected selections)))))))"

subsection \<open>The database is not opened as root\<close>

lemma output_writes_all: "output_writes left ps = (if length (concat ps) \<le> left then Some (concat ps) else None)"
  by (induction left ps rule: output_writes.induct) auto

lemma runSelectionExport_Inr:
  assumes "runSelectionExport X cmd body = Inr selected"
  shows "cr_ok (ex_child X cmd body)" "length (concat (cr_stdout (ex_child X cmd body))) \<le> MaxSelectionExport"
    "ex_decode X (concat (cr_stdout (ex_child X cmd body))) = Some selected" "ValidateSelections selected = None"
  using assms
  by (auto simp: runSelectionExport_def Let_def output_writes_all split: option.splits bool.splits if_splits import_error.splits)

lemma exportOwner_nonroot: "exportOwner X = Inr (uid, gid) \<Longrightarrow> ex_euid X = 0 \<Longrightarrow> 0 < uid"
  using invokingUID_bounds by (auto simp: exportOwner_def split: sum.splits option.splits)

lemma export_entries_valid:
  "export_entries kvs selected = Inr out \<Longrightarrow> ValidateSelections selected = None \<Longrightarrow> ValidateSelections out = None"
proof (induction kvs selected rule: export_entries.induct)
  case (2 k v kvs selected)
  have "list_all (\<lambda>(g, m). selectionName g \<and> selectionName m) (delete_key k selected)" "length (delete_key k selected) \<le> length selected"
    using 2(3) by (auto simp: ValidateSelections_def delete_key_def list_all_iff split: if_splits)
  then have "ValidateSelections ((k, v) # delete_key k selected) = None" if "length selected < 4096" "selectionName k" "selectionName v"
    using that by (simp add: ValidateSelections_def)
  then show ?case using 2 by (auto split: if_splits)
qed simp

lemma ExportLegacySelections_valid: "ExportLegacySelections root open_db body = Inr out \<Longrightarrow> \<not> root \<and> ValidateSelections out = None"
  by (auto simp: ExportLegacySelections_def Let_def ValidateSelections_def[of "[]"] dest!: export_entries_valid split: if_splits option.splits)

text \<open>The engine's cache is written once: one that is there stays, and what is written are choices the profile offers.\<close>

lemma selections_seeded:
  assumes "ImportSelections D C home p selections (T, cache) = (r, T', cache')"
  shows "cache \<noteq> None \<Longrightarrow> cache' = cache" "r = None \<Longrightarrow> selections \<noteq> [] \<Longrightarrow> cache = None \<and> cache' = Some (Selected selections)"
    "r \<noteq> None \<Longrightarrow> cf_close C = None \<Longrightarrow> cf_remove C \<Longrightarrow> cache' = cache"
  using assms by (auto simp: ImportSelections_def Let_def split: if_splits prod.splits option.splits)

text \<open>C27: the old database is never opened by root, and its choices come through whole. Whoever runs the import, the helper that is started
  is given the account that invoked it, never root, and an environment of its own; what is accepted from it is within 2 MiB
  and valid; and with the program itself as the helper, the export succeeds with exactly the choices the helper reads from the database,
  whenever it can read them and their encoding fits.\<close>

theorem export_unprivileged:
  assumes "exportOwner X = Inr (uid, gid)" "selectionExporter X uid gid body = (r, spawned)"
  shows "(\<forall>cmd. spawned = Some cmd \<longrightarrow> (ex_euid X = 0 \<longrightarrow> ch_cred cmd = Some (uid, gid) \<and> 0 < uid \<and> 0 \<le> gid) \<and> (\<exists>temp. ch_env cmd =
        [''PATH=/usr/bin'', ''GOMEMLIMIT=64MiB'', ''GOMAXPROCS=1'', ''TMPDIR='' @ temp]))
    \<and> (\<forall>selected. r = Inr selected \<longrightarrow> ValidateSelections selected = None
        \<and> (\<exists>cmd. spawned = Some cmd \<and> length (concat (cr_stdout (ex_child X cmd body))) \<le> MaxSelectionExport))
    \<and> (\<forall>enc open_db pieces cmd. spawned = Some cmd \<and> ex_child X = helper_run enc open_db pieces (ex_euid X)
        \<and> (\<forall>b. concat (pieces b) = b) \<and> (\<forall>m. ex_decode X (enc m @ [CHR 0x0A]) = Some m) \<longrightarrow>
          (case ExportLegacySelections False open_db body of
             Inr selected \<Rightarrow> length (enc selected) < MaxSelectionExport \<longrightarrow> r = Inr selected
           | Inl _ \<Rightarrow> \<exists>err. r = Inl err))"
proof -
  have spawned: "r = runSelectionExport X cmd body \<and> (\<exists>temp. cmd = export_command X uid gid temp) \<and> (ex_euid X = 0 \<longrightarrow> 0 < uid \<and> 0 \<le> gid)"
    if "spawned = Some cmd" for cmd
    using assms(2) that by (auto simp: selectionExporter_def Let_def split: option.splits sum.splits if_splits)
  have valid: "ValidateSelections selected = None \<and> (\<exists>cmd. spawned = Some cmd \<and> length (concat (cr_stdout (ex_child X cmd body))) \<le> MaxSelectionExport)"
    if sel: "r = Inr selected" for selected
  proof -
    obtain cmd where "spawned = Some cmd"
      using assms(2) sel by (auto simp: selectionExporter_def Let_def split: option.splits sum.splits if_splits)
    then show ?thesis using spawned sel runSelectionExport_Inr by metis
  qed
  have through: "case ExportLegacySelections False open_db body of
             Inr selected \<Rightarrow> length (enc selected) < MaxSelectionExport \<longrightarrow> r = Inr selected
           | Inl _ \<Rightarrow> \<exists>err. r = Inl err"
    if "spawned = Some cmd" "ex_child X = helper_run enc open_db pieces (ex_euid X)" "\<forall>b. concat (pieces b) = b"
      "\<forall>m. ex_decode X (enc m @ [CHR 0x0A]) = Some m" for enc open_db pieces cmd
  proof -
    note rc = spawned[OF that(1)]
    have uid: "(case ch_cred cmd of Some (u, _) \<Rightarrow> nat u | None \<Rightarrow> ex_euid X) \<noteq> 0" using rc by (auto simp: export_command_def)
    show ?thesis
    proof (cases "ExportLegacySelections False open_db body")
      case (Inl e)
      then have "\<not> cr_ok (ex_child X cmd body)" using uid that(2) by (simp add: helper_run_def)
      then have "r \<noteq> Inr selected" for selected using rc runSelectionExport_Inr(1)[of X cmd body selected] by auto
      then show ?thesis using Inl by (cases r) auto
    next
      case (Inr selected)
      then have "ex_child X cmd body = \<lparr>cr_stdout = pieces (enc selected @ [CHR 0x0A]), cr_stderr = [], cr_ok = True\<rparr>"
        using uid that(2) by (simp add: helper_run_def)
      then show ?thesis using rc Inr that(3,4) ExportLegacySelections_valid[OF Inr]
        by (auto simp: runSelectionExport_def Let_def output_writes_all)
    qed
  qed
  show ?thesis using spawned valid through by (auto simp: export_command_def split: if_splits)
qed

text \<open>The account 1000 runs the import through sudo; the helper finds one choice.\<close>

fun flat_pairs :: "string strmap \<Rightarrow> string list" where
  "flat_pairs [] = []"
| "flat_pairs ((k, v) # m) = k # v # flat_pairs m"

fun pair_up :: "string list \<Rightarrow> string strmap" where
  "pair_up (k # v # xs) = (k, v) # pair_up xs"
| "pair_up _ = []"

lemma pair_up_flat: "pair_up (flat_pairs m) = m"
  by (induction m rule: flat_pairs.induct) auto

definition export_demo :: export_env where
  "export_demo = \<lparr>ex_uid = 0, ex_gid = 0, ex_euid = 0, ex_sudo = ''1000'', ex_pkexec = [], ex_account = (\<lambda>_. Inr ''1000''), ex_executable = None,
     ex_temp = Inr ''/tmp/x'', ex_chown = None,
     ex_child = helper_run (\<lambda>m. enc_list (flat_pairs m)) (\<lambda>_. Some (Some [(''G'', ''a'')])) (\<lambda>b. [b]) 0,
     ex_decode = (\<lambda>b. Some (pair_up (dec_all (butlast b))))\<rparr>"

lemma export_unprivileged_witness:
  "\<exists>cmd. selectionExporter export_demo 1000 1000 ''db'' = (Inr [(''G'', ''a'')], Some cmd) \<and> ch_cred cmd = Some (1000, 1000)"
proof -
  have "invokingUID ''1000'' [] = Inr 1000" "parse_int ''1000'' = Some 1000" by code_simp+
  then have o: "exportOwner export_demo = Inr (1000, 1000)" by (simp add: exportOwner_def export_demo_def)
  obtain r cmd where s: "selectionExporter export_demo 1000 1000 ''db'' = (r, Some cmd)"
    by (auto simp: selectionExporter_def export_demo_def Let_def)
  note e = export_unprivileged[OF o s]
  have x: "ExportLegacySelections False (\<lambda>_. Some (Some [(''G'', ''a'')])) ''db'' = Inr [(''G'', ''a'')]"
    "length (enc_list (flat_pairs [(''G'', ''a'')])) < MaxSelectionExport" by code_simp+
  have "ex_euid export_demo = 0" by (simp add: export_demo_def)
  then have "ch_cred cmd = Some (1000, 1000)" using e by simp
  moreover have "r = Inr [(''G'', ''a'')]"
  proof -
    have h: "ex_child export_demo = helper_run (\<lambda>m. enc_list (flat_pairs m)) (\<lambda>_. Some (Some [(''G'', ''a'')])) (\<lambda>b. [b]) (ex_euid export_demo)"
      "\<forall>m. ex_decode export_demo (enc_list (flat_pairs m) @ [CHR 0x0A]) = Some m"
      by (simp_all add: export_demo_def dec_all_enc pair_up_flat)
    then show ?thesis using e[THEN conjunct2, THEN conjunct2, rule_format, OF conjI[OF refl conjI[OF h(1) conjI[OF _ h(2)]]]] x by simp
  qed
  ultimately show ?thesis using s by simp
qed

end
