(* ===== verification/Spec2Isabelle.thy ===== *)
theory Spec2Isabelle
  imports Update_Props Migration_Props Fetch_Props Daemon_Props Demo Session_Claims Cli_Props Cutover_Props Client Tailscale Geodata Log_Tap Selection_Export
begin

text \<open>
  Omihomo runs the mihomo proxy core for a desktop. A daemon (\<^verbatim>\<open>internal/daemon\<close>) owns the state and serves
  one owner's clients over a socket; it keeps subscriptions, which it downloads (\<^verbatim>\<open>internal/fetch\<close>) and reads
  (\<^verbatim>\<open>internal/profile\<close>) into profiles of a closed set of data types; and it drives a core behind the interface
  \<^verbatim>\<open>core.Core\<close>, either mihomo (\<^verbatim>\<open>internal/core/mihomo\<close>) or a fake. What it must remember across restarts is in a
  state directory (\<^verbatim>\<open>internal/state\<close>). An updater run by the package's own command installs signed releases
  (\<^verbatim>\<open>internal/update\<close>).

  \<^bold>\<open>The data.\<close> \<open>Prelude\<close> holds Go strings as byte lists and the functions of \<^verbatim>\<open>strings\<close> and \<^verbatim>\<open>strconv\<close> that the sources
  call, error results as sums with their early return (\<open>bind_res\<close>), loops of such calls (\<open>map_res\<close>, \<open>fold_res\<close>) and
  Go maps as association lists. \<open>Core_Types\<close> has the dynamic values of a YAML document and the records of
  \<^verbatim>\<open>core.Config\<close>; \<open>Protocol\<close> the settings, rule entries, errors and replies of \<^verbatim>\<open>internal/protocol\<close>.

  \<^bold>\<open>From a subscription to a profile.\<close> \<open>Headers\<close>, \<open>Fetch\<close>: what a server's response says and how it is read.
  \<open>Rule_Lines\<close>: \<^verbatim>\<open>ParseRule\<close> and the engine's \<^verbatim>\<open>ruleLine\<close>, inverse to each other. \<open>Proxy_Schema\<close>, \<open>Amnezia\<close> and
  \<open>Proxy\<close>: the option schemas of every proxy type as data, with reading, checking and writing; \<open>Proxy_Props\<close> shows
  what a proxy that is kept has. \<open>Profile_Build\<close> is \<^verbatim>\<open>Document.Build\<close> with each of its drops and failures, and
  \<open>Build_Props\<close> the closure of what it returns. The claims are in \<open>Profile_Claims\<close>.

  \<^bold>\<open>From a profile to the engine.\<close> \<open>Rule_Check\<close> (\<^verbatim>\<open>daemon/rules.go\<close>) and \<open>Run_Config\<close> (\<^verbatim>\<open>daemon/settings.go\<close>) make the
  configuration the daemon hands to the core, \<open>Mihomo_Build\<close> (\<^verbatim>\<open>core/mihomo/build.go\<close>) the one the engine gets;
  \<open>Rule_Props\<close> relates the two to what the daemon lists. The claims are in \<open>Core_Claims\<close>.

  \<^bold>\<open>The cores.\<close> \<open>Core_Contract\<close> states as a locale what the daemon relies on: \<open>runs\<close> is the configuration a core runs,
  a successful \<^verbatim>\<open>Apply\<close> runs the new one, and a failed one keeps the old unless its error says the core stopped.
  \<open>Mihomo_Core\<close> (\<^verbatim>\<open>core/mihomo/core.go\<close>) over an abstract engine and \<open>Fake_Core\<close> both interpret it.

  \<^bold>\<open>The daemon.\<close> \<open>Server\<close> has the state of \<^verbatim>\<open>daemon.Server\<close> and the bounded queues of its clients, and the record \<open>env\<close>
  of what the daemon calls: its core, its store, downloads, geodata, a clock and Tailscale. A call takes the environment, the server and
  the world, and returns a reply with the two. \<open>Ops\<close> (\<^verbatim>\<open>daemon/ops.go\<close>) and \<open>Subscriptions\<close>
  (\<^verbatim>\<open>daemon/subscriptions.go\<close>) have the calls, \<open>Ops_Laws\<close> and \<open>Subs_Laws\<close> what each keeps, in the locale
  \<open>daemon_env\<close> of environments that keep their promises. \<open>System\<close> composes them: a step relation in which clients,
  the refresh loop and the clock take turns, with the points where a download lets other calls in between as steps of their own,
  and invariants of every reachable state by rule induction. \<open>Store\<close> models the state directory with every fault of a write and with
  crashes; \<open>Host\<close> builds an environment from the mihomo core, the store and scripted faults, and interprets
  \<open>daemon_env\<close>; \<open>Demo\<close> runs the daemon on it. \<open>Daemon_Props\<close> has further laws of single calls.

  \<^bold>\<open>The daemon's clients.\<close> \<open>Wire\<close> has the lines of the socket (\<^verbatim>\<open>protocol/lines.go\<close>), \<open>Dispatch\<close> the switch of \<^verbatim>\<open>handle\<close> with the
  decoding of arguments, and \<open>Sessions\<close> (\<^verbatim>\<open>daemon.go\<close>, \<^verbatim>\<open>session.go\<close>) a step relation on the server, the world and the clients:
  being admitted, a request read, a call answered, a message written, ticks, leaving, and the end of \<^verbatim>\<open>Run\<close>. \<open>Session_Laws\<close> shows what
  the operations do to the queues, \<open>Session_Props\<close> that every request is answered once and that answers end, \<open>Session_World\<close>
  that daemon and core stay in step under any requests; \<open>Session_Claims\<close> runs it over either core on the machine of \<open>Host\<close>.
  \<open>Mihomo_Live\<close> has what the core tells while it runs: traffic, delays, drains, and connections with the search for
  their processes; \<open>Log_Tap\<close> (\<^verbatim>\<open>core/mihomo/logs.go\<close>) how the errors an apply causes are picked from the engine's log. \<open>Client\<close> (\<^verbatim>\<open>internal/client\<close>) is the other end of the socket, again as a step relation.

  \<^bold>\<open>The command line.\<close> \<open>Command_Line\<close> (\<^verbatim>\<open>cli/cli.go\<close>, \<^verbatim>\<open>internal/settings\<close>) has the exit codes, the settings files and \<^verbatim>\<open>edit\<close>, the
  transaction that changes them; \<open>Rule_Edit\<close> (\<^verbatim>\<open>cli/rules.go\<close>) the edits of rules and categories; \<open>Requests\<close> the commands that make one
  call, tied to the daemon's \<open>handle\<close>. \<open>Cli_Props\<close> shows that edits are local and that files hold what the daemon runs.

  \<^bold>\<open>Owner, claim and cutover.\<close> \<open>Ownership\<close> has the owner record, the claim and the admission that rests on it (\<^verbatim>\<open>internal/owner\<close>,
  \<^verbatim>\<open>cli/claim.go\<close>, \<^verbatim>\<open>cli/daemon.go\<close>, \<^verbatim>\<open>internal/systemd\<close>). \<open>Migration\<close> (\<^verbatim>\<open>internal/migration\<close>) stages an old installation's state, and \<open>Migration_Props\<close>
  shows that the daemon can run what is staged. \<open>Cutover\<close> (\<^verbatim>\<open>cli/cutover.go\<close>) replaces the old installation, collecting an undo function for
  each step; \<open>Cutover_Props\<close> shows that what these would restore is an invariant, so a cutover that fails restores the files.
  \<open>Tailscale\<close> is the drop-in of \<^verbatim>\<open>internal/tailscale\<close>, with its undo. \<open>Startup\<close> is the daemon's way to serving: its options, the private
  directories, the sockets of systemd and the choice of the core. \<open>Selection_Export\<close> (\<^verbatim>\<open>cli/selection_export.go\<close>, \<^verbatim>\<open>cli/preflight.go\<close>) is
  the helper that reads the old core's database without root's rights, and the trial of an import.

  \<^bold>\<open>The network.\<close> \<open>Uplink\<close> (\<^verbatim>\<open>internal/uplink\<close>) finds the links and DNS servers around the proxy and dials over them; \<open>Download_Path\<close>
  (\<^verbatim>\<open>core/mihomo/dns.go\<close>, \<^verbatim>\<open>fetch/routing.go\<close>) chooses the way of a download; \<open>Fetcher\<close> is \<^verbatim>\<open>Fetcher.Get\<close> with redirects, decoding and
  scrubbing. \<open>Fetch_Props\<close> shows where downloads may connect and what they may say. \<open>Geodata\<close> (\<^verbatim>\<open>core/mihomo/remote.go\<close>) is which
  databases rules need and whether a file serves them. \<open>Update\<close> (\<^verbatim>\<open>internal/update\<close>, \<^verbatim>\<open>cmd/omihomo-update\<close>) installs signed
  releases, and \<open>Update_Props\<close> shows that nothing else gets to pacman.

  \<^bold>\<open>Bounds and fuel.\<close> No definition uses fuel. Loops are recursions over lists, or functions with a termination proof
  (\<open>strip_left\<close>, \<open>uniqueName_from\<close>, \<open>checkRuleRegex\<close>, the packet loop of \<open>Amnezia\<close>, the scanners of \<open>Geodata\<close>). Integers are unbounded where the
  code bounds them, and otherwise have their width written out; addresses are words of 32 and 128 bits.

  \<^bold>\<open>Parameters.\<close> Code outside the repository is an argument: YAML and share-link readers, Unicode's case tables, regular
  expressions, URL parsing, X.509 key pairs, \<^verbatim>\<open>encoding/json\<close> (with the round trip it documents), signatures and hashes, and
  mihomo's engine.

  \<^bold>\<open>Abstractions.\<close> Where \<^verbatim>\<open>slices.SortFunc\<close> leaves the order of ties open the model sorts stably; delay tests that run in parallel
  are in order, as no test sees another; a goroutine that only waits is a step that may be taken. Sockets, deadlines and the
  scheduler appear as choices of the step relations, so what is shown holds for all of them.

  \<^bold>\<open>Not modelled.\<close> mihomo's version and the sniffing of hosts, which are calls of mihomo; \<^verbatim>\<open>ParseLinks\<close>, which is mihomo's converter;
  flags, help texts, logging, signals, and the loop that prints pushed events; the system call that reads a peer's
  credentials, which is a parameter here; the dialers and stubs of the fake core; and the DNS server of the tests.
\<close>

section \<open>The daemon\<close>

text \<open>C1: the daemon and its core never disagree. In every state a run of the daemon reaches, whatever calls came in whatever order
  and whatever failed in them, a proxy shown as on is a core that runs the configuration of the current settings
  and the current profile, and a proxy shown as stopped is a core that is stopped.\<close>

theorem daemon_in_step:
  assumes "daemon_env E runs" "reachable E runs c"
  shows "in_step runs (sy_server c) (sy_world c)"
  using daemon_env.reachable_ok[OF assms] by (simp add: sys_ok_def)

theorem daemon_in_step_witness: "in_step demo_runs on_server on_host \<and> running on_server"
  using daemon_in_step[OF demo_daemon_env demo_started_reachable] demo_started_facts(3) by simp







text \<open>Stopping means stopped: whatever the state and whether or not the store can be written, after a stop the core runs
  nothing and the daemon shows it so.\<close>

theorem stop_stops_core:
  assumes "daemon_env E runs" "stop E s w = (r, s', w')"
  shows "runs w' = None \<and> sv_state s' = StateStopped \<and> in_step runs s' w'"
  using daemon_env.stop_in_step[OF assms] by simp

theorem stop_stops_core_witness: "demo_runs (snd (snd (stop demo_env on_server on_host))) = None"
proof -
  let ?r = "stop demo_env on_server on_host"
  have "?r = (fst ?r, fst (snd ?r), snd (snd ?r))" by simp
  from stop_stops_core[OF demo_daemon_env this] show ?thesis by simp
qed

definition demo_args :: apply_args where
  "demo_args = \<lparr>aa_settings = default_settings\<lparr>s_mode := ModeGlobal\<rparr>, aa_rules = st_rules demo_settings\<rparr>"



text \<open>Applying what is already stored changes nothing, of the daemon, its store or its core, whether it is accepted or not.\<close>

theorem apply_same_settings:
  assumes "aa_settings args = st_settings (sv_settings s)" "PruneCategories (aa_rules args) = st_rules (sv_settings s)"
  shows "snd (apply_settings E args s w) = (s, w)"
  using assms by (simp add: apply_settings_def apply_locked_def Let_def split: option.split)

theorem apply_same_settings_witness: "snd (apply_settings demo_env Default demo_server demo_host) = (demo_server, demo_host)"
  by (rule apply_same_settings) (simp_all add: Default_def PruneCategories_def demo_server_sel DefaultSettings_def)

section \<open>Subscriptions\<close>

text \<open>C16: a refresh that fails leaves every record as it was but for when it was tried, when to try again and why it failed:
  names, URLs, traffic counters, intervals, the time of the last accepted content and which one is active stay.\<close>

theorem refresh_failure_keeps:
  assumes "daemon_env E runs" "in_step runs s w" "refresh_finish E sub result s w = (Inl e, s', w')"
  shows "map content (su_list (sv_subs s')) = map content (su_list (sv_subs s)) \<and> su_active (sv_subs s') = su_active (sv_subs s)"
  using daemon_env.refresh_failed_content[OF assms(1,3,2)] .

definition demo_failure :: "(downloadError, fetched) res" where
  "demo_failure = Inl \<lparr>de_err = fail CodeFetch ''%v'' [], de_answered = True, de_retryAfter = 7200 * Second\<rparr>"

theorem refresh_failure_keeps_witness:
  "map content (su_list (sv_subs (fst (snd (refresh_finish demo_env demo_sub demo_failure demo_server demo_host))))) = [content demo_sub]
   \<and> sb_retry_at (hd (su_list (sv_subs (fst (snd (refresh_finish demo_env demo_sub demo_failure demo_server demo_host)))))) = 1700086400000"
proof -
  let ?r = "refresh_finish demo_env demo_sub demo_failure demo_server demo_host"
  have "isl (fst ?r)" by (simp add: refresh_finish_def demo_failure_def Let_def split: prod.split)
  then have "?r = (Inl (projl (fst ?r)), fst (snd ?r), snd (snd ?r))" by (metis prod.collapse sum.collapse(1))
  from refresh_failure_keeps[OF demo_daemon_env demo_in_step this]
  have "map content (su_list (sv_subs (fst (snd ?r)))) = [content demo_sub]" by (simp add: demo_server_sel)
  moreover have "sb_retry_at (hd (su_list (sv_subs (fst (snd ?r))))) = 1700086400000" by code_simp
  ultimately show ?thesis by blast
qed

text \<open>How long a failed refresh waits. A server that answered is asked again after its whole interval; one that did not is asked
  after a minute, then after twice the wait before, never beyond the interval; and never before the time
  the server asked for.\<close>

theorem retry_schedule:
  "retry_wait sub interval True after = max interval after
   \<and> retry_wait (sub\<lparr>sb_retry_at := 0\<rparr>) interval False 0 = max (min retryFirst interval) 0
   \<and> retry_wait (sub\<lparr>sb_last_attempt := int (Suc n), sb_retry_at := int (Suc n) + int (Suc gap)\<rparr>) interval False 0
       = max (min (2 * int (Suc gap) * 1000000) interval) 0
   \<and> after \<le> retry_wait sub interval answered after \<and> retry_wait sub interval answered after \<le> max interval after"
  by (auto simp: retry_wait_def Let_def)

text \<open>C40: the name a new subscription gets is one no other has, and one every call that takes a name accepts.\<close>

theorem new_name_fit:
  assumes "length subs < 10 ^ 60"
  shows "uniqueName subs (Name L h url) \<notin> sb_name ` set subs \<and> validName ''subscription'' (uniqueName subs (Name L h url)) = None
    \<and> safe_name (uniqueName subs (Name L h url))"
proof -
  have "safe_name (uniqueName subs (Name L h url)) \<and> uniqueName subs (Name L h url) \<noteq> [] \<and> length (uniqueName subs (Name L h url)) \<le> 4 * MaxTitle"
    using Name_safe[of L h url] Name_length[of L h url] assms by (intro uniqueName_ok) simp_all
  then show ?thesis using uniqueName_fresh[of subs "Name L h url"]
    by (simp add: validName_def safe_name_def MaxTitle_def Rule_Check.maxName_def)
qed

theorem new_name_fit_witness:
  "uniqueName [demo_sub\<lparr>sb_name := ''example.org''\<rparr>] (Name (hp_headers demo_params) [] demo_url) = ''example.org 2''
   \<and> validName ''subscription'' (uniqueName [demo_sub\<lparr>sb_name := ''example.org''\<rparr>] (Name (hp_headers demo_params) [] demo_url)) = None"
proof -
  have "uniqueName [demo_sub\<lparr>sb_name := ''example.org''\<rparr>] (Name (hp_headers demo_params) [] demo_url) = ''example.org 2''" by code_simp
  then show ?thesis using new_name_fit[of "[demo_sub\<lparr>sb_name := ''example.org''\<rparr>]" "hp_headers demo_params" "[]" demo_url] by simp
qed

text \<open>One limit covers a subscription and all its providers: when a download succeeds, its body and those of its at most 64
  providers together are within the limit, if the fetcher keeps each request within its own.\<close>

theorem download_budget:
  assumes "fetch_bounded E" "0 < e_download_limit E" "download E name url s w = (Inr dl, s', w')"
  shows "int (length (sn_body (dn_snap dl))) + bytes_total (sn_providers (dn_snap dl)) \<le> e_download_limit E
    \<and> length (sn_providers (dn_snap dl)) \<le> 64"
  using download_total[OF assms] by (simp add: maxProviders_def)

lemma host_fetch_bounded: "fetch_bounded (host_env C P)"
  by (auto simp: fetch_bounded_def host_env_def host_fetch_def split: list.splits sum.splits if_splits)

theorem download_budget_witness:
  "\<exists>dl s' w'. download demo_env ''demo'' demo_url demo_server demo_host = (Inr dl, s', w')
     \<and> int (length (sn_body (dn_snap dl))) + bytes_total (sn_providers (dn_snap dl)) \<le> 1000"
proof -
  let ?r = "download demo_env ''demo'' demo_url demo_server demo_host"
  have "\<not> isl (fst ?r)" by code_simp
  then obtain dl s' w' where r: "?r = (Inr dl, s', w')" by (metis prod.collapse sum.collapse(2))
  have "fetch_bounded demo_env" "e_download_limit demo_env = 1000"
    by (simp_all add: demo_env_def host_fetch_bounded) (simp add: host_env_def demo_params_def)
  then show ?thesis using download_budget[OF _ _ r] r by simp
qed

text \<open>A download goes around the proxy only for the first subscription or with the owner's consent to that one request: while the
  owner consents to nothing, it makes no difference what a request that may go around would return.\<close>

theorem direct_needs_consent:
  assumes "\<not> e_initial E" "\<And>pd w. fst (e_approval E pd w) \<noteq> Approved"
  shows "getDownload (direct_fetch X E) label rq s w = getDownload E label rq s w"
  using assms by (rule getDownload_consent)

definition wary_env :: "source_config mihomo_core host env" where
  "wary_env = demo_env\<lparr>e_approval := (\<lambda>pd w. (Declined, w)), e_fetch := (\<lambda>rq w. (Inl (no_answer\<lparr>fe_direct_required := True\<rparr>), w))\<rparr>"

theorem direct_needs_consent_witness:
  "getDownload (direct_fetch (\<lambda>rq w. (Inr \<lparr>rp_body = ''leak'', rp_header = []\<rparr>, w)) wary_env) ''Subscription''
       \<lparr>rq_url = demo_url, rq_max_bytes = 1000, rq_allow_direct = False\<rparr> demo_server demo_host
     = getDownload wary_env ''Subscription'' \<lparr>rq_url = demo_url, rq_max_bytes = 1000, rq_allow_direct = False\<rparr> demo_server demo_host"
  by (rule direct_needs_consent) (simp_all add: wary_env_def demo_env_def host_env_def)

section \<open>The store and the clients\<close>




text \<open>A codec for one value of each kind.\<close>

definition tiny_codec :: codec where
  "tiny_codec = \<lparr>enc_settings = (\<lambda>v. if v = DefaultSettings then Some ''d'' else None),
     dec_settings = (\<lambda>b. if b = [CHR ''d'', CHR 0x0A] then Some DefaultSettings else None),
     enc_subs = (\<lambda>_. None), dec_subs = (\<lambda>_. None), enc_snapshot = (\<lambda>_. None), dec_snapshot = (\<lambda>_. None)\<rparr>"


text \<open>What waits for a client is bounded: publishing, and subscribing to streams, never leave more than 256 lines in the queue
  of any client.\<close>

theorem client_queues_bounded:
  assumes "queues_ok s" "i < length (hb_sessions (sv_hub s))"
  shows "queues_ok (publish E w s) \<and> queues_ok (snd (subscribe E i streams on w s))"
  by (intro conjI publish_queue subscribe_queue assms)

definition one_client :: server where
  "one_client = demo_server\<lparr>sv_hub := empty_hub\<lparr>hb_sessions := [\<lparr>sn_streams = [], sn_out = [], sn_closed = False\<rparr>]\<rparr>\<rparr>"

theorem client_queues_bounded_witness:
  "queues_ok (snd (subscribe demo_env 0 [StreamStatus, StreamRules] True demo_host one_client))"
proof -
  have "queues_ok one_client" "0 < length (hb_sessions (sv_hub one_client))" by (simp_all add: one_client_def queues_ok_def)
  then show ?thesis by (rule client_queues_bounded[THEN conjunct2])
qed

end
